(* ===== verification/Prelude.thy ===== *)
theory Prelude
  imports Main "HOL-Library.Word"
begin

text \<open>
  Shared vocabulary of the development: the JavaScript number conversions that the client's
  bit manipulation relies on, typed byte arrays and views onto them, results of code that
  may throw, and the list lemmas the components share.

  JavaScript numbers that only ever hold integers are \<open>int\<close> (or \<open>nat\<close> for indices and
  lengths that the code never lets go negative). The bitwise operators of the language work
  on 32-bit two's complement values: their operands go through \<open>toInt32\<close>, and \<open>\<ggreater>\<ggreater>\<close> with
  sign fill, zero fill and the left shift are \<open>js_sar\<close>, \<open>js_shr\<close> and \<open>js_shl\<close>. A cell of a
  \<open>Uint8Array\<close> is an \<open>8 word\<close>: reading it is \<open>uint\<close>, and storing a number stores it modulo
  256, which is what \<open>word_of_int\<close> does.
\<close>

unbundle bit_operations_syntax

named_theorems js_num \<open>unfoldings of the JavaScript number operations\<close>
named_theorems sock_simps \<open>how the socket operations act on the bytes still to be read\<close>
named_theorems disp_simps \<open>how the drawing operations act on the display\<close>

section \<open>Numbers\<close>

type_synonym byte = "8 word"
type_synonym bytes = "8 word list"

definition toInt32 :: "int \<Rightarrow> int" where
  "toInt32 n = signed_take_bit 31 n"

definition toUint32 :: "int \<Rightarrow> int" where
  "toUint32 n = take_bit 32 n"

definition js_shl :: "int \<Rightarrow> nat \<Rightarrow> int" where
  "js_shl a k = toInt32 (push_bit k (toInt32 a))"

definition js_sar :: "int \<Rightarrow> nat \<Rightarrow> int" where
  "js_sar a k = drop_bit k (toInt32 a)"

definition js_shr :: "int \<Rightarrow> nat \<Rightarrow> int" where
  "js_shr a k = drop_bit k (toUint32 a)"

definition js_and :: "int \<Rightarrow> int \<Rightarrow> int" where
  "js_and a b = toInt32 a AND toInt32 b"

definition js_or :: "int \<Rightarrow> int \<Rightarrow> int" where
  "js_or a b = toInt32 a OR toInt32 b"

definition js_xor :: "int \<Rightarrow> int \<Rightarrow> int" where
  "js_xor a b = toInt32 a XOR toInt32 b"

definition js_not :: "int \<Rightarrow> int" where
  "js_not a = NOT (toInt32 a)"

lemmas js_num_defs [js_num] =
  toInt32_def toUint32_def js_shl_def js_sar_def js_shr_def js_and_def js_or_def js_xor_def
  js_not_def

text \<open>Storing a number in a byte cell, and reading a cell; a read outside the array is
  \<open>undefined\<close>, which the bit operators take as 0.\<close>

definition u8 :: "int \<Rightarrow> byte" where
  "u8 n = word_of_int n"

definition u8_at :: "bytes \<Rightarrow> nat \<Rightarrow> int option" where
  "u8_at a i = (if i < length a then Some (uint (a ! i)) else None)"

fun undef0 :: "int option \<Rightarrow> int" where
  "undef0 None = 0"
| "undef0 (Some n) = n"

definition byte_at :: "bytes \<Rightarrow> nat \<Rightarrow> int" where
  "byte_at data i = undef0 (u8_at data i)"

lemma uint_byte_range [simp]: "0 \<le> uint (b :: byte)" "uint (b :: byte) < 256"
  using uint_bounded [of b] by simp_all

lemma uint_u8: "uint (u8 n) = n mod 256"
  by (simp add: u8_def uint_word_of_int)

lemma u8_uint [simp]: "u8 (uint b) = b"
  by (simp add: u8_def)

lemma toInt32_small: "- (2 ^ 31) \<le> n \<Longrightarrow> n < 2 ^ 31 \<Longrightarrow> toInt32 n = n"
  by (simp add: toInt32_def signed_take_bit_int_eq_self)

lemma toInt32_byte [simp]: "toInt32 (uint (b :: byte)) = uint b"
proof (rule toInt32_small)
  have "uint b < 256" by simp
  also have "(256 :: int) < 2 ^ 31" by simp
  finally show "uint b < 2 ^ 31" .
qed (rule order_trans [of _ 0], simp_all)

lemma toUint32_range: "0 \<le> toUint32 n" "toUint32 n < 2 ^ 32"
  using take_bit_int_less_exp [of 32 n] by (simp_all add: toUint32_def)

lemma toUint32_mod: "toUint32 n = n mod 2 ^ 32"
  by (simp add: toUint32_def take_bit_eq_mod)

lemma toUint32_toInt32 [simp]: "toUint32 (toInt32 n) = toUint32 n"
  by (simp add: toUint32_def toInt32_def take_bit_signed_take_bit)

lemma toInt32_toUint32 [simp]: "toInt32 (toUint32 n) = toInt32 n"
  by (simp add: toUint32_def toInt32_def signed_take_bit_take_bit)

lemma toUint32_add_toInt32 [simp]:
  "toUint32 (a + toInt32 b) = toUint32 (a + b)"
  "toUint32 (toInt32 a + b) = toUint32 (a + b)"
proof -
  have "toUint32 (x + toInt32 y) = toUint32 (x + y)" for x y
  proof -
    have "toUint32 (x + toInt32 y) = take_bit 32 (take_bit 32 x + take_bit 32 (toInt32 y))"
      by (simp add: toUint32_def take_bit_add)
    also have "take_bit 32 (toInt32 y) = take_bit 32 y"
      using toUint32_toInt32 [of y] by (simp add: toUint32_def)
    finally show ?thesis by (simp add: toUint32_def take_bit_add)
  qed
  from this [of a b] this [of b a] show "toUint32 (a + toInt32 b) = toUint32 (a + b)"
    "toUint32 (toInt32 a + b) = toUint32 (a + b)"
    by (simp_all add: add.commute)
qed

section \<open>Results of code that may throw\<close>

text \<open>The state reached so far survives a throw, so throwing code returns an \<open>outcome\<close>
  next to its state. \<open>Hang\<close> is the outcome of a loop that never returns.\<close>

datatype js_error =
    ErrorMsg string
  | RangeError
  | TypeError
  | URIError

datatype 'a outcome = Ret 'a | Throw js_error | Hang

text \<open>Sequencing: the continuation runs on the value and the state of a call that returned; an
  exception skips it.\<close>

fun andthen :: "'a outcome \<times> 's \<Rightarrow> ('a \<Rightarrow> 's \<Rightarrow> 'b outcome \<times> 's) \<Rightarrow> 'b outcome \<times> 's" where
  "andthen (Ret a, s) k = k a s"
| "andthen (Throw e, s) k = (Throw e, s)"
| "andthen (Hang, s) k = (Hang, s)"

lemma andthen_RetE:
  assumes "andthen r k = (Ret b, s')"
  obtains a s1 where "r = (Ret a, s1)" "k a s1 = (Ret b, s')"
  using assms by (cases "(r, k)" rule: andthen.cases) auto

section \<open>Byte strings\<close>

text \<open>A JavaScript string is the list of its code units; \<open>lit\<close> gives the code units of an
  ASCII literal.\<close>

type_synonym jsstring = "nat list"

definition lit :: "string \<Rightarrow> jsstring" where
  "lit s = map of_char s"

definition str_of_bytes :: "bytes \<Rightarrow> jsstring" where
  "str_of_bytes bs = map unat bs"

definition bytes_of_str :: "jsstring \<Rightarrow> bytes" where
  "bytes_of_str s = map of_nat s"

lemma length_str_of_bytes [simp]: "length (str_of_bytes bs) = length bs"
  by (simp add: str_of_bytes_def)

lemma length_bytes_of_str [simp]: "length (bytes_of_str s) = length s"
  by (simp add: bytes_of_str_def)

lemma bytes_of_str_of_bytes [simp]: "bytes_of_str (str_of_bytes bs) = bs"
  by (simp add: bytes_of_str_def str_of_bytes_def comp_def)

section \<open>Typed arrays\<close>

text \<open>\<open>slice a i j\<close> is \<open>a.slice(i, j)\<close> and \<open>a.subarray(i, j)\<close> for non-negative bounds: bounds
  past the end are clamped and an empty range gives the empty array. \<open>overlay a off bs\<close>
  is the array after \<open>a.set(bs, off)\<close>; the call throws a RangeError when \<open>bs\<close> does not fit,
  which \<open>fits\<close> decides.\<close>

definition slice :: "'a list \<Rightarrow> nat \<Rightarrow> nat \<Rightarrow> 'a list" where
  "slice xs i j = take (j - i) (drop i xs)"

definition overlay :: "'a list \<Rightarrow> nat \<Rightarrow> 'a list \<Rightarrow> 'a list" where
  "overlay xs off ys = take off xs @ ys @ drop (off + length ys) xs"

definition fits :: "'a list \<Rightarrow> nat \<Rightarrow> 'a list \<Rightarrow> bool" where
  "fits xs off ys = (off + length ys \<le> length xs)"

definition u8_new :: "nat \<Rightarrow> bytes" where
  "u8_new n = replicate n 0"

lemma length_u8_new [simp]: "length (u8_new n) = n"
  by (simp add: u8_new_def)

lemma length_overlay [simp]: "fits xs off ys \<Longrightarrow> length (overlay xs off ys) = length xs"
  by (simp add: overlay_def fits_def)

lemma length_slice: "j \<le> length xs \<Longrightarrow> length (slice xs i j) = j - i"
  by (simp add: slice_def)

lemma slice_Nil [simp]: "j \<le> i \<Longrightarrow> slice xs i j = []"
  by (simp add: slice_def)

lemma slice_all [simp]: "slice xs 0 (length xs) = xs"
  by (simp add: slice_def)

lemma slice_alt: "slice xs i j = drop i (take j xs)"
  by (simp add: slice_def drop_take)

lemma slice_append_adjacent:
  assumes "i \<le> j" "j \<le> k"
  shows "slice xs i j @ slice xs j k = slice xs i k"
proof -
  have "take ((j - i) + (k - j)) (drop i xs) = slice xs i j @ slice xs j k"
    unfolding take_add using assms by (simp add: slice_def)
  then show ?thesis using assms by (simp add: slice_def)
qed

lemma slice_overlay_low:
  assumes "fits xs off ys" "j \<le> off"
  shows "slice (overlay xs off ys) i j = slice xs i j"
proof -
  have "take j (overlay xs off ys) = take j xs"
    using assms by (simp add: overlay_def fits_def)
  then show ?thesis by (simp add: slice_alt)
qed

lemma slice_overlay_grow:
  assumes "fits xs off ys" "i \<le> off"
  shows "slice (overlay xs off ys) i (off + length ys) = slice xs i off @ ys"
proof -
  have "take (off + length ys) (overlay xs off ys) = take off xs @ ys"
    using assms by (simp add: overlay_def fits_def)
  then have "drop i (take (off + length ys) (overlay xs off ys)) = drop i (take off xs) @ ys"
    using assms by (simp add: fits_def)
  then show ?thesis by (simp add: slice_def drop_take)
qed

lemma slice_update_outside: "k < i \<Longrightarrow> slice (xs[k := v]) i j = slice xs i j"
  by (simp add: slice_def drop_update_cancel)

lemma drop_slice: "drop n (slice xs i j) = slice xs (i + n) j"
  by (simp add: slice_def drop_take add.commute)

lemma take_slice: "i + n \<le> j \<Longrightarrow> take n (slice xs i j) = slice xs i (i + n)"
  by (simp add: slice_def min_def)

lemma nth_slice: "i + n < j \<Longrightarrow> j \<le> length xs \<Longrightarrow> slice xs i j ! n = xs ! (i + n)"
  by (simp add: slice_def)

section \<open>Big-endian numbers\<close>

text \<open>The wire format of every multi-byte number of the protocol.\<close>

fun be_num :: "bytes \<Rightarrow> int" where
  "be_num [] = 0"
| "be_num (b # bs) = uint b * 256 ^ length bs + be_num bs"

definition be16 :: "int \<Rightarrow> bytes" where
  "be16 n = [u8 (n div 256), u8 n]"

definition be32 :: "int \<Rightarrow> bytes" where
  "be32 n = [u8 (n div 2 ^ 24), u8 (n div 2 ^ 16), u8 (n div 2 ^ 8), u8 n]"

lemma be_num_range: "0 \<le> be_num bs \<and> be_num bs < 256 ^ length bs"
proof (induction bs)
  case Nil
  then show ?case by simp
next
  case (Cons b bs)
  have "uint b * 256 ^ length bs + be_num bs < (uint b + 1) * 256 ^ length bs"
    using Cons by (simp add: algebra_simps)
  also have "\<dots> \<le> 256 * 256 ^ length bs"
  proof (rule mult_right_mono)
    show "uint b + 1 \<le> 256" using uint_byte_range (2) [of b] by linarith
  qed simp
  finally show ?case using Cons by simp
qed

lemma length_be16 [simp]: "length (be16 n) = 2"
  by (simp add: be16_def)

lemma length_be32 [simp]: "length (be32 n) = 4"
  by (simp add: be32_def)

lemma be_num_be16: "be_num (be16 n) = n mod 2 ^ 16"
proof -
  have "n mod 2 ^ 16 = (n div 256) mod 256 * 256 + n mod 256"
    using zmod_zmult2_eq [of 256 n 256] by simp
  then show ?thesis by (simp add: be16_def uint_u8)
qed

lemma be_num_be32: "be_num (be32 n) = n mod 2 ^ 32"
proof -
  have "n mod 2 ^ 32 = (n div 2 ^ 24) mod 256 * 2 ^ 24 + n mod 2 ^ 24"
    using zmod_zmult2_eq [of 256 n "2 ^ 24"] by simp
  moreover have "n mod 2 ^ 24 = (n div 2 ^ 16) mod 256 * 2 ^ 16 + n mod 2 ^ 16"
    using zmod_zmult2_eq [of 256 n "2 ^ 16"] by simp
  moreover have "n mod 2 ^ 16 = (n div 2 ^ 8) mod 256 * 2 ^ 8 + n mod 256"
    using zmod_zmult2_eq [of 256 n "2 ^ 8"] by simp
  moreover have "be_num (be32 n) = (n div 2 ^ 24) mod 256 * 2 ^ 24
      + ((n div 2 ^ 16) mod 256 * 2 ^ 16 + ((n div 2 ^ 8) mod 256 * 2 ^ 8 + n mod 256))"
    by (simp add: be32_def uint_u8)
  ultimately show ?thesis by (simp only:)
qed

lemma js_sar_byte [simp]: "u8 (js_and (js_sar n k) 255) = u8 (toInt32 n div 2 ^ k)"
proof (rule bit_word_eqI)
  fix m
  assume "m < LENGTH(8)"
  moreover have "toInt32 255 = mask 8"
    by (simp add: toInt32_def mask_eq_exp_minus_1)
  moreover have "toInt32 (js_sar n k) = drop_bit k (toInt32 n)"
    by (rule bit_eqI)
      (auto simp: js_sar_def toInt32_def bit_signed_take_bit_iff bit_drop_bit_eq min_def)
  ultimately show "bit (u8 (js_and (js_sar n k) 255)) m = bit (u8 (toInt32 n div 2 ^ k)) m"
    by (simp add: js_and_def u8_def bit_word_of_int_iff bit_and_iff bit_mask_iff
        flip: drop_bit_eq_div)
qed

lemma u8_toInt32_div:
  assumes "k \<le> 24"
  shows "u8 (toInt32 n div 2 ^ k) = u8 (n div 2 ^ k)"
proof (rule bit_word_eqI)
  fix m
  assume "m < LENGTH(8)"
  with assms have "min 31 (k + m) = k + m" by simp
  with \<open>m < LENGTH(8)\<close> show "bit (u8 (toInt32 n div 2 ^ k)) m = bit (u8 (n div 2 ^ k)) m"
    by (simp add: u8_def bit_word_of_int_iff toInt32_def bit_signed_take_bit_iff bit_drop_bit_eq
        flip: drop_bit_eq_div)
qed

lemma u8_toInt32 [simp]: "u8 (toInt32 n) = u8 n"
  using u8_toInt32_div [of 0 n] by simp

section \<open>Bit fields\<close>

text \<open>On small non-negative numbers the bit operators are the arithmetic the code uses them for:
  masks are remainders, right shifts quotients, and combining a shifted field with one that fits
  below it is a sum.\<close>

lemma js_and_mask:
  assumes "k \<le> 31"
  shows "js_and n (2 ^ k - 1) = n mod 2 ^ k"
proof -
  have "(2 :: int) ^ k \<le> 2 ^ 31" using assms by (intro power_increasing) auto
  then have "(2 :: int) ^ k - 1 < 2 ^ 31" by (metis linorder_not_less zle_diff1_eq)
  moreover have "- (2 ^ 31) \<le> (2 :: int) ^ k - 1"
    by (rule order_trans [of _ 0]) simp_all
  ultimately have "toInt32 (2 ^ k - 1) = mask k" by (simp only: toInt32_small mask_eq_exp_minus_1)
  moreover have "take_bit k (toInt32 n) = take_bit k n"
    using assms by (simp add: toInt32_def take_bit_signed_take_bit)
  ultimately show ?thesis by (simp add: js_and_def take_bit_eq_mod flip: take_bit_eq_mask)
qed

lemmas js_and_masks [simp] =
  js_and_mask [of 1, simplified] js_and_mask [of 2, simplified] js_and_mask [of 3, simplified]
  js_and_mask [of 4, simplified] js_and_mask [of 5, simplified] js_and_mask [of 6, simplified]
  js_and_mask [of 7, simplified] js_and_mask [of 8, simplified] js_and_mask [of 16, simplified]

lemma u8_mod [simp]: "u8 (n mod 256) = u8 n"
  by (rule bit_word_eqI)
    (simp add: u8_def bit_word_of_int_iff bit_take_bit_iff flip: take_bit_eq_mod [of 8, simplified])

lemma u8_js_sar [simp]: "u8 (js_sar n k) = u8 (toInt32 n div 2 ^ k)"
  by (simp add: js_sar_def drop_bit_eq_div)

lemma js_and_commute: "js_and a b = js_and b a"
  by (simp add: js_and_def and.commute)

lemma js_sar_small: "0 \<le> n \<Longrightarrow> n < 2 ^ 31 \<Longrightarrow> js_sar n k = n div 2 ^ k"
  by (simp add: js_sar_def toInt32_small drop_bit_eq_div)

lemma js_shl_small: "0 \<le> n \<Longrightarrow> n * 2 ^ k < 2 ^ 31 \<Longrightarrow> js_shl n k = n * 2 ^ k"
proof -
  assume a: "0 \<le> n" "n * 2 ^ k < 2 ^ 31"
  have "n \<le> n * 2 ^ k" using a(1) by (simp add: mult_le_cancel_left1)
  with a have "toInt32 n = n" by (intro toInt32_small) simp_all
  moreover have "toInt32 (n * 2 ^ k) = n * 2 ^ k"
    using a by (intro toInt32_small) (auto intro: order_trans [of _ 0])
  ultimately show ?thesis by (simp add: js_shl_def push_bit_eq_mult)
qed

lemma js_or_disjoint:
  assumes "0 \<le> x" "0 \<le> d" "d < 2 ^ k" "x * 2 ^ k + d < 2 ^ 31"
  shows "js_or (x * 2 ^ k) d = x * 2 ^ k + d"
proof -
  define y where "y = x * 2 ^ k"
  have "0 \<le> y" "y + d < 2 ^ 31" using assms by (simp_all add: y_def)
  then have t: "toInt32 (x * 2 ^ k) = x * 2 ^ k" "toInt32 d = d"
    using assms(2) unfolding y_def [symmetric] by (auto intro!: toInt32_small)
  have "take_bit k d = d" using assms by (simp add: take_bit_int_eq_self)
  then have "push_bit k x OR d = push_bit k x + d"
    by (intro disjunctive_add [symmetric])
      (metis bit_push_bit_iff bit_take_bit_iff linorder_not_less)
  then show ?thesis by (simp add: js_or_def t push_bit_eq_mult)
qed

end
