(* ===== verification/Base64.thy ===== *)
theory Base64
  imports Prelude
begin

text \<open>
  \<open>core/base64.js\<close>: the Base64 encoder, which turns compressed image data into data URLs, and
  the decoder. The decoder's result is a JavaScript array created with a computed length and
  filled from the front, so an entry that was never written is \<open>None\<close>.
\<close>

section \<open>Encoder\<close>

definition toBase64Table :: jsstring where
  "toBase64Table = lit ''ABCDEFGHIJKLMNOPQRSTUVWXYZabcdefghijklmnopqrstuvwxyz0123456789+/=''"

definition base64Pad :: nat where
  "base64Pad = 61"

definition b64char :: "int \<Rightarrow> jsstring" where
  "b64char n = [toBase64Table ! nat n]"

definition encode_triple :: "bytes \<Rightarrow> nat \<Rightarrow> jsstring" where
  "encode_triple data i =
     b64char (js_sar (byte_at data i) 2)
     @ b64char (js_shl (js_and (byte_at data i) 3) 4 + js_sar (byte_at data (i + 1)) 4)
     @ b64char (js_shl (js_and (byte_at data (i + 1)) 15) 2 + js_sar (byte_at data (i + 2)) 6)
     @ b64char (js_and (byte_at data (i + 2)) 63)"

function encode_loop :: "bytes \<Rightarrow> nat \<Rightarrow> jsstring \<Rightarrow> jsstring" where
  "encode_loop data i result =
     (if i + 2 < length data then encode_loop data (i + 3) (result @ encode_triple data i)
      else result)"
  by pat_completeness auto
termination by (relation "measure (\<lambda>(data, i, _). length data - i)") auto

declare encode_loop.simps [simp del]

definition encode :: "bytes \<Rightarrow> jsstring" where
  "encode data =
     (let lengthpad = length data mod 3;
          result = encode_loop data 0 [];
          j = length data - lengthpad
      in if lengthpad = 2 then
           result @ b64char (js_sar (byte_at data j) 2)
             @ b64char (js_shl (js_and (byte_at data j) 3) 4 + js_sar (byte_at data (j + 1)) 4)
             @ b64char (js_shl (js_and (byte_at data (j + 1)) 15) 2)
             @ b64char 64
         else if lengthpad = 1 then
           result @ b64char (js_sar (byte_at data j) 2)
             @ b64char (js_shl (js_and (byte_at data j) 3) 4)
             @ b64char 64 @ b64char 64
         else result)"

section \<open>Decoder\<close>

definition toBinaryTable :: "int list" where
  "toBinaryTable = [
        -1,-1,-1,-1, -1,-1,-1,-1, -1,-1,-1,-1, -1,-1,-1,-1,
        -1,-1,-1,-1, -1,-1,-1,-1, -1,-1,-1,-1, -1,-1,-1,-1,
        -1,-1,-1,-1, -1,-1,-1,-1, -1,-1,-1,62, -1,-1,-1,63,
        52,53,54,55, 56,57,58,59, 60,61,-1,-1, -1, 0,-1,-1,
        -1, 0, 1, 2,  3, 4, 5, 6,  7, 8, 9,10, 11,12,13,14,
        15,16,17,18, 19,20,21,22, 23,24,25,-1, -1,-1,-1,-1,
        -1,26,27,28, 29,30,31,32, 33,34,35,36, 37,38,39,40,
        41,42,43,44, 45,46,47,48, 49,50,51,-1, -1,-1,-1,-1]"

text \<open>A store at or past the end of an array extends it.\<close>

definition js_set :: "'a option list \<Rightarrow> nat \<Rightarrow> 'a \<Rightarrow> 'a option list" where
  "js_set a i v =
     (if i < length a then a[i := Some v] else a @ replicate (i - length a) None @ [Some v])"

fun indexOf :: "nat \<Rightarrow> jsstring \<Rightarrow> int" where
  "indexOf c [] = -1"
| "indexOf c (d # ds) =
     (if c = d then 0 else let k = indexOf c ds in if k < 0 then -1 else k + 1)"

primrec decode_loop ::
  "jsstring \<Rightarrow> nat \<Rightarrow> int \<Rightarrow> int \<Rightarrow> int option list \<Rightarrow> int \<times> int option list" where
  "decode_loop [] idx leftbits leftdata result = (leftbits, result)"
| "decode_loop (ch # data) idx leftbits leftdata result =
     (let c = toBinaryTable ! nat (js_and (int ch) 127);
          padding = (ch = base64Pad)
      in if c = -1 then decode_loop data idx leftbits leftdata result
         else
           let leftdata1 = js_or (js_shl leftdata 6) c;
               leftbits1 = leftbits + 6
           in if leftbits1 \<ge> 8 then
                let leftbits2 = leftbits1 - 8;
                    out = js_and (js_sar leftdata1 (nat leftbits2)) 255;
                    leftdata2 = js_and leftdata1 (js_shl 1 (nat leftbits2) - 1)
                in if padding then decode_loop data idx leftbits2 leftdata2 result
                   else decode_loop data (idx + 1) leftbits2 leftdata2 (js_set result idx out)
              else decode_loop data idx leftbits1 leftdata1 result)"

declare decode_loop.simps(2) [simp del]

definition decode :: "jsstring \<Rightarrow> nat \<Rightarrow> int option list outcome" where
  "decode data offset =
     (let d0 = indexOf base64Pad data - int offset;
          dataLength = (if d0 < 0 then int (length data) - int offset else d0);
          resultLength = js_sar dataLength 2 * 3 + (dataLength mod 4) * 2 div 3
      in if resultLength < 0 then Throw RangeError
         else case decode_loop (drop offset data) 0 0 0 (replicate (nat resultLength) None) of
                (leftbits, result) \<Rightarrow>
                  if leftbits \<noteq> 0 then Throw (ErrorMsg ''Corrupted base64 string'')
                  else Ret result)"

section \<open>The encoding by groups\<close>

text \<open>The reference: three bytes are four digits of six bits, the last group is padded.\<close>

definition digit :: "int \<Rightarrow> nat" where
  "digit n = toBase64Table ! nat n"

fun b64_groups :: "bytes \<Rightarrow> jsstring" where
  "b64_groups (a # b # c # r) =
     digit (uint a div 4) # digit (uint a mod 4 * 16 + uint b div 16) #
     digit (uint b mod 16 * 4 + uint c div 64) # digit (uint c mod 64) # b64_groups r"
| "b64_groups [a, b] =
     [digit (uint a div 4), digit (uint a mod 4 * 16 + uint b div 16),
      digit (uint b mod 16 * 4), base64Pad]"
| "b64_groups [a] = [digit (uint a div 4), digit (uint a mod 4 * 16), base64Pad, base64Pad]"
| "b64_groups [] = []"

lemma byte_at_0 [simp]: "byte_at (a # r) 0 = uint a"
  by (simp add: byte_at_def u8_at_def)

lemma byte_at_Suc [simp]: "byte_at (a # r) (Suc i) = byte_at r i"
  by (simp add: byte_at_def u8_at_def)

lemma byte_at_add3 [simp]: "byte_at (a # b # c # r) (i + 3) = byte_at r i"
  using byte_at_Suc by (simp add: numeral_3_eq_3)

lemma byte_at_range: "0 \<le> byte_at data i" "byte_at data i < 256"
  by (simp_all add: byte_at_def u8_at_def)

lemma field_sar: "js_sar (byte_at data i) k = byte_at data i div 2 ^ k"
  using byte_at_range [of data i] by (intro js_sar_small) simp_all

lemma field_shl:
  "js_shl (byte_at data i mod 4) 4 = byte_at data i mod 4 * 16"
  "js_shl (byte_at data i mod 16) 2 = byte_at data i mod 16 * 4"
proof -
  have "byte_at data i mod 4 < 4" "byte_at data i mod 16 < 16" by simp_all
  then show "js_shl (byte_at data i mod 4) 4 = byte_at data i mod 4 * 16"
    "js_shl (byte_at data i mod 16) 2 = byte_at data i mod 16 * 4"
    by (simp_all add: js_shl_small)
qed

lemmas field_simps = field_sar field_shl b64char_def digit_def [symmetric]

lemma encode_triple_shift: "encode_triple (a # b # c # r) (i + 3) = encode_triple r i"
proof -
  have "byte_at (a # b # c # r) (i + 3 + n) = byte_at r (i + n)" for n
    using byte_at_add3 [of a b c r "i + n"] by (simp only: ac_simps)
  from this [of 0] this [of 1] this [of 2] show ?thesis by (simp only: encode_triple_def add_0_right)
qed

lemma encode_loop_shift:
  "encode_loop (a # b # c # r) (i + 3) result = encode_loop r i result"
proof (induction r i result rule: encode_loop.induct)
  case (1 r i result)
  have "(i + 3 + 2 < length (a # b # c # r)) = (i + 2 < length r)" by auto
  with 1 show ?case
    by (subst (1 2) encode_loop.simps) (simp only: encode_triple_shift if_cancel cong: if_cong)
qed

lemma encode_loop_acc: "encode_loop data i (u @ v) = u @ encode_loop data i v"
proof (induction data i v rule: encode_loop.induct)
  case (1 data i v)
  then show ?case by (simp add: encode_loop.simps [of data i])
qed

lemma encode_Cons3:
  "encode (a # b # c # r) = encode_triple (a # b # c # r) 0 @ encode r"
proof -
  let ?l = "a # b # c # r" and ?p = "length r mod 3"
  have "encode_loop ?l 0 [] = encode_loop ?l (0 + 3) (encode_triple ?l 0 @ [])"
    by (simp add: encode_loop.simps [of ?l 0])
  then have loop: "encode_loop ?l 0 [] = encode_triple ?l 0 @ encode_loop r 0 []"
    by (simp only: encode_loop_shift encode_loop_acc)
  have "length ?l = length r + 3" by simp
  then have pad: "length ?l mod 3 = ?p" by (simp only: mod_add_self2)
  have j: "length ?l - ?p = (length r - ?p) + 3" by simp
  have at: "byte_at ?l (length ?l - ?p) = byte_at r (length r - ?p)"
    "byte_at ?l (length ?l - ?p + 1) = byte_at r (length r - ?p + 1)"
    unfolding j using byte_at_add3 [of a b c r "length r - ?p"]
      byte_at_add3 [of a b c r "length r - ?p + 1"] by (simp_all only: ac_simps)
  show ?thesis
    unfolding encode_def Let_def loop pad at by (auto simp only: append_assoc split: if_split)
qed

lemma digit_64: "b64char 64 = [base64Pad]"
  by (simp add: b64char_def toBase64Table_def base64Pad_def lit_def)

lemma encode_groups: "encode data = b64_groups data"
proof (induction data rule: b64_groups.induct)
  case (1 a b c r)
  have "encode_triple (a # b # c # r) 0 =
      [digit (uint a div 4), digit (uint a mod 4 * 16 + uint b div 16),
       digit (uint b mod 16 * 4 + uint c div 64), digit (uint c mod 64)]"
    using field_sar [of "[a]" 0] field_sar [of "[b]" 0] field_sar [of "[c]" 0]
      field_shl [of "[a]" 0] field_shl [of "[b]" 0]
    by (simp add: encode_triple_def b64char_def digit_def numeral_2_eq_2)
  with 1 show ?case by (simp only: encode_Cons3 b64_groups.simps append_Cons append_Nil)
next
  case (2 a b)
  show ?case
    using field_sar [of "[a]" 0] field_sar [of "[b]" 0] field_shl [of "[a]" 0] field_shl [of "[b]" 0]
    by (simp add: encode_def encode_loop.simps Let_def digit_64) (simp add: b64char_def digit_def)
next
  case (3 a)
  show ?case
    using field_sar [of "[a]" 0] field_shl [of "[a]" 0]
    by (simp add: encode_def encode_loop.simps Let_def digit_64) (simp add: b64char_def digit_def)
qed (simp add: encode_def encode_loop.simps)

section \<open>Decoding the groups\<close>

lemma length_toBase64Table: "length toBase64Table = 65"
  by (simp add: toBase64Table_def lit_def)

lemma digit_table:
  assumes "0 \<le> d" "d < 64"
  shows "toBinaryTable ! nat (js_and (int (digit d)) 127) = d" "digit d \<noteq> base64Pad"
proof -
  have "map (\<lambda>c. toBinaryTable ! (c mod 128)) (take 64 toBase64Table) = map int [0..<64]"
    "base64Pad \<notin> set (take 64 toBase64Table)"
    by (simp_all add: toBase64Table_def lit_def toBinaryTable_def upt_rec base64Pad_def)
  then have "toBinaryTable ! (toBase64Table ! n mod 128) = int n" "toBase64Table ! n \<noteq> base64Pad"
    if "n < 64" for n
  proof -
    have "take 64 toBase64Table ! n = toBase64Table ! n" "n < length (take 64 toBase64Table)"
      using that by (simp_all add: length_toBase64Table)
    with that show "toBinaryTable ! (toBase64Table ! n mod 128) = int n"
      using nth_map [of n "take 64 toBase64Table" "\<lambda>c. toBinaryTable ! (c mod 128)"]
        \<open>map _ (take 64 toBase64Table) = map int [0..<64]\<close> by simp
    show "toBase64Table ! n \<noteq> base64Pad"
      using \<open>base64Pad \<notin> _\<close> \<open>n < length _\<close> \<open>take 64 toBase64Table ! n = _\<close> by (metis nth_mem)
  qed
  moreover have "nat (int k mod 128) = k mod 128" for k
    by (simp add: nat_mod_distrib)
  ultimately show "toBinaryTable ! nat (js_and (int (digit d)) 127) = d" "digit d \<noteq> base64Pad"
    using assms by (auto simp: digit_def)
qed

lemma decode_digit_wait:
  assumes "0 \<le> d" "d < 64"
  shows "decode_loop (digit d # data) idx 0 0 result = decode_loop data idx 6 d result"
proof -
  have "js_or (js_shl 0 6) d = d" using assms js_or_disjoint [of 0 d 6] by (simp add: js_shl_small)
  then show ?thesis using assms digit_table [OF assms] by (simp add: Let_def decode_loop.simps)
qed

lemma decode_digit_emit:
  assumes "0 \<le> d" "d < 64" "0 \<le> ld" "ld < 64" "k \<le> 6"
  shows "decode_loop (digit d # data) idx (int k + 2) ld result =
    decode_loop data (idx + 1) (int k) ((ld * 64 + d) mod 2 ^ k)
      (js_set result idx ((ld * 64 + d) div 2 ^ k mod 256))"
proof -
  have "js_or (js_shl ld 6) d = ld * 64 + d"
    using assms js_or_disjoint [of ld d 6] by (simp add: js_shl_small)
  moreover have "js_sar (ld * 64 + d) k = (ld * 64 + d) div 2 ^ k"
    using assms by (intro js_sar_small) auto
  moreover have "js_shl 1 k = 2 ^ k"
  proof -
    have "(2 :: int) ^ k < 2 ^ 31" using assms(5) by (intro power_strict_increasing) auto
    then show ?thesis using js_shl_small [of 1 k] by simp
  qed
  ultimately show ?thesis
    using assms digit_table [OF assms(1,2)] js_and_mask [of k]
    by (simp add: Let_def decode_loop.simps)
qed

lemma decode_digit_6:
  "0 \<le> d \<Longrightarrow> d < 64 \<Longrightarrow> 0 \<le> ld \<Longrightarrow> ld < 64 \<Longrightarrow>
    decode_loop (digit d # data) idx 6 ld result = decode_loop data (idx + 1) 4
      ((ld * 64 + d) mod 16) (js_set result idx ((ld * 64 + d) div 16 mod 256))"
  using decode_digit_emit [of d ld 4] by simp

lemma decode_digit_4:
  "0 \<le> d \<Longrightarrow> d < 64 \<Longrightarrow> 0 \<le> ld \<Longrightarrow> ld < 64 \<Longrightarrow>
    decode_loop (digit d # data) idx 4 ld result = decode_loop data (idx + 1) 2
      ((ld * 64 + d) mod 4) (js_set result idx ((ld * 64 + d) div 4 mod 256))"
  using decode_digit_emit [of d ld 2] by simp

lemma decode_digit_2:
  "0 \<le> d \<Longrightarrow> d < 64 \<Longrightarrow> 0 \<le> ld \<Longrightarrow> ld < 64 \<Longrightarrow>
    decode_loop (digit d # data) idx 2 ld result = decode_loop data (idx + 1) 0 0
      (js_set result idx ((ld * 64 + d) mod 256))"
  using decode_digit_emit [of d ld 0] by simp

lemma decode_pad:
  "decode_loop (base64Pad # data) idx 4 0 result = decode_loop data idx 2 0 result"
  "decode_loop (base64Pad # data) idx 2 0 result = decode_loop data idx 0 0 result"
proof -
  have "js_or (js_shl 0 6) 0 = 0" using js_or_disjoint [of 0 0 6] by (simp add: js_shl_small)
  moreover have "toBinaryTable ! 61 = 0" by (simp add: toBinaryTable_def)
  ultimately show
    "decode_loop (base64Pad # data) idx 4 0 result = decode_loop data idx 2 0 result"
    "decode_loop (base64Pad # data) idx 2 0 result = decode_loop data idx 0 0 result"
    using js_and_mask [of 0 0] by (simp_all add: base64Pad_def Let_def js_shl_small decode_loop.simps)
qed

lemma regroup:
  fixes a b c :: int
  assumes "0 \<le> a" "a < 256" "0 \<le> b" "b < 256" "0 \<le> c" "c < 256"
  shows "(a div 4 * 64 + (a mod 4 * 16 + b div 16)) div 16 mod 256 = a"
    "(a div 4 * 64 + (a mod 4 * 16 + b div 16)) mod 16 = b div 16"
    "(b div 16 * 64 + (b mod 16 * 4 + c div 64)) div 4 mod 256 = b"
    "(b div 16 * 64 + (b mod 16 * 4 + c div 64)) mod 4 = c div 64"
    "(c div 64 * 64 + c mod 64) mod 256 = c"
proof -
  have "a div 4 * 64 + a mod 4 * 16 = a * 16" "b div 16 * 64 + b mod 16 * 4 = b * 4"
    using div_mult_mod_eq [of a 4] div_mult_mod_eq [of b 16] by linarith+
  then have e: "a div 4 * 64 + (a mod 4 * 16 + b div 16) = b div 16 + a * 16"
    "b div 16 * 64 + (b mod 16 * 4 + c div 64) = c div 64 + b * 4"
    by linarith+
  have r: "0 \<le> b div 16" "b div 16 < 16" "0 \<le> c div 64" "c div 64 < 4"
    using assms by (simp_all add: pos_imp_zdiv_nonneg_iff div_less_dividend)
  show "(a div 4 * 64 + (a mod 4 * 16 + b div 16)) div 16 mod 256 = a"
    "(a div 4 * 64 + (a mod 4 * 16 + b div 16)) mod 16 = b div 16"
    "(b div 16 * 64 + (b mod 16 * 4 + c div 64)) div 4 mod 256 = b"
    "(b div 16 * 64 + (b mod 16 * 4 + c div 64)) mod 4 = c div 64"
    "(c div 64 * 64 + c mod 64) mod 256 = c"
    unfolding e using assms r by simp_all
qed

lemma two_fields:
  fixes p q :: int
  shows "0 \<le> p \<Longrightarrow> p < 4 \<Longrightarrow> 0 \<le> q \<Longrightarrow> q < 16 \<Longrightarrow> 0 \<le> p * 16 + q \<and> p * 16 + q < 64"
    "0 \<le> p \<Longrightarrow> p < 16 \<Longrightarrow> 0 \<le> q \<Longrightarrow> q < 4 \<Longrightarrow> 0 \<le> p * 4 + q \<and> p * 4 + q < 64"
  by simp_all

lemma byte_div:
  fixes x :: byte
  shows "0 \<le> uint x div 4" "uint x div 4 < 64" "0 \<le> uint x div 16" "uint x div 16 < 16"
    "0 \<le> uint x div 64" "uint x div 64 < 4" "uint x div 16 < 64" "uint x div 64 < 64"
proof -
  have r: "0 \<le> uint x" "uint x < 256" by simp_all
  then show "0 \<le> uint x div 4" "0 \<le> uint x div 16" "0 \<le> uint x div 64"
    by (simp_all only: pos_imp_zdiv_nonneg_iff zero_less_numeral)
  from r show a: "uint x div 4 < 64" "uint x div 16 < 16" "uint x div 64 < 4"
    by (simp_all only: div_less_iff_less_mult zero_less_numeral)
  show "uint x div 16 < 64" "uint x div 64 < 64"
    by (rule less_trans [OF a(2)], simp, rule less_trans [OF a(3)], simp)
qed

lemma byte_fields:
  fixes x y :: byte
  shows "0 \<le> uint x mod 4 * 16 + uint y div 16" "uint x mod 4 * 16 + uint y div 16 < 64"
    "0 \<le> uint x mod 16 * 4 + uint y div 64" "uint x mod 16 * 4 + uint y div 64 < 64"
    "0 \<le> uint x mod 16 * 4" "uint x mod 16 * 4 < 64" "0 \<le> uint x mod 4 * 16" "uint x mod 4 * 16 < 64"
    "0 \<le> uint x mod 64" "uint x mod 64 < 64"
  using two_fields(1) [of "uint x mod 4" "uint y div 16"] two_fields(1) [of "uint x mod 4" 0]
    two_fields(2) [of "uint x mod 16" "uint y div 64"] two_fields(2) [of "uint x mod 16" 0]
    byte_div [of y] pos_mod_sign [of 4 "uint x"] pos_mod_bound [of 4 "uint x"]
    pos_mod_sign [of 16 "uint x"] pos_mod_bound [of 16 "uint x"]
    pos_mod_sign [of 64 "uint x"] pos_mod_bound [of 64 "uint x"]
  by (simp_all only: add_0_right zero_less_numeral simp_thms order_refl)

lemmas regroup_byte = regroup [of "uint a" "uint b" "uint c" for a b c :: byte,
  OF uint_byte_range uint_byte_range uint_byte_range]

lemmas digit_ranges = byte_div byte_fields

lemmas decode_digits = decode_digit_wait decode_digit_6 decode_digit_4 decode_digit_2

lemma decode_group3:
  "decode_loop (b64_groups [a, b, c] @ data) idx 0 0 result =
    decode_loop data (idx + 1 + 1 + 1) 0 0
      (js_set (js_set (js_set result idx (uint a)) (idx + 1) (uint b)) (idx + 1 + 1) (uint c))"
  by (simp only: b64_groups.simps append_Cons append_Nil decode_digits digit_ranges regroup_byte)

lemma regroup_last:
  fixes a b :: byte
  shows "(uint a div 4 * 64 + uint a mod 4 * 16) div 16 mod 256 = uint a"
    "(uint a div 4 * 64 + uint a mod 4 * 16) mod 16 = 0"
    "(uint b div 16 * 64 + uint b mod 16 * 4) div 4 mod 256 = uint b"
    "(uint b div 16 * 64 + uint b mod 16 * 4) mod 4 = 0"
  using regroup_byte(1,2) [of a 0] regroup_byte(3,4) [of b 0]
  by (simp_all only: unsigned_0 div_0 mod_0 add_0_right)

lemma decode_group2:
  "decode_loop (b64_groups [a, b]) idx 0 0 result =
    (0, js_set (js_set result idx (uint a)) (idx + 1) (uint b))"
  by (simp only: b64_groups.simps decode_digits digit_ranges regroup_byte regroup_last decode_pad
      decode_loop.simps(1))

lemma decode_group1:
  "decode_loop (b64_groups [a]) idx 0 0 result = (0, js_set result idx (uint a))"
  by (simp only: b64_groups.simps decode_digits digit_ranges regroup_last decode_pad
      decode_loop.simps(1))

lemma decode_groups:
  "decode_loop (b64_groups bs) (length pre) 0 0 (map Some pre @ replicate (length bs) None)
    = (0, map Some (pre @ map uint bs))"
proof (induction bs arbitrary: pre rule: b64_groups.induct)
  case (1 a b c r)
  have "b64_groups (a # b # c # r) = b64_groups [a, b, c] @ b64_groups r" by simp
  then show ?case
    using "1.IH" [of "pre @ [uint a, uint b, uint c]"]
    by (simp only: decode_group3) (simp add: js_set_def list_update_append)
qed (simp_all only: decode_group2 decode_group1,
    simp_all add: js_set_def list_update_append)

text \<open>The number of characters before the padding, and that it gives the decoder the length
  of the result.\<close>

definition data_length :: "jsstring \<Rightarrow> int" where
  "data_length s = (if indexOf base64Pad s < 0 then int (length s) else indexOf base64Pad s)"

lemma indexOf_ge: "-1 \<le> indexOf c s"
  by (induction s) (auto simp: Let_def)

lemma data_length_Cons:
  "data_length (c # s) = (if c = base64Pad then 0 else 1 + data_length s)"
  using indexOf_ge [of base64Pad s] by (auto simp: data_length_def Let_def)

lemma data_length_groups:
  "data_length (b64_groups bs) =
    int (length bs div 3 * 4 + (if length bs mod 3 = 0 then 0 else length bs mod 3 + 1))"
proof (induction bs rule: b64_groups.induct)
  case (1 a b c r)
  have "length (a # b # c # r) = length r + 3" by simp
  then have "length (a # b # c # r) mod 3 = length r mod 3"
    "length (a # b # c # r) div 3 = Suc (length r div 3)"
    by (simp_all only: mod_add_self2 div_add_self2 zero_neq_numeral not_False_eq_True)
  then show ?case
    using 1 by (simp add: data_length_Cons digit_table(2) digit_ranges del: length_Cons)
qed (simp_all add: data_length_Cons digit_table(2) digit_table(2) [symmetric] digit_ranges data_length_def)

lemma result_length:
  fixes n :: nat
  defines "d \<equiv> int (n div 3 * 4 + (if n mod 3 = 0 then 0 else n mod 3 + 1))"
  assumes "n < 2 ^ 30"
  shows "js_sar d 2 * 3 + (d mod 4) * 2 div 3 = int n"
proof -
  define q where "q = n div 3"
  define r where "r = n mod 3"
  have n: "n = q * 3 + r" by (simp add: q_def r_def)
  have r: "r = 0 \<or> r = 1 \<or> r = 2" using mod_less_divisor [of 3 n] by (auto simp: r_def)
  have d: "d = int (q * 4 + (if r = 0 then 0 else r + 1))" by (simp add: d_def q_def r_def)
  have "d < 2 ^ 31" using assms(2) r unfolding d n by auto
  then have "js_sar d 2 = d div 4" using js_sar_small [of d 2] by (simp add: d)
  then show ?thesis using r by (auto simp: d n)
qed

lemma groups_decode:
  assumes "length data < 2 ^ 30"
  shows "decode (b64_groups data) 0 = Ret (map (Some \<circ> uint) data)"
proof -
  have e: "(if indexOf base64Pad s - int 0 < 0 then int (length s) - int 0
      else indexOf base64Pad s - int 0) = data_length s" for s
    by (simp add: data_length_def)
  have "decode_loop (drop 0 (b64_groups data)) 0 0 0 (replicate (length data) None)
      = (0, map (Some \<circ> uint) data)"
    using decode_groups [of data "[]"] by simp
  moreover have "js_sar (data_length (b64_groups data)) 2 * 3 + data_length (b64_groups data) mod 4 * 2 div 3
      = int (length data)"
    using result_length [OF assms] by (simp only: data_length_groups)
  ultimately show ?thesis unfolding decode_def Let_def e by simp
qed

section \<open>Property\<close>

text \<open>C29: Base64 is a round trip: decoding what was encoded gives every byte back, in order and
  with no missing entry, whatever the padding (for data below 1 GiB, which keeps the length of
  the string inside the 32 bits that the decoder's shift works on).\<close>

theorem base64_roundtrip:
  assumes "length data < 2 ^ 30"
  shows "decode (encode data) 0 = Ret (map (Some \<circ> uint) data)"
  by (simp add: encode_groups groups_decode [OF assms])

theorem base64_roundtrip_witness:
  "encode [77, 97, 110, 77] = lit ''TWFuTQ=='' \<and>
   decode (lit ''TWFuTQ=='') 0 = Ret [Some 77, Some 97, Some 110, Some 77]"
proof -
  have "encode [77, 97, 110, 77] = lit ''TWFuTQ==''" by code_simp
  then show ?thesis using base64_roundtrip [of "[77, 97, 110, 77]"] by simp
qed

end
