(* ===== verification/Websock.thy ===== *)
theory Websock
  imports Prelude
begin

text \<open>
  The buffering wrapper around the WebSocket, \<open>core/websock.js\<close>: the receive queue (a byte
  array with a read index and a write index, compacted and grown on demand), the send queue
  (a fixed byte array that is flushed when it is full) and the state of the raw channel.

  \<open>unread\<close> is the abstraction of the receive queue, the bytes received and not yet read;
  \<open>outgoing\<close> that of the send queue, the bytes handed to the raw channel followed by those
  still buffered. The locale \<open>byte_queue\<close> states what the readers of the queue rely on.
\<close>

section \<open>State\<close>

datatype channel_state = ChConnecting | ChOpen | ChClosing | ChClosed | ChOther

record websock =
  websocket :: "channel_state option"
  attached :: bool
  rQ :: bytes
  rQi :: nat
  rQlen :: nat
  rQbufferSize :: nat
  sQ :: bytes
  sQlen :: nat
  sQbufferSize :: nat
  sent :: "bytes list"

definition MAX_RQ_GROW_SIZE :: nat where
  "MAX_RQ_GROW_SIZE = 40 * 1024 * 1024"

definition new_websock :: websock where
  "new_websock = \<lparr>websocket = None, attached = False, rQ = [], rQi = 0, rQlen = 0,
     rQbufferSize = 1024 * 1024 * 4, sQ = [], sQlen = 0, sQbufferSize = 1024 * 10, sent = []\<rparr>"

datatype ready_state = RSUnused | RSConnecting | RSOpen | RSClosing | RSClosed | RSUnknown

fun readyState_of :: "channel_state option \<Rightarrow> ready_state" where
  "readyState_of None = RSUnused"
| "readyState_of (Some ChConnecting) = RSConnecting"
| "readyState_of (Some ChOpen) = RSOpen"
| "readyState_of (Some ChClosing) = RSClosing"
| "readyState_of (Some ChClosed) = RSClosed"
| "readyState_of (Some ChOther) = RSUnknown"

definition readyState :: "websock \<Rightarrow> ready_state" where
  "readyState s = readyState_of (websocket s)"

section \<open>Receive queue\<close>

definition rQpeek8 :: "websock \<Rightarrow> int option" where
  "rQpeek8 s = u8_at (rQ s) (rQi s)"

definition rQskipBytes :: "nat \<Rightarrow> websock \<Rightarrow> websock" where
  "rQskipBytes n s = s\<lparr>rQi := rQi s + n\<rparr>"

fun rQshift_loop :: "nat \<Rightarrow> int \<Rightarrow> websock \<Rightarrow> int \<times> websock" where
  "rQshift_loop 0 res s = (res, s)"
| "rQshift_loop (Suc byt) res s =
     rQshift_loop byt (res + js_shl (undef0 (u8_at (rQ s) (rQi s))) (byt * 8))
       (s\<lparr>rQi := rQi s + 1\<rparr>)"

definition rQshift :: "nat \<Rightarrow> websock \<Rightarrow> int \<times> websock" where
  "rQshift n s = (case rQshift_loop n 0 s of (res, s') \<Rightarrow> (toUint32 res, s'))"

definition rQshift8 :: "websock \<Rightarrow> int \<times> websock" where
  "rQshift8 = rQshift 1"

definition rQshift16 :: "websock \<Rightarrow> int \<times> websock" where
  "rQshift16 = rQshift 2"

definition rQshift32 :: "websock \<Rightarrow> int \<times> websock" where
  "rQshift32 = rQshift 4"

text \<open>With \<open>copy\<close> the bytes are copied out; without it the result is a view into the
  queue's own buffer, given by its offset and length there.\<close>

definition rQshiftBytes :: "nat \<Rightarrow> websock \<Rightarrow> bytes \<times> websock" where
  "rQshiftBytes len s =
     (let s' = s\<lparr>rQi := rQi s + len\<rparr> in (slice (rQ s') (rQi s' - len) (rQi s'), s'))"

record u8view =
  vbuffer :: bytes
  voffset :: nat
  vlength :: nat

definition view_bytes :: "u8view \<Rightarrow> bytes" where
  "view_bytes v = slice (vbuffer v) (voffset v) (voffset v + vlength v)"

definition subarray :: "bytes \<Rightarrow> nat \<Rightarrow> nat \<Rightarrow> u8view" where
  "subarray buf i j =
     (let b = min i (length buf) in
      \<lparr>vbuffer = buf, voffset = b, vlength = min j (length buf) - b\<rparr>)"

definition rQshiftView :: "nat \<Rightarrow> websock \<Rightarrow> u8view \<times> websock" where
  "rQshiftView len s =
     (let s' = s\<lparr>rQi := rQi s + len\<rparr> in (subarray (rQ s') (rQi s' - len) (rQi s'), s'))"

function rQshiftStr :: "nat \<Rightarrow> websock \<Rightarrow> jsstring \<times> websock" where
  "rQshiftStr len s =
     (if 0 < len then
        let (part, s1) = rQshiftBytes (min 4096 len) s;
            (rest, s2) = rQshiftStr (len - 4096) s1
        in (str_of_bytes part @ rest, s2)
      else ([], s))"
  by pat_completeness auto
termination by (relation "measure fst") auto

declare rQshiftStr.simps [simp del]

definition rQshiftTo :: "bytes \<Rightarrow> nat \<Rightarrow> websock \<Rightarrow> bytes outcome \<times> websock" where
  "rQshiftTo target len s =
     (let src = slice (rQ s) (rQi s) (rQi s + len) in
      if rQi s + len \<le> length (rQ s) \<and> fits target 0 src
      then (Ret (overlay target 0 src), s\<lparr>rQi := rQi s + len\<rparr>)
      else (Throw RangeError, s))"

definition rQpeekBytes :: "nat \<Rightarrow> websock \<Rightarrow> bytes" where
  "rQpeekBytes len s = slice (rQ s) (rQi s) (rQi s + len)"

text \<open>\<open>rQwait\<close> with no \<open>goback\<close> argument is \<open>rQwait num 0\<close>; it never throws then, and
  \<open>rQlacks\<close> is its result.\<close>

definition rQlacks :: "nat \<Rightarrow> websock \<Rightarrow> bool" where
  "rQlacks num s = (int (rQlen s) - int (rQi s) < int num)"

definition rQwait :: "nat \<Rightarrow> nat \<Rightarrow> websock \<Rightarrow> bool outcome \<times> websock" where
  "rQwait num goback s =
     (if rQlacks num s then
        if goback \<noteq> 0 then
          if rQi s < goback then (Throw (ErrorMsg ''rQwait cannot backup''), s)
          else (Ret True, s\<lparr>rQi := rQi s - goback\<rparr>)
        else (Ret True, s)
      else (Ret False, s))"

text \<open>A store through a view of the queue writes the queue's buffer.\<close>

definition rQpoke :: "nat \<Rightarrow> int \<Rightarrow> websock \<Rightarrow> websock" where
  "rQpoke i v s = s\<lparr>rQ := (rQ s)[i := u8 v]\<rparr>"

text \<open>A reader that ran past the write index leaves a negative number of unread bytes;
  compacting then ends in a RangeError, at the latest when the new data is stored.\<close>

definition expandCompactRQ :: "nat \<Rightarrow> websock \<Rightarrow> unit outcome \<times> websock" where
  "expandCompactRQ minFit s =
     (let unreadLen = int (rQlen s) - int (rQi s);
          requiredBufferSize = (unreadLen + int minFit) * 8;
          resizeNeeded = int (rQbufferSize s) < requiredBufferSize;
          s1 = (if resizeNeeded
                then s\<lparr>rQbufferSize := nat (max (int (rQbufferSize s) * 2) requiredBufferSize)\<rparr>
                else s);
          s2 = (if rQbufferSize s1 > MAX_RQ_GROW_SIZE
                then s1\<lparr>rQbufferSize := MAX_RQ_GROW_SIZE\<rparr> else s1)
      in if rQbufferSize s1 > MAX_RQ_GROW_SIZE \<and>
            int (rQbufferSize s2) - unreadLen < int minFit
         then (Throw (ErrorMsg ''Receive Queue buffer exceeded''), s2)
         else if resizeNeeded then
           (if rQlen s < rQi s \<or> length (rQ s) < rQlen s \<or>
               rQbufferSize s2 < rQlen s - rQi s
            then (Throw RangeError, s2)
            else (Ret (), s2\<lparr>rQ := overlay (u8_new (rQbufferSize s2)) 0
                                      (slice (rQ s) (rQi s) (rQlen s)),
                             rQlen := rQlen s - rQi s, rQi := 0\<rparr>))
         else if rQlen s < rQi s then (Throw RangeError, s2)
         else (Ret (), s2\<lparr>rQ := overlay (rQ s) 0 (slice (rQ s) (rQi s) (rQlen s)),
                          rQlen := rQlen s - rQi s, rQi := 0\<rparr>))"

text \<open>The result says whether the message event is raised.\<close>

definition recvMessage :: "bytes \<Rightarrow> websock \<Rightarrow> bool outcome \<times> websock" where
  "recvMessage data s =
     (let s1 = (if rQlen s = rQi s then s\<lparr>rQlen := 0, rQi := 0\<rparr> else s);
          (r, s2) = (if int (length data) > int (rQbufferSize s1) - int (rQlen s1)
                     then expandCompactRQ (length data) s1 else (Ret (), s1))
      in case r of
           Throw e \<Rightarrow> (Throw e, s2)
         | Hang \<Rightarrow> (Hang, s2)
         | Ret _ \<Rightarrow>
             if fits (rQ s2) (rQlen s2) data
             then let s3 = s2\<lparr>rQ := overlay (rQ s2) (rQlen s2) data,
                              rQlen := rQlen s2 + length data\<rparr>
                  in (Ret (int (rQlen s3) - int (rQi s3) > 0), s3)
             else (Throw RangeError, s2))"

section \<open>Send queue\<close>

text \<open>While the channel is open the send queue never overfills (\<open>wf_send\<close> below), and a
  channel that left the open state never returns to it, so the view that \<open>flush\<close> sends
  never exceeds the buffer.\<close>

definition flush :: "websock \<Rightarrow> websock" where
  "flush s =
     (if sQlen s > 0 \<and> readyState s = RSOpen
      then s\<lparr>sent := sent s @ [slice (sQ s) 0 (sQlen s)], sQlen := 0\<rparr>
      else s)"

definition sQensureSpace :: "nat \<Rightarrow> websock \<Rightarrow> websock" where
  "sQensureSpace n s =
     (if int (sQbufferSize s) - int (sQlen s) < int n then flush s else s)"

definition sQstore :: "int \<Rightarrow> websock \<Rightarrow> websock" where
  "sQstore v s = s\<lparr>sQ := (sQ s)[sQlen s := u8 v], sQlen := sQlen s + 1\<rparr>"

definition sQpush8 :: "int \<Rightarrow> websock \<Rightarrow> websock" where
  "sQpush8 num s = sQstore num (sQensureSpace 1 s)"

definition sQpush16 :: "int \<Rightarrow> websock \<Rightarrow> websock" where
  "sQpush16 num s =
     sQstore (js_and (js_sar num 0) 255)
      (sQstore (js_and (js_sar num 8) 255) (sQensureSpace 2 s))"

definition sQpush32 :: "int \<Rightarrow> websock \<Rightarrow> websock" where
  "sQpush32 num s =
     sQstore (js_and (js_sar num 0) 255)
      (sQstore (js_and (js_sar num 8) 255)
        (sQstore (js_and (js_sar num 16) 255)
          (sQstore (js_and (js_sar num 24) 255) (sQensureSpace 4 s))))"

partial_function (option) sQpushBytes_loop ::
  "bytes \<Rightarrow> nat \<Rightarrow> websock \<Rightarrow> (unit outcome \<times> websock) option" where
  "sQpushBytes_loop bs offset s =
     (if offset < length bs then
        let s1 = sQensureSpace 1 s in
        if sQbufferSize s1 < sQlen s1 then Some (Throw RangeError, s1)
        else let space = sQbufferSize s1 - sQlen s1;
                 chunkSize = (if space > length bs - offset then length bs - offset else space);
                 part = slice bs offset chunkSize
             in sQpushBytes_loop bs (offset + chunkSize)
                  (s1\<lparr>sQ := overlay (sQ s1) (sQlen s1) part, sQlen := sQlen s1 + chunkSize\<rparr>)
      else Some (Ret (), s))"

definition sQpushBytes :: "bytes \<Rightarrow> websock \<Rightarrow> unit outcome \<times> websock" where
  "sQpushBytes bs s = (case sQpushBytes_loop bs 0 s of None \<Rightarrow> (Hang, s) | Some r \<Rightarrow> r)"

definition sQpushString :: "jsstring \<Rightarrow> websock \<Rightarrow> unit outcome \<times> websock" where
  "sQpushString str s = sQpushBytes (bytes_of_str str) s"

section \<open>Connection\<close>

definition allocateBuffers :: "websock \<Rightarrow> websock" where
  "allocateBuffers s = s\<lparr>rQ := u8_new (rQbufferSize s), sQ := u8_new (sQbufferSize s)\<rparr>"

definition init :: "websock \<Rightarrow> websock" where
  "init s = (allocateBuffers s)\<lparr>rQi := 0, websocket := None\<rparr>"

definition rawChannelProps :: "string list" where
  "rawChannelProps = [''send'', ''close'', ''binaryType'', ''onerror'', ''onmessage'',
     ''onopen'', ''protocol'', ''readyState'']"

definition attach :: "string list \<Rightarrow> channel_state \<Rightarrow> websock \<Rightarrow> unit outcome \<times> websock" where
  "attach channelProps ch s =
     (let s1 = init s in
      if list_all (\<lambda>prop. prop \<in> set channelProps) rawChannelProps
      then (Ret (), s1\<lparr>websocket := Some ch, attached := True\<rparr>)
      else (Throw (ErrorMsg ''Raw channel missing property''), s1))"

definition close_sock :: "websock \<Rightarrow> websock" where
  "close_sock s =
     (case websocket s of
        None \<Rightarrow> s
      | Some _ \<Rightarrow>
          let s1 = (if readyState s = RSConnecting \<or> readyState s = RSOpen
                    then s\<lparr>websocket := Some ChClosing\<rparr> else s)
          in s1\<lparr>attached := False\<rparr>)"

section \<open>What the queues hold\<close>

definition unread :: "websock \<Rightarrow> bytes" where
  "unread s = slice (rQ s) (rQi s) (rQlen s)"

definition outgoing :: "websock \<Rightarrow> bytes" where
  "outgoing s = concat (sent s) @ slice (sQ s) 0 (sQlen s)"

definition wf_recv :: "websock \<Rightarrow> bool" where
  "wf_recv s \<longleftrightarrow> length (rQ s) = rQbufferSize s \<and> rQi s \<le> rQlen s \<and>
     rQlen s \<le> rQbufferSize s \<and> rQbufferSize s \<le> MAX_RQ_GROW_SIZE"

definition wf_send :: "websock \<Rightarrow> bool" where
  "wf_send s \<longleftrightarrow> length (sQ s) = sQbufferSize s \<and> sQlen s \<le> sQbufferSize s \<and>
     4 \<le> sQbufferSize s \<and> readyState s = RSOpen"

section \<open>Reading\<close>

lemma length_unread: "wf_recv s \<Longrightarrow> length (unread s) = rQlen s - rQi s"
  by (simp add: unread_def wf_recv_def length_slice)

lemma rQlacks_unread [sock_simps]: "wf_recv s \<Longrightarrow> rQlacks n s \<longleftrightarrow> length (unread s) < n"
  by (auto simp: length_unread rQlacks_def wf_recv_def)

lemma unread_rQskipBytes [sock_simps]: "unread (rQskipBytes n s) = drop n (unread s)"
  by (simp add: unread_def rQskipBytes_def drop_slice)

lemma wf_rQskipBytes [sock_simps]:
  "wf_recv s \<Longrightarrow> n \<le> length (unread s) \<Longrightarrow> wf_recv (rQskipBytes n s)"
  by (auto simp: length_unread wf_recv_def rQskipBytes_def)

lemma rQskipBytes_0 [simp]: "rQskipBytes 0 s = s"
  by (simp add: rQskipBytes_def)

lemma rQskipBytes_add [simp]: "rQskipBytes m (rQskipBytes n s) = rQskipBytes (n + m) s"
  by (simp add: rQskipBytes_def)

lemma u8_at_unread:
  "wf_recv s \<Longrightarrow> unread s \<noteq> [] \<Longrightarrow> u8_at (rQ s) (rQi s) = Some (uint (hd (unread s)))"
proof -
  assume wf: "wf_recv s" and "unread s \<noteq> []"
  then have "rQi s < rQlen s"
    using length_unread [of s] by (metis length_greater_0_conv zero_less_diff)
  with wf show ?thesis
    using nth_slice [of "rQi s" 0 "rQlen s" "rQ s"] \<open>unread s \<noteq> []\<close>
    by (simp add: u8_at_def wf_recv_def unread_def hd_conv_nth)
qed

lemma toUint32_add_js_shl: "toUint32 (a + js_shl (uint (b :: byte)) k) = toUint32 (a + uint b * 2 ^ k)"
  by (simp add: js_shl_def push_bit_eq_mult)

lemma rQshift_loop_reads:
  assumes "wf_recv s" "n \<le> length (unread s)"
  shows "snd (rQshift_loop n res s) = rQskipBytes n s \<and>
    toUint32 (fst (rQshift_loop n res s)) = toUint32 (res + be_num (take n (unread s)))"
  using assms
proof (induction n arbitrary: res s)
  case 0
  then show ?case by simp
next
  case (Suc n)
  let ?b = "hd (unread s)" and ?s = "rQskipBytes 1 s"
  have ne: "unread s \<noteq> []" using Suc.prems by auto
  have s1: "s\<lparr>rQi := rQi s + 1\<rparr> = ?s" by (simp add: rQskipBytes_def)
  have un: "unread s = ?b # unread ?s" using ne by (simp add: sock_simps drop_Suc)
  have wf: "wf_recv ?s" "n \<le> length (unread ?s)"
    using Suc.prems by (simp_all add: sock_simps)
  have "toUint32 (res + js_shl (uint ?b) (n * 8) + be_num (take n (unread ?s)))
      = toUint32 (res + uint ?b * 2 ^ (n * 8) + be_num (take n (unread ?s)))"
    using toUint32_add_js_shl [of "res + be_num (take n (unread ?s))" ?b "n * 8"]
    by (simp add: algebra_simps)
  moreover have "be_num (take (Suc n) (unread s)) = uint ?b * 2 ^ (n * 8) + be_num (take n (unread ?s))"
    using wf power_mult [of "2 :: int" 8 n] by (subst un) (simp add: mult.commute)
  ultimately show ?case
    using Suc.IH [OF wf, of "res + js_shl (uint ?b) (n * 8)"] Suc.prems(1) ne
    by (simp add: u8_at_unread s1 [simplified] algebra_simps)
qed

lemma be_num_4: "length bs \<le> 4 \<Longrightarrow> toUint32 (be_num bs) = be_num bs"
proof -
  assume "length bs \<le> 4"
  then have "(256 :: int) ^ length bs \<le> 256 ^ 4" by (intro power_increasing) auto
  then show ?thesis using be_num_range [of bs] by (simp add: toUint32_mod)
qed

lemma rQshift_reads [sock_simps]:
  assumes "wf_recv s" "n \<le> length (unread s)" "n \<le> 4"
  shows "rQshift n s = (be_num (take n (unread s)), rQskipBytes n s)"
  using rQshift_loop_reads [OF assms(1,2), of 0] be_num_4 [of "take n (unread s)"] assms(3)
  by (cases "rQshift_loop n 0 s") (simp add: rQshift_def)

lemma rQshift8_reads [sock_simps]:
  "wf_recv s \<Longrightarrow> unread s = b # bs \<Longrightarrow> rQshift8 s = (uint b, rQskipBytes 1 s)"
  by (simp add: rQshift8_def rQshift_reads)

lemma rQshift16_reads [sock_simps]:
  "wf_recv s \<Longrightarrow> 2 \<le> length (unread s) \<Longrightarrow>
    rQshift16 s = (be_num (take 2 (unread s)), rQskipBytes 2 s)"
  by (simp add: rQshift16_def rQshift_reads)

lemma rQshift32_reads [sock_simps]:
  "wf_recv s \<Longrightarrow> 4 \<le> length (unread s) \<Longrightarrow>
    rQshift32 s = (be_num (take 4 (unread s)), rQskipBytes 4 s)"
  by (simp add: rQshift32_def rQshift_reads)

lemma rQpeek8_reads [sock_simps]:
  "wf_recv s \<Longrightarrow> unread s = b # bs \<Longrightarrow> rQpeek8 s = Some (uint b)"
  by (simp add: rQpeek8_def u8_at_unread)

lemma rQpeekBytes_reads [sock_simps]:
  "wf_recv s \<Longrightarrow> n \<le> length (unread s) \<Longrightarrow> rQpeekBytes n s = take n (unread s)"
  by (simp add: length_unread) (auto simp: rQpeekBytes_def unread_def take_slice wf_recv_def)

lemma rQshiftBytes_reads [sock_simps]:
  "wf_recv s \<Longrightarrow> n \<le> length (unread s) \<Longrightarrow>
    rQshiftBytes n s = (take n (unread s), rQskipBytes n s)"
  using rQpeekBytes_reads [of s n]
  by (simp add: rQshiftBytes_def rQpeekBytes_def rQskipBytes_def)

lemma rQshiftView_reads [sock_simps]:
  assumes "wf_recv s" "n \<le> length (unread s)"
  shows "rQshiftView n s =
      (\<lparr>vbuffer = rQ s, voffset = rQi s, vlength = n\<rparr>, rQskipBytes n s)"
  using assms length_unread [of s]
  by (auto simp: rQshiftView_def rQskipBytes_def subarray_def wf_recv_def)

lemma rQshiftStr_reads [sock_simps]:
  "wf_recv s \<Longrightarrow> n \<le> length (unread s) \<Longrightarrow>
    rQshiftStr n s = (str_of_bytes (take n (unread s)), rQskipBytes n s)"
proof (induction n s rule: rQshiftStr.induct)
  case (1 len s)
  show ?case
  proof (cases "0 < len")
    case False
    then show ?thesis by (simp add: rQshiftStr.simps str_of_bytes_def)
  next
    case True
    let ?m = "min 4096 len" and ?s = "rQskipBytes (min 4096 len) s"
    have m: "?m + (len - 4096) = len" by simp
    have part: "rQshiftBytes ?m s = (take ?m (unread s), ?s)"
      using "1.prems" by (simp add: rQshiftBytes_reads)
    have wf: "wf_recv ?s" "len - 4096 \<le> length (unread ?s)"
      using "1.prems" by (auto simp: sock_simps)
    have "rQshiftStr (len - 4096) ?s
        = (str_of_bytes (take (len - 4096) (unread ?s)), rQskipBytes (len - 4096) ?s)"
      by (rule "1.IH" [OF True part [symmetric] refl wf])
    moreover have "take len (unread s) = take ?m (unread s) @ take (len - 4096) (unread ?s)"
    proof -
      have "take (?m + (len - 4096)) (unread s)
          = take ?m (unread s) @ take (len - 4096) (drop ?m (unread s))"
        by (rule take_add)
      then show ?thesis by (simp add: unread_rQskipBytes m)
    qed
    ultimately show ?thesis
      using True part by (subst rQshiftStr.simps) (simp add: str_of_bytes_def m)
  qed
qed

lemma unread_rQpoke [sock_simps]: "i < rQi s \<Longrightarrow> unread (rQpoke i v s) = unread s"
  by (simp add: unread_def rQpoke_def slice_update_outside)

lemma wf_rQpoke [sock_simps]: "wf_recv (rQpoke i v s) = wf_recv s"
  by (simp add: wf_recv_def rQpoke_def)

section \<open>Receiving\<close>

lemma slice_overlay_0: "fits xs 0 ys \<Longrightarrow> slice (overlay xs 0 ys) 0 (length ys) = ys"
  using slice_overlay_grow [of xs 0 ys 0] by simp

lemma expandCompactRQ_keeps:
  assumes wf: "wf_recv s" and cap: "length (unread s) + n \<le> MAX_RQ_GROW_SIZE"
  obtains s' where "expandCompactRQ n s = (Ret (), s')" "wf_recv s'" "unread s' = unread s"
    "rQlen s' + n \<le> rQbufferSize s'" "sent s' = sent s" "sQ s' = sQ s" "sQlen s' = sQlen s"
proof -
  define u where "u = rQlen s - rQi s"
  define size where "size = (if rQbufferSize s < (u + n) * 8
    then min MAX_RQ_GROW_SIZE (max (rQbufferSize s * 2) ((u + n) * 8)) else rQbufferSize s)"
  define buf where "buf = (if rQbufferSize s < (u + n) * 8 then u8_new size else rQ s)"
  define s' where "s' = s\<lparr>rQbufferSize := size, rQ := overlay buf 0 (unread s), rQlen := u, rQi := 0\<rparr>"
  have le: "rQi s \<le> rQlen s" "rQlen s \<le> rQbufferSize s" "length (rQ s) = rQbufferSize s"
    "rQbufferSize s \<le> MAX_RQ_GROW_SIZE"
    using wf by (simp_all add: wf_recv_def)
  have u: "length (unread s) = u" using wf by (simp add: length_unread u_def)
  have ui: "int (rQlen s) - int (rQi s) = int u" using le by (simp add: u_def)
  have room: "u + n \<le> size" "size \<le> MAX_RQ_GROW_SIZE"
    using cap u le by (auto simp: size_def)
  have iff: "(int (rQbufferSize s) < (int u + int n) * 8) = (rQbufferSize s < (u + n) * 8)"
    using of_nat_less_iff [of "rQbufferSize s" "(u + n) * 8", where 'a = int] by simp
  have fit: "fits buf 0 (unread s)"
    using room u le by (auto simp: fits_def buf_def size_def)
  have "expandCompactRQ n s = (Ret (), s')"
  proof (cases "rQbufferSize s < (u + n) * 8")
    case False
    then have "\<not> int (rQbufferSize s) < (int u + int n) * 8" by (simp only: iff not_False_eq_True)
    moreover have "s\<lparr>rQbufferSize := rQbufferSize s\<rparr> = s" by simp
    moreover from False have "buf = rQ s" "size = rQbufferSize s"
      by (simp_all add: buf_def size_def)
    ultimately show ?thesis
      using le unfolding expandCompactRQ_def Let_def ui
      by (simp add: s'_def unread_def u_def [symmetric])
  next
    case True
    then have r: "int (rQbufferSize s) < (int u + int n) * 8" by (simp only: iff)
    define b where "b = max (rQbufferSize s * 2) ((u + n) * 8)"
    have g: "nat (max (int (rQbufferSize s) * 2) ((int u + int n) * 8)) = b"
      by (auto simp: max_def b_def)
    have "\<not> int MAX_RQ_GROW_SIZE - int u < int n" using cap u by linarith
    moreover from True have "buf = u8_new size"
      "size = min MAX_RQ_GROW_SIZE b"
      by (simp_all add: buf_def size_def b_def)
    ultimately show ?thesis
      using r le room unfolding expandCompactRQ_def Let_def ui g
      by (auto simp: s'_def unread_def u_def [symmetric] min_def split: if_splits)
  qed
  moreover have "wf_recv s'"
    using fit room le by (auto simp: wf_recv_def s'_def buf_def size_def)
  moreover have "unread s' = unread s"
    using slice_overlay_0 [OF fit] u by (simp add: unread_def s'_def)
  ultimately show thesis using room that by (simp add: s'_def)
qed

lemma recvMessage_appends:
  assumes wf: "wf_recv s" and cap: "length (unread s) + length data \<le> MAX_RQ_GROW_SIZE"
  shows "\<exists>s'. recvMessage data s = (Ret (unread s @ data \<noteq> []), s') \<and> wf_recv s' \<and>
    unread s' = unread s @ data"
proof -
  define s1 where "s1 = (if rQlen s = rQi s then s\<lparr>rQlen := 0, rQi := 0\<rparr> else s)"
  have s1: "wf_recv s1" "unread s1 = unread s"
    using wf by (auto simp: s1_def wf_recv_def unread_def)
  obtain s2 where s2: "(if int (length data) > int (rQbufferSize s1) - int (rQlen s1)
      then expandCompactRQ (length data) s1 else (Ret (), s1)) = (Ret (), s2)"
    "wf_recv s2" "unread s2 = unread s" "rQlen s2 + length data \<le> rQbufferSize s2"
  proof (cases "int (length data) > int (rQbufferSize s1) - int (rQlen s1)")
    case True
    then show thesis
      using expandCompactRQ_keeps [of s1 "length data"] s1 cap that by auto
  next
    case False
    then show thesis using that [of s1] s1 by auto
  qed
  let ?s3 = "s2\<lparr>rQ := overlay (rQ s2) (rQlen s2) data, rQlen := rQlen s2 + length data\<rparr>"
  have fit: "fits (rQ s2) (rQlen s2) data"
    using s2 by (simp add: fits_def wf_recv_def)
  have wf3: "wf_recv ?s3" using s2 fit by (simp add: wf_recv_def)
  have un3: "unread ?s3 = unread s @ data"
    using slice_overlay_grow [OF fit, of "rQi s2"] s2 by (simp add: unread_def wf_recv_def)
  have "rQlen ?s3 - rQi ?s3 = length (unread s @ data)"
    using length_unread [OF wf3] un3 by simp
  then have "(rQi ?s3 < rQlen ?s3) = (unread s @ data \<noteq> [])"
    by (metis length_greater_0_conv zero_less_diff)
  then have "recvMessage data s = (Ret (unread s @ data \<noteq> []), ?s3)"
    using s2(1) fit by (simp add: recvMessage_def flip: s1_def)
  with wf3 un3 show ?thesis by blast
qed

lemma recvMessage_too_long:
  assumes wf: "wf_recv s" and cap: "MAX_RQ_GROW_SIZE < length (unread s) + length data"
  shows "fst (recvMessage data s) = Throw (ErrorMsg ''Receive Queue buffer exceeded'')"
proof -
  define s1 where "s1 = (if rQlen s = rQi s then s\<lparr>rQlen := 0, rQi := 0\<rparr> else s)"
  have s1: "wf_recv s1" "unread s1 = unread s"
    using wf by (auto simp: s1_def wf_recv_def unread_def)
  have le: "rQi s1 \<le> rQlen s1" "rQlen s1 \<le> rQbufferSize s1" "rQbufferSize s1 \<le> MAX_RQ_GROW_SIZE"
    "MAX_RQ_GROW_SIZE < rQlen s1 - rQi s1 + length data"
    using s1 cap length_unread [of s1] by (simp_all add: wf_recv_def)
  then have "fst (expandCompactRQ (length data) s1) =
      Throw (ErrorMsg ''Receive Queue buffer exceeded'')"
    by (auto simp: expandCompactRQ_def Let_def)
  moreover have "int (length data) > int (rQbufferSize s1) - int (rQlen s1)"
    using le by linarith
  ultimately show ?thesis
    by (cases "expandCompactRQ (length data) s1") (simp add: recvMessage_def flip: s1_def)
qed

lemma rQwait_back_undoes:
  assumes "wf_recv s" "n \<le> length (unread s)" "length (unread s) < n + m" "0 < n"
  shows "rQwait m n (rQskipBytes n s) = (Ret True, s)"
  using assms length_unread [of s]
  by (simp add: rQwait_def rQlacks_unread wf_rQskipBytes unread_rQskipBytes)
    (simp add: rQskipBytes_def)

lemma rQwait_0: "rQwait n 0 s = (Ret (rQlacks n s), s)"
  by (simp add: rQwait_def)

section \<open>Sending\<close>

lemma flush_outgoing [simp]: "outgoing (flush s) = outgoing s"
  by (simp add: outgoing_def flush_def)

lemma wf_flush: "wf_send s \<Longrightarrow> wf_send (flush s) \<and> sQlen (flush s) = 0"
  by (auto simp: wf_send_def flush_def readyState_def)

lemma sQensureSpace_room:
  assumes "wf_send s" "n \<le> 4"
  shows "wf_send (sQensureSpace n s) \<and> sQlen (sQensureSpace n s) + n \<le> sQbufferSize s \<and>
    sQbufferSize (sQensureSpace n s) = sQbufferSize s \<and>
    outgoing (sQensureSpace n s) = outgoing s"
proof (cases "int (sQbufferSize s) - int (sQlen s) < int n")
  case True
  then show ?thesis
    using assms wf_flush [of s] flush_outgoing [of s]
    by (auto simp: sQensureSpace_def wf_send_def) (simp add: flush_def)
next
  case False
  then have "sQlen s + n \<le> sQbufferSize s" by linarith
  with False assms show ?thesis by (simp add: sQensureSpace_def)
qed

lemma sQstore_outgoing:
  assumes "wf_send s" "sQlen s < sQbufferSize s"
  shows "wf_send (sQstore v s) \<and> outgoing (sQstore v s) = outgoing s @ [u8 v] \<and>
    sQlen (sQstore v s) = Suc (sQlen s) \<and> sQbufferSize (sQstore v s) = sQbufferSize s"
proof -
  have "slice ((sQ s)[sQlen s := u8 v]) 0 (Suc (sQlen s)) = slice (sQ s) 0 (sQlen s) @ [u8 v]"
    using assms by (simp add: slice_def take_Suc_conv_app_nth wf_send_def)
  then show ?thesis
    using assms by (simp add: sQstore_def outgoing_def wf_send_def readyState_def)
qed

lemma sQpush8_outgoing:
  "wf_send s \<Longrightarrow> wf_send (sQpush8 n s) \<and> outgoing (sQpush8 n s) = outgoing s @ [u8 n]"
  using sQensureSpace_room [of s 1] sQstore_outgoing [of "sQensureSpace 1 s" n]
  by (simp add: sQpush8_def)

lemma sQpush16_outgoing:
  assumes "wf_send s"
  shows "wf_send (sQpush16 n s) \<and> outgoing (sQpush16 n s) = outgoing s @ be16 n"
proof -
  let ?s0 = "sQensureSpace 2 s"
  let ?s1 = "sQstore (js_and (js_sar n 8) 255) ?s0"
  have "wf_send ?s1 \<and> outgoing ?s1 = outgoing s @ [u8 (n div 2 ^ 8)] \<and>
      sQlen ?s1 < sQbufferSize ?s1"
    using sQensureSpace_room [OF assms, of 2] sQstore_outgoing [of ?s0 "js_and (js_sar n 8) 255"]
    by (simp add: u8_toInt32_div [of 8, simplified])
  then show ?thesis
    using sQstore_outgoing [of ?s1 "js_and (js_sar n 0) 255"] by (simp add: sQpush16_def be16_def)
qed

lemma sQpush32_outgoing:
  assumes "wf_send s"
  shows "wf_send (sQpush32 n s) \<and> outgoing (sQpush32 n s) = outgoing s @ be32 n"
proof -
  let ?s0 = "sQensureSpace 4 s"
  let ?s1 = "sQstore (js_and (js_sar n 24) 255) ?s0"
  let ?s2 = "sQstore (js_and (js_sar n 16) 255) ?s1"
  let ?s3 = "sQstore (js_and (js_sar n 8) 255) ?s2"
  have 0: "wf_send ?s0" "outgoing ?s0 = outgoing s" "sQlen ?s0 + 4 \<le> sQbufferSize ?s0"
    using sQensureSpace_room [OF assms, of 4] by simp_all
  have 1: "wf_send ?s1" "outgoing ?s1 = outgoing s @ [u8 (n div 2 ^ 24)]"
    "sQlen ?s1 + 3 \<le> sQbufferSize ?s1"
    using 0 sQstore_outgoing [of ?s0 "js_and (js_sar n 24) 255"]
    by (simp_all add: u8_toInt32_div [of 24, simplified])
  have 2: "wf_send ?s2" "outgoing ?s2 = outgoing ?s1 @ [u8 (n div 2 ^ 16)]"
    "sQlen ?s2 + 2 \<le> sQbufferSize ?s2"
    using 1 sQstore_outgoing [of ?s1 "js_and (js_sar n 16) 255"]
    by (simp_all add: u8_toInt32_div [of 16, simplified])
  have 3: "wf_send ?s3" "outgoing ?s3 = outgoing ?s2 @ [u8 (n div 2 ^ 8)]"
    "sQlen ?s3 + 1 \<le> sQbufferSize ?s3"
    using 2 sQstore_outgoing [of ?s2 "js_and (js_sar n 8) 255"]
    by (simp_all add: u8_toInt32_div [of 8, simplified])
  show ?thesis
    using 1 2 3 sQstore_outgoing [of ?s3 "js_and (js_sar n 0) 255"]
    by (simp add: sQpush32_def be32_def)
qed

text \<open>The bytes that one pass of the loop of \<open>sQpushBytes\<close> can take.\<close>

definition room :: "websock \<Rightarrow> nat" where
  "room s = (if sQlen s = sQbufferSize s then sQbufferSize s else sQbufferSize s - sQlen s)"

lemma sQpushBytes_step:
  assumes wf: "wf_send s" and off: "offset < length bs"
  defines "c \<equiv> min (room s) (length bs - offset)"
  obtains s' where
    "sQpushBytes_loop bs offset s = sQpushBytes_loop bs (offset + c) s'"
    "wf_send s'" "0 < c" "sQbufferSize s' = sQbufferSize s"
    "length (outgoing s') = length (outgoing s) + c"
    "offset = 0 \<Longrightarrow> outgoing s' = outgoing s @ take c bs"
    "c \<le> offset \<Longrightarrow> sQ s' = sQ s \<and> sQlen s' = sQlen (sQensureSpace 1 s) + c \<and>
       sent s' = sent (sQensureSpace 1 s)"
proof -
  let ?s1 = "sQensureSpace 1 s"
  have s1: "wf_send ?s1" "outgoing ?s1 = outgoing s" "sQlen ?s1 < sQbufferSize s"
    "sQbufferSize ?s1 = sQbufferSize s"
    using sQensureSpace_room [OF wf, of 1] by auto
  have rm: "sQbufferSize ?s1 - sQlen ?s1 = room s" "0 < room s" "sQ ?s1 = sQ s"
    using wf by (auto simp: sQensureSpace_def room_def flush_def wf_send_def)
  define s' where "s' = ?s1\<lparr>sQ := overlay (sQ ?s1) (sQlen ?s1) (slice bs offset c),
    sQlen := sQlen ?s1 + c\<rparr>"
  have c: "0 < c" "c \<le> room s" using off rm by (auto simp: c_def)
  have len: "length (slice bs offset c) \<le> c" by (simp add: slice_def)
  have fit: "fits (sQ ?s1) (sQlen ?s1) (slice bs offset c)"
    using s1 len c rm by (auto simp: fits_def wf_send_def)
  have eq: "sQpushBytes_loop bs offset s = sQpushBytes_loop bs (offset + c) s'"
    using off s1 rm by (subst sQpushBytes_loop.simps)
      (auto simp: Let_def s'_def c_def min_def)
  have wf': "wf_send s'" "sQbufferSize s' = sQbufferSize s"
    using s1 fit c rm by (auto simp: s'_def wf_send_def readyState_def)
  have l: "length (slice (sQ s') 0 (sQlen s')) = sQlen ?s1 + c"
    using wf' by (simp add: length_slice wf_send_def) (simp add: s'_def)
  have "length (outgoing ?s1) = length (concat (sent ?s1)) + sQlen ?s1"
    using s1(1,3,4) by (simp add: outgoing_def wf_send_def length_slice)
  then have n: "length (outgoing s') = length (outgoing s) + c"
    using l s1(2) by (simp add: outgoing_def [of s']) (simp add: s'_def)
  have "outgoing s' = outgoing s @ take c bs" if "offset = 0"
  proof -
    have "slice bs offset c = take c bs" "length (take c bs) = c"
      using that by (simp_all add: slice_def c_def)
    then show ?thesis
      using slice_overlay_grow [of "sQ ?s1" "sQlen ?s1" "take c bs" 0] fit s1
      by (simp add: s'_def outgoing_def)
  qed
  moreover have "sQ s' = sQ s \<and> sQlen s' = sQlen ?s1 + c \<and> sent s' = sent ?s1" if "c \<le> offset"
    using that rm by (simp add: s'_def overlay_def)
  ultimately show thesis using that [OF eq wf'(1) c(1) wf'(2) n] by blast
qed

lemma sQpushBytes_loop_end: "length bs \<le> offset \<Longrightarrow> sQpushBytes_loop bs offset s = Some (Ret (), s)"
  by (subst sQpushBytes_loop.simps) simp

lemma sQpushBytes_loop_returns:
  assumes "wf_send s" "offset \<le> length bs"
  shows "\<exists>s'. sQpushBytes_loop bs offset s = Some (Ret (), s') \<and> wf_send s' \<and>
    length (outgoing s') = length (outgoing s) + (length bs - offset)"
  using assms
proof (induction "length bs - offset" arbitrary: offset s rule: less_induct)
  case less
  show ?case
  proof (cases "offset < length bs")
    case False
    then show ?thesis using less.prems by (simp add: sQpushBytes_loop_end)
  next
    case True
    let ?c = "min (room s) (length bs - offset)"
    obtain s1 where s1: "sQpushBytes_loop bs offset s = sQpushBytes_loop bs (offset + ?c) s1"
      "wf_send s1" "0 < ?c" "length (outgoing s1) = length (outgoing s) + ?c"
      using sQpushBytes_step [OF less.prems(1) True] by metis
    have "length bs - (offset + ?c) < length bs - offset" "offset + ?c \<le> length bs"
      using True s1(3) by auto
    from less.hyps [OF this(1) s1(2) this(2)] s1 show ?thesis by auto
  qed
qed

lemma sQpushBytes_returns:
  "wf_send s \<Longrightarrow> \<exists>s'. sQpushBytes bs s = (Ret (), s') \<and> wf_send s' \<and>
    length (outgoing s') = length (outgoing s) + length bs"
  using sQpushBytes_loop_returns [of s 0 bs] by (auto simp: sQpushBytes_def)

lemma sQpushBytes_outgoing:
  assumes wf: "wf_send s" and fit: "length bs \<le> room s"
  shows "\<exists>s'. sQpushBytes bs s = (Ret (), s') \<and> wf_send s' \<and> outgoing s' = outgoing s @ bs"
proof (cases "bs = []")
  case True
  then show ?thesis using wf by (simp add: sQpushBytes_def sQpushBytes_loop_end)
next
  case False
  then have "min (room s) (length bs - 0) = length bs" using fit by simp
  then obtain s' where "sQpushBytes_loop bs 0 s = sQpushBytes_loop bs (0 + length bs) s'"
    "wf_send s'" "outgoing s' = outgoing s @ take (length bs) bs"
    using sQpushBytes_step [OF wf, of 0 bs] False by (metis length_greater_0_conv)
  then show ?thesis by (simp add: sQpushBytes_def sQpushBytes_loop_end)
qed

lemma sQpushBytes_second_pass:
  assumes wf: "wf_send s" and e: "sQlen s = 0" and len: "length bs = Suc (sQbufferSize s)"
  shows "\<exists>s'. sQpushBytes bs s = (Ret (), s') \<and>
    outgoing s' = outgoing s @ take (sQbufferSize s) bs @ [hd bs]"
proof -
  let ?n = "sQbufferSize s"
  have n: "4 \<le> ?n" "length (sQ s) = ?n" "readyState s = RSOpen"
    using wf by (auto simp: wf_send_def)
  let ?s1 = "s\<lparr>sQ := take ?n bs, sQlen := ?n\<rparr>"
  let ?s2 = "s\<lparr>sent := sent s @ [take ?n bs], sQ := take ?n bs, sQlen := 1\<rparr>"
  have "sQpushBytes_loop bs 0 s = sQpushBytes_loop bs ?n ?s1"
    using n e len
    by (subst sQpushBytes_loop.simps) (simp add: sQensureSpace_def Let_def overlay_def slice_def)
  also have "\<dots> = sQpushBytes_loop bs (Suc ?n) ?s2"
    using n len
    by (subst sQpushBytes_loop.simps)
      (simp add: sQensureSpace_def Let_def overlay_def slice_def flush_def readyState_def)
  also have "\<dots> = Some (Ret (), ?s2)"
    using len by (simp add: sQpushBytes_loop_end)
  finally have "sQpushBytes bs s = (Ret (), ?s2)" by (simp add: sQpushBytes_def)
  moreover have "slice (take ?n bs) 0 1 = [hd bs]"
    using n len by (cases bs) (simp_all add: slice_def take_Cons')
  ultimately show ?thesis using e by (simp add: outgoing_def)
qed

lemma sQpushBytes_loop_stuck:
  assumes "sQpushBytes_loop bs offset s = Some r"
  shows "sQlen s = sQbufferSize s \<and> readyState s \<noteq> RSOpen \<longrightarrow> length bs \<le> offset"
proof (rule sQpushBytes_loop.raw_induct [where P = "\<lambda>bs offset s r.
    sQlen s = sQbufferSize s \<and> readyState s \<noteq> RSOpen \<longrightarrow> length bs \<le> offset", OF _ assms])
  fix f :: "bytes \<Rightarrow> nat \<Rightarrow> websock \<Rightarrow> (unit outcome \<times> websock) option" and bs offset s r
  assume IH: "\<And>bs offset s r. f bs offset s = Some r \<Longrightarrow>
      sQlen s = sQbufferSize s \<and> readyState s \<noteq> RSOpen \<longrightarrow> length bs \<le> offset"
    and eq: "(if offset < length bs then
        let s1 = sQensureSpace 1 s in
        if sQbufferSize s1 < sQlen s1 then Some (Throw RangeError, s1)
        else let space = sQbufferSize s1 - sQlen s1;
                 chunkSize = (if space > length bs - offset then length bs - offset else space);
                 part = slice bs offset chunkSize
             in f bs (offset + chunkSize)
                  (s1\<lparr>sQ := overlay (sQ s1) (sQlen s1) part, sQlen := sQlen s1 + chunkSize\<rparr>)
      else Some (Ret (), s)) = Some r"
  show "sQlen s = sQbufferSize s \<and> readyState s \<noteq> RSOpen \<longrightarrow> length bs \<le> offset"
  proof (intro impI, rule ccontr)
    assume full: "sQlen s = sQbufferSize s \<and> readyState s \<noteq> RSOpen" and "\<not> length bs \<le> offset"
    with eq have "f bs offset (s\<lparr>sQ := overlay (sQ s) (sQbufferSize s) [], sQlen := sQbufferSize s\<rparr>) = Some r"
      by (simp add: sQensureSpace_def flush_def Let_def split: if_splits)
    from IH [OF this] full \<open>\<not> length bs \<le> offset\<close> show False
      by (simp add: readyState_def)
  qed
qed

section \<open>The interfaces the clients of the socket rely on\<close>

fun recv_list :: "(bytes \<Rightarrow> 's \<Rightarrow> 'b \<times> 's) \<Rightarrow> bytes list \<Rightarrow> 's \<Rightarrow> 's" where
  "recv_list f [] s = s"
| "recv_list f (d # ds) s = recv_list f ds (snd (f d s))"

text \<open>A queue of bytes with bounded capacity: what is read is what was received, in order.\<close>

locale byte_queue =
  fixes view :: "'s \<Rightarrow> bytes"
    and ok :: "'s \<Rightarrow> bool"
    and cap :: nat
    and lacks :: "nat \<Rightarrow> 's \<Rightarrow> bool"
    and shift :: "nat \<Rightarrow> 's \<Rightarrow> int \<times> 's"
    and grab :: "nat \<Rightarrow> 's \<Rightarrow> bytes \<times> 's"
    and recv :: "bytes \<Rightarrow> 's \<Rightarrow> bool outcome \<times> 's"
  assumes lacks_view: "ok s \<Longrightarrow> lacks n s \<longleftrightarrow> length (view s) < n"
    and shift_view: "ok s \<Longrightarrow> n \<le> length (view s) \<Longrightarrow> n \<le> 4 \<Longrightarrow>
      \<exists>s'. shift n s = (be_num (take n (view s)), s') \<and> ok s' \<and> view s' = drop n (view s)"
    and grab_view: "ok s \<Longrightarrow> n \<le> length (view s) \<Longrightarrow>
      \<exists>s'. grab n s = (take n (view s), s') \<and> ok s' \<and> view s' = drop n (view s)"
    and recv_view: "ok s \<Longrightarrow> length (view s) + length d \<le> cap \<Longrightarrow>
      \<exists>b s'. recv d s = (Ret b, s') \<and> ok s' \<and> view s' = view s @ d"
begin

lemma recv_list_view:
  "ok s \<Longrightarrow> length (view s) + length (concat ds) \<le> cap \<Longrightarrow>
    ok (recv_list recv ds s) \<and> view (recv_list recv ds s) = view s @ concat ds"
proof (induction ds arbitrary: s)
  case Nil
  then show ?case by simp
next
  case (Cons d ds)
  then obtain b s' where "recv d s = (Ret b, s')" "ok s'" "view s' = view s @ d"
    using recv_view [of s d] by auto
  with Cons show ?case by simp
qed

lemma recv_then_grab:
  assumes "ok s" "length (view s) + length (concat ds) \<le> cap"
    "n \<le> length (view s) + length (concat ds)"
  shows "fst (grab n (recv_list recv ds s)) = take n (view s @ concat ds)"
  using recv_list_view [OF assms(1,2)] grab_view [of "recv_list recv ds s" n] assms(3) by auto

lemma shift_be32:
  assumes "ok s" "view s = be32 v @ rest"
  shows "\<exists>s'. shift 4 s = (v mod 2 ^ 32, s') \<and> ok s' \<and> view s' = rest"
  using shift_view [of s 4] assms be_num_be32 [of v] by simp

lemma shift_be16:
  assumes "ok s" "view s = be16 v @ rest"
  shows "\<exists>s'. shift 2 s = (v mod 2 ^ 16, s') \<and> ok s' \<and> view s' = rest"
  using shift_view [of s 2] assms be_num_be16 [of v] by simp

lemma lacks_grows: "ok s \<Longrightarrow> ok t \<Longrightarrow> view t = view s @ d \<Longrightarrow> \<not> lacks n s \<Longrightarrow> \<not> lacks n t"
  by (simp add: lacks_view)

end

interpretation rq: byte_queue unread wf_recv MAX_RQ_GROW_SIZE rQlacks rQshift rQshiftBytes
  recvMessage
proof unfold_locales
  fix s and d :: bytes
  assume "wf_recv s" "length (unread s) + length d \<le> MAX_RQ_GROW_SIZE"
  from recvMessage_appends [OF this] show "\<exists>b s'. recvMessage d s = (Ret b, s') \<and> wf_recv s' \<and>
      unread s' = unread s @ d" by blast
qed (auto simp: rQlacks_unread rQshift_reads rQshiftBytes_reads unread_rQskipBytes wf_rQskipBytes)

text \<open>A sink of bytes: each push appends the wire form of its argument.\<close>

datatype field = F8 int | F16 int | F32 int

fun field_bytes :: "field \<Rightarrow> bytes" where
  "field_bytes (F8 n) = [u8 n]"
| "field_bytes (F16 n) = be16 n"
| "field_bytes (F32 n) = be32 n"

fun push_fields ::
  "(int \<Rightarrow> 's \<Rightarrow> 's) \<Rightarrow> (int \<Rightarrow> 's \<Rightarrow> 's) \<Rightarrow> (int \<Rightarrow> 's \<Rightarrow> 's) \<Rightarrow> field list \<Rightarrow> 's \<Rightarrow> 's" where
  "push_fields p8 p16 p32 [] s = s"
| "push_fields p8 p16 p32 (F8 n # fs) s = push_fields p8 p16 p32 fs (p8 n s)"
| "push_fields p8 p16 p32 (F16 n # fs) s = push_fields p8 p16 p32 fs (p16 n s)"
| "push_fields p8 p16 p32 (F32 n # fs) s = push_fields p8 p16 p32 fs (p32 n s)"

locale byte_sink =
  fixes out :: "'s \<Rightarrow> bytes"
    and ok :: "'s \<Rightarrow> bool"
    and p8 :: "int \<Rightarrow> 's \<Rightarrow> 's"
    and p16 :: "int \<Rightarrow> 's \<Rightarrow> 's"
    and p32 :: "int \<Rightarrow> 's \<Rightarrow> 's"
    and fl :: "'s \<Rightarrow> 's"
  assumes p8_out: "ok s \<Longrightarrow> ok (p8 n s) \<and> out (p8 n s) = out s @ [u8 n]"
    and p16_out: "ok s \<Longrightarrow> ok (p16 n s) \<and> out (p16 n s) = out s @ be16 n"
    and p32_out: "ok s \<Longrightarrow> ok (p32 n s) \<and> out (p32 n s) = out s @ be32 n"
    and fl_out: "ok s \<Longrightarrow> ok (fl s) \<and> out (fl s) = out s"
begin

lemma push_fields_out:
  "ok s \<Longrightarrow> ok (push_fields p8 p16 p32 fs s) \<and>
    out (push_fields p8 p16 p32 fs s) = out s @ concat (map field_bytes fs)"
proof (induction fs arbitrary: s)
  case Nil
  then show ?case by simp
next
  case (Cons f fs)
  then show ?case by (cases f) (simp_all add: p8_out p16_out p32_out)
qed

lemma message_out:
  "ok s \<Longrightarrow> ok (fl (push_fields p8 p16 p32 fs s)) \<and>
    out (fl (push_fields p8 p16 p32 fs s)) = out s @ concat (map field_bytes fs)"
  using push_fields_out [of s fs] fl_out by simp

end

interpretation sq: byte_sink outgoing wf_send sQpush8 sQpush16 sQpush32 flush
  by unfold_locales
    (use sQpush8_outgoing sQpush16_outgoing sQpush32_outgoing wf_flush in auto)

section \<open>Properties\<close>

text \<open>A small socket for the concrete instances below: two unread bytes in a full
  four-byte receive buffer, and an open channel with an empty eight-byte send buffer.\<close>

definition demo_sock :: websock where
  "demo_sock = \<lparr>websocket = Some ChOpen, attached = True, rQ = [1, 2, 3, 4], rQi = 2, rQlen = 4,
     rQbufferSize = 4, sQ = u8_new 8, sQlen = 0, sQbufferSize = 8, sent = []\<rparr>"

lemma demo_sock_wf: "wf_recv demo_sock" "wf_send demo_sock" "unread demo_sock = [3, 4]"
  by (simp_all add: demo_sock_def wf_recv_def wf_send_def MAX_RQ_GROW_SIZE_def readyState_def
      unread_def slice_def)

text \<open>C14: The receive queue is a first-in first-out byte queue. However the bytes arrive cut
  into messages, and whether a message is stored in place, after compacting the buffer or after
  growing it, the bytes waiting to be read afterwards are those that waited before followed by
  the new ones, and the index invariant holds.\<close>

theorem receive_queue_fifo:
  assumes "wf_recv s" "length (unread s) + length (concat ds) \<le> MAX_RQ_GROW_SIZE"
  shows "wf_recv (recv_list recvMessage ds s) \<and>
    unread (recv_list recvMessage ds s) = unread s @ concat ds"
  by (rule rq.recv_list_view [OF assms])

theorem receive_queue_fifo_witness:
  "wf_recv demo_sock \<and> unread (recv_list recvMessage [[5, 6, 7], [], [8]] demo_sock) = [3, 4, 5, 6, 7, 8]"
  using receive_queue_fifo [of demo_sock "[[5, 6, 7], [], [8]]"] demo_sock_wf
  by (simp add: MAX_RQ_GROW_SIZE_def)

text \<open>A message is refused, by the error that the receive queue exceeded its maximum, exactly
  when the unread bytes and the message together exceed 40 MiB; otherwise it is stored and the
  message event is raised exactly when there is something to read.\<close>

theorem receive_queue_limit:
  assumes "wf_recv s"
  shows "fst (recvMessage data s) =
    (if length (unread s) + length data \<le> MAX_RQ_GROW_SIZE then Ret (unread s @ data \<noteq> [])
     else Throw (ErrorMsg ''Receive Queue buffer exceeded''))"
proof (cases "length (unread s) + length data \<le> MAX_RQ_GROW_SIZE")
  case True
  then show ?thesis using recvMessage_appends [OF assms, of data] by auto
next
  case False
  then show ?thesis using recvMessage_too_long [OF assms, of data] by simp
qed

text \<open>Numbers survive the wire. The bytes that \<open>sQpush32\<close> and \<open>sQpush16\<close> append to the
  outgoing stream are read back by \<open>rQshift32\<close> and \<open>rQshift16\<close> of a receiver as the same
  number modulo the field's width, and reading consumes exactly the field.\<close>

lemma wire_number_roundtrip:
  assumes "wf_send a" "wf_recv b"
    and "outgoing (sQpush16 n (sQpush32 m a)) = outgoing a @ w" "unread b = w @ rest"
  shows "\<exists>b1 b2. rQshift32 b = (m mod 2 ^ 32, b1) \<and> rQshift16 b1 = (n mod 2 ^ 16, b2) \<and>
    wf_recv b2 \<and> unread b2 = rest"
proof -
  have "w = be32 m @ be16 n"
    using assms(1,3) sQpush32_outgoing [of a m] sQpush16_outgoing [of "sQpush32 m a" n] by simp
  then obtain b1 where b1: "rQshift 4 b = (m mod 2 ^ 32, b1)" "wf_recv b1" "unread b1 = be16 n @ rest"
    using rq.shift_be32 [OF assms(2)] assms(4) by auto
  then obtain b2 where "rQshift 2 b1 = (n mod 2 ^ 16, b2)" "wf_recv b2" "unread b2 = rest"
    using rq.shift_be16 by blast
  with b1 show ?thesis by (auto simp: rQshift32_def rQshift16_def)
qed

text \<open>Reading a string in steps of 4096 bytes is the same as reading it at once: the result
  is the first \<open>n\<close> unread bytes as characters, and exactly those are consumed.\<close>

lemma rQshiftStr_steps:
  assumes "wf_recv s" "n \<le> length (unread s)"
  shows "rQshiftStr n s = (str_of_bytes (take n (unread s)), rQskipBytes n s) \<and>
    unread (snd (rQshiftStr n s)) = drop n (unread s)"
  using rQshiftStr_reads [OF assms] by (simp add: unread_rQskipBytes)

text \<open>C31: On an open channel the send loop always returns and queues as many bytes as it was
  given; when the block fits what is left of the send buffer (or an empty buffer, if the buffer
  was full) those are exactly the bytes of the block.\<close>

theorem sQpushBytes_open:
  assumes "wf_send s"
  shows "\<exists>s'. sQpushBytes bs s = (Ret (), s') \<and> wf_send s' \<and>
    length (outgoing s') = length (outgoing s) + length bs \<and>
    (length bs \<le> room s \<longrightarrow> outgoing s' = outgoing s @ bs)"
  using sQpushBytes_returns [OF assms, of bs] sQpushBytes_outgoing [OF assms, of bs] by fastforce

theorem sQpushBytes_open_witness:
  "outgoing (snd (sQpushBytes [1, 2, 3] demo_sock)) = [1, 2, 3]"
  using sQpushBytes_open [of demo_sock "[1, 2, 3]"] demo_sock_wf
  by (auto simp: room_def demo_sock_def outgoing_def slice_def u8_new_def)

text \<open>A block one byte longer than the empty send buffer is corrupted: the loop takes the
  second part as \<open>bytes.subarray(offset, chunkSize)\<close> where the end should be
  \<open>offset + chunkSize\<close>, so the last byte sent is a stale copy of the first.\<close>

theorem sQpushBytes_long_block:
  assumes "wf_send s" "sQlen s = 0" "length bs = Suc (sQbufferSize s)"
  shows "outgoing (snd (sQpushBytes bs s)) = outgoing s @ take (sQbufferSize s) bs @ [hd bs]"
  using sQpushBytes_second_pass [OF assms] by auto

text \<open>When the channel is not open and the send buffer is full, sending a non-empty block
  never returns: nothing is flushed, so every pass of the loop takes a chunk of zero bytes.\<close>

theorem sQpushBytes_not_open_hangs:
  assumes "sQlen s = sQbufferSize s" "readyState s \<noteq> RSOpen" "bs \<noteq> []"
  shows "sQpushBytes bs s = (Hang, s)"
proof (cases "sQpushBytes_loop bs 0 s")
  case None
  then show ?thesis by (simp add: sQpushBytes_def)
next
  case (Some r)
  from sQpushBytes_loop_stuck [OF this] assms show ?thesis by simp
qed

end
