(* ===== verification/Display.thy ===== *)
theory Display
  imports Complex_Main Websock Base64
begin

text \<open>
  The display, \<open>core/display.js\<close>: the hidden frame buffer canvas, the visible canvas with its
  viewport and scale, the bounding box of what changed since the last flip, and the queue that
  keeps drawing actions in order behind images that are still loading.

  The calls made on the two canvases are recorded in \<open>ops\<close>, in order. An image element is the
  data its URL carries together with what the browser has reported of it so far. Sizes in CSS
  pixels and the scale factor are rationals, an idealisation of the floating point numbers.
  Coordinates are integers.
\<close>

section \<open>State\<close>

type_synonym colour = "int list"
type_synonym style = "int option list"

record image =
  mime :: string
  payload :: bytes
  complete :: bool
  imgW :: int
  imgH :: int
  listening :: bool

datatype action =
    AFlip
  | AFill int int int int colour
  | ACopy int int int int int int
  | ABlit bytes int int int int
  | AImg image int int int int

datatype canvas_op =
    SetFillStyle style
  | CtxFillRect int int int int
  | CtxCopy int int int int int int
  | CtxPut bytes int int int int
  | CtxImage image int int
  | BackSave int int
  | BackWidth int
  | BackHeight int
  | BackRestore
  | TargetCopy int int int int int int
  | TargetSize int int

record display =
  renderQ :: "action list"
  flushPromise :: bool
  flushResolved :: nat
  fbWidth :: int
  fbHeight :: int
  prevDrawStyle :: style
  vpX :: int
  vpY :: int
  vpW :: int
  vpH :: int
  backWidth :: int
  backHeight :: int
  dLeft :: int
  dTop :: int
  dRight :: int
  dBottom :: int
  scale :: rat
  clipViewport :: bool
  styleWidth :: rat
  styleHeight :: rat
  ops :: "canvas_op list"

datatype target = NoTarget | TargetString | TargetNoContext | TargetCanvas int int

text \<open>A new canvas element is 300 pixels wide and 150 high.\<close>

fun new_display :: "target \<Rightarrow> display outcome" where
  "new_display NoTarget = Throw (ErrorMsg ''Target must be set'')"
| "new_display TargetString = Throw (ErrorMsg ''target must be a DOM element'')"
| "new_display TargetNoContext = Throw (ErrorMsg ''no getContext method'')"
| "new_display (TargetCanvas w h) =
     Ret \<lparr>renderQ = [], flushPromise = False, flushResolved = 0, fbWidth = 0, fbHeight = 0,
          prevDrawStyle = [], vpX = 0, vpY = 0, vpW = w, vpH = h,
          backWidth = 300, backHeight = 150,
          dLeft = 0, dTop = 0, dRight = 300, dBottom = 150,
          scale = 1, clipViewport = False, styleWidth = 0, styleHeight = 0, ops = []\<rparr>"

definition emit :: "canvas_op \<Rightarrow> display \<Rightarrow> display" where
  "emit c d = d\<lparr>ops := ops d @ [c]\<rparr>"

section \<open>Drawing\<close>

definition damage :: "int \<Rightarrow> int \<Rightarrow> int \<Rightarrow> int \<Rightarrow> display \<Rightarrow> display" where
  "damage x y w h d =
     (let d1 = (if x < dLeft d then d\<lparr>dLeft := x\<rparr> else d);
          d2 = (if y < dTop d1 then d1\<lparr>dTop := y\<rparr> else d1);
          d3 = (if x + w > dRight d2 then d2\<lparr>dRight := x + w\<rparr> else d2)
      in if y + h > dBottom d3 then d3\<lparr>dBottom := y + h\<rparr> else d3)"

definition colour_at :: "colour \<Rightarrow> nat \<Rightarrow> int option" where
  "colour_at c i = (if i < length c then Some (c ! i) else None)"

definition setFillColor :: "colour \<Rightarrow> display \<Rightarrow> display" where
  "setFillColor c d =
     (let newStyle = [colour_at c 0, colour_at c 1, colour_at c 2]
      in if newStyle \<noteq> prevDrawStyle d
         then (emit (SetFillStyle newStyle) d)\<lparr>prevDrawStyle := newStyle\<rparr> else d)"

text \<open>The five drawing methods take a flag \<open>fromQueue\<close>. With the flag set, or with an empty
  queue, they draw: those are the functions \<open>_draw\<close>. Without it and behind other work they
  append to the queue.\<close>

definition flip_draw :: "display \<Rightarrow> display" where
  "flip_draw d =
     (let x = dLeft d; y = dTop d; w = dRight d - x; h = dBottom d - y;
          vx = x - vpX d; vy = y - vpY d;
          (w, x, vx) = (if vx < 0 then (w + vx, x - vx, 0) else (w, x, vx));
          (h, y, vy) = (if vy < 0 then (h + vy, y - vy, 0) else (h, y, vy));
          w = (if vx + w > vpW d then vpW d - vx else w);
          h = (if vy + h > vpH d then vpH d - vy else h);
          d1 = (if w > 0 \<and> h > 0 then emit (TargetCopy x y w h vx vy) d else d)
      in d1\<lparr>dLeft := 65535, dTop := 65535, dRight := 0, dBottom := 0\<rparr>)"

definition fillRect_draw :: "int \<Rightarrow> int \<Rightarrow> int \<Rightarrow> int \<Rightarrow> colour \<Rightarrow> display \<Rightarrow> display" where
  "fillRect_draw x y w h c d = damage x y w h (emit (CtxFillRect x y w h) (setFillColor c d))"

definition copyImage_draw ::
  "int \<Rightarrow> int \<Rightarrow> int \<Rightarrow> int \<Rightarrow> int \<Rightarrow> int \<Rightarrow> display \<Rightarrow> display" where
  "copyImage_draw oldX oldY newX newY w h d =
     damage newX newY w h (emit (CtxCopy oldX oldY newX newY w h) d)"

text \<open>Making an \<open>ImageData\<close> with a zero dimension is an \<open>IndexSizeError\<close>.\<close>

definition blitImage_draw ::
  "int \<Rightarrow> int \<Rightarrow> int \<Rightarrow> int \<Rightarrow> u8view \<Rightarrow> nat \<Rightarrow> display \<Rightarrow> unit outcome \<times> display" where
  "blitImage_draw x y w h arr offset d =
     (let start = voffset arr + offset; len = nat (w * h * 4) in
      if start + len > length (vbuffer arr) then (Throw RangeError, d)
      else if w = 0 \<or> h = 0 then (Throw (ErrorMsg ''IndexSizeError''), d)
      else (Ret (), damage x y w h (emit (CtxPut (slice (vbuffer arr) start (start + len)) w h x y) d)))"

definition drawImage :: "image \<Rightarrow> int \<Rightarrow> int \<Rightarrow> display \<Rightarrow> display" where
  "drawImage img x y d = damage x y (imgW img) (imgH img) (emit (CtxImage img x y) d)"

section \<open>The render queue\<close>

datatype progress = Ready | Waiting | GiveUp

definition whole :: "bytes \<Rightarrow> u8view" where
  "whole bs = \<lparr>vbuffer = bs, voffset = 0, vlength = length bs\<rparr>"

fun perform :: "action \<Rightarrow> display \<Rightarrow> progress outcome \<times> display" where
  "perform AFlip d = (Ret Ready, flip_draw d)"
| "perform (ACopy oldX oldY x y w h) d = (Ret Ready, copyImage_draw oldX oldY x y w h d)"
| "perform (AFill x y w h c) d = (Ret Ready, fillRect_draw x y w h c d)"
| "perform (ABlit bs x y w h) d =
     (case blitImage_draw x y w h (whole bs) 0 d of
        (Ret _, d') \<Rightarrow> (Ret Ready, d')
      | (Throw e, d') \<Rightarrow> (Throw e, d')
      | (Hang, d') \<Rightarrow> (Hang, d'))"
| "perform (AImg img x y w h) d =
     (if complete img then
        if imgW img \<noteq> w \<or> imgH img \<noteq> h then (Ret GiveUp, d)
        else (Ret Ready, drawImage img x y d)
      else (Ret Waiting, d))"

fun listen :: "action list \<Rightarrow> action list" where
  "listen (AImg img x y w h # q) = AImg (img\<lparr>listening := True\<rparr>) x y w h # q"
| "listen q = q"

definition settle :: "display \<Rightarrow> display" where
  "settle d =
     (if renderQ d = [] \<and> flushPromise d
      then d\<lparr>flushPromise := False, flushResolved := flushResolved d + 1\<rparr> else d)"

lemma renderQ_draws [disp_simps]:
  "renderQ (emit c d) = renderQ d"
  "renderQ (damage x y w h d) = renderQ d"
  "renderQ (setFillColor col d) = renderQ d"
  "renderQ (flip_draw d) = renderQ d"
  "renderQ (fillRect_draw x y w h col d) = renderQ d"
  "renderQ (copyImage_draw ox oy x y w h d) = renderQ d"
  "renderQ (snd (blitImage_draw x y w h v off d)) = renderQ d"
  "renderQ (drawImage img x y d) = renderQ d"
  by (simp_all add: emit_def damage_def setFillColor_def flip_draw_def fillRect_draw_def
      copyImage_draw_def blitImage_draw_def drawImage_def Let_def split: prod.splits)

lemma renderQ_perform [disp_simps]: "renderQ (snd (perform a d)) = renderQ d"
proof (cases a)
  case (ABlit bs x y w h)
  then show ?thesis
    using renderQ_draws(7) [of x y w h "whole bs" 0 d]
    by (auto split: prod.splits outcome.splits)
qed (simp_all add: disp_simps)

function scanRenderQ :: "display \<Rightarrow> unit outcome \<times> display" where
  "scanRenderQ d =
     (case renderQ d of
        [] \<Rightarrow> (Ret (), settle d)
      | a # q \<Rightarrow>
          (case perform a d of
             (Ret Ready, d') \<Rightarrow> scanRenderQ (d'\<lparr>renderQ := q\<rparr>)
           | (Ret Waiting, d') \<Rightarrow> (Ret (), settle (d'\<lparr>renderQ := listen (renderQ d')\<rparr>))
           | (Ret GiveUp, d') \<Rightarrow> (Ret (), d')
           | (Throw e, d') \<Rightarrow> (Throw e, d')
           | (Hang, d') \<Rightarrow> (Hang, d')))"
  by pat_completeness auto
termination by (relation "measure (length \<circ> renderQ)") auto

declare scanRenderQ.simps [simp del]

definition renderQPush :: "action \<Rightarrow> display \<Rightarrow> unit outcome \<times> display" where
  "renderQPush a d =
     (let d1 = d\<lparr>renderQ := renderQ d @ [a]\<rparr>
      in if length (renderQ d1) = 1 then scanRenderQ d1 else (Ret (), d1))"

definition disp_flip :: "display \<Rightarrow> display" where
  "disp_flip d = (if renderQ d \<noteq> [] then snd (renderQPush AFlip d) else flip_draw d)"

definition pending :: "display \<Rightarrow> bool" where
  "pending d = (length (renderQ d) > 0)"

text \<open>The result says whether the promise is already resolved.\<close>

definition disp_flush :: "display \<Rightarrow> bool \<times> display" where
  "disp_flush d = (if renderQ d = [] then (True, d) else (False, d\<lparr>flushPromise := True\<rparr>))"

definition fillRect :: "int \<Rightarrow> int \<Rightarrow> int \<Rightarrow> int \<Rightarrow> colour \<Rightarrow> display \<Rightarrow> display" where
  "fillRect x y w h c d =
     (if renderQ d \<noteq> [] then snd (renderQPush (AFill x y w h c) d) else fillRect_draw x y w h c d)"

definition copyImage ::
  "int \<Rightarrow> int \<Rightarrow> int \<Rightarrow> int \<Rightarrow> int \<Rightarrow> int \<Rightarrow> display \<Rightarrow> display" where
  "copyImage oldX oldY newX newY w h d =
     (if renderQ d \<noteq> [] then snd (renderQPush (ACopy oldX oldY newX newY w h) d)
      else copyImage_draw oldX oldY newX newY w h d)"

definition imageRect ::
  "int \<Rightarrow> int \<Rightarrow> int \<Rightarrow> int \<Rightarrow> string \<Rightarrow> bytes \<Rightarrow> display \<Rightarrow> unit outcome \<times> display" where
  "imageRect x y w h mm arr d =
     (if w = 0 \<or> h = 0 then (Ret (), d)
      else renderQPush (AImg \<lparr>mime = mm, payload = arr, complete = False, imgW = 0, imgH = 0,
             listening = False\<rparr> x y w h) d)"

definition blitImage ::
  "int \<Rightarrow> int \<Rightarrow> int \<Rightarrow> int \<Rightarrow> u8view \<Rightarrow> nat \<Rightarrow> display \<Rightarrow> unit outcome \<times> display" where
  "blitImage x y w h arr offset d =
     (if renderQ d \<noteq> [] then
        let len = nat (w * h * 4) in
        if len > length (vbuffer arr) then (Throw RangeError, d)
        else renderQPush (ABlit (slice (vbuffer arr) 0 len) x y w h) d
      else blitImage_draw x y w h arr offset d)"

text \<open>What the browser does: an image of the queue finishes loading, which resumes the queue if
  the scanner waits for it, or it fails to decode, which makes it complete with no size and
  fires no load event.\<close>

fun image_complete :: "int \<Rightarrow> int \<Rightarrow> action \<Rightarrow> action" where
  "image_complete iw ih (AImg img x y w h) =
     AImg (img\<lparr>complete := True, imgW := iw, imgH := ih, listening := False\<rparr>) x y w h"
| "image_complete iw ih a = a"

fun is_loading :: "action \<Rightarrow> bool" where
  "is_loading (AImg img x y w h) = (\<not> complete img)"
| "is_loading a = False"

fun is_listening :: "action \<Rightarrow> bool" where
  "is_listening (AImg img x y w h) = listening img"
| "is_listening a = False"

definition image_loaded :: "nat \<Rightarrow> int \<Rightarrow> int \<Rightarrow> display \<Rightarrow> unit outcome \<times> display" where
  "image_loaded k iw ih d =
     (if k < length (renderQ d) \<and> is_loading (renderQ d ! k) then
        let a = renderQ d ! k;
            d1 = d\<lparr>renderQ := (renderQ d)[k := image_complete iw ih a]\<rparr>
        in if is_listening a then scanRenderQ d1 else (Ret (), d1)
      else (Ret (), d))"

section \<open>Viewport\<close>

definition rescale :: "rat \<Rightarrow> display \<Rightarrow> display" where
  "rescale factor d =
     (let d1 = d\<lparr>scale := factor\<rparr>;
          w = factor * of_int (vpW d1); h = factor * of_int (vpH d1)
      in if styleWidth d1 \<noteq> w \<or> styleHeight d1 \<noteq> h
         then d1\<lparr>styleWidth := w, styleHeight := h\<rparr> else d1)"

definition viewportChangePos :: "rat \<Rightarrow> rat \<Rightarrow> display \<Rightarrow> display" where
  "viewportChangePos deltaX deltaY d =
     (let dx = \<lfloor>deltaX\<rfloor>; dy = \<lfloor>deltaY\<rfloor>;
          (dx, dy) = (if \<not> clipViewport d then (- vpW d, - vpH d) else (dx, dy));
          vx2 = vpX d + vpW d - 1; vy2 = vpY d + vpH d - 1;
          dx = (if dx < 0 \<and> vpX d + dx < 0 then - vpX d else dx);
          dx = (if vx2 + dx \<ge> fbWidth d then dx - (vx2 + dx - fbWidth d + 1) else dx);
          dy = (if vpY d + dy < 0 then - vpY d else dy);
          dy = (if vy2 + dy \<ge> fbHeight d then dy - (vy2 + dy - fbHeight d + 1) else dy)
      in if dx = 0 \<and> dy = 0 then d
         else let d1 = d\<lparr>vpX := vpX d + dx, vpY := vpY d + dy\<rparr>
              in disp_flip (damage (vpX d1) (vpY d1) (vpW d1) (vpH d1) d1))"

definition viewportChangeSize :: "(rat \<times> rat) option \<Rightarrow> display \<Rightarrow> display" where
  "viewportChangeSize newSize d =
     (let (width, height) =
            (case newSize of
               Some wh \<Rightarrow> if clipViewport d then wh else (of_int (fbWidth d), of_int (fbHeight d))
             | None \<Rightarrow> (of_int (fbWidth d), of_int (fbHeight d)));
          w = \<lfloor>width\<rfloor>; h = \<lfloor>height\<rfloor>;
          w = (if w > fbWidth d then fbWidth d else w);
          h = (if h > fbHeight d then fbHeight d else h)
      in if vpW d \<noteq> w \<or> vpH d \<noteq> h then
           let d1 = emit (TargetSize w h) (d\<lparr>vpW := w, vpH := h\<rparr>);
               d2 = viewportChangePos 0 0 d1;
               d3 = disp_flip (damage (vpX d2) (vpY d2) (vpW d2) (vpH d2) d2)
           in rescale (scale d3) d3
         else d)"

definition set_scale :: "rat \<Rightarrow> display \<Rightarrow> display" where
  "set_scale s d = rescale s d"

definition set_clipViewport :: "bool \<Rightarrow> display \<Rightarrow> display" where
  "set_clipViewport b d =
     (let d1 = d\<lparr>clipViewport := b\<rparr>
      in viewportChangePos 0 0
           (viewportChangeSize (Some (of_int (vpW d1), of_int (vpH d1))) d1))"

text \<open>\<open>toSigned32bit\<close> of a fractional number cuts the fraction off before it wraps.\<close>

definition trunc :: "rat \<Rightarrow> int" where
  "trunc x = (if x < 0 then \<lceil>x\<rceil> else \<lfloor>x\<rfloor>)"

definition toSigned32bit :: "rat \<Rightarrow> int" where
  "toSigned32bit x = toInt32 (trunc x)"

definition absX :: "rat \<Rightarrow> display \<Rightarrow> int" where
  "absX x d = (if scale d = 0 then 0 else toSigned32bit (x / scale d + of_int (vpX d)))"

definition absY :: "rat \<Rightarrow> display \<Rightarrow> int" where
  "absY y d = (if scale d = 0 then 0 else toSigned32bit (y / scale d + of_int (vpY d)))"

definition disp_resize :: "int \<Rightarrow> int \<Rightarrow> display \<Rightarrow> display" where
  "disp_resize width height d =
     (let d1 = d\<lparr>prevDrawStyle := [], fbWidth := width, fbHeight := height\<rparr>;
          d2 = (if backWidth d1 \<noteq> width \<or> backHeight d1 \<noteq> height then
                  let save = (backWidth d1 > 0 \<and> backHeight d1 > 0);
                      e1 = (if save then emit (BackSave (backWidth d1) (backHeight d1)) d1 else d1);
                      e2 = (if backWidth e1 \<noteq> width
                            then (emit (BackWidth width) e1)\<lparr>backWidth := width\<rparr> else e1);
                      e3 = (if backHeight e2 \<noteq> height
                            then (emit (BackHeight height) e2)\<lparr>backHeight := height\<rparr> else e2)
                  in if save then emit BackRestore e3 else e3
                else d1);
          d3 = viewportChangeSize (Some (of_int (vpW d2), of_int (vpH d2))) d2
      in viewportChangePos 0 0 d3)"

text \<open>For a viewport without area the source divides by zero and the factor is infinite or not
  a number, which no rational stands for; \<open>autoscale\<close> is used on viewports with an area.\<close>

definition autoscale :: "rat \<Rightarrow> rat \<Rightarrow> display \<Rightarrow> display" where
  "autoscale containerWidth containerHeight d =
     (let scaleRatio =
            (if containerWidth = 0 \<or> containerHeight = 0 then 0
             else let targetAspectRatio = containerWidth / containerHeight;
                      fbAspectRatio = of_int (vpW d) / of_int (vpH d)
                  in if fbAspectRatio \<ge> targetAspectRatio then containerWidth / of_int (vpW d)
                     else containerHeight / of_int (vpH d))
      in rescale scaleRatio d)"

end
