(* ===== verification/Canvas.thy ===== *)
theory Canvas
  imports Display
begin

text \<open>
  What the recorded canvas calls paint. The browser's canvas is given by a small reference
  semantics on pixel maps: filling and putting image data overwrite pixels, drawing an image
  composes it over what is there (an opaque pixel replaces, a transparent one changes nothing,
  the rest is left to the parameter \<open>blend\<close>), setting a size clears. How an image decodes is
  the parameter \<open>decoded\<close>.

  On top of it the theory shows that the fill style cache of the display is sound and that
  the bounding box of damage always covers every pixel at which the visible canvas differs
  from the frame buffer.
\<close>

section \<open>Reference semantics\<close>

type_synonym pixel = "int \<times> int \<times> int \<times> int"
type_synonym pixmap = "int \<times> int \<Rightarrow> pixel"

record canvas_env =
  decoded :: "image \<Rightarrow> pixmap"
  blend :: "pixel \<Rightarrow> pixel \<Rightarrow> pixel"

record canvases =
  bpix :: pixmap
  bW :: int
  bH :: int
  fillc :: pixel
  saved :: "pixmap \<times> int \<times> int"
  targ :: pixmap
  tW :: int
  tH :: int

definition transparent :: pixel where
  "transparent = (0, 0, 0, 0)"

definition opaque :: "pixel \<Rightarrow> bool" where
  "opaque p = (snd (snd (snd p)) = 255)"

definition in_rect :: "int \<Rightarrow> int \<Rightarrow> int \<Rightarrow> int \<Rightarrow> int \<times> int \<Rightarrow> bool" where
  "in_rect x y w h p = (x \<le> fst p \<and> fst p < x + w \<and> y \<le> snd p \<and> snd p < y + h)"

definition over :: "canvas_env \<Rightarrow> pixel \<Rightarrow> pixel \<Rightarrow> pixel" where
  "over env s t =
     (if opaque s then s else if snd (snd (snd s)) = 0 then t else blend env s t)"

definition pix :: "canvases \<Rightarrow> pixmap" where
  "pix c p = (if in_rect 0 0 (bW c) (bH c) p then bpix c p else transparent)"

definition pixel_at :: "bytes \<Rightarrow> int \<Rightarrow> int \<Rightarrow> int \<Rightarrow> pixel" where
  "pixel_at bs w i j =
     (let k = nat ((j * w + i) * 4)
      in (uint (bs ! k), uint (bs ! (k + 1)), uint (bs ! (k + 2)), uint (bs ! (k + 3))))"

definition clamp :: "int \<Rightarrow> int" where
  "clamp n = max 0 (min 255 n)"

fun style_pixel :: "style \<Rightarrow> pixel option" where
  "style_pixel [Some r, Some g, Some b] = Some (clamp r, clamp g, clamp b, 255)"
| "style_pixel _ = None"

fun canvas_step :: "canvas_env \<Rightarrow> canvas_op \<Rightarrow> canvases \<Rightarrow> canvases" where
  "canvas_step env (SetFillStyle s) c =
     (case style_pixel s of Some p \<Rightarrow> c\<lparr>fillc := p\<rparr> | None \<Rightarrow> c)"
| "canvas_step env (CtxFillRect x y w h) c =
     c\<lparr>bpix := \<lambda>p. if in_rect x y w h p then fillc c else bpix c p\<rparr>"
| "canvas_step env (CtxCopy ox oy x y w h) c =
     c\<lparr>bpix := \<lambda>p. if in_rect x y w h p
         then over env (pix c (fst p - x + ox, snd p - y + oy)) (bpix c p) else bpix c p\<rparr>"
| "canvas_step env (CtxPut bs w h x y) c =
     c\<lparr>bpix := \<lambda>p. if in_rect x y w h p then pixel_at bs w (fst p - x) (snd p - y) else bpix c p\<rparr>"
| "canvas_step env (CtxImage img x y) c =
     c\<lparr>bpix := \<lambda>p. if in_rect x y (imgW img) (imgH img) p
         then over env (decoded env img (fst p - x, snd p - y)) (bpix c p) else bpix c p\<rparr>"
| "canvas_step env (BackSave w h) c = c\<lparr>saved := (pix c, w, h)\<rparr>"
| "canvas_step env (BackWidth w) c =
     c\<lparr>bW := w, bpix := \<lambda>_. transparent, fillc := (0, 0, 0, 255)\<rparr>"
| "canvas_step env (BackHeight h) c =
     c\<lparr>bH := h, bpix := \<lambda>_. transparent, fillc := (0, 0, 0, 255)\<rparr>"
| "canvas_step env BackRestore c =
     (case saved c of (m, w, h) \<Rightarrow>
       c\<lparr>bpix := \<lambda>p. if in_rect 0 0 w h p then m p else bpix c p\<rparr>)"
| "canvas_step env (TargetCopy x y w h vx vy) c =
     c\<lparr>targ := \<lambda>q. if in_rect vx vy w h q
         then over env (pix c (fst q - vx + x, snd q - vy + y)) (targ c q) else targ c q\<rparr>"
| "canvas_step env (TargetSize w h) c = c\<lparr>tW := w, tH := h, targ := \<lambda>_. transparent\<rparr>"

definition screen :: "canvas_env \<Rightarrow> canvases \<Rightarrow> display \<Rightarrow> canvases" where
  "screen env c0 d = fold (canvas_step env) (ops d) c0"

lemma screen_emit [disp_simps]: "screen env c0 (emit op d) = canvas_step env op (screen env c0 d)"
  by (simp add: screen_def emit_def)

lemma screen_ops: "ops d = ops d' \<Longrightarrow> screen env c0 d = screen env c0 d'"
  by (simp add: screen_def)

section \<open>The fill style cache\<close>

definition cache_ok :: "canvas_env \<Rightarrow> canvases \<Rightarrow> display \<Rightarrow> bool" where
  "cache_ok env c0 d \<longleftrightarrow> (\<forall>p. style_pixel (prevDrawStyle d) = Some p \<longrightarrow> fillc (screen env c0 d) = p)"

section \<open>Damage covers what is out of date\<close>

definition in_damage :: "display \<Rightarrow> int \<times> int \<Rightarrow> bool" where
  "in_damage d p = (dLeft d \<le> fst p \<and> fst p < dRight d \<and> dTop d \<le> snd p \<and> snd p < dBottom d)"

definition in_view :: "display \<Rightarrow> int \<times> int \<Rightarrow> bool" where
  "in_view d p = in_rect (vpX d) (vpY d) (vpW d) (vpH d) p"

definition shown :: "canvas_env \<Rightarrow> canvases \<Rightarrow> display \<Rightarrow> pixmap" where
  "shown env c0 d p = targ (screen env c0 d) (fst p - vpX d, snd p - vpY d)"

definition framebuffer :: "canvas_env \<Rightarrow> canvases \<Rightarrow> display \<Rightarrow> pixmap" where
  "framebuffer env c0 d = pix (screen env c0 d)"

definition in_sync :: "canvas_env \<Rightarrow> canvases \<Rightarrow> display \<Rightarrow> bool" where
  "in_sync env c0 d \<longleftrightarrow>
     (\<forall>p. in_view d p \<and> \<not> in_damage d p \<and> opaque (framebuffer env c0 d p) \<longrightarrow>
        shown env c0 d p = framebuffer env c0 d p)"

lemma in_damage_damage [disp_simps]:
  "in_damage d p \<Longrightarrow> in_damage (damage x y w h d) p"
  "in_rect x y w h p \<Longrightarrow> in_damage (damage x y w h d) p"
  by (auto simp: in_damage_def damage_def in_rect_def Let_def)

lemma damage_frame [disp_simps]:
  "ops (damage x y w h d) = ops d" "vpX (damage x y w h d) = vpX d" "vpY (damage x y w h d) = vpY d"
  "vpW (damage x y w h d) = vpW d" "vpH (damage x y w h d) = vpH d"
  "fbWidth (damage x y w h d) = fbWidth d" "fbHeight (damage x y w h d) = fbHeight d"
  "prevDrawStyle (damage x y w h d) = prevDrawStyle d"
  "clipViewport (damage x y w h d) = clipViewport d" "scale (damage x y w h d) = scale d"
  "flushPromise (damage x y w h d) = flushPromise d"
  "backWidth (damage x y w h d) = backWidth d" "backHeight (damage x y w h d) = backHeight d"
  by (simp_all add: damage_def Let_def)

lemma screen_damage [disp_simps]: "screen env c0 (damage x y w h d) = screen env c0 d"
  by (rule screen_ops) (simp add: disp_simps)

text \<open>The invariant of the display: the cached fill style is the one of the context, the canvas
  sizes are the recorded ones, nothing outside the damage is out of date, and a flush promise is
  pending only while there is queued work.\<close>

definition disp_ok :: "canvas_env \<Rightarrow> canvases \<Rightarrow> display \<Rightarrow> bool" where
  "disp_ok env c0 d \<longleftrightarrow> cache_ok env c0 d \<and> in_sync env c0 d \<and>
     tW (screen env c0 d) = vpW d \<and> tH (screen env c0 d) = vpH d \<and>
     bW (screen env c0 d) = backWidth d \<and> bH (screen env c0 d) = backHeight d"

lemma disp_ok_paint:
  assumes ok: "disp_ok env c0 d"
    and paint: "\<And>c. targ (canvas_step env op c) = targ c \<and> tW (canvas_step env op c) = tW c \<and>
      tH (canvas_step env op c) = tH c \<and> bW (canvas_step env op c) = bW c \<and>
      bH (canvas_step env op c) = bH c \<and> fillc (canvas_step env op c) = fillc c"
    and rect: "\<And>c p. \<not> in_rect x y w h p \<Longrightarrow> bpix (canvas_step env op c) p = bpix c p"
  shows "disp_ok env c0 (damage x y w h (emit op d))"
proof -
  let ?d = "emit op d"
  have e: "prevDrawStyle ?d = prevDrawStyle d" "vpX ?d = vpX d" "vpY ?d = vpY d" "vpW ?d = vpW d"
    "vpH ?d = vpH d" "in_damage ?d = in_damage d" "backWidth ?d = backWidth d"
    "backHeight ?d = backHeight d"
    by (auto simp: emit_def in_damage_def)
  have "in_sync env c0 (damage x y w h ?d)"
    unfolding in_sync_def
  proof (intro allI impI, elim conjE)
    fix p
    assume p: "in_view (damage x y w h ?d) p" "\<not> in_damage (damage x y w h ?d) p"
      "opaque (framebuffer env c0 (damage x y w h ?d) p)"
    then have out: "\<not> in_rect x y w h p" "\<not> in_damage d p" "in_view d p"
      using in_damage_damage(1) [of ?d p x y w h] in_damage_damage(2) [of x y w h p ?d]
      by (auto simp: e in_view_def disp_simps)
    then have "framebuffer env c0 (damage x y w h ?d) p = framebuffer env c0 d p"
      using rect paint by (simp add: framebuffer_def pix_def disp_simps)
    with p out ok show "shown env c0 (damage x y w h ?d) p = framebuffer env c0 (damage x y w h ?d) p"
      using paint by (simp add: disp_ok_def in_sync_def shown_def e disp_simps)
  qed
  then show ?thesis
    using ok paint by (simp add: disp_ok_def cache_ok_def e disp_simps)
qed

lemma disp_ok_setFillColor:
  assumes "disp_ok env c0 d"
  shows "disp_ok env c0 (setFillColor c d)"
proof -
  let ?s = "[colour_at c 0, colour_at c 1, colour_at c 2]"
  let ?d = "(emit (SetFillStyle ?s) d)\<lparr>prevDrawStyle := ?s\<rparr>"
  have "screen env c0 ?d = canvas_step env (SetFillStyle ?s) (screen env c0 d)"
    by (simp add: screen_def emit_def)
  then have "disp_ok env c0 ?d"
    using assms by (auto simp: disp_ok_def cache_ok_def in_sync_def in_view_def in_damage_def
        shown_def framebuffer_def pix_def emit_def split: option.splits)
  then show ?thesis using assms by (simp add: setFillColor_def Let_def)
qed

lemma disp_ok_draws:
  assumes "disp_ok env c0 d"
  shows "disp_ok env c0 (fillRect_draw x y w h col d)"
    and "disp_ok env c0 (copyImage_draw ox oy x y w h d)"
    and "disp_ok env c0 (drawImage img x y d)"
    and "disp_ok env c0 (snd (blitImage_draw x y w h v off d))"
  unfolding fillRect_draw_def copyImage_draw_def drawImage_def blitImage_draw_def Let_def
  by (auto intro!: disp_ok_paint disp_ok_setFillColor assms)

text \<open>The rectangle that a flip copies, along one axis: start, size and place on the visible
  canvas, from the damage \<open>l\<close> to \<open>r\<close> and a viewport of size \<open>n\<close> at \<open>v\<close>.\<close>

definition flip_start :: "int \<Rightarrow> int \<Rightarrow> int" where
  "flip_start l v = (if l - v < 0 then l - (l - v) else l)"

definition flip_at :: "int \<Rightarrow> int \<Rightarrow> int" where
  "flip_at l v = (if l - v < 0 then 0 else l - v)"

definition flip_size :: "int \<Rightarrow> int \<Rightarrow> int \<Rightarrow> int \<Rightarrow> int" where
  "flip_size l r v n =
     (let w = (if l - v < 0 then r - l + (l - v) else r - l)
      in if flip_at l v + w > n then n - flip_at l v else w)"

lemma flip_rect:
  assumes "l \<le> p" "p < r" "v \<le> p" "p < v + n"
  shows "0 < flip_size l r v n" "flip_at l v \<le> p - v" "p - v < flip_at l v + flip_size l r v n"
    "p - v - flip_at l v + flip_start l v = p"
  using assms by (auto simp: flip_size_def flip_at_def flip_start_def Let_def)

lemma flip_draw_eq:
  "flip_draw d =
    (let w = flip_size (dLeft d) (dRight d) (vpX d) (vpW d);
         h = flip_size (dTop d) (dBottom d) (vpY d) (vpH d)
     in (if w > 0 \<and> h > 0
         then emit (TargetCopy (flip_start (dLeft d) (vpX d)) (flip_start (dTop d) (vpY d)) w h
                      (flip_at (dLeft d) (vpX d)) (flip_at (dTop d) (vpY d))) d
         else d)\<lparr>dLeft := 65535, dTop := 65535, dRight := 0, dBottom := 0\<rparr>)"
  unfolding flip_draw_def flip_size_def flip_at_def flip_start_def Let_def
  by (cases "dLeft d - vpX d < 0"; cases "dTop d - vpY d < 0")
    (simp_all only: if_True if_False prod.case cong: if_cong)

lemma flip_draw_frame [disp_simps]:
  "vpX (flip_draw d) = vpX d" "vpY (flip_draw d) = vpY d" "vpW (flip_draw d) = vpW d"
  "vpH (flip_draw d) = vpH d" "fbWidth (flip_draw d) = fbWidth d" "fbHeight (flip_draw d) = fbHeight d"
  "prevDrawStyle (flip_draw d) = prevDrawStyle d" "clipViewport (flip_draw d) = clipViewport d"
  "scale (flip_draw d) = scale d" "backWidth (flip_draw d) = backWidth d"
  "backHeight (flip_draw d) = backHeight d" "flushPromise (flip_draw d) = flushPromise d"
  "in_damage (flip_draw d) = (\<lambda>p. False)"
  by (auto simp: flip_draw_eq Let_def emit_def in_damage_def fun_eq_iff)

lemma flip_draw_screen:
  "\<exists>f. screen env c0 (flip_draw d) = screen env c0 d\<lparr>targ := f\<rparr> \<and>
    (\<forall>p. in_view d p \<and> in_damage d p \<and> opaque (framebuffer env c0 d p) \<longrightarrow>
      f (fst p - vpX d, snd p - vpY d) = framebuffer env c0 d p) \<and>
    (\<forall>p. in_view d p \<and> f (fst p - vpX d, snd p - vpY d) \<noteq> shown env c0 d p \<longrightarrow>
      opaque (framebuffer env c0 d p) \<longrightarrow>
      f (fst p - vpX d, snd p - vpY d) = framebuffer env c0 d p)"
proof -
  let ?w = "flip_size (dLeft d) (dRight d) (vpX d) (vpW d)"
  let ?h = "flip_size (dTop d) (dBottom d) (vpY d) (vpH d)"
  let ?ax = "flip_at (dLeft d) (vpX d)" and ?ay = "flip_at (dTop d) (vpY d)"
  let ?sx = "flip_start (dLeft d) (vpX d)" and ?sy = "flip_start (dTop d) (vpY d)"
  let ?c = "screen env c0 d"
  define f where "f = (if ?w > 0 \<and> ?h > 0 then
      targ (canvas_step env (TargetCopy ?sx ?sy ?w ?h ?ax ?ay) ?c) else targ ?c)"
  have "ops (flip_draw d) = ops (if ?w > 0 \<and> ?h > 0 then
      emit (TargetCopy ?sx ?sy ?w ?h ?ax ?ay) d else d)"
    by (simp add: flip_draw_eq Let_def)
  then have scr: "screen env c0 (flip_draw d) = ?c\<lparr>targ := f\<rparr>"
    by (subst screen_ops, assumption) (simp add: f_def disp_simps)
  have src: "fst p - vpX d - ?ax + ?sx = fst p" "snd p - vpY d - ?ay + ?sy = snd p" for p :: "int \<times> int"
    by (simp_all add: flip_at_def flip_start_def)
  have val: "f (fst p - vpX d, snd p - vpY d) =
      (if ?w > 0 \<and> ?h > 0 \<and> in_rect ?ax ?ay ?w ?h (fst p - vpX d, snd p - vpY d)
       then over env (framebuffer env c0 d p) (shown env c0 d p) else shown env c0 d p)"
    for p
    by (auto simp: f_def shown_def framebuffer_def) (simp_all only: src prod.collapse)
  have "f (fst p - vpX d, snd p - vpY d) = framebuffer env c0 d p"
    if "in_view d p" "in_damage d p" "opaque (framebuffer env c0 d p)" for p
    using that flip_rect [of "dLeft d" "fst p" "dRight d" "vpX d" "vpW d"]
      flip_rect [of "dTop d" "snd p" "dBottom d" "vpY d" "vpH d"]
    by (simp add: val in_view_def in_damage_def in_rect_def over_def)
  moreover have "f (fst p - vpX d, snd p - vpY d) = framebuffer env c0 d p"
    if "f (fst p - vpX d, snd p - vpY d) \<noteq> shown env c0 d p" "opaque (framebuffer env c0 d p)" for p
    using that by (simp add: val over_def split: if_splits)
  ultimately show ?thesis using scr by blast
qed

lemma disp_ok_flip_draw:
  assumes "disp_ok env c0 d"
  shows "disp_ok env c0 (flip_draw d)"
proof -
  obtain f where f: "screen env c0 (flip_draw d) = screen env c0 d\<lparr>targ := f\<rparr>"
    "\<And>p. in_view d p \<Longrightarrow> in_damage d p \<Longrightarrow> opaque (framebuffer env c0 d p) \<Longrightarrow>
      f (fst p - vpX d, snd p - vpY d) = framebuffer env c0 d p"
    "\<And>p. in_view d p \<Longrightarrow> f (fst p - vpX d, snd p - vpY d) \<noteq> shown env c0 d p \<Longrightarrow>
      opaque (framebuffer env c0 d p) \<Longrightarrow> f (fst p - vpX d, snd p - vpY d) = framebuffer env c0 d p"
    using flip_draw_screen [of env c0 d] by blast
  have sync: "in_sync env c0 d" using assms by (simp add: disp_ok_def)
  have fb: "framebuffer env c0 (flip_draw d) p = framebuffer env c0 d p" for p
    using f(1) by (simp add: framebuffer_def pix_def)
  have "f (fst p - vpX d, snd p - vpY d) = framebuffer env c0 d p"
    if "in_view d p" "opaque (framebuffer env c0 d p)" for p
    using that sync f(2,3) [of p] unfolding in_sync_def by metis
  then have "in_sync env c0 (flip_draw d)"
    using f(1) by (simp add: in_sync_def fb in_view_def shown_def disp_simps)
  then show ?thesis
    using assms f(1) by (simp add: disp_ok_def cache_ok_def disp_simps)
qed

section \<open>The queue keeps the invariant\<close>

lemma disp_ok_fields [simp]:
  "disp_ok env c0 (d\<lparr>renderQ := q\<rparr>) = disp_ok env c0 d"
  "disp_ok env c0 (d\<lparr>flushPromise := b\<rparr>) = disp_ok env c0 d"
  "disp_ok env c0 (d\<lparr>flushResolved := n\<rparr>) = disp_ok env c0 d"
  "disp_ok env c0 (d\<lparr>scale := s\<rparr>) = disp_ok env c0 d"
  "disp_ok env c0 (d\<lparr>styleWidth := s\<rparr>) = disp_ok env c0 d"
  "disp_ok env c0 (d\<lparr>styleHeight := s\<rparr>) = disp_ok env c0 d"
  "disp_ok env c0 (d\<lparr>clipViewport := b\<rparr>) = disp_ok env c0 d"
  "disp_ok env c0 (d\<lparr>fbWidth := x\<rparr>) = disp_ok env c0 d"
  "disp_ok env c0 (d\<lparr>fbHeight := x\<rparr>) = disp_ok env c0 d"
  by (simp_all add: disp_ok_def cache_ok_def in_sync_def in_view_def in_damage_def shown_def
      framebuffer_def screen_def)

lemma disp_ok_settle: "disp_ok env c0 d \<Longrightarrow> disp_ok env c0 (settle d)"
  by (simp add: settle_def)

lemma disp_ok_perform: "disp_ok env c0 d \<Longrightarrow> disp_ok env c0 (snd (perform a d))"
proof (cases a)
  case (ABlit bs x y w h)
  assume "disp_ok env c0 d"
  then show ?thesis
    using disp_ok_draws(4) [of env c0 d x y w h "whole bs" 0] ABlit
    by (auto split: prod.splits outcome.splits)
qed (auto simp: disp_ok_flip_draw disp_ok_draws)

lemma disp_ok_scanRenderQ: "disp_ok env c0 d \<Longrightarrow> disp_ok env c0 (snd (scanRenderQ d))"
proof (induction d rule: scanRenderQ.induct)
  case (1 d)
  show ?case
  proof (cases "renderQ d")
    case Nil
    then show ?thesis using 1 by (simp add: scanRenderQ.simps [of d] disp_ok_settle)
  next
    case (Cons a q)
    note ok = disp_ok_perform [OF "1.prems", of a]
    obtain r d' where p: "perform a d = (r, d')" by (cases "perform a d")
    show ?thesis
    proof (cases "r = Ret Ready")
      case True
      then show ?thesis using Cons p "1.IH" [of a q] ok by (simp add: scanRenderQ.simps [of d])
    next
      case False
      then show ?thesis
        using Cons p ok
        by (auto simp: scanRenderQ.simps [of d] disp_ok_settle split: outcome.splits progress.splits)
    qed
  qed
qed

lemma disp_ok_renderQPush: "disp_ok env c0 d \<Longrightarrow> disp_ok env c0 (snd (renderQPush a d))"
  by (simp add: renderQPush_def Let_def disp_ok_scanRenderQ)

lemma disp_ok_requests:
  assumes "disp_ok env c0 d"
  shows "disp_ok env c0 (disp_flip d)"
    and "disp_ok env c0 (fillRect x y w h col d)"
    and "disp_ok env c0 (copyImage ox oy x y w h d)"
    and "disp_ok env c0 (snd (imageRect x y w h mm arr d))"
    and "disp_ok env c0 (snd (blitImage x y w h v off d))"
    and "disp_ok env c0 (snd (image_loaded k iw ih d))"
    and "disp_ok env c0 (snd (disp_flush d))"
  using assms
  by (auto simp: disp_flip_def fillRect_def copyImage_def imageRect_def blitImage_def
      image_loaded_def disp_flush_def Let_def
      intro: disp_ok_flip_draw disp_ok_draws disp_ok_renderQPush disp_ok_scanRenderQ)

section \<open>The viewport operations keep the invariant\<close>

text \<open>While the viewport changes, the visible canvas may be out of date: \<open>disp_base\<close> is the
  invariant without synchronisation, and damaging the whole viewport restores it.\<close>

definition disp_base :: "canvas_env \<Rightarrow> canvases \<Rightarrow> display \<Rightarrow> bool" where
  "disp_base env c0 d \<longleftrightarrow> cache_ok env c0 d \<and>
     tW (screen env c0 d) = vpW d \<and> tH (screen env c0 d) = vpH d \<and>
     bW (screen env c0 d) = backWidth d \<and> bH (screen env c0 d) = backHeight d"

lemma disp_ok_base: "disp_ok env c0 d \<Longrightarrow> disp_base env c0 d"
  by (simp add: disp_ok_def disp_base_def)

lemma disp_base_damage:
  "disp_base env c0 d \<Longrightarrow> disp_ok env c0 (damage (vpX d) (vpY d) (vpW d) (vpH d) d)"
  by (auto simp: disp_ok_def disp_base_def in_sync_def in_view_def cache_ok_def disp_simps)

lemma disp_base_refresh:
  "disp_base env c0 d \<Longrightarrow> disp_ok env c0 (disp_flip (damage (vpX d) (vpY d) (vpW d) (vpH d) d))"
  by (intro disp_ok_requests disp_base_damage)

lemma disp_base_moved:
  "disp_base env c0 d \<Longrightarrow> disp_base env c0 (d\<lparr>vpX := x, vpY := y\<rparr>)"
  using screen_ops [of "d\<lparr>vpX := x, vpY := y\<rparr>" d env c0]
  by (simp add: disp_base_def cache_ok_def)

definition refresh_at :: "int \<Rightarrow> int \<Rightarrow> display \<Rightarrow> display" where
  "refresh_at x y d =
     (let d1 = d\<lparr>vpX := x, vpY := y\<rparr> in disp_flip (damage (vpX d1) (vpY d1) (vpW d1) (vpH d1) d1))"

definition clamp_delta :: "bool \<Rightarrow> int \<Rightarrow> int \<Rightarrow> int \<Rightarrow> int \<Rightarrow> int" where
  "clamp_delta both v n fb \<delta> =
     (let \<delta>' = (if v + \<delta> < 0 \<and> (both \<longrightarrow> \<delta> < 0) then - v else \<delta>)
      in if v + n - 1 + \<delta>' \<ge> fb then \<delta>' - (v + n - 1 + \<delta>' - fb + 1) else \<delta>')"

lemma viewportChangePos_eq:
  "viewportChangePos dx dy d =
    (let ex = clamp_delta True (vpX d) (vpW d) (fbWidth d) (if clipViewport d then \<lfloor>dx\<rfloor> else - vpW d);
         ey = clamp_delta False (vpY d) (vpH d) (fbHeight d) (if clipViewport d then \<lfloor>dy\<rfloor> else - vpH d)
     in if ex = 0 \<and> ey = 0 then d else refresh_at (vpX d + ex) (vpY d + ey) d)"
  unfolding viewportChangePos_def clamp_delta_def refresh_at_def Let_def
  by (cases "clipViewport d") (simp_all only: if_True if_False prod.case simp_thms conj_commute)

lemma disp_ok_refresh_at: "disp_base env c0 d \<Longrightarrow> disp_ok env c0 (refresh_at x y d)"
  using disp_base_refresh [OF disp_base_moved] by (simp add: refresh_at_def)

lemma disp_base_viewportChangePos:
  "disp_base env c0 d \<Longrightarrow> disp_base env c0 (viewportChangePos dx dy d)"
  "disp_ok env c0 d \<Longrightarrow> disp_ok env c0 (viewportChangePos dx dy d)"
  by (auto simp: viewportChangePos_eq Let_def intro: disp_ok_base disp_ok_refresh_at)

lemma disp_ok_rescale: "disp_ok env c0 d \<Longrightarrow> disp_ok env c0 (rescale f d)"
  by (simp add: rescale_def Let_def)

lemma disp_base_TargetSize:
  "disp_base env c0 d \<Longrightarrow> disp_base env c0 (emit (TargetSize w h) (d\<lparr>vpW := w, vpH := h\<rparr>))"
  using screen_ops [of "d\<lparr>vpW := w, vpH := h\<rparr>" d env c0]
  by (simp add: disp_base_def cache_ok_def disp_simps) (simp add: emit_def)

definition fitted :: "(rat \<times> rat) option \<Rightarrow> display \<Rightarrow> int \<times> int" where
  "fitted s d =
     (let full = (of_int (fbWidth d), of_int (fbHeight d));
          (w, h) = (case s of Some wh \<Rightarrow> if clipViewport d then wh else full | None \<Rightarrow> full)
      in (min \<lfloor>w\<rfloor> (fbWidth d), min \<lfloor>h\<rfloor> (fbHeight d)))"

definition resize_view :: "int \<Rightarrow> int \<Rightarrow> display \<Rightarrow> display" where
  "resize_view w h d =
     (let d1 = emit (TargetSize w h) (d\<lparr>vpW := w, vpH := h\<rparr>);
          d2 = viewportChangePos 0 0 d1;
          d3 = disp_flip (damage (vpX d2) (vpY d2) (vpW d2) (vpH d2) d2)
      in rescale (scale d3) d3)"

lemma viewportChangeSize_eq:
  "viewportChangeSize s d =
    (let (w, h) = fitted s d in if vpW d = w \<and> vpH d = h then d else resize_view w h d)"
proof -
  have m: "(if y < x then y else x) = min x y" for x y :: int by (simp add: min_def)
  have "viewportChangeSize s d =
      (let (w, h) = fitted s d in if vpW d \<noteq> w \<or> vpH d \<noteq> h then resize_view w h d else d)"
    unfolding viewportChangeSize_def fitted_def resize_view_def Let_def m
    by (simp only: case_prod_unfold prod.sel)
  then show ?thesis by (auto simp: Let_def split: prod.splits)
qed

lemma disp_ok_resize_view: "disp_base env c0 d \<Longrightarrow> disp_ok env c0 (resize_view w h d)"
  unfolding resize_view_def Let_def
  by (intro disp_ok_rescale disp_base_refresh disp_base_viewportChangePos(1) disp_base_TargetSize)

lemma disp_ok_viewportChangeSize:
  "disp_ok env c0 d \<Longrightarrow> disp_ok env c0 (viewportChangeSize wh d)"
  by (simp add: viewportChangeSize_eq Let_def disp_ok_resize_view disp_ok_base split: prod.split)

lemma disp_ok_set_clipViewport: "disp_ok env c0 d \<Longrightarrow> disp_ok env c0 (set_clipViewport b d)"
  by (auto simp: set_clipViewport_def Let_def
      intro!: disp_base_viewportChangePos disp_ok_viewportChangeSize)

text \<open>Resizing the hidden canvas keeps the pixels that both sizes have and clears the rest.\<close>

definition resize_back :: "int \<Rightarrow> int \<Rightarrow> display \<Rightarrow> display" where
  "resize_back width height d =
     (if backWidth d \<noteq> width \<or> backHeight d \<noteq> height then
        let save = (backWidth d > 0 \<and> backHeight d > 0);
            e1 = (if save then emit (BackSave (backWidth d) (backHeight d)) d else d);
            e2 = (if backWidth e1 \<noteq> width
                  then (emit (BackWidth width) e1)\<lparr>backWidth := width\<rparr> else e1);
            e3 = (if backHeight e2 \<noteq> height
                  then (emit (BackHeight height) e2)\<lparr>backHeight := height\<rparr> else e2)
        in if save then emit BackRestore e3 else e3
      else d)"

lemma disp_resize_eq:
  "disp_resize width height d =
    (let d2 = resize_back width height (d\<lparr>prevDrawStyle := [], fbWidth := width, fbHeight := height\<rparr>)
     in viewportChangePos 0 0 (viewportChangeSize (Some (of_int (vpW d2), of_int (vpH d2))) d2))"
  unfolding disp_resize_def resize_back_def Let_def by (rule refl)

lemma resize_back_frame:
  "vpX (resize_back w h d) = vpX d" "vpY (resize_back w h d) = vpY d"
  "vpW (resize_back w h d) = vpW d" "vpH (resize_back w h d) = vpH d"
  "prevDrawStyle (resize_back w h d) = prevDrawStyle d"
  "in_damage (resize_back w h d) = in_damage d"
  "backWidth (resize_back w h d) = w" "backHeight (resize_back w h d) = h"
  "fbWidth (resize_back w h d) = fbWidth d" "fbHeight (resize_back w h d) = fbHeight d"
  "clipViewport (resize_back w h d) = clipViewport d"
  "renderQ (resize_back w h d) = renderQ d"
  by (auto simp: resize_back_def Let_def emit_def in_damage_def fun_eq_iff)

lemma resize_back_screen:
  fixes d :: display and env :: canvas_env and c0 :: canvases and w h :: int
  defines "c \<equiv> screen env c0 d" and "c' \<equiv> screen env c0 (resize_back w h d)"
  assumes "bW c = backWidth d" "bH c = backHeight d"
  shows "targ c' = targ c" "tW c' = tW c" "tH c' = tH c" "bW c' = w" "bH c' = h"
    "pix c' p = (if in_rect 0 0 w h p then pix c p else transparent)"
proof -
  have s: "screen env c0 (e\<lparr>backWidth := x\<rparr>) = screen env c0 e"
    "screen env c0 (e\<lparr>backHeight := x\<rparr>) = screen env c0 e" for e x
    by (simp_all add: screen_def)
  note * = assms resize_back_def Let_def s screen_emit
  show "targ c' = targ c" "tW c' = tW c" "tH c' = tH c" "bW c' = w" "bH c' = h"
    using assms(3,4) by (simp_all add: * split: prod.splits) (auto simp: emit_def c_def)
  show "pix c' p = (if in_rect 0 0 w h p then pix c p else transparent)"
    using assms(3,4)
    by (simp add: * pix_def split: prod.splits) (auto simp: emit_def in_rect_def)
qed

lemma disp_ok_resize_back:
  assumes "disp_ok env c0 d" "prevDrawStyle d = []"
  shows "disp_ok env c0 (resize_back w h d)"
proof -
  have b: "bW (screen env c0 d) = backWidth d" "bH (screen env c0 d) = backHeight d"
    using assms by (simp_all add: disp_ok_def)
  note scr = resize_back_screen [OF b, of w h]
  have "opaque (framebuffer env c0 (resize_back w h d) p) \<Longrightarrow>
      framebuffer env c0 (resize_back w h d) p = framebuffer env c0 d p" for p
    by (auto simp: framebuffer_def scr opaque_def transparent_def split: if_splits)
  then have "in_sync env c0 (resize_back w h d)"
    using assms(1) by (simp add: disp_ok_def in_sync_def in_view_def shown_def scr resize_back_frame)
  then show ?thesis
    using assms scr by (simp add: disp_ok_def cache_ok_def resize_back_frame)
qed

lemma disp_ok_disp_resize: "disp_ok env c0 d \<Longrightarrow> disp_ok env c0 (disp_resize w h d)"
proof -
  assume "disp_ok env c0 d"
  then have "disp_ok env c0 (d\<lparr>prevDrawStyle := []\<rparr>)"
    by (simp add: disp_ok_def cache_ok_def in_sync_def in_view_def in_damage_def shown_def
        framebuffer_def screen_def)
  then show ?thesis
    unfolding disp_resize_eq Let_def
    by (intro disp_base_viewportChangePos(2) disp_ok_viewportChangeSize disp_ok_resize_back) simp_all
qed

section \<open>Any sequence of requests\<close>

text \<open>Everything the rest of the program, and the browser, can ask of a display.\<close>

datatype disp_cmd =
    CmdFlip
  | CmdFill int int int int colour
  | CmdCopy int int int int int int
  | CmdBlit int int int int u8view nat
  | CmdImage int int int int string bytes
  | CmdLoaded nat int int
  | CmdFlush
  | CmdResize int int
  | CmdMove rat rat
  | CmdSize "(rat \<times> rat) option"
  | CmdClip bool
  | CmdScale rat
  | CmdAutoscale rat rat

fun run_cmd :: "disp_cmd \<Rightarrow> display \<Rightarrow> display" where
  "run_cmd CmdFlip d = disp_flip d"
| "run_cmd (CmdFill x y w h c) d = fillRect x y w h c d"
| "run_cmd (CmdCopy ox oy x y w h) d = copyImage ox oy x y w h d"
| "run_cmd (CmdBlit x y w h v off) d = snd (blitImage x y w h v off d)"
| "run_cmd (CmdImage x y w h mm arr) d = snd (imageRect x y w h mm arr d)"
| "run_cmd (CmdLoaded k iw ih) d = snd (image_loaded k iw ih d)"
| "run_cmd CmdFlush d = snd (disp_flush d)"
| "run_cmd (CmdResize w h) d = disp_resize w h d"
| "run_cmd (CmdMove dx dy) d = viewportChangePos dx dy d"
| "run_cmd (CmdSize s) d = viewportChangeSize s d"
| "run_cmd (CmdClip b) d = set_clipViewport b d"
| "run_cmd (CmdScale s) d = set_scale s d"
| "run_cmd (CmdAutoscale cw ch) d = autoscale cw ch d"

definition run_cmds :: "disp_cmd list \<Rightarrow> display \<Rightarrow> display" where
  "run_cmds cs d = fold run_cmd cs d"

lemma disp_ok_run_cmd: "disp_ok env c0 d \<Longrightarrow> disp_ok env c0 (run_cmd c d)"
  by (cases c)
    (simp_all add: disp_ok_requests disp_ok_disp_resize disp_base_viewportChangePos
      disp_ok_viewportChangeSize disp_ok_set_clipViewport set_scale_def disp_ok_rescale
      autoscale_def)

lemma disp_ok_run_cmds: "disp_ok env c0 d \<Longrightarrow> disp_ok env c0 (run_cmds cs d)"
  unfolding run_cmds_def by (induction cs arbitrary: d) (simp_all add: disp_ok_run_cmd)

text \<open>The canvases of a page that was just opened: nothing is painted.\<close>

definition blank :: "int \<Rightarrow> int \<Rightarrow> canvases" where
  "blank w h = \<lparr>bpix = \<lambda>_. transparent, bW = 300, bH = 150, fillc = (0, 0, 0, 255),
     saved = (\<lambda>_. transparent, 0, 0), targ = \<lambda>_. transparent, tW = w, tH = h\<rparr>"

lemma disp_ok_new: "new_display (TargetCanvas w h) = Ret d \<Longrightarrow> disp_ok env (blank w h) d"
  by (auto simp: disp_ok_def cache_ok_def in_sync_def framebuffer_def pix_def screen_def blank_def
      opaque_def transparent_def)

section \<open>The viewport stays inside the frame buffer\<close>

definition vp_ok :: "display \<Rightarrow> bool" where
  "vp_ok d \<longleftrightarrow> 0 \<le> vpX d \<and> 0 \<le> vpW d \<and> vpX d + vpW d \<le> fbWidth d \<and>
     0 \<le> vpY d \<and> 0 \<le> vpH d \<and> vpY d + vpH d \<le> fbHeight d"

definition view_of :: "display \<Rightarrow> int list \<times> bool" where
  "view_of d = ([vpX d, vpY d, vpW d, vpH d, fbWidth d, fbHeight d], clipViewport d)"

lemma view_of_draws:
  "view_of (emit op d) = view_of d" "view_of (damage x y w h d) = view_of d"
  "view_of (setFillColor col d) = view_of d" "view_of (flip_draw d) = view_of d"
  "view_of (settle d) = view_of d" "view_of (d\<lparr>renderQ := q\<rparr>) = view_of d"
  "view_of (rescale f d) = view_of d"
  by (simp_all add: view_of_def emit_def disp_simps setFillColor_def settle_def rescale_def Let_def)

lemma view_of_perform: "view_of (snd (perform a d)) = view_of d"
  by (cases a) (simp_all add: view_of_draws fillRect_draw_def copyImage_draw_def drawImage_def
      blitImage_draw_def Let_def)

lemma view_of_scanRenderQ: "view_of (snd (scanRenderQ d)) = view_of d"
proof (induction d rule: scanRenderQ.induct)
  case (1 d)
  show ?case
  proof (cases "renderQ d")
    case Nil
    then show ?thesis by (simp add: scanRenderQ.simps [of d] view_of_draws)
  next
    case (Cons a q)
    obtain r d' where p: "perform a d = (r, d')" "view_of d' = view_of d"
      using view_of_perform [of a d] by (cases "perform a d") auto
    with Cons "1.IH" [of a q] show ?thesis
      by (auto simp: scanRenderQ.simps [of d] view_of_draws split: outcome.splits progress.splits)
  qed
qed

lemma view_of_requests:
  "view_of (disp_flip d) = view_of d" "view_of (fillRect x y w h col d) = view_of d"
  "view_of (copyImage ox oy x y w h d) = view_of d"
  "view_of (snd (blitImage x y w h v off d)) = view_of d"
  "view_of (snd (imageRect x y w h mm arr d)) = view_of d"
  "view_of (snd (image_loaded k iw ih d)) = view_of d"
  "view_of (snd (disp_flush d)) = view_of d"
  using view_of_perform [of "AFill x y w h col" d] view_of_perform [of "ACopy ox oy x y w h" d]
  by (simp_all add: disp_flip_def fillRect_def copyImage_def blitImage_def blitImage_draw_def
      imageRect_def image_loaded_def renderQPush_def Let_def view_of_scanRenderQ view_of_draws)
    (simp_all add: disp_flush_def view_of_def)

lemma vp_ok_view_of: "view_of d = view_of d' \<Longrightarrow> vp_ok d = vp_ok d'"
  by (simp add: view_of_def vp_ok_def)

lemma clamp_delta_range:
  assumes "0 \<le> v" "0 \<le> n" "n \<le> fb"
  shows "0 \<le> v + clamp_delta both v n fb \<delta>" "v + clamp_delta both v n fb \<delta> + n \<le> fb"
  using assms by (auto simp: clamp_delta_def Let_def)

lemma view_of_refresh_at:
  "view_of (refresh_at x y d) = view_of (d\<lparr>vpX := x, vpY := y\<rparr>)"
  by (simp add: refresh_at_def Let_def view_of_requests view_of_draws)

lemma vp_ok_viewportChangePos:
  assumes "0 \<le> vpX d" "0 \<le> vpY d" "0 \<le> vpW d" "0 \<le> vpH d" "vpW d \<le> fbWidth d" "vpH d \<le> fbHeight d"
  shows "vp_ok (viewportChangePos dx dy d)"
proof -
  let ?ex = "clamp_delta True (vpX d) (vpW d) (fbWidth d) (if clipViewport d then \<lfloor>dx\<rfloor> else - vpW d)"
  let ?ey = "clamp_delta False (vpY d) (vpH d) (fbHeight d) (if clipViewport d then \<lfloor>dy\<rfloor> else - vpH d)"
  have "vp_ok (d\<lparr>vpX := vpX d + ?ex, vpY := vpY d + ?ey\<rparr>)"
    using assms clamp_delta_range [of "vpX d" "vpW d" "fbWidth d" True]
      clamp_delta_range [of "vpY d" "vpH d" "fbHeight d" False]
    by (auto simp: vp_ok_def)
  moreover have "?ex = 0 \<Longrightarrow> ?ey = 0 \<Longrightarrow> d\<lparr>vpX := vpX d + ?ex, vpY := vpY d + ?ey\<rparr> = d" by simp
  ultimately show ?thesis
    using vp_ok_view_of [OF view_of_refresh_at]
    by (auto simp: viewportChangePos_eq Let_def)
qed

definition size_ok :: "(rat \<times> rat) option \<Rightarrow> bool" where
  "size_ok s = (case s of None \<Rightarrow> True | Some (w, h) \<Rightarrow> 0 \<le> w \<and> 0 \<le> h)"

lemma fitted_range:
  assumes "fitted s d = (w, h)" "size_ok s" "0 \<le> fbWidth d" "0 \<le> fbHeight d"
  shows "0 \<le> w" "w \<le> fbWidth d" "0 \<le> h" "h \<le> fbHeight d"
  using assms by (auto simp: fitted_def size_ok_def Let_def split: option.splits if_splits)

lemma vp_ok_resize_view:
  assumes "0 \<le> vpX d" "0 \<le> vpY d" "0 \<le> w" "0 \<le> h" "w \<le> fbWidth d" "h \<le> fbHeight d"
  shows "vp_ok (resize_view w h d)"
proof -
  let ?d1 = "emit (TargetSize w h) (d\<lparr>vpW := w, vpH := h\<rparr>)"
  have "vp_ok (viewportChangePos 0 0 ?d1)"
    by (rule vp_ok_viewportChangePos) (use assms in \<open>simp_all add: emit_def\<close>)
  moreover have "view_of (resize_view w h d) = view_of (viewportChangePos 0 0 ?d1)"
    by (simp add: resize_view_def Let_def view_of_draws view_of_requests)
  ultimately show ?thesis using vp_ok_view_of by blast
qed

lemma vp_ok_viewportChangeSize:
  assumes "0 \<le> vpX d" "0 \<le> vpY d" "0 \<le> fbWidth d" "0 \<le> fbHeight d" "size_ok s"
  shows "vp_ok (viewportChangeSize s d) \<or>
    (viewportChangeSize s d = d \<and> 0 \<le> vpW d \<and> 0 \<le> vpH d \<and> vpW d \<le> fbWidth d \<and> vpH d \<le> fbHeight d)"
  using assms fitted_range [OF _ assms(5,3,4)]
  by (auto simp: viewportChangeSize_eq Let_def vp_ok_resize_view split: prod.split)

lemma vp_ok_size_then_pos:
  assumes "0 \<le> vpX d" "0 \<le> vpY d" "0 \<le> fbWidth d" "0 \<le> fbHeight d" "size_ok s"
  shows "vp_ok (viewportChangePos dx dy (viewportChangeSize s d))"
proof -
  let ?e = "viewportChangeSize s d"
  have "0 \<le> vpX ?e \<and> 0 \<le> vpY ?e \<and> 0 \<le> vpW ?e \<and> 0 \<le> vpH ?e \<and> vpW ?e \<le> fbWidth ?e \<and>
      vpH ?e \<le> fbHeight ?e"
    using vp_ok_viewportChangeSize [OF assms] assms(1,2) by (auto simp: vp_ok_def)
  then show ?thesis by (intro vp_ok_viewportChangePos) simp_all
qed

lemma vp_ok_disp_resize:
  assumes "0 \<le> vpX d" "0 \<le> vpY d" "0 \<le> vpW d" "0 \<le> vpH d" "0 \<le> w" "0 \<le> h"
  shows "vp_ok (disp_resize w h d)"
  unfolding disp_resize_eq Let_def
  by (rule vp_ok_size_then_pos) (use assms in \<open>simp_all add: resize_back_frame size_ok_def\<close>)

fun cmd_ok :: "disp_cmd \<Rightarrow> bool" where
  "cmd_ok (CmdResize w h) = (0 \<le> w \<and> 0 \<le> h)"
| "cmd_ok (CmdSize s) = size_ok s"
| "cmd_ok c = True"

lemma vp_ok_run_cmd:
  assumes "vp_ok d" "cmd_ok c"
  shows "vp_ok (run_cmd c d)"
proof -
  have le: "0 \<le> vpX d" "0 \<le> vpY d" "0 \<le> vpW d" "0 \<le> vpH d" "vpW d \<le> fbWidth d" "vpH d \<le> fbHeight d"
    using assms by (auto simp: vp_ok_def)
  then have fb: "0 \<le> fbWidth d" "0 \<le> fbHeight d" by linarith+
  show ?thesis
  proof (cases c)
    case (CmdResize w h)
    then show ?thesis using assms vp_ok_disp_resize le by simp
  next
    case (CmdMove dx dy)
    then show ?thesis using vp_ok_viewportChangePos [OF le] by simp
  next
    case (CmdSize s)
    then show ?thesis using assms vp_ok_viewportChangeSize [OF le(1,2) fb, of s] by auto
  next
    case (CmdClip b)
    then show ?thesis
      using le fb by (auto simp: set_clipViewport_def Let_def size_ok_def intro!: vp_ok_size_then_pos)
  qed (use assms(1) in \<open>simp_all add: vp_ok_view_of [OF view_of_requests(1)]
      vp_ok_view_of [OF view_of_requests(2)] vp_ok_view_of [OF view_of_requests(3)]
      vp_ok_view_of [OF view_of_requests(4)] vp_ok_view_of [OF view_of_requests(5)]
      vp_ok_view_of [OF view_of_requests(6)] vp_ok_view_of [OF view_of_requests(7)]
      set_scale_def autoscale_def Let_def vp_ok_view_of [OF view_of_draws(7)]\<close>)
qed

lemma vp_ok_run_cmds: "vp_ok d \<Longrightarrow> list_all cmd_ok cs \<Longrightarrow> vp_ok (run_cmds cs d)"
  unfolding run_cmds_def by (induction cs arbitrary: d) (simp_all add: vp_ok_run_cmd)

section \<open>Drawing happens in request order\<close>

text \<open>\<open>settled d\<close> is the display once all queued work is done, each image having arrived with the
  announced size: the queued actions performed one after the other. The pending promise of
  \<open>flush\<close> is left out of the comparison.\<close>

fun loaded :: "action \<Rightarrow> action" where
  "loaded (AImg img x y w h) =
     AImg (img\<lparr>complete := True, imgW := w, imgH := h, listening := False\<rparr>) x y w h"
| "loaded a = a"

definition unflushed :: "display \<Rightarrow> display" where
  "unflushed d = d\<lparr>flushPromise := False, flushResolved := 0\<rparr>"

definition perform_all :: "action list \<Rightarrow> display \<Rightarrow> display" where
  "perform_all q d = fold (\<lambda>a d. snd (perform (loaded a) d)) q d"

definition settled :: "display \<Rightarrow> display" where
  "settled d = perform_all (renderQ d) (unflushed (d\<lparr>renderQ := []\<rparr>))"

fun image_fits :: "action \<Rightarrow> bool" where
  "image_fits (AImg img x y w h) = (complete img \<longrightarrow> imgW img = w \<and> imgH img = h \<and> \<not> listening img)"
| "image_fits (ABlit bs x y w h) = (nat (w * h * 4) \<le> length bs \<and> w \<noteq> 0 \<and> h \<noteq> 0)"
| "image_fits a = True"

definition queue_ok :: "display \<Rightarrow> bool" where
  "queue_ok d = list_all image_fits (renderQ d)"

lemma unflushed_draws:
  "unflushed (emit op d) = emit op (unflushed d)"
  "unflushed (damage x y w h d) = damage x y w h (unflushed d)"
  "unflushed (setFillColor c d) = setFillColor c (unflushed d)"
  "unflushed (d\<lparr>renderQ := q\<rparr>) = (unflushed d)\<lparr>renderQ := q\<rparr>"
  by (simp_all add: unflushed_def emit_def damage_def setFillColor_def Let_def)

lemma renderQ_update_draws:
  "(emit op d)\<lparr>renderQ := q\<rparr> = emit op (d\<lparr>renderQ := q\<rparr>)"
  "(damage x y w h d)\<lparr>renderQ := q\<rparr> = damage x y w h (d\<lparr>renderQ := q\<rparr>)"
  "(setFillColor c d)\<lparr>renderQ := q\<rparr> = setFillColor c (d\<lparr>renderQ := q\<rparr>)"
  by (simp_all add: emit_def damage_def setFillColor_def Let_def)

lemma flip_draw_commutes:
  "unflushed (flip_draw d) = flip_draw (unflushed d)"
  "(flip_draw d)\<lparr>renderQ := q\<rparr> = flip_draw (d\<lparr>renderQ := q\<rparr>)"
  by (simp_all add: flip_draw_eq Let_def unflushed_def emit_def)

lemma perform_commutes:
  "unflushed (snd (perform a d)) = snd (perform a (unflushed d))"
  "(snd (perform a d))\<lparr>renderQ := q\<rparr> = snd (perform a (d\<lparr>renderQ := q\<rparr>))"
  "fst (perform a (d\<lparr>renderQ := q\<rparr>)) = fst (perform a d)"
  by (cases a; simp add: flip_draw_commutes fillRect_draw_def copyImage_draw_def drawImage_def
      blitImage_draw_def Let_def unflushed_draws renderQ_update_draws)+

lemma perform_ready:
  assumes "image_fits a" "fst (perform a d) = Ret Ready"
  shows "loaded a = a"
  using assms by (cases a) (auto split: if_splits)

lemma perform_fits:
  assumes "image_fits a"
  shows "fst (perform a d) = Ret Ready \<or> (fst (perform a d) = Ret Waiting \<and> snd (perform a d) = d)"
  using assms by (cases a) (auto simp: blitImage_draw_def whole_def Let_def)

lemma loaded_listen: "map loaded (listen q) = map loaded q"
  by (induction q rule: listen.induct) simp_all

lemma listen_Nil: "(listen q = []) = (q = [])"
  by (cases q rule: listen.cases) simp_all

lemma perform_all_map: "map loaded q = map loaded q' \<Longrightarrow> perform_all q d = perform_all q' d"
proof -
  have "perform_all q d = fold (\<lambda>a d. snd (perform a d)) (map loaded q) d" for q
    by (simp add: perform_all_def fold_map comp_def)
  then show "map loaded q = map loaded q' \<Longrightarrow> perform_all q d = perform_all q' d" by simp
qed

lemma settled_scanRenderQ:
  "queue_ok d \<Longrightarrow> settled (snd (scanRenderQ d)) = settled d \<and> queue_ok (snd (scanRenderQ d)) \<and>
    fst (scanRenderQ d) = Ret ()"
proof (induction d rule: scanRenderQ.induct)
  case (1 d)
  show ?case
  proof (cases "renderQ d")
    case Nil
    then show ?thesis
      by (simp add: scanRenderQ.simps [of d] settle_def settled_def unflushed_def queue_ok_def)
  next
    case (Cons a q)
    then have fit: "image_fits a" "list_all image_fits q" using "1.prems" by (simp_all add: queue_ok_def)
    obtain r d' where p: "perform a d = (r, d')" by (cases "perform a d")
    consider "r = Ret Ready" | "r = Ret Waiting" "d' = d"
      using perform_fits [OF fit(1), of d] p by auto
    then show ?thesis
    proof cases
      case 1
      have "settled (d'\<lparr>renderQ := q\<rparr>) = perform_all q (unflushed (d'\<lparr>renderQ := []\<rparr>))"
        by (simp add: settled_def)
      also have "unflushed (d'\<lparr>renderQ := []\<rparr>) = snd (perform a (unflushed (d\<lparr>renderQ := []\<rparr>)))"
        using perform_commutes(1) [of a "d\<lparr>renderQ := []\<rparr>"] perform_commutes(2) [where a = a and d = d and q = "[]"] p by simp
      also have "perform_all q \<dots> = settled d"
        using perform_ready [OF fit(1), of d] p 1 Cons by (simp add: settled_def perform_all_def)
      finally have "settled (d'\<lparr>renderQ := q\<rparr>) = settled d" .
      moreover have "queue_ok (d'\<lparr>renderQ := q\<rparr>)" using fit by (simp add: queue_ok_def)
      ultimately show ?thesis
        using "1.IH" [OF Cons p [symmetric] 1] Cons p 1 by (simp add: scanRenderQ.simps [of d])
    next
      case 2
      have "settled (settle (d\<lparr>renderQ := listen (renderQ d)\<rparr>)) = settled d"
        using perform_all_map [OF loaded_listen [of "renderQ d"]]
        by (simp add: settled_def settle_def unflushed_def listen_Nil)
      moreover have "list_all image_fits (listen (renderQ d))"
        using Cons fit p 2 by (cases a) (auto split: if_splits prod.splits outcome.splits)
      ultimately show ?thesis
        using Cons p 2 by (simp add: scanRenderQ.simps [of d] queue_ok_def) (simp add: settle_def)
    qed
  qed
qed

text \<open>What each drawing request means when nothing is queued. An image is drawn as it will be
  once loaded.\<close>

fun request_action :: "disp_cmd \<Rightarrow> action option" where
  "request_action CmdFlip = Some AFlip"
| "request_action (CmdFill x y w h c) = Some (AFill x y w h c)"
| "request_action (CmdCopy ox oy x y w h) = Some (ACopy ox oy x y w h)"
| "request_action (CmdBlit x y w h v off) =
     Some (ABlit (slice (vbuffer v) (voffset v + off) (voffset v + off + nat (w * h * 4))) x y w h)"
| "request_action (CmdImage x y w h mm arr) =
     (if w = 0 \<or> h = 0 then None
      else Some (AImg \<lparr>mime = mm, payload = arr, complete = False, imgW = 0, imgH = 0,
                   listening = False\<rparr> x y w h))"
| "request_action _ = None"

definition draw_now :: "disp_cmd \<Rightarrow> display \<Rightarrow> display" where
  "draw_now c d = (case request_action c of None \<Rightarrow> d | Some a \<Rightarrow> snd (perform (loaded a) d))"

text \<open>The requests whose data is taken from the start of its buffer, and image loads that bring
  the announced size.\<close>

fun sound_cmd :: "disp_cmd \<Rightarrow> display \<Rightarrow> bool" where
  "sound_cmd (CmdBlit x y w h v off) d =
     (0 < w \<and> 0 < h \<and> voffset v + off = 0 \<and> nat (w * h * 4) \<le> length (vbuffer v))"
| "sound_cmd (CmdLoaded k iw ih) d =
     (k < length (renderQ d) \<longrightarrow> (case renderQ d ! k of AImg img x y w h \<Rightarrow> iw = w \<and> ih = h | _ \<Rightarrow> True))"
| "sound_cmd c d = (case c of CmdResize w h \<Rightarrow> False | CmdMove x y \<Rightarrow> False | CmdSize s \<Rightarrow> False
     | CmdClip b \<Rightarrow> False | CmdScale s \<Rightarrow> False | CmdAutoscale w h \<Rightarrow> False | _ \<Rightarrow> True)"

lemma settled_renderQPush:
  assumes "queue_ok d" "image_fits a"
  shows "settled (snd (renderQPush a d)) = snd (perform (loaded a) (settled d)) \<and>
    queue_ok (snd (renderQPush a d))"
proof -
  let ?d1 = "d\<lparr>renderQ := renderQ d @ [a]\<rparr>"
  have q: "queue_ok ?d1" using assms by (simp add: queue_ok_def)
  have s: "settled ?d1 = snd (perform (loaded a) (settled d))"
    by (simp add: settled_def perform_all_def)
  show ?thesis using settled_scanRenderQ [OF q] q s unfolding renderQPush_def Let_def by auto
qed

lemma settled_empty: "renderQ d = [] \<Longrightarrow> settled d = unflushed d"
proof -
  assume "renderQ d = []"
  then have "d\<lparr>renderQ := []\<rparr> = d" by (cases d) simp
  then show "settled d = unflushed d"
    using \<open>renderQ d = []\<close> by (simp only: settled_def perform_all_def fold_simps)
qed

lemma settled_drawn:
  assumes "renderQ d = []" "loaded a = a"
  shows "settled (snd (perform a d)) = snd (perform (loaded a) (settled d))"
    "queue_ok (snd (perform a d))"
proof -
  have "renderQ (snd (perform a d)) = []" using assms(1) by (simp add: disp_simps)
  then show "settled (snd (perform a d)) = snd (perform (loaded a) (settled d))"
    "queue_ok (snd (perform a d))"
    using assms by (simp_all add: settled_empty perform_commutes queue_ok_def)
qed

lemma settled_loaded:
  assumes "queue_ok d" "sound_cmd (CmdLoaded k iw ih) d"
  shows "settled (snd (image_loaded k iw ih d)) = settled d \<and> queue_ok (snd (image_loaded k iw ih d))"
proof (cases "k < length (renderQ d) \<and> is_loading (renderQ d ! k)")
  case False
  then show ?thesis using assms by (auto simp: image_loaded_def)
next
  case True
  let ?a = "renderQ d ! k"
  let ?q = "(renderQ d)[k := image_complete iw ih ?a]" and ?d = "d\<lparr>renderQ := (renderQ d)[k := image_complete iw ih ?a]\<rparr>"
  have "loaded (image_complete iw ih ?a) = loaded ?a" by (cases ?a) simp_all
  then have "map loaded ?q = map loaded (renderQ d)"
    by (metis True list_update_id map_update nth_map)
  from perform_all_map [OF this] have s: "settled ?d = settled d"
    by (simp add: settled_def unflushed_def)
  have "image_fits (image_complete iw ih ?a)"
    using assms True by (cases ?a) (auto simp: queue_ok_def list_all_length)
  then have "queue_ok ?d"
    using assms(1) by (auto simp: queue_ok_def list_all_iff dest: set_update_subset_insert [THEN subsetD])
  with s settled_scanRenderQ [of ?d] True show ?thesis by (simp add: image_loaded_def Let_def)
qed

lemma settled_run_cmd:
  assumes "queue_ok d" "sound_cmd c d"
  shows "settled (run_cmd c d) = draw_now c (settled d) \<and> queue_ok (run_cmd c d)"
proof (cases c)
  case CmdFlip
  then show ?thesis
    using assms settled_renderQPush [of d AFlip] settled_drawn [of d AFlip]
    by (simp add: draw_now_def disp_flip_def)
next
  case (CmdFill x y w h col)
  then show ?thesis
    using assms settled_renderQPush [of d "AFill x y w h col"] settled_drawn [of d "AFill x y w h col"]
    by (simp add: draw_now_def fillRect_def)
next
  case (CmdCopy ox oy x y w h)
  then show ?thesis
    using assms settled_renderQPush [of d "ACopy ox oy x y w h"] settled_drawn [of d "ACopy ox oy x y w h"]
    by (simp add: draw_now_def copyImage_def)
next
  case (CmdBlit x y w h v off)
  let ?n = "nat (w * h * 4)"
  let ?a = "ABlit (slice (vbuffer v) 0 ?n) x y w h"
  have v: "voffset v = 0" "off = 0" "?n \<le> length (vbuffer v)" "w \<noteq> 0" "h \<noteq> 0"
    using assms CmdBlit by auto
  have "image_fits ?a" using v by (simp add: length_slice)
  moreover have "snd (perform ?a d) = snd (blitImage_draw x y w h v off d)"
    using v by (simp add: blitImage_draw_def whole_def length_slice slice_def split: prod.splits)
  ultimately show ?thesis
    using assms CmdBlit v settled_renderQPush [of d ?a] settled_drawn [of d ?a]
    by (simp add: draw_now_def blitImage_def Let_def)
next
  case (CmdImage x y w h mm arr)
  then show ?thesis
    using assms settled_renderQPush [of d "AImg \<lparr>mime = mm, payload = arr, complete = False,
      imgW = 0, imgH = 0, listening = False\<rparr> x y w h"]
    by (simp add: draw_now_def imageRect_def)
next
  case (CmdLoaded k iw ih)
  then show ?thesis using settled_loaded [OF assms(1)] assms(2) by (simp add: draw_now_def)
next
  case CmdFlush
  then show ?thesis
    using assms by (simp add: draw_now_def disp_flush_def settled_def unflushed_def queue_ok_def)
qed (use assms in simp_all)

fun sound_cmds :: "disp_cmd list \<Rightarrow> display \<Rightarrow> bool" where
  "sound_cmds [] d = True"
| "sound_cmds (c # cs) d = (sound_cmd c d \<and> sound_cmds cs (run_cmd c d))"

lemma settled_run_cmds:
  "queue_ok d \<Longrightarrow> sound_cmds cs d \<Longrightarrow>
    settled (run_cmds cs d) = fold draw_now cs (settled d) \<and> queue_ok (run_cmds cs d)"
  unfolding run_cmds_def by (induction cs arbitrary: d) (simp_all add: settled_run_cmd)

section \<open>Properties\<close>

definition demo_env :: canvas_env where
  "demo_env = \<lparr>decoded = \<lambda>_ _. (9, 9, 9, 255), blend = \<lambda>s t. s\<rparr>"

definition demo_disp :: display where
  "demo_disp = (case new_display (TargetCanvas 4 4) of Ret d \<Rightarrow> d)"

lemma demo_disp_new: "new_display (TargetCanvas 4 4) = Ret demo_disp"
  by (simp add: demo_disp_def)

text \<open>C15: What the user sees is the frame buffer. After any sequence of drawing requests, image
  loads, resizes, viewport moves, clipping and scaling on a fresh display, once the render queue
  is empty a flip leaves every painted pixel of the viewport on the visible canvas: the damage
  bounding box never misses a pixel that changed.\<close>

theorem visible_matches_framebuffer:
  assumes "new_display (TargetCanvas w h) = Ret d0" "d = disp_flip (run_cmds cs d0)"
    and "renderQ (run_cmds cs d0) = []" "in_view d p" "opaque (framebuffer env (blank w h) d p)"
  shows "shown env (blank w h) d p = framebuffer env (blank w h) d p"
proof -
  have "disp_ok env (blank w h) d"
    unfolding assms(2) by (intro disp_ok_requests disp_ok_run_cmds disp_ok_new [OF assms(1)])
  moreover have "\<not> in_damage d p" using assms(2,3) by (simp add: disp_flip_def disp_simps)
  ultimately show ?thesis using assms(4,5) unfolding disp_ok_def in_sync_def by blast
qed

theorem visible_matches_framebuffer_witness:
  "new_display (TargetCanvas 4 4) = Ret demo_disp \<and>
    shown demo_env (blank 4 4)
      (disp_flip (run_cmds [CmdResize 4 4, CmdFill 1 1 2 2 [7, 8, 9]] demo_disp)) (2, 2) = (7, 8, 9, 255)"
proof -
  let ?cs = "[CmdResize 4 4, CmdFill 1 1 2 2 [7, 8, 9]]"
  have "renderQ (run_cmds ?cs demo_disp) = []" "in_view (disp_flip (run_cmds ?cs demo_disp)) (2, 2)"
    "opaque (framebuffer demo_env (blank 4 4) (disp_flip (run_cmds ?cs demo_disp)) (2, 2))"
    "framebuffer demo_env (blank 4 4) (disp_flip (run_cmds ?cs demo_disp)) (2, 2) = (7, 8, 9, 255)"
    by code_simp+
  then show ?thesis
    using visible_matches_framebuffer [OF demo_disp_new refl, of ?cs "(2, 2)" demo_env] demo_disp_new
    by simp
qed

text \<open>Filling a rectangle paints exactly the requested colour on exactly the pixels of the
  rectangle, although the context's fill style is only set when it differs from the cached one:
  the cache is never stale, not even after a resize reset the context.\<close>

lemma fillRect_paints:
  assumes "new_display (TargetCanvas w h) = Ret d0" "d = run_cmds cs d0" "renderQ d = []"
    and "0 \<le> r" "r < 256" "0 \<le> g" "g < 256" "0 \<le> b" "b < 256"
  shows "bpix (screen env (blank w h) (fillRect x y fw fh [r, g, b] d)) p =
    (if in_rect x y fw fh p then (r, g, b, 255) else bpix (screen env (blank w h) d) p)"
proof -
  let ?s = "[Some r, Some g, Some b]"
  have "cache_ok env (blank w h) d"
    using disp_ok_run_cmds [OF disp_ok_new [OF assms(1)]] assms(2) by (auto simp: disp_ok_def)
  moreover have "style_pixel ?s = Some (r, g, b, 255)" using assms(4-) by (simp add: clamp_def)
  ultimately have "fillc (screen env (blank w h) (setFillColor [r, g, b] d)) = (r, g, b, 255) \<and>
      bpix (screen env (blank w h) (setFillColor [r, g, b] d)) = bpix (screen env (blank w h) d)"
    using assms(4-)
    by (cases "prevDrawStyle d = ?s")
      (simp_all add: setFillColor_def colour_at_def cache_ok_def Let_def screen_def emit_def clamp_def)
  then show ?thesis using assms(3) by (simp add: fillRect_def fillRect_draw_def disp_simps)
qed

text \<open>From the first resize on, the viewport never leaves the frame buffer, whatever resizes,
  moves, size changes and clipping toggles follow.\<close>

theorem viewport_stays_inside:
  assumes "new_display (TargetCanvas w h) = Ret d0" "0 \<le> w" "0 \<le> h" "0 \<le> fw" "0 \<le> fh"
    and "list_all cmd_ok cs"
  shows "vp_ok (run_cmds (CmdResize fw fh # cs) d0)"
proof -
  have "vp_ok (disp_resize fw fh d0)"
    by (rule vp_ok_disp_resize) (use assms in auto)
  then show ?thesis using vp_ok_run_cmds [OF _ assms(6)] by (simp add: run_cmds_def)
qed



text \<open>An image that arrived with another size than announced at the head of the queue.\<close>

fun misfit :: "action list \<Rightarrow> bool" where
  "misfit (AImg img x y w h # q) = (complete img \<and> (imgW img \<noteq> w \<or> imgH img \<noteq> h))"
| "misfit q = False"

definition stuck_as :: "display \<Rightarrow> display \<Rightarrow> bool" where
  "stuck_as d e \<longleftrightarrow> misfit (renderQ e) \<and> hd (renderQ e) = hd (renderQ d) \<and> flushResolved e = flushResolved d"

lemma misfit_append: "misfit q \<Longrightarrow> misfit (q @ r) \<and> hd (q @ r) = hd q \<and> q \<noteq> []"
  by (cases q rule: misfit.cases) simp_all

lemma scan_stuck: "misfit (renderQ d) \<Longrightarrow> scanRenderQ d = (Ret (), d)"
  by (cases "renderQ d" rule: misfit.cases) (auto simp: scanRenderQ.simps [of d])

lemma push_stuck: "stuck_as d e \<Longrightarrow> stuck_as d (snd (renderQPush a e))"
  using misfit_append [of "renderQ e" "[a]"] scan_stuck [of "e\<lparr>renderQ := renderQ e @ [a]\<rparr>"]
  by (auto simp: stuck_as_def renderQPush_def Let_def)

lemma flip_stuck: "stuck_as d e \<Longrightarrow> stuck_as d (disp_flip e)"
  using misfit_append [of "renderQ e" "[]"] push_stuck [of d e AFlip]
  by (auto simp: disp_flip_def stuck_as_def)

lemma stuck_cong:
  "renderQ e' = renderQ e \<Longrightarrow> flushResolved e' = flushResolved e \<Longrightarrow> stuck_as d e \<Longrightarrow> stuck_as d e'"
  by (simp add: stuck_as_def)

lemma flushResolved_frame:
  "flushResolved (damage x y w h d) = flushResolved d" "flushResolved (emit op d) = flushResolved d"
  "flushResolved (rescale f d) = flushResolved d" "renderQ (rescale f d) = renderQ d"
  "flushResolved (resize_back u v d) = flushResolved d"
  by (simp_all add: damage_def emit_def rescale_def resize_back_def Let_def)

lemma stuck_frame:
  "stuck_as d e \<Longrightarrow> stuck_as d (damage x y w h e)" "stuck_as d e \<Longrightarrow> stuck_as d (emit op e)"
  "stuck_as d e \<Longrightarrow> stuck_as d (rescale f e)" "stuck_as d e \<Longrightarrow> stuck_as d (resize_back u v e)"
  by (simp_all add: stuck_as_def flushResolved_frame disp_simps resize_back_frame)

lemma stuck_viewport:
  assumes "stuck_as d e"
  shows "stuck_as d (viewportChangePos dx dy e)" "stuck_as d (viewportChangeSize s e)"
proof -
  have pos: "stuck_as d (viewportChangePos dx dy e)" if "stuck_as d e" for e dx dy
    using that by (auto simp: viewportChangePos_eq refresh_at_def Let_def
        intro!: flip_stuck stuck_frame intro: stuck_cong)
  then show "stuck_as d (viewportChangePos dx dy e)" using assms .
  show "stuck_as d (viewportChangeSize s e)"
    using assms by (auto simp: viewportChangeSize_eq resize_view_def Let_def
        intro!: flip_stuck stuck_frame pos intro: stuck_cong split: prod.split)
qed

lemma stuck_image_loaded:
  assumes "stuck_as d e"
  shows "stuck_as d (snd (image_loaded k iw ih e))"
proof (cases "k < length (renderQ e) \<and> is_loading (renderQ e ! k)")
  case False
  then show ?thesis using assms by (auto simp: image_loaded_def)
next
  case True
  let ?e = "e\<lparr>renderQ := (renderQ e)[k := image_complete iw ih (renderQ e ! k)]\<rparr>"
  obtain img x y w h q where q: "renderQ e = AImg img x y w h # q" "misfit (renderQ e)"
    using assms by (cases "renderQ e" rule: misfit.cases) (auto simp: stuck_as_def)
  then have "k \<noteq> 0" using True by (cases k) auto
  then have "misfit (renderQ ?e) \<and> hd (renderQ ?e) = hd (renderQ e)"
    using q by (cases k) auto
  then have "stuck_as d ?e" using assms by (simp add: stuck_as_def)
  then show ?thesis
    using True scan_stuck [of ?e] by (simp add: image_loaded_def Let_def stuck_as_def)
qed

lemma stuck_run_cmd: "stuck_as d e \<Longrightarrow> stuck_as d (run_cmd c e)"
proof -
  assume s: "stuck_as d e"
  then have ne: "renderQ e \<noteq> []" using misfit_append [of "renderQ e" "[]"] by (auto simp: stuck_as_def)
  note st = stuck_viewport stuck_frame flip_stuck push_stuck
  show ?thesis
  proof (cases c)
    case (CmdResize w h)
    then show ?thesis
      using s by (auto simp: disp_resize_eq Let_def intro!: st intro: stuck_cong)
  next
    case (CmdClip b)
    then show ?thesis
      using s by (auto simp: set_clipViewport_def Let_def intro!: st intro: stuck_cong)
  next
    case (CmdBlit x y w h v off)
    then show ?thesis using s ne push_stuck by (auto simp: blitImage_def Let_def)
  next
    case (CmdImage x y w h mm arr)
    then show ?thesis using s push_stuck by (auto simp: imageRect_def)
  qed (use s ne in \<open>auto simp: fillRect_def copyImage_def disp_flush_def set_scale_def autoscale_def
      intro!: st stuck_image_loaded intro: stuck_cong\<close>)
qed

text \<open>C35: An image that decodes to another size than its rectangle stops the display for good: it
  stays at the head of the render queue whatever is requested or loaded afterwards, so nothing
  more is drawn and a promise of \<open>flush\<close> is never resolved.\<close>

theorem misfit_image_blocks_display:
  assumes "misfit (renderQ d)"
  shows "pending (run_cmds cs d) \<and> hd (renderQ (run_cmds cs d)) = hd (renderQ d) \<and>
    flushResolved (run_cmds cs d) = flushResolved d"
proof -
  have "stuck_as d d" using assms by (simp add: stuck_as_def)
  then have "stuck_as d (run_cmds cs e)" if "stuck_as d e" for e
    using that unfolding run_cmds_def by (induction cs arbitrary: e) (simp_all add: stuck_run_cmd)
  from this [OF \<open>stuck_as d d\<close>] show ?thesis
    using misfit_append [of "renderQ (run_cmds cs d)" "[]"] by (auto simp: stuck_as_def pending_def)
qed

theorem misfit_image_blocks_display_witness:
  "let d = run_cmds [CmdImage 0 0 2 2 ''image/jpeg'' [1], CmdLoaded 0 3 2] demo_disp
   in misfit (renderQ d) \<and> pending (run_cmds [CmdFlush, CmdFill 0 0 1 1 [0, 0, 0], CmdLoaded 0 2 2] d)"
proof -
  have "misfit (renderQ (run_cmds [CmdImage 0 0 2 2 ''image/jpeg'' [1], CmdLoaded 0 3 2] demo_disp))"
    by code_simp
  from misfit_image_blocks_display [OF this] this show ?thesis by (simp only: Let_def simp_thms)
qed

text \<open>A block that has to wait behind other work is copied from the start of the array's
  buffer, not from where the view and the offset point: for a view into the receive queue, which
  is what the raw decoders pass, other bytes than those of the rectangle are drawn.\<close>

theorem queued_blit_ignores_offset:
  assumes "renderQ d \<noteq> []" "nat (w * h * 4) \<le> length (vbuffer v)"
  shows "renderQ (snd (blitImage x y w h v off d)) =
    renderQ d @ [ABlit (take (nat (w * h * 4)) (vbuffer v)) x y w h]"
  using assms by (auto simp: blitImage_def renderQPush_def Let_def slice_def)

lemma toSigned32bit_floor: "0 \<le> x \<Longrightarrow> x < 2 ^ 31 \<Longrightarrow> toSigned32bit x = \<lfloor>x\<rfloor>"
  by (simp add: toSigned32bit_def trunc_def toInt32_small floor_less_iff)



end
