(* ===== verification/Decoders.thy ===== *)
theory Decoders
  imports Canvas
begin

text \<open>
  Rectangle decoders: the contract they share, and the CopyRect, Raw and RRE decoders
  (\<open>core/decoders/copyrect.js\<close>, \<open>raw.js\<close>, \<open>rre.js\<close>).

  A decoder is called again with the same rectangle whenever more bytes have arrived, until it
  reports that the rectangle is complete; meanwhile it keeps its progress in its own state and
  has removed from the receive queue what it used. The locale \<open>byte_machine\<close> describes a decoder
  as a machine that looks at the waiting bytes and either waits, takes a step or is done, and
  derives that the cutting of the input into messages does not matter. Each decoder is shown to
  run such a machine, which at the same time is its specification on the byte level.
\<close>

section \<open>Machines on a byte stream\<close>

datatype 'c move = Wait | Step 'c nat | Done 'c nat | Fail "js_error option" 'c nat

datatype 'c verdict = More 'c bytes | Finished 'c bytes | Failed "js_error option" 'c bytes

text \<open>A failure is an exception, or a loop that does not return.\<close>

fun failure :: "js_error option \<Rightarrow> 'a outcome" where
  "failure (Some e) = Throw e"
| "failure None = Hang"

lemma failure_not_Ret [simp]: "failure e \<noteq> Ret b" "Ret b \<noteq> failure e"
  by (cases e; simp)+

function run_machine :: "('c \<Rightarrow> bytes \<Rightarrow> 'c move) \<Rightarrow> 'c \<Rightarrow> bytes \<Rightarrow> 'c verdict" where
  "run_machine m c bs =
     (case m c bs of
        Wait \<Rightarrow> More c bs
      | Done c' k \<Rightarrow> Finished c' (drop k bs)
      | Fail e c' k \<Rightarrow> Failed e c' (drop k bs)
      | Step c' k \<Rightarrow> if 0 < k \<and> k \<le> length bs then run_machine m c' (drop k bs) else More c bs)"
  by pat_completeness auto
termination by (relation "measure (\<lambda>(m, c, bs). length bs)") auto

declare run_machine.simps [simp del]

fun resume :: "('c \<Rightarrow> bytes \<Rightarrow> 'c verdict) \<Rightarrow> 'c verdict \<Rightarrow> bytes \<Rightarrow> 'c verdict" where
  "resume run (More c bs) ds = run c (bs @ ds)"
| "resume run (Finished c bs) ds = Finished c (bs @ ds)"
| "resume run (Failed e c bs) ds = Failed e c (bs @ ds)"

fun remaining :: "'c verdict \<Rightarrow> bytes" where
  "remaining (More c r) = r"
| "remaining (Finished c r) = r"
| "remaining (Failed e c r) = r"

locale byte_machine =
  fixes m :: "'c \<Rightarrow> bytes \<Rightarrow> 'c move"
  assumes stable: "m c bs \<noteq> Wait \<Longrightarrow> m c (bs @ ds) = m c bs"
    and progress: "m c bs = Step c' k \<Longrightarrow> 0 < k \<and> k \<le> length bs"
    and within: "m c bs = Done c' k \<or> m c bs = Fail e c' k \<Longrightarrow> k \<le> length bs"
begin

lemma run_append: "run_machine m c (bs @ ds) = resume (run_machine m) (run_machine m c bs) ds"
proof (induction "length bs" arbitrary: c bs rule: less_induct)
  case less
  show ?case
  proof (cases "m c bs")
    case Wait
    then show ?thesis by (simp add: run_machine.simps [of m c bs])
  next
    case (Step c' k)
    note k = progress [OF Step]
    then have "run_machine m c' (drop k bs @ ds) = resume (run_machine m) (run_machine m c' (drop k bs)) ds"
      by (intro less) auto
    moreover have "m c (bs @ ds) = Step c' k" using stable [of c bs ds] Step by simp
    ultimately show ?thesis
      using Step k by (simp add: run_machine.simps [of m c bs] run_machine.simps [of m c "bs @ ds"])
  next
    case (Done c' k)
    then show ?thesis
      using stable [of c bs ds] within [of c bs c' k]
      by (simp add: run_machine.simps [of m c bs] run_machine.simps [of m c "bs @ ds"])
  next
    case (Fail e c' k)
    then show ?thesis
      using stable [of c bs ds] within [of c bs c' k]
      by (simp add: run_machine.simps [of m c bs] run_machine.simps [of m c "bs @ ds"])
  qed
qed

lemma run_more: "run_machine m c bs = More c' r \<Longrightarrow> run_machine m c' r = More c' r"
  using run_append [of c bs "[]"] by simp

lemma run_remaining: "length (remaining (run_machine m c bs)) \<le> length bs"
proof (induction "length bs" arbitrary: c bs rule: less_induct)
  case less
  show ?case
  proof (cases "m c bs")
    case (Step c1 k)
    have "length (drop k bs) < length bs" using progress [OF Step] by auto
    from less [OF this, of c1] show ?thesis
      using progress [OF Step] Step by (simp add: run_machine.simps [of m c bs])
  qed (simp_all add: run_machine.simps [of m c bs])
qed

lemma run_chunks:
  "foldl (resume (run_machine m)) (run_machine m c bs) ds = run_machine m c (bs @ concat ds)"
  by (induction ds arbitrary: bs) (simp_all add: run_append [symmetric])

end

section \<open>Decoders that read from the socket\<close>

text \<open>What a call of a decoder returned, against the verdict of its machine.\<close>

fun agrees :: "'c verdict \<Rightarrow> bool outcome \<times> 'c \<times> websock \<Rightarrow> bool" where
  "agrees (More c r) (res, c', s) = (res = Ret False \<and> c' = c \<and> wf_recv s \<and> unread s = r)"
| "agrees (Finished c r) (res, c', s) = (res = Ret True \<and> c' = c \<and> wf_recv s \<and> unread s = r)"
| "agrees (Failed e c r) (res, c', s) = (res = failure e)"

text \<open>The life of a call: whenever a message arrives while the decoder still wants data it is
  called again; once it is done the bytes that arrive stay in the queue.\<close>

fun feed :: "('c \<Rightarrow> websock \<Rightarrow> bool outcome \<times> 'c \<times> websock) \<Rightarrow> bytes list \<Rightarrow>
    bool outcome \<times> 'c \<times> websock \<Rightarrow> bool outcome \<times> 'c \<times> websock" where
  "feed dec [] x = x"
| "feed dec (d # ds) (res, c, s) =
     (case res of
        Ret False \<Rightarrow> feed dec ds (dec c (snd (recvMessage d s)))
      | Ret True \<Rightarrow> feed dec ds (res, c, snd (recvMessage d s))
      | _ \<Rightarrow> (res, c, s))"

locale socket_decoder = byte_machine m for m :: "'c \<Rightarrow> bytes \<Rightarrow> 'c move" +
  fixes inv :: "'c \<Rightarrow> bool"
    and dec :: "'c \<Rightarrow> websock \<Rightarrow> bool outcome \<times> 'c \<times> websock"
  assumes implements: "inv c \<Longrightarrow> wf_recv s \<Longrightarrow> agrees (run_machine m c (unread s)) (dec c s)"
    and keeps: "inv c \<Longrightarrow> m c bs = Step c' k \<Longrightarrow> inv c'"
begin

lemma run_keeps: "inv c \<Longrightarrow> run_machine m c bs = More c' r \<Longrightarrow> inv c'"
proof (induction "length bs" arbitrary: c bs rule: less_induct)
  case less
  show ?case
  proof (cases "m c bs")
    case (Step c1 k)
    have "length (drop k bs) < length bs" "run_machine m c1 (drop k bs) = More c' r"
      using less.prems progress [OF Step] Step by (auto simp: run_machine.simps [of m c bs])
    from less.hyps [OF this(1) keeps [OF less.prems(1) Step] this(2)] show ?thesis .
  qed (use less.prems in \<open>simp_all add: run_machine.simps [of m c bs]\<close>)
qed

lemma feed_agrees:
  assumes "agrees v x" "\<And>c r. v = More c r \<Longrightarrow> inv c \<and> run_machine m c r = v"
    and "length (remaining v) + length (concat ds) \<le> MAX_RQ_GROW_SIZE"
  shows "agrees (foldl (resume (run_machine m)) v ds) (feed dec ds x)"
  using assms
proof (induction ds arbitrary: v x)
  case Nil
  then show ?case by simp
next
  case (Cons d ds)
  obtain res c s where x: "x = (res, c, s)" by (cases x)
  show ?case
  proof (cases v)
    case (More c0 r)
    then have s: "res = Ret False" "c0 = c" "wf_recv s" "unread s = r" "inv c" "run_machine m c r = v"
      using Cons.prems x by auto
    let ?s = "snd (recvMessage d s)" and ?v = "run_machine m c (r @ d)"
    have s': "wf_recv ?s" "unread ?s = r @ d"
      using recvMessage_appends [of s d] s Cons.prems(3) More by auto
    have "agrees (foldl (resume (run_machine m)) ?v ds) (feed dec ds (dec c ?s))"
    proof (rule Cons.IH)
      show "agrees ?v (dec c ?s)" using implements [OF s(5) s'(1)] s' by simp
      show "inv c' \<and> run_machine m c' r' = ?v" if "?v = More c' r'" for c' r'
        using run_keeps [OF s(5) that] run_more [OF that] that by simp
      show "length (remaining ?v) + length (concat ds) \<le> MAX_RQ_GROW_SIZE"
        using run_remaining [of c "r @ d"] Cons.prems(3) More by simp
    qed
    then show ?thesis using x s(1,2) More by simp
  next
    case (Finished c0 r)
    then have s: "res = Ret True" "c0 = c" "wf_recv s" "unread s = r" using Cons.prems x by auto
    then obtain b s' where "recvMessage d s = (Ret b, s')" "wf_recv s'" "unread s' = r @ d"
      using recvMessage_appends [of s d] Cons.prems(3) Finished by auto
    then show ?thesis
      using Cons.IH [of "Finished c (r @ d)" "(Ret True, c, s')"] Cons.prems(3) x s Finished by simp
  next
    case (Failed e c0 r)
    moreover have "foldl (resume (run_machine m)) (Failed e c0 q) es = Failed e c0 (q @ concat es)"
      for es q by (induction es arbitrary: q) simp_all
    ultimately show ?thesis using Cons.prems x by (cases e) simp_all
  qed
qed

text \<open>However the bytes are cut into messages, the decoder ends where its machine ends on all of
  them.\<close>

theorem fragments_irrelevant:
  assumes "inv c" "wf_recv s" "length (unread s) + length (concat ds) \<le> MAX_RQ_GROW_SIZE"
  shows "agrees (run_machine m c (unread s @ concat ds)) (feed dec ds (dec c s))"
proof -
  let ?v = "run_machine m c (unread s)"
  have "agrees (foldl (resume (run_machine m)) ?v ds) (feed dec ds (dec c s))"
  proof (rule feed_agrees)
    show "agrees ?v (dec c s)" using implements assms by simp
    show "inv c' \<and> run_machine m c' r' = ?v" if "?v = More c' r'" for c' r'
      using run_keeps [OF assms(1) that] run_more [OF that] that by simp
    show "length (remaining ?v) + length (concat ds) \<le> MAX_RQ_GROW_SIZE"
      using run_remaining [of c "unread s"] assms(3) by simp
  qed
  then show ?thesis by (simp add: run_chunks)
qed

end

text \<open>Two results are the same to the rest of the program: the outcome and, unless the call threw,
  the decoder, the display and the bytes left to read.\<close>

fun same_result :: "bool outcome \<times> 'c \<times> websock \<Rightarrow> bool outcome \<times> 'c \<times> websock \<Rightarrow> bool" where
  "same_result (r, c, s) (r', c', s') \<longleftrightarrow>
     r = r' \<and> (\<forall>b. r = Ret b \<longrightarrow> c = c' \<and> unread s = unread s')"

lemma agrees_same_result: "agrees v x \<Longrightarrow> agrees v y \<Longrightarrow> same_result x y"
  by (cases v; cases x; cases y) auto

section \<open>CopyRect\<close>

type_synonym 'st decoded = "bool outcome \<times> 'st \<times> websock"

definition copyrect_decodeRect ::
  "int \<Rightarrow> int \<Rightarrow> int \<Rightarrow> int \<Rightarrow> display \<Rightarrow> websock \<Rightarrow> display decoded" where
  "copyrect_decodeRect x y width height disp sock =
     (if rQlacks 4 sock then (Ret False, disp, sock)
      else let (deltaX, s1) = rQshift16 sock;
               (deltaY, s2) = rQshift16 s1
           in if width = 0 \<or> height = 0 then (Ret True, disp, s2)
              else (Ret True, copyImage deltaX deltaY x y width height disp, s2))"

definition copyrect_machine :: "int \<Rightarrow> int \<Rightarrow> int \<Rightarrow> int \<Rightarrow> display \<Rightarrow> bytes \<Rightarrow> display move" where
  "copyrect_machine x y w h d bs =
     (if length bs < 4 then Wait
      else if w = 0 \<or> h = 0 then Done d 4
      else Done (copyImage (be_num (take 2 bs)) (be_num (take 2 (drop 2 bs))) x y w h d) 4)"

interpretation copyrect: socket_decoder "copyrect_machine x y w h" "\<lambda>_. True"
  "copyrect_decodeRect x y w h"
proof (unfold_locales, goal_cases)
  case (4 d s)
  then show ?case
    by (auto simp: run_machine.simps copyrect_machine_def copyrect_decodeRect_def sock_simps)
qed (auto simp: copyrect_machine_def split: if_splits)

section \<open>Raw\<close>

fun set_opaque :: "nat list \<Rightarrow> bytes \<Rightarrow> bytes" where
  "set_opaque [] a = a"
| "set_opaque (i # is) a = set_opaque is (a[i * 4 + 3 := 255])"

definition expand8 :: "nat \<Rightarrow> bytes \<Rightarrow> bytes" where
  "expand8 width data =
     concat (map (\<lambda>i. let v = byte_at data i in
       [u8 (js_and (js_sar v 0) 3 * 255 div 3), u8 (js_and (js_sar v 2) 3 * 255 div 3),
        u8 (js_and (js_sar v 4) 3 * 255 div 3), 255]) [0..<width])"

text \<open>Storing through the view that \<open>rQshiftBytes(n, false)\<close> returned changes the queue's own
  buffer, in the part that was already read.\<close>

fun poke_opaque :: "nat list \<Rightarrow> nat \<Rightarrow> websock \<Rightarrow> websock" where
  "poke_opaque [] base s = s"
| "poke_opaque (i # is) base s = poke_opaque is base (rQpoke (base + (i * 4 + 3)) 255 s)"

text \<open>One line of the rectangle: its pixels as a view, and the socket with the line consumed.\<close>

definition raw_line :: "int \<Rightarrow> int \<Rightarrow> websock \<Rightarrow> u8view \<times> websock" where
  "raw_line width depth sock =
     (let bytesPerLine = nat (width * (if depth = 8 then 1 else 4));
          (data, s1) = rQshiftView bytesPerLine sock
      in if depth = 8
         then (whole (set_opaque [0..<nat width] (expand8 (nat width) (view_bytes data))), s1)
         else let s2 = poke_opaque [0..<nat width] (voffset data) s1
              in (data\<lparr>vbuffer := rQ s2\<rparr>, s2))"

fun raw_loop ::
  "int \<Rightarrow> int \<Rightarrow> int \<Rightarrow> int \<Rightarrow> int \<Rightarrow> nat \<Rightarrow> display \<Rightarrow> websock \<Rightarrow> (nat \<times> display) decoded" where
  "raw_loop x y width height depth 0 disp sock = (Ret True, (0, disp), sock)"
| "raw_loop x y width height depth (Suc n) disp sock =
     (if rQlacks (nat (width * (if depth = 8 then 1 else 4))) sock then (Ret False, (Suc n, disp), sock)
      else let curY = y + (height - int (Suc n));
               (data, s1) = raw_line width depth sock
           in case blitImage x curY width 1 data 0 disp of
                (Ret _, disp1) \<Rightarrow> raw_loop x y width height depth n disp1 s1
              | (Throw e, disp1) \<Rightarrow> (Throw e, (Suc n, disp1), s1)
              | (Hang, disp1) \<Rightarrow> (Hang, (Suc n, disp1), s1))"

definition raw_decodeRect ::
  "int \<Rightarrow> int \<Rightarrow> int \<Rightarrow> int \<Rightarrow> int \<Rightarrow> nat \<times> display \<Rightarrow> websock \<Rightarrow> (nat \<times> display) decoded" where
  "raw_decodeRect x y width height depth c sock =
     (case c of (lines, disp) \<Rightarrow>
        if width = 0 \<or> height = 0 then (Ret True, (lines, disp), sock)
        else let lines1 = (if lines = 0 then nat height else lines)
             in raw_loop x y width height depth lines1 disp sock)"

section \<open>RRE\<close>

definition colour_of :: "bytes \<Rightarrow> colour" where
  "colour_of bs = map uint bs"

fun rre_loop :: "int \<Rightarrow> int \<Rightarrow> nat \<Rightarrow> display \<Rightarrow> websock \<Rightarrow> (nat \<times> display) decoded" where
  "rre_loop x y 0 disp sock = (Ret True, (0, disp), sock)"
| "rre_loop x y (Suc n) disp sock =
     (if rQlacks (4 + 8) sock then (Ret False, (Suc n, disp), sock)
      else let (color, s1) = rQshiftBytes 4 sock;
               (sx, s2) = rQshift16 s1;
               (sy, s3) = rQshift16 s2;
               (swidth, s4) = rQshift16 s3;
               (sheight, s5) = rQshift16 s4
           in rre_loop x y n (fillRect (x + sx) (y + sy) swidth sheight (colour_of color) disp) s5)"

definition rre_decodeRect ::
  "int \<Rightarrow> int \<Rightarrow> int \<Rightarrow> int \<Rightarrow> nat \<times> display \<Rightarrow> websock \<Rightarrow> (nat \<times> display) decoded" where
  "rre_decodeRect x y width height c sock =
     (case c of (subrects, disp) \<Rightarrow>
        if subrects = 0 then
          if rQlacks (4 + 4) sock then (Ret False, (subrects, disp), sock)
          else let (n, s1) = rQshift32 sock;
                   (color, s2) = rQshiftBytes 4 s1
               in rre_loop x y (nat n) (fillRect x y width height (colour_of color) disp) s2
        else rre_loop x y subrects disp sock)"

section \<open>The machine of RRE\<close>

fun rre_machine ::
  "int \<Rightarrow> int \<Rightarrow> int \<Rightarrow> int \<Rightarrow> nat \<times> display \<Rightarrow> bytes \<Rightarrow> (nat \<times> display) move" where
  "rre_machine x y w h (0, d) bs =
     (if length bs < 8 then Wait
      else let n = nat (be_num (take 4 bs)); d' = fillRect x y w h (colour_of (take 4 (drop 4 bs))) d
           in if n = 0 then Done (0, d') 8 else Step (n, d') 8)"
| "rre_machine x y w h (Suc n, d) bs =
     (if length bs < 12 then Wait
      else let d' = fillRect (x + be_num (take 2 (drop 4 bs))) (y + be_num (take 2 (drop 6 bs)))
                      (be_num (take 2 (drop 8 bs))) (be_num (take 2 (drop 10 bs)))
                      (colour_of (take 4 bs)) d
           in if n = 0 then Done (0, d') 12 else Step (n, d') 12)"

lemma rre_loop_Suc:
  assumes "wf_recv s" "12 \<le> length (unread s)"
  shows "rre_loop x y (Suc n) d s =
    rre_loop x y n (fillRect (x + be_num (take 2 (drop 4 (unread s)))) (y + be_num (take 2 (drop 6 (unread s))))
      (be_num (take 2 (drop 8 (unread s)))) (be_num (take 2 (drop 10 (unread s))))
      (colour_of (take 4 (unread s))) d) (rQskipBytes 12 s)"
  using assms by (simp add: sock_simps)

lemma rre_loop_agrees:
  "wf_recv s \<Longrightarrow> agrees (run_machine (rre_machine x y w h) (Suc n, d) (unread s)) (rre_loop x y (Suc n) d s)"
proof (induction n arbitrary: d s)
  case 0
  then show ?case
    by (cases "length (unread s) < 12")
      (simp_all add: run_machine.simps rre_loop_Suc sock_simps del: rre_loop.simps(2),
       simp_all add: sock_simps)
next
  case (Suc n)
  show ?case
  proof (cases "length (unread s) < 12")
    case True
    then show ?thesis
      using Suc.prems by (simp add: run_machine.simps sock_simps)
  next
    case False
    then have "wf_recv (rQskipBytes 12 s)" using Suc.prems by (simp add: sock_simps)
    note IH = Suc.IH [OF this]
    have l: "12 \<le> length (unread s)" using False by simp
    show ?thesis
      unfolding rre_loop_Suc [OF Suc.prems l]
      using IH False
      by (subst run_machine.simps) (simp add: sock_simps Let_def del: rre_loop.simps)
  qed
qed

lemma nat_shift32: "0 \<le> be_num bs" using be_num_range by simp

interpretation rre: socket_decoder "rre_machine x y w h" "\<lambda>_. True" "rre_decodeRect x y w h"
proof (unfold_locales, goal_cases)
  case (4 c s)
  obtain n d where c: "c = (n, d)" by (cases c)
  show ?case
  proof (cases n)
    case (Suc k)
    then show ?thesis using rre_loop_agrees [OF 4(2)] c by (simp add: rre_decodeRect_def del: rre_loop.simps)
  next
    case 0
    show ?thesis
    proof (cases "length (unread s) < 8")
      case True
      then show ?thesis using 4 c 0 by (simp add: rre_decodeRect_def run_machine.simps sock_simps)
    next
      case False
      define k where "k = nat (be_num (take 4 (unread s)))"
      define d' where "d' = fillRect x y w h (colour_of (take 4 (drop 4 (unread s)))) d"
      have s8: "wf_recv (rQskipBytes 8 s)" using False 4 by (simp add: sock_simps)
      have dec: "rre_decodeRect x y w h c s = rre_loop x y k d' (rQskipBytes 8 s)"
        using False 4 c 0 by (simp add: rre_decodeRect_def sock_simps k_def d'_def)
      show ?thesis
      proof (cases k)
        case 0
        then show ?thesis
          using dec False \<open>n = 0\<close> c s8
          by (simp add: run_machine.simps Let_def sock_simps flip: k_def d'_def)
      next
        case (Suc j)
        have "run_machine (rre_machine x y w h) c (unread s) =
            run_machine (rre_machine x y w h) (Suc j, d') (unread (rQskipBytes 8 s))"
          using False \<open>n = 0\<close> c Suc
          by (subst run_machine.simps)
            (simp add: Let_def unread_rQskipBytes flip: k_def d'_def)
        then show ?thesis using rre_loop_agrees [OF s8] dec Suc by simp
      qed
    qed
  qed
next
  case (1 c bs ds)
  then show ?case by (cases "(x, y, w, h, c, bs)" rule: rre_machine.cases) (auto simp: Let_def split: if_splits)
next
  case (2 c bs c' k)
  then show ?case by (cases "(x, y, w, h, c, bs)" rule: rre_machine.cases) (auto simp: Let_def split: if_splits)
next
  case (3 c bs c' k e)
  then show ?case by (cases "(x, y, w, h, c, bs)" rule: rre_machine.cases) (auto simp: Let_def split: if_splits)
qed simp

section \<open>The machine of Raw\<close>

definition raw_pixels :: "int \<Rightarrow> int \<Rightarrow> bytes \<Rightarrow> bytes" where
  "raw_pixels w depth bs =
     set_opaque [0..<nat w] (if depth = 8 then expand8 (nat w) bs else bs)"

definition line_bytes :: "int \<Rightarrow> int \<Rightarrow> nat" where
  "line_bytes w depth = nat (w * (if depth = 8 then 1 else 4))"

fun raw_machine ::
  "int \<Rightarrow> int \<Rightarrow> int \<Rightarrow> int \<Rightarrow> int \<Rightarrow> nat \<times> display \<Rightarrow> bytes \<Rightarrow> (nat \<times> display) move" where
  "raw_machine x y w h depth (0, d) bs = Done (0, d) 0"
| "raw_machine x y w h depth (Suc n, d) bs =
     (let k = line_bytes w depth in
      if k = 0 then Done (Suc n, d) 0
      else if length bs < k then Wait
      else let d' = snd (blitImage_draw x (y + (h - int (Suc n))) w 1
                      (whole (raw_pixels w depth (take k bs))) 0 d)
           in if n = 0 then Done (0, d') k else Step (n, d') k)"

lemma length_set_opaque [simp]: "length (set_opaque is a) = length a"
  by (induction "is" arbitrary: a) simp_all

lemma length_expand8 [simp]: "length (expand8 w bs) = w * 4"
  by (induction w) (simp_all add: expand8_def Let_def)

lemma slice_list_update:
  "base + j < base + n \<Longrightarrow> slice (a[base + j := v]) base (base + n) = (slice a base (base + n))[j := v]"
  by (simp add: slice_def drop_update_swap take_update_swap)

lemma poke_opaque_frame:
  "rQi (poke_opaque is base s) = rQi s" "rQlen (poke_opaque is base s) = rQlen s"
  "wf_recv (poke_opaque is base s) = wf_recv s" "length (rQ (poke_opaque is base s)) = length (rQ s)"
proof (induction "is" arbitrary: s)
  case (Cons i "is")
  {
    case 1 show ?case using Cons by (simp add: rQpoke_def)
  next
    case 2 show ?case using Cons by (simp add: rQpoke_def)
  next
    case 3 show ?case using Cons by (simp add: wf_rQpoke)
  next
    case 4 show ?case using Cons by (simp add: rQpoke_def)
  }
qed simp_all

lemma poke_opaque_bytes:
  "list_all (\<lambda>i. i * 4 + 3 < n) is \<Longrightarrow>
    slice (rQ (poke_opaque is base s)) base (base + n) = set_opaque is (slice (rQ s) base (base + n))"
proof (induction "is" arbitrary: s)
  case (Cons i "is")
  then show ?case
    using slice_list_update [of base "i * 4 + 3" n "rQ s" 255]
    by (simp add: rQpoke_def u8_def del: add_Suc_right)
qed simp

lemma poke_opaque_unread:
  "list_all (\<lambda>i. base + (i * 4 + 3) < rQi s) is \<Longrightarrow> unread (poke_opaque is base s) = unread s"
proof (induction "is" arbitrary: s)
  case (Cons i "is")
  have "rQi (rQpoke (base + (i * 4 + 3)) 255 s) = rQi s" by (simp add: rQpoke_def)
  with Cons show ?case by (simp add: unread_rQpoke)
qed simp

lemma view_bytes_unread:
  "wf_recv s \<Longrightarrow> n \<le> length (unread s) \<Longrightarrow> slice (rQ s) (rQi s) (rQi s + n) = take n (unread s)"
  using rQpeekBytes_reads [of s n] by (simp add: rQpeekBytes_def)

lemma blitImage_draw_slice:
  assumes "voffset v + off + nat (w * h * 4) \<le> length (vbuffer v)"
    and "slice (vbuffer v) (voffset v + off) (voffset v + off + nat (w * h * 4)) = bs"
  shows "blitImage_draw x y w h v off d = blitImage_draw x y w h (whole bs) 0 d"
proof -
  have "length bs = nat (w * h * 4)" using assms by (auto simp: length_slice)
  then have "slice bs 0 (nat (w * h * 4)) = bs" by (metis slice_all)
  with assms \<open>length bs = _\<close> show ?thesis by (simp add: blitImage_draw_def whole_def Let_def)
qed

lemma raw_line_reads:
  assumes "wf_recv s" "line_bytes w depth \<le> length (unread s)" "0 < w"
  shows "\<exists>v s1. raw_line w depth s = (v, s1) \<and> wf_recv s1 \<and>
    unread s1 = drop (line_bytes w depth) (unread s) \<and>
    (\<forall>x y d. blitImage_draw x y w 1 v 0 d =
      blitImage_draw x y w 1 (whole (raw_pixels w depth (take (line_bytes w depth) (unread s)))) 0 d)"
proof (cases "depth = 8")
  case True
  then show ?thesis
    using assms view_bytes_unread [of s "line_bytes w depth"]
    by (simp add: raw_line_def raw_pixels_def line_bytes_def sock_simps view_bytes_def)
next
  case False
  let ?n = "nat (w * 4)" and ?i = "[0..<nat w]"
  define s1 where "s1 = rQskipBytes ?n s"
  define s2 where "s2 = poke_opaque ?i (rQi s) s1"
  have n: "line_bytes w depth = ?n" "?n = nat w * 4" using False by (simp_all add: line_bytes_def)
  have s1: "wf_recv s1" "unread s1 = drop ?n (unread s)" "rQi s1 = rQi s + ?n" "rQ s1 = rQ s"
    using assms n by (simp_all add: s1_def sock_simps) (simp_all add: rQskipBytes_def)
  have "unread s2 = unread s1"
    unfolding s2_def by (rule poke_opaque_unread) (use s1 n in \<open>auto simp: list_all_iff\<close>)
  moreover have "wf_recv s2" using s1 by (simp add: s2_def poke_opaque_frame)
  moreover have line: "raw_line w depth s = (\<lparr>vbuffer = rQ s2, voffset = rQi s, vlength = ?n\<rparr>, s2)"
    using False assms n by (simp add: raw_line_def rQshiftView_reads s1_def s2_def Let_def)
  moreover have "slice (rQ s2) (rQi s) (rQi s + ?n) = raw_pixels w depth (take ?n (unread s))"
    using poke_opaque_bytes [of ?n ?i "rQi s" s1] n view_bytes_unread [of s ?n] assms False s1
    by (simp add: s2_def raw_pixels_def list_all_iff)
  moreover have "rQi s + ?n \<le> length (rQ s2)"
    using assms n length_unread [of s] by (auto simp: s2_def poke_opaque_frame s1 wf_recv_def)
  ultimately show ?thesis
    using s1 n
    by (auto intro!: blitImage_draw_slice [where off = 0, simplified] simp: mult.commute)
qed

definition raw_ready :: "int \<Rightarrow> int \<Rightarrow> nat \<times> display \<Rightarrow> bool" where
  "raw_ready w h c \<longleftrightarrow> 0 < w \<and> 0 < h \<and> 0 < fst c \<and> renderQ (snd c) = []"

lemma length_raw_pixels:
  "0 < w \<Longrightarrow> length bs = line_bytes w depth \<Longrightarrow> length (raw_pixels w depth bs) = nat (w * 1 * 4)"
  by (auto simp: raw_pixels_def line_bytes_def nat_mult_distrib)

lemma blit_whole_ok:
  "0 < w \<Longrightarrow> 0 < h \<Longrightarrow> nat (w * h * 4) \<le> length bs \<Longrightarrow> fst (blitImage_draw x y w h (whole bs) 0 d) = Ret ()"
  by (simp add: blitImage_draw_def whole_def Let_def)

lemma raw_loop_Suc:
  assumes "wf_recv s" "line_bytes w depth \<le> length (unread s)" "0 < w" "renderQ d = []"
  shows "\<exists>s1. wf_recv s1 \<and> unread s1 = drop (line_bytes w depth) (unread s) \<and>
    raw_loop x y w h depth (Suc n) d s =
      raw_loop x y w h depth n (snd (blitImage_draw x (y + (h - int (Suc n))) w 1
        (whole (raw_pixels w depth (take (line_bytes w depth) (unread s)))) 0 d)) s1"
proof -
  obtain v s1 where l: "raw_line w depth s = (v, s1)" "wf_recv s1"
    "unread s1 = drop (line_bytes w depth) (unread s)"
    "\<And>x y d. blitImage_draw x y w 1 v 0 d =
      blitImage_draw x y w 1 (whole (raw_pixels w depth (take (line_bytes w depth) (unread s)))) 0 d"
    using raw_line_reads [OF assms(1-3)] by blast
  let ?b = "blitImage_draw x (y + (h - int (Suc n))) w 1
      (whole (raw_pixels w depth (take (line_bytes w depth) (unread s)))) 0 d"
  have "fst ?b = Ret ()"
    by (rule blit_whole_ok) (use assms length_raw_pixels in simp_all)
  then have "?b = (Ret (), snd ?b)" by (metis prod.collapse)
  then show ?thesis
    using l assms by (auto simp: rQlacks_unread blitImage_def Let_def simp flip: line_bytes_def
        split: prod.splits)
qed

lemma raw_loop_agrees:
  assumes "0 < w" "0 < h"
  shows "wf_recv s \<Longrightarrow> renderQ d = [] \<Longrightarrow>
    agrees (run_machine (raw_machine x y w h depth) (Suc n, d) (unread s)) (raw_loop x y w h depth (Suc n) d s)"
proof (induction n arbitrary: d s)
  case (0 d s)
  show ?case
  proof (cases "length (unread s) < line_bytes w depth")
    case True
    then show ?thesis
      using 0 by (auto simp: run_machine.simps Let_def rQlacks_unread line_bytes_def)
  next
    case False
    then show ?thesis
      using raw_loop_Suc [OF 0(1) _ assms(1) 0(2), of depth x y h 0] assms
      by (auto simp: run_machine.simps Let_def line_bytes_def simp del: raw_loop.simps(2))
  qed
next
  case (Suc n d s)
  show ?case
  proof (cases "length (unread s) < line_bytes w depth")
    case True
    then show ?thesis
      using Suc.prems by (auto simp: run_machine.simps Let_def rQlacks_unread line_bytes_def)
  next
    case False
    let ?d = "snd (blitImage_draw x (y + (h - int (Suc (Suc n)))) w 1
      (whole (raw_pixels w depth (take (line_bytes w depth) (unread s)))) 0 d)"
    obtain s1 where s1: "wf_recv s1" "unread s1 = drop (line_bytes w depth) (unread s)"
      "raw_loop x y w h depth (Suc (Suc n)) d s = raw_loop x y w h depth (Suc n) ?d s1"
      using raw_loop_Suc [OF Suc.prems(1) _ assms(1) Suc.prems(2), of depth x y h "Suc n"] False by auto
    have k: "0 < line_bytes w depth" using assms by (simp add: line_bytes_def)
    have "run_machine (raw_machine x y w h depth) (Suc (Suc n), d) (unread s) =
        run_machine (raw_machine x y w h depth) (Suc n, ?d) (unread s1)"
      using False k s1(2) by (subst run_machine.simps) (simp add: Let_def)
    then show ?thesis using Suc.IH [OF s1(1), of ?d] s1(3) Suc.prems(2) by (simp add: disp_simps)
  qed
qed

interpretation raw: socket_decoder "raw_machine x y w h depth" "raw_ready w h"
  "raw_decodeRect x y w h depth"
proof (unfold_locales, goal_cases)
  case (1 c bs ds)
  then show ?case
    by (cases "(x, y, w, h, depth, c, bs)" rule: raw_machine.cases) (auto simp: Let_def split: if_splits)
next
  case (2 c bs c' k)
  then show ?case
    by (cases "(x, y, w, h, depth, c, bs)" rule: raw_machine.cases) (auto simp: Let_def split: if_splits)
next
  case (3 c bs c' k e)
  then show ?case
    by (cases "(x, y, w, h, depth, c, bs)" rule: raw_machine.cases) (auto simp: Let_def split: if_splits)
next
  case (4 c s)
  obtain n d where "c = (Suc n, d)" using 4(1) by (cases c; cases "fst c") (auto simp: raw_ready_def)
  then show ?case
    using 4 raw_loop_agrees [of w h s d x y depth n]
    by (simp add: raw_decodeRect_def raw_ready_def del: raw_loop.simps)
next
  case (5 c bs c' k)
  then show ?case
    by (cases "(x, y, w, h, depth, c, bs)" rule: raw_machine.cases)
      (auto simp: raw_ready_def Let_def disp_simps split: if_splits)
qed

lemma raw_fresh:
  "0 < w \<Longrightarrow> 0 < h \<Longrightarrow> raw_decodeRect x y w h depth (0, d) s = raw_decodeRect x y w h depth (nat h, d) s"
  by (simp add: raw_decodeRect_def)

section \<open>The pixels of a Raw rectangle\<close>

fun raw_draw :: "int \<Rightarrow> int \<Rightarrow> int \<Rightarrow> int \<Rightarrow> nat \<Rightarrow> display \<Rightarrow> bytes \<Rightarrow> display" where
  "raw_draw x y w h 0 d bs = d"
| "raw_draw x y w h (Suc n) d bs =
     raw_draw x y w h n (snd (blitImage_draw x (y + (h - int (Suc n))) w 1
       (whole (raw_pixels w 24 (take (nat (w * 4)) bs))) 0 d)) (drop (nat (w * 4)) bs)"

definition pixel24 :: "bytes \<Rightarrow> nat \<Rightarrow> pixel" where
  "pixel24 bs k = (uint (bs ! k), uint (bs ! (k + 1)), uint (bs ! (k + 2)), 255)"

lemma run_raw:
  "0 < w \<Longrightarrow> Suc n * nat (w * 4) \<le> length bs \<Longrightarrow>
    run_machine (raw_machine x y w h 24) (Suc n, d) bs =
      Finished (0, raw_draw x y w h (Suc n) d bs) (drop (Suc n * nat (w * 4)) bs)"
proof (induction n arbitrary: d bs)
  case 0
  then show ?case by (simp add: run_machine.simps line_bytes_def Let_def)
next
  case (Suc n)
  have "Suc n * nat (w * 4) \<le> length (drop (nat (w * 4)) bs)" using Suc.prems by simp
  note IH = Suc.IH [OF Suc.prems(1) this]
  have "\<not> length bs < nat (w * 4)" "0 < nat (w * 4)" using Suc.prems by auto
  then show ?case
    by (subst run_machine.simps) (simp add: line_bytes_def Let_def IH add.commute)
qed

lemma nth_set_opaque:
  "j < length a \<Longrightarrow> set_opaque is a ! j = (if j mod 4 = 3 \<and> j div 4 \<in> set is then 255 else a ! j)"
proof (induction "is" arbitrary: a)
  case (Cons i "is")
  have "(j = i * 4 + 3) = (j mod 4 = 3 \<and> j div 4 = i)" by presburger
  with Cons show ?case by (auto simp: nth_list_update)
qed simp

lemma pixel_at_opaque:
  assumes "0 \<le> i" "i < w" "nat (w * 4) \<le> length bs"
  shows "pixel_at (slice (set_opaque [0..<nat w] (take (nat (w * 4)) bs)) 0 (nat (w * 4))) w i 0
    = pixel24 bs (nat (i * 4))"
proof -
  define k where "k = nat i"
  have i: "i = int k" "k < nat w" using assms by (auto simp: k_def)
  have n: "nat (w * 4) = nat w * 4" by simp
  have "set_opaque [0..<nat w] (take (nat w * 4) bs) ! (k * 4 + j) =
      (if j = 3 then 255 else bs ! (k * 4 + j))" if "j < 4" for j
  proof -
    have "k * 4 + j < nat w * 4" using that i by simp
    moreover have "(k * 4 + j) mod 4 = j" "(k * 4 + j) div 4 = k" using that by simp_all
    ultimately show ?thesis using assms(3) n i by (simp add: nth_set_opaque)
  qed
  from this [of 0] this [of 1] this [of 2] this [of 3] show ?thesis
    using i assms(3) n
    by (simp add: pixel_at_def pixel24_def Let_def slice_def nat_mult_distrib)
qed

lemma blit_whole_screen:
  assumes "0 < w" "0 < h" "nat (w * h * 4) \<le> length bs"
  shows "screen env c0 (snd (blitImage_draw x y w h (whole bs) 0 d)) =
    canvas_step env (CtxPut (slice bs 0 (nat (w * h * 4))) w h x y) (screen env c0 d)"
  using assms by (simp add: blitImage_draw_def whole_def Let_def disp_simps)

lemma raw_draw_pixels:
  assumes "0 < w"
  shows "n * nat (w * 4) \<le> length bs \<Longrightarrow>
    bpix (screen env c0 (raw_draw x y w h n d bs)) p =
      (if in_rect x (y + (h - int n)) w (int n) p
       then pixel24 bs (nat (((snd p - (y + (h - int n))) * w + (fst p - x)) * 4))
       else bpix (screen env c0 d) p)"
proof (induction n arbitrary: d bs)
  case 0
  then show ?case by (auto simp: in_rect_def)
next
  case (Suc n)
  define k where "k = nat (w * 4)"
  define r where "r = y + (h - int (Suc n))"
  let ?px = "raw_pixels w 24 (take k bs)"
  let ?d = "snd (blitImage_draw x r w 1 (whole ?px) 0 d)"
  have k: "k \<le> length bs" "n * k \<le> length (drop k bs)" "int k = w * 4"
    using Suc.prems assms by (simp_all add: k_def)
  have "bpix (screen env c0 ?d) p =
      (if in_rect x r w 1 p then pixel24 bs (nat ((fst p - x) * 4)) else bpix (screen env c0 d) p)"
    using blit_whole_screen [OF assms, of 1 ?px env c0 x r d] k assms
      pixel_at_opaque [of "fst p - x" w bs]
    by (auto simp: raw_pixels_def in_rect_def k_def)
  moreover have "pixel24 (drop k bs) (nat (((snd p - (r + 1)) * w + (fst p - x)) * 4)) =
      pixel24 bs (nat (((snd p - r) * w + (fst p - x)) * 4))" if "in_rect x (r + 1) w (int n) p"
  proof -
    let ?a = "nat (((snd p - (r + 1)) * w + (fst p - x)) * 4)"
    have "0 \<le> (snd p - (r + 1)) * w + (fst p - x)" using that assms by (simp add: in_rect_def)
    moreover have "((snd p - r) * w + (fst p - x)) * 4 = int k + ((snd p - (r + 1)) * w + (fst p - x)) * 4"
      by (simp add: k(3) algebra_simps)
    ultimately have "nat (((snd p - r) * w + (fst p - x)) * 4) = k + ?a"
      by (simp add: nat_add_distrib)
    then show ?thesis using k(1) by (simp add: pixel24_def ac_simps)
  qed
  moreover have "bpix (screen env c0 (raw_draw x y w h (Suc n) d bs)) p =
      (if in_rect x (r + 1) w (int n) p
       then pixel24 (drop k bs) (nat (((snd p - (r + 1)) * w + (fst p - x)) * 4))
       else bpix (screen env c0 ?d) p)"
    using Suc.IH [of "drop k bs" ?d] k(2) by (simp add: k_def r_def)
  moreover have "in_rect x r w (int (Suc n)) p = (in_rect x r w 1 p \<or> in_rect x (r + 1) w (int n) p)"
    "in_rect x r w 1 p \<Longrightarrow> snd p - r = 0" "in_rect x r w 1 p \<Longrightarrow> \<not> in_rect x (r + 1) w (int n) p"
    by (auto simp: in_rect_def)
  ultimately show ?case
    unfolding r_def [symmetric]
    by (cases "in_rect x r w 1 p"; cases "in_rect x (r + 1) w (int n) p")
      (simp_all only: if_True if_False simp_thms mult_zero_left add_0_left)
qed

section \<open>Encoded RRE rectangles\<close>

type_synonym subrect = "bytes \<times> int \<times> int \<times> int \<times> int"

fun rre_encode :: "subrect \<Rightarrow> bytes" where
  "rre_encode (c, sx, sy, sw, sh) = c @ be16 sx @ be16 sy @ be16 sw @ be16 sh"

fun rre_fill :: "int \<Rightarrow> int \<Rightarrow> subrect \<Rightarrow> display \<Rightarrow> display" where
  "rre_fill x y (c, sx, sy, sw, sh) d = fillRect (x + sx) (y + sy) sw sh (colour_of c) d"

fun subrect_ok :: "subrect \<Rightarrow> bool" where
  "subrect_ok (c, sx, sy, sw, sh) =
     (length c = 4 \<and> list_all (\<lambda>v. 0 \<le> v \<and> v < 2 ^ 16) [sx, sy, sw, sh])"

lemma rre_machine_encoded:
  assumes "subrect_ok r"
  shows "rre_machine x y w h (Suc n, d) (rre_encode r @ bs) =
    (if n = 0 then Done (0, rre_fill x y r d) 12 else Step (n, rre_fill x y r d) 12)"
  using assms be_num_be16
  by (cases r) (simp add: Let_def be16_def [symmetric] split: if_splits)

lemma run_rre:
  "list_all subrect_ok subs \<Longrightarrow> length subs = Suc n \<Longrightarrow>
    run_machine (rre_machine x y w h) (Suc n, d) (concat (map rre_encode subs) @ rest) =
      Finished (0, fold (rre_fill x y) subs d) rest"
proof (induction subs arbitrary: n d)
  case (Cons r subs)
  have r: "subrect_ok r" "length (rre_encode r) = 12" using Cons.prems by (cases r; auto)+
  show ?case
    using rre_machine_encoded [OF r(1), of x y w h n d "concat (map rre_encode subs) @ rest"] r(2)
      Cons.IH [of "n - 1"] Cons.prems
    by (subst run_machine.simps) auto
qed simp

section \<open>Properties\<close>



text \<open>An RRE rectangle is drawn as it was encoded, however its bytes are cut into messages: the
  background, then every subrectangle in order at its offset; exactly the encoding is consumed.\<close>

theorem rre_rectangle_drawn:
  assumes "wf_recv s" "list_all subrect_ok subs" "length bg = 4" "length subs < 2 ^ 32"
    and "unread s @ concat ds = be32 (int (length subs)) @ bg @ concat (map rre_encode subs) @ rest"
    and "length (unread s) + length (concat ds) \<le> MAX_RQ_GROW_SIZE"
  shows "\<exists>s'. feed (rre_decodeRect x y w h) ds (rre_decodeRect x y w h (0, d) s) =
      (Ret True, (0, fold (rre_fill x y) subs (fillRect x y w h (colour_of bg) d)), s') \<and> unread s' = rest"
proof -
  let ?d = "fillRect x y w h (colour_of bg) d" and ?bs = "concat (map rre_encode subs) @ rest"
  have n: "nat (be_num (be32 (int (length subs)))) = length subs"
    using be_num_be32 [of "int (length subs)"] assms(4) by simp
  have "run_machine (rre_machine x y w h) (0, d) (be32 (int (length subs)) @ bg @ ?bs) =
      Finished (0, fold (rre_fill x y) subs ?d) rest"
  proof (cases "length subs")
    case 0
    then show ?thesis using n assms(3) by (subst run_machine.simps) (simp add: Let_def)
  next
    case (Suc k)
    then show ?thesis
      using n assms(3) run_rre [OF assms(2) Suc, of x y w h ?d rest]
      by (subst run_machine.simps) (simp add: Let_def)
  qed
  moreover have "agrees (run_machine (rre_machine x y w h) (0, d) (unread s @ concat ds))
      (feed (rre_decodeRect x y w h) ds (rre_decodeRect x y w h (0, d) s))"
    by (rule rre.fragments_irrelevant) (use assms in simp_all)
  ultimately show ?thesis
    unfolding assms(5)
    by (cases "feed (rre_decodeRect x y w h) ds (rre_decodeRect x y w h (0, d) s)") auto
qed

end
