(* ===== verification/Hextile.thy ===== *)
theory Hextile
  imports Decoders
begin

text \<open>
  The Hextile decoder, \<open>core/decoders/hextile.js\<close>: tiles of at most 16 by 16 pixels, each raw, a
  background with subrectangles, or a repetition of the last background. The tile is composed in
  a buffer that is then drawn as one block.
\<close>

section \<open>Decoder\<close>

record hextile =
  tiles :: nat
  lastsubencoding :: int
  tileBuffer :: bytes
  tilesX :: nat
  tilesY :: nat
  totalTiles :: nat
  background :: "bytes option"
  foreground :: "bytes option"
  tileX :: int
  tileY :: int
  tileW :: int
  tileH :: int

definition new_hextile :: hextile where
  "new_hextile = \<lparr>tiles = 0, lastsubencoding = 0, tileBuffer = u8_new (16 * 16 * 4), tilesX = 0,
     tilesY = 0, totalTiles = 0, background = None, foreground = None,
     tileX = 0, tileY = 0, tileW = 0, tileH = 0\<rparr>"

text \<open>A colour is four bytes; using one that was never received is a TypeError. A store outside
  the buffer has no effect.\<close>

definition put_pixel :: "bytes \<Rightarrow> nat \<Rightarrow> bytes \<Rightarrow> bytes" where
  "put_pixel c p a = a[p := c ! 0, p + 1 := c ! 1, p + 2 := c ! 2, p + 3 := 255]"

definition startTile ::
  "int \<Rightarrow> int \<Rightarrow> int \<Rightarrow> int \<Rightarrow> bytes option \<Rightarrow> hextile \<Rightarrow> unit outcome \<times> hextile" where
  "startTile x y width height color h =
     (let h1 = h\<lparr>tileX := x, tileY := y, tileW := width, tileH := height\<rparr>
      in case color of
           None \<Rightarrow> (Throw TypeError, h1)
         | Some c \<Rightarrow> (Ret (), h1\<lparr>tileBuffer :=
             fold (\<lambda>i. put_pixel c (i * 4)) [0..<nat (width * height)] (tileBuffer h1)\<rparr>))"

definition subTile ::
  "int \<Rightarrow> int \<Rightarrow> int \<Rightarrow> int \<Rightarrow> bytes option \<Rightarrow> hextile \<Rightarrow> unit outcome \<times> hextile" where
  "subTile x y w h color t =
     (case color of
        None \<Rightarrow> (Throw TypeError, t)
      | Some c \<Rightarrow> (Ret (), t\<lparr>tileBuffer :=
          fold (\<lambda>j. fold (\<lambda>i. put_pixel c (nat ((i + j * tileW t) * 4))) [x..x + w - 1])
            [y..y + h - 1] (tileBuffer t)\<rparr>))"

definition finishTile :: "hextile \<Rightarrow> display \<Rightarrow> unit outcome \<times> display" where
  "finishTile h d = blitImage (tileX h) (tileY h) (tileW h) (tileH h) (whole (tileBuffer h)) 0 d"

definition bit_set :: "int \<Rightarrow> int \<Rightarrow> bool" where
  "bit_set n bits = (js_and n bits \<noteq> 0)"

fun hextile_subrects :: "nat \<Rightarrow> int \<Rightarrow> hextile \<Rightarrow> websock \<Rightarrow> unit outcome \<times> hextile \<times> websock" where
  "hextile_subrects 0 sub h sock = (Ret (), h, sock)"
| "hextile_subrects (Suc n) sub h sock =
     (let (color, s1) = (if bit_set sub 16
                         then (case rQshiftBytes 4 sock of (c, s) \<Rightarrow> (Some c, s))
                         else (foreground h, sock));
          (xy, s2) = rQshift8 s1;
          (wh, s3) = rQshift8 s2
      in case subTile (js_sar xy 4) (js_and xy 15) (js_sar wh 4 + 1) (js_and wh 15 + 1) color h of
           (Ret _, h1) \<Rightarrow> hextile_subrects n sub h1 s3
         | (Throw e, h1) \<Rightarrow> (Throw e, h1, s3)
         | (Hang, h1) \<Rightarrow> (Hang, h1, s3))"

definition hextile_draw ::
  "int \<Rightarrow> int \<Rightarrow> int \<Rightarrow> int \<Rightarrow> int \<Rightarrow> hextile \<Rightarrow> display \<Rightarrow> websock \<Rightarrow>
    unit outcome \<times> (hextile \<times> display) \<times> websock" where
  "hextile_draw sub tx ty tw th h disp sock =
     (let (_, s0) = rQshift8 sock in
      if sub = 0 then
        if bit_set (lastsubencoding h) 1 then (Ret (), (h, disp), s0)
        else (case background h of
                None \<Rightarrow> (Throw TypeError, (h, disp), s0)
              | Some c \<Rightarrow> (Ret (), (h, fillRect tx ty tw th (colour_of c) disp), s0))
      else if bit_set sub 1 then
        let pixels = nat (tw * th);
            (data, s1) = rQshiftView (pixels * 4) s0;
            s2 = poke_opaque [0..<pixels] (voffset data) s1;
            (r, disp1) = blitImage tx ty tw th (data\<lparr>vbuffer := rQ s2\<rparr>) 0 disp
        in (r, (h, disp1), s2)
      else
        let (h1, s1) = (if bit_set sub 2
                        then (case rQshiftBytes 4 s0 of (c, s) \<Rightarrow> (h\<lparr>background := Some c\<rparr>, s))
                        else (h, s0));
            (h2, s2) = (if bit_set sub 4
                        then (case rQshiftBytes 4 s1 of (c, s) \<Rightarrow> (h1\<lparr>foreground := Some c\<rparr>, s))
                        else (h1, s1))
        in case startTile tx ty tw th (background h2) h2 of
             (Throw e, h3) \<Rightarrow> (Throw e, (h3, disp), s2)
           | (Hang, h3) \<Rightarrow> (Hang, (h3, disp), s2)
           | (Ret _, h3) \<Rightarrow>
               let (r, h4, s4) = (if bit_set sub 8
                                  then (case rQshift8 s2 of (n, s3) \<Rightarrow> hextile_subrects (nat n) sub h3 s3)
                                  else (Ret (), h3, s2))
               in case r of
                    Ret _ \<Rightarrow> (case finishTile h4 disp of (r, disp1) \<Rightarrow> (r, (h4, disp1), s4))
                  | _ \<Rightarrow> (r, (h4, disp), s4))"

text \<open>Where the current tile is, and how many bytes it needs; \<open>None\<close> when that cannot be told
  from the bytes that are there.\<close>

definition tile_rect :: "int \<Rightarrow> int \<Rightarrow> int \<Rightarrow> int \<Rightarrow> hextile \<Rightarrow> int \<times> int \<times> int \<times> int" where
  "tile_rect x y width height h =
     (let currTile = totalTiles h - tiles h;
          tx = x + int (currTile mod tilesX h) * 16;
          ty = y + int (currTile div tilesX h) * 16
      in (tx, ty, min 16 (x + width - tx), min 16 (y + height - ty)))"

definition hextile_need :: "int \<Rightarrow> int \<Rightarrow> int \<Rightarrow> websock \<Rightarrow> nat option" where
  "hextile_need sub tw th sock =
     (if bit_set sub 1 then Some (1 + nat (tw * th * 4))
      else let n = 1 + (if bit_set sub 2 then 4 else 0) + (if bit_set sub 4 then 4 else 0)
           in if bit_set sub 8 then
                if rQlacks (n + 1) sock then None
                else let subrects = unat (last (rQpeekBytes (n + 1) sock))
                     in Some (n + 1 + subrects * (if bit_set sub 16 then 4 + 2 else 2))
              else Some n)"

primrec hextile_loop ::
  "nat \<Rightarrow> int \<Rightarrow> int \<Rightarrow> int \<Rightarrow> int \<Rightarrow> hextile \<Rightarrow> display \<Rightarrow> websock \<Rightarrow> (hextile \<times> display) decoded" where
  "hextile_loop 0 x y width height h disp sock = (Ret True, (h, disp), sock)"
| "hextile_loop (Suc n) x y width height h disp sock =
     (if rQlacks 1 sock then (Ret False, (h, disp), sock)
      else let sub = undef0 (rQpeek8 sock) in
        if sub > 30 then (Throw (ErrorMsg ''Illegal hextile subencoding''), (h, disp), sock)
        else case tile_rect x y width height h of (tx, ty, tw, th) \<Rightarrow>
          (case hextile_need sub tw th sock of
             None \<Rightarrow> (Ret False, (h, disp), sock)
           | Some need \<Rightarrow>
               if rQlacks need sock then (Ret False, (h, disp), sock)
               else (case hextile_draw sub tx ty tw th h disp sock of
                       (Ret _, (h1, disp1), s1) \<Rightarrow>
                         hextile_loop n x y width height
                           (h1\<lparr>lastsubencoding := sub, tiles := tiles h1 - 1\<rparr>) disp1 s1
                     | (Throw e, c1, s1) \<Rightarrow> (Throw e, c1, s1)
                     | (Hang, c1, s1) \<Rightarrow> (Hang, c1, s1))))"

definition hextile_decodeRect ::
  "int \<Rightarrow> int \<Rightarrow> int \<Rightarrow> int \<Rightarrow> hextile \<times> display \<Rightarrow> websock \<Rightarrow> (hextile \<times> display) decoded" where
  "hextile_decodeRect x y width height c sock =
     (case c of (h, disp) \<Rightarrow>
        let h1 = (if tiles h = 0 then
                    let tX = nat ((width + 15) div 16); tY = nat ((height + 15) div 16)
                    in h\<lparr>tilesX := tX, tilesY := tY, totalTiles := tX * tY, tiles := tX * tY\<rparr>
                  else h)
        in hextile_loop (tiles h1) x y width height h1 disp sock)"

section \<open>The machine of Hextile\<close>

text \<open>The same tile on the bytes themselves, for a display with no queued work.\<close>

fun hx_subrects :: "nat \<Rightarrow> int \<Rightarrow> hextile \<Rightarrow> bytes \<Rightarrow> unit outcome \<times> hextile" where
  "hx_subrects 0 sub h bs = (Ret (), h)"
| "hx_subrects (Suc n) sub h bs =
     (let (color, bs1) = (if bit_set sub 16 then (Some (take 4 bs), drop 4 bs) else (foreground h, bs));
          xy = uint (bs1 ! 0); wh = uint (bs1 ! 1)
      in case subTile (js_sar xy 4) (js_and xy 15) (js_sar wh 4 + 1) (js_and wh 15 + 1) color h of
           (Ret _, h1) \<Rightarrow> hx_subrects n sub h1 (drop 2 bs1)
         | (Throw e, h1) \<Rightarrow> (Throw e, h1)
         | (Hang, h1) \<Rightarrow> (Hang, h1))"

definition hx_need :: "int \<Rightarrow> int \<Rightarrow> int \<Rightarrow> bytes \<Rightarrow> nat option" where
  "hx_need sub tw th bs =
     (if bit_set sub 1 then Some (1 + nat (tw * th * 4))
      else let n = 1 + (if bit_set sub 2 then 4 else 0) + (if bit_set sub 4 then 4 else 0)
           in if bit_set sub 8 then
                if length bs < n + 1 then None
                else Some (n + 1 + unat (bs ! n) * (if bit_set sub 16 then 6 else 2))
              else Some n)"

definition hx_tile ::
  "int \<Rightarrow> int \<Rightarrow> int \<Rightarrow> int \<Rightarrow> int \<Rightarrow> hextile \<Rightarrow> bytes \<Rightarrow> unit outcome \<times> hextile" where
  "hx_tile sub tx ty tw th h bs =
     (let bs0 = drop 1 bs;
          (h1, bs1) = (if bit_set sub 2 then (h\<lparr>background := Some (take 4 bs0)\<rparr>, drop 4 bs0) else (h, bs0));
          (h2, bs2) = (if bit_set sub 4 then (h1\<lparr>foreground := Some (take 4 bs1)\<rparr>, drop 4 bs1) else (h1, bs1))
      in case startTile tx ty tw th (background h2) h2 of
           (Ret _, h3) \<Rightarrow> if bit_set sub 8 then hx_subrects (unat (bs2 ! 0)) sub h3 (drop 1 bs2) else (Ret (), h3)
         | (q, h3) \<Rightarrow> (q, h3))"

definition hx_draw ::
  "int \<Rightarrow> int \<Rightarrow> int \<Rightarrow> int \<Rightarrow> int \<Rightarrow> hextile \<Rightarrow> display \<Rightarrow> bytes \<Rightarrow> unit outcome \<times> (hextile \<times> display)" where
  "hx_draw sub tx ty tw th h d bs =
     (if sub = 0 then
        if bit_set (lastsubencoding h) 1 then (Ret (), (h, d))
        else (case background h of
                None \<Rightarrow> (Throw TypeError, (h, d))
              | Some c \<Rightarrow> (Ret (), (h, fillRect_draw tx ty tw th (colour_of c) d)))
      else if bit_set sub 1 then
        (case blitImage_draw tx ty tw th (whole (set_opaque [0..<nat (tw * th)] (drop 1 bs))) 0 d of
           (r, d1) \<Rightarrow> (r, (h, d1)))
      else
        (case hx_tile sub tx ty tw th h bs of
           (Ret _, h4) \<Rightarrow> (case blitImage_draw (tileX h4) (tileY h4) (tileW h4) (tileH h4)
                                 (whole (tileBuffer h4)) 0 d of (r, d1) \<Rightarrow> (r, (h4, d1)))
         | (q, h4) \<Rightarrow> (q, (h4, d))))"

definition hextile_machine ::
  "int \<Rightarrow> int \<Rightarrow> int \<Rightarrow> int \<Rightarrow> hextile \<times> display \<Rightarrow> bytes \<Rightarrow> (hextile \<times> display) move" where
  "hextile_machine x y w ht c bs =
     (let h = fst c; d = snd c in
      if tiles h = 0 then Done c 0
      else if bs = [] then Wait
      else let sub = uint (hd bs) in
        if sub > 30 then Fail (Some (ErrorMsg ''Illegal hextile subencoding'')) c 0
        else case tile_rect x y w ht h of (tx, ty, tw, th) \<Rightarrow>
          (case hx_need sub tw th bs of
             None \<Rightarrow> Wait
           | Some k \<Rightarrow>
               if length bs < k then Wait
               else (case hx_draw sub tx ty tw th h d (take k bs) of
                       (Ret _, (h1, d1)) \<Rightarrow>
                         let h2 = h1\<lparr>lastsubencoding := sub, tiles := tiles h1 - 1\<rparr>
                         in if tiles h2 = 0 then Done (h2, d1) k else Step (h2, d1) k
                     | (Throw e, c1) \<Rightarrow> Fail (Some e) c1 k
                     | (Hang, c1) \<Rightarrow> Fail None c1 k)))"

lemma hx_need_append: "hx_need sub tw th bs = Some k \<Longrightarrow> hx_need sub tw th (bs @ ds) = Some k"
  by (auto simp: hx_need_def Let_def nth_append split: if_splits)

lemma hx_need_pos: "hx_need sub tw th bs = Some k \<Longrightarrow> 0 < k"
  by (auto simp: hx_need_def Let_def split: if_splits)

lemma hextile_machine_stable:
  assumes "hextile_machine x y w ht c bs \<noteq> Wait"
  shows "hextile_machine x y w ht c (bs @ ds) = hextile_machine x y w ht c bs"
proof -
  consider "tiles (fst c) = 0" | "bs \<noteq> []" "tiles (fst c) \<noteq> 0" "30 < uint (hd bs)"
    | tx ty tw th k where "bs \<noteq> []" "tiles (fst c) \<noteq> 0" "\<not> 30 < uint (hd bs)"
      "tile_rect x y w ht (fst c) = (tx, ty, tw, th)" "hx_need (uint (hd bs)) tw th bs = Some k" "k \<le> length bs"
    using assms by (auto simp: hextile_machine_def Let_def split: if_splits option.splits prod.splits)
  then show ?thesis
  proof cases
    case 3
    then show ?thesis
      using hx_need_append [OF 3(5), of ds] by (simp add: hextile_machine_def Let_def)
  qed (simp_all add: hextile_machine_def Let_def)
qed

lemma hextile_machine_bounds:
  "hextile_machine x y w ht c bs = Step c' k \<Longrightarrow> 0 < k \<and> k \<le> length bs"
  "hextile_machine x y w ht c bs = Done c' k \<or> hextile_machine x y w ht c bs = Fail e c' k \<Longrightarrow>
    k \<le> length bs"
  by (auto simp: hextile_machine_def Let_def dest: hx_need_pos
      split: if_splits option.splits prod.splits outcome.splits)

section \<open>The decoder runs its machine\<close>

lemma rQshift8_unread:
  assumes "wf_recv s" "unread s \<noteq> []"
  shows "rQshift8 s = (uint (unread s ! 0), rQskipBytes 1 s)"
  using rQshift8_reads [OF assms(1)] assms(2) by (cases "unread s") simp_all

lemma subTile_not_hang: "fst (subTile a b c d col h) \<noteq> Hang"
  by (simp add: subTile_def split: option.split)

lemma hextile_subrects_reads:
  "wf_recv s \<Longrightarrow> unread s = bs @ r \<Longrightarrow> n * (if bit_set sub 16 then 6 else 2) \<le> length bs \<Longrightarrow>
    fst (hextile_subrects n sub h s) = fst (hx_subrects n sub h bs) \<and>
    fst (snd (hextile_subrects n sub h s)) = snd (hx_subrects n sub h bs) \<and>
    (fst (hx_subrects n sub h bs) = Ret () \<longrightarrow>
      snd (snd (hextile_subrects n sub h s)) = rQskipBytes (n * (if bit_set sub 16 then 6 else 2)) s)"
proof (induction n arbitrary: h s bs)
  case 0
  then show ?case by simp
next
  case (Suc n)
  define k where "k = (if bit_set sub 16 then 4 else 0 :: nat)"
  define bs1 where "bs1 = drop k bs"
  define col where "col = (if bit_set sub 16 then Some (take 4 bs) else foreground h)"
  let ?k = "if bit_set sub 16 then 6 else 2 :: nat"
  have k: "k + 2 = ?k" by (simp add: k_def)
  have len: "k + 2 \<le> length bs" "n * ?k \<le> length (drop (k + 2) bs)"
    using Suc.prems(3) k by auto
  let ?s1 = "rQskipBytes k s" and ?s3 = "rQskipBytes (k + 2) s"
  have 1: "(if bit_set sub 16 then (case rQshiftBytes 4 s of (c, s) \<Rightarrow> (Some c, s)) else (foreground h, s))
      = (col, ?s1)"
    using Suc.prems(1,2) len by (auto simp: col_def k_def rQshiftBytes_reads)
  have w: "wf_recv ?s1" "unread ?s1 = bs1 @ r" "wf_recv (rQskipBytes (k + 1) s)"
    "unread (rQskipBytes (k + 1) s) = drop 1 bs1 @ r" "wf_recv ?s3" "unread ?s3 = drop 2 bs1 @ r"
    using Suc.prems(1,2) len
    by (simp_all add: bs1_def unread_rQskipBytes wf_rQskipBytes add.commute)
  have 2: "rQshift8 ?s1 = (uint (bs1 ! 0), rQskipBytes (k + 1) s)"
    "rQshift8 (rQskipBytes (k + 1) s) = (uint (bs1 ! 1), ?s3)"
    using rQshift8_unread [OF w(1)] rQshift8_unread [OF w(3)] w(2,4) len
    by (auto simp: bs1_def nth_append)
  let ?t = "subTile (js_sar (uint (bs1 ! 0)) 4) (js_and (uint (bs1 ! 0)) 15)
    (js_sar (uint (bs1 ! 1)) 4 + 1) (js_and (uint (bs1 ! 1)) 15 + 1) col h"
  have hx: "hx_subrects (Suc n) sub h bs = (case ?t of (Ret _, h1) \<Rightarrow> hx_subrects n sub h1 (drop 2 bs1)
      | (Throw e, h1) \<Rightarrow> (Throw e, h1) | (Hang, h1) \<Rightarrow> (Hang, h1))"
  proof -
    have "(if bit_set sub 16 then (Some (take 4 bs), drop 4 bs) else (foreground h, bs)) = (col, bs1)"
      by (simp add: bs1_def col_def k_def)
    then show ?thesis by (simp only: hx_subrects.simps Let_def prod.case)
  qed
  have dec: "hextile_subrects (Suc n) sub h s = (case ?t of (Ret _, h1) \<Rightarrow> hextile_subrects n sub h1 ?s3
      | (Throw e, h1) \<Rightarrow> (Throw e, h1, ?s3) | (Hang, h1) \<Rightarrow> (Hang, h1, ?s3))"
    by (simp only: hextile_subrects.simps 1 2 Let_def prod.case)
  have IH: "fst (hextile_subrects n sub h1 ?s3) = fst (hx_subrects n sub h1 (drop 2 bs1)) \<and>
      fst (snd (hextile_subrects n sub h1 ?s3)) = snd (hx_subrects n sub h1 (drop 2 bs1)) \<and>
      (fst (hx_subrects n sub h1 (drop 2 bs1)) = Ret () \<longrightarrow>
        snd (snd (hextile_subrects n sub h1 ?s3)) = rQskipBytes (n * ?k) ?s3)" for h1
    by (rule Suc.IH [OF w(5,6)]) (use len in \<open>simp add: bs1_def add.commute\<close>)
  have skip: "rQskipBytes (n * ?k) ?s3 = rQskipBytes (Suc n * ?k) s"
    unfolding k by simp
  show ?case
    unfolding hx dec using IH skip
    by (cases ?t; cases "fst ?t") (simp_all only: prod.case outcome.case fst_conv snd_conv simp_thms outcome.distinct)
qed

lemma shift_colour:
  fixes upd :: "bytes \<Rightarrow> hextile \<Rightarrow> hextile"
  assumes "wf_recv s" "unread s = bs @ r" "b \<longrightarrow> 4 \<le> length bs"
  shows "(if b then (case rQshiftBytes 4 s of (c, s) \<Rightarrow> (upd c h, s)) else (h, s)) =
      (if b then upd (take 4 bs) h else h, rQskipBytes (if b then 4 else 0) s)"
  using assms by (cases b) (simp_all add: rQshiftBytes_reads)

lemma startTile_not_hang: "fst (startTile a b c d col h) \<noteq> Hang"
  by (simp add: startTile_def Let_def split: option.split)

lemma blit_not_hang: "fst (blitImage_draw x y w h v off d) \<noteq> Hang"
  by (simp add: blitImage_draw_def Let_def)

definition draw_agrees ::
  "bytes \<Rightarrow> unit outcome \<times> (hextile \<times> display) \<Rightarrow> unit outcome \<times> (hextile \<times> display) \<times> websock \<Rightarrow> bool" where
  "draw_agrees r a b \<longleftrightarrow> fst b = fst a \<and> fst (snd b) = snd a \<and>
     (fst a = Ret () \<longrightarrow> wf_recv (snd (snd b)) \<and> unread (snd (snd b)) = r)"

lemma hextile_draw_raw:
  assumes "wf_recv s" "renderQ d = []" "unread s = bs @ r" "sub \<noteq> 0" "bit_set sub 1"
    and "length bs = 1 + nat (tw * th * 4)"
  shows "draw_agrees r (hx_draw sub tx ty tw th h d bs) (hextile_draw sub tx ty tw th h d s)"
proof -
  define n where "n = nat (tw * th * 4)"
  define s0 where "s0 = rQskipBytes 1 s"
  define s1 where "s1 = rQskipBytes (1 + n) s"
  define s2 where "s2 = poke_opaque [0..<nat (tw * th)] (rQi s0) s1"
  have n: "n = nat (tw * th) * 4" by (simp add: n_def)
  have s0: "wf_recv s0" "unread s0 = drop 1 bs @ r" "rQi s1 = rQi s0 + n" "rQ s1 = rQ s0"
    "wf_recv s1" "unread s1 = r" "rQskipBytes n s0 = s1"
    using assms n_def by (simp_all add: s0_def s1_def sock_simps) (simp_all add: rQskipBytes_def)
  have sh: "rQshift8 s = (uint (unread s ! 0), s0)"
  proof -
    have "unread s \<noteq> []" using assms by auto
    from rQshift8_unread [OF assms(1) this] show ?thesis by (simp add: s0_def)
  qed
  have v: "rQshiftView n s0 = (\<lparr>vbuffer = rQ s0, voffset = rQi s0, vlength = n\<rparr>, s1)"
    using rQshiftView_reads [OF s0(1), of n] s0(2,7) assms(6) n_def by simp
  have u: "unread s2 = r"
    unfolding s2_def s0(6) [symmetric]
    by (rule poke_opaque_unread) (use s0 n in \<open>auto simp: list_all_iff\<close>)
  have wf: "wf_recv s2" using s0 by (simp add: s2_def poke_opaque_frame)
  have "slice (rQ s2) (rQi s0) (rQi s0 + n) = set_opaque [0..<nat (tw * th)] (drop 1 bs)"
    using poke_opaque_bytes [of n "[0..<nat (tw * th)]" "rQi s0" s1] n s0 assms(6)
      view_bytes_unread [OF s0(1), of n]
    by (simp add: s2_def list_all_iff n_def)
  moreover have "rQi s0 + n \<le> length (rQ s2)"
    using s0 length_unread [OF s0(1)] assms(6) n_def
    by (auto simp: s2_def poke_opaque_frame wf_recv_def)
  ultimately have "blitImage_draw tx ty tw th \<lparr>vbuffer = rQ s2, voffset = rQi s0, vlength = n\<rparr> 0 d =
      blitImage_draw tx ty tw th (whole (set_opaque [0..<nat (tw * th)] (drop 1 bs))) 0 d"
    by (intro blitImage_draw_slice) (simp_all add: n_def)
  moreover have "hextile_draw sub tx ty tw th h d s =
      (case blitImage_draw tx ty tw th \<lparr>vbuffer = rQ s2, voffset = rQi s0, vlength = n\<rparr> 0 d of
        (q, d1) \<Rightarrow> (q, (h, d1), s2))"
    using assms(2,4,5) v n by (simp add: hextile_draw_def sh Let_def blitImage_def s2_def)
  ultimately show ?thesis
    using assms(4,5) u wf by (simp add: hx_draw_def draw_agrees_def split: prod.split)
qed

lemma hextile_draw_blank:
  assumes "wf_recv s" "renderQ d = []" "unread s = b # r"
  shows "draw_agrees r (hx_draw 0 tx ty tw th h d [b]) (hextile_draw 0 tx ty tw th h d s)"
  using assms by (simp add: hx_draw_def hextile_draw_def draw_agrees_def sock_simps fillRect_def
      split: option.split)

lemma hextile_draw_subrects:
  assumes "wf_recv s" "renderQ d = []" "unread s = bs @ r" "sub \<noteq> 0" "\<not> bit_set sub 1"
    and "hx_need sub tw th bs = Some (length bs)"
  shows "draw_agrees r (hx_draw sub tx ty tw th h d bs) (hextile_draw sub tx ty tw th h d s)"
proof -
  define k2 where "k2 = (if bit_set sub 2 then 4 else 0 :: nat)"
  define k4 where "k4 = (if bit_set sub 4 then 4 else 0 :: nat)"
  define k where "k = (if bit_set sub 16 then 6 else 2 :: nat)"
  define h1 where "h1 = (if bit_set sub 2 then h\<lparr>background := Some (take 4 (drop 1 bs))\<rparr> else h)"
  define h2 where "h2 = (if bit_set sub 4 then h1\<lparr>foreground := Some (take 4 (drop (1 + k2) bs))\<rparr> else h1)"
  define bs2 where "bs2 = drop (1 + k2 + k4) bs"
  have len: "length bs = 1 + k2 + k4 + (if bit_set sub 8 then 1 + unat (bs2 ! 0) * k else 0)"
    "bit_set sub 8 \<Longrightarrow> 1 + k2 + k4 < length bs"
    using assms(5,6)
    by (auto simp: hx_need_def Let_def k2_def k4_def k_def bs2_def not_less split: if_splits)
  let ?s = "\<lambda>n. rQskipBytes n s"
  have sk: "wf_recv (?s n)" "unread (?s n) = drop n bs @ r" if "n \<le> length bs" for n
    using that assms by (simp_all add: sock_simps)
  have ne: "unread s \<noteq> []" using len(1) assms(3) by auto
  have 0: "rQshift8 s = (uint (unread s ! 0), ?s 1)" using rQshift8_unread [OF assms(1) ne] .
  have 1: "(if bit_set sub 2 then (case rQshiftBytes 4 (?s 1) of (c, s) \<Rightarrow> (h\<lparr>background := Some c\<rparr>, s))
      else (h, ?s 1)) = (h1, ?s (1 + k2))"
    using shift_colour [OF sk [of 1], of "bit_set sub 2" "\<lambda>c h. h\<lparr>background := Some c\<rparr>" h] len
    by (auto simp: h1_def k2_def)
  have 2: "(if bit_set sub 4 then (case rQshiftBytes 4 (?s (1 + k2)) of (c, s) \<Rightarrow> (h1\<lparr>foreground := Some c\<rparr>, s))
      else (h1, ?s (1 + k2))) = (h2, ?s (1 + k2 + k4))"
    using shift_colour [OF sk [of "1 + k2"], of "bit_set sub 4" "\<lambda>c h. h\<lparr>foreground := Some c\<rparr>" h1] len
    by (auto simp: h2_def k4_def k2_def)
  have hx: "(if bit_set sub 2 then (h\<lparr>background := Some (take 4 (drop 1 bs))\<rparr>, drop 4 (drop 1 bs)) else (h, drop 1 bs))
      = (h1, drop (1 + k2) bs)"
    "(if bit_set sub 4 then (h1\<lparr>foreground := Some (take 4 (drop (1 + k2) bs))\<rparr>, drop 4 (drop (1 + k2) bs))
      else (h1, drop (1 + k2) bs)) = (h2, bs2)"
    by (simp_all add: h1_def h2_def k2_def k4_def bs2_def ac_simps)
  let ?st = "startTile tx ty tw th (background h2) h2"
  define subs where "subs h3 = (if bit_set sub 8 then hx_subrects (unat (bs2 ! 0)) sub h3 (drop 1 bs2)
      else (Ret (), h3))" for h3
  define dsubs where "dsubs h3 = (if bit_set sub 8 then
      (case rQshift8 (?s (1 + k2 + k4)) of (n, s3) \<Rightarrow> hextile_subrects (nat n) sub h3 s3)
      else (Ret (), h3, ?s (1 + k2 + k4)))" for h3
  have subs: "fst (dsubs h3) = fst (subs h3) \<and> fst (snd (dsubs h3)) = snd (subs h3) \<and>
      (fst (subs h3) = Ret () \<longrightarrow> snd (snd (dsubs h3)) = ?s (length bs))" for h3
  proof (cases "bit_set sub 8")
    case False
    then show ?thesis using len by (simp add: dsubs_def subs_def)
  next
    case True
    let ?m = "1 + k2 + k4"
    have m: "wf_recv (?s ?m)" "unread (?s ?m) = bs2 @ r" "bs2 \<noteq> []" "wf_recv (?s (Suc ?m))"
      "unread (?s (Suc ?m)) = drop 1 bs2 @ r"
      using sk [of ?m] sk [of "Suc ?m"] len(2) [OF True] by (simp_all add: bs2_def)
    have "rQshift8 (?s ?m) = (uint (bs2 ! 0), ?s (Suc ?m))"
      using rQshift8_unread [OF m(1)] m(2,3) by (simp add: nth_append)
    moreover have lb: "length (drop 1 bs2) = length bs - ?m - 1" by (simp add: bs2_def)
    moreover have L: "Suc ?m + unat (bs2 ! 0) * k = length bs" using len(1) True by presburger
    moreover have "unat (bs2 ! 0) * k \<le> length (drop 1 bs2)" unfolding lb using L by linarith
    ultimately show ?thesis
      using hextile_subrects_reads [OF m(4,5), of "unat (bs2 ! 0)" sub h3, folded k_def] True
      by (simp add: dsubs_def subs_def)
  qed
  have tile: "hx_tile sub tx ty tw th h bs = (case ?st of (Ret _, h3) \<Rightarrow> subs h3 | (q, h3) \<Rightarrow> (q, h3))"
    by (simp only: hx_tile_def hx Let_def prod.case subs_def)
  have d2: "hextile_draw sub tx ty tw th h d s = (case ?st of (Throw e, h3) \<Rightarrow> (Throw e, (h3, d), ?s (1 + k2 + k4))
      | (Hang, h3) \<Rightarrow> (Hang, (h3, d), ?s (1 + k2 + k4))
      | (Ret _, h3) \<Rightarrow> (case dsubs h3 of (q, h4, s4) \<Rightarrow> (case q of
          Ret _ \<Rightarrow> (case finishTile h4 d of (r, d1) \<Rightarrow> (r, (h4, d1), s4))
        | _ \<Rightarrow> (q, (h4, d), s4))))"
    using assms(4,5) by (simp only: hextile_draw_def 0 1 2 Let_def prod.case if_False simp_thms dsubs_def)
  have fin: "finishTile h4 d = blitImage_draw (tileX h4) (tileY h4) (tileW h4) (tileH h4)
      (whole (tileBuffer h4)) 0 d" for h4
    using assms(2) by (simp add: finishTile_def blitImage_def)
  obtain q3 h3 where st: "?st = (q3, h3)" by (cases ?st)
  obtain q4 h4 s4 where ds: "dsubs h3 = (q4, h4, s4)" by (cases "dsubs h3")
  then have sb: "subs h3 = (q4, h4)" "q4 = Ret () \<longrightarrow> s4 = ?s (length bs)"
    using subs [of h3] by (auto simp: prod_eq_iff)
  then show ?thesis
    unfolding d2 st using sk [of "length bs"] assms(4,5)
    by (cases q3; cases q4) (simp_all add: hx_draw_def tile st ds fin draw_agrees_def split: prod.split)
qed

lemma hextile_draw_agrees:
  assumes "wf_recv s" "renderQ d = []" "unread s = bs @ r" "hx_need sub tw th bs = Some (length bs)"
  shows "draw_agrees r (hx_draw sub tx ty tw th h d bs) (hextile_draw sub tx ty tw th h d s)"
proof -
  consider "sub = 0" | "sub \<noteq> 0" "bit_set sub 1" | "sub \<noteq> 0" "\<not> bit_set sub 1" by blast
  then show ?thesis
  proof cases
    case 1
    then have "length bs = 1" using assms(4) by (simp add: hx_need_def bit_set_def js_num)
    then obtain b where "bs = [b]" by (auto simp: length_Suc_conv)
    then show ?thesis using hextile_draw_blank assms 1 by simp
  next
    case 2
    then show ?thesis using hextile_draw_raw assms by (simp add: hx_need_def)
  next
    case 3
    then show ?thesis using hextile_draw_subrects assms by blast
  qed
qed

lemma hextile_need_reads:
  assumes "wf_recv s"
  shows "hextile_need sub tw th s = hx_need sub tw th (unread s)"
proof -
  have "last (rQpeekBytes (n + 1) s) = unread s ! n" if "\<not> length (unread s) < n + 1" for n
    using that assms by (simp add: rQpeekBytes_reads take_Suc_conv_app_nth)
  then show ?thesis
    using assms by (simp add: hextile_need_def hx_need_def Let_def rQlacks_unread)
qed

lemma blit_renderQ: "blitImage_draw x y w k v off d = (q, d') \<Longrightarrow> renderQ d' = renderQ d"
  using renderQ_draws(7) [of x y w k v off d] by simp

lemma renderQ_hx_draw: "renderQ (snd (snd (hx_draw sub tx ty tw th h d bs))) = renderQ d"
  by (auto simp: hx_draw_def disp_simps dest: blit_renderQ split: option.splits prod.splits outcome.splits)

lemma tiles_subTile: "subTile a b c d col h = (q, h1) \<Longrightarrow> tiles h1 = tiles h"
  by (auto simp: subTile_def split: option.splits)

lemma tiles_startTile: "startTile a b c e col h = (q, h1) \<Longrightarrow> tiles h1 = tiles h"
  by (auto simp: startTile_def Let_def split: option.splits)

lemma tiles_hx_subrects: "tiles (snd (hx_subrects n sub h bs)) = tiles h"
proof (induction n arbitrary: h bs)
  case (Suc n)
  show ?case
    using Suc.IH by (auto simp: Let_def dest: tiles_subTile split: prod.splits outcome.splits)
qed simp

lemma tiles_hx_tile: "tiles (snd (hx_tile sub tx ty tw th h bs)) = tiles h"
  unfolding hx_tile_def Let_def
  by (cases "bit_set sub 2"; cases "bit_set sub 4")
    (auto simp: tiles_hx_subrects dest: tiles_startTile split: prod.splits outcome.splits)

lemma tiles_hx_draw: "tiles (fst (snd (hx_draw sub tx ty tw th h d bs))) = tiles h"
  using tiles_hx_tile [of sub tx ty tw th h bs]
  by (auto simp: hx_draw_def split: option.splits prod.splits outcome.splits)

definition hextile_ready :: "hextile \<times> display \<Rightarrow> bool" where
  "hextile_ready c \<longleftrightarrow> 0 < tiles (fst c) \<and> renderQ (snd c) = []"

lemma hx_subrects_not_hang: "fst (hx_subrects n sub h bs) \<noteq> Hang"
proof (induction n arbitrary: h bs)
  case (Suc n)
  have "subTile a b c d col h \<noteq> (Hang, h1)" for a b c d col h h1
    using subTile_not_hang [of a b c d col h] by auto
  then show ?case using Suc.IH by (auto simp: Let_def split: prod.splits outcome.splits)
qed simp

lemma hx_tile_not_hang: "fst (hx_tile sub tx ty tw th h bs) \<noteq> Hang"
proof -
  have "startTile a b c d col h \<noteq> (Hang, h1)" for a b c d col h h1
    using startTile_not_hang [of a b c d col h] by auto
  then show ?thesis
    unfolding hx_tile_def Let_def
    by (cases "bit_set sub 2"; cases "bit_set sub 4")
      (auto simp: hx_subrects_not_hang split: prod.splits outcome.splits)
qed

lemma hx_draw_not_hang: "fst (hx_draw sub tx ty tw th h d bs) \<noteq> Hang"
  using hx_tile_not_hang [of sub tx ty tw th h bs] blit_not_hang
  by (auto simp: hx_draw_def split: option.splits prod.splits outcome.splits) (metis fst_conv blit_not_hang)+

lemma hx_need_take:
  "hx_need sub tw th bs = Some k \<Longrightarrow> k \<le> length bs \<Longrightarrow> hx_need sub tw th (take k bs) = Some k"
  by (auto simp: hx_need_def Let_def split: if_splits)

text \<open>One round of the loop, against one move of the machine.\<close>

lemma hextile_round:
  assumes "tiles h = Suc n" "wf_recv s" "renderQ d = []"
  shows "(hextile_machine x y w ht (h, d) (unread s) = Wait \<and>
      hextile_loop (Suc n) x y w ht h d s = (Ret False, (h, d), s)) \<or>
    (\<exists>e c k. hextile_machine x y w ht (h, d) (unread s) = Fail e c k \<and>
      fst (hextile_loop (Suc n) x y w ht h d s) = failure e) \<or>
    (\<exists>h2 d1 k s1. wf_recv s1 \<and> unread s1 = drop k (unread s) \<and> tiles h2 = n \<and> renderQ d1 = [] \<and>
      hextile_machine x y w ht (h, d) (unread s) = (if n = 0 then Done (h2, d1) k else Step (h2, d1) k) \<and>
      hextile_loop (Suc n) x y w ht h d s = hextile_loop n x y w ht h2 d1 s1)"
proof -
  obtain tx ty tw th where r: "tile_rect x y w ht h = (tx, ty, tw, th)" by (metis prod_cases4)
  define sub where "sub = uint (hd (unread s))"
  have l0: "rQlacks 1 s = (unread s = [])" using assms(2) by (simp add: rQlacks_unread)
  have pk: "undef0 (rQpeek8 s) = sub" if "unread s \<noteq> []"
    using that rQpeek8_reads [OF assms(2)] by (cases "unread s") (simp_all add: sub_def)
  have nd: "hextile_need sub tw th s = hx_need sub tw th (unread s)" using hextile_need_reads [OF assms(2)] .
  note eqs = hextile_machine_def Let_def rQlacks_unread [OF assms(2)] r nd pk l0 assms(1) sub_def [symmetric]
  consider "unread s = []" | "unread s \<noteq> []" "sub > 30" | "unread s \<noteq> []" "\<not> sub > 30" "hx_need sub tw th (unread s) = None"
    | k where "unread s \<noteq> []" "\<not> sub > 30" "hx_need sub tw th (unread s) = Some k" "length (unread s) < k"
    | k where "unread s \<noteq> []" "\<not> sub > 30" "hx_need sub tw th (unread s) = Some k" "k \<le> length (unread s)"
    by (metis not_None_eq not_le)
  then show ?thesis
  proof cases
    case (5 k)
    let ?bs = "take k (unread s)"
    obtain q h1 d1 where hx: "hx_draw sub tx ty tw th h d ?bs = (q, (h1, d1))" by (metis prod_cases3)
    have "draw_agrees (drop k (unread s)) (hx_draw sub tx ty tw th h d ?bs) (hextile_draw sub tx ty tw th h d s)"
      by (rule hextile_draw_agrees [OF assms(2,3)]) (use 5 hx_need_take [OF 5(3,4)] in simp_all)
    then obtain s1 where dr: "hextile_draw sub tx ty tw th h d s = (q, (h1, d1), s1)"
      "q = Ret () \<longrightarrow> wf_recv s1 \<and> unread s1 = drop k (unread s)"
      using hx by (cases "hextile_draw sub tx ty tw th h d s") (auto simp: draw_agrees_def)
    have inv: "tiles h1 = Suc n" "renderQ d1 = []" "q \<noteq> Hang"
      using tiles_hx_draw [of sub tx ty tw th h d ?bs] renderQ_hx_draw [of sub tx ty tw th h d ?bs]
        hx_draw_not_hang [of sub tx ty tw th h d ?bs] hx assms(1,3) by simp_all
    show ?thesis
    proof (cases q)
      case (Ret u)
      let ?h2 = "h1\<lparr>lastsubencoding := sub, tiles := tiles h1 - 1\<rparr>"
      have "hextile_machine x y w ht (h, d) (unread s) = (if n = 0 then Done (?h2, d1) k else Step (?h2, d1) k)"
        using 5 hx Ret inv by (simp add: eqs)
      moreover have "hextile_loop (Suc n) x y w ht h d s = hextile_loop n x y w ht ?h2 d1 s1"
        using 5 dr Ret inv by (simp add: eqs)
      ultimately show ?thesis using dr inv Ret by (intro disjI2 exI conjI) auto
    next
      case (Throw e)
      then have "hextile_machine x y w ht (h, d) (unread s) = Fail (Some e) (h1, d1) k"
        "fst (hextile_loop (Suc n) x y w ht h d s) = failure (Some e)"
        using 5 hx dr by (simp_all add: eqs)
      then show ?thesis by blast
    qed (use inv in simp)
  qed (simp_all add: eqs)
qed

lemma agrees_Failed: "fst l = failure e \<Longrightarrow> agrees (Failed e c r) l"
  by (cases l) simp

lemma hextile_loop_agrees:
  "tiles h = Suc n \<Longrightarrow> wf_recv s \<Longrightarrow> renderQ d = [] \<Longrightarrow>
    agrees (run_machine (hextile_machine x y w ht) (h, d) (unread s)) (hextile_loop (Suc n) x y w ht h d s)"
proof (induction n arbitrary: h d s)
  case (0 h d s)
  from hextile_round [OF 0, of x y w ht] 0(2) show ?case
    by (elim disjE conjE exE)
      (simp_all add: run_machine.simps [of _ "(h, d)"] agrees_Failed del: hextile_loop.simps(2))
next
  case (Suc n h d s)
  from hextile_round [OF Suc.prems, of x y w ht] show ?case
  proof (elim disjE conjE exE)
    fix h2 d1 k s1
    assume *: "wf_recv s1" "unread s1 = drop k (unread s)" "tiles h2 = Suc n" "renderQ d1 = []"
      "hextile_machine x y w ht (h, d) (unread s) = (if Suc n = 0 then Done (h2, d1) k else Step (h2, d1) k)"
      "hextile_loop (Suc (Suc n)) x y w ht h d s = hextile_loop (Suc n) x y w ht h2 d1 s1"
    then have "0 < k \<and> k \<le> length (unread s)"
      using hextile_machine_bounds(1) [of x y w ht "(h, d)" "unread s" "(h2, d1)" k] by simp
    then show ?thesis
      using * Suc.IH [OF *(3,1,4)] by (simp add: run_machine.simps [of _ "(h, d)"] del: hextile_loop.simps)
  next
    fix e c k
    assume "hextile_machine x y w ht (h, d) (unread s) = Fail e c k"
      "fst (hextile_loop (Suc (Suc n)) x y w ht h d s) = failure e"
    then show ?thesis
      by (simp add: run_machine.simps [of _ "(h, d)"] agrees_Failed del: hextile_loop.simps)
  qed (use Suc.prems in \<open>simp add: run_machine.simps [of _ "(h, d)"] del: hextile_loop.simps\<close>)
qed

interpretation hextile: socket_decoder "hextile_machine x y w ht" hextile_ready
  "hextile_decodeRect x y w ht"
proof (unfold_locales, goal_cases)
  case (1 c bs ds)
  then show ?case by (rule hextile_machine_stable)
next
  case (2 c bs c' k)
  then show ?case by (rule hextile_machine_bounds(1))
next
  case (3 c bs c' k e)
  then show ?case by (rule hextile_machine_bounds(2))
next
  case (4 c s)
  obtain h d n where "c = (h, d)" "tiles h = Suc n" "renderQ d = []"
    using 4(1) by (cases c; cases "tiles (fst c)") (auto simp: hextile_ready_def)
  then show ?case
    using hextile_loop_agrees [of h n s d x y w ht] 4(2)
    by (simp add: hextile_decodeRect_def Let_def del: hextile_loop.simps)
next
  case (5 c bs c' k)
  then show ?case
    using tiles_hx_draw renderQ_hx_draw
    by (auto simp: hextile_machine_def hextile_ready_def Let_def
        split: if_splits option.splits prod.splits outcome.splits) (metis fst_conv snd_conv)+
qed

section \<open>Properties\<close>

definition hextile_begin :: "int \<Rightarrow> int \<Rightarrow> hextile \<Rightarrow> hextile" where
  "hextile_begin w ht h =
     (let tX = nat ((w + 15) div 16); tY = nat ((ht + 15) div 16)
      in h\<lparr>tilesX := tX, tilesY := tY, totalTiles := tX * tY, tiles := tX * tY\<rparr>)"

lemma hextile_begin_tiles: "0 < w \<Longrightarrow> 0 < ht \<Longrightarrow> 0 < tiles (hextile_begin w ht h)"
  by (auto simp: hextile_begin_def Let_def pos_imp_zdiv_pos_iff)

lemma hextile_fresh:
  "tiles h = 0 \<Longrightarrow> 0 < w \<Longrightarrow> 0 < ht \<Longrightarrow>
    hextile_decodeRect x y w ht (h, d) s = hextile_decodeRect x y w ht (hextile_begin w ht h, d) s"
  using hextile_begin_tiles [of w ht h]
  by (simp add: hextile_decodeRect_def Let_def) (simp add: hextile_begin_def Let_def)



text \<open>The rectangle of the \<open>i\<close>-th tile, as the decoder computes it when \<open>i\<close> tiles are done.\<close>

definition nth_tile :: "int \<Rightarrow> int \<Rightarrow> int \<Rightarrow> int \<Rightarrow> nat \<Rightarrow> int \<times> int \<times> int \<times> int" where
  "nth_tile x y w ht i =
     (let h = hextile_begin w ht new_hextile in tile_rect x y w ht (h\<lparr>tiles := totalTiles h - i\<rparr>))"

definition tile_count :: "int \<Rightarrow> int \<Rightarrow> nat" where
  "tile_count w ht = totalTiles (hextile_begin w ht new_hextile)"

definition in_tile :: "int \<times> int \<times> int \<times> int \<Rightarrow> int \<times> int \<Rightarrow> bool" where
  "in_tile r p = (case r of (tx, ty, tw, th) \<Rightarrow> in_rect tx ty tw th p)"

lemma block_iff:
  fixes v n :: int
  shows "(v + int c * 16 \<le> p \<and> p < v + int c * 16 + min 16 (v + n - (v + int c * 16))) =
    (p < v + n \<and> (p - v) div 16 = int c)"
proof -
  define q where "q = p - v"
  have "q = q div 16 * 16 + q mod 16" "0 \<le> q mod 16" "q mod 16 < 16" by simp_all
  then have "(q div 16 = int c) = (int c * 16 \<le> q \<and> q < int c * 16 + 16)" by linarith
  then show ?thesis by (auto simp: q_def)
qed

lemma in_nth_tile:
  assumes "i < tile_count w ht"
  shows "in_tile (nth_tile x y w ht i) p \<longleftrightarrow> in_rect x y w ht p \<and>
    (fst p - x) div 16 = int (i mod nat ((w + 15) div 16)) \<and>
    (snd p - y) div 16 = int (i div nat ((w + 15) div 16))"
proof -
  let ?t = "nat ((w + 15) div 16)"
  have i: "tile_count w ht - (tile_count w ht - i) = i" using assms by simp
  have "in_tile (nth_tile x y w ht i) p =
      ((x + int (i mod ?t) * 16 \<le> fst p \<and>
        fst p < x + int (i mod ?t) * 16 + min 16 (x + w - (x + int (i mod ?t) * 16))) \<and>
       (y + int (i div ?t) * 16 \<le> snd p \<and>
        snd p < y + int (i div ?t) * 16 + min 16 (y + ht - (y + int (i div ?t) * 16))))"
  proof -
    define h where "h = hextile_begin w ht new_hextile"
    have h: "totalTiles h = tile_count w ht" by (simp only: h_def tile_count_def)
    have "tilesX (g\<lparr>tilesX := a, tilesY := b, totalTiles := c, tiles := e\<rparr>) = a" for g :: hextile and a b c e
      by simp
    then have t: "tilesX h = ?t" by (simp only: h_def hextile_begin_def Let_def)
    have f: "totalTiles (h\<lparr>tiles := n\<rparr>) = totalTiles h" "tilesX (h\<lparr>tiles := n\<rparr>) = tilesX h"
      "tiles (h\<lparr>tiles := n\<rparr>) = n" for n by simp_all
    show ?thesis
      unfolding nth_tile_def Let_def h_def [symmetric] tile_rect_def in_tile_def f h t i prod.case in_rect_def
      by (rule conj_assoc [symmetric, THEN trans]) blast
  qed
  also have "\<dots> = ((fst p < x + w \<and> (fst p - x) div 16 = int (i mod ?t)) \<and>
      (snd p < y + ht \<and> (snd p - y) div 16 = int (i div ?t)))"
    by (simp only: block_iff)
  also have "\<dots> = (in_rect x y w ht p \<and> (fst p - x) div 16 = int (i mod ?t) \<and>
      (snd p - y) div 16 = int (i div ?t))"
  proof -
    have nn: "0 \<le> q" if "q div 16 = int n" for q :: int and n
      using that pos_imp_zdiv_nonneg_iff [of 16 q] by simp
    show ?thesis
      using nn [of "fst p - x" "i mod ?t"] nn [of "snd p - y" "i div ?t"]
      unfolding in_rect_def by linarith
  qed
  finally show ?thesis .
qed

text \<open>The tiles of a Hextile rectangle cover it without overlap: every pixel of the rectangle
  lies in exactly one tile, and no tile has a pixel outside it.\<close>

lemma hextile_tiles_partition:
  assumes "0 < w" "0 < ht"
  shows "if in_rect x y w ht p then \<exists>!i. i < tile_count w ht \<and> in_tile (nth_tile x y w ht i) p
    else \<nexists>i. i < tile_count w ht \<and> in_tile (nth_tile x y w ht i) p"
proof (cases "in_rect x y w ht p")
  case False
  then show ?thesis using in_nth_tile by auto
next
  case True
  define tX where "tX = nat ((w + 15) div 16)"
  define c where "c = nat ((fst p - x) div 16)"
  define r where "r = nat ((snd p - y) div 16)"
  have total: "tile_count w ht = tX * nat ((ht + 15) div 16)"
    by (simp add: tile_count_def hextile_begin_def Let_def tX_def)
  have "(fst p - x) div 16 \<le> (w - 1) div 16" "(snd p - y) div 16 \<le> (ht - 1) div 16"
    using True by (simp_all add: in_rect_def zdiv_mono1)
  moreover have "(v + 15) div 16 = (v - 1) div 16 + 1" for v :: int by simp
  ultimately have b: "(fst p - x) div 16 = int c" "(snd p - y) div 16 = int r" "c < tX"
    "r < nat ((ht + 15) div 16)"
    using True by (auto simp: c_def r_def tX_def in_rect_def pos_imp_zdiv_nonneg_iff)
  have "r * tX + c < Suc r * tX" using b(3) by simp
  also have "\<dots> \<le> tile_count w ht"
    using b(4) mult_le_mono2 [of "Suc r" "nat ((ht + 15) div 16)" tX] by (simp add: total mult.commute)
  finally have i: "r * tX + c < tile_count w ht" .
  have "(r * tX + c) mod tX = c" "(r * tX + c) div tX = r" using b(3) by simp_all
  with i True b have "r * tX + c < tile_count w ht \<and> in_tile (nth_tile x y w ht (r * tX + c)) p"
    by (simp add: in_nth_tile flip: tX_def)
  moreover have "j = r * tX + c" if "j < tile_count w ht \<and> in_tile (nth_tile x y w ht j) p" for j
    using that b div_mult_mod_eq [of j tX] by (auto simp: in_nth_tile simp flip: tX_def)
  ultimately show ?thesis using True by auto
qed

end
