(* ===== verification/Crypto.thy ===== *)
theory Crypto
  imports Prelude
begin

text \<open>
  The cryptographic routines the browser does not offer: \<open>core/crypto/bigint.js\<close>,
  \<open>core/crypto/dh.js\<close>, \<open>core/crypto/md5.js\<close>, \<open>core/crypto/des.js\<close> and the electronic code book
  mode of \<open>core/crypto/aes.js\<close>. Random bytes and the block cipher of the browser's own interface are
  arguments.
\<close>

section \<open>Big integers and Diffie-Hellman\<close>

text \<open>A BigInt is an \<open>int\<close>. The remainder of the language has the sign of the dividend; here all
  numbers are read from bytes and are not negative. A zero modulus is a RangeError.\<close>

function modPow_loop :: "int \<Rightarrow> int \<Rightarrow> int \<Rightarrow> int \<Rightarrow> int" where
  "modPow_loop r b e m =
     (if e > 0 then modPow_loop (if e mod 2 = 1 then r * b mod m else r) (b * b mod m) (e div 2) m
      else r)"
  by pat_completeness auto
termination by (relation "measure (\<lambda>(r, b, e, m). nat e)") auto

declare modPow_loop.simps [simp del]

definition modPow :: "int \<Rightarrow> int \<Rightarrow> int \<Rightarrow> int outcome" where
  "modPow b e m = (if m = 0 then Throw RangeError else Ret (modPow_loop 1 (b mod m) e m))"

text \<open>The hexadecimal digits of a number, most significant first, as \<open>toString(16)\<close> gives them; the
  digit characters are their values.\<close>

function hex_digits :: "nat \<Rightarrow> nat list" where
  "hex_digits n = (if n < 16 then [n] else hex_digits (n div 16) @ [n mod 16])"
  by pat_completeness auto
termination by (relation "measure id") auto

declare hex_digits.simps [simp del]

definition padStart :: "nat \<Rightarrow> nat list \<Rightarrow> nat list" where
  "padStart len ds = replicate (len - length ds) 0 @ ds"

fun pair_up :: "nat list \<Rightarrow> bytes" where
  "pair_up (a # b # ds) = of_nat (a * 16 + b) # pair_up ds"
| "pair_up ds = []"

text \<open>A number too long for \<open>padLength\<close> keeps its digits; with an odd number of them the length of
  the array is not an integer, a RangeError.\<close>

definition bigIntToU8Array :: "nat \<Rightarrow> nat \<Rightarrow> bytes outcome" where
  "bigIntToU8Array bigint padLength =
     (let hex = hex_digits bigint;
          padLength = (if padLength = 0 then (length hex + 1) div 2 else padLength);
          hex = padStart (padLength * 2) hex
      in if odd (length hex) then Throw RangeError else Ret (pair_up hex))"

fun hex_value :: "nat list \<Rightarrow> nat \<Rightarrow> nat" where
  "hex_value [] acc = acc"
| "hex_value (d # ds) acc = hex_value ds (acc * 16 + d)"

definition byte_hex :: "byte \<Rightarrow> nat list" where
  "byte_hex b = padStart 2 (hex_digits (unat b))"

text \<open>\<open>BigInt("0x")\<close> of an empty array is a SyntaxError.\<close>

definition u8ArrayToBigInt :: "bytes \<Rightarrow> nat outcome" where
  "u8ArrayToBigInt arr =
     (if arr = [] then Throw (ErrorMsg ''SyntaxError'')
      else Ret (hex_value (concat (map byte_hex arr)) 0))"

record dh =
  dh_keyBytes :: nat
  dh_p :: nat
  dh_private :: nat
  dh_publicKey :: bytes

fun obind :: "'a outcome \<Rightarrow> ('a \<Rightarrow> 'b outcome) \<Rightarrow> 'b outcome" where
  "obind (Ret a) k = k a"
| "obind (Throw e) k = Throw e"
| "obind Hang k = Hang"

text \<open>\<open>random n\<close> are \<open>n\<close> random bytes.\<close>

definition dh_generateKey :: "(nat \<Rightarrow> bytes) \<Rightarrow> bytes \<Rightarrow> bytes \<Rightarrow> dh outcome" where
  "dh_generateKey random g p =
     (let keyBytes = length p; privateKey = random keyBytes in
      obind (u8ArrayToBigInt g) (\<lambda>gBigInt.
      obind (u8ArrayToBigInt p) (\<lambda>pBigInt.
      obind (u8ArrayToBigInt privateKey) (\<lambda>privateKeyBigInt.
      obind (modPow (int gBigInt) (int privateKeyBigInt) (int pBigInt)) (\<lambda>v.
      obind (bigIntToU8Array (nat v) keyBytes) (\<lambda>publicKey.
        Ret \<lparr>dh_keyBytes = keyBytes, dh_p = pBigInt, dh_private = privateKeyBigInt,
             dh_publicKey = publicKey\<rparr>))))))"

definition dh_deriveBits :: "bytes \<Rightarrow> nat \<Rightarrow> dh \<Rightarrow> bytes outcome" where
  "dh_deriveBits pub len d =
     (let byts = (len + 7) div 8;
          n = (if byts > dh_keyBytes d then byts else dh_keyBytes d)
      in obind (u8ArrayToBigInt pub) (\<lambda>pkey.
         obind (modPow (int pkey) (int (dh_private d)) (int (dh_p d))) (\<lambda>secret.
         obind (bigIntToU8Array (nat secret) n) (\<lambda>a. Ret (take n a)))))"

section \<open>MD5\<close>

type_synonym md5_regs = "int \<times> int \<times> int \<times> int"

definition md5_add :: "int \<Rightarrow> int \<Rightarrow> int" where
  "md5_add d g =
     (let m = js_and 65535 d + js_and 65535 g
      in js_or (js_shl (js_sar d 16 + js_sar g 16 + js_sar m 16) 16) (js_and 65535 m))"

definition md5_rol :: "int \<Rightarrow> nat \<Rightarrow> int" where
  "md5_rol d g = js_or (js_shl d g) (js_shr d (32 - g))"

definition md5_cmn :: "int \<Rightarrow> int \<Rightarrow> int \<Rightarrow> int \<Rightarrow> nat \<Rightarrow> int \<Rightarrow> int" where
  "md5_cmn d g m f r i = md5_add (md5_rol (md5_add (md5_add g d) (md5_add f i)) r) m"

definition md5_ff :: "int \<Rightarrow> int \<Rightarrow> int \<Rightarrow> int \<Rightarrow> int \<Rightarrow> nat \<Rightarrow> int \<Rightarrow> int" where
  "md5_ff d g m f r i n = md5_cmn (js_or (js_and g m) (js_and (js_not g) f)) d g r i n"

definition md5_gg :: "int \<Rightarrow> int \<Rightarrow> int \<Rightarrow> int \<Rightarrow> int \<Rightarrow> nat \<Rightarrow> int \<Rightarrow> int" where
  "md5_gg d g m f r i n = md5_cmn (js_or (js_and g f) (js_and m (js_not f))) d g r i n"

definition md5_hh :: "int \<Rightarrow> int \<Rightarrow> int \<Rightarrow> int \<Rightarrow> int \<Rightarrow> nat \<Rightarrow> int \<Rightarrow> int" where
  "md5_hh d g m f r i n = md5_cmn (js_xor (js_xor g m) f) d g r i n"

definition md5_ii :: "int \<Rightarrow> int \<Rightarrow> int \<Rightarrow> int \<Rightarrow> int \<Rightarrow> nat \<Rightarrow> int \<Rightarrow> int" where
  "md5_ii d g m f r i n = md5_cmn (js_xor m (js_or g (js_not f))) d g r i n"

text \<open>The 64 nested calls in the order in which they are evaluated; \<open>w k\<close> is \<open>d[n + k]\<close>.\<close>

definition md5_round1 :: "(nat \<Rightarrow> int) \<Rightarrow> md5_regs \<Rightarrow> md5_regs" where
  "md5_round1 w s =
     (case s of (m, f, r, i) \<Rightarrow>
        let
          m = md5_ff m f r i (w 0) 7 (- 680876936); i = md5_ff i m f r (w 1) 12 (- 389564586);
          r = md5_ff r i m f (w 2) 17 606105819; f = md5_ff f r i m (w 3) 22 (- 1044525330);
          m = md5_ff m f r i (w 4) 7 (- 176418897); i = md5_ff i m f r (w 5) 12 1200080426;
          r = md5_ff r i m f (w 6) 17 (- 1473231341); f = md5_ff f r i m (w 7) 22 (- 45705983);
          m = md5_ff m f r i (w 8) 7 1770035416; i = md5_ff i m f r (w 9) 12 (- 1958414417);
          r = md5_ff r i m f (w 10) 17 (- 42063); f = md5_ff f r i m (w 11) 22 (- 1990404162);
          m = md5_ff m f r i (w 12) 7 1804603682; i = md5_ff i m f r (w 13) 12 (- 40341101);
          r = md5_ff r i m f (w 14) 17 (- 1502002290); f = md5_ff f r i m (w 15) 22 1236535329
        in (m, f, r, i))"

definition md5_round2 :: "(nat \<Rightarrow> int) \<Rightarrow> md5_regs \<Rightarrow> md5_regs" where
  "md5_round2 w s =
     (case s of (m, f, r, i) \<Rightarrow>
        let
          m = md5_gg m f r i (w 1) 5 (- 165796510); i = md5_gg i m f r (w 6) 9 (- 1069501632);
          r = md5_gg r i m f (w 11) 14 643717713; f = md5_gg f r i m (w 0) 20 (- 373897302);
          m = md5_gg m f r i (w 5) 5 (- 701558691); i = md5_gg i m f r (w 10) 9 38016083;
          r = md5_gg r i m f (w 15) 14 (- 660478335); f = md5_gg f r i m (w 4) 20 (- 405537848);
          m = md5_gg m f r i (w 9) 5 568446438; i = md5_gg i m f r (w 14) 9 (- 1019803690);
          r = md5_gg r i m f (w 3) 14 (- 187363961); f = md5_gg f r i m (w 8) 20 1163531501;
          m = md5_gg m f r i (w 13) 5 (- 1444681467); i = md5_gg i m f r (w 2) 9 (- 51403784);
          r = md5_gg r i m f (w 7) 14 1735328473; f = md5_gg f r i m (w 12) 20 (- 1926607734)
        in (m, f, r, i))"

definition md5_round3 :: "(nat \<Rightarrow> int) \<Rightarrow> md5_regs \<Rightarrow> md5_regs" where
  "md5_round3 w s =
     (case s of (m, f, r, i) \<Rightarrow>
        let
          m = md5_hh m f r i (w 5) 4 (- 378558); i = md5_hh i m f r (w 8) 11 (- 2022574463);
          r = md5_hh r i m f (w 11) 16 1839030562; f = md5_hh f r i m (w 14) 23 (- 35309556);
          m = md5_hh m f r i (w 1) 4 (- 1530992060); i = md5_hh i m f r (w 4) 11 1272893353;
          r = md5_hh r i m f (w 7) 16 (- 155497632); f = md5_hh f r i m (w 10) 23 (- 1094730640);
          m = md5_hh m f r i (w 13) 4 681279174; i = md5_hh i m f r (w 0) 11 (- 358537222);
          r = md5_hh r i m f (w 3) 16 (- 722521979); f = md5_hh f r i m (w 6) 23 76029189;
          m = md5_hh m f r i (w 9) 4 (- 640364487); i = md5_hh i m f r (w 12) 11 (- 421815835);
          r = md5_hh r i m f (w 15) 16 530742520; f = md5_hh f r i m (w 2) 23 (- 995338651)
        in (m, f, r, i))"

definition md5_round4 :: "(nat \<Rightarrow> int) \<Rightarrow> md5_regs \<Rightarrow> md5_regs" where
  "md5_round4 w s =
     (case s of (m, f, r, i) \<Rightarrow>
        let
          m = md5_ii m f r i (w 0) 6 (- 198630844); i = md5_ii i m f r (w 7) 10 1126891415;
          r = md5_ii r i m f (w 14) 15 (- 1416354905); f = md5_ii f r i m (w 5) 21 (- 57434055);
          m = md5_ii m f r i (w 12) 6 1700485571; i = md5_ii i m f r (w 3) 10 (- 1894986606);
          r = md5_ii r i m f (w 10) 15 (- 1051523); f = md5_ii f r i m (w 1) 21 (- 2054922799);
          m = md5_ii m f r i (w 8) 6 1873313359; i = md5_ii i m f r (w 15) 10 (- 30611744);
          r = md5_ii r i m f (w 6) 15 (- 1560198380); f = md5_ii f r i m (w 13) 21 1309151649;
          m = md5_ii m f r i (w 4) 6 (- 145523070); i = md5_ii i m f r (w 11) 10 (- 1120210379);
          r = md5_ii r i m f (w 2) 15 718787259; f = md5_ii f r i m (w 9) 21 (- 343485551)
        in (m, f, r, i))"

text \<open>\<open>X\<close>: the words of a message; \<open>Y\<close>: padding and the rounds; \<open>V\<close> and \<open>M\<close>: the bytes of the
  result. A word of the array that was never stored is \<open>undefined\<close>, taken as 0.\<close>

definition md5_words :: "bytes \<Rightarrow> int list" where
  "md5_words d =
     map (\<lambda>k. foldl (\<lambda>r m. js_or r (js_shl (byte_at d (k * 4 + m)) (8 * m))) 0 [0..<4])
       [0..<(length d + 3) div 4]"

definition word_at :: "int list \<Rightarrow> nat \<Rightarrow> int" where
  "word_at ws i = (if i < length ws then ws ! i else 0)"

definition set_word :: "nat \<Rightarrow> int \<Rightarrow> int list \<Rightarrow> int list" where
  "set_word i v ws = (if i < length ws then ws[i := v] else ws @ replicate (i - length ws) 0 @ [v])"

definition md5_pad :: "int list \<Rightarrow> int \<Rightarrow> int list" where
  "md5_pad d g =
     (let i = nat (js_sar g 5);
          d1 = set_word i (js_or (word_at d i) (js_shl 128 (nat (g mod 32)))) d
      in set_word (14 + nat (js_shl (js_shr (g + 64) 9) 4)) g d1)"

definition md5_block :: "int list \<Rightarrow> nat \<Rightarrow> md5_regs \<Rightarrow> md5_regs" where
  "md5_block d k s =
     (let w = (\<lambda>j. word_at d (k * 16 + j));
          (h, t, g, e) = s;
          (m, f, r, i) = md5_round4 w (md5_round3 w (md5_round2 w (md5_round1 w s)))
      in (md5_add m h, md5_add f t, md5_add r g, md5_add i e))"

definition md5_digest :: "int list \<Rightarrow> int \<Rightarrow> md5_regs" where
  "md5_digest d g =
     (let d1 = md5_pad d g
      in fold (md5_block d1) [0..<(length d1 + 15) div 16] (1732584193, - 271733879, - 1732584194, 271733878))"

definition md5_bytes :: "int list \<Rightarrow> bytes" where
  "md5_bytes d = concat (map (\<lambda>x. map (\<lambda>k. u8 (js_and (js_shr x (8 * k)) 255)) [0..<4]) d)"

definition MD5 :: "bytes \<Rightarrow> bytes" where
  "MD5 d = (case md5_digest (md5_words d) (8 * int (length d)) of (m, f, r, i) \<Rightarrow> md5_bytes [m, f, r, i])"

section \<open>DES\<close>

text \<open>The bit operators of the language act on 32-bit numbers, and nothing here depends on their
  sign, so the cipher works on \<open>32 word\<close>.\<close>

definition PC2 :: "nat list" where
  "PC2 = [
     13, 16, 10, 23, 0, 4, 2, 27, 14, 5, 20, 9, 22, 18, 11, 3, 25, 7, 15, 6, 26, 19, 12, 1,
     40, 51, 30, 36, 46, 54, 29, 39, 50, 44, 32, 47, 43, 48, 38, 55, 33, 52, 45, 41, 49,
     35, 28, 31]"

definition totrot :: "nat list" where
  "totrot = [1, 2, 4, 6, 8, 10, 12, 14, 15, 17, 19, 21, 23, 25, 27, 28]"

definition SP1 :: "32 word list" where
  "SP1 =
     (let z = 0; a = push_bit 16 1; b = push_bit 24 1; c = a OR b; d = push_bit 2 1; e = push_bit 10 1; f = d OR e in [
     c OR e, z OR z, a OR z, c OR f, c OR d, a OR f, z OR d, a OR z, z OR e, c OR e,
     c OR f, z OR e, b OR f, c OR d, b OR z, z OR d, z OR f, b OR e, b OR e, a OR e,
     a OR e, c OR z, c OR z, b OR f, a OR d, b OR d, b OR d, a OR d, z OR z, z OR f,
     a OR f, b OR z, a OR z, c OR f, z OR d, c OR z, c OR e, b OR z, b OR z, z OR e,
     c OR d, a OR z, a OR e, b OR d, z OR e, z OR d, b OR f, a OR f, c OR f, a OR d,
     c OR z, b OR f, b OR d, z OR f, a OR f, c OR e, z OR f, b OR e, b OR e, z OR z,
     a OR d, a OR e, z OR z, c OR d])"

definition SP2 :: "32 word list" where
  "SP2 =
     (let z = 0; a = push_bit 20 1; b = push_bit 31 1; c = a OR b; d = push_bit 5 1; e = push_bit 15 1; f = d OR e in [
     c OR f, b OR e, z OR e, a OR f, a OR z, z OR d, c OR d, b OR f, b OR d, c OR f,
     c OR e, b OR z, b OR e, a OR z, z OR d, c OR d, a OR e, a OR d, b OR f, z OR z,
     b OR z, z OR e, a OR f, c OR z, a OR d, b OR d, z OR z, a OR e, z OR f, c OR e,
     c OR z, z OR f, z OR z, a OR f, c OR d, a OR z, b OR f, c OR z, c OR e, z OR e,
     c OR z, b OR e, z OR d, c OR f, a OR f, z OR d, z OR e, b OR z, z OR f, c OR e,
     a OR z, b OR d, a OR d, b OR f, b OR d, a OR d, a OR e, z OR z, b OR e, z OR f,
     b OR z, c OR d, c OR f, a OR e])"

definition SP3 :: "32 word list" where
  "SP3 =
     (let z = 0; a = push_bit 17 1; b = push_bit 27 1; c = a OR b; d = push_bit 3 1; e = push_bit 9 1; f = d OR e in [
     z OR f, c OR e, z OR z, c OR d, b OR e, z OR z, a OR f, b OR e, a OR d, b OR d,
     b OR d, a OR z, c OR f, a OR d, c OR z, z OR f, b OR z, z OR d, c OR e, z OR e,
     a OR e, c OR z, c OR d, a OR f, b OR f, a OR e, a OR z, b OR f, z OR d, c OR f,
     z OR e, b OR z, c OR e, b OR z, a OR d, z OR f, a OR z, c OR e, b OR e, z OR z,
     z OR e, a OR d, c OR f, b OR e, b OR d, z OR e, z OR z, c OR d, b OR f, a OR z,
     b OR z, c OR f, z OR d, a OR f, a OR e, b OR d, c OR z, b OR f, z OR f, c OR z,
     a OR f, z OR d, c OR d, a OR e])"

definition SP4 :: "32 word list" where
  "SP4 =
     (let z = 0; a = push_bit 13 1; b = push_bit 23 1; c = a OR b; d = push_bit 0 1; e = push_bit 7 1; f = d OR e in [
     c OR d, a OR f, a OR f, z OR e, c OR e, b OR f, b OR d, a OR d, z OR z, c OR z,
     c OR z, c OR f, z OR f, z OR z, b OR e, b OR d, z OR d, a OR z, b OR z, c OR d,
     z OR e, b OR z, a OR d, a OR e, b OR f, z OR d, a OR e, b OR e, a OR z, c OR e,
     c OR f, z OR f, b OR e, b OR d, c OR z, c OR f, z OR f, z OR z, z OR z, c OR z,
     a OR e, b OR e, b OR f, z OR d, c OR d, a OR f, a OR f, z OR e, c OR f, z OR f,
     z OR d, a OR z, b OR d, a OR d, c OR e, b OR f, a OR d, a OR e, b OR z, c OR d,
     z OR e, b OR z, a OR z, c OR e])"

definition SP5 :: "32 word list" where
  "SP5 =
     (let z = 0; a = push_bit 25 1; b = push_bit 30 1; c = a OR b; d = push_bit 8 1; e = push_bit 19 1; f = d OR e in [
     z OR d, a OR f, a OR e, c OR d, z OR e, z OR d, b OR z, a OR e, b OR f, z OR e,
     a OR d, b OR f, c OR d, c OR e, z OR f, b OR z, a OR z, b OR e, b OR e, z OR z,
     b OR d, c OR f, c OR f, a OR d, c OR e, b OR d, z OR z, c OR z, a OR f, a OR z,
     c OR z, z OR f, z OR e, c OR d, z OR d, a OR z, b OR z, a OR e, c OR d, b OR f,
     a OR d, b OR z, c OR e, a OR f, b OR f, z OR d, a OR z, c OR e, c OR f, z OR f,
     c OR z, c OR f, a OR e, z OR z, b OR e, c OR z, z OR f, a OR d, b OR d, z OR e,
     z OR z, b OR e, a OR f, b OR d])"

definition SP6 :: "32 word list" where
  "SP6 =
     (let z = 0; a = push_bit 22 1; b = push_bit 29 1; c = a OR b; d = push_bit 4 1; e = push_bit 14 1; f = d OR e in [
     b OR d, c OR z, z OR e, c OR f, c OR z, z OR d, c OR f, a OR z, b OR e, a OR f,
     a OR z, b OR d, a OR d, b OR e, b OR z, z OR f, z OR z, a OR d, b OR f, z OR e,
     a OR e, b OR f, z OR d, c OR d, c OR d, z OR z, a OR f, c OR e, z OR f, a OR e,
     c OR e, b OR z, b OR e, z OR d, c OR d, a OR e, c OR f, a OR z, z OR f, b OR d,
     a OR z, b OR e, b OR z, z OR f, b OR d, c OR f, a OR e, c OR z, a OR f, c OR e,
     z OR z, c OR d, z OR d, z OR e, c OR z, a OR f, z OR e, a OR d, b OR f, z OR z,
     c OR e, b OR z, a OR d, b OR f])"

definition SP7 :: "32 word list" where
  "SP7 =
     (let z = 0; a = push_bit 21 1; b = push_bit 26 1; c = a OR b; d = push_bit 1 1; e = push_bit 11 1; f = d OR e in [
     a OR z, c OR d, b OR f, z OR z, z OR e, b OR f, a OR f, c OR e, c OR f, a OR z,
     z OR z, b OR d, z OR d, b OR z, c OR d, z OR f, b OR e, a OR f, a OR d, b OR e,
     b OR d, c OR z, c OR e, a OR d, c OR z, z OR e, z OR f, c OR f, a OR e, z OR d,
     b OR z, a OR e, b OR z, a OR e, a OR z, b OR f, b OR f, c OR d, c OR d, z OR d,
     a OR d, b OR z, b OR e, a OR z, c OR e, z OR f, a OR f, c OR e, z OR f, b OR d,
     c OR f, c OR z, a OR e, z OR z, z OR d, c OR f, z OR z, a OR f, c OR z, z OR e,
     b OR d, b OR e, z OR e, a OR d])"

definition SP8 :: "32 word list" where
  "SP8 =
     (let z = 0; a = push_bit 18 1; b = push_bit 28 1; c = a OR b; d = push_bit 6 1; e = push_bit 12 1; f = d OR e in [
     b OR f, z OR e, a OR z, c OR f, b OR z, b OR f, z OR d, b OR z, a OR d, c OR z,
     c OR f, a OR e, c OR e, a OR f, z OR e, z OR d, c OR z, b OR d, b OR e, z OR f,
     a OR e, a OR d, c OR d, c OR e, z OR f, z OR z, z OR z, c OR d, b OR d, b OR e,
     a OR f, a OR z, a OR f, a OR z, c OR e, z OR e, z OR d, c OR d, z OR e, a OR f,
     b OR e, z OR d, b OR d, c OR z, c OR d, b OR z, a OR z, b OR f, z OR z, c OR f,
     a OR d, b OR d, c OR z, b OR e, b OR f, z OR z, c OR f, a OR e, a OR e, z OR f,
     z OR f, a OR d, b OR z, c OR e])"

text \<open>The key: first the 56 bits that \<open>PC1\<close> selects, where \<open>l\<close> walks over the bits of the password;
  its characters past the end are \<open>undefined\<close>.\<close>

definition pc1_step :: "int \<Rightarrow> int" where
  "pc1_step l = l + (if l < - 5 then 65 else if l < - 3 then 31 else if l < - 1 then 63 else if l = 27 then 35 else 0)"

primrec pc1_bits :: "nat \<Rightarrow> nat list \<Rightarrow> int \<Rightarrow> bool list" where
  "pc1_bits 0 password l = []"
| "pc1_bits (Suc n) password l =
     (let l = pc1_step l; i = nat (l div 8)
      in (i < length password \<and> bit (password ! i) (nat (l mod 8))) # pc1_bits n password (l - 8))"

definition rotate_key :: "bool list \<Rightarrow> nat \<Rightarrow> bool list" where
  "rotate_key pc1m i =
     map (\<lambda>j. let o28 = (if j < 28 then 28 else 56); l = j + totrot ! i
              in if l < o28 then pc1m ! l else pc1m ! (l - 28)) [0..<56]"

definition raw_key :: "bool list \<Rightarrow> nat \<Rightarrow> 32 word" where
  "raw_key pcr off =
     fold (\<lambda>j k. if pcr ! (PC2 ! (j + off)) then k OR push_bit (23 - j) 1 else k) [0..<24] 0"

definition cook :: "32 word \<Rightarrow> 32 word \<Rightarrow> 32 word list" where
  "cook raw0 raw1 =
     [push_bit 6 (raw0 AND 0x00fc0000) OR push_bit 10 (raw0 AND 0x00000fc0)
        OR drop_bit 10 (raw1 AND 0x00fc0000) OR drop_bit 6 (raw1 AND 0x00000fc0),
      push_bit 12 (raw0 AND 0x0003f000) OR push_bit 16 (raw0 AND 0x0000003f)
        OR drop_bit 4 (raw1 AND 0x0003f000) OR (raw1 AND 0x0000003f)]"

definition des_keys :: "nat list \<Rightarrow> 32 word list" where
  "des_keys password =
     (let pc1m = pc1_bits 56 password 56
      in concat (map (\<lambda>i. let pcr = rotate_key pc1m i in cook (raw_key pcr 0) (raw_key pcr 24)) [0..<16]))"

text \<open>Exchanging the bits of \<open>l\<close> and \<open>r\<close> that the mask selects, the building block of the initial
  and the final permutation: \<open>x = ((l >>> k) ^ r) & m; r ^= x; l ^= x << k\<close>.\<close>

definition swap_bits :: "nat \<Rightarrow> 32 word \<Rightarrow> 32 word \<times> 32 word \<Rightarrow> 32 word \<times> 32 word" where
  "swap_bits k m lr =
     (case lr of (l, r) \<Rightarrow> let x = (drop_bit k l XOR r) AND m in (l XOR push_bit k x, r XOR x))"

definition on_swapped :: "('a \<times> 'a \<Rightarrow> 'a \<times> 'a) \<Rightarrow> 'a \<times> 'a \<Rightarrow> 'a \<times> 'a" where
  "on_swapped f lr = prod.swap (f (prod.swap lr))"

definition rol1 :: "32 word \<Rightarrow> 32 word" where
  "rol1 r = push_bit 1 r OR (drop_bit 31 r AND 1)"

definition ror1 :: "32 word \<Rightarrow> 32 word" where
  "ror1 r = push_bit 31 r OR drop_bit 1 r"

definition des_initial :: "32 word \<times> 32 word \<Rightarrow> 32 word \<times> 32 word" where
  "des_initial lr =
     (let lr = swap_bits 4 0x0f0f0f0f lr;
          lr = swap_bits 16 0x0000ffff lr;
          lr = on_swapped (swap_bits 2 0x33333333) lr;
          lr = on_swapped (swap_bits 8 0x00ff00ff) lr;
          (l, r) = lr;
          r = rol1 r;
          (l, r) = swap_bits 0 0xaaaaaaaa (l, r)
      in (rol1 l, r))"

definition des_final :: "32 word \<times> 32 word \<Rightarrow> 32 word \<times> 32 word" where
  "des_final lr =
     (let (l, r) = lr;
          r = ror1 r;
          (l, r) = swap_bits 0 0xaaaaaaaa (l, r);
          lr = (ror1 l, r);
          lr = swap_bits 8 0x00ff00ff lr;
          lr = swap_bits 2 0x33333333 lr;
          lr = on_swapped (swap_bits 16 0x0000ffff) lr
      in on_swapped (swap_bits 4 0x0f0f0f0f) lr)"

definition sp_at :: "32 word list \<Rightarrow> 32 word \<Rightarrow> nat \<Rightarrow> 32 word" where
  "sp_at sp x k = sp ! unat (drop_bit k x AND 0x3f)"

definition des_f :: "32 word \<Rightarrow> 32 word \<Rightarrow> 32 word \<Rightarrow> 32 word" where
  "des_f r k0 k1 =
     (let x = (push_bit 28 r OR drop_bit 4 r) XOR k0;
          fval = sp_at SP7 x 0 OR sp_at SP5 x 8 OR sp_at SP3 x 16 OR sp_at SP1 x 24;
          x = r XOR k1
      in fval OR sp_at SP8 x 0 OR sp_at SP6 x 8 OR sp_at SP4 x 16 OR sp_at SP2 x 24)"

fun des_rounds :: "32 word list \<Rightarrow> 32 word \<times> 32 word \<Rightarrow> 32 word \<times> 32 word" where
  "des_rounds (k0 # k1 # k2 # k3 # ks) (l, r) =
     (let l = l XOR des_f r k0 k1; r = r XOR des_f l k2 k3 in des_rounds ks (l, r))"
| "des_rounds ks lr = lr"

definition squash :: "bytes \<Rightarrow> nat \<Rightarrow> 32 word" where
  "squash b i =
     push_bit 24 (word_of_int (byte_at b i)) OR push_bit 16 (word_of_int (byte_at b (i + 1)))
       OR push_bit 8 (word_of_int (byte_at b (i + 2))) OR word_of_int (byte_at b (i + 3))"

definition spread :: "32 word \<Rightarrow> bytes" where
  "spread x = map (\<lambda>i. ucast (drop_bit (8 * (3 - i)) x)) [0..<4]"

definition enc8 :: "32 word list \<Rightarrow> bytes \<Rightarrow> bytes" where
  "enc8 keys text =
     (let (l, r) = des_final (des_rounds keys (des_initial (squash text 0, squash text 4)))
      in spread r @ spread l)"

text \<open>The two ciphers; a text whose length is not a multiple of the block gives \<open>null\<close>.\<close>

definition des_ecb_encrypt :: "nat list \<Rightarrow> bytes \<Rightarrow> bytes option" where
  "des_ecb_encrypt key plaintext =
     (if length plaintext mod 8 \<noteq> 0 then None
      else Some (fold (\<lambda>i x. overlay x (i * 8) (enc8 (des_keys key) (slice x (i * 8) (i * 8 + 8))))
                   [0..<length plaintext div 8] plaintext))"

definition des_cbc_step :: "32 word list \<Rightarrow> bytes \<Rightarrow> nat \<Rightarrow> bytes \<times> bytes \<Rightarrow> bytes \<times> bytes" where
  "des_cbc_step keys plaintext i xy =
     (let (x, y) = xy;
          y = fold (\<lambda>j y. y[j := (y ! j) XOR (plaintext ! (i * 8 + j))]) [0..<8] y;
          y = enc8 keys y
      in (overlay x (i * 8) y, y))"

definition des_cbc_encrypt :: "bytes \<Rightarrow> nat list \<Rightarrow> bytes \<Rightarrow> bytes option" where
  "des_cbc_encrypt iv key plaintext =
     (if length plaintext mod 8 \<noteq> 0 then None
      else Some (fst (fold (des_cbc_step (des_keys key) plaintext) [0..<length plaintext div 8] (plaintext, iv))))"

section \<open>AES in electronic code book mode\<close>

text \<open>The browser's AES in cipher block chaining mode is an argument: key, initial vector and data.\<close>

definition aes_ecb_encrypt :: "(bytes \<Rightarrow> bytes \<Rightarrow> bytes \<Rightarrow> bytes) \<Rightarrow> bytes \<Rightarrow> bytes \<Rightarrow> bytes option" where
  "aes_ecb_encrypt aes_cbc key plaintext =
     (if length plaintext mod 16 \<noteq> 0 then None
      else Some (fold (\<lambda>i x. overlay x (i * 16)
                     (take 16 (aes_cbc key (u8_new 16) (slice x (i * 16) (i * 16 + 16)))))
                   [0..<length plaintext div 16] plaintext))"

end
