(* ===== verification/Crypto_Laws.thy ===== *)
theory Crypto_Laws
  imports Crypto
begin

text \<open>
  What the cryptographic routines compute: modular exponentiation and the agreement of the two sides of
  a Diffie-Hellman exchange, through the conversion of the numbers to bytes and back; and that the DES
  block function is undone by the same function with the round keys in reverse order.
\<close>

section \<open>Modular exponentiation\<close>

lemma modPow_loop_mod:
  assumes "0 \<le> e"
  shows "modPow_loop r b e m mod m = r * b ^ nat e mod m"
  using assms
proof (induction r b e m rule: modPow_loop.induct)
  case (1 r b e m)
  show ?case
  proof (cases "e > 0")
    case False
    then show ?thesis using 1(2) by (simp add: modPow_loop.simps)
  next
    case True
    define q where "q = nat (e div 2)"
    have "nat e = 2 * q + nat (e mod 2)"
      using True by (simp add: q_def nat_div_distrib nat_mod_distrib)
    then have e: "nat e = 2 * q + (if e mod 2 = 1 then 1 else 0)" by auto
    let ?r = "if e mod 2 = 1 then r * b mod m else r"
    have "modPow_loop r b e m mod m = ?r * (b * b mod m) ^ q mod m"
      using 1(1) [OF True] True by (subst modPow_loop.simps) (simp add: q_def)
    also have "\<dots> = ?r * (b * b) ^ q mod m"
      by (metis mod_mult_right_eq power_mod)
    also have "\<dots> = r * b ^ nat e mod m"
    proof (cases "e mod 2 = 1")
      case True
      then have "?r * (b * b) ^ q mod m = r * b * (b * b) ^ q mod m" by (simp add: mod_mult_left_eq)
      then show ?thesis using True by (simp add: e power_mult power2_eq_square mult.assoc)
    qed (simp add: e power_mult power2_eq_square)
    finally show ?thesis .
  qed
qed

lemma modPow_loop_range:
  assumes "0 < m" "0 \<le> r" "r < m"
  shows "0 \<le> modPow_loop r b e m \<and> modPow_loop r b e m < m"
  using assms
proof (induction r b e m rule: modPow_loop.induct)
  case (1 r b e m)
  then show ?case by (cases "e > 0") (simp_all add: modPow_loop.simps [of r b e m])
qed

lemma modPow_value:
  assumes "1 < m" "0 \<le> e"
  shows "modPow b e m = Ret (b ^ nat e mod m)"
proof -
  have "modPow_loop 1 (b mod m) e m = modPow_loop 1 (b mod m) e m mod m"
    using modPow_loop_range [of m 1 "b mod m" e] assms(1) by simp
  also have "\<dots> = b ^ nat e mod m"
    using modPow_loop_mod [OF assms(2), of 1 "b mod m" m] by (simp add: power_mod)
  finally show ?thesis using assms(1) by (simp add: modPow_def)
qed

section \<open>Numbers and bytes\<close>

lemma hex_value_append: "hex_value (as @ bs) acc = hex_value bs (hex_value as acc)"
  by (induction as acc rule: hex_value.induct) simp_all

lemma hex_value_acc: "hex_value ds acc = acc * 16 ^ length ds + hex_value ds 0"
proof (induction ds arbitrary: acc)
  case (Cons d ds)
  show ?case using Cons [of "acc * 16 + d"] Cons [of d] by (simp add: algebra_simps)
qed simp

lemma hex_digits_value: "hex_value (hex_digits n) 0 = n"
proof (induction n rule: hex_digits.induct)
  case (1 n)
  then show ?case by (subst hex_digits.simps) (simp add: hex_value_append)
qed

lemma hex_digits_digits: "\<forall>d \<in> set (hex_digits n). d < 16"
proof (induction n rule: hex_digits.induct)
  case (1 n)
  then show ?case by (subst hex_digits.simps) auto
qed

lemma hex_digits_length: "0 < k \<Longrightarrow> n < 16 ^ k \<Longrightarrow> length (hex_digits n) \<le> k"
proof (induction n arbitrary: k rule: hex_digits.induct)
  case (1 n)
  show ?case
  proof (cases "n < 16")
    case False
    then obtain j where j: "k = Suc j" "0 < j" using "1.prems" by (cases k; cases "k - 1") auto
    have "n div 16 < 16 ^ j" using "1.prems" j by (simp add: less_mult_imp_div_less mult.commute)
    then have "length (hex_digits (n div 16)) \<le> j" using 1(1) [OF False] j(2) by blast
    then show ?thesis using False j by (subst hex_digits.simps) simp
  qed (use "1.prems" in \<open>subst hex_digits.simps, simp\<close>)
qed

lemma hex_value_padStart: "hex_value (padStart k ds) 0 = hex_value ds 0"
proof -
  have "hex_value (replicate n 0) 0 = 0" for n by (induction n) simp_all
  then show ?thesis by (simp add: padStart_def hex_value_append)
qed

lemma byte_hex_of: "a < 16 \<Longrightarrow> b < 16 \<Longrightarrow> byte_hex (of_nat (a * 16 + b)) = [a, b]"
proof -
  assume a: "a < 16" "b < 16"
  then have n: "unat (of_nat (a * 16 + b) :: byte) = a * 16 + b"
    by (simp add: unsigned_of_nat take_bit_nat_eq_self del: of_nat_add of_nat_mult)
  show ?thesis
  proof (cases "a = 0")
    case True
    then show ?thesis using a n by (simp add: byte_hex_def padStart_def hex_digits.simps)
  next
    case False
    then have "\<not> a * 16 + b < 16" "(a * 16 + b) div 16 = a" "(a * 16 + b) mod 16 = b" using a by auto
    then show ?thesis
      using a n hex_digits.simps [of "a * 16 + b"] hex_digits.simps [of a] by (simp add: byte_hex_def padStart_def)
  qed
qed

lemma pair_up_hex:
  "even (length ds) \<Longrightarrow> \<forall>d \<in> set ds. d < 16 \<Longrightarrow> concat (map byte_hex (pair_up ds)) = ds"
  by (induction ds rule: pair_up.induct) (simp_all add: byte_hex_of del: of_nat_add of_nat_mult)

lemma pair_up_Nil: "pair_up ds = [] \<Longrightarrow> length ds < 2"
  by (cases ds rule: pair_up.cases) simp_all

lemma pair_up_length: "length (pair_up ds) = length ds div 2"
  by (induction ds rule: pair_up.induct) simp_all

lemma bigint_roundtrip:
  assumes "0 < n" "v < 256 ^ n"
  shows "\<exists>bs. bigIntToU8Array v n = Ret bs \<and> u8ArrayToBigInt bs = Ret v \<and> length bs = n"
proof -
  let ?h = "padStart (n * 2) (hex_digits v)"
  have "length (hex_digits v) \<le> n * 2"
    using hex_digits_length [of "n * 2" v] assms by (simp add: power_mult power2_eq_square mult.commute [of n])
  then have len: "length ?h = n * 2" by (simp add: padStart_def)
  have digits: "\<forall>d \<in> set ?h. d < 16" using hex_digits_digits by (auto simp: padStart_def)
  have "pair_up ?h \<noteq> []" using pair_up_Nil [of ?h] len assms(1) by auto
  then show ?thesis
    using pair_up_hex [OF _ digits] len assms(1) hex_value_padStart hex_digits_value
    by (simp add: bigIntToU8Array_def u8ArrayToBigInt_def Let_def pair_up_length)
qed

section \<open>Diffie-Hellman\<close>

lemma obind_RetE:
  assumes "obind x k = Ret v"
  obtains a where "x = Ret a" "k a = Ret v"
  using assms by (cases x) auto

lemma hex_value_bound: "\<forall>d \<in> set ds. d < 16 \<Longrightarrow> hex_value ds 0 < 16 ^ length ds"
proof (induction ds)
  case (Cons d ds)
  have "d * 16 ^ length ds + hex_value ds 0 < d * 16 ^ length ds + 16 ^ length ds" using Cons by simp
  also have "\<dots> \<le> 16 * 16 ^ length ds" using Cons.prems by (metis add.commute list.set_intros(1) mult_Suc mult_le_mono1 Suc_leI)
  finally show ?case using hex_value_acc [of ds d] by simp
qed simp

lemma byte_hex_digits: "length (byte_hex b) = 2 \<and> (\<forall>d \<in> set (byte_hex b). d < 16)"
proof -
  have "unat b < 16 ^ 2" using unsigned_less [of b] by simp
  then have "length (hex_digits (unat b)) \<le> 2" by (intro hex_digits_length) simp_all
  then show ?thesis using hex_digits_digits by (auto simp: byte_hex_def padStart_def)
qed

lemma bytes_value_bound:
  assumes "u8ArrayToBigInt bs = Ret v"
  shows "bs \<noteq> [] \<and> v < 256 ^ length bs"
proof -
  let ?h = "concat (map byte_hex bs)"
  have "length ?h = 2 * length bs" by (induction bs) (simp_all add: byte_hex_digits)
  moreover have "\<forall>d \<in> set ?h. d < 16" using byte_hex_digits by fastforce
  ultimately have "hex_value ?h 0 < 16 ^ (2 * length bs)" using hex_value_bound by metis
  then show ?thesis using assms by (auto simp: u8ArrayToBigInt_def power_mult split: if_splits)
qed

lemma dh_generateKey_Ret:
  assumes "dh_generateKey random g p = Ret d" "u8ArrayToBigInt p = Ret P" "1 < P"
  obtains G x where "u8ArrayToBigInt g = Ret G" "dh_p d = P" "dh_private d = x" "dh_keyBytes d = length p"
    "u8ArrayToBigInt (dh_publicKey d) = Ret (G ^ x mod P)"
proof -
  obtain G x v pub where g: "u8ArrayToBigInt g = Ret G" "modPow (int G) (int x) (int P) = Ret v"
    "bigIntToU8Array (nat v) (length p) = Ret pub"
    "d = \<lparr>dh_keyBytes = length p, dh_p = P, dh_private = x, dh_publicKey = pub\<rparr>"
    using assms(1, 2) by (auto simp: dh_generateKey_def Let_def elim!: obind_RetE)
  have v: "v = int (G ^ x mod P)" using g(2) modPow_value [of "int P" "int x"] assms(3) by (simp add: zmod_int)
  have "G ^ x mod P < 256 ^ length p" using bytes_value_bound [OF assms(2)] assms(3)
    by (meson less_trans mod_less_divisor zero_less_one)
  then have "u8ArrayToBigInt pub = Ret (G ^ x mod P)"
    using bigint_roundtrip [of "length p" "G ^ x mod P"] bytes_value_bound [OF assms(2)] g(3) v by auto
  then show thesis using that g by simp
qed

lemma dh_secret:
  assumes "u8ArrayToBigInt pub = Ret Y" "1 < dh_p d" "dh_p d \<le> 256 ^ dh_keyBytes d" "0 < dh_keyBytes d"
  shows "dh_deriveBits pub len d =
    bigIntToU8Array (Y ^ dh_private d mod dh_p d) (max ((len + 7) div 8) (dh_keyBytes d))"
    and "\<exists>k. dh_deriveBits pub len d = Ret k \<and> u8ArrayToBigInt k = Ret (Y ^ dh_private d mod dh_p d)"
proof -
  let ?n = "max ((len + 7) div 8) (dh_keyBytes d)" and ?v = "Y ^ dh_private d mod dh_p d"
  have n: "(if (len + 7) div 8 > dh_keyBytes d then (len + 7) div 8 else dh_keyBytes d) = ?n" by (simp add: max_def)
  have v: "modPow (int Y) (int (dh_private d)) (int (dh_p d)) = Ret (int ?v)"
    using modPow_value [of "int (dh_p d)" "int (dh_private d)" "int Y"] assms(2) by (simp add: zmod_int)
  have "?v < dh_p d" using assms(2) by simp
  also have "\<dots> \<le> 256 ^ ?n" using assms(3) by (rule order_trans) (simp add: power_increasing)
  finally obtain k where k: "bigIntToU8Array ?v ?n = Ret k" "u8ArrayToBigInt k = Ret ?v" "length k = ?n"
    using bigint_roundtrip [of ?n ?v] assms(4) by (auto simp: less_max_iff_disj)
  then have "dh_deriveBits pub len d = Ret k"
    using assms(1) v by (simp add: dh_deriveBits_def Let_def n)
  then show "dh_deriveBits pub len d = bigIntToU8Array ?v ?n"
    "\<exists>k. dh_deriveBits pub len d = Ret k \<and> u8ArrayToBigInt k = Ret ?v"
    using k by simp_all
qed

text \<open>C24: The two sides of a Diffie-Hellman exchange agree. Two keys made from the same generator and the
  same modulus, a number greater than one, derive the same secret from each other's public key,
  and it is the power of the generator to the product of the private keys.\<close>

theorem dh_agreement:
  assumes "dh_generateKey randomA g p = Ret a" "dh_generateKey randomB g p = Ret b"
    "u8ArrayToBigInt p = Ret P" "1 < P"
  shows "\<exists>G secret. u8ArrayToBigInt g = Ret G \<and> dh_deriveBits (dh_publicKey b) len a = Ret secret \<and>
    dh_deriveBits (dh_publicKey a) len b = Ret secret \<and>
    u8ArrayToBigInt secret = Ret (G ^ (dh_private a * dh_private b) mod P)"
proof -
  obtain G where a: "u8ArrayToBigInt g = Ret G" "dh_p a = P" "dh_keyBytes a = length p"
    "u8ArrayToBigInt (dh_publicKey a) = Ret (G ^ dh_private a mod P)"
    using dh_generateKey_Ret [OF assms(1, 3, 4)] by metis
  have b: "dh_p b = P" "dh_keyBytes b = length p" "u8ArrayToBigInt (dh_publicKey b) = Ret (G ^ dh_private b mod P)"
    using dh_generateKey_Ret [OF assms(2, 3, 4)] a(1) by (metis outcome.inject(1))+
  have P: "P \<le> 256 ^ length p" "0 < length p" using bytes_value_bound [OF assms(3)] by auto
  have e: "(G ^ dh_private b mod P) ^ dh_private a mod P = G ^ (dh_private a * dh_private b) mod P"
    "(G ^ dh_private a mod P) ^ dh_private b mod P = G ^ (dh_private a * dh_private b) mod P"
    by (simp_all add: power_mod mult.commute flip: power_mult)
  show ?thesis
    using dh_secret [OF b(3), of a len] dh_secret [OF a(4), of b len] a b P assms(4) e by auto
qed

lemma demo_keys:
  "dh_generateKey (\<lambda>n. [6]) [5] [23] = Ret \<lparr>dh_keyBytes = 1, dh_p = 23, dh_private = 6, dh_publicKey = [8]\<rparr>"
  "dh_generateKey (\<lambda>n. [15]) [5] [23] = Ret \<lparr>dh_keyBytes = 1, dh_p = 23, dh_private = 15, dh_publicKey = [19]\<rparr>"
  "u8ArrayToBigInt [23] = Ret 23"
  by code_simp+

theorem dh_agreement_witness:
  "\<exists>secret. dh_deriveBits [19] 8 \<lparr>dh_keyBytes = 1, dh_p = 23, dh_private = 6, dh_publicKey = [8]\<rparr> = Ret secret \<and>
    dh_deriveBits [8] 8 \<lparr>dh_keyBytes = 1, dh_p = 23, dh_private = 15, dh_publicKey = [19]\<rparr> = Ret secret"
  using dh_agreement [OF demo_keys, of 8] by auto

section \<open>DES\<close>

lemma drop_push_bit:
  fixes x :: "32 word"
  assumes "\<And>n. bit x n \<Longrightarrow> n + k < 32"
  shows "drop_bit k (push_bit k x) = x"
proof (rule bit_word_eqI)
  fix n
  assume "n < LENGTH(32)"
  show "bit (drop_bit k (push_bit k x)) n = bit x n"
    using assms [of n] by (auto simp: bit_drop_bit_eq bit_push_bit_iff possible_bit_word add.commute)
qed

lemma swap_bits_involution:
  assumes "\<And>n. bit m n \<Longrightarrow> n + k < 32"
  shows "swap_bits k m (swap_bits k m lr) = lr"
proof (cases lr)
  case (Pair l r)
  define x where "x = (drop_bit k l XOR r) AND m"
  have "drop_bit k (push_bit k x) = x"
    by (rule drop_push_bit) (simp add: x_def bit_and_iff assms)
  then have x: "drop_bit k (l XOR push_bit k x) XOR (r XOR x) = drop_bit k l XOR r"
    by (simp add: drop_bit_xor xor.assoc) (simp add: xor.left_commute)
  have "swap_bits k m (l, r) = (l XOR push_bit k x, r XOR x)"
    unfolding swap_bits_def x_def by (simp only: prod.case Let_def)
  moreover have "swap_bits k m (l XOR push_bit k x, r XOR x) = ((l XOR push_bit k x) XOR push_bit k x, (r XOR x) XOR x)"
    unfolding swap_bits_def prod.case Let_def x unfolding x_def ..
  ultimately show ?thesis unfolding Pair by (simp add: xor.assoc)
qed

lemma swap_bits_0: "swap_bits 0 m (prod.swap lr) = prod.swap (swap_bits 0 m lr)"
  by (cases lr) (simp add: swap_bits_def Let_def xor.commute)

lemma bit_rol1: "n < 32 \<Longrightarrow> bit (rol1 x) n = bit x (if n = 0 then 31 else n - 1)"
  unfolding rol1_def bit_or_iff bit_and_iff bit_push_bit_iff bit_drop_bit_eq by (auto simp: bit_1_iff)

lemma bit_ror1: "n < 32 \<Longrightarrow> bit (ror1 x) n = bit x (if n = 31 then 0 else n + 1)"
  unfolding ror1_def bit_or_iff bit_push_bit_iff bit_drop_bit_eq by (auto dest: bit_imp_le_length)

lemma rol_ror: "ror1 (rol1 x) = x" "rol1 (ror1 x) = x"
  by (rule bit_word_eqI, auto simp: bit_rol1 bit_ror1)+

lemma bit_below: "take_bit j m = m \<Longrightarrow> bit m n \<Longrightarrow> n < j"
  by (metis bit_take_bit_iff)

lemma swaps_twice [simp]:
  "swap_bits 4 0x0f0f0f0f (swap_bits 4 0x0f0f0f0f lr) = lr" "swap_bits 16 0x0000ffff (swap_bits 16 0x0000ffff lr) = lr"
  "swap_bits 2 0x33333333 (swap_bits 2 0x33333333 lr) = lr" "swap_bits 8 0x00ff00ff (swap_bits 8 0x00ff00ff lr) = lr"
  "swap_bits 0 0xaaaaaaaa (swap_bits 0 0xaaaaaaaa lr) = lr"
proof -
  have "take_bit 28 (0x0f0f0f0f :: 32 word) = 0x0f0f0f0f" "take_bit 16 (0x0000ffff :: 32 word) = 0x0000ffff"
    "take_bit 30 (0x33333333 :: 32 word) = 0x33333333" "take_bit 24 (0x00ff00ff :: 32 word) = 0x00ff00ff"
    "take_bit 32 (0xaaaaaaaa :: 32 word) = 0xaaaaaaaa"
    by simp_all
  note below = this [THEN bit_below]
  show "swap_bits 4 0x0f0f0f0f (swap_bits 4 0x0f0f0f0f lr) = lr"
    by (rule swap_bits_involution) (drule below(1), simp)
  show "swap_bits 16 0x0000ffff (swap_bits 16 0x0000ffff lr) = lr"
    by (rule swap_bits_involution) (drule below(2), simp)
  show "swap_bits 2 0x33333333 (swap_bits 2 0x33333333 lr) = lr"
    by (rule swap_bits_involution) (drule below(3), simp)
  show "swap_bits 8 0x00ff00ff (swap_bits 8 0x00ff00ff lr) = lr"
    by (rule swap_bits_involution) (drule below(4), simp)
  show "swap_bits 0 0xaaaaaaaa (swap_bits 0 0xaaaaaaaa lr) = lr"
    by (rule swap_bits_involution) (drule below(5), simp)
qed

text \<open>The steps of the two permutations: the exchanges, and the turn by one bit between them.\<close>

definition ip_swaps :: "32 word \<times> 32 word \<Rightarrow> 32 word \<times> 32 word" where
  "ip_swaps lr = on_swapped (swap_bits 8 0x00ff00ff) (on_swapped (swap_bits 2 0x33333333)
     (swap_bits 16 0x0000ffff (swap_bits 4 0x0f0f0f0f lr)))"

definition fp_swaps :: "32 word \<times> 32 word \<Rightarrow> 32 word \<times> 32 word" where
  "fp_swaps lr = on_swapped (swap_bits 4 0x0f0f0f0f) (on_swapped (swap_bits 16 0x0000ffff)
     (swap_bits 2 0x33333333 (swap_bits 8 0x00ff00ff lr)))"

definition ip_turn :: "32 word \<times> 32 word \<Rightarrow> 32 word \<times> 32 word" where
  "ip_turn lr = (case swap_bits 0 0xaaaaaaaa (fst lr, rol1 (snd lr)) of (l, r) \<Rightarrow> (rol1 l, r))"

definition fp_turn :: "32 word \<times> 32 word \<Rightarrow> 32 word \<times> 32 word" where
  "fp_turn lr = (case swap_bits 0 0xaaaaaaaa (fst lr, ror1 (snd lr)) of (l, r) \<Rightarrow> (ror1 l, r))"

lemma des_initial_steps: "des_initial lr = ip_turn (ip_swaps lr)"
  by (simp add: des_initial_def ip_turn_def ip_swaps_def Let_def split_beta)

lemma des_final_steps: "des_final lr = fp_swaps (fp_turn lr)"
  by (simp add: des_final_def fp_turn_def fp_swaps_def Let_def split_beta)

lemma swaps_undo: "fp_swaps (prod.swap (ip_swaps lr)) = prod.swap lr" "ip_swaps (prod.swap (fp_swaps lr)) = prod.swap lr"
  by (simp_all add: fp_swaps_def ip_swaps_def on_swapped_def)

lemma turns_undo: "fp_turn (prod.swap (ip_turn lr)) = prod.swap lr" "ip_turn (prod.swap (fp_turn lr)) = prod.swap lr"
proof -
  have sw: "swap_bits 0 m (r, l) = prod.swap (swap_bits 0 m (l, r))" for m l r
    using swap_bits_0 [of m "(l, r)"] by simp
  show "fp_turn (prod.swap (ip_turn lr)) = prod.swap lr"
  proof -
    obtain a b where ab: "swap_bits 0 0xaaaaaaaa (fst lr, rol1 (snd lr)) = (a, b)" by fastforce
    then have "swap_bits 0 0xaaaaaaaa (a, b) = (fst lr, rol1 (snd lr))" by (metis swaps_twice(5))
    then show ?thesis using ab sw [of _ b a] by (simp add: ip_turn_def fp_turn_def rol_ror prod.swap_def)
  qed
  show "ip_turn (prod.swap (fp_turn lr)) = prod.swap lr"
  proof -
    obtain a b where ab: "swap_bits 0 0xaaaaaaaa (fst lr, ror1 (snd lr)) = (a, b)" by fastforce
    then have "swap_bits 0 0xaaaaaaaa (a, b) = (fst lr, ror1 (snd lr))" by (metis swaps_twice(5))
    then show ?thesis using ab sw [of _ b a] by (simp add: ip_turn_def fp_turn_def rol_ror prod.swap_def)
  qed
qed

lemma permutations_undo:
  "des_final (prod.swap (des_initial lr)) = prod.swap lr" "des_initial (prod.swap (des_final lr)) = prod.swap lr"
  by (simp_all add: des_initial_steps des_final_steps turns_undo swaps_undo)

fun rev_pairs :: "'a list \<Rightarrow> 'a list" where
  "rev_pairs (a # b # ks) = rev_pairs ks @ [a, b]"
| "rev_pairs ks = ks"

lemma length_rev_pairs [simp]: "length (rev_pairs ks) = length ks"
  by (induction ks rule: rev_pairs.induct) simp_all

lemma des_rounds_append: "length as mod 4 = 0 \<Longrightarrow> des_rounds (as @ bs) lr = des_rounds bs (des_rounds as lr)"
  by (induction as lr rule: des_rounds.induct) (simp_all add: Let_def)

lemma des_rounds_undo:
  "length ks mod 4 = 0 \<Longrightarrow> des_rounds (rev_pairs ks) (prod.swap (des_rounds ks lr)) = prod.swap lr"
proof (induction ks lr rule: des_rounds.induct)
  case (1 k0 k1 k2 k3 ks l r)
  then have "des_rounds (rev_pairs ks) (prod.swap (des_rounds ks (l XOR des_f r k0 k1,
      r XOR des_f (l XOR des_f r k0 k1) k2 k3))) =
      (r XOR des_f (l XOR des_f r k0 k1) k2 k3, l XOR des_f r k0 k1)" by (simp add: Let_def)
  then show ?case using 1(2) by (simp add: des_rounds_append Let_def xor.assoc)
qed (simp_all split: list.splits)

lemma spread_bytes: "spread x = [ucast (drop_bit 24 x), ucast (drop_bit 16 x), ucast (drop_bit 8 x), ucast x]"
  by (simp add: spread_def upt_rec)

lemma squash_bytes:
  "squash (a # b # c # d # bs) 0 = push_bit 24 (ucast a) OR push_bit 16 (ucast b) OR push_bit 8 (ucast c) OR ucast d"
  "squash (a0 # a1 # a2 # a3 # a # b # c # d # bs) 4 =
    push_bit 24 (ucast a) OR push_bit 16 (ucast b) OR push_bit 8 (ucast c) OR ucast d"
  by (simp_all add: squash_def byte_at_def u8_at_def numeral_eq_Suc)

lemma squash_word:
  fixes x :: "32 word"
  shows "push_bit 24 (ucast (ucast (drop_bit 24 x) :: byte)) OR push_bit 16 (ucast (ucast (drop_bit 16 x) :: byte)) OR
    push_bit 8 (ucast (ucast (drop_bit 8 x) :: byte)) OR ucast (ucast x :: byte) = x"
proof (rule bit_word_eqI, goal_cases)
  case (1 n)
  then have "n < 8 \<or> 8 \<le> n \<and> n < 16 \<or> 16 \<le> n \<and> n < 24 \<or> 24 \<le> n \<and> n < 32" by simp arith
  then show ?case
    unfolding bit_or_iff bit_push_bit_iff bit_ucast_iff bit_drop_bit_eq possible_bit_word by (elim disjE) auto
qed

lemma spread_word:
  fixes a b c d :: byte
  defines "x \<equiv> push_bit 24 (ucast a) OR push_bit 16 (ucast b) OR push_bit 8 (ucast c) OR ucast d :: 32 word"
  shows "spread x = [a, b, c, d]"
proof -
  have "(ucast (drop_bit 24 x) :: byte) = a" "(ucast (drop_bit 16 x) :: byte) = b"
    "(ucast (drop_bit 8 x) :: byte) = c" "(ucast x :: byte) = d"
    by (rule bit_word_eqI; unfold x_def bit_or_iff bit_push_bit_iff bit_ucast_iff bit_drop_bit_eq possible_bit_word;
        auto dest: bit_imp_le_length)+
  then show ?thesis by (simp add: spread_bytes)
qed

lemma squash_spread: "squash (spread x @ spread y) 0 = x" "squash (spread x @ spread y) 4 = y"
  by (simp_all add: spread_bytes squash_bytes squash_word)

lemma spread_squash: "length bs = 8 \<Longrightarrow> spread (squash bs 0) @ spread (squash bs 4) = bs"
proof -
  assume "length bs = 8"
  then obtain a b c d e f g h where bs: "bs = [a, b, c, d, e, f, g, h]"
    by (auto simp: length_Suc_conv numeral_eq_Suc)
  show ?thesis unfolding bs squash_bytes spread_word by simp
qed

lemma length_des_keys: "length (des_keys pw) = 32"
  by (simp add: des_keys_def cook_def length_concat comp_def Let_def sum_list_triv)

text \<open>C27: DES loses nothing. The block function with the round keys in reverse order undoes the block
  function, for every password and every block of eight bytes; in particular the final permutation
  undoes the initial one.\<close>

theorem des_block_invertible:
  assumes "length text = 8"
  shows "enc8 (rev_pairs (des_keys pw)) (enc8 (des_keys pw) text) = text"
proof -
  let ?ks = "des_keys pw" and ?lr = "(squash text 0, squash text 4)"
  obtain l r where lr: "des_final (des_rounds ?ks (des_initial ?lr)) = (l, r)" by fastforce
  then have enc: "enc8 ?ks text = spread r @ spread l" by (simp add: enc8_def)
  have "des_initial (r, l) = prod.swap (des_rounds ?ks (des_initial ?lr))"
    using permutations_undo(2) [of "des_rounds ?ks (des_initial ?lr)"] lr by simp
  then have "des_final (des_rounds (rev_pairs ?ks) (des_initial (r, l))) = prod.swap ?lr"
    using des_rounds_undo [of ?ks "des_initial ?lr"] length_des_keys permutations_undo(1) by simp
  then show ?thesis
    using spread_squash [OF assms] by (simp add: enc8_def [of "rev_pairs ?ks"] enc squash_spread)
qed

theorem des_block_invertible_witness:
  "enc8 (rev_pairs (des_keys [115, 101, 99])) (enc8 (des_keys [115, 101, 99]) [1, 2, 3, 4, 5, 6, 7, 8]) =
    [1, 2, 3, 4, 5, 6, 7, 8]"
  by (rule des_block_invertible) simp

end
