(* ===== verification/Zrle.thy ===== *)
theory Zrle
  imports Hextile
begin

text \<open>
  The wrapper around the zlib decompressor, \<open>core/inflator.js\<close>, and the ZRLE decoder,
  \<open>core/decoders/zrle.js\<close>. The decompressor itself is a third-party package: it is a parameter,
  a record of the three entry points that are called. \<open>zinflate\<close> takes the stream, the input
  left and the room for output, and returns the status, the output, the input left and the stream.
\<close>

section \<open>Inflator\<close>

record 'z zlib =
  zinit :: 'z
  zinflate :: "'z \<Rightarrow> bytes \<Rightarrow> nat \<Rightarrow> int \<times> bytes \<times> bytes \<times> 'z"
  zreset :: "'z \<Rightarrow> 'z"

record 'z inflator =
  strm :: 'z
  zinput :: bytes
  chunkSize :: nat

definition new_inflator :: "'z zlib \<Rightarrow> 'z inflator" where
  "new_inflator Z = \<lparr>strm = zinit Z, zinput = [], chunkSize = 1024 * 10 * 10\<rparr>"

fun setInput :: "bytes option \<Rightarrow> 'z inflator \<Rightarrow> 'z inflator" where
  "setInput None i = i\<lparr>zinput := []\<rparr>"
| "setInput (Some data) i = i\<lparr>zinput := data\<rparr>"

definition inflate :: "'z zlib \<Rightarrow> nat \<Rightarrow> 'z inflator \<Rightarrow> bytes outcome \<times> 'z inflator" where
  "inflate Z expected i =
     (let i1 = (if expected > chunkSize i then i\<lparr>chunkSize := expected\<rparr> else i);
          (ret, out, rest, st) = zinflate Z (strm i1) (zinput i1) expected;
          i2 = i1\<lparr>strm := st, zinput := rest\<rparr>
      in if ret < 0 then (Throw (ErrorMsg ''zlib inflate failed''), i2)
         else if length out \<noteq> expected then (Throw (ErrorMsg ''Incomplete zlib block''), i2)
         else (Ret out, i2))"

definition inflator_reset :: "'z zlib \<Rightarrow> 'z inflator \<Rightarrow> 'z inflator" where
  "inflator_reset Z i = i\<lparr>strm := zreset Z (strm i)\<rparr>"

section \<open>ZRLE\<close>

definition ZRLE_TILE_WIDTH :: int where "ZRLE_TILE_WIDTH = 64"
definition ZRLE_TILE_HEIGHT :: int where "ZRLE_TILE_HEIGHT = 64"

record 'z zrle =
  zlength :: nat
  zinflator :: "'z inflator"
  pixelBuffer :: bytes
  ztileBuffer :: bytes

definition new_zrle :: "'z zlib \<Rightarrow> 'z zrle" where
  "new_zrle Z = \<lparr>zlength = 0, zinflator = new_inflator Z,
     pixelBuffer = u8_new (nat (ZRLE_TILE_WIDTH * ZRLE_TILE_HEIGHT * 4)),
     ztileBuffer = u8_new (nat (ZRLE_TILE_WIDTH * ZRLE_TILE_HEIGHT * 4))\<rparr>"

definition zinflate_n :: "'z zlib \<Rightarrow> nat \<Rightarrow> 'z zrle \<Rightarrow> bytes outcome \<times> 'z zrle" where
  "zinflate_n Z n z =
     (case inflate Z n (zinflator z) of (r, i) \<Rightarrow> (r, z\<lparr>zinflator := i\<rparr>))"

definition zinflate_1 :: "'z zlib \<Rightarrow> 'z zrle \<Rightarrow> int outcome \<times> 'z zrle" where
  "zinflate_1 Z z = andthen (zinflate_n Z 1 z) (\<lambda>bs z. (Ret (uint (bs ! 0)), z))"

definition getBitsPerPixelInPalette :: "int \<Rightarrow> int option" where
  "getBitsPerPixelInPalette paletteSize =
     (if paletteSize \<le> 2 then Some 1 else if paletteSize \<le> 4 then Some 2
      else if paletteSize \<le> 16 then Some 4 else None)"

text \<open>Copying three bytes per pixel and adding the alpha; the result is the decoder's own
  buffer.\<close>

definition add_alpha :: "nat \<Rightarrow> bytes \<Rightarrow> bytes \<Rightarrow> bytes" where
  "add_alpha pixels buf data =
     fold (\<lambda>k a. a[k * 4 := buf ! (k * 3), k * 4 + 1 := buf ! (k * 3 + 1),
                   k * 4 + 2 := buf ! (k * 3 + 2), k * 4 + 3 := 255]) [0..<pixels] data"

definition readPixels :: "'z zlib \<Rightarrow> nat \<Rightarrow> 'z zrle \<Rightarrow> bytes outcome \<times> 'z zrle" where
  "readPixels Z pixels z =
     andthen (zinflate_n Z (3 * pixels) z)
       (\<lambda>buf z. let z1 = z\<lparr>pixelBuffer := add_alpha pixels buf (pixelBuffer z)\<rparr>
                in (Ret (pixelBuffer z1), z1))"

text \<open>Storing the palette entry \<open>idx\<close> as pixel \<open>k\<close>; the tile and palette buffers are larger than
  any tile and palette, a store outside has no effect and a read outside gives 0.\<close>

definition set_from :: "bytes \<Rightarrow> int \<Rightarrow> nat \<Rightarrow> bytes \<Rightarrow> bytes" where
  "set_from palette idx k a =
     (let p = nat (idx * 4); v = (\<lambda>i. u8 (undef0 (u8_at palette (p + i))))
      in a[k * 4 := v 0, k * 4 + 1 := v 1, k * 4 + 2 := v 2, k * 4 + 3 := v 3])"

text \<open>A row of a palette tile: \<open>n\<close> pixels are still to come, \<open>shift\<close> is the position of the next
  one in the byte \<open>encoded\<close>.\<close>

primrec palette_row ::
  "nat \<Rightarrow> 'z zlib \<Rightarrow> int \<Rightarrow> bytes \<Rightarrow> int \<Rightarrow> nat \<times> int \<Rightarrow> 'z zrle \<Rightarrow> (int \<times> nat \<times> int) outcome \<times> 'z zrle" where
  "palette_row 0 Z bpp palette shift oe z = (Ret (shift, oe), z)"
| "palette_row (Suc n) Z bpp palette shift oe z =
     andthen (if shift < 0
              then andthen (zinflate_1 Z z) (\<lambda>b z. (Ret (8 - bpp, b), z))
              else (Ret (shift, snd oe), z))
       (\<lambda>(shift, encoded) z.
          let idx = js_and (js_sar encoded (nat shift)) (js_shl 1 (nat bpp) - 1);
              z1 = z\<lparr>ztileBuffer := set_from palette idx (fst oe) (ztileBuffer z)\<rparr>
          in palette_row n Z bpp palette (shift - bpp) (fst oe + 1, encoded) z1)"

primrec palette_rows ::
  "nat \<Rightarrow> 'z zlib \<Rightarrow> int \<Rightarrow> bytes \<Rightarrow> nat \<Rightarrow> nat \<times> int \<Rightarrow> 'z zrle \<Rightarrow> unit outcome \<times> 'z zrle" where
  "palette_rows 0 Z bpp palette tilew oe z = (Ret (), z)"
| "palette_rows (Suc n) Z bpp palette tilew oe z =
     andthen (palette_row tilew Z bpp palette (8 - bpp) oe z)
       (\<lambda>(shift, offset, encoded) z.
          andthen (if shift < 8 - bpp \<and> n > 0 then zinflate_1 Z z else (Ret encoded, z))
            (\<lambda>encoded z. palette_rows n Z bpp palette tilew (offset, encoded) z))"

text \<open>The palette has at most 16 colours here, so the number of bits is defined.\<close>

definition decodePaletteTile ::
  "'z zlib \<Rightarrow> nat \<Rightarrow> nat \<Rightarrow> nat \<Rightarrow> 'z zrle \<Rightarrow> bytes outcome \<times> 'z zrle" where
  "decodePaletteTile Z paletteSize tilew tileh z =
     andthen (readPixels Z paletteSize z)
       (\<lambda>palette z.
          let bpp = (case getBitsPerPixelInPalette (int paletteSize) of Some b \<Rightarrow> b | None \<Rightarrow> 0)
          in andthen (zinflate_1 Z z)
               (\<lambda>encoded z. andthen (palette_rows tileh Z bpp palette tilew (0, encoded) z)
                 (\<lambda>_ z. (Ret (ztileBuffer z), z))))"

partial_function (option) readRLE_loop ::
  "'z zlib \<Rightarrow> int \<Rightarrow> 'z zrle \<Rightarrow> (int outcome \<times> 'z zrle) option" where
  "readRLE_loop Z len z =
     (case zinflate_1 Z z of
        (Ret current, z1) \<Rightarrow>
          if current = 255 then readRLE_loop Z (len + current) z1
          else Some (Ret (len + current + 1), z1)
      | (Throw e, z1) \<Rightarrow> Some (Throw e, z1)
      | (Hang, z1) \<Rightarrow> Some (Hang, z1))"

definition readRLELength :: "'z zlib \<Rightarrow> 'z zrle \<Rightarrow> int outcome \<times> 'z zrle" where
  "readRLELength Z z = (case readRLE_loop Z 0 z of None \<Rightarrow> (Hang, z) | Some r \<Rightarrow> r)"

text \<open>A run always has a positive length, so the loops below run at most once for each pixel of
  the tile that is left: that is their fuel.\<close>

primrec rle_loop :: "nat \<Rightarrow> 'z zlib \<Rightarrow> nat \<Rightarrow> nat \<Rightarrow> 'z zrle \<Rightarrow> unit outcome \<times> 'z zrle" where
  "rle_loop 0 Z tileSize i z = (if i < tileSize then (Hang, z) else (Ret (), z))"
| "rle_loop (Suc fuel) Z tileSize i z =
     (if i < tileSize then
        andthen (readPixels Z 1 z)
          (\<lambda>pixel z. andthen (readRLELength Z z)
            (\<lambda>len z. rle_loop fuel Z tileSize (i + nat len)
               (z\<lparr>ztileBuffer := fold (set_from pixel 0) [i..<i + nat len] (ztileBuffer z)\<rparr>)))
      else (Ret (), z))"

definition decodeRLETile :: "'z zlib \<Rightarrow> nat \<Rightarrow> 'z zrle \<Rightarrow> bytes outcome \<times> 'z zrle" where
  "decodeRLETile Z tileSize z =
     andthen (rle_loop tileSize Z tileSize 0 z) (\<lambda>_ z. (Ret (ztileBuffer z), z))"

primrec rle_palette_loop ::
  "nat \<Rightarrow> 'z zlib \<Rightarrow> int \<Rightarrow> bytes \<Rightarrow> nat \<Rightarrow> nat \<Rightarrow> 'z zrle \<Rightarrow> unit outcome \<times> 'z zrle" where
  "rle_palette_loop 0 Z paletteSize palette tileSize offset z =
     (if offset < tileSize then (Hang, z) else (Ret (), z))"
| "rle_palette_loop (Suc fuel) Z paletteSize palette tileSize offset z =
     (if offset < tileSize then
        andthen (zinflate_1 Z z)
          (\<lambda>b z. andthen (if b \<ge> 128 then andthen (readRLELength Z z) (\<lambda>len z. (Ret (b - 128, len), z))
                          else (Ret (b, 1), z))
            (\<lambda>(indexInPalette, len) z.
               if indexInPalette > paletteSize then (Throw (ErrorMsg ''Too big index in palette''), z)
               else if int offset + len > int tileSize
               then (Throw (ErrorMsg ''Too big rle length in palette mode''), z)
               else rle_palette_loop fuel Z paletteSize palette tileSize (offset + nat len)
                      (z\<lparr>ztileBuffer := fold (set_from palette indexInPalette) [offset..<offset + nat len]
                           (ztileBuffer z)\<rparr>)))
      else (Ret (), z))"

definition decodeRLEPaletteTile :: "'z zlib \<Rightarrow> int \<Rightarrow> nat \<Rightarrow> 'z zrle \<Rightarrow> bytes outcome \<times> 'z zrle" where
  "decodeRLEPaletteTile Z paletteSize tileSize z =
     andthen (readPixels Z (nat paletteSize) z)
       (\<lambda>palette z. andthen (rle_palette_loop tileSize Z paletteSize palette tileSize 0 z)
         (\<lambda>_ z. (Ret (ztileBuffer z), z)))"

definition zblit ::
  "int \<Rightarrow> int \<Rightarrow> int \<Rightarrow> int \<Rightarrow> display \<Rightarrow> bytes outcome \<times> 'z zrle \<Rightarrow> unit outcome \<times> 'z zrle \<times> display" where
  "zblit tx ty tw th disp r =
     (case r of
        (Ret data, z) \<Rightarrow> (case blitImage tx ty tw th (whole data) 0 disp of (q, d) \<Rightarrow> (q, z, d))
      | (Throw e, z) \<Rightarrow> (Throw e, z, disp)
      | (Hang, z) \<Rightarrow> (Hang, z, disp))"

definition zrle_tile ::
  "'z zlib \<Rightarrow> int \<Rightarrow> int \<Rightarrow> int \<Rightarrow> int \<Rightarrow> 'z zrle \<times> display \<Rightarrow> unit outcome \<times> 'z zrle \<times> display" where
  "zrle_tile Z tx ty tw th c =
     (let (z, disp) = c; tileSize = nat (tw * th)
      in case zinflate_1 Z z of
           (Throw e, z) \<Rightarrow> (Throw e, z, disp)
         | (Hang, z) \<Rightarrow> (Hang, z, disp)
         | (Ret subencoding, z) \<Rightarrow>
             if subencoding = 0 then zblit tx ty tw th disp (readPixels Z tileSize z)
             else if subencoding = 1 then
               (case readPixels Z 1 z of
                  (Ret bg, z) \<Rightarrow> (Ret (), z, fillRect tx ty tw th [byte_at bg 0, byte_at bg 1, byte_at bg 2] disp)
                | (Throw e, z) \<Rightarrow> (Throw e, z, disp)
                | (Hang, z) \<Rightarrow> (Hang, z, disp))
             else if 2 \<le> subencoding \<and> subencoding \<le> 16 then
               zblit tx ty tw th disp (decodePaletteTile Z (nat subencoding) (nat tw) (nat th) z)
             else if subencoding = 128 then zblit tx ty tw th disp (decodeRLETile Z tileSize z)
             else if 130 \<le> subencoding \<and> subencoding \<le> 255 then
               zblit tx ty tw th disp (decodeRLEPaletteTile Z (subencoding - 128) tileSize z)
             else (Throw (ErrorMsg ''Unknown subencoding''), z, disp))"

text \<open>The positions of the tiles along one axis, and the tiles row by row.\<close>

definition tile_starts :: "int \<Rightarrow> int \<Rightarrow> int \<Rightarrow> int list" where
  "tile_starts v n step = map (\<lambda>k. v + int k * step) [0..<nat ((n + step - 1) div step)]"

definition zrle_tiles :: "int \<Rightarrow> int \<Rightarrow> int \<Rightarrow> int \<Rightarrow> (int \<times> int \<times> int \<times> int) list" where
  "zrle_tiles x y width height =
     concat (map (\<lambda>ty. map (\<lambda>tx. (tx, ty, min ZRLE_TILE_WIDTH (x + width - tx), min ZRLE_TILE_HEIGHT (y + height - ty)))
       (tile_starts x width ZRLE_TILE_WIDTH)) (tile_starts y height ZRLE_TILE_HEIGHT))"

fun zrle_loop ::
  "'z zlib \<Rightarrow> (int \<times> int \<times> int \<times> int) list \<Rightarrow> 'z zrle \<times> display \<Rightarrow> unit outcome \<times> 'z zrle \<times> display" where
  "zrle_loop Z [] c = (Ret (), c)"
| "zrle_loop Z ((tx, ty, tw, th) # ts) c =
     andthen (zrle_tile Z tx ty tw th c) (\<lambda>_ c. zrle_loop Z ts c)"

definition zrle_decodeRect ::
  "'z zlib \<Rightarrow> int \<Rightarrow> int \<Rightarrow> int \<Rightarrow> int \<Rightarrow> 'z zrle \<times> display \<Rightarrow> websock \<Rightarrow> ('z zrle \<times> display) decoded" where
  "zrle_decodeRect Z x y width height c sock =
     (let (z, disp) = c in
      if zlength z = 0 \<and> rQlacks 4 sock then (Ret False, c, sock)
      else
        let (z1, s1) = (if zlength z = 0
                        then (case rQshift32 sock of (n, s) \<Rightarrow> (z\<lparr>zlength := nat n\<rparr>, s))
                        else (z, sock))
        in if rQlacks (zlength z1) s1 then (Ret False, (z1, disp), s1)
           else
             let (data, s2) = rQshiftBytes (zlength z1) s1;
                 z2 = z1\<lparr>zinflator := setInput (Some data) (zinflator z1)\<rparr>
             in case zrle_loop Z (zrle_tiles x y width height) (z2, disp) of
                  (Ret _, (z3, disp3)) \<Rightarrow> (Ret True, (z3\<lparr>zlength := 0\<rparr>, disp3), s2)
                | (Throw e, c3) \<Rightarrow> (Throw e, c3, s2)
                | (Hang, c3) \<Rightarrow> (Hang, c3, s2))"

section \<open>The machine of ZRLE\<close>

definition zrle_finish ::
  "'z zlib \<Rightarrow> int \<Rightarrow> int \<Rightarrow> int \<Rightarrow> int \<Rightarrow> bytes \<Rightarrow> nat \<Rightarrow> 'z zrle \<times> display \<Rightarrow> ('z zrle \<times> display) move" where
  "zrle_finish Z x y w h data k c =
     (case zrle_loop Z (zrle_tiles x y w h)
        ((fst c)\<lparr>zinflator := setInput (Some data) (zinflator (fst c))\<rparr>, snd c) of
        (Ret _, (z, d)) \<Rightarrow> Done (z\<lparr>zlength := 0\<rparr>, d) k
      | (Throw e, c') \<Rightarrow> Fail (Some e) c' k
      | (Hang, c') \<Rightarrow> Fail None c' k)"

definition zrle_machine ::
  "'z zlib \<Rightarrow> int \<Rightarrow> int \<Rightarrow> int \<Rightarrow> int \<Rightarrow> 'z zrle \<times> display \<Rightarrow> bytes \<Rightarrow> ('z zrle \<times> display) move" where
  "zrle_machine Z x y w h c bs =
     (if zlength (fst c) = 0 then
        if length bs < 4 then Wait
        else let n = nat (be_num (take 4 bs)); c1 = ((fst c)\<lparr>zlength := n\<rparr>, snd c)
             in if n = 0 then zrle_finish Z x y w h [] 4 c1 else Step c1 4
      else let n = zlength (fst c) in
        if length bs < n then Wait else zrle_finish Z x y w h (take n bs) n c)"

lemma zrle_finish_cases:
  obtains c' where "zrle_finish Z x y w h data k c = Done c' k"
  | e c' where "zrle_finish Z x y w h data k c = Fail e c' k"
proof -
  obtain r c' where "zrle_loop Z (zrle_tiles x y w h)
      ((fst c)\<lparr>zinflator := setInput (Some data) (zinflator (fst c))\<rparr>, snd c) = (r, c')"
    by (rule prod.exhaust)
  with that show ?thesis by (cases r; cases c') (simp_all add: zrle_finish_def)
qed

definition zrle_final ::
  "'z zlib \<Rightarrow> int \<Rightarrow> int \<Rightarrow> int \<Rightarrow> int \<Rightarrow> 'z zrle \<times> display \<Rightarrow> websock \<Rightarrow> ('z zrle \<times> display) decoded" where
  "zrle_final Z x y w h c s =
     (let (data, s2) = rQshiftBytes (zlength (fst c)) s
      in case zrle_loop Z (zrle_tiles x y w h)
           ((fst c)\<lparr>zinflator := setInput (Some data) (zinflator (fst c))\<rparr>, snd c) of
           (Ret _, (z3, disp3)) \<Rightarrow> (Ret True, (z3\<lparr>zlength := 0\<rparr>, disp3), s2)
         | (Throw e, c3) \<Rightarrow> (Throw e, c3, s2)
         | (Hang, c3) \<Rightarrow> (Hang, c3, s2))"

lemma zrle_final_agrees:
  assumes "wf_recv s" "zlength (fst c) \<le> length (unread s)" "data = take (zlength (fst c)) (unread s)"
    and "r = drop (zlength (fst c)) (unread s)" "r = drop k bs"
  shows "agrees (case zrle_finish Z x y w h data k c of Done c' k' \<Rightarrow> Finished c' (drop k' bs)
      | Fail e c' k' \<Rightarrow> Failed e c' (drop k' bs) | _ \<Rightarrow> More c bs) (zrle_final Z x y w h c s)"
  using assms
  by (auto simp: zrle_finish_def zrle_final_def Let_def rQshiftBytes_reads wf_rQskipBytes
      unread_rQskipBytes split: prod.splits outcome.splits)

lemma zrle_decodeRect_eq:
  "zrle_decodeRect Z x y w h c s =
    (if zlength (fst c) = 0 then
       if rQlacks 4 s then (Ret False, c, s)
       else let (n, s1) = rQshift32 s; c1 = ((fst c)\<lparr>zlength := nat n\<rparr>, snd c)
            in if rQlacks (nat n) s1 then (Ret False, c1, s1) else zrle_final Z x y w h c1 s1
     else if rQlacks (zlength (fst c)) s then (Ret False, c, s) else zrle_final Z x y w h c s)"
  by (cases c) (simp add: zrle_decodeRect_def zrle_final_def Let_def split: prod.split)

lemma zrle_started:
  assumes "wf_recv s" "zlength (fst c) \<noteq> 0"
  shows "agrees (run_machine (zrle_machine Z x y w h) c (unread s))
    (if rQlacks (zlength (fst c)) s then (Ret False, c, s) else zrle_final Z x y w h c s)"
proof (cases "length (unread s) < zlength (fst c)")
  case True
  then show ?thesis
    using assms by (cases c) (simp add: run_machine.simps zrle_machine_def Let_def rQlacks_unread)
next
  case False
  then have f: "agrees (case zrle_finish Z x y w h (take (zlength (fst c)) (unread s)) (zlength (fst c)) c of
      Done c' k' \<Rightarrow> Finished c' (drop k' (unread s)) | Fail e c' k' \<Rightarrow> Failed e c' (drop k' (unread s))
      | _ \<Rightarrow> More c (unread s)) (zrle_final Z x y w h c s)"
    using assms by (intro zrle_final_agrees) simp_all
  show ?thesis
    using False assms f
    by (cases rule: zrle_finish_cases [of Z x y w h "take (zlength (fst c)) (unread s)" "zlength (fst c)" c])
      (simp_all add: run_machine.simps zrle_machine_def Let_def rQlacks_unread)
qed

interpretation zrle: socket_decoder "zrle_machine Z x y w h" "\<lambda>_. True" "zrle_decodeRect Z x y w h"
proof (unfold_locales, goal_cases)
  case (1 c bs ds)
  then show ?case by (auto simp: zrle_machine_def Let_def split: if_splits)
next
  case (2 c bs c' k)
  then show ?case
    by (auto simp: zrle_machine_def zrle_finish_def Let_def split: if_splits prod.splits outcome.splits)
next
  case (3 c bs c' k e)
  then show ?case
    by (auto simp: zrle_machine_def zrle_finish_def Let_def split: if_splits prod.splits outcome.splits)
next
  case (4 c s)
  show ?case
  proof (cases "zlength (fst c) = 0")
    case False
    then show ?thesis using zrle_started [OF 4(2) False] by (simp add: zrle_decodeRect_eq)
  next
    case True
    show ?thesis
    proof (cases "length (unread s) < 4")
      case lt: True
      then show ?thesis
        using True 4 by (cases c) (simp add: run_machine.simps zrle_machine_def zrle_decodeRect_eq rQlacks_unread)
    next
      case False
      define n where "n = nat (be_num (take 4 (unread s)))"
      let ?c = "((fst c)\<lparr>zlength := n\<rparr>, snd c)" and ?s = "rQskipBytes 4 s"
      have s4: "wf_recv ?s" "unread ?s = drop 4 (unread s)" "rQshift32 s = (be_num (take 4 (unread s)), ?s)"
        using False 4 by (simp_all add: sock_simps)
      have dec: "zrle_decodeRect Z x y w h c s =
          (if rQlacks n ?s then (Ret False, ?c, ?s) else zrle_final Z x y w h ?c ?s)"
        using True False 4 s4 by (simp add: zrle_decodeRect_eq rQlacks_unread n_def)
      show ?thesis
      proof (cases "n = 0")
        case n: True
        have "agrees (case zrle_finish Z x y w h [] 4 ?c of
            Done c' k' \<Rightarrow> Finished c' (drop k' (unread s)) | Fail e c' k' \<Rightarrow> Failed e c' (drop k' (unread s))
            | _ \<Rightarrow> More ?c (unread s)) (zrle_final Z x y w h ?c ?s)"
          using s4 n by (intro zrle_final_agrees) simp_all
        then show ?thesis
          using True False n s4 dec
          by (cases rule: zrle_finish_cases [of Z x y w h "[]" 4 ?c])
            (simp_all add: run_machine.simps [of _ c] zrle_machine_def Let_def rQlacks_unread flip: n_def)
      next
        case n: False
        have "run_machine (zrle_machine Z x y w h) c (unread s) = run_machine (zrle_machine Z x y w h) ?c (unread ?s)"
          using True False n s4(2)
          by (subst run_machine.simps) (simp add: zrle_machine_def [of _ _ _ _ _ c] Let_def flip: n_def)
        then show ?thesis using zrle_started [OF s4(1), of ?c Z x y w h] n dec by simp
      qed
    qed
  qed
qed simp

section \<open>Properties\<close>

text \<open>The trivial decompressor, whose compressed form is the data itself.\<close>

definition stored_zlib :: "unit zlib" where
  "stored_zlib = \<lparr>zinit = (), zinflate = (\<lambda>st inp n. (0, take n inp, drop n inp, st)), zreset = id\<rparr>"

text \<open>C19: The result of decoding a ZRLE rectangle depends only on the bytes, not on how they were cut
  into messages: whatever the decompressor does, two receptions of the same bytes end with the same
  outcome (an exception of the decompressor or of a malformed tile included), the same decoder, the
  same display and the same bytes left to read.\<close>

theorem zrle_fragments_irrelevant:
  assumes "wf_recv s1" "wf_recv s2" "unread s1 @ concat ds1 = unread s2 @ concat ds2"
    and "length (unread s1) + length (concat ds1) \<le> MAX_RQ_GROW_SIZE"
  shows "same_result
    (feed (zrle_decodeRect Z x y w h) ds1 (zrle_decodeRect Z x y w h c s1))
    (feed (zrle_decodeRect Z x y w h) ds2 (zrle_decodeRect Z x y w h c s2))"
proof -
  let ?v = "run_machine (zrle_machine Z x y w h) c (unread s1 @ concat ds1)"
  have len: "length (unread s2) + length (concat ds2) \<le> MAX_RQ_GROW_SIZE"
    using assms(3,4) by (metis length_append)
  have "agrees ?v (feed (zrle_decodeRect Z x y w h) ds1 (zrle_decodeRect Z x y w h c s1))"
    by (rule zrle.fragments_irrelevant) (use assms in simp_all)
  moreover have "agrees ?v (feed (zrle_decodeRect Z x y w h) ds2 (zrle_decodeRect Z x y w h c s2))"
    unfolding assms(3) by (rule zrle.fragments_irrelevant) (use assms len in simp_all)
  ultimately show ?thesis by (rule agrees_same_result)
qed

theorem zrle_fragments_irrelevant_witness:
  "same_result
    (feed (zrle_decodeRect stored_zlib 0 0 2 2) [[0, 4, 1], [9, 8, 7]]
      (zrle_decodeRect stored_zlib 0 0 2 2 (new_zrle stored_zlib, demo_disp) (demo_sock\<lparr>rQ := [2, 0, 0, 0], rQi := 2\<rparr>)))
    (feed (zrle_decodeRect stored_zlib 0 0 2 2) [[0, 0, 4, 1, 9, 8, 7]]
      (zrle_decodeRect stored_zlib 0 0 2 2 (new_zrle stored_zlib, demo_disp) (demo_sock\<lparr>rQ := [2, 0, 0, 0], rQi := 3\<rparr>)))"
proof -
  let ?s = "\<lambda>i. demo_sock\<lparr>rQ := [2, 0, 0, 0], rQi := i\<rparr>"
  have "wf_recv (?s 2)" "wf_recv (?s 3)" "unread (?s 2) = [0, 0]" "unread (?s 3) = [0]"
    by (simp_all add: demo_sock_def wf_recv_def unread_def slice_def MAX_RQ_GROW_SIZE_def)
  then show ?thesis
    using zrle_fragments_irrelevant [of "?s 2" "?s 3" "[[0, 4, 1], [9, 8, 7]]"
      "[[0, 0, 4, 1, 9, 8, 7]]" stored_zlib 0 0 2 2 "(new_zrle stored_zlib, demo_disp)"]
    by (simp add: MAX_RQ_GROW_SIZE_def)
qed

end
