(* ===== verification/Tight.thy ===== *)
theory Tight
  imports Zrle
begin

text \<open>
  The Tight decoder, \<open>core/decoders/tight.js\<close>, and its TightPNG variant,
  \<open>core/decoders/tightpng.js\<close>. The decoder keeps what
  it has read of a rectangle in its own fields and asks for the rest when more bytes have come.
  The operations return the value, the decoder with the display, and the socket.
\<close>

section \<open>The Tight decoder\<close>

record 'z tight =
  ctl :: "int option"
  tfilter :: "int option"
  numColors :: nat
  palette :: bytes
  tlen :: nat
  zlibs :: "'z inflator list"
  scratchBuffer :: "bytes option"

definition new_tight :: "'z zlib \<Rightarrow> 'z tight" where
  "new_tight Z = \<lparr>ctl = None, tfilter = None, numColors = 0, palette = u8_new 1024, tlen = 0,
     zlibs = replicate 4 (new_inflator Z), scratchBuffer = None\<rparr>"

type_synonym 'z tight_st = "('z tight \<times> display) \<times> websock"
type_synonym ('a, 'z) tight_op = "'z tight_st \<Rightarrow> 'a outcome \<times> 'z tight_st"

definition on_tight :: "('z tight \<Rightarrow> 'z tight) \<Rightarrow> 'z tight_st \<Rightarrow> 'z tight_st" where
  "on_tight f st = (case st of ((t, d), s) \<Rightarrow> ((f t, d), s))"

definition on_display :: "(display \<Rightarrow> 'a outcome \<times> display) \<Rightarrow> ('a, 'z) tight_op" where
  "on_display f st = (case st of ((t, d), s) \<Rightarrow> (case f d of (r, d') \<Rightarrow> (r, (t, d'), s)))"

text \<open>\<open>_readData\<close>: \<open>null\<close> is \<open>None\<close>. The length is a number of one, two or three bytes.\<close>

definition tight_length :: "websock \<Rightarrow> int \<times> websock" where
  "tight_length sock =
     (let (b0, s0) = rQshift8 sock; len = js_and b0 127
      in if js_and b0 128 \<noteq> 0 then
           let (b1, s1) = rQshift8 s0; len = js_or len (js_shl (js_and b1 127) 7)
           in if js_and b1 128 \<noteq> 0 then
                let (b2, s2) = rQshift8 s1 in (js_or len (js_shl b2 14), s2)
              else (len, s1)
         else (len, s0))"

definition tight_readData :: "(bytes option, 'z) tight_op" where
  "tight_readData st =
     (let ((t, d), s) = st in
      if tlen t = 0 \<and> rQlacks 3 s then (Ret None, st)
      else
        let (t1, s1) = (if tlen t = 0
                        then (case tight_length s of (n, s') \<Rightarrow> (t\<lparr>tlen := nat n\<rparr>, s'))
                        else (t, s))
        in if rQlacks (tlen t1) s1 then (Ret None, (t1, d), s1)
           else let (data, s2) = rQshiftBytes (tlen t1) s1
                in (Ret (Some data), (t1\<lparr>tlen := 0\<rparr>, d), s2))"

definition getScratchBuffer :: "nat \<Rightarrow> 'z tight \<Rightarrow> bytes \<times> 'z tight" where
  "getScratchBuffer sz t =
     (case scratchBuffer t of
        Some b \<Rightarrow> if length b < sz then (u8_new sz, t\<lparr>scratchBuffer := Some (u8_new sz)\<rparr>) else (b, t)
      | None \<Rightarrow> (u8_new sz, t\<lparr>scratchBuffer := Some (u8_new sz)\<rparr>))"

definition tight_fillRect :: "int \<Rightarrow> int \<Rightarrow> int \<Rightarrow> int \<Rightarrow> (bool, 'z) tight_op" where
  "tight_fillRect x y width height st =
     (let ((t, d), s) = st in
      if rQlacks 3 s then (Ret False, st)
      else let (pixel, s1) = rQshiftBytes 3 s
           in (Ret True, (t, fillRect x y width height (colour_of pixel) d), s1))"

definition tight_imageRect :: "string \<Rightarrow> int \<Rightarrow> int \<Rightarrow> int \<Rightarrow> int \<Rightarrow> (bool, 'z) tight_op" where
  "tight_imageRect mm x y width height st =
     andthen (tight_readData st)
       (\<lambda>data st. case data of
          None \<Rightarrow> (Ret False, st)
        | Some bs \<Rightarrow> andthen (on_display (imageRect x y width height mm bs) st) (\<lambda>_ st. (Ret True, st)))"

definition tight_jpegRect :: "int \<Rightarrow> int \<Rightarrow> int \<Rightarrow> int \<Rightarrow> (bool, 'z) tight_op" where
  "tight_jpegRect = tight_imageRect ''image/jpeg''"

definition tight_pngRect :: "int \<Rightarrow> int \<Rightarrow> int \<Rightarrow> int \<Rightarrow> (bool, 'z) tight_op" where
  "tight_pngRect x y width height st = (Throw (ErrorMsg ''PNG received in standard Tight rect''), st)"

text \<open>The data of a rectangle, as every filter reads it: short data is sent as it is, longer data
  through the compressed stream \<open>streamId\<close>. \<open>None\<close> asks for more bytes.\<close>

definition tight_data :: "'z zlib \<Rightarrow> nat \<Rightarrow> nat \<Rightarrow> (bytes option, 'z) tight_op" where
  "tight_data Z streamId uncompressedSize st =
     (if uncompressedSize < 12 then
        let ((t, d), s) = st in
        if rQlacks uncompressedSize s then (Ret None, st)
        else let (data, s1) = rQshiftBytes uncompressedSize s in (Ret (Some data), (t, d), s1)
      else andthen (tight_readData st)
        (\<lambda>r st. case r of
           None \<Rightarrow> (Ret None, st)
         | Some inp \<Rightarrow>
             let ((t, d), s) = st;
                 (q, i) = inflate Z uncompressedSize (setInput (Some inp) (zlibs t ! streamId))
             in case q of
                  Ret out \<Rightarrow> (Ret (Some out), (t\<lparr>zlibs := (zlibs t)[streamId := setInput None i]\<rparr>, d), s)
                | Throw e \<Rightarrow> (Throw e, (t\<lparr>zlibs := (zlibs t)[streamId := i]\<rparr>, d), s)
                | Hang \<Rightarrow> (Hang, (t\<lparr>zlibs := (zlibs t)[streamId := i]\<rparr>, d), s)))"

definition tight_blit :: "int \<Rightarrow> int \<Rightarrow> int \<Rightarrow> int \<Rightarrow> bytes \<Rightarrow> (bool, 'z) tight_op" where
  "tight_blit x y width height rgbx st =
     andthen (on_display (blitImage x y width height (whole rgbx) 0) st) (\<lambda>_ st. (Ret True, st))"

subsection \<open>Filters\<close>

text \<open>A store of a number read from an array: outside the array it is \<open>undefined\<close>, stored as 0.\<close>

definition cell :: "bytes \<Rightarrow> nat \<Rightarrow> byte" where
  "cell a i = u8 (byte_at a i)"

definition put_pixel :: "nat \<Rightarrow> byte \<Rightarrow> byte \<Rightarrow> byte \<Rightarrow> bytes \<Rightarrow> bytes" where
  "put_pixel i r g b a = a[i := r, i + 1 := g, i + 2 := b, i + 3 := 255]"

definition copy_rgbx :: "nat \<Rightarrow> bytes \<Rightarrow> bytes" where
  "copy_rgbx n data =
     fold (\<lambda>k. put_pixel (k * 4) (cell data (k * 3)) (cell data (k * 3 + 1)) (cell data (k * 3 + 2)))
       [0..<n] (u8_new (n * 4))"

definition copyFilter :: "'z zlib \<Rightarrow> nat \<Rightarrow> int \<Rightarrow> int \<Rightarrow> int \<Rightarrow> int \<Rightarrow> (bool, 'z) tight_op" where
  "copyFilter Z streamId x y width height st =
     (let uncompressedSize = nat (width * height * 3) in
      if uncompressedSize = 0 then (Ret True, st)
      else andthen (tight_data Z streamId uncompressedSize st)
        (\<lambda>r st. case r of
           None \<Rightarrow> (Ret False, st)
         | Some data \<Rightarrow> tight_blit x y width height (copy_rgbx (nat (width * height)) data) st))"

text \<open>A pixel taken from a palette of three-byte entries; an entry selected by an \<open>undefined\<close> index
  does not exist.\<close>

definition put_entry :: "bytes \<Rightarrow> int option \<Rightarrow> nat \<Rightarrow> bytes \<Rightarrow> bytes" where
  "put_entry pal idx k a =
     (case idx of
        None \<Rightarrow> put_pixel (k * 4) 0 0 0 a
      | Some e \<Rightarrow> let sp = nat e * 3 in put_pixel (k * 4) (cell pal sp) (cell pal (sp + 1)) (cell pal (sp + 2)) a)"

definition mono_bit :: "bytes \<Rightarrow> nat \<Rightarrow> nat \<Rightarrow> int" where
  "mono_bit data i b = js_and (js_sar (byte_at data i) b) 1"

definition mono_row :: "nat \<Rightarrow> bytes \<Rightarrow> bytes \<Rightarrow> nat \<Rightarrow> bytes \<Rightarrow> bytes" where
  "mono_row width data pal y dest =
     (let w = (width + 7) div 8; w1 = width div 8;
          put = (\<lambda>x b. put_entry pal (Some (mono_bit data (y * w + x) b)) (y * width + x * 8 + 7 - b));
          dest1 = fold (\<lambda>x. fold (put x) [7, 6, 5, 4, 3, 2, 1, 0]) [0..<w1] dest
      in fold (put w1) (rev [8 - width mod 8..<8]) dest1)"

definition mono_dest :: "nat \<Rightarrow> nat \<Rightarrow> bytes \<Rightarrow> bytes \<Rightarrow> bytes \<Rightarrow> bytes" where
  "mono_dest width height data pal dest = fold (mono_row width data pal) [0..<height] dest"

definition palette_dest :: "nat \<Rightarrow> bytes \<Rightarrow> bytes \<Rightarrow> bytes \<Rightarrow> bytes" where
  "palette_dest n data pal dest = fold (\<lambda>k. put_entry pal (u8_at data k) k) [0..<n] dest"

text \<open>\<open>_monoRect\<close> and \<open>_paletteRect\<close>: the scratch buffer keeps what was drawn into it.\<close>

definition indexed_rect ::
  "(bytes \<Rightarrow> bytes \<Rightarrow> bytes) \<Rightarrow> int \<Rightarrow> int \<Rightarrow> int \<Rightarrow> int \<Rightarrow> (bool, 'z) tight_op" where
  "indexed_rect draw x y width height st =
     (let ((t, d), s) = st;
          (dest, t1) = getScratchBuffer (nat (width * height * 4)) t;
          dest1 = draw (palette t1) dest
      in tight_blit x y width height dest1 ((t1\<lparr>scratchBuffer := Some dest1\<rparr>, d), s))"

definition monoRect :: "int \<Rightarrow> int \<Rightarrow> int \<Rightarrow> int \<Rightarrow> bytes \<Rightarrow> (bool, 'z) tight_op" where
  "monoRect x y width height data =
     indexed_rect (mono_dest (nat width) (nat height) data) x y width height"

definition paletteRect :: "int \<Rightarrow> int \<Rightarrow> int \<Rightarrow> int \<Rightarrow> bytes \<Rightarrow> (bool, 'z) tight_op" where
  "paletteRect x y width height data =
     indexed_rect (palette_dest (nat (width * height)) data) x y width height"

definition read_palette :: "(bool, 'z) tight_op" where
  "read_palette st =
     (let ((t, d), s) = st in
      if numColors t \<noteq> 0 then (Ret True, st)
      else if rQlacks 1 s then (Ret False, st)
      else let n = nat (undef0 (rQpeek8 s)) + 1; paletteSize = n * 3
           in if rQlacks (1 + paletteSize) s then (Ret False, st)
              else let s1 = rQskipBytes 1 s; t1 = t\<lparr>numColors := n\<rparr>
                   in case rQshiftTo (palette t1) paletteSize s1 of
                        (Ret p, s2) \<Rightarrow> (Ret True, (t1\<lparr>palette := p\<rparr>, d), s2)
                      | (Throw e, s2) \<Rightarrow> (Throw e, (t1, d), s2)
                      | (Hang, s2) \<Rightarrow> (Hang, (t1, d), s2))"

definition paletteFilter :: "'z zlib \<Rightarrow> nat \<Rightarrow> int \<Rightarrow> int \<Rightarrow> int \<Rightarrow> int \<Rightarrow> (bool, 'z) tight_op" where
  "paletteFilter Z streamId x y width height st =
     andthen (read_palette st)
       (\<lambda>ok st.
          if \<not> ok then (Ret False, st)
          else
            let n = numColors (fst (fst st));
                bpp = (if n \<le> 2 then 1 else 8);
                rowSize = (width * bpp + 7) div 8;
                uncompressedSize = nat (rowSize * height)
            in if uncompressedSize = 0 then (Ret True, st)
               else andthen (tight_data Z streamId uncompressedSize st)
                 (\<lambda>r st. case r of
                    None \<Rightarrow> (Ret False, st)
                  | Some data \<Rightarrow>
                      andthen (if n = 2 then monoRect x y width height data st
                               else paletteRect x y width height data st)
                        (\<lambda>_ st. (Ret True, on_tight (\<lambda>t. t\<lparr>numColors := 0\<rparr>) st))))"

text \<open>The gradient filter: the state is the output, the output and input positions, and for the
  three channels the pixel to the left; the later rows also keep the position in the row above
  and the pixel diagonally above.\<close>

definition add_pred :: "bytes \<Rightarrow> nat \<Rightarrow> int \<Rightarrow> byte" where
  "add_pred data i prediction = (case u8_at data i of None \<Rightarrow> 0 | Some v \<Rightarrow> u8 (v + prediction))"

type_synonym gradient = "bytes \<times> nat \<times> nat \<times> bytes"

definition gradient_first :: "bytes \<Rightarrow> nat \<Rightarrow> gradient \<Rightarrow> gradient" where
  "gradient_first data c g =
     (case g of (rgbx, rgbxIndex, dataIndex, left) \<Rightarrow>
        let v = add_pred data dataIndex (uint (left ! c))
        in (rgbx[rgbxIndex := v], rgbxIndex + 1, dataIndex + 1, left[c := v]))"

definition gradient_alpha :: "gradient \<Rightarrow> gradient" where
  "gradient_alpha g =
     (case g of (rgbx, rgbxIndex, rest) \<Rightarrow> (rgbx[rgbxIndex := 255], rgbxIndex + 1, rest))"

definition gradient_row0 :: "nat \<Rightarrow> bytes \<Rightarrow> gradient \<Rightarrow> gradient" where
  "gradient_row0 width data g =
     fold (\<lambda>x g. gradient_alpha (fold (gradient_first data) [0, 1, 2] g)) [0..<width] g"

definition clamp255 :: "int \<Rightarrow> int" where
  "clamp255 p = (if p < 0 then 0 else if p > 255 then 255 else p)"

type_synonym gradient2 = "gradient \<times> nat \<times> bytes"

definition gradient_next :: "bytes \<Rightarrow> nat \<Rightarrow> gradient2 \<Rightarrow> gradient2" where
  "gradient_next data c g =
     (case g of ((rgbx, rgbxIndex, dataIndex, left), upperIndex, upperleft) \<Rightarrow>
        let upper = cell rgbx upperIndex;
            prediction = clamp255 (uint (left ! c) + uint upper - uint (upperleft ! c));
            v = add_pred data dataIndex prediction
        in ((rgbx[rgbxIndex := v], rgbxIndex + 1, dataIndex + 1, left[c := v]),
            upperIndex + 1, upperleft[c := upper]))"

definition gradient_row :: "nat \<Rightarrow> bytes \<Rightarrow> nat \<Rightarrow> gradient2 \<Rightarrow> gradient2" where
  "gradient_row width data y g =
     (case g of ((rgbx, ri, di, left), ui, upperleft) \<Rightarrow>
        fold (\<lambda>x g. case fold (gradient_next data) [0, 1, 2] g of
                (g1, ui, ul) \<Rightarrow> (gradient_alpha g1, ui + 1, ul))
          [0..<width] ((rgbx, ri, di, replicate 3 0), ui, replicate 3 0))"

definition gradient_rgbx :: "nat \<Rightarrow> nat \<Rightarrow> bytes \<Rightarrow> bytes" where
  "gradient_rgbx width height data =
     (let g0 = gradient_row0 width data (u8_new (4 * width * height), 0, 0, u8_new 3)
      in fst (fst (fold (gradient_row width data) [1..<height] (g0, 0, u8_new 3))))"

definition gradientFilter :: "'z zlib \<Rightarrow> nat \<Rightarrow> int \<Rightarrow> int \<Rightarrow> int \<Rightarrow> int \<Rightarrow> (bool, 'z) tight_op" where
  "gradientFilter Z streamId x y width height st =
     (let uncompressedSize = nat (width * height * 3) in
      if uncompressedSize = 0 then (Ret True, st)
      else andthen (tight_data Z streamId uncompressedSize st)
        (\<lambda>r st. case r of
           None \<Rightarrow> (Ret False, st)
         | Some data \<Rightarrow> tight_blit x y width height (gradient_rgbx (nat width) (nat height) data) st))"

definition tight_basicRect :: "'z zlib \<Rightarrow> int \<Rightarrow> int \<Rightarrow> int \<Rightarrow> int \<Rightarrow> int \<Rightarrow> (bool, 'z) tight_op" where
  "tight_basicRect Z c x y width height st =
     (let ((t, d), s) = st in
      if tfilter t = None \<and> js_and c 4 \<noteq> 0 \<and> rQlacks 1 s then (Ret False, st)
      else
        let (t1, s1) = (if tfilter t \<noteq> None then (t, s)
                        else if js_and c 4 \<noteq> 0
                        then (case rQshift8 s of (f, s') \<Rightarrow> (t\<lparr>tfilter := Some f\<rparr>, s'))
                        else (t\<lparr>tfilter := Some 0\<rparr>, s));
            streamId = nat (js_and c 3);
            st1 = ((t1, d), s1)
        in andthen
             (if tfilter t1 = Some 0 then copyFilter Z streamId x y width height st1
              else if tfilter t1 = Some 1 then paletteFilter Z streamId x y width height st1
              else if tfilter t1 = Some 2 then gradientFilter Z streamId x y width height st1
              else (Throw (ErrorMsg ''Illegal tight filter received''), st1))
             (\<lambda>ret st. (Ret ret, if ret then on_tight (\<lambda>t. t\<lparr>tfilter := None\<rparr>) st else st)))"

text \<open>\<open>decodeRect\<close> calls two methods that the TightPNG decoder overrides; they are its arguments.\<close>

definition reset_streams :: "'z zlib \<Rightarrow> int \<Rightarrow> 'z inflator list \<Rightarrow> 'z inflator list" where
  "reset_streams Z c zs =
     map (\<lambda>(i, z). if js_and (js_sar c i) 1 \<noteq> 0 then inflator_reset Z z else z) (enumerate 0 zs)"

definition tight_dispatch ::
  "'z zlib \<Rightarrow> (int \<Rightarrow> int \<Rightarrow> int \<Rightarrow> int \<Rightarrow> (bool, 'z) tight_op) \<Rightarrow>
   (int \<Rightarrow> int \<Rightarrow> int \<Rightarrow> int \<Rightarrow> int \<Rightarrow> (bool, 'z) tight_op) \<Rightarrow>
   int \<Rightarrow> int \<Rightarrow> int \<Rightarrow> int \<Rightarrow> (bool, 'z) tight_op" where
  "tight_dispatch Z pngRect basicRect x y width height st =
     (let ((t, d), s) = st in
      if ctl t = None \<and> rQlacks 1 s then (Ret False, st)
      else
        let (c, st1) =
              (case ctl t of
                 Some c \<Rightarrow> (c, st)
               | None \<Rightarrow> (let (b, s') = rQshift8 s; c = js_sar b 4
                          in (c, (t\<lparr>ctl := Some c, zlibs := reset_streams Z b (zlibs t)\<rparr>, d), s')))
        in andthen
             (if c = 8 then tight_fillRect x y width height st1
              else if c = 9 then tight_jpegRect x y width height st1
              else if c = 10 then pngRect x y width height st1
              else if js_and c 8 = 0 then basicRect c x y width height st1
              else (Throw (ErrorMsg ''Illegal tight compression received''), st1))
             (\<lambda>ret st. (Ret ret, if ret then on_tight (\<lambda>t. t\<lparr>ctl := None\<rparr>) st else st)))"

definition tight_decodeRect ::
  "'z zlib \<Rightarrow> int \<Rightarrow> int \<Rightarrow> int \<Rightarrow> int \<Rightarrow> 'z tight \<times> display \<Rightarrow> websock \<Rightarrow> ('z tight \<times> display) decoded" where
  "tight_decodeRect Z x y width height c sock =
     tight_dispatch Z tight_pngRect (tight_basicRect Z) x y width height (c, sock)"

section \<open>TightPNG\<close>

definition tightpng_pngRect :: "int \<Rightarrow> int \<Rightarrow> int \<Rightarrow> int \<Rightarrow> (bool, 'z) tight_op" where
  "tightpng_pngRect = tight_imageRect ''image/png''"

definition tightpng_basicRect :: "int \<Rightarrow> int \<Rightarrow> int \<Rightarrow> int \<Rightarrow> int \<Rightarrow> (bool, 'z) tight_op" where
  "tightpng_basicRect c x y width height st =
     (Throw (ErrorMsg ''BasicCompression received in TightPNG rect''), st)"

definition tightpng_decodeRect ::
  "'z zlib \<Rightarrow> int \<Rightarrow> int \<Rightarrow> int \<Rightarrow> int \<Rightarrow> 'z tight \<times> display \<Rightarrow> websock \<Rightarrow> ('z tight \<times> display) decoded" where
  "tightpng_decodeRect Z x y width height c sock =
     tight_dispatch Z tightpng_pngRect tightpng_basicRect x y width height (c, sock)"

end
