(* ===== verification/Tight_Filters.thy ===== *)
theory Tight_Filters
  imports Tight
begin

text \<open>
  The gradient filter of the Tight decoder against its definition in the protocol. The code walks
  through the rectangle once with running positions and the neighbouring pixels in small arrays; the
  protocol defines every pixel from its three neighbours.
\<close>

section \<open>The definition of the filter\<close>

function gradient_pixel :: "nat \<Rightarrow> bytes \<Rightarrow> nat \<Rightarrow> nat \<Rightarrow> nat \<Rightarrow> byte" where
  "gradient_pixel w data y x c =
     (let left = (if x = 0 then 0 else gradient_pixel w data y (x - 1) c);
          upper = (if y = 0 then 0 else gradient_pixel w data (y - 1) x c);
          upperleft = (if x = 0 \<or> y = 0 then 0 else gradient_pixel w data (y - 1) (x - 1) c)
      in data ! ((y * w + x) * 3 + c) + u8 (clamp255 (uint left + uint upper - uint upperleft)))"
  by pat_completeness auto
termination by (relation "measure (\<lambda>(w, data, y, x, c). y + x)") auto

declare gradient_pixel.simps [simp del]

definition left_of :: "nat \<Rightarrow> bytes \<Rightarrow> nat \<Rightarrow> nat \<Rightarrow> nat \<Rightarrow> byte" where
  "left_of w data y x c = (if x = 0 then 0 else gradient_pixel w data y (x - 1) c)"

lemma clamp255_byte: "clamp255 (uint (b :: byte)) = uint b"
  using uint_byte_range(2) [of b] by (simp add: clamp255_def del: uint_byte_range)

lemma gradient_pixel_row0: "gradient_pixel w data 0 x c = data ! (x * 3 + c) + left_of w data 0 x c"
proof -
  have "clamp255 (uint (left_of w data 0 x c)) = uint (left_of w data 0 x c)" by (rule clamp255_byte)
  then show ?thesis by (subst gradient_pixel.simps) (simp add: left_of_def Let_def)
qed

lemma gradient_pixel_next:
  "0 < y \<Longrightarrow> gradient_pixel w data y x c = data ! ((y * w + x) * 3 + c) +
    u8 (clamp255 (uint (left_of w data y x c) + uint (gradient_pixel w data (y - 1) x c)
      - uint (left_of w data (y - 1) x c)))"
  by (subst gradient_pixel.simps) (simp add: left_of_def Let_def)

section \<open>What has been drawn\<close>

text \<open>The first \<open>p\<close> pixels of the result, counted row by row.\<close>

definition painted :: "nat \<Rightarrow> bytes \<Rightarrow> nat \<Rightarrow> bytes \<Rightarrow> bool" where
  "painted w data p rgbx \<longleftrightarrow>
     (\<forall>q < p. (\<forall>c < 3. rgbx ! (4 * q + c) = gradient_pixel w data (q div w) (q mod w) c) \<and> rgbx ! (4 * q + 3) = 255)"

lemma less_3: "(c::nat) < 3 \<longleftrightarrow> c = 0 \<or> c = 1 \<or> c = 2"
  by auto

lemma painted_Suc:
  assumes "painted w data p rgbx" "4 * p + 3 < length rgbx"
    "v0 = gradient_pixel w data (p div w) (p mod w) 0" "v1 = gradient_pixel w data (p div w) (p mod w) 1"
    "v2 = gradient_pixel w data (p div w) (p mod w) 2"
  shows "painted w data (Suc p) (rgbx[4 * p := v0, 4 * p + 1 := v1, 4 * p + 2 := v2, 4 * p + 3 := 255])"
  unfolding painted_def
proof (intro allI impI)
  fix q
  assume "q < Suc p"
  then consider "q = p" | "q < p" by linarith
  then show "(\<forall>c < 3. rgbx[4 * p := v0, 4 * p + 1 := v1, 4 * p + 2 := v2, 4 * p + 3 := 255] ! (4 * q + c) =
      gradient_pixel w data (q div w) (q mod w) c) \<and>
      rgbx[4 * p := v0, 4 * p + 1 := v1, 4 * p + 2 := v2, 4 * p + 3 := 255] ! (4 * q + 3) = 255"
  proof cases
    case 1
    then show ?thesis using assms by (auto simp: less_3 nth_list_update)
  next
    case 2
    then show ?thesis using assms(1) by (auto simp: less_3 nth_list_update painted_def)
  qed
qed

lemma add_pred_value: "i < length data \<Longrightarrow> add_pred data i p = data ! i + u8 p"
  by (simp add: add_pred_def u8_at_def u8_def)

lemma cell_value: "i < length a \<Longrightarrow> cell a i = a ! i"
  by (simp add: cell_def byte_at_def u8_at_def)

section \<open>The rows\<close>

abbreviation lefts :: "nat \<Rightarrow> bytes \<Rightarrow> nat \<Rightarrow> nat \<Rightarrow> bytes" where
  "lefts w data y x \<equiv> [left_of w data y x 0, left_of w data y x 1, left_of w data y x 2]"

lemma left_of_Suc: "left_of w data y (Suc x) c = gradient_pixel w data y x c"
  by (simp add: left_of_def)

lemma lefts_0: "lefts w data y 0 = replicate 3 0" "lefts w data y 0 = u8_new 3"
  by (simp_all add: left_of_def numeral_3_eq_3 u8_new_def)

lemma add_3: "(n::nat) + 3 = Suc (Suc (Suc n))"
  by simp

lemma row0_pixel:
  assumes "painted w data x rgbx" "length rgbx = 4 * w * h" "length data = 3 * w * h" "x < w" "0 < h"
  obtains rgbx' where "painted w data (Suc x) rgbx'" "length rgbx' = length rgbx"
    "gradient_alpha (fold (gradient_first data) [0, 1, 2] (rgbx, 4 * x, 3 * x, lefts w data 0 x)) =
      (rgbx', 4 * Suc x, 3 * Suc x, lefts w data 0 (Suc x))"
proof -
  let ?g = "gradient_pixel w data 0 x"
  let ?r = "rgbx[4 * x := ?g 0, 4 * x + 1 := ?g 1, 4 * x + 2 := ?g 2, 4 * x + 3 := 255]"
  have "w \<le> w * h" using assms(5) by simp
  then have "x + 1 \<le> w * h" using assms(4) by linarith
  then have len: "4 * x + 3 < length rgbx" "3 * x + 2 < length data" using assms(2, 3) by simp_all
  have v: "add_pred data (3 * x + c) (uint (left_of w data 0 x c)) = ?g c" if "c < 3" for c
    using that len(2) by (simp add: add_pred_value gradient_pixel_row0 mult.commute)
  have "gradient_alpha (fold (gradient_first data) [0, 1, 2] (rgbx, 4 * x, 3 * x, lefts w data 0 x)) =
      (?r, 4 * Suc x, 3 * Suc x, lefts w data 0 (Suc x))"
    using v [of 0] v [of 1] v [of 2]
    by (simp add: gradient_alpha_def gradient_first_def Let_def left_of_Suc numeral_2_eq_2 add_3)
  moreover have "painted w data (Suc x) ?r"
    using painted_Suc [OF assms(1) len(1)] assms(4) by simp
  ultimately show thesis using that [of ?r] by simp
qed

lemma row0_painted:
  assumes "length rgbx = 4 * w * h" "length data = 3 * w * h" "0 < h" "x \<le> w"
  shows "\<exists>rgbx'. painted w data x rgbx' \<and> length rgbx' = length rgbx \<and>
    fold (\<lambda>x g. gradient_alpha (fold (gradient_first data) [0, 1, 2] g)) [0..<x] (rgbx, 0, 0, u8_new 3) =
      (rgbx', 4 * x, 3 * x, lefts w data 0 x)"
  using assms(4)
proof (induction x)
  case 0
  then show ?case by (auto simp: painted_def left_of_def u8_new_def numeral_3_eq_3)
next
  case (Suc x)
  then obtain r1 where r1: "painted w data x r1" "length r1 = length rgbx"
    "fold (\<lambda>x g. gradient_alpha (fold (gradient_first data) [0, 1, 2] g)) [0..<x] (rgbx, 0, 0, u8_new 3) =
      (r1, 4 * x, 3 * x, lefts w data 0 x)" by auto
  obtain r2 where "painted w data (Suc x) r2" "length r2 = length r1"
    "gradient_alpha (fold (gradient_first data) [0, 1, 2] (r1, 4 * x, 3 * x, lefts w data 0 x)) =
      (r2, 4 * Suc x, 3 * Suc x, lefts w data 0 (Suc x))"
    using row0_pixel [OF r1(1), of h] r1(2) assms(1-3) Suc.prems by auto
  then show ?case using r1 by (auto simp del: fold_simps)
qed

text \<open>The state at the pixel \<open>x\<close> of a later row.\<close>

definition in_row :: "nat \<Rightarrow> bytes \<Rightarrow> nat \<Rightarrow> nat \<Rightarrow> bytes \<Rightarrow> gradient2" where
  "in_row w data y x rgbx =
     ((rgbx, 4 * (y * w + x), 3 * (y * w + x), lefts w data y x), 4 * ((y - 1) * w + x), lefts w data (y - 1) x)"

definition row_pixel :: "bytes \<Rightarrow> gradient2 \<Rightarrow> gradient2" where
  "row_pixel data g = (case fold (gradient_next data) [0, 1, 2] g of (g1, ui, ul) \<Rightarrow> (gradient_alpha g1, ui + 1, ul))"

lemma cell_update_other: "i \<noteq> j \<Longrightarrow> cell (a[i := v]) j = cell a j"
  by (simp add: cell_def byte_at_def u8_at_def)

lemma row_pixel_writes:
  assumes "u < p"
    "add_pred data (3 * p) (clamp255 (uint l0 + uint (cell rgbx (4 * u)) - uint m0)) = g0"
    "add_pred data (3 * p + 1) (clamp255 (uint l1 + uint (cell rgbx (4 * u + 1)) - uint m1)) = g1"
    "add_pred data (3 * p + 2) (clamp255 (uint l2 + uint (cell rgbx (4 * u + 2)) - uint m2)) = g2"
  shows "row_pixel data ((rgbx, 4 * p, 3 * p, [l0, l1, l2]), 4 * u, [m0, m1, m2]) =
    ((rgbx[4 * p := g0, 4 * p + 1 := g1, 4 * p + 2 := g2, 4 * p + 3 := 255], 4 * (p + 1), 3 * (p + 1), [g0, g1, g2]),
     4 * (u + 1), [cell rgbx (4 * u), cell rgbx (4 * u + 1), cell rgbx (4 * u + 2)])"
proof -
  have "4 * p \<noteq> Suc (4 * u)" "4 * p \<noteq> Suc (Suc (4 * u))" "Suc (4 * p) \<noteq> Suc (Suc (4 * u))"
    using assms(1) by presburger+
  then show ?thesis
    using assms(2-4)
    by (simp add: row_pixel_def gradient_alpha_def gradient_next_def Let_def numeral_2_eq_2 add_3 cell_update_other)
qed

lemma next_pixel:
  assumes "painted w data (y * w + x) rgbx" "length rgbx = 4 * w * h" "length data = 3 * w * h" "x < w"
    "0 < y" "y < h"
  obtains rgbx' where "painted w data (y * w + Suc x) rgbx'" "length rgbx' = length rgbx"
    "row_pixel data (in_row w data y x rgbx) = in_row w data y (Suc x) rgbx'"
proof -
  define p where "p = y * w + x"
  define u where "u = (y - 1) * w + x"
  let ?g = "gradient_pixel w data y x" and ?u = "gradient_pixel w data (y - 1) x"
  let ?r = "rgbx[4 * p := ?g 0, 4 * p + 1 := ?g 1, 4 * p + 2 := ?g 2, 4 * p + 3 := 255]"
  have "y * w + w \<le> w * h" using assms(6) by (metis Suc_leI mult.commute mult_Suc mult_le_mono2 add.commute)
  then have len: "4 * p + 3 < length rgbx" "3 * p + 2 < length data" using assms(2-4) by (simp_all add: p_def)
  have pu: "p = u + w" using assms(5) by (cases y) (simp_all add: p_def u_def)
  then have "u < p" using assms(4) by simp
  have div: "p div w = y" "p mod w = x" "u div w = y - 1" "u mod w = x" using assms(4) by (simp_all add: p_def u_def)
  have up: "cell rgbx (4 * u + c) = ?u c" if "c < 3" for c
    using assms(1) \<open>u < p\<close> that len(1) div by (auto simp: cell_value painted_def simp flip: p_def)
  have v: "add_pred data (3 * p + c) (clamp255 (uint (left_of w data y x c) + uint (?u c) - uint (left_of w data (y - 1) x c)))
      = ?g c" if "c < 3" for c
    using that len(2) assms(5) by (simp add: add_pred_value gradient_pixel_next p_def mult.commute)
  have Suc: "y * w + Suc x = p + 1" "(y - 1) * w + Suc x = u + 1" by (simp_all add: p_def u_def)
  have "row_pixel data (in_row w data y x rgbx) = in_row w data y (Suc x) ?r"
    unfolding in_row_def Suc left_of_Suc p_def [symmetric] u_def [symmetric]
    using row_pixel_writes [OF \<open>u < p\<close>] v [of 0] v [of 1] v [of 2] up [of 0] up [of 1] up [of 2] by simp
  moreover have "painted w data (y * w + Suc x) ?r"
    using painted_Suc [OF assms(1) [folded p_def] len(1)] div by (simp add: p_def)
  ultimately show thesis using that [of ?r] by simp
qed

lemma row_prefix:
  assumes "painted w data (y * w) rgbx" "length rgbx = 4 * w * h" "length data = 3 * w * h" "0 < y" "y < h" "x \<le> w"
  shows "\<exists>rgbx'. painted w data (y * w + x) rgbx' \<and> length rgbx' = length rgbx \<and>
    fold (\<lambda>_. row_pixel data) [0..<x] (in_row w data y 0 rgbx) = in_row w data y x rgbx'"
  using assms(6)
proof (induction x)
  case 0
  then show ?case using assms(1) by auto
next
  case (Suc x)
  then obtain r1 where r1: "painted w data (y * w + x) r1" "length r1 = length rgbx"
    "fold (\<lambda>_. row_pixel data) [0..<x] (in_row w data y 0 rgbx) = in_row w data y x r1" by auto
  obtain r2 where "painted w data (y * w + Suc x) r2" "length r2 = length r1"
    "row_pixel data (in_row w data y x r1) = in_row w data y (Suc x) r2"
    using next_pixel [OF r1(1) _ assms(3) _ assms(4, 5)] r1(2) assms(2) Suc.prems by auto
  then show ?case using r1 by auto
qed

lemma gradient_row_step:
  assumes "painted w data (y * w) rgbx" "length rgbx = 4 * w * h" "length data = 3 * w * h" "0 < y" "y < h"
  shows "\<exists>rgbx' l m. painted w data (Suc y * w) rgbx' \<and> length rgbx' = length rgbx \<and>
    gradient_row w data y ((rgbx, 4 * (y * w), 3 * (y * w), l0), 4 * ((y - 1) * w), m0) =
      ((rgbx', 4 * (Suc y * w), 3 * (Suc y * w), l), 4 * (y * w), m)"
proof -
  have row: "gradient_row w data y ((rgbx, 4 * (y * w), 3 * (y * w), l0), 4 * ((y - 1) * w), m0) =
      fold (\<lambda>_. row_pixel data) [0..<w] (in_row w data y 0 rgbx)"
    by (simp add: gradient_row_def in_row_def left_of_def row_pixel_def [abs_def] numeral_3_eq_3)
  obtain r where r: "painted w data (y * w + w) r" "length r = length rgbx"
    "fold (\<lambda>_. row_pixel data) [0..<w] (in_row w data y 0 rgbx) = in_row w data y w r"
    using row_prefix [OF assms, of w] by auto
  have ends: "y * w + w = Suc y * w" "(y - 1) * w + w = y * w" using assms(4) by (cases y; simp)+
  show ?thesis using r unfolding row in_row_def ends by blast
qed

lemma rows_painted:
  assumes "painted w data w rgbx" "length rgbx = 4 * w * h" "length data = 3 * w * h" "0 < y" "y \<le> h"
  shows "\<exists>rgbx' l m. painted w data (y * w) rgbx' \<and> length rgbx' = length rgbx \<and>
    fold (gradient_row w data) [1..<y] ((rgbx, 4 * w, 3 * w, l0), 0, m0) =
      ((rgbx', 4 * (y * w), 3 * (y * w), l), 4 * ((y - 1) * w), m)"
  using assms(4, 5)
proof (induction y)
  case (Suc y)
  show ?case
  proof (cases "y = 0")
    case True
    then show ?thesis using assms(1) by auto
  next
    case False
    then obtain r l m where r: "painted w data (y * w) r" "length r = length rgbx"
      "fold (gradient_row w data) [1..<y] ((rgbx, 4 * w, 3 * w, l0), 0, m0) =
        ((r, 4 * (y * w), 3 * (y * w), l), 4 * ((y - 1) * w), m)" using Suc by auto
    have "[1..<Suc y] = [1..<y] @ [y]" using False by (simp add: upt_Suc_append)
    then show ?thesis
      using r gradient_row_step [OF r(1) _ assms(3), of l m] assms(2) False Suc.prems by simp
  qed
qed simp

text \<open>C20: The gradient filter computes what the protocol defines. For a rectangle of any size with at
  least one row, and as many bytes of data as it needs, every colour value the filter's single pass
  stores is the transmitted byte plus the clamped prediction from the pixels to the left, above and
  diagonally above, and every pixel is opaque.\<close>

theorem gradient_filter_correct:
  assumes "length data = 3 * w * h" "x < w" "y < h"
  shows "(\<forall>c < 3. gradient_rgbx w h data ! (4 * (y * w + x) + c) = gradient_pixel w data y x c) \<and>
    gradient_rgbx w h data ! (4 * (y * w + x) + 3) = 255"
proof -
  have h: "0 < h" using assms(3) by simp
  obtain r0 where r0: "painted w data w r0" "length r0 = 4 * w * h"
    "gradient_row0 w data (u8_new (4 * w * h), 0, 0, u8_new 3) = (r0, 4 * w, 3 * w, lefts w data 0 w)"
    using row0_painted [of "u8_new (4 * w * h)" w h data w] assms(1) h by (auto simp: gradient_row0_def)
  obtain r l m where r: "painted w data (h * w) r"
    "fold (gradient_row w data) [1..<h] ((r0, 4 * w, 3 * w, lefts w data 0 w), 0, u8_new 3) =
      ((r, 4 * (h * w), 3 * (h * w), l), 4 * ((h - 1) * w), m)"
    using rows_painted [OF r0(1, 2) assms(1) h order.refl] by blast
  have "y * w + x < h * w"
    using assms(2, 3) by (metis add.commute add_less_cancel_left less_le_trans mult_Suc mult_le_mono1 Suc_leI)
  then have "(\<forall>c < 3. r ! (4 * (y * w + x) + c) = gradient_pixel w data ((y * w + x) div w) ((y * w + x) mod w) c) \<and>
      r ! (4 * (y * w + x) + 3) = 255"
    using r(1) unfolding painted_def by blast
  moreover have "gradient_rgbx w h data = r" using r0(3) r(2) by (simp add: gradient_rgbx_def Let_def)
  ultimately show ?thesis using assms(2) by simp
qed

theorem gradient_filter_correct_witness:
  "gradient_rgbx 2 2 [10, 20, 30, 1, 2, 3, 4, 5, 6, 250, 7, 8] ! 12 = gradient_pixel 2 [10, 20, 30, 1, 2, 3, 4, 5, 6, 250, 7, 8] 1 1 0"
  using gradient_filter_correct [of "[10, 20, 30, 1, 2, 3, 4, 5, 6, 250, 7, 8]" 2 2 1 1] by fastforce

end
