(* ===== verification/Jpeg.thy ===== *)
theory Jpeg
  imports Tight
begin

text \<open>
  The JPEG decoder, \<open>core/decoders/jpeg.js\<close>: a rectangle is a JPEG file, read segment by segment.
  A server may leave out the quantization and Huffman tables and rely on those of an earlier
  rectangle, so the decoder caches them and puts them back.
\<close>

section \<open>Model\<close>

record jpeg =
  cachedQuantTables :: "bytes list"
  cachedHuffmanTables :: "bytes list"
  segments :: "bytes list"

definition new_jpeg :: jpeg where
  "new_jpeg = \<lparr>cachedQuantTables = [], cachedHuffmanTables = [], segments = []\<rparr>"

text \<open>The end of the entropy coded data of a scan: the first length from \<open>n\<close> on whose last two
  bytes are a marker that is neither a stuffed zero nor a restart marker. The result says whether
  it was found and the length reached.\<close>

definition ends_scan :: "bytes \<Rightarrow> bool" where
  "ends_scan data =
     (let a = byte_at data (length data - 2); b = byte_at data (length data - 1)
      in a = 255 \<and> b \<noteq> 0 \<and> \<not> (208 \<le> b \<and> b \<le> 215))"

function scan_end :: "nat \<Rightarrow> websock \<Rightarrow> bool \<times> nat" where
  "scan_end n s =
     (if rQlacks n s then (False, n)
      else if ends_scan (rQpeekBytes n s) then (True, n)
      else scan_end (n + 1) s)"
  by pat_completeness auto
termination
  by (relation "measure (\<lambda>(n, s). rQlen s + 1 - rQi s - n)") (auto simp: rQlacks_def)

declare scan_end.simps [simp del]

text \<open>\<open>null\<close> is \<open>None\<close>.\<close>

definition readSegment :: "websock \<Rightarrow> bytes option outcome \<times> websock" where
  "readSegment sock =
     (if rQlacks 2 sock then (Ret None, sock)
      else
        let (marker, s1) = rQshift8 sock in
        if marker \<noteq> 255 then (Throw (ErrorMsg ''Illegal JPEG marker received''), s1)
        else
          let (type, s2) = rQshift8 s1 in
          if 208 \<le> type \<and> type \<le> 217 \<or> type = 1 then (Ret (Some [u8 marker, u8 type]), s2)
          else andthen (rQwait 2 2 s2)
            (\<lambda>wait s2.
               if wait then (Ret None, s2)
               else
                 let (len, s3) = rQshift16 s2 in
                 if len < 2 then (Throw (ErrorMsg ''Illegal JPEG length received''), s3)
                 else andthen (rQwait (nat len - 2) 4 s3)
                   (\<lambda>wait s3.
                      if wait then (Ret None, s3)
                      else
                        let n = (if type = 218 then snd (scan_end (nat len) s3) else nat len)
                        in andthen (if type = 218 then rQwait n 4 s3 else (Ret False, s3))
                             (\<lambda>wait s3.
                                if wait then (Ret None, s3)
                                else let (data, s4) = rQshiftBytes (n - 2) s3
                                     in (Ret (Some ([u8 marker, u8 type, u8 (js_sar len 8), u8 len] @ data)), s4)))))"

lemma rQshift8_moves: "rQshift8 s = (v, s') \<Longrightarrow> rQi s' = rQi s + 1 \<and> rQlen s' = rQlen s"
  by (auto simp: rQshift8_def rQshift_def split: prod.splits)

lemma rQshift16_moves: "rQshift16 s = (v, s') \<Longrightarrow> rQi s' = rQi s + 2 \<and> rQlen s' = rQlen s"
  by (auto simp: rQshift16_def rQshift_def numeral_2_eq_2 split: prod.splits)

lemma rQwait_stays: "rQwait n k s = (Ret False, s') \<Longrightarrow> s' = s"
  by (auto simp: rQwait_def split: if_splits)

lemma readSegment_progress:
  "readSegment s = (Ret (Some seg), s') \<Longrightarrow> \<not> rQlacks 2 s \<and> rQi s + 2 \<le> rQi s' \<and> rQlen s' = rQlen s"
  by (auto simp: readSegment_def Let_def rQshiftBytes_def split: if_splits prod.splits
      dest!: rQshift8_moves rQshift16_moves rQwait_stays elim!: andthen_RetE)

function read_segments :: "jpeg \<Rightarrow> websock \<Rightarrow> bool outcome \<times> jpeg \<times> websock" where
  "read_segments j sock =
     (case readSegment sock of
        (Ret None, s) \<Rightarrow> (Ret False, j, s)
      | (Ret (Some segment), s) \<Rightarrow>
          let j1 = j\<lparr>segments := segments j @ [segment]\<rparr>
          in if byte_at segment 1 = 217 then (Ret True, j1, s) else read_segments j1 s
      | (Throw e, s) \<Rightarrow> (Throw e, j, s)
      | (Hang, s) \<Rightarrow> (Hang, j, s))"
  by pat_completeness auto
termination
  by (relation "measure (\<lambda>(j, s). rQlen s - rQi s)")
    (auto simp: rQlacks_def dest!: readSegment_progress [OF sym])

declare read_segments.simps [simp del]

definition of_type :: "int \<Rightarrow> bytes \<Rightarrow> bool" where
  "of_type ty seg = (byte_at seg 1 = ty)"

text \<open>\<open>splice\<close> of the source: \<open>xs\<close> put in at position \<open>i\<close>.\<close>

definition splice :: "nat \<Rightarrow> 'a list \<Rightarrow> 'a list \<Rightarrow> 'a list" where
  "splice i xs a = take i a @ xs @ drop i a"

definition findIndex :: "('a \<Rightarrow> bool) \<Rightarrow> 'a list \<Rightarrow> nat option" where
  "findIndex p a = (let i = length (takeWhile (\<lambda>x. \<not> p x) a) in if i < length a then Some i else None)"

definition jpeg_image :: "int \<Rightarrow> int \<Rightarrow> int \<Rightarrow> int \<Rightarrow> jpeg \<Rightarrow> display \<Rightarrow> bool outcome \<times> jpeg \<times> display" where
  "jpeg_image x y width height j d =
     (let huffmanTables = filter (of_type 196) (segments j);
          quantTables = filter (of_type 219) (segments j)
      in case findIndex (\<lambda>s. of_type 192 s \<or> of_type 194 s) (segments j) of
           None \<Rightarrow> (Throw (ErrorMsg ''Illegal JPEG image without SOF''), j, d)
         | Some sofIndex \<Rightarrow>
             let j1 = (if quantTables = []
                       then j\<lparr>segments := splice (sofIndex + 1) (cachedQuantTables j) (segments j)\<rparr> else j);
                 j2 = (if huffmanTables = []
                       then j1\<lparr>segments := splice (sofIndex + 1) (cachedHuffmanTables j1) (segments j1)\<rparr> else j1);
                 (r, d1) = imageRect x y width height ''image/jpeg'' (concat (segments j2)) d
             in case r of
                  Throw e \<Rightarrow> (Throw e, j2, d1)
                | Hang \<Rightarrow> (Hang, j2, d1)
                | Ret _ \<Rightarrow>
                    let j3 = (if huffmanTables \<noteq> [] then j2\<lparr>cachedHuffmanTables := huffmanTables\<rparr> else j2);
                        j4 = (if quantTables \<noteq> [] then j3\<lparr>cachedQuantTables := quantTables\<rparr> else j3)
                    in (Ret True, j4\<lparr>segments := []\<rparr>, d1))"

definition jpeg_decodeRect ::
  "int \<Rightarrow> int \<Rightarrow> int \<Rightarrow> int \<Rightarrow> jpeg \<times> display \<Rightarrow> websock \<Rightarrow> (jpeg \<times> display) decoded" where
  "jpeg_decodeRect x y width height c sock =
     (case read_segments (fst c) sock of
        (Ret True, j, s) \<Rightarrow> (case jpeg_image x y width height j (snd c) of (r, j', d) \<Rightarrow> (r, (j', d), s))
      | (Ret False, j, s) \<Rightarrow> (Ret False, (j, snd c), s)
      | (Throw e, j, s) \<Rightarrow> (Throw e, (j, snd c), s)
      | (Hang, j, s) \<Rightarrow> (Hang, (j, snd c), s))"

end
