(* ===== verification/Keyboard.thy ===== *)
theory Keyboard
  imports Keytables "HOL-Library.Multiset"
begin

text \<open>
  Keyboard input: the lookups of \<open>core/input/util.js\<close>, \<open>core/input/keysymdef.js\<close> and
  \<open>core/input/domkeytable.js\<close>, and the key tracking of \<open>core/input/keyboard.js\<close>.

  Codes of physical keys are HOL strings, key values are JavaScript strings. A key event carries the
  fields that are read of it; an empty \<open>code\<close> or \<open>keyIdentifier\<close> stands for a missing one as well,
  since the source only tests whether it is truthy. What the browser reports of the platform and the
  upper case of a character are in the record \<open>platform\<close>. The calls of \<open>onkeyevent\<close> are recorded in
  \<open>keyEvents\<close>, in order.
\<close>

section \<open>Lookups\<close>

definition XK :: "string \<Rightarrow> int option" where
  "XK name = map_of KeyTable name"

definition lookup_keysym :: "int \<Rightarrow> int" where
  "lookup_keysym u =
     (if 0x20 \<le> u \<and> u \<le> 0xff then u
      else case map_of codepoints u of
             Some keysym \<Rightarrow> keysym
           | None \<Rightarrow> js_or 0x01000000 u)"

type_synonym dom_table = "(string \<times> int list) list"

definition dom_put :: "string \<Rightarrow> int option list \<Rightarrow> dom_table \<Rightarrow> dom_table outcome" where
  "dom_put key ks t =
     (if None \<in> set ks then Throw (ErrorMsg ''Undefined keysym'')
      else if key \<in> fst ` set t then Throw (ErrorMsg ''Duplicate entry'')
      else Ret (t @ [(key, map the ks)]))"

fun dom_add :: "dom_add \<Rightarrow> dom_table \<Rightarrow> dom_table outcome" where
  "dom_add (AddStandard key s) t = dom_put key [XK s, XK s, XK s, XK s] t"
| "dom_add (AddLeftRight key l r) t = dom_put key [XK l, XK l, XK r, XK l] t"
| "dom_add (AddNumpad key s n) t = dom_put key [XK s, XK s, XK s, XK n] t"

fun dom_build :: "dom_add list \<Rightarrow> dom_table \<Rightarrow> dom_table outcome" where
  "dom_build [] t = Ret t"
| "dom_build (c # cs) t =
     (case dom_add c t of Ret t' \<Rightarrow> dom_build cs t' | Throw e \<Rightarrow> Throw e | Hang \<Rightarrow> Hang)"

definition DOMKeyTable :: dom_table where
  "DOMKeyTable = (case dom_build DOMKeyCalls [] of Ret t \<Rightarrow> t | _ \<Rightarrow> [])"

record platform =
  isMac :: bool
  isIOS :: bool
  isWindows :: bool
  toUpper :: "nat \<Rightarrow> nat"

record key_event =
  ecode :: string
  ekeyCode :: nat
  ekey :: "jsstring option"
  echarCode :: nat
  elocation :: "nat option"
  ekeyIdentifier :: jsstring
  etimeStamp :: int
  enumlock :: bool
  ecapslock :: bool
  emetaKey :: bool

definition location_right :: "string \<Rightarrow> string" where
  "location_right code =
     (if code = ''ShiftLeft'' then ''ShiftRight''
      else if code = ''ControlLeft'' then ''ControlRight''
      else if code = ''AltLeft'' then ''AltRight''
      else code)"

definition location_numpad :: "string \<Rightarrow> string" where
  "location_numpad code =
     (case map_of [(''Delete'', ''NumpadDecimal''), (''Insert'', ''Numpad0''), (''End'', ''Numpad1''),
        (''ArrowDown'', ''Numpad2''), (''PageDown'', ''Numpad3''), (''ArrowLeft'', ''Numpad4''),
        (''ArrowRight'', ''Numpad6''), (''Home'', ''Numpad7''), (''ArrowUp'', ''Numpad8''),
        (''PageUp'', ''Numpad9''), (''Enter'', ''NumpadEnter'')] code of
        Some c \<Rightarrow> c | None \<Rightarrow> code)"

definition getKeycode :: "platform \<Rightarrow> key_event \<Rightarrow> string" where
  "getKeycode P e =
     (if ecode e \<noteq> '''' then
        if ecode e = ''OSLeft'' then ''MetaLeft''
        else if ecode e = ''OSRight'' then ''MetaRight''
        else ecode e
      else case map_of vkeys (int (ekeyCode e)) of
             None \<Rightarrow> ''Unidentified''
           | Some code \<Rightarrow>
               let code = (if isMac P \<and> code = ''ContextMenu'' then ''MetaRight'' else code)
               in if elocation e = Some 2 then location_right code
                  else if elocation e = Some 3 then location_numpad code
                  else code)"

definition renamed_keys :: "(string \<times> string) list" where
  "renamed_keys = [(''OS'', ''Meta''), (''LaunchMyComputer'', ''LaunchApplication1''),
     (''LaunchCalculator'', ''LaunchApplication2''), (''UIKeyInputUpArrow'', ''ArrowUp''),
     (''UIKeyInputDownArrow'', ''ArrowDown''), (''UIKeyInputLeftArrow'', ''ArrowLeft''),
     (''UIKeyInputRightArrow'', ''ArrowRight''), (''UIKeyInputEscape'', ''Escape'')]"

definition deducedKey :: "platform \<Rightarrow> key_event \<Rightarrow> jsstring" where
  "deducedKey P e =
     (case map_of fixedkeys (getKeycode P e) of
        Some k \<Rightarrow> lit k
      | None \<Rightarrow> if echarCode e \<noteq> 0 then [echarCode e] else lit ''Unidentified'')"

definition getKey :: "platform \<Rightarrow> key_event \<Rightarrow> jsstring" where
  "getKey P e =
     (case ekey e of
        Some k \<Rightarrow>
          if k \<noteq> lit ''Unidentified'' then
            case map_of (map (map_prod lit lit) renamed_keys) k of
              Some k' \<Rightarrow> k'
            | None \<Rightarrow> if k = [0] \<and> ecode e = ''NumpadDecimal'' then lit ''Delete'' else k
          else deducedKey P e
      | None \<Rightarrow> deducedKey P e)"

definition clean_location :: "platform \<Rightarrow> jsstring \<Rightarrow> key_event \<Rightarrow> nat" where
  "clean_location P key e =
     (let location = elocation e;
          location = (if key = lit ''Meta'' \<and> location = Some 0 then Some 2 else location);
          location = (if key = lit ''Clear'' \<and> location = Some 3 \<and> getKeycode P e = ''NumLock''
                      then Some 0 else location)
      in case location of None \<Rightarrow> 0 | Some l \<Rightarrow> if l > 3 then 0 else l)"

definition getKeysym :: "platform \<Rightarrow> key_event \<Rightarrow> int option" where
  "getKeysym P e =
     (let key = getKey P e; code = getKeycode P e in
      if key = lit ''Unidentified'' then None
      else case map_of (map (map_prod lit id) DOMKeyTable) key of
             Some ks \<Rightarrow>
               if key = lit ''Meta'' \<and> code = ''AltLeft'' then XK ''XK_Meta_L''
               else if key = lit ''Meta'' \<and> code = ''AltRight'' then XK ''XK_Meta_R''
               else if key = lit ''Clear'' \<and> code = ''NumLock'' then XK ''XK_Num_Lock''
               else if isWindows P \<and> (key = lit ''Zenkaku'' \<or> key = lit ''Hankaku'')
               then XK ''XK_Zenkaku_Hankaku''
               else if isWindows P \<and> (key = lit ''Romaji'' \<or> key = lit ''KanaMode'')
               then XK ''XK_Romaji''
               else Some (ks ! clean_location P key e)
           | None \<Rightarrow>
               if length key \<noteq> 1 then None
               else if hd key \<noteq> 0 then Some (lookup_keysym (int (hd key)))
               else None)"

section \<open>Key tracking\<close>

record key_call =
  kkeysym :: "int option"
  kcode :: string
  kdown :: bool
  knumlock :: "bool option"
  kcapslock :: "bool option"

record keyboard =
  keyDownList :: "(string \<times> int option) list"
  altGrArmed :: bool
  altGrCtrlTime :: int
  grabbed :: bool
  keyEvents :: "key_call list"

definition new_keyboard :: keyboard where
  "new_keyboard = \<lparr>keyDownList = [], altGrArmed = False, altGrCtrlTime = 0, grabbed = False, keyEvents = []\<rparr>"

fun put_down :: "string \<Rightarrow> int option \<Rightarrow> (string \<times> int option) list \<Rightarrow> (string \<times> int option) list" where
  "put_down code k [] = [(code, k)]"
| "put_down code k ((c, v) # l) = (if c = code then (c, k) # l else (c, v) # put_down code k l)"

definition is_down :: "string \<Rightarrow> keyboard \<Rightarrow> bool" where
  "is_down code kb \<longleftrightarrow> code \<in> fst ` set (keyDownList kb)"

definition keysym_down :: "string \<Rightarrow> keyboard \<Rightarrow> int option" where
  "keysym_down code kb = Option.bind (map_of (keyDownList kb) code) id"

definition onkeyevent :: "key_call \<Rightarrow> keyboard \<Rightarrow> keyboard" where
  "onkeyevent c kb = kb\<lparr>keyEvents := keyEvents kb @ [c]\<rparr>"

definition sendKeyEvent ::
  "int option \<Rightarrow> string \<Rightarrow> bool \<Rightarrow> bool option \<Rightarrow> bool option \<Rightarrow> keyboard \<Rightarrow> keyboard" where
  "sendKeyEvent keysym code down numlock capslock kb =
     (let c = \<lparr>kkeysym = keysym, kcode = code, kdown = down, knumlock = numlock, kcapslock = capslock\<rparr> in
      if down then onkeyevent c (kb\<lparr>keyDownList := put_down code keysym (keyDownList kb)\<rparr>)
      else if \<not> is_down code kb then kb
      else onkeyevent c (kb\<lparr>keyDownList := filter (\<lambda>p. fst p \<noteq> code) (keyDownList kb)\<rparr>))"

definition press_release ::
  "int option \<Rightarrow> string \<Rightarrow> bool option \<Rightarrow> bool option \<Rightarrow> keyboard \<Rightarrow> keyboard" where
  "press_release keysym code numlock capslock kb =
     sendKeyEvent keysym code False numlock capslock (sendKeyEvent keysym code True numlock capslock kb)"

fun decimal :: "nat \<Rightarrow> string" where
  "decimal n = (if n < 10 then [char_of (48 + n)] else decimal (n div 10) @ [char_of (48 + n mod 10)])"

declare decimal.simps [simp del]

definition hex_digit :: "nat \<Rightarrow> nat option" where
  "hex_digit c =
     (if 48 \<le> c \<and> c \<le> 57 then Some (c - 48) else if 65 \<le> c \<and> c \<le> 70 then Some (c - 55)
      else if 97 \<le> c \<and> c \<le> 102 then Some (c - 87) else None)"

text \<open>\<open>parseInt(s, 16)\<close> reads the longest prefix of digits; without one the number is not a number,
  whose character is the null character.\<close>

fun parse_hex :: "jsstring \<Rightarrow> nat \<Rightarrow> nat" where
  "parse_hex [] acc = acc"
| "parse_hex (c # s) acc = (case hex_digit c of Some d \<Rightarrow> parse_hex s (acc * 16 + d) | None \<Rightarrow> acc)"

definition getKeyCode :: "platform \<Rightarrow> key_event \<Rightarrow> string" where
  "getKeyCode P e =
     (let code = getKeycode P e in
      if code \<noteq> ''Unidentified'' then code
      else if ekeyCode e \<noteq> 0 \<and> ekeyCode e \<noteq> 229 then ''Platform'' @ decimal (ekeyCode e)
      else if ekeyIdentifier e \<noteq> [] then
        if take 2 (ekeyIdentifier e) \<noteq> lit ''U+'' then map char_of (ekeyIdentifier e)
        else ''Platform'' @ decimal (toUpper P (parse_hex (drop 2 (ekeyIdentifier e)) 0 mod 65536))
      else ''Unidentified'')"

definition mac_keysym :: "int option \<Rightarrow> int option" where
  "mac_keysym keysym =
     (if keysym = XK ''XK_Super_L'' then XK ''XK_Alt_L''
      else if keysym = XK ''XK_Super_R'' then XK ''XK_Super_L''
      else if keysym = XK ''XK_Alt_L'' then XK ''XK_Mode_switch''
      else if keysym = XK ''XK_Alt_R'' then XK ''XK_ISO_Level3_Shift''
      else keysym)"

definition jpBadKeys :: "int option list" where
  "jpBadKeys = [XK ''XK_Zenkaku_Hankaku'', XK ''XK_Eisu_toggle'', XK ''XK_Katakana'',
     XK ''XK_Hiragana'', XK ''XK_Romaji'']"

text \<open>A keysym is truthy when it is neither null nor 0.\<close>

definition truthy :: "int option \<Rightarrow> bool" where
  "truthy k = (case k of None \<Rightarrow> False | Some n \<Rightarrow> n \<noteq> 0)"

definition handleKeyDown :: "platform \<Rightarrow> key_event \<Rightarrow> keyboard \<Rightarrow> keyboard" where
  "handleKeyDown P e kb =
     (let code = getKeyCode P e;
          keysym = getKeysym P e;
          apple = (isMac P \<or> isIOS P);
          numlock = (if apple then None else Some (enumlock e));
          capslock = Some (ecapslock e);
          (keysym, kb) =
            (if altGrArmed kb then
               let kb = kb\<lparr>altGrArmed := False\<rparr> in
               if code = ''AltRight'' \<and> etimeStamp e - altGrCtrlTime kb < 50
               then (XK ''XK_ISO_Level3_Shift'', kb)
               else (keysym, sendKeyEvent (XK ''XK_Control_L'') ''ControlLeft'' True numlock capslock kb)
             else (keysym, kb))
      in if code = ''Unidentified'' then
           if truthy keysym then press_release keysym code numlock capslock kb else kb
         else
           let keysym = (if apple then mac_keysym keysym else keysym);
               keysym = (if is_down code kb then keysym_down code kb else keysym)
           in if apple \<and> emetaKey e \<and> code \<noteq> ''MetaLeft'' \<and> code \<noteq> ''MetaRight''
              then press_release keysym code numlock capslock kb
              else if apple \<and> code = ''CapsLock''
              then press_release (XK ''XK_Caps_Lock'') ''CapsLock'' numlock capslock kb
              else if isWindows P \<and> keysym \<in> set jpBadKeys
              then press_release keysym code numlock capslock kb
              else if code = ''ControlLeft'' \<and> isWindows P \<and> \<not> is_down ''ControlLeft'' kb
              then kb\<lparr>altGrArmed := True, altGrCtrlTime := etimeStamp e\<rparr>
              else sendKeyEvent keysym code True numlock capslock kb)"

definition release :: "string \<Rightarrow> keyboard \<Rightarrow> keyboard" where
  "release code kb = sendKeyEvent (keysym_down code kb) code False None None kb"

definition handleKeyUp :: "platform \<Rightarrow> key_event \<Rightarrow> keyboard \<Rightarrow> keyboard" where
  "handleKeyUp P e kb =
     (let code = getKeyCode P e;
          kb = (if altGrArmed kb
                then sendKeyEvent (XK ''XK_Control_L'') ''ControlLeft'' True None None (kb\<lparr>altGrArmed := False\<rparr>)
                else kb)
      in if (isMac P \<or> isIOS P) \<and> code = ''CapsLock''
         then press_release (XK ''XK_Caps_Lock'') ''CapsLock'' None None kb
         else
           let kb = release code kb
           in if isWindows P \<and> (code = ''ShiftLeft'' \<or> code = ''ShiftRight'') then
                let kb = (if is_down ''ShiftRight'' kb then release ''ShiftRight'' kb else kb)
                in if is_down ''ShiftLeft'' kb then release ''ShiftLeft'' kb else kb
              else kb)"

definition handleAltGrTimeout :: "keyboard \<Rightarrow> keyboard" where
  "handleAltGrTimeout kb =
     sendKeyEvent (XK ''XK_Control_L'') ''ControlLeft'' True None None (kb\<lparr>altGrArmed := False\<rparr>)"

definition allKeysUp :: "keyboard \<Rightarrow> keyboard" where
  "allKeysUp kb = fold (\<lambda>p kb. release (fst p) kb) (keyDownList kb) kb"

definition grab :: "keyboard \<Rightarrow> keyboard" where
  "grab kb = kb\<lparr>grabbed := True\<rparr>"

definition ungrab :: "keyboard \<Rightarrow> keyboard" where
  "ungrab kb = allKeysUp (kb\<lparr>grabbed := False\<rparr>)"

section \<open>Presses and releases\<close>

text \<open>What the receiver of the calls holds pressed: the keysym of the last press of every key that was
  not released since. A sequence of calls is well formed when every release names the keysym under
  which the key was pressed.\<close>

definition hold :: "key_call \<Rightarrow> (string \<rightharpoonup> int option) \<Rightarrow> (string \<rightharpoonup> int option)" where
  "hold c h = (if kdown c then h(kcode c \<mapsto> kkeysym c) else h(kcode c := None))"

definition held :: "key_call list \<Rightarrow> (string \<rightharpoonup> int option)" where
  "held cs = fold hold cs Map.empty"

fun well_paired :: "key_call list \<Rightarrow> (string \<rightharpoonup> int option) \<Rightarrow> bool" where
  "well_paired [] h = True"
| "well_paired (c # cs) h = ((kdown c \<or> h (kcode c) = Some (kkeysym c)) \<and> well_paired cs (hold c h))"

definition kb_ok :: "keyboard \<Rightarrow> bool" where
  "kb_ok kb \<longleftrightarrow> distinct (map fst (keyDownList kb)) \<and> held (keyEvents kb) = map_of (keyDownList kb) \<and>
     well_paired (keyEvents kb) Map.empty"

lemma held_snoc: "held (cs @ [c]) = hold c (held cs)"
  by (simp add: held_def)

lemma well_paired_append: "well_paired (cs @ ds) h = (well_paired cs h \<and> well_paired ds (fold hold cs h))"
  by (induction cs arbitrary: h) auto

lemma well_paired_snoc:
  "well_paired (cs @ [c]) Map.empty =
    (well_paired cs Map.empty \<and> (kdown c \<or> held cs (kcode c) = Some (kkeysym c)))"
  by (simp add: well_paired_append held_def)

lemma map_of_put_down: "map_of (put_down c k l) = (map_of l)(c \<mapsto> k)"
  by (induction l) (auto simp: fun_eq_iff)

lemma keys_put_down: "fst ` set (put_down c k l) = insert c (fst ` set l)"
  using dom_map_of_conv_image_fst [of "put_down c k l"]
  by (simp add: map_of_put_down dom_map_of_conv_image_fst)

lemma distinct_put_down: "distinct (map fst l) \<Longrightarrow> distinct (map fst (put_down c k l))"
  by (induction l) (auto simp: keys_put_down)

lemma map_of_filter_key: "map_of (filter (\<lambda>p. fst p \<noteq> c) l) = (map_of l)(c := None)"
  by (induction l) (auto simp: fun_eq_iff)

lemma press_ok: "kb_ok kb \<Longrightarrow> kb_ok (sendKeyEvent k c True nl cl kb)"
  by (simp add: sendKeyEvent_def onkeyevent_def kb_ok_def held_snoc hold_def well_paired_snoc
      map_of_put_down distinct_put_down)

text \<open>A release keeps the invariant when it names the keysym the key is held under.\<close>

lemma release_as_held:
  "kb_ok kb \<Longrightarrow> (is_down c kb \<Longrightarrow> map_of (keyDownList kb) c = Some k) \<Longrightarrow>
    kb_ok (sendKeyEvent k c False nl cl kb)"
  by (auto simp: sendKeyEvent_def onkeyevent_def kb_ok_def held_snoc hold_def well_paired_snoc
      map_of_filter_key distinct_map_filter)

lemma is_down_map_of: "is_down c kb \<longleftrightarrow> (\<exists>k. map_of (keyDownList kb) c = Some k)"
  unfolding is_down_def by (metis domD domI dom_map_of_conv_image_fst)

lemma release_ok: "kb_ok kb \<Longrightarrow> kb_ok (release c kb)"
  unfolding release_def
  by (rule release_as_held) (auto simp: is_down_map_of keysym_down_def)

lemma press_release_ok: "kb_ok kb \<Longrightarrow> kb_ok (press_release k c nl cl kb)"
  unfolding press_release_def
  by (rule release_as_held, erule press_ok) (simp add: sendKeyEvent_def onkeyevent_def map_of_put_down)

lemma kb_ok_fields [simp]:
  "kb_ok (kb\<lparr>altGrArmed := a\<rparr>) = kb_ok kb" "kb_ok (kb\<lparr>altGrCtrlTime := t\<rparr>) = kb_ok kb"
  "kb_ok (kb\<lparr>grabbed := g\<rparr>) = kb_ok kb"
  by (simp_all add: kb_ok_def)

lemma kb_ok_if:
  "(b \<Longrightarrow> kb_ok x) \<Longrightarrow> (\<not> b \<Longrightarrow> kb_ok y) \<Longrightarrow> kb_ok (if b then x else y)"
  "(b \<Longrightarrow> kb_ok (snd p)) \<Longrightarrow> (\<not> b \<Longrightarrow> kb_ok (snd q)) \<Longrightarrow> kb_ok (snd (if b then p else q))"
  by simp_all

lemma kb_ok_pair: "kb_ok x \<Longrightarrow> kb_ok (snd (k, x))"
  by simp

lemmas kb_steps = kb_ok_if kb_ok_pair press_ok release_ok press_release_ok kb_ok_fields [THEN iffD2]

lemma handleKeyDown_ok: "kb_ok kb \<Longrightarrow> kb_ok (handleKeyDown P e kb)"
  unfolding handleKeyDown_def Let_def case_prod_beta by (intro kb_steps)

lemma handleKeyUp_ok: "kb_ok kb \<Longrightarrow> kb_ok (handleKeyUp P e kb)"
  unfolding handleKeyUp_def Let_def by (intro kb_steps)

lemma allKeysUp_ok: "kb_ok kb \<Longrightarrow> kb_ok (allKeysUp kb)"
proof -
  have "kb_ok kb \<Longrightarrow> kb_ok (fold (\<lambda>p kb. release (fst p) kb) l kb)" for l
    by (induction l arbitrary: kb) (auto intro: release_ok)
  then show "kb_ok kb \<Longrightarrow> kb_ok (allKeysUp kb)" by (simp add: allKeysUp_def)
qed

lemma keys_release: "fst ` set (keyDownList (release c kb)) = fst ` set (keyDownList kb) - {c}"
  by (auto simp: release_def sendKeyEvent_def onkeyevent_def is_down_def image_iff)

lemma allKeysUp_none: "keyDownList (allKeysUp kb) = []"
proof -
  have "fst ` set (keyDownList (fold (\<lambda>p kb. release (fst p) kb) l kb)) =
      fst ` set (keyDownList kb) - fst ` set l" for l
    by (induction l arbitrary: kb) (auto simp: keys_release)
  from this [of "keyDownList kb"] show ?thesis by (simp add: allKeysUp_def)
qed

datatype kb_input = KeyDown key_event | KeyUp key_event | AltGrTimeout | Blur | Grab | Ungrab

fun kb_step :: "platform \<Rightarrow> kb_input \<Rightarrow> keyboard \<Rightarrow> keyboard" where
  "kb_step P (KeyDown e) kb = handleKeyDown P e kb"
| "kb_step P (KeyUp e) kb = handleKeyUp P e kb"
| "kb_step P AltGrTimeout kb = handleAltGrTimeout kb"
| "kb_step P Blur kb = allKeysUp kb"
| "kb_step P Grab kb = grab kb"
| "kb_step P Ungrab kb = ungrab kb"

definition kb_run :: "platform \<Rightarrow> kb_input list \<Rightarrow> keyboard" where
  "kb_run P is = fold (kb_step P) is new_keyboard"

lemma kb_step_ok: "kb_ok kb \<Longrightarrow> kb_ok (kb_step P i kb)"
  by (cases i) (simp_all add: handleKeyDown_ok handleKeyUp_ok handleAltGrTimeout_def press_ok
      allKeysUp_ok grab_def ungrab_def)

lemma kb_run_ok: "kb_ok (kb_run P is)"
proof -
  have "kb_ok kb \<Longrightarrow> kb_ok (fold (kb_step P) is kb)" for kb
    by (induction "is" arbitrary: kb) (auto intro: kb_step_ok)
  then show ?thesis by (simp add: kb_run_def new_keyboard_def kb_ok_def held_def)
qed

text \<open>C21: Keys are released as they were pressed. Whatever keyboard events, time-outs, focus losses and
  grabs occur, on any platform, every release that is reported names the keysym under which that key
  was last pressed, and once the window loses focus or the keyboard is released from the canvas,
  nothing that was reported pressed is still held.\<close>

theorem keys_released_as_pressed:
  "well_paired (keyEvents (kb_run P is)) Map.empty \<and>
   held (keyEvents (kb_run P (is @ [Blur]))) = Map.empty \<and>
   held (keyEvents (kb_run P (is @ [Ungrab]))) = Map.empty"
proof -
  have "kb_ok (kb_run P (is @ [i]))" for i by (rule kb_run_ok)
  from this [of Blur] this [of Ungrab] kb_run_ok [of P "is"] show ?thesis
    by (simp add: kb_ok_def kb_run_def ungrab_def allKeysUp_none)
qed

section \<open>Keysym tables\<close>

text \<open>An entry of the table of code points: its keysym is a legacy one, below the range of the
  keysyms made from code points, with two exceptions.\<close>

definition legacy_entry :: "int \<times> int \<Rightarrow> bool" where
  "legacy_entry p \<longleftrightarrow> (0x100 \<le> fst p \<and> fst p < 0x10000 \<and> 0x100 \<le> snd p \<and> snd p < 0x1000000) \<or>
     p = (0x1d2, 0x10001d1) \<or> p = (0x2245, 0x1002248)"

lemma codepoints_legacy: "list_all legacy_entry codepoints"
proof -
  have "list_all legacy_entry codepoints1" by code_simp
  moreover have "list_all legacy_entry codepoints2" by code_simp
  moreover have "list_all legacy_entry codepoints3" by code_simp
  moreover have "list_all legacy_entry codepoints4" by code_simp
  moreover have "list_all legacy_entry codepoints5" by code_simp
  ultimately show ?thesis by (simp add: codepoints_def)
qed

lemma unicode_keysym: "0 \<le> u \<Longrightarrow> u < 0x10000 \<Longrightarrow> js_or 0x01000000 u = 0x01000000 + u"
  using js_or_disjoint [of 1 u 24] by simp

lemma tabled_keysym: "map_of codepoints u = Some k \<Longrightarrow> legacy_entry (u, k)"
  using codepoints_legacy by (auto simp: list_all_iff dest!: map_of_SomeD)

lemma capital_o_caron:
  "map_of codepoints1 0x1d1 = None" "map_of codepoints2 0x1d1 = None" "map_of codepoints3 0x1d1 = None"
  "map_of codepoints4 0x1d1 = None" "map_of codepoints5 0x1d1 = None"
  by (simp add: codepoints1_def, simp add: codepoints2_def, simp add: codepoints3_def,
      simp add: codepoints4_def, simp add: codepoints5_def)

lemma almost_equal:
  "map_of codepoints1 0x2248 = None" "map_of codepoints2 0x2248 = None" "map_of codepoints3 0x2248 = None"
  "map_of codepoints4 0x2248 = None" "map_of codepoints5 0x2248 = None"
  by (simp add: codepoints1_def, simp add: codepoints2_def, simp add: codepoints3_def,
      simp add: codepoints4_def, simp add: codepoints5_def)

lemma odd_entries:
  "map_of codepoints 0x1d2 = Some 0x10001d1" "map_of codepoints 0x1d1 = None"
  "map_of codepoints 0x2245 = Some 0x1002248" "map_of codepoints 0x2248 = None"
proof -
  have "map_of codepoints1 0x1d2 = Some 0x10001d1" by (simp add: codepoints1_def)
  then show "map_of codepoints 0x1d2 = Some 0x10001d1" by (simp add: codepoints_def map_add_def)
  show "map_of codepoints 0x1d1 = None" "map_of codepoints 0x2248 = None"
    by (simp_all add: codepoints_def capital_o_caron almost_equal)
  have "map_of codepoints1 0x2245 = None" by (simp add: codepoints1_def)
  moreover have "map_of codepoints2 0x2245 = None" by (simp add: codepoints2_def)
  moreover have "map_of codepoints3 0x2245 = None" by (simp add: codepoints3_def)
  moreover have "map_of codepoints4 0x2245 = Some 0x1002248" by (simp add: codepoints4_def)
  ultimately show "map_of codepoints 0x2245 = Some 0x1002248" by (simp add: codepoints_def map_add_def)
qed

text \<open>A character outside the table of legacy keysyms shares its keysym with no other character
  of the basic plane, with two exceptions: the small o with caron is sent as the capital one, because
  the table maps U+01D2 to the keysym of U+01D1, and "approximately equal to" (U+2245) is sent as
  "almost equal to" (U+2248).\<close>

theorem keysym_lookup_collision:
  assumes "0 \<le> u" "u < 0x10000" "0 \<le> v" "v < 0x10000" "map_of codepoints v = None"
  shows "lookup_keysym u = lookup_keysym v \<longleftrightarrow> u = v \<or> u = 0x1d2 \<and> v = 0x1d1 \<or> u = 0x2245 \<and> v = 0x2248"
proof -
  have v: "lookup_keysym v = (if 0x20 \<le> v \<and> v \<le> 0xff then v else 0x01000000 + v)"
    using assms unicode_keysym by (simp add: lookup_keysym_def)
  show ?thesis
  proof (cases "\<exists>k. \<not> (0x20 \<le> u \<and> u \<le> 0xff) \<and> map_of codepoints u = Some k")
    case False
    then have "lookup_keysym u = (if 0x20 \<le> u \<and> u \<le> 0xff then u else 0x01000000 + u)"
      using assms unicode_keysym by (auto simp: lookup_keysym_def split: option.splits)
    then show ?thesis using v assms False odd_entries by auto
  next
    case True
    then obtain k where k: "map_of codepoints u = Some k" "lookup_keysym u = k"
      by (auto simp: lookup_keysym_def)
    then have "u \<noteq> v" "u = 0x1d2 \<Longrightarrow> k = 0x10001d1" "u = 0x2245 \<Longrightarrow> k = 0x1002248"
      using assms(5) odd_entries(1,3) by auto
    with k tabled_keysym [OF k(1)] v assms show ?thesis
      by (auto simp: legacy_entry_def split: if_splits)
  qed
qed

end
