(* ===== verification/Deflator.thy ===== *)
theory Deflator
  imports Websock
begin

text \<open>
  The wrapper around the zlib compressor, \<open>core/deflator.js\<close>. The compressor is a third-party
  package and a parameter: \<open>zdeflate\<close> takes the stream, the input left and the room for output, and
  returns the status, the output, the input left and the stream.
\<close>

record 'd zdeflator =
  dinit :: 'd
  zdeflate :: "'d \<Rightarrow> bytes \<Rightarrow> nat \<Rightarrow> int \<times> bytes \<times> bytes \<times> 'd"

record 'd deflator =
  dstrm :: 'd
  dchunkSize :: nat

definition new_deflator :: "'d zdeflator \<Rightarrow> 'd deflator" where
  "new_deflator D = \<lparr>dstrm = dinit D, dchunkSize = 1024 * 10 * 10\<rparr>"

text \<open>The loop that reads chunks until the input is used up; it ends only if the compressor takes some
  input again and again.\<close>

partial_function (option) deflate_chunks ::
  "'d zdeflator \<Rightarrow> bytes \<Rightarrow> bytes \<Rightarrow> 'd deflator \<Rightarrow> (bytes outcome \<times> 'd deflator) option" where
  "deflate_chunks D acc inp d =
     (case zdeflate D (dstrm d) inp (dchunkSize d) of (ret, out, rest, st) \<Rightarrow>
        if ret < 0 then Some (Throw (ErrorMsg ''zlib deflate failed''), d\<lparr>dstrm := st\<rparr>)
        else if rest \<noteq> [] then deflate_chunks D (acc @ out) rest (d\<lparr>dstrm := st\<rparr>)
        else Some (Ret (acc @ out), d\<lparr>dstrm := st\<rparr>))"

definition deflate :: "'d zdeflator \<Rightarrow> bytes \<Rightarrow> 'd deflator \<Rightarrow> bytes outcome \<times> 'd deflator" where
  "deflate D inData d =
     (let (lastRet, outData, rest, st) = zdeflate D (dstrm d) inData (dchunkSize d);
          d1 = d\<lparr>dstrm := st\<rparr>
      in if lastRet < 0 then (Throw (ErrorMsg ''zlib deflate failed''), d1)
         else if rest = [] then (Ret outData, d1)
         else case deflate_chunks D outData rest d1 of None \<Rightarrow> (Hang, d1) | Some r \<Rightarrow> r)"

text \<open>A compressor that stores its input: as many bytes as there is room for.\<close>

definition stored_deflate :: "unit zdeflator" where
  "stored_deflate = \<lparr>dinit = (), zdeflate = (\<lambda>st inp room. (0, take room inp, drop room inp, st))\<rparr>"

end
