(* ===== verification/Strings.thy ===== *)
theory Strings
  imports Prelude
begin

text \<open>
  Conversion between JavaScript strings and UTF-8, \<open>core/util/strings.js\<close>. The source composes four
  functions of the language: \<open>unescape (encodeURIComponent s)\<close> turns every code point into its UTF-8
  octets, one character each, and \<open>decodeURIComponent (escape s)\<close> goes back. Both raise a URIError:
  the encoder on a surrogate without its partner, the decoder on a character that is not an octet and
  on octets that are not the shortest encoding of a code point.
\<close>

section \<open>Code points\<close>

definition high_surrogate :: "nat \<Rightarrow> bool" where
  "high_surrogate c \<longleftrightarrow> 0xD800 \<le> c \<and> c \<le> 0xDBFF"

definition low_surrogate :: "nat \<Rightarrow> bool" where
  "low_surrogate c \<longleftrightarrow> 0xDC00 \<le> c \<and> c \<le> 0xDFFF"

definition utf8_octets :: "nat \<Rightarrow> nat list" where
  "utf8_octets v =
     (if v < 0x80 then [v]
      else if v < 0x800 then [0xC0 + v div 64, 0x80 + v mod 64]
      else if v < 0x10000 then [0xE0 + v div 4096, 0x80 + v div 64 mod 64, 0x80 + v mod 64]
      else [0xF0 + v div 262144, 0x80 + v div 4096 mod 64, 0x80 + v div 64 mod 64, 0x80 + v mod 64])"

definition utf16_units :: "nat \<Rightarrow> jsstring" where
  "utf16_units v =
     (if v < 0x10000 then [v]
      else [0xD800 + (v - 0x10000) div 1024, 0xDC00 + (v - 0x10000) mod 1024])"

definition code_point :: "nat \<Rightarrow> bool" where
  "code_point v \<longleftrightarrow> v < 0x110000 \<and> \<not> high_surrogate v \<and> \<not> low_surrogate v"

section \<open>Encoding\<close>

text \<open>The next code point of a string, as the iteration of the language takes it, and the rest.\<close>

fun utf16_next :: "jsstring \<Rightarrow> (nat \<times> jsstring) option" where
  "utf16_next [] = None"
| "utf16_next (c # s) =
     (if low_surrogate c then None
      else if \<not> high_surrogate c then Some (c, s)
      else case s of
             [] \<Rightarrow> None
           | d # r \<Rightarrow> if low_surrogate d then Some (0x10000 + (c - 0xD800) * 1024 + (d - 0xDC00), r) else None)"

text \<open>Decoding a list of units of either form into code points.\<close>

lemma utf16_next_shorter: "utf16_next s = Some (v, r) \<Longrightarrow> length r < length s"
  by (cases s) (auto split: if_splits list.splits)

function utf16_points :: "jsstring \<Rightarrow> nat list option" where
  "utf16_points s =
     (if s = [] then Some []
      else case utf16_next s of
             None \<Rightarrow> None
           | Some (v, r) \<Rightarrow> map_option ((#) v) (utf16_points r))"
  by pat_completeness auto
termination by (relation "measure length") (auto dest: utf16_next_shorter)

declare utf16_points.simps [simp del]

definition encodeUTF8 :: "jsstring \<Rightarrow> jsstring outcome" where
  "encodeUTF8 s =
     (case utf16_points s of
        None \<Rightarrow> Throw URIError
      | Some vs \<Rightarrow> Ret (concat (map utf8_octets vs)))"

section \<open>Decoding\<close>

definition continuation :: "nat \<Rightarrow> bool" where
  "continuation b \<longleftrightarrow> 0x80 \<le> b \<and> b < 0xC0"

fun utf8_next :: "jsstring \<Rightarrow> (nat \<times> jsstring) option" where
  "utf8_next [] = None"
| "utf8_next (b # s) =
     (if b < 0x80 then Some (b, s)
      else
        let n = (if 0xC0 \<le> b \<and> b < 0xE0 then 1 else if 0xE0 \<le> b \<and> b < 0xF0 then 2
                 else if 0xF0 \<le> b \<and> b < 0xF8 then 3 else 0);
            cs = take n s;
            v = foldl (\<lambda>v c. v * 64 + (c - 0x80))
                  (if n = 1 then b - 0xC0 else if n = 2 then b - 0xE0 else b - 0xF0) cs
        in if n = 0 \<or> length s < n \<or> \<not> list_all continuation cs then None
           else if code_point v \<and> utf8_octets v = b # cs then Some (v, drop n s) else None)"

lemma utf8_next_shorter: "utf8_next s = Some (v, r) \<Longrightarrow> length r < length s"
  by (cases s) (auto simp: Let_def split: if_splits)

function utf8_points :: "jsstring \<Rightarrow> nat list option" where
  "utf8_points s =
     (if s = [] then Some []
      else case utf8_next s of
             None \<Rightarrow> None
           | Some (v, r) \<Rightarrow> map_option ((#) v) (utf8_points r))"
  by pat_completeness auto
termination by (relation "measure length") (auto dest: utf8_next_shorter)

declare utf8_points.simps [simp del]

definition decodeUTF8 :: "jsstring \<Rightarrow> bool \<Rightarrow> jsstring outcome" where
  "decodeUTF8 utf8string allowLatin1 =
     (case utf8_points utf8string of
        Some vs \<Rightarrow> Ret (concat (map utf16_units vs))
      | None \<Rightarrow> if allowLatin1 then Ret utf8string else Throw URIError)"

section \<open>Round trips\<close>

text \<open>A code: units \<open>enc v\<close> of every valid value, and a reader that takes one value off the front.
  Reading inverts writing for lists once it does for one value.\<close>

locale prefix_code =
  fixes enc :: "nat \<Rightarrow> jsstring" and ok :: "jsstring \<Rightarrow> bool"
    and nxt :: "jsstring \<Rightarrow> (nat \<times> jsstring) option"
    and pts :: "jsstring \<Rightarrow> nat list option"
  assumes nxt_enc: "code_point v \<Longrightarrow> nxt (enc v @ r) = Some (v, r)"
    and nxt_sound: "ok s \<Longrightarrow> nxt s = Some (v, r) \<Longrightarrow> code_point v \<and> s = enc v @ r \<and> ok r"
    and enc_nonempty: "enc v \<noteq> []"
    and pts_rec: "pts s = (if s = [] then Some [] else
      case nxt s of None \<Rightarrow> None | Some (v, r) \<Rightarrow> map_option ((#) v) (pts r))"
begin

lemma pts_complete: "list_all code_point vs \<Longrightarrow> pts (concat (map enc vs)) = Some vs"
proof (induction vs)
  case Nil
  then show ?case by (simp add: pts_rec)
next
  case (Cons v vs)
  then show ?case by (subst pts_rec) (simp add: nxt_enc enc_nonempty)
qed

lemma pts_sound: "ok s \<Longrightarrow> pts s = Some vs \<Longrightarrow> list_all code_point vs \<and> s = concat (map enc vs)"
proof (induction "length s" arbitrary: s vs rule: less_induct)
  case less
  show ?case
  proof (cases "s = []")
    case True
    then show ?thesis using less.prems by (simp add: pts_rec)
  next
    case False
    then obtain v r ws where n: "nxt s = Some (v, r)" "pts r = Some ws" "vs = v # ws"
      using less.prems by (subst (asm) pts_rec) (auto split: option.splits)
    have f: "code_point v" "s = enc v @ r" "ok r" using nxt_sound [OF less.prems(1) n(1)] by auto
    then have "length r < length s" using enc_nonempty by simp
    then show ?thesis using less.hyps [of r ws] n f by simp
  qed
qed

end

lemma fold_octets:
  fixes v :: nat
  shows "v div 64 * 64 + v mod 64 = v"
    "(v div 4096 * 64 + v div 64 mod 64) * 64 + v mod 64 = v"
    "((v div 262144 * 64 + v div 4096 mod 64) * 64 + v div 64 mod 64) * 64 + v mod 64 = v"
proof -
  have a: "v div 4096 = v div 64 div 64" "v div 262144 = v div 64 div 64 div 64"
    by (simp_all add: div_mult2_eq [symmetric])
  show "v div 64 * 64 + v mod 64 = v" by simp
  then show "(v div 4096 * 64 + v div 64 mod 64) * 64 + v mod 64 = v"
    unfolding a by simp
  then show "((v div 262144 * 64 + v div 4096 mod 64) * 64 + v div 64 mod 64) * 64 + v mod 64 = v"
    unfolding a by simp
qed

lemma continuation_octet [simp]: "continuation (0x80 + w mod 64)"
  by (simp add: continuation_def)

lemma utf8_next_octets:
  assumes "code_point v"
  shows "utf8_next (utf8_octets v @ r) = Some (v, r)"
proof -
  have v: "v < 0x110000" using assms by (simp add: code_point_def)
  consider "v < 0x80" | "0x80 \<le> v" "v < 0x800" | "0x800 \<le> v" "v < 0x10000" | "0x10000 \<le> v"
    by linarith
  then show ?thesis
  proof cases
    case 1
    then show ?thesis by (simp add: utf8_octets_def)
  next
    case 2
    then have "v div 64 < 32" "v div 64 \<ge> 2" by (simp_all add: less_mult_imp_div_less div_le_mono [of 128 v 64, simplified])
    moreover have "utf8_octets v = [0xC0 + v div 64, 0x80 + v mod 64]" using 2 by (simp add: utf8_octets_def)
    ultimately show ?thesis using assms fold_octets(1) [of v]
      by (simp add: Let_def del: div_mult_mod_eq)
  next
    case 3
    then have "v div 4096 < 16" by (simp add: less_mult_imp_div_less)
    moreover have "utf8_octets v = [0xE0 + v div 4096, 0x80 + v div 64 mod 64, 0x80 + v mod 64]"
      using 3 by (simp add: utf8_octets_def)
    ultimately show ?thesis using assms fold_octets(2) [of v]
      by (simp add: Let_def del: div_mult_mod_eq)
  next
    case 4
    then have "v div 262144 < 8" using v by (simp add: less_mult_imp_div_less)
    moreover have "utf8_octets v =
        [0xF0 + v div 262144, 0x80 + v div 4096 mod 64, 0x80 + v div 64 mod 64, 0x80 + v mod 64]"
      using 4 by (simp add: utf8_octets_def)
    ultimately show ?thesis using assms fold_octets(3) [of v]
      by (simp add: Let_def del: div_mult_mod_eq)
  qed
qed

lemma utf8_next_sound: "utf8_next s = Some (v, r) \<Longrightarrow> code_point v \<and> s = utf8_octets v @ r"
proof (cases s)
  case (Cons b t)
  assume n: "utf8_next s = Some (v, r)"
  show ?thesis
  proof (cases "b < 0x80")
    case True
    then show ?thesis using n Cons
      by (auto simp: utf8_octets_def code_point_def high_surrogate_def low_surrogate_def)
  next
    case False
    then show ?thesis using n Cons by (auto simp: Let_def split: if_splits)
  qed
qed simp

lemma utf16_next_units:
  assumes "code_point v"
  shows "utf16_next (utf16_units v @ r) = Some (v, r)"
proof (cases "v < 0x10000")
  case True
  then show ?thesis using assms by (simp add: utf16_units_def code_point_def)
next
  case False
  define w where "w = v - 0x10000"
  have w: "v = 0x10000 + w" "w < 1048576" using False assms by (auto simp: w_def code_point_def)
  define a b where "a = w div 1024" and "b = w mod 1024"
  have "utf16_units v = [0xD800 + a, 0xDC00 + b]" using w by (simp add: utf16_units_def a_def b_def)
  moreover have "a < 1024" "b < 1024" "v = 0x10000 + a * 1024 + b"
    using w by (simp_all add: a_def b_def less_mult_imp_div_less)
  ultimately show ?thesis by (simp add: high_surrogate_def low_surrogate_def)
qed

lemma utf16_next_sound:
  assumes "utf16_next s = Some (v, r)" "list_all (\<lambda>c. c < 0x10000) s"
  shows "code_point v \<and> s = utf16_units v @ r"
proof (cases s)
  case (Cons c t)
  show ?thesis
  proof (cases "high_surrogate c")
    case False
    then show ?thesis using assms Cons by (auto simp: code_point_def utf16_units_def split: if_splits)
  next
    case True
    then obtain d where d: "t = d # r" "low_surrogate d" "v = 0x10000 + (c - 0xD800) * 1024 + (d - 0xDC00)"
      using assms Cons by (auto simp: high_surrogate_def low_surrogate_def split: if_splits list.splits)
    define a b where "a = c - 0xD800" and "b = d - 0xDC00"
    have "c = 0xD800 + a" "d = 0xDC00 + b" "a < 1024" "b < 1024"
      using True d(2) by (auto simp: a_def b_def high_surrogate_def low_surrogate_def)
    then show ?thesis using Cons d
      by (simp add: utf16_units_def code_point_def high_surrogate_def low_surrogate_def)
  qed
qed (use assms in simp)

interpretation utf8: prefix_code utf8_octets "\<lambda>_. True" utf8_next utf8_points
proof
  show "utf8_octets v \<noteq> []" for v by (simp add: utf8_octets_def)
  show "utf8_points s = (if s = [] then Some [] else
      case utf8_next s of None \<Rightarrow> None | Some (v, r) \<Rightarrow> map_option ((#) v) (utf8_points r))" for s
    by (rule utf8_points.simps)
qed (use utf8_next_octets utf8_next_sound in auto)

text \<open>The units of a string are 16-bit numbers.\<close>

abbreviation units16 :: "jsstring \<Rightarrow> bool" where
  "units16 \<equiv> list_all (\<lambda>c. c < 0x10000)"

interpretation utf16: prefix_code utf16_units units16 utf16_next utf16_points
proof
  show "utf16_units v \<noteq> []" for v by (simp add: utf16_units_def)
  show "utf16_points s = (if s = [] then Some [] else
      case utf16_next s of None \<Rightarrow> None | Some (v, r) \<Rightarrow> map_option ((#) v) (utf16_points r))" for s
    by (rule utf16_points.simps)
  show "code_point v \<and> s = utf16_units v @ r \<and> units16 r"
    if "units16 s" "utf16_next s = Some (v, r)" for s v r
    using utf16_next_sound [OF that(2,1)] that(1) by (metis list_all_append)
qed (rule utf16_next_units)

lemma utf16_points_steps:
  "utf16_points [] = Some []"
  "\<not> high_surrogate c \<Longrightarrow> \<not> low_surrogate c \<Longrightarrow>
    utf16_points (c # s) = map_option ((#) c) (utf16_points s)"
  "high_surrogate c \<Longrightarrow> low_surrogate d \<Longrightarrow> utf16_points (c # d # s) =
    map_option ((#) (0x10000 + (c - 0xD800) * 1024 + (d - 0xDC00))) (utf16_points s)"
  by (simp add: utf16_points.simps [of "[]"], simp add: utf16_points.simps [of "c # s"],
      auto simp: utf16_points.simps [of "c # d # s"] high_surrogate_def low_surrogate_def)

text \<open>C28: Text survives the UTF-8 conversions in both directions: decoding what \<open>encodeUTF8\<close> returned
  for a string of 16-bit units gives the string back, whether or not Latin-1 is allowed, and encoding
  what \<open>decodeUTF8\<close> returned for a string it accepts gives that string back.\<close>

theorem utf8_roundtrip:
  assumes "units16 s"
  shows "(encodeUTF8 s = Ret u \<longrightarrow> decodeUTF8 u l = Ret s) \<and>
    (decodeUTF8 w False = Ret s \<longrightarrow> encodeUTF8 s = Ret w)"
proof (intro conjI impI)
  assume "encodeUTF8 s = Ret u"
  then obtain vs where "utf16_points s = Some vs" "u = concat (map utf8_octets vs)"
    by (auto simp: encodeUTF8_def split: option.splits)
  with utf16.pts_sound [OF assms, of vs] utf8.pts_complete [of vs] show "decodeUTF8 u l = Ret s"
    by (simp add: decodeUTF8_def)
next
  assume "decodeUTF8 w False = Ret s"
  then obtain vs where "utf8_points w = Some vs" "s = concat (map utf16_units vs)"
    by (auto simp: decodeUTF8_def split: option.splits)
  with utf8.pts_sound [of w vs] utf16.pts_complete [of vs] show "encodeUTF8 s = Ret w"
    by (simp add: encodeUTF8_def)
qed

theorem utf8_roundtrip_witness:
  "decodeUTF8 [0x41, 0xC3, 0xA9, 0xF0, 0x9F, 0x98, 0x80] True = Ret [0x41, 0xE9, 0xD83D, 0xDE00]"
proof -
  have "encodeUTF8 [0x41, 0xE9, 0xD83D, 0xDE00] = Ret [0x41, 0xC3, 0xA9, 0xF0, 0x9F, 0x98, 0x80]"
    by (simp add: encodeUTF8_def utf16_points_steps low_surrogate_def high_surrogate_def utf8_octets_def)
  then show ?thesis
    using utf8_roundtrip [of "[0x41, 0xE9, 0xD83D, 0xDE00]", THEN conjunct1, rule_format] by simp
qed

end
