(* ===== verification/Rfb_Messages.thy ===== *)
theory Rfb_Messages
  imports Deflator Strings
begin

text \<open>
  The client to server messages of the RFB protocol, the object \<open>RFB.messages\<close> of \<open>core/rfb.js\<close>, and
  the numbers of \<open>core/encodings.js\<close>. A message is the sequence of pushes on the send queue that the
  source makes, and a flush. Messages that push whole byte arrays may not return, see
  \<open>Websock.sQpushBytes\<close>, and return an outcome.
\<close>

section \<open>Encodings\<close>

definition encodingRaw :: int where "encodingRaw = 0"
definition encodingCopyRect :: int where "encodingCopyRect = 1"
definition encodingRRE :: int where "encodingRRE = 2"
definition encodingHextile :: int where "encodingHextile = 5"
definition encodingTight :: int where "encodingTight = 7"
definition encodingZRLE :: int where "encodingZRLE = 16"
definition encodingTightPNG :: int where "encodingTightPNG = - 260"
definition encodingJPEG :: int where "encodingJPEG = 21"
definition pseudoEncodingQualityLevel9 :: int where "pseudoEncodingQualityLevel9 = - 23"
definition pseudoEncodingQualityLevel0 :: int where "pseudoEncodingQualityLevel0 = - 32"
definition pseudoEncodingDesktopSize :: int where "pseudoEncodingDesktopSize = - 223"
definition pseudoEncodingLastRect :: int where "pseudoEncodingLastRect = - 224"
definition pseudoEncodingCursor :: int where "pseudoEncodingCursor = - 239"
definition pseudoEncodingQEMUExtendedKeyEvent :: int where "pseudoEncodingQEMUExtendedKeyEvent = - 258"
definition pseudoEncodingQEMULedEvent :: int where "pseudoEncodingQEMULedEvent = - 261"
definition pseudoEncodingDesktopName :: int where "pseudoEncodingDesktopName = - 307"
definition pseudoEncodingExtendedDesktopSize :: int where "pseudoEncodingExtendedDesktopSize = - 308"
definition pseudoEncodingXvp :: int where "pseudoEncodingXvp = - 309"
definition pseudoEncodingFence :: int where "pseudoEncodingFence = - 312"
definition pseudoEncodingContinuousUpdates :: int where "pseudoEncodingContinuousUpdates = - 313"
definition pseudoEncodingCompressLevel9 :: int where "pseudoEncodingCompressLevel9 = - 247"
definition pseudoEncodingCompressLevel0 :: int where "pseudoEncodingCompressLevel0 = - 256"
definition pseudoEncodingVMwareCursor :: int where "pseudoEncodingVMwareCursor = 0x574d5664"
definition pseudoEncodingExtendedClipboard :: int where "pseudoEncodingExtendedClipboard = 0xc0a1e5ce"

lemmas encoding_defs = encodingRaw_def encodingCopyRect_def encodingRRE_def encodingHextile_def
  encodingTight_def encodingZRLE_def encodingTightPNG_def encodingJPEG_def
  pseudoEncodingQualityLevel0_def pseudoEncodingCompressLevel0_def pseudoEncodingDesktopSize_def
  pseudoEncodingLastRect_def pseudoEncodingCursor_def pseudoEncodingQEMUExtendedKeyEvent_def
  pseudoEncodingQEMULedEvent_def pseudoEncodingDesktopName_def pseudoEncodingExtendedDesktopSize_def
  pseudoEncodingXvp_def pseudoEncodingFence_def pseudoEncodingContinuousUpdates_def
  pseudoEncodingVMwareCursor_def pseudoEncodingExtendedClipboard_def

section \<open>Messages\<close>

definition push_all :: "field list \<Rightarrow> websock \<Rightarrow> websock" where
  "push_all = push_fields sQpush8 sQpush16 sQpush32"

definition message :: "field list \<Rightarrow> websock \<Rightarrow> websock" where
  "message fs sock = flush (push_all fs sock)"

definition keyEvent :: "int \<Rightarrow> int \<Rightarrow> websock \<Rightarrow> websock" where
  "keyEvent keysym down = message [F8 4, F8 down, F16 0, F32 keysym]"

definition getRFBkeycode :: "int \<Rightarrow> int" where
  "getRFBkeycode keycode =
     (let upperByte = js_sar keycode 8; lowerByte = js_and keycode 255
      in if upperByte = 0xe0 \<and> lowerByte < 0x7f then js_or lowerByte 0x80 else keycode)"

definition QEMUExtendedKeyEvent :: "int \<Rightarrow> bool \<Rightarrow> int \<Rightarrow> websock \<Rightarrow> websock" where
  "QEMUExtendedKeyEvent keysym down keycode =
     message [F8 255, F8 0, F16 (of_bool down), F32 keysym, F32 (getRFBkeycode keycode)]"

definition pointerEvent :: "int \<Rightarrow> int \<Rightarrow> int \<Rightarrow> websock \<Rightarrow> websock" where
  "pointerEvent x y buttons = message [F8 5, F8 buttons, F16 x, F16 y]"

definition buildExtendedClipboardFlags :: "int list \<Rightarrow> int list \<Rightarrow> bytes" where
  "buildExtendedClipboardFlags actions formats =
     (let actionFlag = foldl js_or 0 actions; formatFlag = foldl js_or 0 formats
      in [u8 (js_sar actionFlag 24), 0, 0, u8 formatFlag])"

definition clientCutText :: "bytes \<Rightarrow> bool \<Rightarrow> websock \<Rightarrow> unit outcome \<times> websock" where
  "clientCutText data extended sock =
     (let n = (if extended then toUint32 (- int (length data)) else int (length data))
      in andthen (sQpushBytes data (push_all [F8 6, F8 0, F8 0, F8 0, F32 n] sock))
           (\<lambda>_ s. (Ret (), flush s)))"

definition extendedClipboardFormatText :: int where "extendedClipboardFormatText = 1"
definition extendedClipboardActionCaps :: int where "extendedClipboardActionCaps = 2 ^ 24"
definition extendedClipboardActionRequest :: int where "extendedClipboardActionRequest = 2 ^ 25"
definition extendedClipboardActionPeek :: int where "extendedClipboardActionPeek = 2 ^ 26"
definition extendedClipboardActionNotify :: int where "extendedClipboardActionNotify = 2 ^ 27"
definition extendedClipboardActionProvide :: int where "extendedClipboardActionProvide = 2 ^ 28"

text \<open>\<open>replace(/\r\n|\r|\n/gm, "\r\n")\<close>: 13 and 10 are the two characters.\<close>

fun to_crlf :: "jsstring \<Rightarrow> jsstring" where
  "to_crlf [] = []"
| "to_crlf (c # s) =
     (if c = 13 then (case s of d # r \<Rightarrow> if d = 10 then 13 # 10 # to_crlf r else 13 # 10 # to_crlf s
                              | [] \<Rightarrow> [13, 10])
      else if c = 10 then 13 # 10 # to_crlf s
      else c # to_crlf s)"

fun clipboard_payload :: "int list \<Rightarrow> jsstring list \<Rightarrow> bytes outcome" where
  "clipboard_payload (f # fs) (t # ts) =
     (if f \<noteq> extendedClipboardFormatText
      then Throw (ErrorMsg ''Unsupported extended clipboard format for Provide message.'')
      else case encodeUTF8 (to_crlf t @ [0]) of
             Ret text \<Rightarrow>
               (case clipboard_payload fs ts of
                  Ret rest \<Rightarrow> Ret (be32 (int (length text)) @ bytes_of_str text @ rest)
                | Throw e \<Rightarrow> Throw e
                | Hang \<Rightarrow> Hang)
           | Throw e \<Rightarrow> Throw e
           | Hang \<Rightarrow> Hang)"
| "clipboard_payload fs ts = Ret []"

definition extendedClipboardProvide ::
  "'d zdeflator \<Rightarrow> int list \<Rightarrow> jsstring list \<Rightarrow> websock \<Rightarrow> unit outcome \<times> websock" where
  "extendedClipboardProvide D formats inData sock =
     (case clipboard_payload formats inData of
        Ret dataToDeflate \<Rightarrow>
          (case fst (deflate D dataToDeflate (new_deflator D)) of
             Ret deflatedData \<Rightarrow>
               clientCutText (buildExtendedClipboardFlags [extendedClipboardActionProvide] formats @ deflatedData)
                 True sock
           | Throw e \<Rightarrow> (Throw e, sock)
           | Hang \<Rightarrow> (Hang, sock))
      | Throw e \<Rightarrow> (Throw e, sock)
      | Hang \<Rightarrow> (Hang, sock))"

definition extendedClipboardNotify :: "int list \<Rightarrow> websock \<Rightarrow> unit outcome \<times> websock" where
  "extendedClipboardNotify formats =
     clientCutText (buildExtendedClipboardFlags [extendedClipboardActionNotify] formats) True"

definition extendedClipboardRequest :: "int list \<Rightarrow> websock \<Rightarrow> unit outcome \<times> websock" where
  "extendedClipboardRequest formats =
     clientCutText (buildExtendedClipboardFlags [extendedClipboardActionRequest] formats) True"

text \<open>The keys of \<open>formats\<close> are property names; one that is no number shifts by 0.\<close>

definition extendedClipboardCaps ::
  "int list \<Rightarrow> (nat option \<times> int) list \<Rightarrow> websock \<Rightarrow> unit outcome \<times> websock" where
  "extendedClipboardCaps actions formats sock =
     (let flags = buildExtendedClipboardFlags actions [];
          sizes = concat (map (\<lambda>(k, v). [u8 (js_sar v 24), u8 (js_sar v 16), u8 (js_sar v 8), u8 (js_sar v 0)]) formats);
          shown = foldl (\<lambda>b (k, v). b OR u8 (js_shl 1 (case k of None \<Rightarrow> 0 | Some n \<Rightarrow> n))) (flags ! 3) formats
      in clientCutText (flags[3 := shown] @ sizes) True sock)"

definition setDesktopSize :: "int \<Rightarrow> int \<Rightarrow> int \<Rightarrow> int \<Rightarrow> websock \<Rightarrow> websock" where
  "setDesktopSize width height sid flags =
     message [F8 251, F8 0, F16 width, F16 height, F8 1, F8 0,
              F32 sid, F16 0, F16 0, F16 width, F16 height, F32 flags]"

definition clientFence :: "int \<Rightarrow> jsstring \<Rightarrow> websock \<Rightarrow> unit outcome \<times> websock" where
  "clientFence flags payload sock =
     andthen (sQpushString payload
         (push_all [F8 248, F8 0, F8 0, F8 0, F32 flags, F8 (int (length payload))] sock))
       (\<lambda>_ s. (Ret (), flush s))"

definition enableContinuousUpdates :: "bool \<Rightarrow> int \<Rightarrow> int \<Rightarrow> int \<Rightarrow> int \<Rightarrow> websock \<Rightarrow> websock" where
  "enableContinuousUpdates enable x y width height =
     message [F8 150, F8 (of_bool enable), F16 x, F16 y, F16 width, F16 height]"

definition pixelFormat :: "int \<Rightarrow> bool \<Rightarrow> websock \<Rightarrow> websock" where
  "pixelFormat depth trueColor =
     (let bpp = (if depth > 16 then 32 else if depth > 8 then 16 else 8);
          bits = nat (depth div 3);
          mx = js_shl 1 bits - 1
      in message [F8 0, F8 0, F8 0, F8 0, F8 bpp, F8 depth, F8 0, F8 (of_bool trueColor),
                  F16 mx, F16 mx, F16 mx, F8 (int bits * 0), F8 (int bits * 1), F8 (int bits * 2),
                  F8 0, F8 0, F8 0])"

definition clientEncodings :: "int list \<Rightarrow> websock \<Rightarrow> websock" where
  "clientEncodings encs = message ([F8 2, F8 0, F16 (int (length encs))] @ map F32 encs)"

definition fbUpdateRequest :: "bool \<Rightarrow> int \<Rightarrow> int \<Rightarrow> int \<Rightarrow> int \<Rightarrow> websock \<Rightarrow> websock" where
  "fbUpdateRequest incremental x y w h =
     message [F8 3, F8 (of_bool incremental), F16 x, F16 y, F16 w, F16 h]"

definition xvpOp :: "int \<Rightarrow> int \<Rightarrow> websock \<Rightarrow> websock" where
  "xvpOp ver operation = message [F8 250, F8 0, F8 ver, F8 operation]"

end
