(* ===== verification/Rfb_State.thy ===== *)
theory Rfb_State
  imports Jpeg Keyboard Rfb_Messages Crypto
begin

text \<open>
  The state of the RFB client, the class \<open>RFB\<close> of \<open>core/rfb.js\<close>, and the operations the other parts of
  the class rest on: sending keys, the viewport, and the connection state.

  Everything the client asks of the browser is in the record \<open>world\<close>, an argument of the operations
  that need it: the zlib package, AES, random bytes, the time, the sizes of the elements on the page,
  and \<open>Math.hypot\<close>, whose results are not rational. What the client does to the page is in the state: the listeners it has registered, the timers
  that are running, the cursor it shows, and the events it has dispatched to the application, in order.
  A listener of the application that calls back into the client is a further operation after the one
  that dispatched the event. Log messages are left out.
\<close>

section \<open>State\<close>

record ('z, 'd) world =
  w_zlib :: "'z zlib"
  w_deflate :: "'d zdeflator"
  w_aes_cbc :: "bytes \<Rightarrow> bytes \<Rightarrow> bytes \<Rightarrow> bytes"
  w_random :: "nat \<Rightarrow> bytes"
  w_now :: int
  w_dragThreshold :: rat
  w_hypot :: "rat \<Rightarrow> rat \<Rightarrow> rat"
  w_clientSize :: "int \<times> int"
  w_screenSize :: "rat \<times> rat"
  w_canvasPos :: "rat \<times> rat"
  w_canvasSize :: "rat \<times> rat"

datatype conn_state = NotConnected | Connecting | Connected | Disconnecting | Disconnected

datatype init_state = NoInit | ProtocolVersion | Security | Authentication | SecurityResult
  | SecurityReason | ClientInitialisation | ServerInitialisation

datatype rfb_event =
    EvConnect
  | EvDisconnect bool
  | EvClippingViewport bool
  | EvDesktopName jsstring
  | EvCapabilities bool
  | EvBell
  | EvClipboard jsstring
  | EvCredentialsRequired "string list"
  | EvSecurityFailure int "jsstring option"
  | EvServerVerification bytes

datatype timer = TDisconnect | TResize | TMouseMove | TResume | TFrame

record credentials =
  username :: "jsstring option"
  password :: "jsstring option"
  cred_target :: "jsstring option"
  ardPublicKey :: "bytes option"
  ardCredentials :: "bytes option"

record fbu =
  rects :: nat
  fbu_x :: int
  fbu_y :: int
  fbu_width :: int
  fbu_height :: int
  fbu_encoding :: "int option"

record 'z decoders =
  raw_st :: nat
  rre_st :: nat
  hextile_st :: hextile
  tight_st :: "'z tight"
  tightpng_st :: "'z tight"
  zrle_st :: "'z zrle"
  jpeg_st :: jpeg

record cursor_image =
  rgbaPixels :: "int list"
  hotx :: int
  hoty :: int
  cur_w :: int
  cur_h :: int

record settings =
  dragViewport :: bool
  focusOnClick :: bool
  viewOnly :: bool
  rclipViewport :: bool
  clippingViewport :: bool
  scaleViewport :: bool
  resizeSession :: bool
  showDotCursor :: bool
  qualityLevel :: int
  compressionLevel :: int

record page =
  screenAttached :: bool
  gesturesAttached :: bool
  cursorAttached :: bool
  cursorShown :: "cursor_image option"
  cursorPos :: "(rat \<times> rat) option"
  resizeObserved :: bool
  canvasListeners :: bool
  captured :: bool
  focused :: bool
  timers :: "timer list"
  onOpen :: bool
  onMessage :: bool
  onClose :: bool

record tap =
  tap_kind :: string
  tap_x :: rat
  tap_y :: rat

record pointer =
  mousePos :: "rat \<times> rat"
  mouseButtonMask :: int
  mouseLastMoveTime :: int
  mouseMoveTimer :: bool
  viewportDragging :: bool
  viewportDragPos :: "rat \<times> rat"
  viewportHasMoved :: bool
  wheelX :: rat
  wheelY :: rat
  lastTapTime :: "int option"
  firstDoubleTap :: tap
  lastMagnitudeX :: rat
  lastMagnitudeY :: rat

record handshake =
  rfbAuthScheme :: int
  rfbVersion :: nat
  rfbTightVNC :: bool
  rfbVeNCryptState :: nat
  rfbVeNCryptSubtypesLength :: nat
  securityContext :: string
  securityStatus :: int
  ra2State :: "bool option"
  shared :: bool
  repeaterID :: jsstring
  creds :: credentials
  ardJob :: "(bytes \<times> bytes) option"

record features =
  rfbXvpVer :: int
  power :: bool
  supportsFence :: bool
  supportsContinuousUpdates :: bool
  enabledContinuousUpdates :: bool
  supportsSetDesktopSize :: bool
  screenID :: int
  screenFlags :: int
  qemuExtKeyEventSupported :: bool
  clipboardText :: "jsstring option"
  clipActions :: "int list"
  clipFormats :: "int list"
  remoteCapsLock :: "bool option"
  remoteNumLock :: "bool option"

record 'z rfb =
  rfbConnectionState :: conn_state
  rfbInitState :: init_state
  rfbCleanDisconnect :: bool
  disconnTimer :: bool
  resizeTimeout :: bool
  rawChannel :: "(string list \<times> channel_state) option"
  sock :: websock
  disp :: display
  flushing :: bool
  fbW :: int
  fbH :: int
  fbDepth :: int
  fbName :: jsstring
  expectedClient :: "(int \<times> int) option"
  cursorImage :: cursor_image
  hs :: handshake
  feat :: features
  rfbu :: fbu
  decs :: "'z decoders"
  ptr :: pointer
  kbd :: keyboard
  sets :: settings
  page :: page
  events :: "rfb_event list"

definition dispatch :: "rfb_event \<Rightarrow> 'z rfb \<Rightarrow> 'z rfb" where
  "dispatch ev r = r\<lparr>events := events r @ [ev]\<rparr>"

definition on_sock :: "(websock \<Rightarrow> websock) \<Rightarrow> 'z rfb \<Rightarrow> 'z rfb" where
  "on_sock f r = r\<lparr>sock := f (sock r)\<rparr>"

definition on_disp :: "(display \<Rightarrow> display) \<Rightarrow> 'z rfb \<Rightarrow> 'z rfb" where
  "on_disp f r = r\<lparr>disp := f (disp r)\<rparr>"

definition on_page :: "(page \<Rightarrow> page) \<Rightarrow> 'z rfb \<Rightarrow> 'z rfb" where
  "on_page f r = r\<lparr>page := f (page r)\<rparr>"

definition on_ptr :: "(pointer \<Rightarrow> pointer) \<Rightarrow> 'z rfb \<Rightarrow> 'z rfb" where
  "on_ptr f r = r\<lparr>ptr := f (ptr r)\<rparr>"

definition on_hs :: "(handshake \<Rightarrow> handshake) \<Rightarrow> 'z rfb \<Rightarrow> 'z rfb" where
  "on_hs f r = r\<lparr>hs := f (hs r)\<rparr>"

definition on_feat :: "(features \<Rightarrow> features) \<Rightarrow> 'z rfb \<Rightarrow> 'z rfb" where
  "on_feat f r = r\<lparr>feat := f (feat r)\<rparr>"

definition on_sets :: "(settings \<Rightarrow> settings) \<Rightarrow> 'z rfb \<Rightarrow> 'z rfb" where
  "on_sets f r = r\<lparr>sets := f (sets r)\<rparr>"

definition setTimeout :: "timer \<Rightarrow> 'z rfb \<Rightarrow> 'z rfb" where
  "setTimeout t = on_page (\<lambda>p. p\<lparr>timers := timers p @ [t]\<rparr>)"

definition clearTimeout :: "timer \<Rightarrow> 'z rfb \<Rightarrow> 'z rfb" where
  "clearTimeout t = on_page (\<lambda>p. p\<lparr>timers := filter (\<lambda>u. u \<noteq> t) (timers p)\<rparr>)"

section \<open>Keys\<close>

definition sendKey_once :: "int option \<Rightarrow> string \<Rightarrow> bool \<Rightarrow> 'z rfb \<Rightarrow> 'z rfb" where
  "sendKey_once keysym code down r =
     (if rfbConnectionState r \<noteq> Connected \<or> viewOnly (sets r) then r
      else
        let scancode = (case map_of XtScancode code of None \<Rightarrow> 0 | Some n \<Rightarrow> n)
        in if qemuExtKeyEventSupported (feat r) \<and> scancode \<noteq> 0 then
             on_sock (QEMUExtendedKeyEvent (case keysym of None \<Rightarrow> 0 | Some k \<Rightarrow> k) down scancode) r
           else if \<not> truthy keysym then r
           else on_sock (keyEvent (case keysym of None \<Rightarrow> 0 | Some k \<Rightarrow> k) (of_bool down)) r)"

definition sendKey :: "int option \<Rightarrow> string \<Rightarrow> bool option \<Rightarrow> 'z rfb \<Rightarrow> 'z rfb" where
  "sendKey keysym code down r =
     (if rfbConnectionState r \<noteq> Connected \<or> viewOnly (sets r) then r
      else case down of
             None \<Rightarrow> sendKey_once keysym code False (sendKey_once keysym code True r)
           | Some d \<Rightarrow> sendKey_once keysym code d r)"

definition sendCtrlAltDel :: "'z rfb \<Rightarrow> 'z rfb" where
  "sendCtrlAltDel r =
     (if rfbConnectionState r \<noteq> Connected \<or> viewOnly (sets r) then r
      else
        let r = sendKey (XK ''XK_Control_L'') ''ControlLeft'' (Some True) r;
            r = sendKey (XK ''XK_Alt_L'') ''AltLeft'' (Some True) r;
            r = sendKey (XK ''XK_Delete'') ''Delete'' (Some True) r;
            r = sendKey (XK ''XK_Delete'') ''Delete'' (Some False) r;
            r = sendKey (XK ''XK_Alt_L'') ''AltLeft'' (Some False) r
        in sendKey (XK ''XK_Control_L'') ''ControlLeft'' (Some False) r)"

definition press_lock :: "string \<Rightarrow> string \<Rightarrow> 'z rfb \<Rightarrow> 'z rfb" where
  "press_lock name code r = sendKey (XK name) code (Some False) (sendKey (XK name) code (Some True) r)"

text \<open>The lock state that comes with a key: \<open>null\<close> when it is not known. A caller that leaves the
  argument out passes \<open>undefined\<close>, which is not \<open>null\<close>.\<close>

datatype lock = LockNull | LockUndefined | LockIs bool

definition out_of_sync :: "bool option \<Rightarrow> lock \<Rightarrow> bool" where
  "out_of_sync remote local =
     (case remote of None \<Rightarrow> False | Some b \<Rightarrow> local \<noteq> LockNull \<and> LockIs b \<noteq> local)"

definition handleKeyEvent :: "int option \<Rightarrow> string \<Rightarrow> bool \<Rightarrow> lock \<Rightarrow> lock \<Rightarrow> 'z rfb \<Rightarrow> 'z rfb" where
  "handleKeyEvent keysym code down numlock capslock r =
     (let r = (if code = ''CapsLock'' \<and> down then on_feat (\<lambda>f. f\<lparr>remoteCapsLock := None\<rparr>) r else r);
          r = (if out_of_sync (remoteCapsLock (feat r)) capslock \<and> down
               then on_feat (\<lambda>f. f\<lparr>remoteCapsLock := None\<rparr>) (press_lock ''XK_Caps_Lock'' ''CapsLock'' r) else r);
          r = (if code = ''NumLock'' \<and> down then on_feat (\<lambda>f. f\<lparr>remoteNumLock := None\<rparr>) r else r);
          r = (if out_of_sync (remoteNumLock (feat r)) numlock \<and> down
               then on_feat (\<lambda>f. f\<lparr>remoteNumLock := None\<rparr>) (press_lock ''XK_Num_Lock'' ''NumLock'' r) else r)
      in sendKey keysym code (Some down) r)"

fun lock_of :: "bool option \<Rightarrow> lock" where
  "lock_of None = LockNull"
| "lock_of (Some b) = LockIs b"

definition key_call :: "key_call \<Rightarrow> 'z rfb \<Rightarrow> 'z rfb" where
  "key_call c = handleKeyEvent (kkeysym c) (kcode c) (kdown c) (lock_of (knumlock c)) (lock_of (kcapslock c))"

text \<open>An operation of the keyboard: the calls it makes of \<open>onkeyevent\<close> are calls of
  \<open>handleKeyEvent\<close>, which leaves the keyboard alone.\<close>

definition on_kbd :: "(keyboard \<Rightarrow> keyboard) \<Rightarrow> 'z rfb \<Rightarrow> 'z rfb" where
  "on_kbd f r =
     (let k = f ((kbd r)\<lparr>keyEvents := []\<rparr>)
      in fold key_call (keyEvents k) (r\<lparr>kbd := k\<lparr>keyEvents := keyEvents (kbd r) @ keyEvents k\<rparr>\<rparr>))"

section \<open>Cursor\<close>

definition cursor_none :: cursor_image where
  "cursor_none = \<lparr>rgbaPixels = [], hotx = 0, hoty = 0, cur_w = 0, cur_h = 0\<rparr>"

definition cursor_dot :: cursor_image where
  "cursor_dot = \<lparr>rgbaPixels =
     [255, 255, 255, 255,   0,   0,   0, 255, 255, 255, 255, 255,
        0,   0,   0, 255,   0,   0,   0,   0,   0,   0,  0,  255,
      255, 255, 255, 255,   0,   0,   0, 255, 255, 255, 255, 255],
     hotx = 1, hoty = 1, cur_w = 3, cur_h = 3\<rparr>"

definition shouldShowDotCursor :: "'z rfb \<Rightarrow> bool" where
  "shouldShowDotCursor r =
     (if \<not> showDotCursor (sets r) then False
      else let px = rgbaPixels (cursorImage r)
           in list_all (\<lambda>i. i mod 4 = 3 \<longrightarrow> px ! i = 0) [0..<length px])"

definition refreshCursor :: "'z rfb \<Rightarrow> 'z rfb" where
  "refreshCursor r =
     (if rfbConnectionState r \<noteq> Connecting \<and> rfbConnectionState r \<noteq> Connected then r
      else
        let image = (if shouldShowDotCursor r then cursor_dot else cursorImage r)
        in on_page (\<lambda>p. p\<lparr>cursorShown := Some image\<rparr>) r)"

definition updateCursor :: "int list \<Rightarrow> int \<Rightarrow> int \<Rightarrow> int \<Rightarrow> int \<Rightarrow> 'z rfb \<Rightarrow> 'z rfb" where
  "updateCursor rgba hx hy w h r =
     refreshCursor (r\<lparr>cursorImage := \<lparr>rgbaPixels = rgba, hotx = hx, hoty = hy, cur_w = w, cur_h = h\<rparr>\<rparr>)"

section \<open>Viewport\<close>

definition setClippingViewport :: "bool \<Rightarrow> 'z rfb \<Rightarrow> 'z rfb" where
  "setClippingViewport on r =
     (if on = clippingViewport (sets r) then r
      else dispatch (EvClippingViewport on) (on_sets (\<lambda>s. s\<lparr>clippingViewport := on\<rparr>) r))"

definition saveExpectedClientSize :: "('z, 'd) world \<Rightarrow> 'z rfb \<Rightarrow> 'z rfb" where
  "saveExpectedClientSize W r = r\<lparr>expectedClient := Some (w_clientSize W)\<rparr>"

definition clientHasExpectedSize :: "('z, 'd) world \<Rightarrow> 'z rfb \<Rightarrow> bool" where
  "clientHasExpectedSize W r = (expectedClient r = Some (w_clientSize W))"

definition updateClip :: "('z, 'd) world \<Rightarrow> 'z rfb \<Rightarrow> 'z rfb" where
  "updateClip W r =
     (let curClip = clipViewport (disp r);
          newClip = (if scaleViewport (sets r) then False else rclipViewport (sets r));
          r = (if curClip \<noteq> newClip then on_disp (set_clipViewport newClip) r else r);
          r = (if newClip then
                 let (w, h) = w_screenSize W;
                     r = on_disp (viewportChangeSize (Some (w, h))) r
                 in setClippingViewport (w < of_int (fbWidth (disp r)) \<or> h < of_int (fbHeight (disp r))) r
               else setClippingViewport False r)
      in if curClip \<noteq> newClip then saveExpectedClientSize W r else r)"

definition updateScale :: "('z, 'd) world \<Rightarrow> 'z rfb \<Rightarrow> 'z rfb" where
  "updateScale W r =
     (if \<not> scaleViewport (sets r) then on_disp (set_scale 1) r
      else case w_screenSize W of (w, h) \<Rightarrow> on_disp (autoscale w h) r)"

definition requestRemoteResize :: "('z, 'd) world \<Rightarrow> 'z rfb \<Rightarrow> 'z rfb" where
  "requestRemoteResize W r =
     (let r = (clearTimeout TResize r)\<lparr>resizeTimeout := False\<rparr>
      in if \<not> resizeSession (sets r) \<or> viewOnly (sets r) \<or> \<not> supportsSetDesktopSize (feat r) then r
         else case w_screenSize W of (w, h) \<Rightarrow>
           on_sock (setDesktopSize \<lfloor>w\<rfloor> \<lfloor>h\<rfloor> (screenID (feat r)) (screenFlags (feat r))) r)"

definition handleResize :: "('z, 'd) world \<Rightarrow> 'z rfb \<Rightarrow> 'z rfb" where
  "handleResize W r =
     (if clientHasExpectedSize W r then r
      else
        let r = setTimeout TFrame r
        in if resizeSession (sets r) then (setTimeout TResize (clearTimeout TResize r))\<lparr>resizeTimeout := True\<rparr>
           else r)"

text \<open>The callback of the animation frame.\<close>

definition animationFrame :: "('z, 'd) world \<Rightarrow> 'z rfb \<Rightarrow> 'z rfb" where
  "animationFrame W r = updateScale W (updateClip W r)"

definition updateContinuousUpdates :: "'z rfb \<Rightarrow> 'z rfb" where
  "updateContinuousUpdates r =
     (if \<not> enabledContinuousUpdates (feat r) then r
      else on_sock (enableContinuousUpdates True 0 0 (fbW r) (fbH r)) r)"

definition resize :: "('z, 'd) world \<Rightarrow> int \<Rightarrow> int \<Rightarrow> 'z rfb \<Rightarrow> 'z rfb" where
  "resize W width height r =
     (let r = r\<lparr>fbW := width, fbH := height\<rparr>;
          r = on_disp (disp_resize (fbW r) (fbH r)) r;
          r = updateScale W (updateClip W r);
          r = updateContinuousUpdates r
      in saveExpectedClientSize W r)"

definition setDesktopName :: "jsstring \<Rightarrow> 'z rfb \<Rightarrow> 'z rfb" where
  "setDesktopName name r = dispatch (EvDesktopName name) (r\<lparr>fbName := name\<rparr>)"

definition setCapability :: "bool \<Rightarrow> 'z rfb \<Rightarrow> 'z rfb" where
  "setCapability val r = dispatch (EvCapabilities val) (on_feat (\<lambda>f. f\<lparr>power := val\<rparr>) r)"

section \<open>Connection state\<close>

definition disconnect_page :: "'z rfb \<Rightarrow> 'z rfb" where
  "disconnect_page r =
     (let r = on_page (\<lambda>p. p\<lparr>cursorAttached := False, canvasListeners := False, resizeObserved := False\<rparr>) r;
          r = on_kbd ungrab r;
          r = on_page (\<lambda>p. p\<lparr>gesturesAttached := False\<rparr>) r;
          r = on_sock close_sock r;
          r = on_page (\<lambda>p. p\<lparr>screenAttached := False\<rparr>) r
      in clearTimeout TMouseMove (clearTimeout TResize r))"

fun allowed :: "conn_state \<Rightarrow> conn_state \<Rightarrow> bool" where
  "allowed old Connected = (old = Connecting)"
| "allowed old Disconnected = (old = Disconnecting)"
| "allowed old Connecting = (old = NotConnected)"
| "allowed old Disconnecting = (old = Connected \<or> old = Connecting)"
| "allowed old NotConnected = False"

definition clear_disconnect :: "conn_state \<Rightarrow> 'z rfb \<Rightarrow> 'z rfb" where
  "clear_disconnect state r =
     (if disconnTimer r \<and> state \<noteq> Disconnecting
      then on_page (\<lambda>p. p\<lparr>onClose := False\<rparr>) ((clearTimeout TDisconnect r)\<lparr>disconnTimer := False\<rparr>)
      else r)"

text \<open>The actions on entering a state other than connecting.\<close>

fun enter_state :: "conn_state \<Rightarrow> 'z rfb \<Rightarrow> 'z rfb" where
  "enter_state Connected r = dispatch EvConnect r"
| "enter_state Disconnecting r = (setTimeout TDisconnect (disconnect_page r))\<lparr>disconnTimer := True\<rparr>"
| "enter_state Disconnected r = dispatch (EvDisconnect (rfbCleanDisconnect r)) r"
| "enter_state _ r = r"

definition leave_to :: "conn_state \<Rightarrow> 'z rfb \<Rightarrow> 'z rfb" where
  "leave_to state r =
     (if state = rfbConnectionState r \<or> rfbConnectionState r = Disconnected \<or>
         \<not> allowed (rfbConnectionState r) state then r
      else enter_state state (clear_disconnect state (r\<lparr>rfbConnectionState := state\<rparr>)))"

definition fail :: "'z rfb \<Rightarrow> bool outcome \<times> 'z rfb" where
  "fail r =
     (let r = r\<lparr>rfbCleanDisconnect := False\<rparr>
      in (Ret False, leave_to Disconnected (leave_to Disconnecting r)))"

definition socketOpen :: "'z rfb \<Rightarrow> 'z rfb" where
  "socketOpen r =
     (if rfbConnectionState r = Connecting \<and> rfbInitState r = NoInit
      then r\<lparr>rfbInitState := ProtocolVersion\<rparr> else snd (fail r))"

definition socketClose :: "'z rfb \<Rightarrow> 'z rfb" where
  "socketClose r =
     (let r = (case rfbConnectionState r of
                 Connecting \<Rightarrow> snd (fail r)
               | Connected \<Rightarrow> leave_to Disconnected (leave_to Disconnecting r)
               | Disconnecting \<Rightarrow> leave_to Disconnected r
               | Disconnected \<Rightarrow> snd (fail r)
               | NotConnected \<Rightarrow> snd (fail r))
      in (on_page (\<lambda>p. p\<lparr>onClose := False\<rparr>) r)\<lparr>rawChannel := None\<rparr>)"

text \<open>Connecting: a URL makes a new channel, which is connecting; a channel given by the application is
  attached as it is.\<close>

definition connect :: "'z rfb \<Rightarrow> unit outcome \<times> 'z rfb" where
  "connect r =
     andthen
       (case rawChannel r of
          None \<Rightarrow>
            (case attach rawChannelProps ChConnecting (sock r) of (res, s) \<Rightarrow> (res, r\<lparr>sock := s\<rparr>))
        | Some (props, st) \<Rightarrow>
            (case attach props st (sock r) of
               (Ret _, s) \<Rightarrow>
                 let r = r\<lparr>sock := s\<rparr> in
                 if readyState s = RSClosed
                 then (Throw (ErrorMsg ''Cannot use already closed WebSocket/RTCDataChannel''), r)
                 else if readyState s = RSOpen then (Ret (), socketOpen r)
                 else (Ret (), r)
             | (Throw e, s) \<Rightarrow> (Throw e, r\<lparr>sock := s\<rparr>)
             | (Hang, s) \<Rightarrow> (Hang, r\<lparr>sock := s\<rparr>)))
       (\<lambda>_ r.
          let r = on_page (\<lambda>p. p\<lparr>screenAttached := True, gesturesAttached := True, cursorAttached := True\<rparr>) r;
              r = refreshCursor r
          in (Ret (), on_page (\<lambda>p. p\<lparr>resizeObserved := True, canvasListeners := True\<rparr>) r))"

definition updateConnectionState :: "conn_state \<Rightarrow> 'z rfb \<Rightarrow> unit outcome \<times> 'z rfb" where
  "updateConnectionState state r =
     (if state = Connecting \<and> rfbConnectionState r = NotConnected
      then connect (clear_disconnect state (r\<lparr>rfbConnectionState := state\<rparr>))
      else (Ret (), leave_to state r))"

text \<open>The callback of the disconnection timer.\<close>

definition disconnectTimeout :: "'z rfb \<Rightarrow> 'z rfb" where
  "disconnectTimeout r = leave_to Disconnected r"

end
