(* ===== verification/Rfb_Handshake.thy ===== *)
theory Rfb_Handshake
  imports Rfb_State
begin

text \<open>
  The handshake of the RFB client: protocol version, security types, authentication and
  initialisation, \<open>_negotiateProtocolVersion\<close> to \<open>_initMsg\<close> of \<open>core/rfb.js\<close>. Every step returns
  whether the next one may be tried at once. A protocol version is given in tenths, 3.8 as 38.

  The RSA-AES authentication of \<open>core/ra2.js\<close> runs as a process of its own; here only its start and its
  end are seen. The two asynchronous parts, that process and the tail of the ARD authentication, end
  in operations of their own.
\<close>

section \<open>Reading and sending\<close>

definition rd :: "(websock \<Rightarrow> 'a \<times> websock) \<Rightarrow> 'z rfb \<Rightarrow> 'a \<times> 'z rfb" where
  "rd f r = (case f (sock r) of (v, s) \<Rightarrow> (v, r\<lparr>sock := s\<rparr>))"

definition skip :: "nat \<Rightarrow> 'z rfb \<Rightarrow> 'z rfb" where
  "skip n = on_sock (rQskipBytes n)"

definition lacks :: "nat \<Rightarrow> 'z rfb \<Rightarrow> bool" where
  "lacks n r = rQlacks n (sock r)"

definition wait :: "nat \<Rightarrow> nat \<Rightarrow> 'z rfb \<Rightarrow> bool outcome \<times> 'z rfb" where
  "wait num goback r = (case rQwait num goback (sock r) of (q, s) \<Rightarrow> (q, r\<lparr>sock := s\<rparr>))"

text \<open>\<open>if (this._sock.rQwait(msg, num, goback)) { return false; }\<close>\<close>

definition need :: "nat \<Rightarrow> nat \<Rightarrow> 'z rfb \<Rightarrow> ('z rfb \<Rightarrow> bool outcome \<times> 'z rfb) \<Rightarrow> bool outcome \<times> 'z rfb" where
  "need num goback r k = andthen (wait num goback r) (\<lambda>w r. if w then (Ret False, r) else k r)"

definition pushBytes :: "bytes \<Rightarrow> 'z rfb \<Rightarrow> unit outcome \<times> 'z rfb" where
  "pushBytes bs r = (case sQpushBytes bs (sock r) of (q, s) \<Rightarrow> (q, r\<lparr>sock := s\<rparr>))"

definition pushString :: "jsstring \<Rightarrow> 'z rfb \<Rightarrow> unit outcome \<times> 'z rfb" where
  "pushString str r = (case sQpushString str (sock r) of (q, s) \<Rightarrow> (q, r\<lparr>sock := s\<rparr>))"

definition push :: "field list \<Rightarrow> 'z rfb \<Rightarrow> 'z rfb" where
  "push fs = on_sock (push_all fs)"

definition flush_rfb :: "'z rfb \<Rightarrow> 'z rfb" where
  "flush_rfb = on_sock flush"

definition set_init :: "init_state \<Rightarrow> 'z rfb \<Rightarrow> 'z rfb" where
  "set_init st r = r\<lparr>rfbInitState := st\<rparr>"

definition set_scheme :: "int \<Rightarrow> 'z rfb \<Rightarrow> 'z rfb" where
  "set_scheme a = on_hs (\<lambda>h. h\<lparr>rfbAuthScheme := a\<rparr>)"

section \<open>Version and security type\<close>

definition rfbMaxVersion :: nat where "rfbMaxVersion = 38"

definition server_version :: "jsstring \<Rightarrow> nat option" where
  "server_version v =
     (if v = lit ''003.003'' \<or> v = lit ''003.006'' then Some 33
      else if v = lit ''003.007'' then Some 37
      else if v = lit ''003.008'' \<or> v = lit ''003.889'' \<or> v = lit ''004.000'' \<or> v = lit ''004.001'' \<or>
        v = lit ''005.000'' then Some 38
      else None)"

text \<open>The digits of a version; "48" is the character 0, "10" the line feed.\<close>

definition client_version :: "nat \<Rightarrow> jsstring" where
  "client_version v = lit ''RFB 00'' @ [48 + v div 10] @ lit ''.00'' @ [48 + v mod 10] @ [10]"

definition negotiateProtocolVersion :: "'z rfb \<Rightarrow> bool outcome \<times> 'z rfb" where
  "negotiateProtocolVersion r =
     (if lacks 12 r then (Ret False, r)
      else
        let (str, r) = rd (rQshiftStr 12) r;
            sversion = take 7 (drop 4 str)
        in if sversion = lit ''000.000'' then
             let ident = lit ''ID:'' @ repeaterID (hs r)
             in andthen (pushString (ident @ replicate (250 - length ident) 0) r)
                  (\<lambda>_ r. (Ret True, flush_rfb r))
           else case server_version sversion of
                  None \<Rightarrow> fail r
                | Some v \<Rightarrow>
                    let v = (if v > rfbMaxVersion then rfbMaxVersion else v);
                        r = on_hs (\<lambda>h. h\<lparr>rfbVersion := v\<rparr>) r
                    in andthen (pushString (client_version v) r)
                         (\<lambda>_ r. (Ret False, set_init Security (flush_rfb r))))"

definition securityTypeNone :: int where "securityTypeNone = 1"
definition securityTypeVNCAuth :: int where "securityTypeVNCAuth = 2"
definition securityTypeRA2ne :: int where "securityTypeRA2ne = 6"
definition securityTypeTight :: int where "securityTypeTight = 16"
definition securityTypeVeNCrypt :: int where "securityTypeVeNCrypt = 19"
definition securityTypeXVP :: int where "securityTypeXVP = 22"
definition securityTypeARD :: int where "securityTypeARD = 30"
definition securityTypeMSLogonII :: int where "securityTypeMSLogonII = 113"
definition securityTypeUnixLogon :: int where "securityTypeUnixLogon = 129"
definition securityTypePlain :: int where "securityTypePlain = 256"

lemmas security_types = securityTypeNone_def securityTypeVNCAuth_def securityTypeRA2ne_def
  securityTypeTight_def securityTypeVeNCrypt_def securityTypeXVP_def securityTypeARD_def
  securityTypeMSLogonII_def securityTypeUnixLogon_def securityTypePlain_def

definition isSupportedSecurityType :: "int \<Rightarrow> bool" where
  "isSupportedSecurityType type \<longleftrightarrow>
     type \<in> set [securityTypeNone, securityTypeVNCAuth, securityTypeRA2ne, securityTypeTight,
       securityTypeVeNCrypt, securityTypeXVP, securityTypeARD, securityTypeMSLogonII, securityTypePlain]"

text \<open>The first type of a list that is wanted, or -1.\<close>

definition pick_type :: "(int \<Rightarrow> bool) \<Rightarrow> int list \<Rightarrow> int" where
  "pick_type wanted types = (case find wanted types of Some t \<Rightarrow> t | None \<Rightarrow> - 1)"

definition security_reason :: "string \<Rightarrow> int \<Rightarrow> 'z rfb \<Rightarrow> 'z rfb" where
  "security_reason context status r =
     on_hs (\<lambda>h. h\<lparr>securityContext := context, securityStatus := status\<rparr>) (set_init SecurityReason r)"

definition negotiateSecurity :: "'z rfb \<Rightarrow> bool outcome \<times> 'z rfb" where
  "negotiateSecurity r =
     (if rfbVersion (hs r) \<ge> 37 then
        let (numTypes, r) = rd rQshift8 r
        in need (nat numTypes) 1 r (\<lambda>r.
             if numTypes = 0 then (Ret True, security_reason ''no security types'' 1 r)
             else
               let (types, r) = rd (rQshiftBytes (nat numTypes)) r;
                   r = set_scheme (pick_type isSupportedSecurityType (map uint types)) r
               in if rfbAuthScheme (hs r) = - 1 then fail r
                  else (Ret True, set_init Authentication
                         (flush_rfb (push [F8 (rfbAuthScheme (hs r))] r))))
      else if lacks 4 r then (Ret False, r)
      else
        let (scheme, r) = rd rQshift32 r;
            r = set_scheme scheme r
        in if scheme = 0 then (Ret True, security_reason ''authentication scheme'' 1 r)
           else (Ret True, set_init Authentication r))"

definition handleSecurityReason :: "'z rfb \<Rightarrow> bool outcome \<times> 'z rfb" where
  "handleSecurityReason r =
     (if lacks 4 r then (Ret False, r)
      else
        let (strlen, r) = rd rQshift32 r
        in if strlen > 0 then
             need (nat strlen) 4 r (\<lambda>r.
               let (reason, r) = rd (rQshiftStr (nat strlen)) r
               in fail (dispatch (EvSecurityFailure (securityStatus (hs r))
                          (if reason \<noteq> [] then Some reason else None)) r))
           else fail (dispatch (EvSecurityFailure (securityStatus (hs r)) None) r))"

section \<open>Authentication\<close>

definition ask :: "string list \<Rightarrow> 'z rfb \<Rightarrow> bool outcome \<times> 'z rfb" where
  "ask types r = (Ret False, dispatch (EvCredentialsRequired types) r)"

definition genDES :: "jsstring \<Rightarrow> bytes \<Rightarrow> bytes option" where
  "genDES pass challenge = des_ecb_encrypt pass challenge"

definition negotiateStdVNCAuth :: "'z rfb \<Rightarrow> bool outcome \<times> 'z rfb" where
  "negotiateStdVNCAuth r =
     (if lacks 16 r then (Ret False, r)
      else case password (creds (hs r)) of
             None \<Rightarrow> ask [''password''] r
           | Some pass \<Rightarrow>
               let (challenge, r) = rd (rQshiftBytes 16) r
               in case genDES pass challenge of
                    None \<Rightarrow> (Throw TypeError, r)
                  | Some response \<Rightarrow>
                      andthen (pushBytes response r) (\<lambda>_ r. (Ret True, set_init SecurityResult (flush_rfb r))))"

text \<open>The call of \<open>_negotiateAuthentication\<close> at the end meets the scheme that was set just before.\<close>

definition negotiateXvpAuth :: "'z rfb \<Rightarrow> bool outcome \<times> 'z rfb" where
  "negotiateXvpAuth r =
     (case (username (creds (hs r)), password (creds (hs r)), cred_target (creds (hs r))) of
        (Some user, Some _, Some target) \<Rightarrow>
          andthen (pushString user (push [F8 (int (length user)), F8 (int (length target))] r))
            (\<lambda>_ r. andthen (pushString target r)
              (\<lambda>_ r. negotiateStdVNCAuth (set_scheme securityTypeVNCAuth (flush_rfb r))))
      | _ \<Rightarrow> ask [''username'', ''password'', ''target''] r)"

definition vencrypt_state :: "nat \<Rightarrow> 'z rfb \<Rightarrow> 'z rfb" where
  "vencrypt_state n = on_hs (\<lambda>h. h\<lparr>rfbVeNCryptState := n\<rparr>)"

primrec read_types :: "nat \<Rightarrow> 'z rfb \<Rightarrow> int list \<times> 'z rfb" where
  "read_types 0 r = ([], r)"
| "read_types (Suc n) r =
     (let (t, r) = rd rQshift32 r; (ts, r) = read_types n r in (t # ts, r))"

text \<open>The states of the exchange, each falling through to the next.\<close>

definition vencrypt_subtypes :: "'z rfb \<Rightarrow> bool outcome \<times> 'z rfb" where
  "vencrypt_subtypes r =
     (if rfbVeNCryptState (hs r) = 3 then
        let n = rfbVeNCryptSubtypesLength (hs r) in
        if lacks (4 * n) r then (Ret False, r)
        else
          let (subtypes, r) = read_types n r;
              r = set_scheme (pick_type (\<lambda>t. t \<noteq> securityTypeVeNCrypt \<and> isSupportedSecurityType t) subtypes) r
          in if rfbAuthScheme (hs r) = - 1 then fail r
             else (Ret True, vencrypt_state 4 (flush_rfb (push [F32 (rfbAuthScheme (hs r))] r)))
      else (Ret False, r))"

definition vencrypt_length :: "'z rfb \<Rightarrow> bool outcome \<times> 'z rfb" where
  "vencrypt_length r =
     (if rfbVeNCryptState (hs r) = 2 then
        if lacks 1 r then (Ret False, r)
        else
          let (n, r) = rd rQshift8 r
          in if n < 1 then fail r
             else vencrypt_subtypes (vencrypt_state 3 (on_hs (\<lambda>h. h\<lparr>rfbVeNCryptSubtypesLength := nat n\<rparr>) r))
      else vencrypt_subtypes r)"

definition vencrypt_ack :: "'z rfb \<Rightarrow> bool outcome \<times> 'z rfb" where
  "vencrypt_ack r =
     (if rfbVeNCryptState (hs r) = 1 then
        if lacks 1 r then (Ret False, r)
        else
          let (res, r) = rd rQshift8 r
          in if res \<noteq> 0 then fail r else vencrypt_length (vencrypt_state 2 r)
      else vencrypt_length r)"

definition negotiateVeNCryptAuth :: "'z rfb \<Rightarrow> bool outcome \<times> 'z rfb" where
  "negotiateVeNCryptAuth r =
     (if rfbVeNCryptState (hs r) = 0 then
        if lacks 2 r then (Ret False, r)
        else
          let (major, r) = rd rQshift8 r; (minor, r) = rd rQshift8 r
          in if \<not> (major = 0 \<and> minor = 2) then fail r
             else vencrypt_ack (vencrypt_state 1 (flush_rfb (push [F8 0, F8 2] r)))
      else vencrypt_ack r)"

text \<open>Sending two strings with their lengths first.\<close>

definition send_login :: "jsstring \<Rightarrow> jsstring \<Rightarrow> 'z rfb \<Rightarrow> bool outcome \<times> 'z rfb" where
  "send_login user pass r =
     andthen (pushString user (push [F32 (int (length user)), F32 (int (length pass))] r))
       (\<lambda>_ r. andthen (pushString pass r) (\<lambda>_ r. (Ret True, set_init SecurityResult (flush_rfb r))))"

definition negotiatePlainAuth :: "'z rfb \<Rightarrow> bool outcome \<times> 'z rfb" where
  "negotiatePlainAuth r =
     (case (username (creds (hs r)), password (creds (hs r))) of
        (Some user, Some pass) \<Rightarrow>
          andthen (encodeUTF8 user, r) (\<lambda>user r. andthen (encodeUTF8 pass, r) (\<lambda>pass r. send_login user pass r))
      | _ \<Rightarrow> ask [''username'', ''password''] r)"

definition negotiateTightUnixAuth :: "'z rfb \<Rightarrow> bool outcome \<times> 'z rfb" where
  "negotiateTightUnixAuth r =
     (case (username (creds (hs r)), password (creds (hs r))) of
        (Some user, Some pass) \<Rightarrow> send_login user pass r
      | _ \<Rightarrow> ask [''username'', ''password''] r)"

text \<open>Random bytes with a string and a terminating zero written over their beginning.\<close>

definition put_cstring :: "nat \<Rightarrow> jsstring \<Rightarrow> bytes \<Rightarrow> bytes" where
  "put_cstring off str buf = overlay buf off (bytes_of_str str @ [0])"

definition negotiateARDAuthAsync :: "('z, 'd) world \<Rightarrow> nat \<Rightarrow> bytes \<Rightarrow> dh \<Rightarrow> jsstring \<Rightarrow> jsstring \<Rightarrow> (bytes \<times> bytes) option" where
  "negotiateARDAuthAsync W keyLength serverPublicKey clientKey user pass =
     (case dh_deriveBits serverPublicKey (keyLength * 8) clientKey of
        Ret sharedKey \<Rightarrow>
          (case (encodeUTF8 user, encodeUTF8 pass) of
             (Ret u, Ret p) \<Rightarrow>
               (let buf = put_cstring 64 (take 63 p) (put_cstring 0 (take 63 u) (w_random W 128))
                in case aes_ecb_encrypt (w_aes_cbc W) (MD5 sharedKey) buf of
                     Some encrypted \<Rightarrow> Some (encrypted, dh_publicKey clientKey)
                   | None \<Rightarrow> None)
           | _ \<Rightarrow> None)
      | _ \<Rightarrow> None)"

definition negotiateARDAuth :: "('z, 'd) world \<Rightarrow> 'z rfb \<Rightarrow> bool outcome \<times> 'z rfb" where
  "negotiateARDAuth W r =
     (case (username (creds (hs r)), password (creds (hs r))) of
        (Some user, Some pass) \<Rightarrow>
          (case (ardPublicKey (creds (hs r)), ardCredentials (creds (hs r))) of
             (Some pub, Some enc) \<Rightarrow>
               andthen (pushBytes enc r) (\<lambda>_ r. andthen (pushBytes pub r)
                 (\<lambda>_ r. (Ret True, set_init SecurityResult
                    (on_hs (\<lambda>h. h\<lparr>creds := (creds h)\<lparr>ardPublicKey := None, ardCredentials := None\<rparr>\<rparr>)
                      (flush_rfb r)))))
           | _ \<Rightarrow>
               if lacks 4 r then (Ret False, r)
               else
                 let (generator, r) = rd (rQshiftBytes 2) r;
                     (keyLength, r) = rd rQshift16 r
                 in need (nat keyLength * 2) 4 r (\<lambda>r.
                      let (prime, r) = rd (rQshiftBytes (nat keyLength)) r;
                          (serverPublicKey, r) = rd (rQshiftBytes (nat keyLength)) r
                      in andthen (dh_generateKey (w_random W) generator prime, r)
                           (\<lambda>clientKey r. (Ret False, on_hs (\<lambda>h. h\<lparr>ardJob :=
                              negotiateARDAuthAsync W (nat keyLength) serverPublicKey clientKey user pass\<rparr>) r))))
      | _ \<Rightarrow> ask [''username'', ''password''] r)"

text \<open>Resuming sets a timer that calls \<open>_initMsg\<close>.\<close>

definition resumeAuthentication :: "'z rfb \<Rightarrow> 'z rfb" where
  "resumeAuthentication r = setTimeout TResume r"

definition ardFinished :: "'z rfb \<Rightarrow> 'z rfb" where
  "ardFinished r =
     (case ardJob (hs r) of
        None \<Rightarrow> r
      | Some (enc, pub) \<Rightarrow>
          resumeAuthentication (on_hs (\<lambda>h. h\<lparr>ardJob := None,
            creds := (creds h)\<lparr>ardCredentials := Some enc, ardPublicKey := Some pub\<rparr>\<rparr>) r))"

primrec read_tunnels :: "nat \<Rightarrow> 'z rfb \<Rightarrow> (int \<rightharpoonup> jsstring \<times> jsstring) \<Rightarrow> (int \<rightharpoonup> jsstring \<times> jsstring) \<times> 'z rfb" where
  "read_tunnels 0 r m = (m, r)"
| "read_tunnels (Suc n) r m =
     (let (capCode, r) = rd rQshift32 r;
          (capVendor, r) = rd (rQshiftStr 4) r;
          (capSignature, r) = rd (rQshiftStr 8) r
      in read_tunnels n r (m(capCode \<mapsto> (capVendor, capSignature))))"

definition negotiateTightTunnels :: "nat \<Rightarrow> 'z rfb \<Rightarrow> bool outcome \<times> 'z rfb" where
  "negotiateTightTunnels numTunnels r =
     (let (server, r) = read_tunnels numTunnels r Map.empty;
          notunnel = (lit ''TGHT'', lit ''NOTUNNEL'');
          server = (if server 1 = Some (lit ''SICR'', lit ''SCHANNEL'') then server(0 \<mapsto> notunnel) else server)
      in case server 0 of
           None \<Rightarrow> fail r
         | Some t \<Rightarrow> if t \<noteq> notunnel then fail r else (Ret False, flush_rfb (push [F32 0] r)))"

primrec read_caps :: "nat \<Rightarrow> 'z rfb \<Rightarrow> jsstring list \<times> 'z rfb" where
  "read_caps 0 r = ([], r)"
| "read_caps (Suc n) r =
     (let (capNum, r) = rd rQshift32 r;
          (cap, r) = rd (rQshiftStr 12) r;
          (cs, r) = read_caps n r
      in (cap # cs, r))"

definition tight_subauth :: "'z rfb \<Rightarrow> bool outcome \<times> 'z rfb" where
  "tight_subauth r =
     (if lacks 4 r then (Ret False, r)
      else
        let (subAuthCount, r) = rd rQshift32 r
        in if subAuthCount = 0 then (Ret True, set_init SecurityResult r)
           else need (16 * nat subAuthCount) 4 r (\<lambda>r.
             let (types, r) = read_caps (nat subAuthCount) r
             in if lit ''STDVNOAUTH__'' \<in> set types
                then (Ret True, set_init SecurityResult (flush_rfb (push [F32 1] r)))
                else if lit ''STDVVNCAUTH_'' \<in> set types
                then (Ret True, set_scheme securityTypeVNCAuth (flush_rfb (push [F32 2] r)))
                else if lit ''TGHTULGNAUTH'' \<in> set types
                then (Ret True, set_scheme securityTypeUnixLogon (flush_rfb (push [F32 129] r)))
                else fail r))"

definition negotiateTightAuth :: "'z rfb \<Rightarrow> bool outcome \<times> 'z rfb" where
  "negotiateTightAuth r =
     (if \<not> rfbTightVNC (hs r) then
        if lacks 4 r then (Ret False, r)
        else
          let (numTunnels, r) = rd rQshift32 r
          in andthen (if numTunnels > 0 then wait (16 * nat numTunnels) 4 r else (Ret False, r))
               (\<lambda>w r.
                  if w then (Ret False, r)
                  else
                    let r = on_hs (\<lambda>h. h\<lparr>rfbTightVNC := True\<rparr>) r
                    in if numTunnels > 0
                       then andthen (negotiateTightTunnels (nat numTunnels) r) (\<lambda>_ r. (Ret False, r))
                       else tight_subauth r)
      else tight_subauth r)"

definition negotiateRA2neAuth :: "'z rfb \<Rightarrow> bool outcome \<times> 'z rfb" where
  "negotiateRA2neAuth r = (Ret False, on_hs (\<lambda>h. h\<lparr>ra2State := Some True\<rparr>) r)"

text \<open>The end of the RSA-AES process: \<open>None\<close> when it was done, otherwise its error message.\<close>

definition ra2Finished :: "string option \<Rightarrow> 'z rfb \<Rightarrow> 'z rfb" where
  "ra2Finished err r =
     (let r = (case err of
                 None \<Rightarrow> r
               | Some msg \<Rightarrow> if msg \<noteq> ''disconnect normally'' then snd (fail r) else r)
      in on_hs (\<lambda>h. h\<lparr>ra2State := None\<rparr>) (set_init SecurityResult r))"

definition send_mslogon ::
  "('z, 'd) world \<Rightarrow> bytes \<Rightarrow> bytes \<Rightarrow> jsstring \<Rightarrow> jsstring \<Rightarrow> 'z rfb \<Rightarrow> bool outcome \<times> 'z rfb" where
  "send_mslogon W pub secret u p r =
     (let usernameBytes = put_cstring 0 (take 255 u) (w_random W 256);
          passwordBytes = put_cstring 0 (take 63 p) (w_random W 64);
          key = map unat secret
      in case (des_cbc_encrypt secret key usernameBytes, des_cbc_encrypt secret key passwordBytes) of
           (Some ue, Some pe) \<Rightarrow>
             andthen (pushBytes pub r) (\<lambda>_ r. andthen (pushBytes ue r) (\<lambda>_ r. andthen (pushBytes pe r)
               (\<lambda>_ r. (Ret True, set_init SecurityResult (flush_rfb r)))))
         | _ \<Rightarrow> (Throw TypeError, r))"

definition negotiateMSLogonIIAuth :: "('z, 'd) world \<Rightarrow> 'z rfb \<Rightarrow> bool outcome \<times> 'z rfb" where
  "negotiateMSLogonIIAuth W r =
     (if lacks 24 r then (Ret False, r)
      else case (username (creds (hs r)), password (creds (hs r))) of
             (Some user, Some pass) \<Rightarrow>
               let (g, r) = rd (rQshiftBytes 8) r;
                   (p, r) = rd (rQshiftBytes 8) r;
                   (A, r) = rd (rQshiftBytes 8) r
               in andthen (dh_generateKey (w_random W) g p, r)
                    (\<lambda>dhKey r. andthen (dh_deriveBits A 64 dhKey, r)
                      (\<lambda>secret r. andthen (encodeUTF8 user, r) (\<lambda>u r. andthen (encodeUTF8 pass, r)
                        (\<lambda>p r. send_mslogon W (dh_publicKey dhKey) secret u p r))))
           | _ \<Rightarrow> ask [''username'', ''password''] r)"

definition negotiateAuthentication :: "('z, 'd) world \<Rightarrow> 'z rfb \<Rightarrow> bool outcome \<times> 'z rfb" where
  "negotiateAuthentication W r =
     (let scheme = rfbAuthScheme (hs r) in
      if scheme = securityTypeNone then
        (Ret True, set_init (if rfbVersion (hs r) \<ge> 38 then SecurityResult else ClientInitialisation) r)
      else if scheme = securityTypeXVP then negotiateXvpAuth r
      else if scheme = securityTypeARD then negotiateARDAuth W r
      else if scheme = securityTypeVNCAuth then negotiateStdVNCAuth r
      else if scheme = securityTypeTight then negotiateTightAuth r
      else if scheme = securityTypeVeNCrypt then negotiateVeNCryptAuth r
      else if scheme = securityTypePlain then negotiatePlainAuth r
      else if scheme = securityTypeUnixLogon then negotiateTightUnixAuth r
      else if scheme = securityTypeRA2ne then negotiateRA2neAuth r
      else if scheme = securityTypeMSLogonII then negotiateMSLogonIIAuth W r
      else fail r)"

definition handleSecurityResult :: "'z rfb \<Rightarrow> bool outcome \<times> 'z rfb" where
  "handleSecurityResult r =
     (if lacks 4 r then (Ret False, r)
      else
        let (status, r) = rd rQshift32 r
        in if status = 0 then (Ret True, set_init ClientInitialisation r)
           else if rfbVersion (hs r) \<ge> 38 then (Ret True, security_reason ''security result'' status r)
           else fail (dispatch (EvSecurityFailure status None) r))"

section \<open>Initialisation\<close>

definition client_encodings :: "int \<Rightarrow> int \<Rightarrow> int \<Rightarrow> int list" where
  "client_encodings depth quality compression =
     [encodingCopyRect]
     @ (if depth = 24 then [encodingTight, encodingTightPNG, encodingZRLE, encodingJPEG, encodingHextile, encodingRRE]
        else [])
     @ [encodingRaw, pseudoEncodingQualityLevel0 + quality, pseudoEncodingCompressLevel0 + compression,
        pseudoEncodingDesktopSize, pseudoEncodingLastRect, pseudoEncodingQEMUExtendedKeyEvent,
        pseudoEncodingQEMULedEvent, pseudoEncodingExtendedDesktopSize, pseudoEncodingXvp,
        pseudoEncodingFence, pseudoEncodingContinuousUpdates, pseudoEncodingDesktopName,
        pseudoEncodingExtendedClipboard]
     @ (if depth = 24 then [pseudoEncodingVMwareCursor, pseudoEncodingCursor] else [])"

definition sendEncodings :: "'z rfb \<Rightarrow> 'z rfb" where
  "sendEncodings r =
     on_sock (clientEncodings (client_encodings (fbDepth r) (qualityLevel (sets r)) (compressionLevel (sets r)))) r"

text \<open>The extension of the server's message after a Tight handshake; \<open>nameLength\<close> bytes and the fixed
  part are before it.\<close>

definition tight_server_init ::
  "nat \<Rightarrow> 'z rfb \<Rightarrow> ('z rfb \<Rightarrow> bool outcome \<times> 'z rfb) \<Rightarrow> bool outcome \<times> 'z rfb" where
  "tight_server_init nameLength r k =
     (if rfbTightVNC (hs r) then
        need 8 (24 + nameLength) r (\<lambda>r.
          let (numServerMessages, r) = rd rQshift16 r;
              (numClientMessages, r) = rd rQshift16 r;
              (numEncodings, r) = rd rQshift16 r;
              r = skip 2 r;
              total = nat ((numServerMessages + numClientMessages + numEncodings) * 16)
          in need total (32 + nameLength) r (\<lambda>r.
               k (skip (16 * nat numEncodings) (skip (16 * nat numClientMessages)
                   (skip (16 * nat numServerMessages) r)))))
      else k r)"

definition decode_name :: "jsstring \<Rightarrow> jsstring" where
  "decode_name name = (case decodeUTF8 name True of Ret s \<Rightarrow> s | _ \<Rightarrow> name)"

definition start_session :: "('z, 'd) world \<Rightarrow> int \<Rightarrow> int \<Rightarrow> jsstring \<Rightarrow> 'z rfb \<Rightarrow> bool outcome \<times> 'z rfb" where
  "start_session W width height name r =
     (let r = resize W width height (setDesktopName name r);
          r = (if \<not> viewOnly (sets r) then on_kbd grab r else r);
          r = r\<lparr>fbDepth := (if fbName r = lit ''Intel(r) AMT KVM'' then 8 else 24)\<rparr>;
          r = on_sock (pixelFormat (fbDepth r) True) r;
          r = sendEncodings r;
          r = on_sock (fbUpdateRequest False 0 0 (fbW r) (fbH r)) r
      in (Ret True, leave_to Connected r))"

definition negotiateServerInit :: "('z, 'd) world \<Rightarrow> 'z rfb \<Rightarrow> bool outcome \<times> 'z rfb" where
  "negotiateServerInit W r =
     (if lacks 24 r then (Ret False, r)
      else
        let (width, r) = rd rQshift16 r;
            (height, r) = rd rQshift16 r;
            r = skip 16 r;
            (nameLength, r) = rd rQshift32 r
        in need (nat nameLength) 24 r (\<lambda>r.
             let (name, r) = rd (rQshiftStr (nat nameLength)) r
             in tight_server_init (nat nameLength) r (\<lambda>r. start_session W width height (decode_name name) r)))"

definition initMsg :: "('z, 'd) world \<Rightarrow> 'z rfb \<Rightarrow> bool outcome \<times> 'z rfb" where
  "initMsg W r =
     (case rfbInitState r of
        ProtocolVersion \<Rightarrow> negotiateProtocolVersion r
      | Security \<Rightarrow> negotiateSecurity r
      | Authentication \<Rightarrow> negotiateAuthentication W r
      | SecurityResult \<Rightarrow> handleSecurityResult r
      | SecurityReason \<Rightarrow> handleSecurityReason r
      | ClientInitialisation \<Rightarrow>
          (Ret True, set_init ServerInitialisation (flush_rfb (push [F8 (of_bool (shared (hs r)))] r)))
      | ServerInitialisation \<Rightarrow> negotiateServerInit W r
      | NoInit \<Rightarrow> fail r)"

end
