(* ===== verification/Rfb_Server.thy ===== *)
theory Rfb_Server
  imports Rfb_Handshake
begin

text \<open>
  The messages of the server after the handshake, \<open>_handleServerCutText\<close> to \<open>_handleDataRect\<close> of
  \<open>core/rfb.js\<close>, and the loop that is run when data has arrived, \<open>_handleMessage\<close>. A handler returns
  whether the message was complete.
\<close>

section \<open>Clipboard\<close>

text \<open>\<open>rQshiftBytes\<close> with a negative length gives no bytes and moves the read position back.\<close>

definition shift_signed :: "int \<Rightarrow> websock \<Rightarrow> bytes \<times> websock" where
  "shift_signed len s =
     (if len < 0 then ([], s\<lparr>rQi := rQi s - nat (- len)\<rparr>) else rQshiftBytes (nat len) s)"

primrec read_caps_sizes :: "nat list \<Rightarrow> int \<Rightarrow> 'z rfb \<Rightarrow> int list \<times> 'z rfb" where
  "read_caps_sizes [] formats r = ([], r)"
| "read_caps_sizes (i # is) formats r =
     (if js_and formats (js_shl 1 i) \<noteq> 0 then
        let (sz, r) = rd rQshift32 r; (fs, r) = read_caps_sizes is formats r in (js_shl 1 i # fs, r)
      else read_caps_sizes is formats r)"

text \<open>The chunks of a Provide message; the result is the chunk of the text format. An \<open>inflate\<close> with a
  negative size always throws, since the number of bytes it yields is not negative.\<close>

primrec provide_chunks ::
  "'z zlib \<Rightarrow> nat list \<Rightarrow> int \<Rightarrow> 'z inflator \<Rightarrow> bytes option \<Rightarrow> bytes option outcome" where
  "provide_chunks Z [] formats ifl textData = Ret textData"
| "provide_chunks Z (i # is) formats ifl textData =
     (if js_and formats (js_shl 1 i) \<noteq> 0 then
        (case inflate Z 4 ifl of
           (Ret sz, ifl) \<Rightarrow>
             let n = js_or (js_or (js_or (js_or 0 (js_shl (byte_at sz 0) 24)) (js_shl (byte_at sz 1) 16))
                       (js_shl (byte_at sz 2) 8)) (byte_at sz 3)
             in if n < 0 then Throw (ErrorMsg ''Incomplete zlib block'')
                else (case inflate Z (nat n) ifl of
                        (Ret chunk, ifl) \<Rightarrow>
                          provide_chunks Z is formats ifl
                            (if js_shl 1 i = extendedClipboardFormatText then Some chunk else textData)
                      | (Throw e, ifl) \<Rightarrow> Throw e
                      | (Hang, ifl) \<Rightarrow> Hang)
         | (Throw e, ifl) \<Rightarrow> Throw e
         | (Hang, ifl) \<Rightarrow> Hang)
      else provide_chunks Z is formats ifl textData)"

fun from_crlf :: "jsstring \<Rightarrow> jsstring" where
  "from_crlf (c # d # s) = (if c = 13 \<and> d = 10 then 10 # from_crlf s else c # from_crlf (d # s))"
| "from_crlf s = s"

definition strip_null :: "jsstring \<Rightarrow> jsstring" where
  "strip_null s = (if s \<noteq> [] \<and> last s = 0 then butlast s else s)"

definition clip_provide :: "('z, 'd) world \<Rightarrow> int \<Rightarrow> int \<Rightarrow> 'z rfb \<Rightarrow> bool outcome \<times> 'z rfb" where
  "clip_provide W len formats r =
     (if viewOnly (sets r) then (Ret True, r)
      else if js_and formats extendedClipboardFormatText = 0 then (Ret True, r)
      else
        let r = on_feat (\<lambda>f. f\<lparr>clipboardText := None\<rparr>) r;
            (zlibStream, r) = rd (shift_signed (len - 4)) r;
            ifl = setInput (Some zlibStream) (new_inflator (w_zlib W))
        in andthen (provide_chunks (w_zlib W) [0..<16] formats ifl None, r)
             (\<lambda>textData r. case textData of
                None \<Rightarrow> (Ret True, r)
              | Some bs \<Rightarrow> andthen (decodeUTF8 (str_of_bytes bs) False, r)
                  (\<lambda>text r. (Ret True, dispatch (EvClipboard (from_crlf (strip_null text))) r))))"

definition sock_call :: "(websock \<Rightarrow> unit outcome \<times> websock) \<Rightarrow> 'z rfb \<Rightarrow> bool outcome \<times> 'z rfb" where
  "sock_call f r = (case f (sock r) of (q, s) \<Rightarrow> andthen (q, r\<lparr>sock := s\<rparr>) (\<lambda>_ r. (Ret True, r)))"

definition clip_caps :: "int \<Rightarrow> int \<Rightarrow> 'z rfb \<Rightarrow> bool outcome \<times> 'z rfb" where
  "clip_caps formats actions r =
     (let (fs, r) = read_caps_sizes [0..<16] formats r;
          acts = filter (\<lambda>a. js_and actions a \<noteq> 0) (map (js_shl 1) [24..<32]);
          r = on_feat (\<lambda>f. f\<lparr>clipFormats := fs, clipActions := acts\<rparr>) r
      in sock_call (extendedClipboardCaps
           [extendedClipboardActionCaps, extendedClipboardActionRequest, extendedClipboardActionPeek,
            extendedClipboardActionNotify, extendedClipboardActionProvide] [(None, 0)]) r)"

definition clip_request :: "('z, 'd) world \<Rightarrow> int \<Rightarrow> 'z rfb \<Rightarrow> bool outcome \<times> 'z rfb" where
  "clip_request W formats r =
     (if viewOnly (sets r) then (Ret True, r)
      else case clipboardText (feat r) of
             Some text \<Rightarrow>
               if extendedClipboardActionProvide \<in> set (clipActions (feat r)) \<and>
                  js_and formats extendedClipboardFormatText \<noteq> 0
               then sock_call (extendedClipboardProvide (w_deflate W) [extendedClipboardFormatText] [text]) r
               else (Ret True, r)
           | None \<Rightarrow> (Ret True, r))"

definition clip_peek :: "'z rfb \<Rightarrow> bool outcome \<times> 'z rfb" where
  "clip_peek r =
     (if viewOnly (sets r) then (Ret True, r)
      else if extendedClipboardActionNotify \<in> set (clipActions (feat r)) then
        sock_call (extendedClipboardNotify
          (if clipboardText (feat r) \<noteq> None then [extendedClipboardFormatText] else [])) r
      else (Ret True, r))"

definition clip_notify :: "int \<Rightarrow> 'z rfb \<Rightarrow> bool outcome \<times> 'z rfb" where
  "clip_notify formats r =
     (if viewOnly (sets r) then (Ret True, r)
      else if extendedClipboardActionRequest \<in> set (clipActions (feat r)) \<and>
        js_and formats extendedClipboardFormatText \<noteq> 0
      then sock_call (extendedClipboardRequest [extendedClipboardFormatText]) r
      else (Ret True, r))"

definition extended_cut_text :: "('z, 'd) world \<Rightarrow> int \<Rightarrow> 'z rfb \<Rightarrow> bool outcome \<times> 'z rfb" where
  "extended_cut_text W len r =
     (let (flags, r) = rd rQshift32 r;
          formats = js_and flags 0x0000FFFF;
          actions = js_and flags 0xFF000000
      in if js_and actions extendedClipboardActionCaps \<noteq> 0 then clip_caps formats actions r
         else if actions = extendedClipboardActionRequest then clip_request W formats r
         else if actions = extendedClipboardActionPeek then clip_peek r
         else if actions = extendedClipboardActionNotify then clip_notify formats r
         else if actions = extendedClipboardActionProvide then clip_provide W len formats r
         else fail r)"

definition handleServerCutText :: "('z, 'd) world \<Rightarrow> 'z rfb \<Rightarrow> bool outcome \<times> 'z rfb" where
  "handleServerCutText W r =
     need 7 1 r (\<lambda>r.
       let (len, r) = rd rQshift32 (skip 3 r);
           len = toInt32 len
       in need (nat \<bar>len\<bar>) 8 r (\<lambda>r.
            if len \<ge> 0 then
              let (text, r) = rd (rQshiftStr (nat len)) r
              in (Ret True, if viewOnly (sets r) then r else dispatch (EvClipboard text) r)
            else extended_cut_text W \<bar>len\<bar> r))"

section \<open>Fences and power control\<close>

definition handleServerFenceMsg :: "'z rfb \<Rightarrow> bool outcome \<times> 'z rfb" where
  "handleServerFenceMsg r =
     need 8 1 r (\<lambda>r.
       let (flags, r) = rd rQshift32 (skip 3 r);
           (len, r) = rd rQshift8 r
       in need (nat len) 9 r (\<lambda>r.
            let len = (if len > 64 then 64 else len);
                (payload, r) = rd (rQshiftStr (nat len)) r;
                r = on_feat (\<lambda>f. f\<lparr>supportsFence := True\<rparr>) r
            in if js_and flags (js_shl 1 31) = 0 then fail r
               else sock_call (clientFence (js_and flags (js_or (js_shl 1 0) (js_shl 1 1))) payload) r))"

definition handleXvpMsg :: "'z rfb \<Rightarrow> bool outcome \<times> 'z rfb" where
  "handleXvpMsg r =
     need 3 1 r (\<lambda>r.
       let (xvpVer, r) = rd rQshift8 (skip 1 r);
           (xvpMsg, r) = rd rQshift8 r
       in if xvpMsg = 0 then (Ret True, r)
          else if xvpMsg = 1 then (Ret True, setCapability True (on_feat (\<lambda>f. f\<lparr>rfbXvpVer := xvpVer\<rparr>) r))
          else (Ret True, snd (fail r)))"

section \<open>Rectangles\<close>

primrec read_words :: "nat \<Rightarrow> 'z rfb \<Rightarrow> int list \<times> 'z rfb" where
  "read_words 0 r = ([], r)"
| "read_words (Suc n) r = (let (v, r) = rd rQshift32 r; (vs, r) = read_words n r in (v # vs, r))"

definition PIXEL_MASK :: int where
  "PIXEL_MASK = js_or 0xffffff00 0"

definition classic_pixel :: "int \<Rightarrow> int \<Rightarrow> int list" where
  "classic_pixel andMask xorMask =
     (if andMask = 0 then
        [js_and (js_sar xorMask 8) 255, js_and (js_sar xorMask 16) 255, js_and (js_sar xorMask 24) 255, 255]
      else if js_and andMask PIXEL_MASK = PIXEL_MASK then
        if xorMask = 0 then [0, 0, 0, 0]
        else if js_and xorMask PIXEL_MASK = PIXEL_MASK then [0, 0, 0, 255]
        else [0, 0, 0, 255]
      else [0, 0, 0, 255])"

definition alpha_pixel :: "int \<Rightarrow> int list" where
  "alpha_pixel d =
     [js_and (js_sar d 24) 255, js_and (js_sar d 16) 255, js_and (js_sar d 8) 255, js_and d 255]"

definition handleVMwareCursor :: "'z rfb \<Rightarrow> bool outcome \<times> 'z rfb" where
  "handleVMwareCursor r =
     (let hx = fbu_x (rfbu r); hy = fbu_y (rfbu r); w = fbu_width (rfbu r); h = fbu_height (rfbu r);
          n = nat (w * h)
      in if lacks 1 r then (Ret False, r)
         else
           let (cursorType, r) = rd rQshift8 r;
               (padding, r) = rd rQshift8 r
           in if cursorType = 0 then
                need (n * 4 * 2) 2 r (\<lambda>r.
                  let (andMask, r) = read_words n r;
                      (xorMask, r) = read_words n r
                  in (Ret True, updateCursor (concat (map2 classic_pixel andMask xorMask)) hx hy w h r))
              else if cursorType = 1 then
                need (n * 4) 2 r (\<lambda>r.
                  let (px, r) = read_words n r
                  in (Ret True, updateCursor (concat (map alpha_pixel px)) hx hy w h r))
              else (Ret False, r))"

definition cursor_pixel :: "int \<Rightarrow> bytes \<Rightarrow> bytes \<Rightarrow> nat \<Rightarrow> nat \<Rightarrow> int list" where
  "cursor_pixel w pixels bmask y x =
     (let pixIdx = (y * nat w + x) * 4;
          maskIdx = y * nat ((w + 7) div 8) + x div 8;
          alpha = (if js_and (js_shl (byte_at bmask maskIdx) (x mod 8)) 0x80 \<noteq> 0 then 255 else 0)
      in [byte_at pixels (pixIdx + 2), byte_at pixels (pixIdx + 1), byte_at pixels pixIdx, alpha])"

definition handleCursor :: "'z rfb \<Rightarrow> bool outcome \<times> 'z rfb" where
  "handleCursor r =
     (let hx = fbu_x (rfbu r); hy = fbu_y (rfbu r); w = fbu_width (rfbu r); h = fbu_height (rfbu r);
          pixelslength = nat (w * h * 4);
          masklength = nat ((w + 7) div 8 * h)
      in if lacks (pixelslength + masklength) r then (Ret False, r)
         else
           let (pixels, r) = rd (rQshiftBytes pixelslength) r;
               (bmask, r) = rd (rQshiftBytes masklength) r;
               rgba = concat (map (\<lambda>y. concat (map (cursor_pixel w pixels bmask y) [0..<nat w])) [0..<nat h])
           in (Ret True, updateCursor rgba hx hy w h r))"

definition handleDesktopName :: "'z rfb \<Rightarrow> bool outcome \<times> 'z rfb" where
  "handleDesktopName r =
     (if lacks 4 r then (Ret False, r)
      else
        let (len, r) = rd rQshift32 r
        in need (nat len) 4 r (\<lambda>r.
             let (name, r) = rd (rQshiftStr (nat len)) r
             in (Ret True, setDesktopName (decode_name name) r)))"

definition handleLedEvent :: "'z rfb \<Rightarrow> bool outcome \<times> 'z rfb" where
  "handleLedEvent r =
     (if lacks 1 r then (Ret False, r)
      else
        let (data, r) = rd rQshift8 r
        in (Ret True, on_feat (\<lambda>f. f\<lparr>remoteCapsLock := Some (js_and data 4 \<noteq> 0),
                                     remoteNumLock := Some (js_and data 2 \<noteq> 0)\<rparr>) r))"

definition first_screen :: "'z rfb \<Rightarrow> 'z rfb" where
  "first_screen r =
     (let (sid, r) = rd rQshift32 r;
          r = skip 2 (skip 2 (skip 2 (skip 2 r)));
          (flags, r) = rd rQshift32 r
      in on_feat (\<lambda>f. f\<lparr>screenID := sid, screenFlags := flags\<rparr>) r)"

definition read_screens :: "nat \<Rightarrow> 'z rfb \<Rightarrow> 'z rfb" where
  "read_screens n r = fold (\<lambda>i r. if i = 0 then first_screen r else skip 16 r) [0..<n] r"

definition handleExtendedDesktopSize :: "('z, 'd) world \<Rightarrow> 'z rfb \<Rightarrow> bool outcome \<times> 'z rfb" where
  "handleExtendedDesktopSize W r =
     (if lacks 4 r then (Ret False, r)
      else
        let numberOfScreens = nat (undef0 (rQpeek8 (sock r)))
        in if lacks (4 + numberOfScreens * 16) r then (Ret False, r)
           else
             let firstUpdate = (\<not> supportsSetDesktopSize (feat r));
                 r = on_feat (\<lambda>f. f\<lparr>supportsSetDesktopSize := True\<rparr>) r;
                 r = read_screens numberOfScreens (skip 3 (skip 1 r));
                 r = (if fbu_x (rfbu r) = 1 \<and> fbu_y (rfbu r) \<noteq> 0 then r
                      else resize W (fbu_width (rfbu r)) (fbu_height (rfbu r)) r)
             in (Ret True, if firstUpdate then requestRemoteResize W r else r))"

text \<open>A decoder works on its own state, the display and the socket; an exception it throws ends the
  connection.\<close>

definition on_decs :: "('z decoders \<Rightarrow> 'z decoders) \<Rightarrow> 'z rfb \<Rightarrow> 'z rfb" where
  "on_decs f r = r\<lparr>decs := f (decs r)\<rparr>"

definition run_decoder ::
  "('st \<times> display \<Rightarrow> websock \<Rightarrow> ('st \<times> display) decoded) \<Rightarrow> ('z decoders \<Rightarrow> 'st) \<Rightarrow>
   ('st \<Rightarrow> 'z decoders \<Rightarrow> 'z decoders) \<Rightarrow> 'z rfb \<Rightarrow> bool outcome \<times> 'z rfb" where
  "run_decoder dec get put r =
     (case dec (get (decs r), disp r) (sock r) of
        (q, (st, d), s) \<Rightarrow>
          let r = on_decs (put st) (r\<lparr>disp := d, sock := s\<rparr>)
          in case q of Throw e \<Rightarrow> fail r | _ \<Rightarrow> (q, r))"

definition handleDataRect :: "('z, 'd) world \<Rightarrow> 'z rfb \<Rightarrow> bool outcome \<times> 'z rfb" where
  "handleDataRect W r =
     (let x = fbu_x (rfbu r); y = fbu_y (rfbu r); w = fbu_width (rfbu r); h = fbu_height (rfbu r);
          enc = fbu_encoding (rfbu r); Z = w_zlib W
      in if enc = Some encodingRaw then
           run_decoder (raw_decodeRect x y w h (fbDepth r)) raw_st (\<lambda>st d. d\<lparr>raw_st := st\<rparr>) r
         else if enc = Some encodingCopyRect then
           run_decoder (\<lambda>c s. case copyrect_decodeRect x y w h (snd c) s of (q, d, s) \<Rightarrow> (q, ((), d), s))
             (\<lambda>_. ()) (\<lambda>_ d. d) r
         else if enc = Some encodingRRE then
           run_decoder (rre_decodeRect x y w h) rre_st (\<lambda>st d. d\<lparr>rre_st := st\<rparr>) r
         else if enc = Some encodingHextile then
           run_decoder (hextile_decodeRect x y w h) hextile_st (\<lambda>st d. d\<lparr>hextile_st := st\<rparr>) r
         else if enc = Some encodingTight then
           run_decoder (tight_decodeRect Z x y w h) tight_st (\<lambda>st d. d\<lparr>tight_st := st\<rparr>) r
         else if enc = Some encodingTightPNG then
           run_decoder (tightpng_decodeRect Z x y w h) tightpng_st (\<lambda>st d. d\<lparr>tightpng_st := st\<rparr>) r
         else if enc = Some encodingZRLE then
           run_decoder (zrle_decodeRect Z x y w h) zrle_st (\<lambda>st d. d\<lparr>zrle_st := st\<rparr>) r
         else if enc = Some encodingJPEG then
           run_decoder (jpeg_decodeRect x y w h) jpeg_st (\<lambda>st d. d\<lparr>jpeg_st := st\<rparr>) r
         else fail r)"

definition on_fbu :: "(fbu \<Rightarrow> fbu) \<Rightarrow> 'z rfb \<Rightarrow> 'z rfb" where
  "on_fbu f r = r\<lparr>rfbu := f (rfbu r)\<rparr>"

definition handleRect :: "('z, 'd) world \<Rightarrow> 'z rfb \<Rightarrow> bool outcome \<times> 'z rfb" where
  "handleRect W r =
     (let enc = fbu_encoding (rfbu r) in
      if enc = Some pseudoEncodingLastRect then (Ret True, on_fbu (\<lambda>u. u\<lparr>rects := 1\<rparr>) r)
      else if enc = Some pseudoEncodingVMwareCursor then handleVMwareCursor r
      else if enc = Some pseudoEncodingCursor then handleCursor r
      else if enc = Some pseudoEncodingQEMUExtendedKeyEvent then
        (Ret True, on_feat (\<lambda>f. f\<lparr>qemuExtKeyEventSupported := True\<rparr>) r)
      else if enc = Some pseudoEncodingDesktopName then handleDesktopName r
      else if enc = Some pseudoEncodingDesktopSize then
        (Ret True, resize W (fbu_width (rfbu r)) (fbu_height (rfbu r)) r)
      else if enc = Some pseudoEncodingExtendedDesktopSize then handleExtendedDesktopSize W r
      else if enc = Some pseudoEncodingQEMULedEvent then handleLedEvent r
      else handleDataRect W r)"

section \<open>Frame buffer updates\<close>

definition read_rect_header :: "'z rfb \<Rightarrow> 'z rfb" where
  "read_rect_header r =
     (let (x, r) = rd rQshift16 r;
          (y, r) = rd rQshift16 r;
          (w, r) = rd rQshift16 r;
          (h, r) = rd rQshift16 r;
          (enc, r) = rd rQshift32 r
      in on_fbu (\<lambda>u. u\<lparr>fbu_x := x, fbu_y := y, fbu_width := w, fbu_height := h,
                       fbu_encoding := Some (js_sar enc 0)\<rparr>) r)"

text \<open>The loop over the rectangles. Each pass takes at least one off their number, so that number is
  enough fuel.\<close>

primrec rect_loop :: "nat \<Rightarrow> ('z, 'd) world \<Rightarrow> 'z rfb \<Rightarrow> bool outcome \<times> 'z rfb" where
  "rect_loop 0 W r = (if rects (rfbu r) > 0 then (Hang, r) else (Ret True, on_disp disp_flip r))"
| "rect_loop (Suc n) W r =
     (if rects (rfbu r) > 0 then
        if fbu_encoding (rfbu r) = None \<and> lacks 12 r then (Ret False, r)
        else
          let r = (if fbu_encoding (rfbu r) = None then read_rect_header r else r)
          in andthen (handleRect W r)
               (\<lambda>ok r. if \<not> ok then (Ret False, r)
                       else rect_loop n W (on_fbu (\<lambda>u. u\<lparr>rects := rects u - 1, fbu_encoding := None\<rparr>) r))
      else (Ret True, on_disp disp_flip r))"

definition framebufferUpdate :: "('z, 'd) world \<Rightarrow> 'z rfb \<Rightarrow> bool outcome \<times> 'z rfb" where
  "framebufferUpdate W r =
     (if rects (rfbu r) = 0 then
        need 3 1 r (\<lambda>r.
          let (n, r) = rd rQshift16 (skip 1 r);
              r = on_fbu (\<lambda>u. u\<lparr>rects := nat n\<rparr>) r
          in if pending (disp r) then (Ret False, (on_disp (snd \<circ> disp_flush) r)\<lparr>flushing := True\<rparr>)
             else rect_loop (nat n) W r)
      else rect_loop (rects (rfbu r)) W r)"

section \<open>Messages\<close>

definition endOfContinuousUpdates :: "'z rfb \<Rightarrow> 'z rfb" where
  "endOfContinuousUpdates r =
     (let first = (\<not> supportsContinuousUpdates (feat r));
          r = on_feat (\<lambda>f. f\<lparr>supportsContinuousUpdates := True, enabledContinuousUpdates := False\<rparr>) r
      in if first then updateContinuousUpdates (on_feat (\<lambda>f. f\<lparr>enabledContinuousUpdates := True\<rparr>) r) else r)"

definition normalMsg :: "('z, 'd) world \<Rightarrow> 'z rfb \<Rightarrow> bool outcome \<times> 'z rfb" where
  "normalMsg W r =
     (let (msgType, r) = (if rects (rfbu r) > 0 then (0, r) else rd rQshift8 r) in
      if msgType = 0 then
        andthen (framebufferUpdate W r)
          (\<lambda>ret r. (Ret ret, if ret \<and> \<not> enabledContinuousUpdates (feat r)
                             then on_sock (fbUpdateRequest True 0 0 (fbW r) (fbH r)) r else r))
      else if msgType = 1 then fail r
      else if msgType = 2 then (Ret True, dispatch EvBell r)
      else if msgType = 3 then handleServerCutText W r
      else if msgType = 150 then (Ret True, endOfContinuousUpdates r)
      else if msgType = 248 then handleServerFenceMsg r
      else if msgType = 250 then handleXvpMsg r
      else (Ret True, snd (fail r)))"

partial_function (option) normal_loop ::
  "('z, 'd) world \<Rightarrow> 'z rfb \<Rightarrow> (unit outcome \<times> 'z rfb) option" where
  "normal_loop W r =
     (if flushing r then Some (Ret (), r)
      else case normalMsg W r of
             (Ret ok, r') \<Rightarrow> if \<not> ok \<or> lacks 1 r' then Some (Ret (), r') else normal_loop W r'
           | (Throw e, r') \<Rightarrow> Some (Throw e, r')
           | (Hang, r') \<Rightarrow> Some (Hang, r'))"

partial_function (option) init_loop ::
  "('z, 'd) world \<Rightarrow> 'z rfb \<Rightarrow> (unit outcome \<times> 'z rfb) option" where
  "init_loop W r =
     (if rfbConnectionState r = Connecting then
        case initMsg W r of
          (Ret ok, r') \<Rightarrow> if \<not> ok then Some (Ret (), r') else init_loop W r'
        | (Throw e, r') \<Rightarrow> Some (Throw e, r')
        | (Hang, r') \<Rightarrow> Some (Hang, r')
      else Some (Ret (), r))"

definition handleMessage :: "('z, 'd) world \<Rightarrow> 'z rfb \<Rightarrow> unit outcome \<times> 'z rfb" where
  "handleMessage W r =
     (if lacks 1 r then (Ret (), r)
      else case rfbConnectionState r of
             Connected \<Rightarrow> (case normal_loop W r of None \<Rightarrow> (Hang, r) | Some q \<Rightarrow> q)
           | Connecting \<Rightarrow> (case init_loop W r of None \<Rightarrow> (Hang, r) | Some q \<Rightarrow> q)
           | _ \<Rightarrow> (Ret (), r))"

text \<open>The promise of the display's flush is resolved.\<close>

definition flushed :: "('z, 'd) world \<Rightarrow> 'z rfb \<Rightarrow> unit outcome \<times> 'z rfb" where
  "flushed W r =
     (let r = r\<lparr>flushing := False\<rparr> in if \<not> lacks 1 r then handleMessage W r else (Ret (), r))"

end
