(* ===== verification/Rfb_Input.thy ===== *)
theory Rfb_Input
  imports Rfb_Server
begin

text \<open>
  Input events and the public interface of the RFB client in \<open>core/rfb.js\<close>: the mouse, the wheel,
  gestures, the constructor, the properties and the public methods, and \<open>core/util/element.js\<close>. The
  last section lists every entry point of a client, the operations that the browser, the network and
  the application may call in any order.
\<close>

section \<open>Mouse\<close>

definition MOUSE_MOVE_DELAY :: int where "MOUSE_MOVE_DELAY = 17"
definition WHEEL_STEP :: rat where "WHEEL_STEP = 50"
definition WHEEL_LINE_HEIGHT :: rat where "WHEEL_LINE_HEIGHT = 19"
definition GESTURE_ZOOMSENS :: rat where "GESTURE_ZOOMSENS = 75"
definition GESTURE_SCRLSENS :: rat where "GESTURE_SCRLSENS = 50"
definition DOUBLE_TAP_TIMEOUT :: int where "DOUBLE_TAP_TIMEOUT = 1000"
definition DOUBLE_TAP_THRESHOLD :: rat where "DOUBLE_TAP_THRESHOLD = 50"

definition clientToElement :: "rat \<Rightarrow> rat \<Rightarrow> ('z, 'd) world \<Rightarrow> rat \<times> rat" where
  "clientToElement x y W =
     (let (left, top) = w_canvasPos W; (width, height) = w_canvasSize W
      in (if x < left then 0 else if x \<ge> left + width then width - 1 else x - left,
          if y < top then 0 else if y \<ge> top + height then height - 1 else y - top))"

definition sendMouse :: "rat \<Rightarrow> rat \<Rightarrow> int \<Rightarrow> 'z rfb \<Rightarrow> 'z rfb" where
  "sendMouse x y buttons r =
     (if rfbConnectionState r \<noteq> Connected then r
      else if viewOnly (sets r) then r
      else on_sock (pointerEvent (absX x (disp r)) (absY y (disp r)) buttons) r)"

definition press_buttons :: "rat \<Rightarrow> rat \<Rightarrow> bool \<Rightarrow> int \<Rightarrow> 'z rfb \<Rightarrow> 'z rfb" where
  "press_buttons x y down bmask r =
     (let r = (if mouseMoveTimer (ptr r)
               then sendMouse x y (mouseButtonMask (ptr r))
                      (on_ptr (\<lambda>p. p\<lparr>mouseMoveTimer := False\<rparr>) (clearTimeout TMouseMove r)) else r);
          m = (if down then js_or (mouseButtonMask (ptr r)) bmask
               else js_and (mouseButtonMask (ptr r)) (js_not bmask));
          r = on_ptr (\<lambda>p. p\<lparr>mouseButtonMask := m\<rparr>) r
      in sendMouse x y (mouseButtonMask (ptr r)) r)"

definition handleMouseButton :: "rat \<Rightarrow> rat \<Rightarrow> bool \<Rightarrow> int \<Rightarrow> 'z rfb \<Rightarrow> 'z rfb" where
  "handleMouseButton x y down bmask r =
     (if dragViewport (sets r) then
        if down \<and> \<not> viewportDragging (ptr r) then
          on_ptr (\<lambda>p. p\<lparr>viewportDragging := True, viewportDragPos := (x, y), viewportHasMoved := False\<rparr>) r
        else
          let r = on_ptr (\<lambda>p. p\<lparr>viewportDragging := False\<rparr>) r
          in if viewportHasMoved (ptr r) then r
             else press_buttons x y down bmask (sendMouse x y bmask r)
      else press_buttons x y down bmask r)"

definition handleMouseMove :: "('z, 'd) world \<Rightarrow> rat \<Rightarrow> rat \<Rightarrow> 'z rfb \<Rightarrow> 'z rfb" where
  "handleMouseMove W x y r =
     (if viewportDragging (ptr r) then
        let (px, py) = viewportDragPos (ptr r); deltaX = px - x; deltaY = py - y
        in if viewportHasMoved (ptr r) \<or> \<bar>deltaX\<bar> > w_dragThreshold W \<or> \<bar>deltaY\<bar> > w_dragThreshold W
           then on_disp (viewportChangePos deltaX deltaY)
                  (on_ptr (\<lambda>p. p\<lparr>viewportHasMoved := True, viewportDragPos := (x, y)\<rparr>) r)
           else r
      else
        let r = on_ptr (\<lambda>p. p\<lparr>mousePos := (x, y)\<rparr>) r
        in if \<not> mouseMoveTimer (ptr r) then
             if w_now W - mouseLastMoveTime (ptr r) > MOUSE_MOVE_DELAY
             then on_ptr (\<lambda>p. p\<lparr>mouseLastMoveTime := w_now W\<rparr>) (sendMouse x y (mouseButtonMask (ptr r)) r)
             else setTimeout TMouseMove (on_ptr (\<lambda>p. p\<lparr>mouseMoveTimer := True\<rparr>) r)
           else r)"

definition handleDelayedMouseMove :: "('z, 'd) world \<Rightarrow> 'z rfb \<Rightarrow> 'z rfb" where
  "handleDelayedMouseMove W r =
     (let r = on_ptr (\<lambda>p. p\<lparr>mouseMoveTimer := False\<rparr>) r;
          (x, y) = mousePos (ptr r);
          r = sendMouse x y (mouseButtonMask (ptr r)) r
      in on_ptr (\<lambda>p. p\<lparr>mouseLastMoveTime := w_now W\<rparr>) r)"

datatype mouse_kind = MouseDown nat | MouseUp nat | MouseMove | Click bool | ContextMenu

text \<open>The argument of \<open>Click\<close> is whether the canvas was the target.\<close>

fun handleMouse :: "('z, 'd) world \<Rightarrow> mouse_kind \<Rightarrow> rat \<Rightarrow> rat \<Rightarrow> 'z rfb \<Rightarrow> 'z rfb" where
  "handleMouse W (Click onCanvas) cx cy r = r"
| "handleMouse W ContextMenu cx cy r = r"
| "handleMouse W (MouseDown button) cx cy r =
     (let (x, y) = clientToElement cx cy W
      in handleMouseButton x y True (js_shl 1 button) (on_page (\<lambda>p. p\<lparr>captured := True\<rparr>) r))"
| "handleMouse W (MouseUp button) cx cy r =
     (let (x, y) = clientToElement cx cy W in handleMouseButton x y False (js_shl 1 button) r)"
| "handleMouse W MouseMove cx cy r =
     (let (x, y) = clientToElement cx cy W in handleMouseMove W x y r)"

definition click :: "rat \<Rightarrow> rat \<Rightarrow> int \<Rightarrow> 'z rfb \<Rightarrow> 'z rfb" where
  "click x y bmask r = handleMouseButton x y False bmask (handleMouseButton x y True bmask r)"

definition handleWheel :: "('z, 'd) world \<Rightarrow> rat \<Rightarrow> rat \<Rightarrow> rat \<Rightarrow> rat \<Rightarrow> nat \<Rightarrow> 'z rfb \<Rightarrow> 'z rfb" where
  "handleWheel W cx cy deltaX deltaY deltaMode r =
     (if rfbConnectionState r \<noteq> Connected then r
      else if viewOnly (sets r) then r
      else
        let (x, y) = clientToElement cx cy W;
            dX = (if deltaMode \<noteq> 0 then deltaX * WHEEL_LINE_HEIGHT else deltaX);
            dY = (if deltaMode \<noteq> 0 then deltaY * WHEEL_LINE_HEIGHT else deltaY);
            r = on_ptr (\<lambda>p. p\<lparr>wheelX := wheelX p + dX, wheelY := wheelY p + dY\<rparr>) r;
            ax = wheelX (ptr r);
            r = (if \<bar>ax\<bar> \<ge> WHEEL_STEP
                 then on_ptr (\<lambda>p. p\<lparr>wheelX := 0\<rparr>)
                        (if ax < 0 then click x y (js_shl 1 5) r else if ax > 0 then click x y (js_shl 1 6) r else r)
                 else r);
            ay = wheelY (ptr r)
        in if \<bar>ay\<bar> \<ge> WHEEL_STEP
           then on_ptr (\<lambda>p. p\<lparr>wheelY := 0\<rparr>)
                  (if ay < 0 then click x y (js_shl 1 3) r else if ay > 0 then click x y (js_shl 1 4) r else r)
           else r)"

section \<open>Gestures\<close>

datatype gesture_kind = OneTap | TwoTap | ThreeTap | Drag | LongPress | TwoDrag | Pinch

record gesture =
  g_kind :: gesture_kind
  g_x :: rat
  g_y :: rat
  g_magX :: rat
  g_magY :: rat

definition tap_name :: "gesture_kind \<Rightarrow> string" where
  "tap_name k = (case k of OneTap \<Rightarrow> ''onetap'' | TwoTap \<Rightarrow> ''twotap'' | ThreeTap \<Rightarrow> ''threetap''
     | Drag \<Rightarrow> ''drag'' | LongPress \<Rightarrow> ''longpress'' | TwoDrag \<Rightarrow> ''twodrag'' | Pinch \<Rightarrow> ''pinch'')"

definition fakeMouseMove :: "('z, 'd) world \<Rightarrow> rat \<Rightarrow> rat \<Rightarrow> rat \<Rightarrow> rat \<Rightarrow> 'z rfb \<Rightarrow> 'z rfb" where
  "fakeMouseMove W cx cy x y r =
     on_page (\<lambda>p. p\<lparr>cursorPos := Some (cx, cy)\<rparr>) (handleMouseMove W x y r)"

definition handleTapEvent :: "('z, 'd) world \<Rightarrow> gesture \<Rightarrow> int \<Rightarrow> 'z rfb \<Rightarrow> 'z rfb" where
  "handleTapEvent W ev bmask r =
     (let this = \<lparr>tap_kind = tap_name (g_kind ev), tap_x = g_x ev, tap_y = g_y ev\<rparr>;
          first = firstDoubleTap (ptr r);
          again = (case lastTapTime (ptr r) of
                     None \<Rightarrow> False
                   | Some t \<Rightarrow> w_now W - t < DOUBLE_TAP_TIMEOUT \<and> tap_kind first = tap_kind this);
          close = (w_hypot W (tap_x first - g_x ev) (tap_y first - g_y ev) < DOUBLE_TAP_THRESHOLD);
          used = (if again \<and> close then first else this);
          (x, y) = clientToElement (tap_x used) (tap_y used) W;
          r = on_ptr (\<lambda>p. p\<lparr>firstDoubleTap := used, lastTapTime := Some (w_now W)\<rparr>) r;
          r = fakeMouseMove W (tap_x used) (tap_y used) x y r
      in click x y bmask r)"

text \<open>\<open>while ((magnitude - last) > sens) { ...; last += sens; }\<close>, and the loop in the other direction;
  the sensitivities are positive.\<close>

function scroll_up :: "rat \<Rightarrow> rat \<Rightarrow> ('a \<Rightarrow> 'a) \<Rightarrow> rat \<Rightarrow> 'a \<Rightarrow> rat \<times> 'a" where
  "scroll_up sens magnitude f prev r =
     (if 0 < sens \<and> magnitude - prev > sens then scroll_up sens magnitude f (prev + sens) (f r) else (prev, r))"
  by pat_completeness auto
termination
proof (relation "measure (\<lambda>(sens, magnitude, f, prev, r). nat \<lceil>(magnitude - prev) / sens\<rceil>)", goal_cases)
  case (2 sens magnitude f prev r)
  then have "1 < (magnitude - prev) / sens" by (simp add: less_divide_eq)
  moreover have "(magnitude - (prev + sens)) / sens = (magnitude - prev) / sens - 1"
    using 2 by (simp add: diff_divide_distrib add_divide_distrib)
  ultimately show ?case by simp
qed simp

declare scroll_up.simps [simp del]

definition scroll_down :: "rat \<Rightarrow> rat \<Rightarrow> ('a \<Rightarrow> 'a) \<Rightarrow> rat \<Rightarrow> 'a \<Rightarrow> rat \<times> 'a" where
  "scroll_down sens magnitude f prev r = (case scroll_up sens (- magnitude) f (- prev) r of (l, r) \<Rightarrow> (- l, r))"

definition scroll_axis ::
  "rat \<Rightarrow> rat \<Rightarrow> ('z rfb \<Rightarrow> 'z rfb) \<Rightarrow> ('z rfb \<Rightarrow> 'z rfb) \<Rightarrow> (pointer \<Rightarrow> rat) \<Rightarrow> (rat \<Rightarrow> pointer \<Rightarrow> pointer) \<Rightarrow>
   'z rfb \<Rightarrow> 'z rfb" where
  "scroll_axis sens magnitude up down get put r =
     (let (l, r) = scroll_up sens magnitude up (get (ptr r)) r;
          (l, r) = scroll_down sens magnitude down l r
      in on_ptr (put l) r)"

definition gesturestart :: "('z, 'd) world \<Rightarrow> gesture \<Rightarrow> 'z rfb \<Rightarrow> 'z rfb" where
  "gesturestart W ev r =
     (let (x, y) = clientToElement (g_x ev) (g_y ev) W;
          fake = fakeMouseMove W (g_x ev) (g_y ev) x y
      in case g_kind ev of
           OneTap \<Rightarrow> handleTapEvent W ev 1 r
         | TwoTap \<Rightarrow> handleTapEvent W ev 4 r
         | ThreeTap \<Rightarrow> handleTapEvent W ev 2 r
         | Drag \<Rightarrow> handleMouseButton x y True 1 (fake r)
         | LongPress \<Rightarrow> handleMouseButton x y True 4 (fake r)
         | TwoDrag \<Rightarrow> fake (on_ptr (\<lambda>p. p\<lparr>lastMagnitudeX := g_magX ev, lastMagnitudeY := g_magY ev\<rparr>) r)
         | Pinch \<Rightarrow> fake (on_ptr (\<lambda>p. p\<lparr>lastMagnitudeX := w_hypot W (g_magX ev) (g_magY ev)\<rparr>) r))"

definition gesturemove :: "('z, 'd) world \<Rightarrow> gesture \<Rightarrow> 'z rfb \<Rightarrow> 'z rfb" where
  "gesturemove W ev r =
     (let (x, y) = clientToElement (g_x ev) (g_y ev) W;
          fake = fakeMouseMove W (g_x ev) (g_y ev) x y
      in case g_kind ev of
           Drag \<Rightarrow> fake r
         | LongPress \<Rightarrow> fake r
         | TwoDrag \<Rightarrow>
             let r = scroll_axis GESTURE_SCRLSENS (g_magY ev) (click x y 0x8) (click x y 0x10)
                       lastMagnitudeY (\<lambda>v p. p\<lparr>lastMagnitudeY := v\<rparr>) (fake r)
             in scroll_axis GESTURE_SCRLSENS (g_magX ev) (click x y 0x20) (click x y 0x40)
                  lastMagnitudeX (\<lambda>v p. p\<lparr>lastMagnitudeX := v\<rparr>) r
         | Pinch \<Rightarrow>
             let r = fake r;
                 magnitude = w_hypot W (g_magX ev) (g_magY ev);
                 r = (if \<bar>magnitude - lastMagnitudeX (ptr r)\<bar> > GESTURE_ZOOMSENS then
                        scroll_axis GESTURE_ZOOMSENS magnitude (click x y 0x8) (click x y 0x10)
                          lastMagnitudeX (\<lambda>v p. p\<lparr>lastMagnitudeX := v\<rparr>)
                          (handleKeyEvent (XK ''XK_Control_L'') ''ControlLeft'' True LockUndefined LockUndefined r)
                      else r)
             in handleKeyEvent (XK ''XK_Control_L'') ''ControlLeft'' False LockUndefined LockUndefined r
         | _ \<Rightarrow> r)"

definition gestureend :: "('z, 'd) world \<Rightarrow> gesture \<Rightarrow> 'z rfb \<Rightarrow> 'z rfb" where
  "gestureend W ev r =
     (let (x, y) = clientToElement (g_x ev) (g_y ev) W;
          fake = fakeMouseMove W (g_x ev) (g_y ev) x y
      in case g_kind ev of
           Drag \<Rightarrow> handleMouseButton x y False 1 (fake r)
         | LongPress \<Rightarrow> handleMouseButton x y False 4 (fake r)
         | _ \<Rightarrow> r)"

section \<open>Public interface\<close>

record options =
  o_credentials :: credentials
  o_shared :: "bool option"
  o_repeaterID :: jsstring
  o_showDotCursor :: "bool option"

text \<open>The constructor; the channel is the one given, or none for a URL. The properties are set last, but
  nothing before that reads them as anything but unset.\<close>

definition new_settings :: settings where
  "new_settings = \<lparr>dragViewport = False, focusOnClick = True, viewOnly = False, rclipViewport = False,
     clippingViewport = False, scaleViewport = False, resizeSession = False, showDotCursor = False,
     qualityLevel = 6, compressionLevel = 2\<rparr>"

definition new_pointer :: pointer where
  "new_pointer = \<lparr>mousePos = (0, 0), mouseButtonMask = 0, mouseLastMoveTime = 0, mouseMoveTimer = False,
     viewportDragging = False, viewportDragPos = (0, 0), viewportHasMoved = False, wheelX = 0, wheelY = 0,
     lastTapTime = None, firstDoubleTap = \<lparr>tap_kind = '''', tap_x = 0, tap_y = 0\<rparr>,
     lastMagnitudeX = 0, lastMagnitudeY = 0\<rparr>"

definition new_features :: features where
  "new_features = \<lparr>rfbXvpVer = 0, power = False, supportsFence = False, supportsContinuousUpdates = False,
     enabledContinuousUpdates = False, supportsSetDesktopSize = False, screenID = 0, screenFlags = 0,
     qemuExtKeyEventSupported = False, clipboardText = None, clipActions = [], clipFormats = [],
     remoteCapsLock = None, remoteNumLock = None\<rparr>"

definition new_handshake :: "options \<Rightarrow> handshake" where
  "new_handshake opts = \<lparr>rfbAuthScheme = - 1, rfbVersion = 0, rfbTightVNC = False, rfbVeNCryptState = 0,
     rfbVeNCryptSubtypesLength = 0, securityContext = '''', securityStatus = 0, ra2State = None,
     shared = (case o_shared opts of None \<Rightarrow> True | Some b \<Rightarrow> b), repeaterID = o_repeaterID opts,
     creds = o_credentials opts, ardJob = None\<rparr>"

definition new_page :: page where
  "new_page = \<lparr>screenAttached = False, gesturesAttached = False, cursorAttached = False, cursorShown = None,
     cursorPos = None, resizeObserved = False, canvasListeners = False, captured = False, focused = False,
     timers = [], onOpen = True, onMessage = True, onClose = True\<rparr>"

definition new_decoders :: "'z zlib \<Rightarrow> 'z decoders" where
  "new_decoders Z = \<lparr>raw_st = 0, rre_st = 0, hextile_st = new_hextile, tight_st = new_tight Z,
     tightpng_st = new_tight Z, zrle_st = new_zrle Z, jpeg_st = new_jpeg\<rparr>"

definition blank_rfb ::
  "('z, 'd) world \<Rightarrow> (string list \<times> channel_state) option \<Rightarrow> options \<Rightarrow> display \<Rightarrow> 'z rfb" where
  "blank_rfb W channel opts d = \<lparr>rfbConnectionState = NotConnected, rfbInitState = NoInit,
     rfbCleanDisconnect = True, disconnTimer = False, resizeTimeout = False, rawChannel = channel,
     sock = new_websock, disp = d, flushing = False, fbW = 0, fbH = 0, fbDepth = 0, fbName = [],
     expectedClient = None, cursorImage = cursor_none, hs = new_handshake opts, feat = new_features,
     rfbu = \<lparr>rects = 0, fbu_x = 0, fbu_y = 0, fbu_width = 0, fbu_height = 0, fbu_encoding = None\<rparr>,
     decs = new_decoders (w_zlib W), ptr = new_pointer, kbd = new_keyboard, sets = new_settings,
     page = new_page, events = []\<rparr>"

definition new_rfb ::
  "('z, 'd) world \<Rightarrow> (string list \<times> channel_state) option \<Rightarrow> options \<Rightarrow> 'z rfb outcome" where
  "new_rfb W channel opts =
     (case new_display (TargetCanvas 0 0) of
        Ret d \<Rightarrow>
          (case updateConnectionState Connecting (blank_rfb W channel opts d) of
             (Ret _, r) \<Rightarrow> Ret (on_sets (\<lambda>s. s\<lparr>showDotCursor :=
                (case o_showDotCursor opts of None \<Rightarrow> False | Some b \<Rightarrow> b)\<rparr>) r)
           | (Throw e, r) \<Rightarrow> Throw e
           | (Hang, r) \<Rightarrow> Hang)
      | Throw e \<Rightarrow> Throw e
      | Hang \<Rightarrow> Hang)"

definition set_viewOnly :: "bool \<Rightarrow> 'z rfb \<Rightarrow> 'z rfb" where
  "set_viewOnly v r =
     (let r = on_sets (\<lambda>s. s\<lparr>viewOnly := v\<rparr>) r
      in if rfbConnectionState r = Connecting \<or> rfbConnectionState r = Connected
         then on_kbd (if v then ungrab else grab) r else r)"

definition set_clip :: "('z, 'd) world \<Rightarrow> bool \<Rightarrow> 'z rfb \<Rightarrow> 'z rfb" where
  "set_clip W v r = updateClip W (on_sets (\<lambda>s. s\<lparr>rclipViewport := v\<rparr>) r)"

definition set_scaleViewport :: "('z, 'd) world \<Rightarrow> bool \<Rightarrow> 'z rfb \<Rightarrow> 'z rfb" where
  "set_scaleViewport W v r =
     (let r = on_sets (\<lambda>s. s\<lparr>scaleViewport := v\<rparr>) r;
          r = (if v \<and> rclipViewport (sets r) then updateClip W r else r);
          r = updateScale W r
      in if \<not> v \<and> rclipViewport (sets r) then updateClip W r else r)"

definition set_resizeSession :: "('z, 'd) world \<Rightarrow> bool \<Rightarrow> 'z rfb \<Rightarrow> 'z rfb" where
  "set_resizeSession W v r =
     (let r = on_sets (\<lambda>s. s\<lparr>resizeSession := v\<rparr>) r in if v then requestRemoteResize W r else r)"

definition set_showDotCursor :: "bool \<Rightarrow> 'z rfb \<Rightarrow> 'z rfb" where
  "set_showDotCursor v r = refreshCursor (on_sets (\<lambda>s. s\<lparr>showDotCursor := v\<rparr>) r)"

definition set_qualityLevel :: "int \<Rightarrow> 'z rfb \<Rightarrow> 'z rfb" where
  "set_qualityLevel v r =
     (if v < 0 \<or> v > 9 \<or> qualityLevel (sets r) = v then r
      else
        let r = on_sets (\<lambda>s. s\<lparr>qualityLevel := v\<rparr>) r
        in if rfbConnectionState r = Connected then sendEncodings r else r)"

definition set_compressionLevel :: "int \<Rightarrow> 'z rfb \<Rightarrow> 'z rfb" where
  "set_compressionLevel v r =
     (if v < 0 \<or> v > 9 \<or> compressionLevel (sets r) = v then r
      else
        let r = on_sets (\<lambda>s. s\<lparr>compressionLevel := v\<rparr>) r
        in if rfbConnectionState r = Connected then sendEncodings r else r)"

definition disconnect :: "'z rfb \<Rightarrow> 'z rfb" where
  "disconnect r = on_page (\<lambda>p. p\<lparr>onMessage := False, onOpen := False\<rparr>) (leave_to Disconnecting r)"

definition sendCredentials :: "credentials \<Rightarrow> 'z rfb \<Rightarrow> 'z rfb" where
  "sendCredentials c r = resumeAuthentication (on_hs (\<lambda>h. h\<lparr>creds := c\<rparr>) r)"

definition do_xvpOp :: "int \<Rightarrow> int \<Rightarrow> 'z rfb \<Rightarrow> 'z rfb" where
  "do_xvpOp ver operation r = (if rfbXvpVer (feat r) < ver then r else on_sock (xvpOp ver operation) r)"

definition machineShutdown :: "'z rfb \<Rightarrow> 'z rfb" where "machineShutdown = do_xvpOp 1 2"
definition machineReboot :: "'z rfb \<Rightarrow> 'z rfb" where "machineReboot = do_xvpOp 1 3"
definition machineReset :: "'z rfb \<Rightarrow> 'z rfb" where "machineReset = do_xvpOp 1 4"

definition focusCanvas :: "'z rfb \<Rightarrow> 'z rfb" where
  "focusCanvas r = (if \<not> focusOnClick (sets r) then r else on_page (\<lambda>p. p\<lparr>focused := True\<rparr>) r)"

text \<open>The code points of a string, a lone surrogate being one of its own.\<close>

fun js_points :: "jsstring \<Rightarrow> nat list" where
  "js_points (c # d # s) =
     (if high_surrogate c \<and> low_surrogate d
      then (0x10000 + (c - 0xD800) * 1024 + (d - 0xDC00)) # js_points s else c # js_points (d # s))"
| "js_points s = s"

definition clipboardPasteFrom :: "jsstring \<Rightarrow> 'z rfb \<Rightarrow> bool outcome \<times> 'z rfb" where
  "clipboardPasteFrom text r =
     (if rfbConnectionState r \<noteq> Connected \<or> viewOnly (sets r) then (Ret True, r)
      else if extendedClipboardFormatText \<in> set (clipFormats (feat r)) \<and>
        extendedClipboardActionNotify \<in> set (clipActions (feat r))
      then sock_call (extendedClipboardNotify [extendedClipboardFormatText])
             (on_feat (\<lambda>f. f\<lparr>clipboardText := Some text\<rparr>) r)
      else sock_call (clientCutText (map (\<lambda>c. of_nat (if c > 255 then 63 else c)) (js_points text)) False) r)"

section \<open>Entry points\<close>

text \<open>What may happen to a client: data or an event of the channel, a timer, the end of an asynchronous
  part, input, and the calls of the application. A message reaches the client when its handler is
  still set and it leaves something to read.\<close>

datatype op =
    ChannelOpen
  | ChannelData bytes
  | ChannelClose
  | TimerFires timer
  | ArdFinished
  | Ra2Finished "string option"
  | Flushed
  | ImageLoaded nat int int
  | Resized
  | Key platform kb_input
  | Mouse mouse_kind rat rat
  | Wheel rat rat rat rat nat
  | GestureStart gesture
  | GestureMove gesture
  | GestureEnd gesture
  | FocusCanvas
  | Disconnect
  | SendCredentials credentials
  | SendKey "int option" string "bool option"
  | SendCtrlAltDel
  | Paste jsstring
  | Machine int
  | SetViewOnly bool
  | SetClip bool
  | SetScale bool
  | SetResize bool
  | SetDot bool
  | SetDrag bool
  | SetQuality int
  | SetCompression int

definition channel_data :: "('z, 'd) world \<Rightarrow> bytes \<Rightarrow> 'z rfb \<Rightarrow> 'z rfb" where
  "channel_data W data r =
     (case recvMessage data (sock r) of
        (Ret raised, s) \<Rightarrow>
          let r = r\<lparr>sock := s\<rparr> in if raised \<and> onMessage (page r) then snd (handleMessage W r) else r
      | (Throw e, s) \<Rightarrow> r\<lparr>sock := s\<rparr>
      | (Hang, s) \<Rightarrow> r\<lparr>sock := s\<rparr>)"

fun timer_fires :: "('z, 'd) world \<Rightarrow> timer \<Rightarrow> 'z rfb \<Rightarrow> 'z rfb" where
  "timer_fires W TDisconnect r = disconnectTimeout r"
| "timer_fires W TResize r = requestRemoteResize W r"
| "timer_fires W TMouseMove r = handleDelayedMouseMove W r"
| "timer_fires W TResume r = snd (initMsg W r)"
| "timer_fires W TFrame r = animationFrame W r"

text \<open>The keyboard listens while it is grabbed; its timer runs while the AltGr detection is armed.\<close>

fun key_enabled :: "kb_input \<Rightarrow> keyboard \<Rightarrow> bool" where
  "key_enabled (KeyDown e) k = grabbed k"
| "key_enabled (KeyUp e) k = grabbed k"
| "key_enabled Blur k = grabbed k"
| "key_enabled AltGrTimeout k = altGrArmed k"
| "key_enabled _ k = False"

fun rfb_step :: "('z, 'd) world \<Rightarrow> op \<Rightarrow> 'z rfb \<Rightarrow> 'z rfb" where
  "rfb_step W ChannelOpen r = (if onOpen (page r) then socketOpen r else r)"
| "rfb_step W (ChannelData data) r = channel_data W data r"
| "rfb_step W ChannelClose r = (if onClose (page r) then socketClose r else r)"
| "rfb_step W (TimerFires t) r =
     (if t \<in> set (timers (page r))
      then timer_fires W t (on_page (\<lambda>p. p\<lparr>timers := remove1 t (timers p)\<rparr>) r) else r)"
| "rfb_step W ArdFinished r = ardFinished r"
| "rfb_step W (Ra2Finished err) r = (if ra2State (hs r) = None then r else ra2Finished err r)"
| "rfb_step W Flushed r = (if flushing r \<and> \<not> flushPromise (disp r) then snd (flushed W r) else r)"
| "rfb_step W (ImageLoaded k iw ih) r = on_disp (snd \<circ> image_loaded k iw ih) r"
| "rfb_step W Resized r = (if resizeObserved (page r) then handleResize W r else r)"
| "rfb_step W (Key P i) r = (if key_enabled i (kbd r) then on_kbd (kb_step P i) r else r)"
| "rfb_step W (Mouse k cx cy) r = (if canvasListeners (page r) then handleMouse W k cx cy r else r)"
| "rfb_step W (Wheel cx cy dx dy m) r = (if canvasListeners (page r) then handleWheel W cx cy dx dy m r else r)"
| "rfb_step W (GestureStart g) r = (if canvasListeners (page r) then gesturestart W g r else r)"
| "rfb_step W (GestureMove g) r = (if canvasListeners (page r) then gesturemove W g r else r)"
| "rfb_step W (GestureEnd g) r = (if canvasListeners (page r) then gestureend W g r else r)"
| "rfb_step W FocusCanvas r = focusCanvas r"
| "rfb_step W Disconnect r = disconnect r"
| "rfb_step W (SendCredentials c) r = sendCredentials c r"
| "rfb_step W (SendKey k c d) r = sendKey k c d r"
| "rfb_step W SendCtrlAltDel r = sendCtrlAltDel r"
| "rfb_step W (Paste t) r = snd (clipboardPasteFrom t r)"
| "rfb_step W (Machine n) r = do_xvpOp 1 n r"
| "rfb_step W (SetViewOnly b) r = set_viewOnly b r"
| "rfb_step W (SetClip b) r = set_clip W b r"
| "rfb_step W (SetScale b) r = set_scaleViewport W b r"
| "rfb_step W (SetResize b) r = set_resizeSession W b r"
| "rfb_step W (SetDot b) r = set_showDotCursor b r"
| "rfb_step W (SetDrag b) r = on_sets (\<lambda>s. s\<lparr>dragViewport := b\<rparr>) r"
| "rfb_step W (SetQuality v) r = set_qualityLevel v r"
| "rfb_step W (SetCompression v) r = set_compressionLevel v r"

end
