(* ===== verification/Rfb_Invariant.thy ===== *)
theory Rfb_Invariant
  imports Rfb_Input
begin

text \<open>
  What every operation of the client keeps. The connection state, the disconnection timer and the
  events that mark the life of the connection are changed by \<open>leave_to\<close> alone, and events are only added. A
  predicate on these that \<open>leave_to\<close> keeps is therefore kept by everything that may happen to a client; the locale
  \<open>rfb_invariant\<close> proves that once, for every handler, and the properties of the connection are its
  interpretations.
\<close>

section \<open>The core of the state\<close>

fun life_event :: "rfb_event \<Rightarrow> bool" where
  "life_event EvConnect = True"
| "life_event (EvDisconnect c) = True"
| "life_event _ = False"

definition life :: "'z rfb \<Rightarrow> rfb_event list" where
  "life r = filter life_event (events r)"

definition armed :: "page \<Rightarrow> nat" where
  "armed p = length (filter (\<lambda>t. t = TDisconnect) (timers p))"

definition levels :: "settings \<Rightarrow> int \<times> int" where
  "levels s = (qualityLevel s, compressionLevel s)"

definition core :: "'z rfb \<Rightarrow> conn_state \<times> bool \<times> nat \<times> rfb_event list \<times> int \<times> int" where
  "core r = (rfbConnectionState r, disconnTimer r, armed (page r), life r, levels (sets r))"

lemma core_fields:
  "core (r\<lparr>sock := s\<rparr>) = core r" "core (r\<lparr>disp := d\<rparr>) = core r" "core (r\<lparr>flushing := fl\<rparr>) = core r"
  "core (r\<lparr>fbW := n\<rparr>) = core r" "core (r\<lparr>fbH := n\<rparr>) = core r" "core (r\<lparr>fbDepth := n\<rparr>) = core r"
  "core (r\<lparr>fbName := nm\<rparr>) = core r" "core (r\<lparr>expectedClient := ec\<rparr>) = core r"
  "core (r\<lparr>cursorImage := ci\<rparr>) = core r" "core (r\<lparr>resizeTimeout := b\<rparr>) = core r"
  "core (r\<lparr>rawChannel := ch\<rparr>) = core r" "core (r\<lparr>rfbInitState := st\<rparr>) = core r"
  "core (r\<lparr>rfbCleanDisconnect := b\<rparr>) = core r" "core (r\<lparr>kbd := k\<rparr>) = core r"
  "core (on_sock f1 r) = core r" "core (on_disp f2 r) = core r" "core (on_ptr f3 r) = core r"
  "core (on_hs f4 r) = core r" "core (on_feat f5 r) = core r"
  "core (on_decs f7 r) = core r" "core (on_fbu f8 r) = core r"
  by (simp_all add: core_def life_def on_sock_def on_disp_def on_ptr_def on_hs_def on_feat_def
      on_decs_def on_fbu_def)

lemma core_dispatch: "\<not> life_event ev \<Longrightarrow> core (dispatch ev r) = core r"
  by (simp add: core_def life_def dispatch_def)

lemma core_on_page: "(\<And>p. armed (f p) = armed p) \<Longrightarrow> core (on_page f r) = core r"
  by (simp add: core_def life_def on_page_def)

lemma core_on_sets: "(\<And>s. levels (f s) = levels s) \<Longrightarrow> core (on_sets f r) = core r"
  by (simp add: core_def life_def on_sets_def)

lemma levels_fields [simp]:
  "levels (s\<lparr>dragViewport := b\<rparr>) = levels s" "levels (s\<lparr>viewOnly := b\<rparr>) = levels s"
  "levels (s\<lparr>rclipViewport := b\<rparr>) = levels s" "levels (s\<lparr>clippingViewport := b\<rparr>) = levels s"
  "levels (s\<lparr>scaleViewport := b\<rparr>) = levels s" "levels (s\<lparr>resizeSession := b\<rparr>) = levels s"
  "levels (s\<lparr>showDotCursor := b\<rparr>) = levels s"
  by (simp_all add: levels_def)

lemma armed_fields [simp]:
  "armed (p\<lparr>screenAttached := b\<rparr>) = armed p" "armed (p\<lparr>gesturesAttached := b\<rparr>) = armed p"
  "armed (p\<lparr>cursorAttached := b\<rparr>) = armed p" "armed (p\<lparr>cursorShown := c\<rparr>) = armed p"
  "armed (p\<lparr>cursorPos := cp\<rparr>) = armed p" "armed (p\<lparr>resizeObserved := b\<rparr>) = armed p"
  "armed (p\<lparr>canvasListeners := b\<rparr>) = armed p" "armed (p\<lparr>captured := b\<rparr>) = armed p"
  "armed (p\<lparr>focused := b\<rparr>) = armed p" "armed (p\<lparr>onOpen := b\<rparr>) = armed p"
  "armed (p\<lparr>onMessage := b\<rparr>) = armed p" "armed (p\<lparr>onClose := b\<rparr>) = armed p"
  "t \<noteq> TDisconnect \<Longrightarrow> armed (p\<lparr>timers := timers p @ [t]\<rparr>) = armed p"
  by (simp_all add: armed_def)

lemma armed_removes [simp]:
  assumes "t \<noteq> TDisconnect"
  shows "armed (p\<lparr>timers := filter (\<lambda>u. u \<noteq> t) (timers p)\<rparr>) = armed p"
    "armed (p\<lparr>timers := remove1 t (timers p)\<rparr>) = armed p"
proof -
  have "(u \<noteq> t \<and> u = TDisconnect) = (u = TDisconnect)" for u using assms by auto
  then show "armed (p\<lparr>timers := filter (\<lambda>u. u \<noteq> t) (timers p)\<rparr>) = armed p" by (simp add: armed_def)
  have "filter (\<lambda>u. u = TDisconnect) (remove1 t l) = filter (\<lambda>u. u = TDisconnect) l" for l
    using assms by (induction l) auto
  then show "armed (p\<lparr>timers := remove1 t (timers p)\<rparr>) = armed p" by (simp add: armed_def)
qed

lemma core_timeouts:
  "t \<noteq> TDisconnect \<Longrightarrow> core (setTimeout t r) = core r"
  "t \<noteq> TDisconnect \<Longrightarrow> core (clearTimeout t r) = core r"
  by (simp_all add: setTimeout_def clearTimeout_def core_on_page)

text \<open>Events are only ever added.\<close>

definition grown :: "'z rfb \<Rightarrow> 'z rfb \<Rightarrow> bool" where
  "grown r r' \<longleftrightarrow> (\<exists>evs. events r' = events r @ evs)"

lemma grown_same: "events r' = events r \<Longrightarrow> grown r r'"
  by (simp add: grown_def)

lemma grown_trans: "grown a b \<Longrightarrow> grown b c \<Longrightarrow> grown a c"
  by (auto simp: grown_def)

lemma grown_dispatch: "grown r (dispatch ev r)"
  by (simp add: grown_def dispatch_def)

lemma events_fields [simp]:
  "events (on_sock f1 r) = events r" "events (on_disp f2 r) = events r" "events (on_ptr f3 r) = events r"
  "events (on_hs f4 r) = events r" "events (on_feat f5 r) = events r" "events (on_decs f7 r) = events r"
  "events (on_fbu f8 r) = events r" "events (on_page f9 r) = events r" "events (on_sets f10 r) = events r"
  "events (setTimeout t r) = events r" "events (clearTimeout t r) = events r"
  by (simp_all add: on_sock_def on_disp_def on_ptr_def on_hs_def on_feat_def on_decs_def on_fbu_def on_page_def
      on_sets_def setTimeout_def clearTimeout_def)

section \<open>Keeping an invariant\<close>

locale core_invariant =
  fixes I :: "'z rfb \<Rightarrow> bool"
  assumes core_only: "I r \<Longrightarrow> core r' = core r \<Longrightarrow> grown r r' \<Longrightarrow> I r'"
begin

lemma core_same: "core r' = core r \<Longrightarrow> grown r r' \<Longrightarrow> I r \<Longrightarrow> I r'"
  using core_only by metis

text \<open>The rules follow the forms in which handlers are written.\<close>

lemma keep_fields:
  "I r \<Longrightarrow> I (r\<lparr>sock := s\<rparr>)" "I r \<Longrightarrow> I (r\<lparr>disp := d\<rparr>)" "I r \<Longrightarrow> I (r\<lparr>flushing := fl\<rparr>)"
  "I r \<Longrightarrow> I (r\<lparr>fbW := n\<rparr>)" "I r \<Longrightarrow> I (r\<lparr>fbH := n\<rparr>)" "I r \<Longrightarrow> I (r\<lparr>fbDepth := n\<rparr>)"
  "I r \<Longrightarrow> I (r\<lparr>fbName := nm\<rparr>)" "I r \<Longrightarrow> I (r\<lparr>expectedClient := ec\<rparr>)"
  "I r \<Longrightarrow> I (r\<lparr>cursorImage := ci\<rparr>)" "I r \<Longrightarrow> I (r\<lparr>resizeTimeout := b\<rparr>)"
  "I r \<Longrightarrow> I (r\<lparr>rawChannel := ch\<rparr>)" "I r \<Longrightarrow> I (r\<lparr>rfbInitState := st\<rparr>)"
  "I r \<Longrightarrow> I (r\<lparr>rfbCleanDisconnect := b\<rparr>)" "I r \<Longrightarrow> I (r\<lparr>kbd := k\<rparr>)"
  "I r \<Longrightarrow> I (on_sock f1 r)" "I r \<Longrightarrow> I (on_disp f2 r)" "I r \<Longrightarrow> I (on_ptr f3 r)"
  "I r \<Longrightarrow> I (on_hs f4 r)" "I r \<Longrightarrow> I (on_feat f5 r)"
  "I r \<Longrightarrow> I (on_decs f7 r)" "I r \<Longrightarrow> I (on_fbu f8 r)"
  by (rule core_same, rule core_fields, simp add: grown_same, assumption)+

lemma keep_effects:
  "I r \<Longrightarrow> \<not> life_event ev \<Longrightarrow> I (dispatch ev r)"
  "I r \<Longrightarrow> t \<noteq> TDisconnect \<Longrightarrow> I (setTimeout t r)"
  "I r \<Longrightarrow> t \<noteq> TDisconnect \<Longrightarrow> I (clearTimeout t r)"
  "I r \<Longrightarrow> (\<And>p. armed (f p) = armed p) \<Longrightarrow> I (on_page f r)"
  "I r \<Longrightarrow> (\<And>s. levels (g s) = levels s) \<Longrightarrow> I (on_sets g r)"
  by (erule core_same [rotated 2],
      simp add: core_dispatch core_timeouts core_on_page core_on_sets,
      simp add: grown_dispatch grown_same)+

lemma keep_forms:
  "(b \<Longrightarrow> I x) \<Longrightarrow> (\<not> b \<Longrightarrow> I y) \<Longrightarrow> I (if b then x else y)"
  "(b \<Longrightarrow> I (snd p)) \<Longrightarrow> (\<not> b \<Longrightarrow> I (snd q)) \<Longrightarrow> I (snd (if b then p else q))"
  "I x \<Longrightarrow> I (snd (a, x))"
  "I x \<Longrightarrow> (\<And>r. I r \<Longrightarrow> I (g r)) \<Longrightarrow> I (let r = x in g r)"
  "I x \<Longrightarrow> (\<And>r. I r \<Longrightarrow> I (snd (h r))) \<Longrightarrow> I (snd (let r = x in h r))"
  by simp_all

lemma keep_values:
  "(\<And>v. I (g v)) \<Longrightarrow> I (let v = x in g v)"
  "(\<And>v. I (snd (h v))) \<Longrightarrow> I (snd (let v = x in h v))"
  by simp_all

lemma keep_cases:
  "(x = None \<Longrightarrow> I a) \<Longrightarrow> (\<And>v. x = Some v \<Longrightarrow> I (k v)) \<Longrightarrow> I (case x of None \<Rightarrow> a | Some v \<Rightarrow> k v)"
  "(x = None \<Longrightarrow> I (snd p)) \<Longrightarrow> (\<And>v. x = Some v \<Longrightarrow> I (snd (q v))) \<Longrightarrow>
    I (snd (case x of None \<Rightarrow> p | Some v \<Rightarrow> q v))"
  "(\<And>u v. y = (u, v) \<Longrightarrow> I (k2 u v)) \<Longrightarrow> I (case y of (u, v) \<Rightarrow> k2 u v)"
  "(\<And>u v. y = (u, v) \<Longrightarrow> I (snd (q2 u v))) \<Longrightarrow> I (snd (case y of (u, v) \<Rightarrow> q2 u v))"
  by (simp_all split: option.split prod.split)

lemma keep_andthen:
  "I (snd m) \<Longrightarrow> (\<And>a r. I r \<Longrightarrow> I (snd (k a r))) \<Longrightarrow> I (snd (andthen m k))"
  by (cases "(m, k)" rule: andthen.cases) auto

lemma keep_pairs:
  "I (snd p) \<Longrightarrow> (\<And>v r. I r \<Longrightarrow> I (snd (k v r))) \<Longrightarrow> I (snd (let (v, r) = p in k v r))"
  "I (snd p) \<Longrightarrow> (\<And>v r. I r \<Longrightarrow> I (g v r)) \<Longrightarrow> I (let (v, r) = p in g v r)"
  "I (snd p) \<Longrightarrow> (\<And>v r. I r \<Longrightarrow> I (snd (k v r))) \<Longrightarrow> I (snd (case p of (v, r) \<Rightarrow> k v r))"
  "I (snd p) \<Longrightarrow> (\<And>v r. I r \<Longrightarrow> I (g v r)) \<Longrightarrow> I (case p of (v, r) \<Rightarrow> g v r)"
  by (cases p; simp)+

lemma keep_outcomes:
  "(\<And>v. x = Ret v \<Longrightarrow> I (snd (a v))) \<Longrightarrow> (\<And>e. x = Throw e \<Longrightarrow> I (snd (b e))) \<Longrightarrow> (x = Hang \<Longrightarrow> I (snd c)) \<Longrightarrow>
    I (snd (case x of Ret v \<Rightarrow> a v | Throw e \<Rightarrow> b e | Hang \<Rightarrow> c))"
  "(\<And>v. x = Ret v \<Longrightarrow> I (a' v)) \<Longrightarrow> (\<And>e. x = Throw e \<Longrightarrow> I (b' e)) \<Longrightarrow> (x = Hang \<Longrightarrow> I c') \<Longrightarrow>
    I (case x of Ret v \<Rightarrow> a' v | Throw e \<Rightarrow> b' e | Hang \<Rightarrow> c')"
  by (simp_all split: outcome.split)

lemma keep_fold: "I r \<Longrightarrow> (\<And>x r. I r \<Longrightarrow> I (f x r)) \<Longrightarrow> I (fold f xs r)"
  by (induction xs arbitrary: r) auto

lemma keep_rd: "I r \<Longrightarrow> I (snd (rd f r))"
  by (simp add: rd_def keep_fields split: prod.split)

lemma keep_wait: "I r \<Longrightarrow> I (snd (wait n g r))"
  unfolding wait_def by (intro keep_cases keep_forms keep_fields)

lemma keep_need: "I r \<Longrightarrow> (\<And>r. I r \<Longrightarrow> I (snd (k r))) \<Longrightarrow> I (snd (need n g r k))"
  unfolding need_def by (intro keep_andthen keep_wait keep_forms)

lemma keep_pushes:
  "I r \<Longrightarrow> I (snd (pushBytes bs r))" "I r \<Longrightarrow> I (snd (pushString str r))" "I r \<Longrightarrow> I (push fs r)"
  "I r \<Longrightarrow> I (flush_rfb r)" "I r \<Longrightarrow> I (skip m r)" "I r \<Longrightarrow> I (set_init st r)" "I r \<Longrightarrow> I (set_scheme a r)"
  unfolding pushBytes_def pushString_def push_def flush_rfb_def skip_def set_init_def set_scheme_def
  by (intro keep_cases keep_forms keep_fields; assumption)+

lemmas keeps = keep_rd keep_pairs keep_forms keep_andthen keep_need keep_wait keep_pushes
  keep_fields keep_effects keep_fold keep_outcomes keep_values keep_cases

subsection \<open>Keys, cursor and viewport\<close>

lemma keep_sendKey_once: "I r \<Longrightarrow> I (sendKey_once k c d r)"
  unfolding sendKey_once_def by (intro keeps)

lemma keep_sendKey: "I r \<Longrightarrow> I (sendKey k c d r)"
  unfolding sendKey_def by (intro keeps keep_sendKey_once)

lemma keep_handleKeyEvent: "I r \<Longrightarrow> I (handleKeyEvent k c d n l r)"
  unfolding handleKeyEvent_def press_lock_def by (intro keeps keep_sendKey)

lemma keep_on_kbd: "I r \<Longrightarrow> I (on_kbd f r)"
  unfolding on_kbd_def key_call_def by (intro keeps keep_handleKeyEvent)

lemma keep_sendCtrlAltDel: "I r \<Longrightarrow> I (sendCtrlAltDel r)"
  unfolding sendCtrlAltDel_def by (intro keeps keep_sendKey)

lemma keep_refreshCursor: "I r \<Longrightarrow> I (refreshCursor r)"
  unfolding refreshCursor_def by (intro keeps) simp_all

lemma keep_updateCursor: "I r \<Longrightarrow> I (updateCursor px x y w h r)"
  unfolding updateCursor_def by (intro keeps keep_refreshCursor)

lemma keep_updateClip: "I r \<Longrightarrow> I (updateClip W r)"
  unfolding updateClip_def setClippingViewport_def saveExpectedClientSize_def
  by (intro keeps) simp_all

lemma keep_updateScale: "I r \<Longrightarrow> I (updateScale W r)"
  unfolding updateScale_def by (intro keeps)

lemma keep_requestRemoteResize: "I r \<Longrightarrow> I (requestRemoteResize W r)"
  unfolding requestRemoteResize_def by (intro keeps) simp_all

lemma keep_handleResize: "I r \<Longrightarrow> I (handleResize W r)"
  unfolding handleResize_def by (intro keeps) simp_all

lemma keep_resize: "I r \<Longrightarrow> I (resize W w h r)"
  unfolding resize_def saveExpectedClientSize_def updateContinuousUpdates_def
  by (intro keeps keep_updateClip keep_updateScale)

lemma keep_names: "I r \<Longrightarrow> I (setDesktopName nm r)" "I r \<Longrightarrow> I (setCapability b r)"
  unfolding setDesktopName_def setCapability_def by (intro keeps; simp)+

end

text \<open>An invariant that the changes of the connection state keep as well. The timer of the
  disconnection calls \<open>leave_to\<close> once it has left the list of the timers.\<close>

locale rfb_invariant = core_invariant +
  assumes leave: "I r \<Longrightarrow> s \<noteq> Connecting \<Longrightarrow> I (leave_to s r)"
    and expire: "I r \<Longrightarrow> TDisconnect \<in> set (timers (page r)) \<Longrightarrow>
      I (leave_to Disconnected (on_page (\<lambda>p. p\<lparr>timers := remove1 TDisconnect (timers p)\<rparr>) r))"
    and level: "I r \<Longrightarrow> 0 \<le> v \<Longrightarrow> v \<le> 9 \<Longrightarrow> I (on_sets (\<lambda>s. s\<lparr>qualityLevel := v\<rparr>) r)"
      "I r \<Longrightarrow> 0 \<le> v \<Longrightarrow> v \<le> 9 \<Longrightarrow> I (on_sets (\<lambda>s. s\<lparr>compressionLevel := v\<rparr>) r)"
begin

lemma keep_leave:
  "I r \<Longrightarrow> I (leave_to Connected r)" "I r \<Longrightarrow> I (leave_to Disconnecting r)" "I r \<Longrightarrow> I (leave_to Disconnected r)"
  by (rule leave, assumption, simp)+

lemma keep_fail: "I r \<Longrightarrow> I (snd (fail r))"
  unfolding fail_def by (intro keep_forms keep_leave keep_fields)

lemmas moves = keep_leave keep_fail keeps

subsection \<open>Connection and handshake\<close>

lemma keep_socketOpen: "I r \<Longrightarrow> I (socketOpen r)"
  unfolding socketOpen_def by (intro moves)

lemma keep_socketClose: "I r \<Longrightarrow> I (socketClose r)"
  unfolding socketClose_def
  by (cases "rfbConnectionState r") (simp_all only: conn_state.case, (intro moves; simp?)+)

lemma keep_version: "I r \<Longrightarrow> I (snd (negotiateProtocolVersion r))"
  unfolding negotiateProtocolVersion_def by (intro moves)

lemma keep_security: "I r \<Longrightarrow> I (snd (negotiateSecurity r))"
  unfolding negotiateSecurity_def security_reason_def by (intro moves)

lemma keep_reason: "I r \<Longrightarrow> I (snd (handleSecurityReason r))"
  unfolding handleSecurityReason_def by (intro moves) simp_all

lemma keep_ask: "I r \<Longrightarrow> I (snd (ask types r))"
  unfolding ask_def by (intro moves) simp_all

lemma keep_std: "I r \<Longrightarrow> I (snd (negotiateStdVNCAuth r))"
  unfolding negotiateStdVNCAuth_def by (intro moves keep_ask)

lemma keep_xvp: "I r \<Longrightarrow> I (snd (negotiateXvpAuth r))"
  unfolding negotiateXvpAuth_def by (intro moves keep_ask keep_std)

lemma keep_read_types: "I r \<Longrightarrow> I (snd (read_types n r))"
  by (induction n arbitrary: r) (simp_all only: read_types.simps, (intro moves; assumption)+)

lemma keep_vencrypt:
  "I r \<Longrightarrow> I (snd (vencrypt_subtypes r))" "I r \<Longrightarrow> I (snd (vencrypt_length r))"
  "I r \<Longrightarrow> I (snd (vencrypt_ack r))" "I r \<Longrightarrow> I (snd (negotiateVeNCryptAuth r))"
proof -
  show s: "I r \<Longrightarrow> I (snd (vencrypt_subtypes r))" for r
    unfolding vencrypt_subtypes_def vencrypt_state_def by (intro moves keep_read_types)
  show l: "I r \<Longrightarrow> I (snd (vencrypt_length r))" for r
    unfolding vencrypt_length_def vencrypt_state_def by (intro moves s)
  show a: "I r \<Longrightarrow> I (snd (vencrypt_ack r))" for r
    unfolding vencrypt_ack_def vencrypt_state_def by (intro moves l)
  show "I r \<Longrightarrow> I (snd (negotiateVeNCryptAuth r))"
    unfolding negotiateVeNCryptAuth_def vencrypt_state_def by (intro moves a)
qed

lemma keep_logins:
  "I r \<Longrightarrow> I (snd (negotiatePlainAuth r))" "I r \<Longrightarrow> I (snd (negotiateTightUnixAuth r))"
  unfolding negotiatePlainAuth_def negotiateTightUnixAuth_def send_login_def by (intro moves keep_ask; assumption)+

lemma keep_ard: "I r \<Longrightarrow> I (snd (negotiateARDAuth W r))"
  unfolding negotiateARDAuth_def by (intro moves keep_ask)

lemma keep_ardFinished: "I r \<Longrightarrow> I (ardFinished r)"
  unfolding ardFinished_def resumeAuthentication_def by (intro moves) simp_all

lemma keep_read_tunnels: "I r \<Longrightarrow> I (snd (read_tunnels n r m))"
  by (induction n arbitrary: r m) (simp_all only: read_tunnels.simps, (intro moves; assumption)+)

lemma keep_tunnels: "I r \<Longrightarrow> I (snd (negotiateTightTunnels n r))"
  unfolding negotiateTightTunnels_def by (intro moves keep_read_tunnels)

lemma keep_read_caps: "I r \<Longrightarrow> I (snd (read_caps n r))"
  by (induction n arbitrary: r) (simp_all only: read_caps.simps, (intro moves; assumption)+)

lemma keep_subauth: "I r \<Longrightarrow> I (snd (tight_subauth r))"
  unfolding tight_subauth_def by (intro moves keep_read_caps)

lemma keep_tight: "I r \<Longrightarrow> I (snd (negotiateTightAuth r))"
  unfolding negotiateTightAuth_def by (intro moves keep_tunnels keep_subauth)

lemma keep_ra2: "I r \<Longrightarrow> I (snd (negotiateRA2neAuth r))" "I r \<Longrightarrow> I (ra2Finished e r)"
  unfolding negotiateRA2neAuth_def ra2Finished_def by (intro moves; assumption)+

lemma keep_mslogon: "I r \<Longrightarrow> I (snd (negotiateMSLogonIIAuth W r))"
  unfolding negotiateMSLogonIIAuth_def send_mslogon_def by (intro moves keep_ask)

lemma keep_authentication: "I r \<Longrightarrow> I (snd (negotiateAuthentication W r))"
  unfolding negotiateAuthentication_def
  by (intro moves keep_xvp keep_ard keep_std keep_tight keep_vencrypt keep_logins keep_ra2 keep_mslogon)

lemma keep_result: "I r \<Longrightarrow> I (snd (handleSecurityResult r))"
  unfolding handleSecurityResult_def security_reason_def by (intro moves) simp_all

lemma keep_start_session: "I r \<Longrightarrow> I (snd (start_session W w h nm r))"
  unfolding start_session_def sendEncodings_def by (intro moves keep_resize keep_names keep_on_kbd)

lemma keep_server_init: "I r \<Longrightarrow> I (snd (negotiateServerInit W r))"
  unfolding negotiateServerInit_def tight_server_init_def by (intro moves keep_start_session)

lemma keep_initMsg: "I r \<Longrightarrow> I (snd (initMsg W r))"
  unfolding initMsg_def
  by (cases "rfbInitState r") (simp_all only: init_state.case, (intro moves keep_version keep_security
    keep_authentication keep_result keep_reason keep_server_init; assumption)+)

subsection \<open>Messages of the server\<close>

lemma keep_sock_call: "I r \<Longrightarrow> I (snd (sock_call f r))"
  unfolding sock_call_def by (intro keep_cases(4) moves)

lemma keep_read_caps_sizes: "I r \<Longrightarrow> I (snd (read_caps_sizes l fm r))"
  by (induction l arbitrary: r) (simp_all only: read_caps_sizes.simps, (intro moves; assumption)+)

lemma keep_clip_provide: "I r \<Longrightarrow> I (snd (clip_provide W len fm r))"
  unfolding clip_provide_def by (intro moves) simp_all

lemma keep_clip:
  "I r \<Longrightarrow> I (snd (clip_caps fm acts r))" "I r \<Longrightarrow> I (snd (clip_request W fm r))"
  "I r \<Longrightarrow> I (snd (clip_peek r))" "I r \<Longrightarrow> I (snd (clip_notify fm r))"
  unfolding clip_caps_def clip_request_def clip_peek_def clip_notify_def
  by (intro keep_read_caps_sizes keep_sock_call moves; assumption)+

lemma keep_cut_text: "I r \<Longrightarrow> I (snd (handleServerCutText W r))"
  unfolding handleServerCutText_def extended_cut_text_def
  by (intro moves keep_clip keep_clip_provide) simp_all

lemma keep_fence: "I r \<Longrightarrow> I (snd (handleServerFenceMsg r))"
  unfolding handleServerFenceMsg_def by (intro moves keep_sock_call)

lemma keep_xvp_msg: "I r \<Longrightarrow> I (snd (handleXvpMsg r))"
  unfolding handleXvpMsg_def by (intro moves keep_names)

lemma keep_read_words: "I r \<Longrightarrow> I (snd (read_words n r))"
  by (induction n arbitrary: r) (simp_all only: read_words.simps, (intro moves; assumption)+)

lemma keep_cursors: "I r \<Longrightarrow> I (snd (handleVMwareCursor r))" "I r \<Longrightarrow> I (snd (handleCursor r))"
  unfolding handleVMwareCursor_def handleCursor_def
  by (intro keep_read_words moves keep_updateCursor; assumption)+

lemma keep_desktop_name: "I r \<Longrightarrow> I (snd (handleDesktopName r))"
  unfolding handleDesktopName_def by (intro moves keep_names)

lemma keep_led: "I r \<Longrightarrow> I (snd (handleLedEvent r))"
  unfolding handleLedEvent_def by (intro moves)

lemma keep_screens: "I r \<Longrightarrow> I (read_screens n r)"
  unfolding read_screens_def first_screen_def by (intro moves)

lemma keep_desktop_size: "I r \<Longrightarrow> I (snd (handleExtendedDesktopSize W r))"
  unfolding handleExtendedDesktopSize_def by (intro moves keep_screens keep_resize keep_requestRemoteResize)

lemma keep_run_decoder: "I r \<Longrightarrow> I (snd (run_decoder dec get put r))"
  unfolding run_decoder_def by (intro keep_cases(4) moves)

lemma keep_data_rect: "I r \<Longrightarrow> I (snd (handleDataRect W r))"
  unfolding handleDataRect_def by (intro keep_run_decoder moves)

lemma keep_rect: "I r \<Longrightarrow> I (snd (handleRect W r))"
  unfolding handleRect_def
  by (intro moves keep_cursors keep_desktop_name keep_desktop_size keep_led keep_data_rect keep_resize)

lemma keep_rect_header: "I r \<Longrightarrow> I (read_rect_header r)"
  unfolding read_rect_header_def by (intro moves)

lemma keep_rect_loop: "I r \<Longrightarrow> I (snd (rect_loop n W r))"
proof (induction n arbitrary: r)
  case 0
  then show ?case unfolding rect_loop.simps by (intro moves)
next
  case (Suc n)
  show ?case unfolding rect_loop.simps by (intro Suc.IH keep_rect keep_rect_header moves Suc.prems)
qed

lemma keep_framebufferUpdate: "I r \<Longrightarrow> I (snd (framebufferUpdate W r))"
  unfolding framebufferUpdate_def by (intro moves keep_rect_loop)

lemma keep_normalMsg: "I r \<Longrightarrow> I (snd (normalMsg W r))"
  unfolding normalMsg_def endOfContinuousUpdates_def updateContinuousUpdates_def
  by (intro moves keep_framebufferUpdate keep_cut_text keep_fence keep_xvp_msg) simp_all

lemma keep_normal_loop:
  assumes "normal_loop W r = Some p" "I r"
  shows "I (snd p)"
  using assms
proof (induction W r p rule: normal_loop.raw_induct [rotated, consumes 1, case_names turn])
  case (turn loop W r p)
  have "I (snd (normalMsg W r))" using turn(3) by (rule keep_normalMsg)
  then show ?case using turn by (auto split: if_splits prod.splits outcome.splits)
qed

lemma keep_init_loop:
  assumes "init_loop W r = Some p" "I r"
  shows "I (snd p)"
  using assms
proof (induction W r p rule: init_loop.raw_induct [rotated, consumes 1, case_names turn])
  case (turn loop W r p)
  have "I (snd (initMsg W r))" using turn(3) by (rule keep_initMsg)
  then show ?case using turn by (auto split: if_splits prod.splits outcome.splits)
qed

lemma keep_handleMessage: "I r \<Longrightarrow> I (snd (handleMessage W r))"
  unfolding handleMessage_def
  by (auto dest: keep_normal_loop keep_init_loop split: conn_state.split option.split)

lemma keep_flushed: "I r \<Longrightarrow> I (snd (flushed W r))"
  unfolding flushed_def by (intro moves keep_handleMessage)

subsection \<open>Input\<close>

lemma keep_sendMouse: "I r \<Longrightarrow> I (sendMouse x y b r)"
  unfolding sendMouse_def by (intro moves)

lemma keep_button: "I r \<Longrightarrow> I (handleMouseButton x y d m r)"
  unfolding handleMouseButton_def press_buttons_def by (intro moves keep_sendMouse) simp_all

lemma keep_move: "I r \<Longrightarrow> I (handleMouseMove W x y r)" "I r \<Longrightarrow> I (handleDelayedMouseMove W r)"
  unfolding handleMouseMove_def handleDelayedMouseMove_def
  by (intro keep_forms keep_cases(3) moves keep_sendMouse; simp)+

lemma keep_mouse: "I r \<Longrightarrow> I (handleMouse W k cx cy r)"
  by (cases k) (simp_all only: handleMouse.simps, (intro keep_cases(3) moves keep_button keep_move; simp)+)

lemma keep_click: "I r \<Longrightarrow> I (click x y m r)"
  unfolding click_def by (intro keep_button)

lemma keep_wheel: "I r \<Longrightarrow> I (handleWheel W cx cy dx dy dm r)"
  unfolding handleWheel_def by (intro moves keep_click)

lemma keep_scroll_up: "I r \<Longrightarrow> (\<And>r. I r \<Longrightarrow> I (f r)) \<Longrightarrow> I (snd (scroll_up sens mag f prev r))"
  by (induction sens mag f prev r rule: scroll_up.induct) (subst scroll_up.simps, simp)

lemma keep_scroll_axis:
  "I r \<Longrightarrow> (\<And>r. I r \<Longrightarrow> I (f r)) \<Longrightarrow> (\<And>r. I r \<Longrightarrow> I (g r)) \<Longrightarrow> I (scroll_axis sens mag f g get put r)"
  unfolding scroll_axis_def scroll_down_def by (intro keep_pairs moves keep_scroll_up)

lemma keep_fake: "I r \<Longrightarrow> I (fakeMouseMove W cx cy x y r)"
  unfolding fakeMouseMove_def by (intro moves keep_move) simp_all

lemma keep_tap: "I r \<Longrightarrow> I (handleTapEvent W g m r)"
  unfolding handleTapEvent_def by (intro keep_values keep_cases(3) moves keep_fake keep_click)

lemma keep_gestures:
  "I r \<Longrightarrow> I (gesturestart W g r)" "I r \<Longrightarrow> I (gesturemove W g r)" "I r \<Longrightarrow> I (gestureend W g r)"
  unfolding gesturestart_def gesturemove_def gestureend_def
  by (cases "g_kind g"; simp only: gesture_kind.case Let_def split_beta;
      intro keep_scroll_axis keep_tap keep_button keep_fake keep_click keep_handleKeyEvent moves; assumption)+

subsection \<open>The public interface\<close>

lemma keep_setters:
  "I r \<Longrightarrow> I (set_viewOnly v r)" "I r \<Longrightarrow> I (set_clip W v r)" "I r \<Longrightarrow> I (set_scaleViewport W v r)"
  "I r \<Longrightarrow> I (set_resizeSession W v r)" "I r \<Longrightarrow> I (set_showDotCursor v r)"
  unfolding set_viewOnly_def set_clip_def set_scaleViewport_def set_resizeSession_def set_showDotCursor_def
  by (intro moves keep_on_kbd keep_updateClip keep_updateScale keep_requestRemoteResize keep_refreshCursor;
      simp)+

lemma keep_levels: "I r \<Longrightarrow> I (set_qualityLevel q r)" "I r \<Longrightarrow> I (set_compressionLevel q r)"
  unfolding set_qualityLevel_def set_compressionLevel_def sendEncodings_def
  by (intro level moves; simp)+

lemma keep_calls:
  "I r \<Longrightarrow> I (disconnect r)" "I r \<Longrightarrow> I (sendCredentials c r)" "I r \<Longrightarrow> I (do_xvpOp v n r)"
  "I r \<Longrightarrow> I (focusCanvas r)"
  unfolding disconnect_def sendCredentials_def do_xvpOp_def focusCanvas_def resumeAuthentication_def
  by (intro moves; simp)+

lemma keep_paste: "I r \<Longrightarrow> I (snd (clipboardPasteFrom t r))"
  unfolding clipboardPasteFrom_def by (intro moves keep_sock_call)

lemma keep_channel_data: "I r \<Longrightarrow> I (channel_data W data r)"
  unfolding channel_data_def
  by (auto simp: Let_def intro!: keep_handleMessage keep_fields split: prod.split outcome.split)

lemma keep_timer:
  assumes "I r" "t \<in> set (timers (page r))"
  shows "I (timer_fires W t (on_page (\<lambda>p. p\<lparr>timers := remove1 t (timers p)\<rparr>) r))"
proof (cases "t = TDisconnect")
  case True
  then show ?thesis using expire [OF assms(1)] assms(2) by (simp add: disconnectTimeout_def)
next
  case False
  then have "I (on_page (\<lambda>p. p\<lparr>timers := remove1 t (timers p)\<rparr>) r)"
    using assms(1) by (intro keep_effects(4)) simp_all
  with False show ?thesis
    by (cases t) (simp_all add: animationFrame_def keep_requestRemoteResize keep_move keep_initMsg
        keep_updateScale keep_updateClip)
qed

theorem rfb_step_keeps: "I r \<Longrightarrow> I (rfb_step W op r)"
  by (cases op)
    (simp_all add: keep_socketOpen keep_channel_data keep_socketClose keep_timer keep_ardFinished keep_ra2
      keep_flushed keep_fields keep_handleResize keep_on_kbd keep_mouse keep_wheel keep_gestures keep_calls
      keep_sendKey keep_sendCtrlAltDel keep_paste keep_setters keep_levels keep_effects)

end

section \<open>Reachable clients\<close>

text \<open>A client is constructed and then meets operations in any order. The conditions of the page, such as
  the time and the sizes of the elements, may change from one operation to the next; they are drawn
  from a set.\<close>

inductive reachable :: "('z, 'd) world set \<Rightarrow> 'z rfb \<Rightarrow> bool" for Ws where
  start: "W \<in> Ws \<Longrightarrow> new_rfb W channel opts = Ret r \<Longrightarrow> reachable Ws r"
| step: "reachable Ws r \<Longrightarrow> W \<in> Ws \<Longrightarrow> reachable Ws (rfb_step W op r)"

lemma levels_new: "levels new_settings = (6, 2)"
  by (simp add: levels_def new_settings_def)

lemma new_rfb_core: "new_rfb W channel opts = Ret r \<Longrightarrow> core r = (Connecting, False, 0, [], 6, 2)"
  by (auto simp: new_rfb_def updateConnectionState_def connect_def blank_rfb_def clear_disconnect_def
      socketOpen_def refreshCursor_def on_page_def on_sets_def core_def life_def armed_def new_page_def levels_new Let_def
      split: outcome.splits prod.splits option.splits if_splits elim!: andthen.elims)

context rfb_invariant
begin

lemma reachable_keeps:
  assumes "reachable Ws r" and "\<And>r. core r = (Connecting, False, 0, [], 6, 2) \<Longrightarrow> I r"
  shows "I r"
  using assms by (induction rule: reachable.induct) (auto intro: rfb_step_keeps dest: new_rfb_core)

end

end
