(* ===== verification/Rfb_Life.thy ===== *)
theory Rfb_Life
  imports Rfb_Invariant
begin

text \<open>
  The life of a connection: an abstract automaton of its states and of the connect and disconnect events
  the application sees, a simulation of it by the client, and the timer that ends a disconnection
  which the server does not answer.
\<close>

section \<open>Changing the connection state\<close>

interpretation same: core_invariant "\<lambda>r. core r = c" for c
  by unfold_locales simp

lemma core_disconnect_page: "core (disconnect_page r) = core r"
proof -
  have page: "core (on_page (\<lambda>p. p\<lparr>cursorAttached := False, canvasListeners := False, resizeObserved := False\<rparr>) r)
    = core r"
    by (rule core_on_page) (simp add: armed_def)
  show ?thesis
    unfolding disconnect_page_def Let_def
    by (simp add: core_timeouts core_on_page core_fields same.keep_on_kbd [OF refl] page)
qed

lemma armed_arm: "armed (p\<lparr>timers := timers p @ [TDisconnect]\<rparr>) = Suc (armed p)"
  by (simp add: armed_def)

lemma armed_cleared: "armed (p\<lparr>timers := filter (\<lambda>u. u \<noteq> TDisconnect) (timers p)\<rparr>) = 0"
  by (simp add: armed_def)

lemma armed_pending: "TDisconnect \<in> set (timers p) \<longleftrightarrow> armed p \<noteq> 0"
  by (auto simp: armed_def filter_empty_conv)

lemma clear_disconnect_Disconnecting [simp]: "clear_disconnect Disconnecting r = r"
  by (simp add: clear_disconnect_def)

lemma core_clear:
  assumes "s \<noteq> Disconnecting"
  shows "core (clear_disconnect s (r\<lparr>rfbConnectionState := s\<rparr>)) =
    (s, False, if disconnTimer r then 0 else armed (page r), life r, levels (sets r))"
  using assms by (simp add: clear_disconnect_def core_def life_def on_page_def clearTimeout_def armed_cleared)

lemma leave_to_Connected:
  "rfbConnectionState r = Connecting \<Longrightarrow>
    core (leave_to Connected r) =
      (Connected, False, if disconnTimer r then 0 else armed (page r), life r @ [EvConnect], levels (sets r))"
  using core_clear [of Connected r] by (simp add: leave_to_def core_def life_def dispatch_def)

lemma leave_to_Disconnecting:
  assumes "rfbConnectionState r = Connecting \<or> rfbConnectionState r = Connected"
  shows "core (leave_to Disconnecting r) = (Disconnecting, True, Suc (armed (page r)), life r, levels (sets r))"
proof -
  define q where "q = disconnect_page (r\<lparr>rfbConnectionState := Disconnecting\<rparr>)"
  have "core q = (Disconnecting, disconnTimer r, armed (page r), life r, levels (sets r))"
    unfolding q_def core_disconnect_page by (simp add: core_def life_def)
  moreover have "leave_to Disconnecting r = (setTimeout TDisconnect q)\<lparr>disconnTimer := True\<rparr>"
    using assms by (auto simp: leave_to_def q_def)
  ultimately show ?thesis by (simp add: core_def life_def setTimeout_def on_page_def armed_arm)
qed

lemma leave_to_Disconnected:
  "rfbConnectionState r = Disconnecting \<Longrightarrow>
    core (leave_to Disconnected r) =
      (Disconnected, False, if disconnTimer r then 0 else armed (page r),
       life r @ [EvDisconnect (rfbCleanDisconnect r)], levels (sets r))"
  using core_clear [of Disconnected r]
  by (simp add: leave_to_def core_def life_def dispatch_def clear_disconnect_def on_page_def clearTimeout_def)

lemma leave_to_stay: "\<not> allowed (rfbConnectionState r) s \<Longrightarrow> leave_to s r = r"
  by (simp add: leave_to_def)

lemma leave_to_cases:
  assumes "s \<noteq> Connecting"
  obtains (stay) "leave_to s r = r"
  | (up) "s = Connected" "rfbConnectionState r = Connecting"
  | (down) "s = Disconnecting" "rfbConnectionState r = Connecting \<or> rfbConnectionState r = Connected"
  | (gone) "s = Disconnected" "rfbConnectionState r = Disconnecting"
  using assms leave_to_stay [of r s] by (cases "allowed (rfbConnectionState r) s"; cases s) auto

section \<open>Events are only added\<close>

interpretation hist: core_invariant "\<lambda>r. grown q r" for q
  by unfold_locales (rule grown_trans)

lemma grown_disconnect_page: "grown r (disconnect_page r)"
proof -
  have "grown r r" by (simp add: grown_same)
  then show ?thesis
    unfolding disconnect_page_def Let_def
    by (intro hist.keeps hist.keep_on_kbd) simp_all
qed

lemma grown_leave: "grown r (leave_to s r)"
proof -
  define q where "q = clear_disconnect s (r\<lparr>rfbConnectionState := s\<rparr>)"
  have q: "grown r q" by (simp add: q_def clear_disconnect_def grown_same)
  have "grown q (enter_state s q)"
    by (cases s) (auto simp: grown_dispatch grown_same grown_def [of q "x\<lparr>disconnTimer := b\<rparr>" for x b]
        grown_disconnect_page [unfolded grown_def])
  then show ?thesis using q by (auto simp: leave_to_def q_def [symmetric] grown_same intro: grown_trans)
qed

interpretation history: rfb_invariant "\<lambda>r. grown q r" for q
proof (unfold_locales, goal_cases)
  case (1 r s)
  then show ?case using grown_leave grown_trans by blast
next
  case (2 r)
  have "grown r (on_page (\<lambda>p. p\<lparr>timers := remove1 TDisconnect (timers p)\<rparr>) r)" by (simp add: grown_same)
  then show ?case using 2(1) grown_leave grown_trans by blast
qed (auto simp: grown_def)

lemma rfb_step_grown: "grown r (rfb_step W op r)"
  by (rule history.rfb_step_keeps) (simp add: grown_same)

section \<open>The automaton of a connection\<close>

type_synonym link = "conn_state \<times> rfb_event list"

inductive link_step :: "link \<Rightarrow> link \<Rightarrow> bool" where
  up: "link_step (Connecting, evs) (Connected, evs @ [EvConnect])"
| down: "s = Connecting \<or> s = Connected \<Longrightarrow> link_step (s, evs) (Disconnecting, evs)"
| gone: "link_step (Disconnecting, evs) (Disconnected, evs @ [EvDisconnect clean])"

inductive_cases link_stepE [elim!]: "link_step (s, evs) l"

definition link_of :: "'z rfb \<Rightarrow> link" where
  "link_of r = (rfbConnectionState r, life r)"

lemma link_of_core: "core r' = core r \<Longrightarrow> link_of r' = link_of r"
  by (simp add: core_def link_of_def)

lemma link_leave:
  assumes "s \<noteq> Connecting"
  shows "link_step\<^sup>*\<^sup>* (link_of r) (link_of (leave_to s r))"
  using assms
proof (cases rule: leave_to_cases [of s r])
  case up
  then show ?thesis
    using leave_to_Connected [of r] by (auto simp: link_of_def core_def intro: link_step.up)
next
  case down
  then show ?thesis
    using leave_to_Disconnecting [of r] by (auto simp: link_of_def core_def intro: link_step.down)
next
  case gone
  then show ?thesis
    using leave_to_Disconnected [of r] by (auto simp: link_of_def core_def intro: link_step.gone)
qed simp

lemma link_leave_trans:
  assumes "link_step\<^sup>*\<^sup>* a (link_of r)" "s \<noteq> Connecting"
  shows "link_step\<^sup>*\<^sup>* a (link_of (leave_to s r))"
  using assms(1) link_leave [OF assms(2)] by (rule rtranclp_trans)

lemma link_of_updates [simp]:
  "link_of (on_page f r) = link_of r" "link_of (on_sets g r) = link_of r"
  by (simp_all add: link_of_def life_def on_page_def on_sets_def)

interpretation link: rfb_invariant "\<lambda>r. link_step\<^sup>*\<^sup>* a (link_of r)" for a
proof (unfold_locales, goal_cases)
  case (1 r r')
  then show ?case using link_of_core [of r' r] by simp
qed (simp_all add: link_leave_trans)

text \<open>C2: Refinement of the connection automaton. Whatever happens to a client, from whatever state, its
  connection state and the connect and disconnect events it has dispatched change by steps of the
  automaton only: from connecting to connected with a connect event, from connecting or connected to
  disconnecting, and from disconnecting to disconnected with a disconnect event.\<close>

theorem rfb_step_refines_link: "link_step\<^sup>*\<^sup>* (link_of r) (link_of (rfb_step W op r))"
  by (rule link.rfb_step_keeps) simp

section \<open>Connect and disconnect events\<close>

fun link_ok :: "conn_state \<Rightarrow> rfb_event list \<Rightarrow> bool" where
  "link_ok NotConnected evs = False"
| "link_ok Connecting evs = (evs = [])"
| "link_ok Connected evs = (evs = [EvConnect])"
| "link_ok Disconnecting evs = (evs = [] \<or> evs = [EvConnect])"
| "link_ok Disconnected evs =
     (evs = [EvDisconnect True] \<or> evs = [EvDisconnect False] \<or>
      evs = [EvConnect, EvDisconnect True] \<or> evs = [EvConnect, EvDisconnect False])"

lemma link_ok_step: "link_step l l' \<Longrightarrow> link_ok (fst l) (snd l) \<Longrightarrow> link_ok (fst l') (snd l')"
proof (induction rule: link_step.induct)
  case (gone evs clean)
  then show ?case by (cases clean) auto
qed auto

lemma link_ok_steps: "link_step\<^sup>*\<^sup>* l l' \<Longrightarrow> link_ok (fst l) (snd l) \<Longrightarrow> link_ok (fst l') (snd l')"
  by (induction rule: rtranclp_induct) (auto dest: link_ok_step)

lemma link_ended: "link_step\<^sup>*\<^sup>* (Disconnected, evs) l \<Longrightarrow> l = (Disconnected, evs)"
  by (induction rule: rtranclp_induct) auto

definition run :: "(('z, 'd) world \<times> op) list \<Rightarrow> 'z rfb \<Rightarrow> 'z rfb" where
  "run = fold (\<lambda>(W, op). rfb_step W op)"

lemma run_simps [simp]: "run [] r = r" "run ((W, op) # acts) r = run acts (rfb_step W op r)"
  by (simp_all add: run_def)

lemma reachable_run: "reachable Ws r \<Longrightarrow> fst ` set acts \<subseteq> Ws \<Longrightarrow> reachable Ws (run acts r)"
  by (induction acts arbitrary: r) (auto simp: reachable.step)

lemma link_run: "link_step\<^sup>*\<^sup>* a (link_of r) \<Longrightarrow> link_step\<^sup>*\<^sup>* a (link_of (run acts r))"
  by (induction acts arbitrary: r) (auto simp: link.rfb_step_keeps)

section \<open>The timer of the disconnection\<close>

definition timer_ok :: "'z rfb \<Rightarrow> bool" where
  "timer_ok r \<longleftrightarrow>
     (disconnTimer r \<longleftrightarrow> rfbConnectionState r = Disconnecting) \<and>
     armed (page r) = of_bool (rfbConnectionState r = Disconnecting)"

lemma timer_ok_core:
  "timer_ok r \<longleftrightarrow> (case core r of (s, t, n, evs, ls) \<Rightarrow> (t \<longleftrightarrow> s = Disconnecting) \<and> n = of_bool (s = Disconnecting))"
  by (simp add: timer_ok_def core_def)

lemma timer_ok_leave: "timer_ok r \<Longrightarrow> s \<noteq> Connecting \<Longrightarrow> timer_ok (leave_to s r)"
  by (cases rule: leave_to_cases [of s r])
    (auto simp: timer_ok_core [of "leave_to s r" for s] timer_ok_def [of r] leave_to_Connected
      leave_to_Disconnecting leave_to_Disconnected)

lemma timer_expires:
  assumes "rfbConnectionState r = Disconnecting" "disconnTimer r"
  shows "core (leave_to Disconnected (on_page (\<lambda>p. p\<lparr>timers := remove1 TDisconnect (timers p)\<rparr>) r)) =
    (Disconnected, False, 0, life r @ [EvDisconnect (rfbCleanDisconnect r)], levels (sets r))"
  using assms leave_to_Disconnected [of "on_page (\<lambda>p. p\<lparr>timers := remove1 TDisconnect (timers p)\<rparr>) r"]
  by (simp add: on_page_def life_def)

interpretation timer: rfb_invariant timer_ok
proof (unfold_locales, goal_cases)
  case (1 r r')
  then show ?case by (simp add: timer_ok_core)
next
  case (2 r s)
  then show ?case by (rule timer_ok_leave)
next
  case (3 r)
  then have "rfbConnectionState r = Disconnecting \<and> disconnTimer r"
    by (auto simp: timer_ok_def armed_pending)
  then show ?case using timer_expires [of r] by (simp add: timer_ok_core)
qed (simp_all add: timer_ok_def on_sets_def)

section \<open>Quality and compression levels\<close>

definition levels_ok :: "'z rfb \<Rightarrow> bool" where
  "levels_ok r \<longleftrightarrow> qualityLevel (sets r) \<in> {0..9} \<and> compressionLevel (sets r) \<in> {0..9}"

lemma levels_ok_core: "levels_ok r \<longleftrightarrow> (case core r of (s, t, n, evs, q, c) \<Rightarrow> q \<in> {0..9} \<and> c \<in> {0..9})"
  by (simp add: levels_ok_def core_def levels_def)

lemma levels_leave: "s \<noteq> Connecting \<Longrightarrow> levels (sets (leave_to s r)) = levels (sets r)"
  by (cases rule: leave_to_cases [of s r])
    (use leave_to_Connected [of r] leave_to_Disconnecting [of r] leave_to_Disconnected [of r] in \<open>auto simp: core_def\<close>)

lemma levels_ok_levels: "levels (sets r') = levels (sets r) \<Longrightarrow> levels_ok r \<Longrightarrow> levels_ok r'"
  by (simp add: levels_ok_def levels_def)

interpretation level: rfb_invariant levels_ok
proof (unfold_locales, goal_cases)
  case (1 r r')
  then show ?case by (simp add: levels_ok_core)
next
  case (2 r s)
  then show ?case using levels_leave levels_ok_levels by blast
next
  case (3 r)
  have "levels (sets (on_page (\<lambda>p. p\<lparr>timers := remove1 TDisconnect (timers p)\<rparr>) r)) = levels (sets r)"
    by (simp add: on_page_def)
  then show ?case using 3(1) levels_leave [of Disconnected] levels_ok_levels by (metis conn_state.distinct(13))
qed (simp_all add: levels_ok_def on_sets_def)

text \<open>The numbers that \<open>core/encodings.js\<close> assigns.\<close>

definition known_encodings :: "int set" where
  "known_encodings =
     {encodingRaw, encodingCopyRect, encodingRRE, encodingHextile, encodingTight, encodingZRLE, encodingTightPNG,
      encodingJPEG, pseudoEncodingDesktopSize, pseudoEncodingLastRect, pseudoEncodingCursor,
      pseudoEncodingQEMUExtendedKeyEvent, pseudoEncodingQEMULedEvent, pseudoEncodingDesktopName,
      pseudoEncodingExtendedDesktopSize, pseudoEncodingXvp, pseudoEncodingFence, pseudoEncodingContinuousUpdates,
      pseudoEncodingVMwareCursor, pseudoEncodingExtendedClipboard}
     \<union> {pseudoEncodingQualityLevel0..pseudoEncodingQualityLevel9}
     \<union> {pseudoEncodingCompressLevel0..pseudoEncodingCompressLevel9}"

section \<open>Properties\<close>

text \<open>C30: The encodings a client offers are well typed. After any sequence of operations the quality and the
  compression level are between 0 and 9 whatever the application tried to set, and the list of
  encodings made from them names each encoding once and only encodings that exist.\<close>

theorem offered_encodings_known:
  assumes "reachable Ws r"
  shows "levels_ok r \<and>
    distinct (client_encodings (fbDepth r) (qualityLevel (sets r)) (compressionLevel (sets r))) \<and>
    set (client_encodings (fbDepth r) (qualityLevel (sets r)) (compressionLevel (sets r))) \<subseteq> known_encodings"
proof -
  have "levels_ok r" using assms by (rule level.reachable_keeps) (simp add: levels_ok_core)
  then show ?thesis
    by (auto simp: levels_ok_def client_encodings_def known_encodings_def encoding_defs
        pseudoEncodingQualityLevel9_def pseudoEncodingCompressLevel9_def)
qed


text \<open>C1: Life of a connection. After any sequence of operations on a new client, in any order, the
  application has seen no connect or disconnect event while connecting, exactly one connect event when
  connected, and exactly one disconnect event, after at most one connect event, when disconnected.\<close>

theorem connection_lifecycle: "reachable Ws r \<Longrightarrow> link_ok (rfbConnectionState r) (life r)"
proof -
  assume "reachable Ws r"
  then have "link_step\<^sup>*\<^sup>* (Connecting, []) (link_of r)"
    by (rule link.reachable_keeps) (simp add: core_def link_of_def)
  then show ?thesis using link_ok_steps by (fastforce simp: link_of_def)
qed

text \<open>A client that is disconnected stays so: no sequence of operations brings it back or makes it
  dispatch another connect or disconnect event.\<close>

theorem disconnected_for_good:
  "rfbConnectionState r = Disconnected \<Longrightarrow> link_of (run acts r) = link_of r"
  using link_run [of "link_of r" r acts] link_ended [of "life r" "link_of (run acts r)"] by (simp add: link_of_def)

text \<open>C7: A disconnection completes. When a client that is reachable is disconnecting, its timer is
  running, and when the timer fires the client is disconnected, has dispatched one disconnect event
  more and has no such timer any longer.\<close>

theorem disconnect_completes:
  assumes "reachable Ws r" "rfbConnectionState r = Disconnecting"
  shows "TDisconnect \<in> set (timers (page r)) \<and>
    core (rfb_step W (TimerFires TDisconnect) r) =
      (Disconnected, False, 0, life r @ [EvDisconnect (rfbCleanDisconnect r)], levels (sets r))"
proof -
  have "timer_ok r"
    using assms(1) by (rule timer.reachable_keeps) (simp add: timer_ok_core)
  then have "disconnTimer r" "TDisconnect \<in> set (timers (page r))"
    using assms(2) by (simp_all add: timer_ok_def armed_pending)
  then show ?thesis using timer_expires assms(2) by (simp add: disconnectTimeout_def)
qed

section \<open>An example\<close>

definition demo_world :: "(unit, unit) world" where
  "demo_world = \<lparr>w_zlib = stored_zlib,
     w_deflate = \<lparr>dinit = (), zdeflate = (\<lambda>st inp n. (0, inp, [], st))\<rparr>,
     w_aes_cbc = (\<lambda>key iv inp. inp), w_random = (\<lambda>n. replicate n 7), w_now = 1000, w_dragThreshold = 4,
     w_hypot = max, w_clientSize = (640, 480), w_screenSize = (640, 480), w_canvasPos = (0, 0),
     w_canvasSize = (640, 480)\<rparr>"

definition demo_options :: options where
  "demo_options = \<lparr>o_credentials = \<lparr>username = None, password = None, cred_target = None, ardPublicKey = None,
     ardCredentials = None\<rparr>, o_shared = None, o_repeaterID = [], o_showDotCursor = None\<rparr>"

definition demo_client :: "unit rfb" where
  "demo_client = (case new_rfb demo_world None demo_options of Ret r \<Rightarrow> r)"

lemma new_rfb_url: "\<exists>r. new_rfb W None opts = Ret r"
proof -
  have "list_all (\<lambda>prop. prop \<in> set rawChannelProps) rawChannelProps" by (simp add: list_all_iff)
  then show ?thesis
    by (simp add: new_rfb_def updateConnectionState_def connect_def blank_rfb_def attach_def clear_disconnect_def
        Let_def)
qed

lemma demo_new: "new_rfb demo_world None demo_options = Ret demo_client"
  using new_rfb_url [of demo_world demo_options] by (auto simp: demo_client_def)

lemma demo_reachable: "reachable {demo_world} demo_client"
  using demo_new by (auto intro: reachable.start)

lemma demo_state: "rfbConnectionState demo_client = Connecting" "life demo_client = []"
  using new_rfb_core [OF demo_new] by (simp_all add: core_def)

lemma demo_disconnect: "rfbConnectionState (disconnect demo_client) = Disconnecting"
  using leave_to_Disconnecting [of demo_client] by (simp add: disconnect_def demo_state core_def on_page_def)

lemma demo_disconnect_reachable: "reachable {demo_world} (disconnect demo_client)"
  using reachable.step [OF demo_reachable, of demo_world Disconnect] by simp

definition demo_gone :: "unit rfb" where
  "demo_gone = run [(demo_world, Disconnect), (demo_world, TimerFires TDisconnect)] demo_client"

lemma demo_gone_reachable: "reachable {demo_world} demo_gone"
  unfolding demo_gone_def by (intro reachable_run [OF demo_reachable]) simp

lemma demo_gone_state: "rfbConnectionState demo_gone = Disconnected"
proof -
  have "timer_ok (disconnect demo_client)"
    by (intro timer.reachable_keeps [OF demo_disconnect_reachable]) (simp add: timer_ok_core)
  then show ?thesis
    using timer_expires [of "disconnect demo_client"]
    by (simp add: demo_gone_def demo_disconnect disconnectTimeout_def timer_ok_def armed_pending core_def)
qed

theorem offered_encodings_known_witness:
  "reachable {demo_world} demo_gone \<and> levels_ok demo_gone"
  using offered_encodings_known [OF demo_gone_reachable] demo_gone_reachable by simp

theorem connection_lifecycle_witness:
  "reachable {demo_world} demo_gone \<and> link_ok Disconnected (life demo_gone)"
  using connection_lifecycle [OF demo_gone_reachable] demo_gone_reachable by (simp add: demo_gone_state)

theorem disconnect_completes_witness:
  "TDisconnect \<in> set (timers (page (disconnect demo_client))) \<and>
   fst (core (rfb_step demo_world (TimerFires TDisconnect) (disconnect demo_client))) = Disconnected"
  using disconnect_completes [OF demo_disconnect_reachable demo_disconnect, of demo_world] by (simp del: rfb_step.simps)

end
