(* ===== verification/Rfb_Viewonly.thy ===== *)
theory Rfb_Viewonly
  imports Rfb_Life
begin

text \<open>
  Input of the user. A client that is not connected, or that is set to view only, sends nothing to the
  server whatever keys, mouse events, wheel turns and gestures arrive. The last sections show where the
  code loses track of the keys that the server holds pressed.
\<close>

section \<open>What decides whether input is sent\<close>

definition gate :: "'z rfb \<Rightarrow> websock \<times> settings \<times> conn_state" where
  "gate r = (sock r, sets r, rfbConnectionState r)"

definition muted :: "'z rfb \<Rightarrow> bool" where
  "muted r \<longleftrightarrow> rfbConnectionState r \<noteq> Connected \<or> viewOnly (sets r)"

lemma muted_gate: "gate r' = gate r \<Longrightarrow> muted r' = muted r"
  by (simp add: gate_def muted_def)

lemma gate_updates [simp]:
  "gate (on_ptr f r) = gate r" "gate (on_page g r) = gate r" "gate (on_feat h r) = gate r"
  "gate (on_disp d r) = gate r" "gate (r\<lparr>kbd := k\<rparr>) = gate r"
  "gate (setTimeout t r) = gate r" "gate (clearTimeout t r) = gate r"
  by (simp_all add: gate_def on_ptr_def on_page_def on_feat_def on_disp_def setTimeout_def clearTimeout_def)

lemma muted_updates [simp]:
  "muted (on_ptr f r) = muted r" "muted (on_page g r) = muted r" "muted (on_feat h r) = muted r"
  "muted (on_disp d r) = muted r" "muted (r\<lparr>kbd := k\<rparr>) = muted r"
  "muted (setTimeout t r) = muted r" "muted (clearTimeout t r) = muted r"
  by (rule muted_gate, simp)+

subsection \<open>Keys\<close>

lemma muted_keys [simp]:
  "muted r \<Longrightarrow> sendKey_once k c d r = r" "muted r \<Longrightarrow> sendKey k c b r = r" "muted r \<Longrightarrow> press_lock n c r = r"
  "muted r \<Longrightarrow> sendCtrlAltDel r = r"
  by (auto simp: muted_def sendKey_once_def sendKey_def press_lock_def sendCtrlAltDel_def)

lemma gate_handleKeyEvent [simp]:
  "muted r \<Longrightarrow> gate (handleKeyEvent k c d nl cl r) = gate r"
  "muted r \<Longrightarrow> muted (handleKeyEvent k c d nl cl r)"
  by (simp_all add: handleKeyEvent_def Let_def)

lemma gate_key_calls: "muted r \<Longrightarrow> gate (fold key_call cs r) = gate r"
  by (induction cs arbitrary: r) (simp_all add: key_call_def)

lemma gate_on_kbd [simp]: "muted r \<Longrightarrow> gate (on_kbd f r) = gate r"
  by (simp add: on_kbd_def Let_def gate_key_calls)

lemma muted_paste: "muted r \<Longrightarrow> clipboardPasteFrom t r = (Ret True, r)"
  by (simp add: clipboardPasteFrom_def muted_def)

subsection \<open>Mouse, wheel and gestures\<close>

lemma muted_sendMouse [simp]: "muted r \<Longrightarrow> sendMouse x y b r = r"
  by (auto simp: muted_def sendMouse_def)

lemma gate_button [simp]:
  "muted r \<Longrightarrow> gate (handleMouseButton x y d m r) = gate r"
  "muted r \<Longrightarrow> muted (handleMouseButton x y d m r)"
  by (simp_all add: handleMouseButton_def press_buttons_def Let_def)

lemma gate_move [simp]:
  "muted r \<Longrightarrow> gate (handleMouseMove W x y r) = gate r"
  "muted r \<Longrightarrow> muted (handleMouseMove W x y r)"
  by (simp_all add: handleMouseMove_def Let_def split: prod.split)

lemma gate_mouse: "muted r \<Longrightarrow> gate (handleMouse W k cx cy r) = gate r"
  by (cases k) (simp_all split: prod.split)

lemma gate_click [simp]:
  "muted r \<Longrightarrow> gate (click x y m r) = gate r" "muted r \<Longrightarrow> muted (click x y m r)"
  by (simp_all add: click_def)

lemma muted_wheel: "muted r \<Longrightarrow> handleWheel W cx cy dx dy dm r = r"
  by (auto simp: muted_def handleWheel_def)

lemma gate_scroll_up:
  assumes "muted r" "\<And>r. muted r \<Longrightarrow> gate (f r) = gate r \<and> muted (f r)"
  shows "gate (snd (scroll_up sens mag f prev r)) = gate r"
  using assms
  by (induction sens mag f prev r rule: scroll_up.induct) (subst scroll_up.simps, simp)

lemma gate_scroll_axis:
  assumes "muted r" "\<And>r. muted r \<Longrightarrow> gate (f r) = gate r \<and> muted (f r)"
    "\<And>r. muted r \<Longrightarrow> gate (g r) = gate r \<and> muted (g r)"
  shows "gate (scroll_axis sens mag f g get put r) = gate r"
proof -
  let ?a = "snd (scroll_up sens mag f (get (ptr r)) r)"
  have up: "gate ?a = gate r" using assms(1, 2) by (rule gate_scroll_up)
  then have "muted ?a" using assms(1) muted_gate by blast
  then have "gate (snd (scroll_up sens (- mag) g l ?a)) = gate r" for l
    using gate_scroll_up [OF _ assms(3)] up by metis
  then show ?thesis by (simp add: scroll_axis_def scroll_down_def Let_def split_beta)
qed

lemma gate_fake [simp]:
  "muted r \<Longrightarrow> gate (fakeMouseMove W cx cy x y r) = gate r" "muted r \<Longrightarrow> muted (fakeMouseMove W cx cy x y r)"
  by (simp_all add: fakeMouseMove_def)

lemma gate_tap: "muted r \<Longrightarrow> gate (handleTapEvent W g m r) = gate r"
  by (simp add: handleTapEvent_def Let_def split_beta)

lemma gate_gestures:
  "muted r \<Longrightarrow> gate (gesturestart W g r) = gate r" "muted r \<Longrightarrow> gate (gestureend W g r) = gate r"
  by (cases "g_kind g"; simp add: gesturestart_def gestureend_def gate_tap split_beta)+

lemma gate_axis_clicks [simp]:
  "muted r \<Longrightarrow> gate (scroll_axis sens mag (click x y m) (click x y n) get put r) = gate r"
  by (rule gate_scroll_axis) simp_all

lemma muted_axis_clicks [simp]:
  "muted r \<Longrightarrow> muted (scroll_axis sens mag (click x y m) (click x y n) get put r)"
  using gate_axis_clicks muted_gate by blast

lemma gate_gesturemove: "muted r \<Longrightarrow> gate (gesturemove W g r) = gate r"
  by (cases "g_kind g") (simp_all add: gesturemove_def split_beta Let_def)

section \<open>Nothing is sent\<close>

fun is_input :: "op \<Rightarrow> bool" where
  "is_input (Key P i) = True"
| "is_input (Mouse k x y) = True"
| "is_input (Wheel x y dx dy m) = True"
| "is_input (GestureStart g) = True"
| "is_input (GestureMove g) = True"
| "is_input (GestureEnd g) = True"
| "is_input (SendKey k c d) = True"
| "is_input SendCtrlAltDel = True"
| "is_input (Paste t) = True"
| "is_input (TimerFires t) = (t = TMouseMove)"
| "is_input _ = False"

lemma gate_delayed: "muted r \<Longrightarrow> gate (handleDelayedMouseMove W r) = gate r"
  by (simp add: handleDelayedMouseMove_def Let_def split_beta)

lemma gate_input: "is_input a \<Longrightarrow> muted r \<Longrightarrow> gate (rfb_step W a r) = gate r"
  by (cases a) (simp_all add: gate_mouse muted_wheel gate_gestures gate_gesturemove muted_paste gate_delayed)

lemma gate_inputs:
  "list_all (\<lambda>(W, a). is_input a) acts \<Longrightarrow> muted r \<Longrightarrow> gate (run acts r) = gate r"
proof (induction acts arbitrary: r)
  case (Cons Wa acts)
  then show ?case
    using gate_input [of "snd Wa" r "fst Wa"] muted_gate [of "rfb_step (fst Wa) (snd Wa) r" r]
    by (cases Wa) simp
qed simp

text \<open>C8: View only means view only. While a client is not connected, or is set to view only, no sequence
  of key, mouse, wheel and gesture events, delayed mouse moves, sent keys and pastes makes it put a
  byte on its send queue, or changes its settings or its connection.\<close>

theorem view_only_sends_nothing:
  assumes "rfbConnectionState r \<noteq> Connected \<or> viewOnly (sets r)" "list_all (\<lambda>(W, a). is_input a) acts"
  shows "gate (run acts r) = gate r"
  using assms gate_inputs by (simp add: muted_def)

text \<open>A connected client with a small send buffer, for the concrete instances.\<close>

definition demo_live :: "unit rfb" where
  "demo_live = (blank_rfb demo_world None demo_options demo_disp)\<lparr>rfbConnectionState := Connected, sock := demo_sock\<rparr>"

lemma demo_live_fields [simp]:
  "rfbConnectionState demo_live = Connected" "sock demo_live = demo_sock" "sets demo_live = new_settings"
  "feat demo_live = new_features" "kbd demo_live = new_keyboard" "rfbu demo_live = rfbu (blank_rfb demo_world None demo_options demo_disp)"
  "events demo_live = []" "flushing demo_live = False" "disconnTimer demo_live = False" "page demo_live = new_page"
  by (simp_all add: demo_live_def blank_rfb_def)

theorem view_only_sends_nothing_witness:
  "gate (run [(demo_world, Wheel 1 1 0 100 0), (demo_world, SendCtrlAltDel), (demo_world, Mouse (MouseDown 0) 5 5)]
      (on_sets (\<lambda>s. s\<lparr>viewOnly := True\<rparr>) demo_live)) =
   gate (on_sets (\<lambda>s. s\<lparr>viewOnly := True\<rparr>) demo_live)"
  by (rule view_only_sends_nothing) (simp_all add: on_sets_def)

section \<open>Keys the server is not told about\<close>

lemma kbd_keys [simp]:
  "kbd (on_feat f r) = kbd r" "kbd (sendKey_once k c d r) = kbd r" "kbd (sendKey k c b r) = kbd r"
  "kbd (handleKeyEvent k c d nl cl r) = kbd r"
proof -
  show feat: "kbd (on_feat f r) = kbd r" for f and r :: "'a rfb" by (simp add: on_feat_def)
  show once: "kbd (sendKey_once k c d r) = kbd r" for k c d and r :: "'a rfb"
    by (simp add: sendKey_once_def on_sock_def Let_def)
  show key: "kbd (sendKey k c b r) = kbd r" for k c b and r :: "'a rfb"
    by (simp add: sendKey_def once split: option.split)
  show "kbd (handleKeyEvent k c d nl cl r) = kbd r"
    by (simp add: handleKeyEvent_def press_lock_def Let_def feat key)
qed

lemma kbd_key_calls: "kbd (fold key_call cs r) = kbd r"
  by (induction cs arbitrary: r) (simp_all add: key_call_def)

lemma kbd_on_kbd: "keyDownList (kbd (on_kbd f r)) = keyDownList (f ((kbd r)\<lparr>keyEvents := []\<rparr>))"
  by (simp add: on_kbd_def Let_def kbd_key_calls)

text \<open>Switching to view only forgets the keys that are held. The property is set before the keyboard
  is told to release its keys, so the releases are not sent: the keyboard holds nothing any longer,
  while the server, which was told of every press, was told of no release.\<close>

theorem view_only_drops_releases:
  assumes "rfbConnectionState r = Connected"
  shows "sock (set_viewOnly True r) = sock r \<and> keyDownList (kbd (set_viewOnly True r)) = []"
proof -
  have "muted (on_sets (\<lambda>s. s\<lparr>viewOnly := True\<rparr>) r)" by (simp add: muted_def on_sets_def)
  from gate_on_kbd [OF this, of ungrab] show ?thesis
    using assms by (simp add: set_viewOnly_def kbd_on_kbd ungrab_def allKeysUp_none gate_def on_sets_def)
qed

definition key_bytes :: "int \<Rightarrow> bool \<Rightarrow> bytes" where
  "key_bytes keysym down = [4, of_bool down, 0, 0] @ be32 keysym"

lemma keyEvent_out:
  "wf_send s \<Longrightarrow> wf_send (keyEvent k (of_bool d) s) \<and> outgoing (keyEvent k (of_bool d) s) = outgoing s @ key_bytes k d"
  using sq.message_out [of s "[F8 4, F8 (of_bool d), F16 0, F32 k]"]
  by (simp add: keyEvent_def message_def push_all_def key_bytes_def be16_def u8_def)

lemma control_keysym:
  "map_of KeyTable1 ''XK_Control_L'' = None" "map_of KeyTable2 ''XK_Control_L'' = Some 0xffe3"
  by (simp add: KeyTable1_def, simp add: KeyTable2_def)

lemma caps_keysym:
  "map_of KeyTable1 ''XK_Caps_Lock'' = None" "map_of KeyTable2 ''XK_Caps_Lock'' = Some 0xffe5"
  by (simp add: KeyTable1_def, simp add: KeyTable2_def)

lemma XK_locks: "XK ''XK_Control_L'' = Some 0xffe3" "XK ''XK_Caps_Lock'' = Some 0xffe5"
  unfolding XK_def KeyTable_def map_of_append map_add_def control_keysym caps_keysym by simp_all

definition plain_keys :: "'z rfb \<Rightarrow> bool" where
  "plain_keys r \<longleftrightarrow> wf_send (sock r) \<and> \<not> muted r \<and> \<not> qemuExtKeyEventSupported (feat r)"

lemma sendKey_plain:
  assumes "plain_keys r" "k \<noteq> 0"
  shows "plain_keys (sendKey (Some k) c (Some d) r) \<and>
    outgoing (sock (sendKey (Some k) c (Some d) r)) = outgoing (sock r) @ key_bytes k d \<and>
    feat (sendKey (Some k) c (Some d) r) = feat r"
  using assms keyEvent_out [of "sock r" k d]
  by (auto simp: plain_keys_def sendKey_def sendKey_once_def muted_def truthy_def on_sock_def)

lemma plain_keys_locks [simp]:
  "plain_keys (on_feat (\<lambda>f. f\<lparr>remoteCapsLock := v\<rparr>) r) = plain_keys r"
  "plain_keys (on_feat (\<lambda>f. f\<lparr>remoteNumLock := v\<rparr>) r) = plain_keys r"
  by (simp_all add: plain_keys_def muted_def on_feat_def)



end
