(* ===== verification/Rfb_Wire.thy ===== *)
theory Rfb_Wire
  imports Rfb_Messages "HOL-Library.Monad_Syntax"
begin

text \<open>
  What the server reads. The client to server messages are specified here from the receiving side, as a
  reader that follows the RFB protocol, and every message function of \<open>RFB.messages\<close> is shown to send
  what that reader takes for the message meant, through the send queue and its flushes.
\<close>

section \<open>The receiving side\<close>

record pixel_format =
  bits_per_pixel :: int
  pf_depth :: int
  big_endian :: bool
  true_color :: bool
  pf_max :: "int \<times> int \<times> int"
  pf_shift :: "int \<times> int \<times> int"

datatype client_msg =
    SetPixelFormat pixel_format
  | SetEncodings "int list"
  | FramebufferUpdateRequest bool int int int int
  | KeyEvent bool int
  | PointerEvent int int int
  | ClientCutText bytes
  | ClientExtendedCutText bytes
  | ClientFence int bytes
  | EnableContinuousUpdates bool int int int int
  | SetDesktopSize int int "(int \<times> int \<times> int \<times> int \<times> int \<times> int) list"
  | XvpClient int int
  | QemuKeyEvent bool int int

definition get_num :: "nat \<Rightarrow> bytes \<Rightarrow> (int \<times> bytes) option" where
  "get_num n bs = (if length bs < n then None else Some (be_num (take n bs), drop n bs))"

definition get_bytes :: "nat \<Rightarrow> bytes \<Rightarrow> (bytes \<times> bytes) option" where
  "get_bytes n bs = (if length bs < n then None else Some (take n bs, drop n bs))"

primrec get_nums :: "nat \<Rightarrow> bytes \<Rightarrow> (int list \<times> bytes) option" where
  "get_nums 0 bs = Some ([], bs)"
| "get_nums (Suc k) bs = do { (v, bs) \<leftarrow> get_num 4 bs; (vs, bs) \<leftarrow> get_nums k bs; Some (v # vs, bs) }"

definition get_pixel_format :: "bytes \<Rightarrow> (client_msg \<times> bytes) option" where
  "get_pixel_format bs = do {
     (pad, bs) \<leftarrow> get_num 3 bs; (bpp, bs) \<leftarrow> get_num 1 bs; (depth, bs) \<leftarrow> get_num 1 bs;
     (big, bs) \<leftarrow> get_num 1 bs; (tc, bs) \<leftarrow> get_num 1 bs;
     (rm, bs) \<leftarrow> get_num 2 bs; (gm, bs) \<leftarrow> get_num 2 bs; (bm, bs) \<leftarrow> get_num 2 bs;
     (rs, bs) \<leftarrow> get_num 1 bs; (gs, bs) \<leftarrow> get_num 1 bs; (bsh, bs) \<leftarrow> get_num 1 bs; (pad, bs) \<leftarrow> get_num 3 bs;
     Some (SetPixelFormat \<lparr>bits_per_pixel = bpp, pf_depth = depth, big_endian = (big \<noteq> 0), true_color = (tc \<noteq> 0),
             pf_max = (rm, gm, bm), pf_shift = (rs, gs, bsh)\<rparr>, bs) }"

definition get_area :: "bytes \<Rightarrow> ((bool \<times> int \<times> int \<times> int \<times> int) \<times> bytes) option" where
  "get_area bs = do {
     (f, bs) \<leftarrow> get_num 1 bs; (x, bs) \<leftarrow> get_num 2 bs; (y, bs) \<leftarrow> get_num 2 bs;
     (w, bs) \<leftarrow> get_num 2 bs; (h, bs) \<leftarrow> get_num 2 bs; Some ((f \<noteq> 0, x, y, w, h), bs) }"

definition get_screen :: "bytes \<Rightarrow> ((int \<times> int \<times> int \<times> int \<times> int \<times> int) \<times> bytes) option" where
  "get_screen bs = do {
     (sid, bs) \<leftarrow> get_num 4 bs; (x, bs) \<leftarrow> get_num 2 bs; (y, bs) \<leftarrow> get_num 2 bs;
     (w, bs) \<leftarrow> get_num 2 bs; (h, bs) \<leftarrow> get_num 2 bs; (fl, bs) \<leftarrow> get_num 4 bs; Some ((sid, x, y, w, h, fl), bs) }"

primrec get_screens :: "nat \<Rightarrow> bytes \<Rightarrow> ((int \<times> int \<times> int \<times> int \<times> int \<times> int) list \<times> bytes) option" where
  "get_screens 0 bs = Some ([], bs)"
| "get_screens (Suc k) bs = do { (v, bs) \<leftarrow> get_screen bs; (vs, bs) \<leftarrow> get_screens k bs; Some (v # vs, bs) }"

definition read_msg :: "bytes \<Rightarrow> (client_msg \<times> bytes) option" where
  "read_msg bs = do {
     (t, bs) \<leftarrow> get_num 1 bs;
     if t = 0 then get_pixel_format bs
     else if t = 2 then do {
       (pad, bs) \<leftarrow> get_num 1 bs; (n, bs) \<leftarrow> get_num 2 bs; (es, bs) \<leftarrow> get_nums (nat n) bs;
       Some (SetEncodings (map toInt32 es), bs) }
     else if t = 3 then do { ((f, x, y, w, h), bs) \<leftarrow> get_area bs; Some (FramebufferUpdateRequest f x y w h, bs) }
     else if t = 4 then do {
       (d, bs) \<leftarrow> get_num 1 bs; (pad, bs) \<leftarrow> get_num 2 bs; (k, bs) \<leftarrow> get_num 4 bs; Some (KeyEvent (d \<noteq> 0) k, bs) }
     else if t = 5 then do {
       (b, bs) \<leftarrow> get_num 1 bs; (x, bs) \<leftarrow> get_num 2 bs; (y, bs) \<leftarrow> get_num 2 bs; Some (PointerEvent b x y, bs) }
     else if t = 6 then do {
       (pad, bs) \<leftarrow> get_num 3 bs; (n, bs) \<leftarrow> get_num 4 bs; (text, bs) \<leftarrow> get_bytes (nat \<bar>toInt32 n\<bar>) bs;
       Some (if toInt32 n < 0 then ClientExtendedCutText text else ClientCutText text, bs) }
     else if t = 150 then do { ((f, x, y, w, h), bs) \<leftarrow> get_area bs; Some (EnableContinuousUpdates f x y w h, bs) }
     else if t = 248 then do {
       (pad, bs) \<leftarrow> get_num 3 bs; (fl, bs) \<leftarrow> get_num 4 bs; (n, bs) \<leftarrow> get_num 1 bs;
       (p, bs) \<leftarrow> get_bytes (nat n) bs; Some (ClientFence fl p, bs) }
     else if t = 250 then do {
       (pad, bs) \<leftarrow> get_num 1 bs; (v, bs) \<leftarrow> get_num 1 bs; (c, bs) \<leftarrow> get_num 1 bs; Some (XvpClient v c, bs) }
     else if t = 251 then do {
       (pad, bs) \<leftarrow> get_num 1 bs; (w, bs) \<leftarrow> get_num 2 bs; (h, bs) \<leftarrow> get_num 2 bs; (n, bs) \<leftarrow> get_num 1 bs;
       (pad, bs) \<leftarrow> get_num 1 bs; (ss, bs) \<leftarrow> get_screens (nat n) bs; Some (SetDesktopSize w h ss, bs) }
     else if t = 255 then do {
       (sub, bs) \<leftarrow> get_num 1 bs;
       if sub \<noteq> 0 then None
       else do { (d, bs) \<leftarrow> get_num 2 bs; (k, bs) \<leftarrow> get_num 4 bs; (c, bs) \<leftarrow> get_num 4 bs;
                 Some (QemuKeyEvent (d \<noteq> 0) k c, bs) } }
     else None }"

function read_msgs :: "bytes \<Rightarrow> client_msg list option" where
  "read_msgs bs =
     (if bs = [] then Some []
      else case read_msg bs of
             None \<Rightarrow> None
           | Some (m, rest) \<Rightarrow> if length rest < length bs then map_option ((#) m) (read_msgs rest) else None)"
  by pat_completeness auto
termination by (relation "measure length") auto

declare read_msgs.simps [simp del]

section \<open>The sending side\<close>

text \<open>A call of one of the message functions, and the message it stands for.\<close>

datatype rfb_call =
    CPixelFormat int bool
  | CEncodings "int list"
  | CUpdateRequest bool int int int int
  | CKey int bool
  | CQemuKey int bool int
  | CPointer int int int
  | CCutText bytes bool
  | CFence int jsstring
  | CContinuous bool int int int int
  | CDesktopSize int int int int
  | CXvp int int

fun call :: "rfb_call \<Rightarrow> websock \<Rightarrow> unit outcome \<times> websock" where
  "call (CPixelFormat depth tc) s = (Ret (), pixelFormat depth tc s)"
| "call (CEncodings es) s = (Ret (), clientEncodings es s)"
| "call (CUpdateRequest i x y w h) s = (Ret (), fbUpdateRequest i x y w h s)"
| "call (CKey k d) s = (Ret (), keyEvent k (of_bool d) s)"
| "call (CQemuKey k d c) s = (Ret (), QEMUExtendedKeyEvent k d c s)"
| "call (CPointer x y b) s = (Ret (), pointerEvent x y b s)"
| "call (CCutText data extended) s = clientCutText data extended s"
| "call (CFence fl p) s = clientFence fl p s"
| "call (CContinuous e x y w h) s = (Ret (), enableContinuousUpdates e x y w h s)"
| "call (CDesktopSize w h sid fl) s = (Ret (), setDesktopSize w h sid fl s)"
| "call (CXvp v c) s = (Ret (), xvpOp v c s)"

definition client_format :: "int \<Rightarrow> bool \<Rightarrow> pixel_format" where
  "client_format depth tc =
     (let m = 2 ^ nat (depth div 3) - 1
      in \<lparr>bits_per_pixel = (if depth > 16 then 32 else if depth > 8 then 16 else 8), pf_depth = depth,
          big_endian = False, true_color = tc, pf_max = (m, m, m),
          pf_shift = (0, depth div 3, 2 * (depth div 3))\<rparr>)"

fun meant :: "rfb_call \<Rightarrow> client_msg" where
  "meant (CPixelFormat depth tc) = SetPixelFormat (client_format depth tc)"
| "meant (CEncodings es) = SetEncodings (map toInt32 es)"
| "meant (CUpdateRequest i x y w h) = FramebufferUpdateRequest i x y w h"
| "meant (CKey k d) = KeyEvent d k"
| "meant (CQemuKey k d c) = QemuKeyEvent d k (getRFBkeycode c)"
| "meant (CPointer x y b) = PointerEvent b x y"
| "meant (CCutText data extended) = (if extended then ClientExtendedCutText data else ClientCutText data)"
| "meant (CFence fl p) = ClientFence fl (bytes_of_str p)"
| "meant (CContinuous e x y w h) = EnableContinuousUpdates e x y w h"
| "meant (CDesktopSize w h sid fl) = SetDesktopSize w h [(sid, 0, 0, w, h, fl)]"
| "meant (CXvp v c) = XvpClient v c"

text \<open>The arguments fit their fields, and a block fits the send buffer, of \<open>n\<close> bytes, with its header.\<close>

abbreviation uint8 :: "int \<Rightarrow> bool" where "uint8 v \<equiv> 0 \<le> v \<and> v < 2 ^ 8"
abbreviation uint16 :: "int \<Rightarrow> bool" where "uint16 v \<equiv> 0 \<le> v \<and> v < 2 ^ 16"
abbreviation uint32 :: "int \<Rightarrow> bool" where "uint32 v \<equiv> 0 \<le> v \<and> v < 2 ^ 32"

fun call_ok :: "nat \<Rightarrow> rfb_call \<Rightarrow> bool" where
  "call_ok n (CPixelFormat depth tc) = (0 \<le> depth \<and> depth \<le> 32)"
| "call_ok n (CEncodings es) = (length es < 2 ^ 16)"
| "call_ok n (CUpdateRequest i x y w h) = (uint16 x \<and> uint16 y \<and> uint16 w \<and> uint16 h)"
| "call_ok n (CKey k d) = uint32 k"
| "call_ok n (CQemuKey k d c) = (uint32 k \<and> uint16 c)"
| "call_ok n (CPointer x y b) = (uint16 x \<and> uint16 y \<and> uint8 b)"
| "call_ok n (CCutText data extended) = (length data < 2 ^ 31 \<and> 8 + length data \<le> n \<and> (extended \<longrightarrow> data \<noteq> []))"
| "call_ok n (CFence fl p) = (uint32 fl \<and> length p < 2 ^ 8 \<and> 9 + length p \<le> n)"
| "call_ok n (CContinuous e x y w h) = (uint16 x \<and> uint16 y \<and> uint16 w \<and> uint16 h)"
| "call_ok n (CDesktopSize w h sid fl) = (uint16 w \<and> uint16 h \<and> uint32 sid \<and> uint32 fl)"
| "call_ok n (CXvp v c) = (uint8 v \<and> uint8 c)"

primrec calls :: "rfb_call list \<Rightarrow> websock \<Rightarrow> unit outcome \<times> websock" where
  "calls [] s = (Ret (), s)"
| "calls (c # cs) s = andthen (call c s) (\<lambda>_ s. calls cs s)"

section \<open>The bytes of a message\<close>

definition fields_wire :: "field list \<Rightarrow> bytes" where
  "fields_wire fs = concat (map field_bytes fs)"

lemma fields_wire_simps [simp]:
  "fields_wire [] = []" "fields_wire (F8 v # fs) = u8 v # fields_wire fs"
  "fields_wire (F16 v # fs) = be16 v @ fields_wire fs" "fields_wire (F32 v # fs) = be32 v @ fields_wire fs"
  "fields_wire (fs @ gs) = fields_wire fs @ fields_wire gs"
  by (simp_all add: fields_wire_def)

lemma get_num_fields [simp]:
  "get_num (Suc 0) (u8 v # r) = Some (v mod 2 ^ 8, r)" "get_num 2 (be16 v @ r) = Some (v mod 2 ^ 16, r)"
  "get_num 4 (be32 v @ r) = Some (v mod 2 ^ 32, r)"
  using be_num_be16 [of v] be_num_be32 [of v] by (simp_all add: get_num_def uint_u8)

lemma get_num_pad [simp]: "get_num 3 (u8 a # u8 b # u8 c # r) = Some (be_num [u8 a, u8 b, u8 c], r)"
  by (simp add: get_num_def numeral_3_eq_3)

lemma get_bytes_append [simp]: "length p = n \<Longrightarrow> get_bytes n (p @ r) = Some (p, r)"
  by (simp add: get_bytes_def)

lemma get_nums_wire [simp]:
  "get_nums (length es) (fields_wire (map F32 es) @ r) = Some (map (\<lambda>e. e mod 2 ^ 32) es, r)"
  by (induction es) simp_all

lemma toInt32_mod [simp]: "toInt32 (e mod 4294967296) = toInt32 e"
  using toInt32_toUint32 [of e] toUint32_mod [of e] by simp

lemma toInt32_block_length:
  assumes "length (bs :: bytes) < 2 ^ 31"
  shows "toInt32 (int (length bs)) = int (length bs)"
    "toInt32 (- int (length bs)) = - int (length bs)"
  using assms by (simp_all add: toInt32_small)

text \<open>A send queue between two messages: the last flush has emptied it.\<close>

definition idle :: "nat \<Rightarrow> websock \<Rightarrow> bool" where
  "idle n s \<longleftrightarrow> wf_send s \<and> sQlen s = 0 \<and> sQbufferSize s = n"

lemma sQensureSpace_size [simp]: "sQbufferSize (sQensureSpace k s) = sQbufferSize s"
  by (simp add: sQensureSpace_def flush_def)

lemma sQstore_size [simp]: "sQbufferSize (sQstore v s) = sQbufferSize s" "sQlen (sQstore v s) = Suc (sQlen s)"
  by (simp_all add: sQstore_def)

lemma push_size [simp]: "sQbufferSize (push_all fs s) = sQbufferSize s"
proof (induction fs arbitrary: s)
  case (Cons f fs)
  then show ?case by (cases f) (simp_all add: push_all_def sQpush8_def sQpush16_def sQpush32_def)
qed (simp add: push_all_def)

lemma push_len:
  "sQlen s + length (fields_wire fs) \<le> sQbufferSize s \<Longrightarrow> sQlen (push_all fs s) = sQlen s + length (fields_wire fs)"
proof (induction fs arbitrary: s)
  case (Cons f fs)
  have keep: "sQensureSpace k s = s" if "sQlen s + k \<le> sQbufferSize s" for k
    using that by (simp add: sQensureSpace_def)
  show ?case
  proof (cases f)
    case (F8 v)
    then show ?thesis using Cons.prems Cons.IH [of "sQpush8 v s"] keep [of 1]
      by (simp add: push_all_def sQpush8_def)
  next
    case (F16 v)
    then show ?thesis using Cons.prems Cons.IH [of "sQpush16 v s"] keep [of 2]
      by (simp add: push_all_def sQpush16_def)
  next
    case (F32 v)
    then show ?thesis using Cons.prems Cons.IH [of "sQpush32 v s"] keep [of 4]
      by (simp add: push_all_def sQpush32_def)
  qed
qed (simp add: push_all_def)

lemma push_out: "wf_send s \<Longrightarrow> wf_send (push_all fs s) \<and> outgoing (push_all fs s) = outgoing s @ fields_wire fs"
  using sq.push_fields_out [of s fs] by (simp add: push_all_def fields_wire_def)

lemma flush_idle: "wf_send s \<Longrightarrow> idle (sQbufferSize s) (flush s) \<and> outgoing (flush s) = outgoing s"
  using wf_flush [of s] by (simp add: idle_def) (simp add: flush_def)

lemma call_message_out:
  "idle n s \<Longrightarrow> idle n (message fs s) \<and> outgoing (message fs s) = outgoing s @ fields_wire fs"
  using push_out [of s fs] flush_idle [of "push_all fs s"] by (simp add: idle_def message_def)

lemma sQpushBytes_size: "sQpushBytes bs s = (Ret (), s') \<Longrightarrow> sQbufferSize s' = sQbufferSize s"
proof -
  have "sQpushBytes_loop bs k s = Some r \<Longrightarrow> sQbufferSize (snd r) = sQbufferSize s" for k r
  proof (induction bs k s r rule: sQpushBytes_loop.raw_induct [rotated, consumes 1, case_names turn])
    case (turn loop bs k s r)
    show ?case using turn(2) by (auto simp: Let_def dest!: turn(1) split: if_splits)
  qed
  then show "sQpushBytes bs s = (Ret (), s') \<Longrightarrow> sQbufferSize s' = sQbufferSize s"
    by (fastforce simp: sQpushBytes_def split: option.splits)
qed

text \<open>A header, a block that fits behind it, and a flush.\<close>

lemma block_out:
  assumes "idle n s" "fs \<noteq> []" "length (fields_wire fs) + length bs \<le> n" "0 < length (fields_wire fs)"
  shows "\<exists>s'. andthen (sQpushBytes bs (push_all fs s)) (\<lambda>_ s. (Ret (), flush s)) = (Ret (), s') \<and> idle n s' \<and>
    outgoing s' = outgoing s @ fields_wire fs @ bs"
proof -
  let ?t = "push_all fs s"
  have t: "wf_send ?t" "outgoing ?t = outgoing s @ fields_wire fs" "sQlen ?t = length (fields_wire fs)"
    using push_out [of s fs] push_len [of s fs] assms by (simp_all add: idle_def)
  have "length bs \<le> room ?t" using t assms by (auto simp: room_def idle_def)
  then obtain u where u: "sQpushBytes bs ?t = (Ret (), u)" "wf_send u" "outgoing u = outgoing ?t @ bs"
    using sQpushBytes_outgoing [OF t(1)] by blast
  then show ?thesis
    using flush_idle [OF u(2)] sQpushBytes_size [OF u(1)] t(2) assms(1) by (simp add: idle_def)
qed

section \<open>What is sent is what is read\<close>

fun call_fields :: "rfb_call \<Rightarrow> field list" where
  "call_fields (CPixelFormat depth tc) =
     (let bits = depth div 3; m = js_shl 1 (nat bits) - 1
      in [F8 0, F8 0, F8 0, F8 0, F8 (if depth > 16 then 32 else if depth > 8 then 16 else 8), F8 depth, F8 0,
          F8 (of_bool tc), F16 m, F16 m, F16 m, F8 0, F8 (int (nat bits)), F8 (int (nat bits) * 2), F8 0, F8 0, F8 0])"
| "call_fields (CEncodings es) = [F8 2, F8 0, F16 (int (length es))] @ map F32 es"
| "call_fields (CUpdateRequest i x y w h) = [F8 3, F8 (of_bool i), F16 x, F16 y, F16 w, F16 h]"
| "call_fields (CKey k d) = [F8 4, F8 (of_bool d), F16 0, F32 k]"
| "call_fields (CQemuKey k d c) = [F8 255, F8 0, F16 (of_bool d), F32 k, F32 (getRFBkeycode c)]"
| "call_fields (CPointer x y b) = [F8 5, F8 b, F16 x, F16 y]"
| "call_fields (CCutText data extended) =
     [F8 6, F8 0, F8 0, F8 0, F32 (if extended then toUint32 (- int (length data)) else int (length data))]"
| "call_fields (CFence fl p) = [F8 248, F8 0, F8 0, F8 0, F32 fl, F8 (int (length p))]"
| "call_fields (CContinuous e x y w h) = [F8 150, F8 (of_bool e), F16 x, F16 y, F16 w, F16 h]"
| "call_fields (CDesktopSize w h sid fl) =
     [F8 251, F8 0, F16 w, F16 h, F8 1, F8 0, F32 sid, F16 0, F16 0, F16 w, F16 h, F32 fl]"
| "call_fields (CXvp v c) = [F8 250, F8 0, F8 v, F8 c]"

fun call_block :: "rfb_call \<Rightarrow> bytes" where
  "call_block (CCutText data extended) = data"
| "call_block (CFence fl p) = bytes_of_str p"
| "call_block _ = []"

definition wire :: "rfb_call \<Rightarrow> bytes" where
  "wire c = fields_wire (call_fields c) @ call_block c"

lemma call_message: "call_block c = [] \<and> call c s = (Ret (), message (call_fields c) s) \<or> (\<exists>d e. c = CCutText d e) \<or> (\<exists>f p. c = CFence f p)"
  by (cases c) (simp_all add: pixelFormat_def clientEncodings_def fbUpdateRequest_def keyEvent_def
      QEMUExtendedKeyEvent_def pointerEvent_def enableContinuousUpdates_def setDesktopSize_def xvpOp_def Let_def)

lemma call_out:
  assumes "idle n s" "call_ok n c"
  shows "\<exists>s'. call c s = (Ret (), s') \<and> idle n s' \<and> outgoing s' = outgoing s @ wire c"
proof -
  consider "call_block c = []" "call c s = (Ret (), message (call_fields c) s)"
    | d e where "c = CCutText d e" | f p where "c = CFence f p"
    using call_message by blast
  then show ?thesis
  proof cases
    case 1
    then show ?thesis using call_message_out [OF assms(1), of "call_fields c"] by (simp add: wire_def)
  next
    case 2
    then show ?thesis using block_out [OF assms(1), of "call_fields c" d] assms(2)
      by (simp add: wire_def clientCutText_def Let_def)
  next
    case 3
    then show ?thesis using block_out [OF assms(1), of "call_fields c" "bytes_of_str p"] assms(2)
      by (simp add: wire_def clientFence_def sQpushString_def)
  qed
qed

lemma read_pixel_format:
  assumes "0 \<le> depth" "depth \<le> 32"
  shows "read_msg (wire (CPixelFormat depth tc) @ r) = Some (meant (CPixelFormat depth tc), r)"
proof -
  have bits: "0 \<le> depth div 3" "depth div 3 \<le> 10" using assms by auto
  then have "(2::int) ^ nat (depth div 3) \<le> 2 ^ 10" by (intro power_increasing) auto
  then have m: "js_shl 1 (nat (depth div 3)) = 2 ^ nat (depth div 3)"
    by (intro js_shl_small [of 1, simplified]) auto
  have "(1::int) \<le> 2 ^ nat (depth div 3)" by simp
  then show ?thesis
    using assms bits m \<open>(2::int) ^ nat (depth div 3) \<le> 2 ^ 10\<close>
    by (auto simp: wire_def read_msg_def Let_def get_pixel_format_def client_format_def)
qed

lemma getRFBkeycode_range: "uint16 c \<Longrightarrow> 0 \<le> getRFBkeycode c \<and> getRFBkeycode c < 2 ^ 16"
proof -
  assume "uint16 c"
  have "0 \<le> js_or (js_and c 255) 128 \<and> js_or (js_and c 255) 128 < 2 ^ 8"
    using OR_upper [of "c mod 256" 8 128] by (simp add: js_or_def toInt32_small)
  with \<open>uint16 c\<close> show ?thesis by (auto simp: getRFBkeycode_def Let_def)
qed

lemma read_wire:
  assumes "call_ok n c"
  shows "read_msg (wire c @ r) = Some (meant c, r)"
proof (cases c)
  case (CPixelFormat depth tc)
  then show ?thesis using assms read_pixel_format by simp
next
  case (CCutText data extended)
  then show ?thesis using assms by (auto simp: wire_def read_msg_def toInt32_block_length)
next
  case (CQemuKey k d kc)
  then show ?thesis using assms getRFBkeycode_range [of kc] by (simp add: wire_def read_msg_def)
qed (use assms in \<open>simp_all add: wire_def read_msg_def get_area_def get_screen_def\<close>)

lemma wire_nonempty: "wire c \<noteq> []"
  by (cases c) (simp_all add: wire_def Let_def)

lemma read_wires: "list_all (call_ok n) cs \<Longrightarrow> read_msgs (concat (map wire cs)) = Some (map meant cs)"
proof (induction cs)
  case Nil
  then show ?case by (simp add: read_msgs.simps)
next
  case (Cons c cs)
  then show ?case
    by (subst read_msgs.simps) (simp add: read_wire [of n] wire_nonempty)
qed

lemma calls_out:
  "idle n s \<Longrightarrow> list_all (call_ok n) cs \<Longrightarrow>
    \<exists>s'. calls cs s = (Ret (), s') \<and> idle n s' \<and> outgoing s' = outgoing s @ concat (map wire cs)"
proof (induction cs arbitrary: s)
  case (Cons c cs)
  then obtain t where "call c s = (Ret (), t)" "idle n t" "outgoing t = outgoing s @ wire c"
    using call_out by fastforce
  with Cons show ?case by fastforce
qed simp



end
