(* ===== verification/Rfb_Reading.thy ===== *)
theory Rfb_Reading
  imports Rfb_Viewonly Rfb_Wire
begin

text \<open>
  How the handlers of messages consume what the server has sent. The first section turns the reads of
  the handlers into operations on the bytes waiting in the receive queue; the others show what fences,
  unknown messages and empty updates do.
\<close>

section \<open>Reading the receive queue\<close>

definition inbox :: "'z rfb \<Rightarrow> bytes" where
  "inbox r = unread (sock r)"

definition sound :: "'z rfb \<Rightarrow> bool" where
  "sound r \<longleftrightarrow> wf_recv (sock r)"

lemma sock_skip [simp]: "sock (skip n r) = rQskipBytes n (sock r)"
  by (simp add: skip_def on_sock_def)

lemma inbox_skip [simp]: "inbox (skip n r) = drop n (inbox r)"
  by (simp add: inbox_def sock_simps)

lemma sound_skip [simp]: "sound r \<Longrightarrow> n \<le> length (inbox r) \<Longrightarrow> sound (skip n r)"
  by (simp add: inbox_def sound_def sock_simps)

lemma skip_skip [simp]: "skip m (skip n r) = skip (n + m) r"
  by (simp add: skip_def on_sock_def)

lemma skip_0 [simp]: "skip 0 r = r"
  by (simp add: skip_def on_sock_def)

lemma skip_fields [simp]:
  "rfbConnectionState (skip n r) = rfbConnectionState r" "events (skip n r) = events r" "feat (skip n r) = feat r"
  "sets (skip n r) = sets r" "rfbu (skip n r) = rfbu r" "flushing (skip n r) = flushing r" "disp (skip n r) = disp r"
  by (simp_all add: skip_def on_sock_def)

lemma rd_reads:
  assumes "sound r"
  shows "inbox r = b # bs \<Longrightarrow> rd rQshift8 r = (uint b, skip 1 r)"
    and "2 \<le> length (inbox r) \<Longrightarrow> rd rQshift16 r = (be_num (take 2 (inbox r)), skip 2 r)"
    and "4 \<le> length (inbox r) \<Longrightarrow> rd rQshift32 r = (be_num (take 4 (inbox r)), skip 4 r)"
    and "n \<le> length (inbox r) \<Longrightarrow> rd (rQshiftStr n) r = (str_of_bytes (take n (inbox r)), skip n r)"
    and "n \<le> length (inbox r) \<Longrightarrow> rd (rQshiftBytes n) r = (take n (inbox r), skip n r)"
  using assms by (simp_all add: rd_def inbox_def sound_def skip_def on_sock_def sock_simps)

lemma lacks_inbox: "sound r \<Longrightarrow> lacks n r \<longleftrightarrow> length (inbox r) < n"
  by (simp add: lacks_def sound_def inbox_def sock_simps)

lemma need_inbox: "sound r \<Longrightarrow> n \<le> length (inbox r) \<Longrightarrow> need n g r k = k r"
  by (simp add: need_def wait_def rQwait_def sound_def inbox_def sock_simps)

text \<open>Sending leaves the receive queue alone.\<close>

definition recv_side :: "websock \<Rightarrow> bytes \<times> nat \<times> nat \<times> nat" where
  "recv_side s = (rQ s, rQi s, rQlen s, rQbufferSize s)"

lemma recv_side_same: "recv_side s' = recv_side s \<Longrightarrow> unread s' = unread s \<and> wf_recv s' = wf_recv s"
  by (simp add: recv_side_def unread_def wf_recv_def)

lemma recv_side_sends [simp]:
  "recv_side (flush s) = recv_side s" "recv_side (sQensureSpace n s) = recv_side s"
  "recv_side (sQstore v s) = recv_side s"
  by (simp_all add: recv_side_def flush_def sQensureSpace_def sQstore_def)

lemma recv_side_push [simp]: "recv_side (push_all fs s) = recv_side s"
proof (induction fs arbitrary: s)
  case (Cons f fs)
  then show ?case by (cases f) (simp_all add: push_all_def sQpush8_def sQpush16_def sQpush32_def)
qed (simp add: push_all_def)

lemma recv_side_pushBytes: "sQpushBytes bs s = (q, s') \<Longrightarrow> recv_side s' = recv_side s"
proof -
  have "sQpushBytes_loop bs k s = Some p \<Longrightarrow> recv_side (snd p) = recv_side s" for k p
  proof (induction bs k s p rule: sQpushBytes_loop.raw_induct [rotated, consumes 1, case_names turn])
    case (turn loop bs k s p)
    have "recv_side (t\<lparr>sQ := a, sQlen := b\<rparr>) = recv_side t" for t a b by (simp add: recv_side_def)
    then show ?case using turn(2) by (auto simp: Let_def dest!: turn(1) split: if_splits)
  qed
  then show "sQpushBytes bs s = (q, s') \<Longrightarrow> recv_side s' = recv_side s"
    by (fastforce simp: sQpushBytes_def split: option.splits)
qed

lemma recv_side_call: "call c s = (q, s') \<Longrightarrow> recv_side s' = recv_side s"
proof -
  assume c: "call c s = (q, s')"
  consider "call c s = (Ret (), message (call_fields c) s)" | d e where "c = CCutText d e" | f p where "c = CFence f p"
    using call_message by blast
  then show ?thesis
  proof cases
    case 1
    then show ?thesis using c by (auto simp: message_def)
  next
    case 2
    with c show ?thesis
      by (auto simp: clientCutText_def Let_def elim!: andthen.elims dest!: recv_side_pushBytes)
  next
    case 3
    with c show ?thesis
      by (auto simp: clientFence_def sQpushString_def elim!: andthen.elims dest!: recv_side_pushBytes)
  qed
qed

section \<open>Fences\<close>

lemma fence_flags: "js_and f (js_or (js_shl 1 0) (js_shl 1 1)) = f mod 4"
proof -
  have "js_or (js_shl 1 0) (js_shl 1 1) = 3" by code_simp
  then show ?thesis by simp
qed

lemma fence_request:
  assumes "2 ^ 31 \<le> f" "f < 2 ^ 32"
  shows "js_and f (js_shl 1 31) \<noteq> 0"
proof -
  have "(f - 2 ^ 32) mod 2 ^ 32 = f" using assms by (metis minus_mod_self2 mod_pos_pos_trivial order_trans zero_le_numeral zero_le_power)
  then have "toInt32 f = toInt32 (f - 2 ^ 32)" by (metis toInt32_toUint32 toUint32_mod)
  then have "toInt32 f < 0" using assms toInt32_small [of "f - 2 ^ 32"] by simp
  moreover have "js_shl 1 31 = - 2147483648" by code_simp
  ultimately have "js_and f (js_shl 1 31) < 0" by (simp add: js_and_def toInt32_small)
  then show ?thesis by simp
qed

text \<open>Fences are echoed. A request that has arrived whole is answered with a fence that has the
  flags the client supports and the payload, and the next message is then read; but of a payload of
  more than 64 bytes only the first 64 are taken and sent back, and what is left of it is read as the
  next message.\<close>

theorem fence_echoed:
  assumes "sound r" "idle n (sock r)" "128 \<le> n" "2 ^ 31 \<le> flags" "flags < 2 ^ 32" "length pl < 256"
    "inbox r = [a, b, c] @ be32 flags @ [of_nat (length pl)] @ pl @ rest"
  shows "\<exists>r'. handleServerFenceMsg r = (Ret True, r') \<and> inbox r' = drop 64 pl @ rest \<and>
    read_msgs (drop (length (outgoing (sock r))) (outgoing (sock r'))) =
      Some [ClientFence (flags mod 4) (take 64 pl)]"
proof -
  let ?k = "min 64 (length pl)" and ?r = "on_feat (\<lambda>f. f\<lparr>supportsFence := True\<rparr>) (skip (8 + min 64 (length pl)) r)"
  let ?c = "CFence (flags mod 4) (str_of_bytes (take 64 pl))"
  have len: "uint (of_nat (length pl) :: byte) = int (length pl)"
    using assms(6) by (simp add: unsigned_of_nat take_bit_nat_eq_self)
  have sock: "sock ?r = rQskipBytes (8 + ?k) (sock r)" by (simp add: on_feat_def)
  have idle: "idle n (sock ?r)" "outgoing (sock ?r) = outgoing (sock r)"
    using assms(2) by (simp_all add: sock idle_def wf_send_def rQskipBytes_def readyState_def outgoing_def)
  have run: "handleServerFenceMsg r = sock_call (clientFence (flags mod 4) (str_of_bytes (take 64 pl))) ?r"
  proof -
    have l: "8 \<le> length (inbox r)" "length (inbox r) = 8 + length pl + length rest" using assms(7) by simp_all
    have f: "rd rQshift32 (skip 3 r) = (flags, skip 7 r)"
      using rd_reads(3) [of "skip 3 r"] assms be_num_be32 [of flags] l by simp
    have n: "rd rQshift8 (skip 7 r) = (int (length pl), skip 8 r)"
      using rd_reads(1) [of "skip 7 r"] assms l len by (simp add: be32_def)
    have p: "rd (rQshiftStr ?k) (skip 8 r) = (str_of_bytes (take 64 pl), skip (8 + ?k) r)"
      using rd_reads(4) [of "skip 8 r" ?k] assms l by (simp add: be32_def min_def)
    have w: "need 8 (Suc 0) r k = k r" "need (length pl) 9 (skip 8 r) k = k (skip 8 r)" for k
      using need_inbox [of r 8 "Suc 0" k] need_inbox [of "skip 8 r" "length pl" 9 k] assms(1) l by simp_all
    have "nat (if 64 < int (length pl) then 64 else int (length pl)) = ?k" by auto
    then show ?thesis
      using fence_request [OF assms(4, 5)]
      by (simp add: handleServerFenceMsg_def w f n p Let_def fence_flags [unfolded One_nat_def])
  qed
  have "drop 8 (inbox r) = pl @ rest" using assms(7) by (simp add: be32_def)
  then have rest: "drop (8 + ?k) (inbox r) = drop 64 pl @ rest"
    using drop_drop [of ?k 8 "inbox r"] by (cases "64 \<le> length pl") (simp_all add: add.commute)
  have ok: "call_ok n ?c" using assms(3) by auto
  obtain s' where s': "call ?c (sock ?r) = (Ret (), s')" "idle n s'" "outgoing s' = outgoing (sock r) @ wire ?c"
    using call_out [OF idle(1) ok] idle(2) by auto
  have "unread s' = unread (sock ?r)" using recv_side_same [OF recv_side_call [OF s'(1)]] by simp
  then have "inbox (?r\<lparr>sock := s'\<rparr>) = drop 64 pl @ rest"
    using rest by (simp add: inbox_def sock sock_simps)
  moreover have "read_msgs (wire ?c) = Some [meant ?c]" using read_wires [of n "[?c]"] ok by simp
  ultimately show ?thesis
    using s' by (auto simp: run sock_call_def)
qed

text \<open>A socket with given bytes waiting and an empty send buffer of 128 bytes.\<close>

definition sock_with :: "bytes \<Rightarrow> websock" where
  "sock_with bs = \<lparr>websocket = Some ChOpen, attached = True, rQ = bs, rQi = 0, rQlen = length bs,
     rQbufferSize = length bs, sQ = u8_new 128, sQlen = 0, sQbufferSize = 128, sent = []\<rparr>"

definition demo_receives :: "bytes \<Rightarrow> unit rfb" where
  "demo_receives bs = demo_live\<lparr>sock := sock_with bs\<rparr>"

lemma sock_with_facts [simp]:
  "length bs \<le> MAX_RQ_GROW_SIZE \<Longrightarrow> wf_recv (sock_with bs)" "unread (sock_with bs) = bs" "idle 128 (sock_with bs)"
  "outgoing (sock_with bs) = []"
  by (simp_all add: sock_with_def wf_recv_def unread_def slice_def idle_def wf_send_def readyState_def outgoing_def)

lemma demo_receives_facts [simp]:
  "sock (demo_receives bs) = sock_with bs" "inbox (demo_receives bs) = bs"
  "length bs \<le> MAX_RQ_GROW_SIZE \<Longrightarrow> sound (demo_receives bs)"
  "rfbConnectionState (demo_receives bs) = Connected" "events (demo_receives bs) = []"
  "flushing (demo_receives bs) = False" "rects (rfbu (demo_receives bs)) = 0"
  "enabledContinuousUpdates (feat (demo_receives bs)) = False" "page (demo_receives bs) = new_page"
  by (simp_all add: demo_receives_def inbox_def sound_def demo_live_def blank_rfb_def new_features_def)

section \<open>After a failure\<close>

text \<open>What a failure leaves of the state that the message loop looks at.\<close>

definition loop_state :: "'z rfb \<Rightarrow> rfb_event list \<times> fbu \<times> bool \<times> bool" where
  "loop_state r = (events r, rfbu r, flushing r, rfbCleanDisconnect r)"

lemma loop_state_updates [simp]:
  "loop_state (on_sock f1 r) = loop_state r" "loop_state (on_page f2 r) = loop_state r"
  "loop_state (on_feat f3 r) = loop_state r" "loop_state (r\<lparr>kbd := k\<rparr>) = loop_state r"
  "loop_state (setTimeout t r) = loop_state r" "loop_state (clearTimeout t r) = loop_state r"
  by (simp_all add: loop_state_def on_sock_def on_page_def on_feat_def setTimeout_def clearTimeout_def)

lemma loop_state_keys [simp]:
  "loop_state (sendKey_once k c d r) = loop_state r" "loop_state (sendKey k c b r) = loop_state r"
  "loop_state (handleKeyEvent k c d nl cl r) = loop_state r"
proof -
  show once: "loop_state (sendKey_once k c d r) = loop_state r" for k c d and r :: "'a rfb"
    by (simp add: sendKey_once_def Let_def)
  show key: "loop_state (sendKey k c b r) = loop_state r" for k c b and r :: "'a rfb"
    by (simp add: sendKey_def once split: option.split)
  show "loop_state (handleKeyEvent k c d nl cl r) = loop_state r"
    by (simp add: handleKeyEvent_def press_lock_def Let_def key)
qed

lemma loop_state_key_calls: "loop_state (fold key_call cs r) = loop_state r"
  by (induction cs arbitrary: r) (simp_all add: key_call_def)

lemma loop_state_on_kbd [simp]: "loop_state (on_kbd f r) = loop_state r"
  by (simp add: on_kbd_def Let_def loop_state_key_calls)

lemma loop_state_disconnect_page [simp]: "loop_state (disconnect_page r) = loop_state r"
  by (simp add: disconnect_page_def Let_def)

lemma recv_side_close [simp]: "recv_side (close_sock s) = recv_side s"
  by (simp add: close_sock_def recv_side_def Let_def split: option.split)

lemma recv_side_disconnect_page:
  assumes "rfbConnectionState r \<noteq> Connected"
  shows "recv_side (sock (disconnect_page r)) = recv_side (sock r)"
proof -
  let ?p = "on_page (\<lambda>p. p\<lparr>cursorAttached := False, canvasListeners := False, resizeObserved := False\<rparr>) r"
  have "muted ?p" using assms by (simp add: muted_def on_page_def)
  from gate_on_kbd [OF this, of ungrab] have "sock (on_kbd ungrab ?p) = sock r" by (simp add: gate_def on_page_def)
  then show ?thesis by (simp add: disconnect_page_def Let_def on_page_def clearTimeout_def on_sock_def)
qed

lemma leave_to_Disconnecting_recv:
  "recv_side (sock (leave_to Disconnecting r)) = recv_side (sock r)"
  using recv_side_disconnect_page [of "r\<lparr>rfbConnectionState := Disconnecting\<rparr>"]
  by (simp add: leave_to_def setTimeout_def on_page_def)

lemma leave_to_Disconnected_recv: "sock (leave_to Disconnected r) = sock r"
  by (simp add: leave_to_def clear_disconnect_def dispatch_def clearTimeout_def on_page_def)

lemma fail_ends:
  assumes "rfbConnectionState r = Connecting \<or> rfbConnectionState r = Connected"
  shows "rfbConnectionState (snd (fail r)) = Disconnected"
    and "loop_state (snd (fail r)) = (events r @ [EvDisconnect False], rfbu r, flushing r, False)"
    and "inbox (snd (fail r)) = inbox r" and "sound (snd (fail r)) = sound r"
proof -
  let ?r = "r\<lparr>rfbCleanDisconnect := False\<rparr>"
  let ?d = "leave_to Disconnecting ?r"
  have d: "rfbConnectionState ?d = Disconnecting"
    using leave_to_Disconnecting [of ?r] assms by (simp add: core_def)
  then have "rfbConnectionState (leave_to Disconnected ?d) = Disconnected"
    using leave_to_Disconnected [of ?d] by (simp add: core_def)
  then show "rfbConnectionState (snd (fail r)) = Disconnected" by (simp add: fail_def Let_def)
  have ls: "loop_state ?d = (events r, rfbu r, flushing r, False)"
    using assms loop_state_disconnect_page [of "?r\<lparr>rfbConnectionState := Disconnecting\<rparr>"]
    by (auto simp: leave_to_def setTimeout_def on_page_def loop_state_def)
  show "loop_state (snd (fail r)) = (events r @ [EvDisconnect False], rfbu r, flushing r, False)"
    using ls d by (simp add: fail_def Let_def leave_to_def [of Disconnected] clear_disconnect_def dispatch_def
        clearTimeout_def on_page_def loop_state_def)
  have "recv_side (sock (leave_to Disconnected ?d)) = recv_side (sock r)"
    using leave_to_Disconnected_recv [of ?d] leave_to_Disconnecting_recv [of ?r] by simp
  then show "inbox (snd (fail r)) = inbox r" "sound (snd (fail r)) = sound r"
    using recv_side_same [of "sock (leave_to Disconnected ?d)" "sock r"]
    by (simp_all add: fail_def Let_def inbox_def sound_def)
qed

text \<open>The byte numbers of the messages a server may send.\<close>

definition server_types :: "int set" where
  "server_types = {0, 1, 2, 3, 150, 248, 250}"

lemma normalMsg_unknown:
  assumes "sound r" "rects (rfbu r) = 0" "inbox r = t # bs" "uint t \<notin> server_types"
  shows "normalMsg W r = (Ret True, snd (fail (skip 1 r)))"
  using assms rd_reads(1) [of r t bs] by (simp add: normalMsg_def server_types_def Let_def)

lemma normalMsg_bell:
  assumes "sound r" "rects (rfbu r) = 0" "inbox r = 2 # bs"
  shows "normalMsg W r = (Ret True, dispatch EvBell (skip 1 r))"
  using assms rd_reads(1) [of r 2 bs] by (simp add: normalMsg_def Let_def)

text \<open>The message loop goes on after a failure. A message of an unknown type ends the connection, but
  its handler reports success, so the loop reads on: here a bell that follows is announced to the
  application after the disconnect event.\<close>

theorem messages_after_failure:
  assumes "sound r" "rfbConnectionState r = Connected" "rects (rfbu r) = 0" "\<not> flushing r"
    "inbox r = [t, 2]" "uint t \<notin> server_types"
  shows "\<exists>r'. normal_loop W r = Some (Ret (), r') \<and> rfbConnectionState r' = Disconnected \<and>
    events r' = events r @ [EvDisconnect False, EvBell]"
proof -
  define f where "f = snd (fail (skip 1 r))"
  have f: "rfbConnectionState f = Disconnected" "inbox f = [2]" "sound f" "rects (rfbu f) = 0" "\<not> flushing f"
    "events f = events r @ [EvDisconnect False]"
    using fail_ends [of "skip 1 r"] assms by (simp_all add: f_def loop_state_def)
  let ?b = "dispatch EvBell (skip 1 f)"
  have b: "normalMsg W f = (Ret True, ?b)" "lacks 1 ?b" "events ?b = events f @ [EvBell]"
    using normalMsg_bell [of f "[]"] f lacks_inbox [of "skip 1 f" 1]
    by (simp_all add: dispatch_def lacks_def)
  have "\<not> lacks 1 f" using lacks_inbox [of f 1] f by simp
  moreover have "normalMsg W r = (Ret True, f)"
    using normalMsg_unknown [of r t "[2]" W] assms by (simp add: f_def)
  ultimately have "normal_loop W r = normal_loop W f"
    using assms(4) by (subst normal_loop.simps) simp
  also have "\<dots> = Some (Ret (), ?b)" using b f(5) by (subst normal_loop.simps) simp
  finally show ?thesis using b(3) f(1, 6) by (simp add: dispatch_def)
qed

section \<open>Updates without rectangles\<close>

text \<open>An update without rectangles that meets a display still busy is not answered. The number of
  rectangles is stored and the loop stops until the display has caught up; but then, with no rectangle
  outstanding, the update counts as not begun, so that the request for the next one is never sent. On a
  display that is not busy the same update is answered.\<close>

theorem empty_update_unanswered:
  assumes "sound r" "idle n (sock r)" "rects (rfbu r) = 0" "\<not> flushing r" "inbox r = [0, a, 0, 0]"
    "\<not> enabledContinuousUpdates (feat r)" "uint16 (fbW r)" "uint16 (fbH r)"
  shows "\<exists>r'. normal_loop W r = Some (Ret (), r') \<and>
    (if pending (disp r)
     then flushing r' \<and> rects (rfbu r') = 0 \<and> outgoing (sock r') = outgoing (sock r) \<and> sock (snd (flushed W r')) = sock r'
     else read_msgs (drop (length (outgoing (sock r))) (outgoing (sock r'))) =
            Some [FramebufferUpdateRequest True 0 0 (fbW r) (fbH r)])"
proof -
  define r1 where "r1 = on_fbu (\<lambda>u. u\<lparr>rects := 0\<rparr>) (skip 4 r)"
  have r1: "sock r1 = rQskipBytes 4 (sock r)" "disp r1 = disp r" "rects (rfbu r1) = 0" "feat r1 = feat r"
      "fbW r1 = fbW r" "fbH r1 = fbH r" "sound r1" "inbox r1 = []"
    using assms by (simp_all add: r1_def on_fbu_def sound_def inbox_def sock_simps)
      (simp_all add: skip_def on_sock_def)
  have fb: "framebufferUpdate W (skip 1 r) =
      (if pending (disp r) then (Ret False, (on_disp (snd \<circ> disp_flush) r1)\<lparr>flushing := True\<rparr>)
       else (Ret True, on_disp disp_flip r1))"
  proof -
    have "rd rQshift16 (skip (Suc (Suc 0)) r) = (0, skip 4 r)"
      using rd_reads(2) [of "skip 2 r"] assms(1, 5) by (simp flip: numeral_2_eq_2)
    moreover have "need 3 (Suc 0) (skip (Suc 0) r) k = k (skip (Suc 0) r)" for k
      using need_inbox [of "skip (Suc 0) r" 3] assms(1, 5) by simp
    ultimately show ?thesis
      using assms(3) r1(2, 3) by (simp add: framebufferUpdate_def Let_def flip: r1_def)
  qed
  have type: "rd rQshift8 r = (0, skip 1 r)" using rd_reads(1) [OF assms(1, 5)] by simp
  show ?thesis
  proof (cases "pending (disp r)")
    case True
    let ?r = "(on_disp (snd \<circ> disp_flush) r1)\<lparr>flushing := True\<rparr>"
    have "normalMsg W r = (Ret False, ?r)" using True assms(3) by (simp add: normalMsg_def type fb [unfolded One_nat_def])
    then have "normal_loop W r = Some (Ret (), ?r)" using assms(4) by (subst normal_loop.simps) simp
    moreover have "outgoing (sock ?r) = outgoing (sock r)"
      by (simp add: on_disp_def r1 outgoing_def rQskipBytes_def)
    moreover have "sock (snd (flushed W ?r)) = sock ?r"
      using lacks_inbox [of r1 1] r1 by (simp add: flushed_def Let_def on_disp_def lacks_def)
    ultimately show ?thesis using True r1 by (simp add: on_disp_def)
  next
    case False
    let ?f = "on_disp disp_flip r1" and ?c = "CUpdateRequest True 0 0 (fbW r) (fbH r)"
    let ?r = "on_sock (fbUpdateRequest True 0 0 (fbW r) (fbH r)) ?f"
    have idle: "idle n (sock ?f)" "outgoing (sock ?f) = outgoing (sock r)"
      using assms(2) by (simp_all add: r1 on_disp_def idle_def wf_send_def rQskipBytes_def readyState_def outgoing_def)
    have out: "outgoing (sock ?r) = outgoing (sock r) @ wire ?c"
      using call_out [OF idle(1), of ?c] assms(7, 8) idle(2) by (simp add: on_sock_def)
    have "recv_side (sock ?r) = recv_side (sock ?f)"
      using recv_side_call [of ?c "sock ?f"] by (simp add: on_sock_def)
    then have "lacks 1 ?r"
      using lacks_inbox [of r1 1] r1 by (simp add: lacks_def rQlacks_def recv_side_def on_disp_def)
    moreover have "normalMsg W r = (Ret True, ?r)"
      using False assms(3, 6) r1 by (simp add: normalMsg_def type fb [unfolded One_nat_def] on_disp_def)
    ultimately have "normal_loop W r = Some (Ret (), ?r)" using assms(4) by (subst normal_loop.simps) simp
    moreover have "read_msgs (wire ?c) = Some [meant ?c]" using read_wires [of n "[?c]"] assms(7, 8) by simp
    ultimately show ?thesis using False out by simp
  qed
qed

definition demo_busy :: "unit rfb" where
  "demo_busy = on_disp (\<lambda>d. d\<lparr>renderQ := [AFlip]\<rparr>) (demo_receives [0, 0, 0, 0])"

lemma demo_busy_facts:
  "pending (disp demo_busy)" "sound demo_busy" "inbox demo_busy = [0, 0, 0, 0]" "idle 128 (sock demo_busy)"
  "rects (rfbu demo_busy) = 0" "\<not> flushing demo_busy" "\<not> enabledContinuousUpdates (feat demo_busy)"
  "fbW demo_busy = 0" "fbH demo_busy = 0" "outgoing (sock demo_busy) = []"
  by (simp_all add: demo_busy_def on_disp_def pending_def sound_def inbox_def MAX_RQ_GROW_SIZE_def)
    (simp_all add: demo_receives_def demo_live_def blank_rfb_def)

end
