(* ===== verification/Rfb_Progress.thy ===== *)
theory Rfb_Progress
  imports Rfb_Reading
begin

text \<open>
  The handshake always comes to an end. Every turn of the loop over the handshake states that goes on
  either brings the handshake nearer to its end or has read from the queue; and on an open channel no
  step waits for the send buffer for ever.
\<close>

section \<open>Distance to the end of the handshake\<close>

definition scheme_rank :: "int \<Rightarrow> nat" where
  "scheme_rank a = (if a = securityTypeVeNCrypt then 2 else if a = securityTypeTight then 1 else 0)"

fun state_rank :: "init_state \<Rightarrow> int \<Rightarrow> nat" where
  "state_rank ProtocolVersion a = 7"
| "state_rank Security a = 6"
| "state_rank Authentication a = 3 + scheme_rank a"
| "state_rank SecurityResult a = 2"
| "state_rank ClientInitialisation a = 1"
| "state_rank _ a = 0"

definition init_rank :: "'z rfb \<Rightarrow> nat" where
  "init_rank r = state_rank (rfbInitState r) (rfbAuthScheme (hs r))"

definition left_to_read :: "'z rfb \<Rightarrow> nat" where
  "left_to_read r = rQlen (sock r) - rQi (sock r)"

definition advances :: "'z rfb \<Rightarrow> 'z rfb \<Rightarrow> bool" where
  "advances r r' \<longleftrightarrow> rfbConnectionState r' = Connecting \<longrightarrow>
     init_rank r' < init_rank r \<or> init_rank r' = init_rank r \<and> left_to_read r' < left_to_read r"

lemma scheme_rank_le: "scheme_rank a \<le> 2"
  by (simp add: scheme_rank_def)

text \<open>The steps that end by setting a state.\<close>

lemma fail_not_True [simp]: "fail r \<noteq> (Ret True, r')"
  by (simp add: fail_def Let_def)

lemma ask_not_True [simp]: "ask types r \<noteq> (Ret True, r')"
  by (simp add: ask_def)

lemma need_TrueE:
  assumes "need n g r k = (Ret True, r')"
  obtains s where "k (r\<lparr>sock := s\<rparr>) = (Ret True, r')"
  using assms by (auto simp: need_def wait_def elim!: andthen_RetE split: prod.splits if_splits)

lemma rd_sock:
  assumes "rd f r = (v, r1)"
  obtains s where "r1 = r\<lparr>sock := s\<rparr>"
  using assms by (auto simp: rd_def split: prod.splits)

lemmas init_steps = Let_def set_init_def security_reason_def on_hs_def set_scheme_def

lemma security_next:
  "negotiateSecurity r = (Ret True, r') \<Longrightarrow> rfbInitState r' = SecurityReason \<or> rfbInitState r' = Authentication"
  by (auto simp: negotiateSecurity_def init_steps elim!: need_TrueE split: prod.splits if_splits)

lemma reason_next: "handleSecurityReason r \<noteq> (Ret True, r')"
  by (auto simp: handleSecurityReason_def Let_def elim!: need_TrueE split: prod.splits if_splits)

lemma result_next:
  "handleSecurityResult r = (Ret True, r') \<Longrightarrow>
    rfbInitState r' = ClientInitialisation \<or> rfbInitState r' = SecurityReason"
  by (auto simp: handleSecurityResult_def init_steps split: prod.splits if_splits)

lemma std_next: "negotiateStdVNCAuth r = (Ret True, r') \<Longrightarrow> rfbInitState r' = SecurityResult"
  by (auto simp: negotiateStdVNCAuth_def init_steps elim!: andthen_RetE split: prod.splits if_splits option.splits)

lemma xvp_next: "negotiateXvpAuth r = (Ret True, r') \<Longrightarrow> rfbInitState r' = SecurityResult"
  by (auto simp: negotiateXvpAuth_def elim!: andthen_RetE dest!: std_next split: option.splits)

lemma login_next: "send_login u p r = (Ret True, r') \<Longrightarrow> rfbInitState r' = SecurityResult"
  by (auto simp: send_login_def set_init_def elim!: andthen_RetE)

lemma plain_next:
  "negotiatePlainAuth r = (Ret True, r') \<Longrightarrow> rfbInitState r' = SecurityResult"
  "negotiateTightUnixAuth r = (Ret True, r') \<Longrightarrow> rfbInitState r' = SecurityResult"
  by (auto simp: negotiatePlainAuth_def negotiateTightUnixAuth_def elim!: andthen_RetE dest!: login_next split: option.splits)

lemma ard_next: "negotiateARDAuth W r = (Ret True, r') \<Longrightarrow> rfbInitState r' = SecurityResult"
  by (auto simp: negotiateARDAuth_def init_steps elim!: andthen_RetE need_TrueE
      split: option.splits prod.splits if_splits)

lemma mslogon_next: "negotiateMSLogonIIAuth W r = (Ret True, r') \<Longrightarrow> rfbInitState r' = SecurityResult"
  by (auto simp: negotiateMSLogonIIAuth_def send_mslogon_def init_steps elim!: andthen_RetE
      split: option.splits prod.splits if_splits)

text \<open>The steps that may stay in the state of authentication change the scheme.\<close>

lemma init_state_updates [simp]:
  "rfbInitState (on_sock f r) = rfbInitState r" "rfbInitState (on_hs g r) = rfbInitState r"
  "rfbInitState (skip n r) = rfbInitState r" "rfbInitState (push fs r) = rfbInitState r"
  "rfbInitState (flush_rfb r) = rfbInitState r" "rfbInitState (set_scheme a r) = rfbInitState r"
  "rfbInitState (vencrypt_state n r) = rfbInitState r"
  by (simp_all add: on_sock_def on_hs_def skip_def push_def flush_rfb_def set_scheme_def vencrypt_state_def)

lemma scheme_updates [simp]:
  "hs (on_sock f r) = hs r" "hs (push fs r) = hs r" "hs (flush_rfb r) = hs r"
  "rfbAuthScheme (hs (set_scheme a r)) = a" "rfbAuthScheme (hs (vencrypt_state n r)) = rfbAuthScheme (hs r)"
  by (simp_all add: on_sock_def on_hs_def push_def flush_rfb_def set_scheme_def vencrypt_state_def)

lemma rd_init_state: "rd f r = (v, r1) \<Longrightarrow> rfbInitState r1 = rfbInitState r"
  by (auto simp: rd_def split: prod.splits)

lemma readers_init_state:
  "read_types n r = (ts, r1) \<Longrightarrow> rfbInitState r1 = rfbInitState r"
  "read_caps n r = (cs, r1) \<Longrightarrow> rfbInitState r1 = rfbInitState r"
  by (induction n arbitrary: r ts cs r1) (auto dest!: rd_init_state split: prod.splits)

lemma pick_type_found: "pick_type P ts \<noteq> - 1 \<Longrightarrow> P (pick_type P ts)"
proof (cases "find P ts")
  case (Some t)
  then have "P t" by (auto simp: find_Some_iff)
  then show ?thesis using Some by (simp add: pick_type_def)
qed (simp add: pick_type_def)

definition new_scheme :: "int \<Rightarrow> 'z rfb \<Rightarrow> 'z rfb \<Rightarrow> bool" where
  "new_scheme a r r' \<longleftrightarrow> rfbInitState r' = rfbInitState r \<and> rfbAuthScheme (hs r') \<noteq> a"

lemma subtypes_next:
  "vencrypt_subtypes r = (Ret True, r') \<Longrightarrow> new_scheme securityTypeVeNCrypt r r'"
  by (auto simp: vencrypt_subtypes_def new_scheme_def Let_def dest!: readers_init_state pick_type_found
      split: prod.splits if_splits)

lemma length_next: "vencrypt_length r = (Ret True, r') \<Longrightarrow> new_scheme securityTypeVeNCrypt r r'"
  by (auto simp: vencrypt_length_def Let_def new_scheme_def dest!: rd_init_state subtypes_next
      split: prod.splits if_splits)

lemma ack_next: "vencrypt_ack r = (Ret True, r') \<Longrightarrow> new_scheme securityTypeVeNCrypt r r'"
  by (auto simp: vencrypt_ack_def Let_def new_scheme_def dest!: rd_init_state length_next
      split: prod.splits if_splits)

lemma vencrypt_next: "negotiateVeNCryptAuth r = (Ret True, r') \<Longrightarrow> new_scheme securityTypeVeNCrypt r r'"
  by (auto simp: negotiateVeNCryptAuth_def Let_def new_scheme_def dest!: rd_init_state ack_next
      split: prod.splits if_splits)

lemma subauth_next:
  "tight_subauth r = (Ret True, r') \<Longrightarrow>
    rfbInitState r' = SecurityResult \<or>
    rfbInitState r' = rfbInitState r \<and> rfbAuthScheme (hs r') \<in> {securityTypeVNCAuth, securityTypeUnixLogon}"
  by (auto simp: tight_subauth_def set_init_def Let_def elim!: need_TrueE dest!: rd_init_state readers_init_state
      split: prod.splits if_splits)

lemma tight_next:
  "negotiateTightAuth r = (Ret True, r') \<Longrightarrow>
    rfbInitState r' = SecurityResult \<or>
    rfbInitState r' = rfbInitState r \<and> rfbAuthScheme (hs r') \<in> {securityTypeVNCAuth, securityTypeUnixLogon}"
  by (auto simp: negotiateTightAuth_def wait_def Let_def elim!: andthen_RetE dest!: rd_init_state subauth_next
      split: prod.splits if_splits)

lemma authentication_next:
  assumes "negotiateAuthentication W r = (Ret True, r')" "rfbInitState r = Authentication"
  shows "init_rank r' < init_rank r"
proof -
  let ?a = "rfbAuthScheme (hs r)"
  consider (result) "rfbInitState r' = SecurityResult \<or> rfbInitState r' = ClientInitialisation"
    | (ve) "?a = securityTypeVeNCrypt" "new_scheme securityTypeVeNCrypt r r'"
    | (tight) "?a = securityTypeTight" "rfbInitState r' = rfbInitState r"
        "rfbAuthScheme (hs r') \<in> {securityTypeVNCAuth, securityTypeUnixLogon}"
    using assms(1)
    by (auto simp: negotiateAuthentication_def negotiateRA2neAuth_def set_init_def Let_def
        dest: xvp_next ard_next std_next tight_next vencrypt_next plain_next mslogon_next split: if_splits)
  then show ?thesis
    using assms(2)
    by cases (auto simp: init_rank_def new_scheme_def scheme_rank_def security_types)
qed

lemma rQshiftStr_skips: "snd (rQshiftStr n s) = rQskipBytes n s"
proof (induction n s rule: rQshiftStr.induct)
  case (1 n s)
  obtain part s1 where p: "rQshiftBytes (min 4096 n) s = (part, s1)" by (cases "rQshiftBytes (min 4096 n) s")
  then have s1: "s1 = rQskipBytes (min 4096 n) s" by (auto simp: rQshiftBytes_def rQskipBytes_def Let_def)
  show ?case
  proof (cases "0 < n")
    case True
    then have "snd (rQshiftStr (n - 4096) s1) = rQskipBytes (n - 4096) s1" using 1 [OF True p [symmetric] refl] by simp
    then show ?thesis using True p s1 by (subst rQshiftStr.simps) (simp add: split_beta rQskipBytes_def min_def)
  qed (simp add: rQshiftStr.simps)
qed

lemma version_next:
  assumes "negotiateProtocolVersion r = (Ret True, r')"
  shows "rfbInitState r' = rfbInitState r \<and> hs r' = hs r \<and> left_to_read r' < left_to_read r"
proof -
  obtain str where r1: "rd (rQshiftStr 12) r = (str, r\<lparr>sock := rQskipBytes 12 (sock r)\<rparr>)"
    using rQshiftStr_skips [of 12 "sock r"] by (cases "rQshiftStr 12 (sock r)") (simp add: rd_def)
  let ?s = "rQskipBytes 12 (sock r)"
  have "\<not> lacks 12 r" using assms by (auto simp: negotiateProtocolVersion_def split: if_splits)
  moreover obtain ident s' where "sQpushString ident ?s = (Ret (), s')" "r' = r\<lparr>sock := flush s'\<rparr>"
    using assms r1 \<open>\<not> lacks 12 r\<close>
    by (auto simp: negotiateProtocolVersion_def pushString_def flush_rfb_def on_sock_def set_init_def Let_def
        elim!: andthen_RetE split: if_splits option.splits prod.splits)
  moreover from this(1) have "recv_side s' = recv_side ?s"
    unfolding sQpushString_def by (rule recv_side_pushBytes)
  ultimately show ?thesis
    by (auto simp: left_to_read_def recv_side_def rQskipBytes_def lacks_def rQlacks_def flush_def)
qed

lemma start_session_next:
  assumes "start_session W w h nm r = (q, r')" "rfbConnectionState r = Connecting"
  shows "rfbConnectionState r' = Connected"
proof -
  define r1 where "r1 = resize W w h (setDesktopName nm r)"
  define r2 where "r2 = (if \<not> viewOnly (sets r1) then on_kbd grab r1 else r1)"
  define r3 where "r3 = r2\<lparr>fbDepth := (if fbName r2 = lit ''Intel(r) AMT KVM'' then 8 else 24)\<rparr>"
  have "core r1 = core r"
    unfolding r1_def using same.keep_resize [OF same.keep_names(1) [OF refl]] .
  then have "core r2 = core r" using same.keep_on_kbd [of r1 "core r"] by (simp add: r2_def)
  then have "core r3 = core r" by (simp add: r3_def core_fields)
  define r4 where "r4 = sendEncodings (on_sock (pixelFormat (fbDepth r3) True) r3)"
  define r5 where "r5 = on_sock (fbUpdateRequest False 0 0 (fbW r4) (fbH r4)) r4"
  have "core r5 = core r" using \<open>core r3 = core r\<close> by (simp add: r5_def r4_def sendEncodings_def core_fields)
  then have "rfbConnectionState r5 = Connecting" using assms(2) by (simp add: core_def)
  moreover have "r' = leave_to Connected r5"
    using assms(1) unfolding start_session_def Let_def
    by (simp only: prod.inject r5_def r4_def r3_def r2_def r1_def)
  ultimately show ?thesis using leave_to_Connected [of r5] by (simp add: core_def)
qed

lemma server_init_next:
  assumes "negotiateServerInit W r = (Ret True, r')" "rfbConnectionState r = Connecting"
  shows "rfbConnectionState r' = Connected"
  using assms
  by (auto simp: negotiateServerInit_def tight_server_init_def Let_def skip_def on_sock_def
      elim!: need_TrueE rd_sock start_session_next split: prod.splits if_splits)

lemma initMsg_advances:
  assumes "initMsg W r = (Ret True, r')" "rfbConnectionState r = Connecting"
  shows "advances r r'"
proof (cases "rfbInitState r")
  case ProtocolVersion
  then show ?thesis using assms(1) version_next [of r r'] by (simp add: initMsg_def advances_def init_rank_def)
next
  case Security
  then show ?thesis
    using assms(1) security_next [of r r'] scheme_rank_le [of "rfbAuthScheme (hs r')"]
    by (auto simp: initMsg_def advances_def init_rank_def)
next
  case Authentication
  then show ?thesis using assms(1) authentication_next [of W r r'] by (simp add: initMsg_def advances_def)
next
  case SecurityResult
  then show ?thesis using assms(1) result_next [of r r'] by (auto simp: initMsg_def advances_def init_rank_def)
next
  case SecurityReason
  then show ?thesis using assms(1) by (simp add: initMsg_def reason_next)
next
  case ClientInitialisation
  then show ?thesis using assms(1) by (auto simp: initMsg_def advances_def init_rank_def set_init_def)
next
  case ServerInitialisation
  then show ?thesis using assms server_init_next [of W r r'] by (simp add: initMsg_def advances_def)
qed (use assms in \<open>simp add: initMsg_def\<close>)

section \<open>No step waits for ever\<close>

definition live :: "'z rfb \<Rightarrow> bool" where
  "live r \<longleftrightarrow> wf_send (sock r)"

text \<open>A step that returns, and leaves the channel open if the handshake goes on.\<close>

definition fine :: "bool outcome \<times> 'z rfb \<Rightarrow> bool" where
  "fine p \<longleftrightarrow> fst p \<noteq> Hang \<and> (fst p = Ret True \<longrightarrow> live (snd p))"

lemma live_updates:
  "live r \<Longrightarrow> live (on_hs f r)" "live r \<Longrightarrow> live (set_init st r)" "live r \<Longrightarrow> live (set_scheme a r)"
  "live r \<Longrightarrow> live (vencrypt_state n r)" "live r \<Longrightarrow> live (security_reason c v r)" "live r \<Longrightarrow> live (dispatch ev r)"
  "live r \<Longrightarrow> live (r\<lparr>fbDepth := d\<rparr>)"
  by (simp_all add: live_def on_hs_def set_init_def set_scheme_def vencrypt_state_def security_reason_def dispatch_def)

lemma wf_send_recv: "wf_send (s\<lparr>rQi := i\<rparr>) = wf_send s" "wf_send (rQskipBytes n s) = wf_send s"
  by (simp_all add: wf_send_def readyState_def rQskipBytes_def)

lemma live_sends:
  "live r \<Longrightarrow> live (push fs r)" "live r \<Longrightarrow> live (flush_rfb r)" "live r \<Longrightarrow> live (skip n r)"
  "live r \<Longrightarrow> live (on_sock (message fs) r)"
  using push_out [of "sock r"] wf_flush by (auto simp: live_def push_def flush_rfb_def skip_def on_sock_def message_def wf_send_recv)

lemma rQshift_loop_send: "wf_send s \<Longrightarrow> wf_send (snd (rQshift_loop n acc s))"
  by (induction n acc s rule: rQshift_loop.induct) (simp_all add: wf_send_recv)

lemma live_rd:
  assumes "live r"
  shows "live (snd (rd rQshift8 r))" "live (snd (rd rQshift16 r))" "live (snd (rd rQshift32 r))"
    "live (snd (rd (rQshiftBytes n) r))" "live (snd (rd (rQshiftStr n) r))"
proof -
  have shift: "wf_send (snd (rQshift k (sock r)))" for k
    using rQshift_loop_send [of "sock r" k 0] assms by (simp add: rQshift_def live_def split_beta)
  then show "live (snd (rd rQshift8 r))" "live (snd (rd rQshift16 r))" "live (snd (rd rQshift32 r))"
    by (simp_all add: rd_def live_def rQshift8_def rQshift16_def rQshift32_def split_beta)
  show "live (snd (rd (rQshiftBytes n) r))"
    using assms by (simp add: rd_def live_def rQshiftBytes_def wf_send_recv Let_def)
  show "live (snd (rd (rQshiftStr n) r))"
    using assms rQshiftStr_skips [of n "sock r"] by (simp add: rd_def live_def wf_send_recv split_beta)
qed

lemma live_readers:
  "live r \<Longrightarrow> live (snd (read_types n r))" "live r \<Longrightarrow> live (snd (read_caps n r))"
  "live r \<Longrightarrow> live (snd (read_tunnels n r m))"
  by (induction n arbitrary: r m) (simp_all add: live_rd split_beta)

lemma fine_forms:
  "(b \<Longrightarrow> fine p) \<Longrightarrow> (\<not> b \<Longrightarrow> fine q) \<Longrightarrow> fine (if b then p else q)"
  "live r \<Longrightarrow> fine (Ret b, r)" "fine (Ret False, r)" "fine (Throw e, r)" "fine (fail r)" "fine (ask ts r)"
  by (simp_all add: fine_def fail_def ask_def Let_def)

lemma fine_lets:
  "live x \<Longrightarrow> (\<And>r. live r \<Longrightarrow> fine (h r)) \<Longrightarrow> fine (let r = x in h r)"
  "live (snd p) \<Longrightarrow> (\<And>v r. live r \<Longrightarrow> fine (k v r)) \<Longrightarrow> fine (let (v, r) = p in k v r)"
  "(\<And>v. fine (g v)) \<Longrightarrow> fine (let v = y in g v)"
  by (simp_all split: prod.split) (metis snd_conv)

lemma fine_case:
  "(x = None \<Longrightarrow> fine p) \<Longrightarrow> (\<And>v. x = Some v \<Longrightarrow> fine (q v)) \<Longrightarrow> fine (case x of None \<Rightarrow> p | Some v \<Rightarrow> q v)"
  "(\<And>u v. y = (u, v) \<Longrightarrow> fine (q2 u v)) \<Longrightarrow> fine (case y of (u, v) \<Rightarrow> q2 u v)"
  by (simp_all split: option.split prod.split)

lemma fine_pushes:
  assumes "live r" "\<And>u r. live r \<Longrightarrow> fine (k u r)"
  shows "fine (andthen (pushBytes bs r) k)" "fine (andthen (pushString str r) k)"
proof -
  have push: "\<exists>s'. pushBytes bs r = (Ret (), r\<lparr>sock := s'\<rparr>) \<and> live (r\<lparr>sock := s'\<rparr>)" for bs
    using sQpushBytes_returns [of "sock r" bs] assms(1) by (auto simp: pushBytes_def live_def)
  from push [of bs] push [of "bytes_of_str str"] assms(2)
  show "fine (andthen (pushBytes bs r) k)" "fine (andthen (pushString str r) k)"
    by (auto simp: pushString_def pushBytes_def sQpushString_def)
qed

lemma fine_pure: "x \<noteq> Hang \<Longrightarrow> live r \<Longrightarrow> (\<And>a r. live r \<Longrightarrow> fine (k a r)) \<Longrightarrow> fine (andthen (x, r) k)"
  by (cases x) (simp_all add: fine_def)

lemma fine_wait: "live r \<Longrightarrow> (\<And>w r. live r \<Longrightarrow> fine (k w r)) \<Longrightarrow> fine (andthen (wait n g r) k)"
  by (auto simp: wait_def rQwait_def live_def wf_send_recv fine_def)

lemma fine_need: "live r \<Longrightarrow> (\<And>r. live r \<Longrightarrow> fine (k r)) \<Longrightarrow> fine (need n g r k)"
  unfolding need_def by (intro fine_wait fine_forms)

lemmas fines = fine_forms fine_pushes fine_wait fine_need fine_lets live_rd live_readers live_updates live_sends fine_case

lemma obind_no_hang: "x \<noteq> Hang \<Longrightarrow> (\<And>a. k a \<noteq> Hang) \<Longrightarrow> obind x k \<noteq> Hang"
  by (cases x) simp_all

lemma bigint_no_hang:
  "u8ArrayToBigInt bs \<noteq> Hang" "modPow b e m \<noteq> Hang" "bigIntToU8Array v n \<noteq> Hang"
  by (simp_all add: u8ArrayToBigInt_def modPow_def bigIntToU8Array_def Let_def)

lemma never_hang:
  "encodeUTF8 str \<noteq> Hang" "dh_generateKey random g p \<noteq> Hang" "dh_deriveBits pub len d \<noteq> Hang"
  unfolding dh_generateKey_def dh_deriveBits_def encodeUTF8_def Let_def
  by (simp split: option.split, (intro obind_no_hang bigint_no_hang outcome.distinct)+)

lemma live_messages:
  assumes "live r"
  shows "live (on_sock (enableContinuousUpdates e x y w h) r)" "live (on_sock (pixelFormat d t) r)"
    "live (on_sock (fbUpdateRequest i x y w h) r)" "live (sendEncodings r)"
  using live_sends(4) [OF assms]
  by (simp_all add: enableContinuousUpdates_def pixelFormat_def fbUpdateRequest_def sendEncodings_def clientEncodings_def Let_def)

lemma sock_viewport: "sock (updateClip W r) = sock r" "sock (updateScale W r) = sock r"
  by (simp_all add: updateClip_def updateScale_def setClippingViewport_def saveExpectedClientSize_def dispatch_def
      on_disp_def on_sets_def Let_def split: prod.split)

lemma live_resize: "live r \<Longrightarrow> live (resize W w h r)"
proof -
  assume "live r"
  let ?r = "updateScale W (updateClip W (on_disp (disp_resize w h) (r\<lparr>fbW := w, fbH := h\<rparr>)))"
  have "live ?r" using \<open>live r\<close> by (simp add: live_def sock_viewport) (simp add: on_disp_def)
  then have "live (updateContinuousUpdates ?r)" by (simp add: updateContinuousUpdates_def live_messages)
  then show "live (resize W w h r)" by (simp add: resize_def Let_def live_def saveExpectedClientSize_def)
qed

lemma live_grab: "live r \<Longrightarrow> live (on_kbd grab r)"
  by (simp add: on_kbd_def grab_def live_def Let_def)

lemma live_start:
  "live r \<Longrightarrow> live (setDesktopName nm r)" "live r \<Longrightarrow> live (leave_to Connected r)"
  by (simp_all add: live_def setDesktopName_def dispatch_def leave_to_def clear_disconnect_def clearTimeout_def on_page_def)

lemma live_if: "(b \<Longrightarrow> live x) \<Longrightarrow> (\<not> b \<Longrightarrow> live y) \<Longrightarrow> live (if b then x else y)"
  by simp

lemma fine_start_session: "live r \<Longrightarrow> fine (start_session W w h nm r)"
  unfolding start_session_def
  by (intro fines live_if live_start live_resize live_grab live_messages)

lemma fine_std: "live r \<Longrightarrow> fine (negotiateStdVNCAuth r)"
  unfolding negotiateStdVNCAuth_def by (intro fines)

lemma fine_xvp: "live r \<Longrightarrow> fine (negotiateXvpAuth r)"
  unfolding negotiateXvpAuth_def by (intro fine_std fines)

lemma fine_vencrypt: "live r \<Longrightarrow> fine (negotiateVeNCryptAuth r)"
  unfolding negotiateVeNCryptAuth_def vencrypt_ack_def vencrypt_length_def vencrypt_subtypes_def by (intro fines)

lemma fine_logins: "live r \<Longrightarrow> fine (negotiatePlainAuth r)" "live r \<Longrightarrow> fine (negotiateTightUnixAuth r)"
  unfolding negotiatePlainAuth_def negotiateTightUnixAuth_def send_login_def
  by (intro fine_pushes fine_pure never_hang fines; assumption)+

lemma fine_ard: "live r \<Longrightarrow> fine (negotiateARDAuth W r)"
  unfolding negotiateARDAuth_def by (intro fine_pushes fine_pure never_hang fines)

lemma fine_tight: "live r \<Longrightarrow> fine (negotiateTightAuth r)"
proof -
  have sub: "live r \<Longrightarrow> fine (tight_subauth r)" for r :: "'a rfb"
    unfolding tight_subauth_def by (intro fines)
  have tunnels: "fine (andthen (negotiateTightTunnels n r) (\<lambda>_ r. (Ret False, r)))" for n and r :: "'a rfb"
    by (auto simp: negotiateTightTunnels_def fail_def fine_def Let_def split: prod.split option.split)
  have wait: "live r \<Longrightarrow> (\<And>w r. live r \<Longrightarrow> fine (k w r)) \<Longrightarrow>
      fine (andthen (if b then wait n g r else (Ret False, r)) k)" for b n g k and r :: "'a rfb"
    by (simp add: fine_wait)
  show "live r \<Longrightarrow> fine (negotiateTightAuth r)"
    unfolding negotiateTightAuth_def by (intro sub tunnels wait fines)
qed

lemma fine_mslogon: "live r \<Longrightarrow> fine (negotiateMSLogonIIAuth W r)"
  unfolding negotiateMSLogonIIAuth_def send_mslogon_def by (intro fine_pushes fine_pure never_hang fines)

lemma fine_version: "live r \<Longrightarrow> fine (negotiateProtocolVersion r)"
  unfolding negotiateProtocolVersion_def by (intro fine_pushes fines)

lemma fine_security: "live r \<Longrightarrow> fine (negotiateSecurity r)"
  unfolding negotiateSecurity_def by (intro fines)

lemma fine_results: "live r \<Longrightarrow> fine (handleSecurityResult r)" "live r \<Longrightarrow> fine (handleSecurityReason r)"
  unfolding handleSecurityResult_def handleSecurityReason_def by (intro fines; assumption)+

lemma fine_authentication: "live r \<Longrightarrow> fine (negotiateAuthentication W r)"
  unfolding negotiateAuthentication_def negotiateRA2neAuth_def
  by (intro fine_xvp fine_ard fine_std fine_tight fine_vencrypt fine_logins fine_mslogon fines)

lemma fine_server_init: "live r \<Longrightarrow> fine (negotiateServerInit W r)"
  unfolding negotiateServerInit_def tight_server_init_def by (intro fine_start_session fines)

lemma fine_initMsg: "live r \<Longrightarrow> fine (initMsg W r)"
  by (cases "rfbInitState r")
    (simp_all add: initMsg_def fine_version fine_security fine_authentication fine_results fine_server_init fine_forms
      live_updates live_sends)

section \<open>The handshake ends\<close>

lemma init_loop_returns:
  assumes "live r"
  shows "\<exists>q r'. init_loop W r = Some (q, r') \<and> q \<noteq> Hang"
  using assms
proof (induction r rule: wf_induct [OF wf_measures [of "[init_rank, left_to_read]"]])
  case (1 r)
  show ?case
  proof (cases "rfbConnectionState r = Connecting")
    case False
    then show ?thesis by (subst init_loop.simps) simp
  next
    case True
    obtain q r1 where m: "initMsg W r = (q, r1)" by (cases "initMsg W r")
    have q: "q \<noteq> Hang" "q = Ret True \<Longrightarrow> live r1" using fine_initMsg [OF 1(2), of W] m by (simp_all add: fine_def)
    show ?thesis
    proof (cases "q = Ret True")
      case False
      then show ?thesis using q(1) m True by (subst init_loop.simps) (cases q; auto)
    next
      case ok: True
      have "\<exists>q r'. init_loop W r1 = Some (q, r') \<and> q \<noteq> Hang"
      proof (cases "rfbConnectionState r1 = Connecting")
        case False
        then show ?thesis by (subst init_loop.simps) simp
      next
        case conn: True
        have "(r1, r) \<in> measures [init_rank, left_to_read]"
          using initMsg_advances [of W r r1] m ok True conn by (simp add: advances_def)
        then show ?thesis using 1(1) q(2) [OF ok] by blast
      qed
      then show ?thesis using m ok True by (subst init_loop.simps) simp
    qed
  qed
qed

text \<open>C6: The handshake loop ends. Whatever bytes the server has sent, in whatever state and with whatever
  authentication scheme, the loop over the states of the handshake returns on an open channel: it
  neither runs for ever nor waits in a step for ever.\<close>

theorem handshake_returns:
  assumes "wf_send (sock r)" "rfbConnectionState r = Connecting"
  shows "\<exists>q r'. handleMessage W r = (q, r') \<and> q \<noteq> Hang"
  using init_loop_returns [of r W] assms by (auto simp: handleMessage_def live_def)

theorem handshake_returns_witness:
  "\<exists>q r'. handleMessage demo_world ((demo_receives [82])\<lparr>rfbConnectionState := Connecting\<rparr>) = (q, r') \<and> q \<noteq> Hang"
  by (rule handshake_returns) (use sock_with_facts(3) [of "[82]"] in \<open>simp_all add: idle_def\<close>)

section \<open>The choice of the security type\<close>

lemma flushed_byte:
  "idle n s \<Longrightarrow> outgoing (flush (push_all [F8 v] s)) = outgoing s @ [u8 v] \<and>
    recv_side (flush (push_all [F8 v] s)) = recv_side s"
  using push_out [of s "[F8 v]"] flush_idle [of "push_all [F8 v] s"] by (simp add: idle_def)

text \<open>The first security type of the server's list that the client supports is chosen, sent back and
  used for the authentication, and what follows the list is left to be read; when the list has none,
  the connection is ended as not clean.\<close>

theorem first_supported_type:
  assumes "sound r" "idle n (sock r)" "rfbConnectionState r = Connecting" "37 \<le> rfbVersion (hs r)"
    "inbox r = of_nat (length types) # types @ rest" "types \<noteq> []" "length types < 256"
  shows "case find isSupportedSecurityType (map uint types) of
      Some t \<Rightarrow> \<exists>r'. negotiateSecurity r = (Ret True, r') \<and> rfbInitState r' = Authentication \<and>
        rfbAuthScheme (hs r') = t \<and> inbox r' = rest \<and> outgoing (sock r') = outgoing (sock r) @ [u8 t]
    | None \<Rightarrow> \<exists>r'. negotiateSecurity r = (Ret False, r') \<and> rfbConnectionState r' = Disconnected \<and>
        events r' = events r @ [EvDisconnect False]"
proof -
  let ?k = "1 + length types" and ?t = "pick_type isSupportedSecurityType (map uint types)"
  have num: "rd rQshift8 r = (int (length types), skip 1 r)"
    using rd_reads(1) [OF assms(1, 5)] assms(7) by (simp add: unsigned_of_nat take_bit_nat_eq_self)
  have wait: "need (length types) 1 (skip 1 r) k = k (skip 1 r)" for k
    using need_inbox [of "skip 1 r" "length types" 1 k] assms(1, 5) by simp
  have list: "rd (rQshiftBytes (length types)) (skip 1 r) = (types, skip ?k r)"
    using rd_reads(5) [of "skip 1 r" "length types"] assms(1, 5) by simp
  define r1 where "r1 = set_scheme ?t (skip ?k r)"
  have r1: "sock r1 = rQskipBytes ?k (sock r)" "rfbConnectionState r1 = Connecting" "events r1 = events r"
    "rfbAuthScheme (hs r1) = ?t" "inbox r1 = rest"
    using assms(3, 5) by (simp_all add: r1_def set_scheme_def on_hs_def skip_def on_sock_def inbox_def sock_simps)
  have run: "negotiateSecurity r =
      (if ?t = - 1 then fail r1 else (Ret True, set_init Authentication (flush_rfb (push [F8 ?t] r1))))"
    using assms(4, 6) r1(4)
    by (simp add: negotiateSecurity_def num wait [unfolded One_nat_def] list [unfolded One_nat_def] Let_def r1_def)
  show ?thesis
  proof (cases "find isSupportedSecurityType (map uint types)")
    case None
    then have "?t = - 1" by (simp add: pick_type_def)
    then show ?thesis
      using None run fail_ends(1, 2) [of r1] r1(2, 3) by (cases "fail r1") (simp add: loop_state_def fail_def Let_def)
  next
    case (Some t)
    then have t: "?t = t" by (simp add: pick_type_def)
    have supported: "isSupportedSecurityType t" using Some by (auto simp: find_Some_iff)
    have idle: "idle n (sock r1)" "outgoing (sock r1) = outgoing (sock r)"
      using assms(2) by (simp_all add: r1(1) idle_def wf_send_recv) (simp_all add: rQskipBytes_def outgoing_def)
    let ?r = "set_init Authentication (flush_rfb (push [F8 t] r1))"
    have "sock ?r = flush (push_all [F8 t] (sock r1))"
      by (simp add: set_init_def flush_rfb_def push_def on_sock_def)
    moreover from this have "inbox ?r = inbox r1"
      using flushed_byte [OF idle(1), of t] recv_side_same [of "sock ?r" "sock r1"] by (simp add: inbox_def)
    moreover have "t \<noteq> - 1" using supported by (auto simp: isSupportedSecurityType_def security_types)
    moreover have "rfbInitState ?r = Authentication" "rfbAuthScheme (hs ?r) = t"
      using r1(4) t by (simp_all add: set_init_def flush_rfb_def push_def on_sock_def)
    ultimately show ?thesis
      using Some t run flushed_byte [OF idle(1), of t] idle(2) r1(5) by simp
  qed
qed

end
