(* ===== verification/Gestures.thy ===== *)
theory Gestures
  imports Rfb_Input
begin

text \<open>
  Recognition of touch gestures, \<open>core/input/gesturehandler.js\<close>. The handler keeps the set of gestures
  that are still possible as a bit mask and removes bits as touches start, move and end; a gesture is
  detected when one bit is left. It reports gestures as events, which \<open>Rfb_Input.gesturestart\<close> and its
  siblings receive.

  A touch event comes with the time and with the two functions whose results are not rational, the
  length of a vector and its direction in degrees; the time does not advance within one call. A timer
  is unset, running, or expired: the code never clears the number of a timer that has fired.
\<close>

section \<open>State\<close>

definition GH_NOGESTURE :: int where "GH_NOGESTURE = 0"
definition GH_ONETAP :: int where "GH_ONETAP = 1"
definition GH_TWOTAP :: int where "GH_TWOTAP = 2"
definition GH_THREETAP :: int where "GH_THREETAP = 4"
definition GH_DRAG :: int where "GH_DRAG = 8"
definition GH_LONGPRESS :: int where "GH_LONGPRESS = 16"
definition GH_TWODRAG :: int where "GH_TWODRAG = 32"
definition GH_PINCH :: int where "GH_PINCH = 64"
definition GH_INITSTATE :: int where "GH_INITSTATE = 127"
definition GH_MOVE_THRESHOLD :: rat where "GH_MOVE_THRESHOLD = 50"
definition GH_ANGLE_THRESHOLD :: rat where "GH_ANGLE_THRESHOLD = 90"
definition GH_MULTITOUCH_TIMEOUT :: int where "GH_MULTITOUCH_TIMEOUT = 250"
definition GH_TAP_TIMEOUT :: int where "GH_TAP_TIMEOUT = 1000"

lemmas gh_bits = GH_NOGESTURE_def GH_ONETAP_def GH_TWOTAP_def GH_THREETAP_def GH_DRAG_def
  GH_LONGPRESS_def GH_TWODRAG_def GH_PINCH_def GH_INITSTATE_def

record touch_env =
  e_now :: int
  e_hypot :: "rat \<Rightarrow> rat \<Rightarrow> rat"
  e_angle :: "rat \<Rightarrow> rat \<Rightarrow> rat"

record touch =
  t_id :: int
  started :: int
  active :: bool
  firstX :: rat
  firstY :: rat
  lastX :: rat
  lastY :: rat
  angle :: rat

datatype gh_timer = Unset | Running | Expired

datatype gesture_phase = PStart | PMove | PEnd

record gesture_handler =
  g_target :: bool
  g_state :: int
  tracked :: "touch list"
  ignored :: "int list"
  waitingRelease :: bool
  releaseStart :: int
  longpressTimer :: gh_timer
  twoTouchTimer :: gh_timer
  g_events :: "(gesture_phase \<times> gesture) list"

definition new_gesture_handler :: gesture_handler where
  "new_gesture_handler = \<lparr>g_target = False, g_state = GH_INITSTATE, tracked = [], ignored = [],
     waitingRelease = False, releaseStart = 0, longpressTimer = Unset, twoTouchTimer = Unset,
     g_events = []\<rparr>"

section \<open>Timers\<close>

definition stopLongpressTimeout :: "gesture_handler \<Rightarrow> gesture_handler" where
  "stopLongpressTimeout g = g\<lparr>longpressTimer := Unset\<rparr>"

definition startLongpressTimeout :: "gesture_handler \<Rightarrow> gesture_handler" where
  "startLongpressTimeout g = (stopLongpressTimeout g)\<lparr>longpressTimer := Running\<rparr>"

definition stopTwoTouchTimeout :: "gesture_handler \<Rightarrow> gesture_handler" where
  "stopTwoTouchTimeout g = g\<lparr>twoTouchTimer := Unset\<rparr>"

definition startTwoTouchTimeout :: "gesture_handler \<Rightarrow> gesture_handler" where
  "startTwoTouchTimeout g = (stopTwoTouchTimeout g)\<lparr>twoTouchTimer := Running\<rparr>"

definition isTwoTouchTimeoutRunning :: "gesture_handler \<Rightarrow> bool" where
  "isTwoTouchTimeoutRunning g \<longleftrightarrow> twoTouchTimer g \<noteq> Unset"

definition gh_detach :: "gesture_handler \<Rightarrow> gesture_handler" where
  "gh_detach g =
     (if \<not> g_target g then g
      else (stopTwoTouchTimeout (stopLongpressTimeout g))\<lparr>g_target := False\<rparr>)"

definition gh_attach :: "gesture_handler \<Rightarrow> gesture_handler" where
  "gh_attach g = (gh_detach g)\<lparr>g_target := True\<rparr>"

section \<open>Events\<close>

text \<open>\<open>this._state &= ~bits\<close>.\<close>

definition rule_out :: "int \<Rightarrow> gesture_handler \<Rightarrow> gesture_handler" where
  "rule_out bits g = g\<lparr>g_state := js_and (g_state g) (js_not bits)\<rparr>"

definition hasDetectedGesture :: "gesture_handler \<Rightarrow> bool" where
  "hasDetectedGesture g =
     (if g_state g = GH_NOGESTURE then False
      else if js_and (g_state g) (g_state g - 1) \<noteq> 0 then False
      else if js_and (g_state g) (js_or (js_or GH_ONETAP GH_TWOTAP) GH_THREETAP) \<noteq> 0 \<and> list_ex active (tracked g)
        then False
      else True)"

definition stateToGesture :: "int \<Rightarrow> gesture_kind outcome" where
  "stateToGesture s =
     (if s = GH_ONETAP then Ret OneTap
      else if s = GH_TWOTAP then Ret TwoTap
      else if s = GH_THREETAP then Ret ThreeTap
      else if s = GH_DRAG then Ret Drag
      else if s = GH_LONGPRESS then Ret LongPress
      else if s = GH_TWODRAG then Ret TwoDrag
      else if s = GH_PINCH then Ret Pinch
      else Throw (ErrorMsg ''Unknown gesture state''))"

type_synonym point = "rat \<times> rat"

definition average :: "(touch \<Rightarrow> rat) \<Rightarrow> touch list \<Rightarrow> rat" where
  "average f ts = sum_list (map f ts) / of_nat (length ts)"

definition getPosition :: "touch list \<Rightarrow> (point \<times> point) outcome" where
  "getPosition ts =
     (if ts = [] then Throw (ErrorMsg ''Failed to get gesture position, no tracked touches'')
      else Ret ((average firstX ts, average firstY ts), (average lastX ts, average lastY ts)))"

definition getAverageMovement :: "touch list \<Rightarrow> point outcome" where
  "getAverageMovement ts =
     (if ts = [] then Throw (ErrorMsg ''Failed to get gesture movement, no tracked touches'')
      else Ret (average (\<lambda>t. lastX t - firstX t) ts, average (\<lambda>t. lastY t - firstY t) ts))"

definition getAverageDistance :: "touch list \<Rightarrow> (point \<times> point) outcome" where
  "getAverageDistance ts =
     (if ts = [] then Throw (ErrorMsg ''Failed to get gesture distance, no tracked touches'')
      else let a = hd ts; b = last ts
           in Ret ((\<bar>firstX b - firstX a\<bar>, \<bar>firstY b - firstY a\<bar>),
                   (\<bar>lastX b - lastX a\<bar>, \<bar>lastY b - lastY a\<bar>)))"

definition magnitude :: "int \<Rightarrow> gesture_phase \<Rightarrow> touch list \<Rightarrow> point outcome" where
  "magnitude s phase ts =
     (if s = GH_PINCH then
        case getAverageDistance ts of
          Ret (first_d, last_d) \<Rightarrow> Ret (if phase = PStart then first_d else last_d)
        | Throw e \<Rightarrow> Throw e
        | Hang \<Rightarrow> Hang
      else if s = GH_TWODRAG then
        if phase = PStart then Ret (0, 0) else getAverageMovement ts
      else Ret (0, 0))"

text \<open>\<open>_pushEvent\<close>. A gesture that has no magnitude in the source is given magnitude zero.\<close>

definition pushEvent :: "gesture_phase \<Rightarrow> gesture_handler \<Rightarrow> unit outcome \<times> gesture_handler" where
  "pushEvent phase g =
     andthen (stateToGesture (g_state g), g) (\<lambda>kind g.
     andthen (getPosition (tracked g), g) (\<lambda>avg g.
       let pos = (if phase = PStart then fst avg else snd avg);
           pos = (if g_state g = GH_TWODRAG \<or> g_state g = GH_PINCH then fst avg else pos)
       in andthen (magnitude (g_state g) phase (tracked g), g) (\<lambda>mag g.
            if \<not> g_target g then (Throw TypeError, g)
            else (Ret (), g\<lparr>g_events := g_events g @
              [(phase, \<lparr>g_kind = kind, g_x = fst pos, g_y = snd pos, g_magX = fst mag, g_magY = snd mag\<rparr>)]\<rparr>))))"

section \<open>Touches\<close>

definition new_touch :: "touch_env \<Rightarrow> int \<Rightarrow> rat \<Rightarrow> rat \<Rightarrow> touch" where
  "new_touch E i x y = \<lparr>t_id = i, started = e_now E, active = True, firstX = x, firstY = y,
     lastX = x, lastY = y, angle = 0\<rparr>"

text \<open>\<open>this._tracked.find(...)\<close> gives a reference; writing to it changes the first matching entry.\<close>

fun update_first :: "('a \<Rightarrow> bool) \<Rightarrow> ('a \<Rightarrow> 'a) \<Rightarrow> 'a list \<Rightarrow> 'a list" where
  "update_first P f [] = []"
| "update_first P f (x # xs) = (if P x then f x # xs else x # update_first P f xs)"

definition touchStart :: "touch_env \<Rightarrow> int \<Rightarrow> rat \<Rightarrow> rat \<Rightarrow> gesture_handler \<Rightarrow> gesture_handler" where
  "touchStart E i x y g =
     (if hasDetectedGesture g \<or> g_state g = GH_NOGESTURE then g\<lparr>ignored := ignored g @ [i]\<rparr>
      else if tracked g \<noteq> [] \<and> e_now E - started (hd (tracked g)) > GH_MULTITOUCH_TIMEOUT then
        g\<lparr>g_state := GH_NOGESTURE, ignored := ignored g @ [i]\<rparr>
      else if waitingRelease g then g\<lparr>g_state := GH_NOGESTURE, ignored := ignored g @ [i]\<rparr>
      else
        let g = g\<lparr>tracked := tracked g @ [new_touch E i x y]\<rparr>
        in if length (tracked g) = 1 then startLongpressTimeout g
           else if length (tracked g) = 2 then
             stopLongpressTimeout (rule_out (js_or (js_or GH_ONETAP GH_DRAG) GH_LONGPRESS) g)
           else if length (tracked g) = 3 then
             rule_out (js_or (js_or GH_TWOTAP GH_TWODRAG) GH_PINCH) g
           else g\<lparr>g_state := GH_NOGESTURE\<rparr>)"

text \<open>The remainder of numbers that are not negative.\<close>

definition js_rem :: "rat \<Rightarrow> rat \<Rightarrow> rat" where
  "js_rem a m = a - m * of_int \<lfloor>a / m\<rfloor>"

definition angle_between :: "rat \<Rightarrow> rat \<Rightarrow> rat" where
  "angle_between a b = \<bar>js_rem (\<bar>a - b\<bar> + 180) 360 - 180\<bar>"

text \<open>What decides between the gestures with two touches.\<close>

definition decide_two_touch :: "touch_env \<Rightarrow> int \<Rightarrow> touch \<Rightarrow> gesture_handler \<Rightarrow> unit outcome \<times> gesture_handler" where
  "decide_two_touch E i t g =
     (case find (\<lambda>t. t_id t \<noteq> i) (tracked g) of
        None \<Rightarrow> (Throw TypeError, g)
      | Some prev \<Rightarrow>
          (Ret (),
           if e_hypot E (firstX prev - lastX prev) (firstY prev - lastY prev) > GH_MOVE_THRESHOLD then
             let g = (if angle_between (angle t) (angle prev) > GH_ANGLE_THRESHOLD
                      then rule_out GH_TWODRAG g else rule_out GH_PINCH g)
             in if isTwoTouchTimeoutRunning g then stopTwoTouchTimeout g else g
           else if \<not> isTwoTouchTimeoutRunning g then startTwoTouchTimeout g
           else g))"

definition moved_to :: "touch_env \<Rightarrow> rat \<Rightarrow> rat \<Rightarrow> touch \<Rightarrow> touch" where
  "moved_to E x y t =
     (let t = t\<lparr>lastX := x, lastY := y\<rparr>
      in if firstX t \<noteq> lastX t \<or> firstY t \<noteq> lastY t
         then t\<lparr>angle := e_angle E (y - firstY t) (x - firstX t)\<rparr> else t)"

definition rule_out_moved :: "gesture_handler \<Rightarrow> gesture_handler" where
  "rule_out_moved g =
     (let g = stopLongpressTimeout
                (rule_out (js_or (js_or (js_or GH_ONETAP GH_TWOTAP) GH_THREETAP) GH_LONGPRESS) g);
          g = (if length (tracked g) \<noteq> 1 then rule_out GH_DRAG g else g)
      in if length (tracked g) \<noteq> 2 then rule_out (js_or GH_TWODRAG GH_PINCH) g else g)"

definition touchMove :: "touch_env \<Rightarrow> int \<Rightarrow> rat \<Rightarrow> rat \<Rightarrow> gesture_handler \<Rightarrow> unit outcome \<times> gesture_handler" where
  "touchMove E i x y g =
     (case find (\<lambda>t. t_id t = i) (tracked g) of
        None \<Rightarrow> (Ret (), g)
      | Some t0 \<Rightarrow>
          let t = moved_to E x y t0;
              g = g\<lparr>tracked := update_first (\<lambda>t. t_id t = i) (moved_to E x y) (tracked g)\<rparr>
          in if hasDetectedGesture g then pushEvent PMove g
             else if e_hypot E (x - firstX t) (y - firstY t) < GH_MOVE_THRESHOLD then (Ret (), g)
             else
               let g = rule_out_moved g
               in andthen (if length (tracked g) = 2 then decide_two_touch E i t g else (Ret (), g)) (\<lambda>u g.
                    if \<not> hasDetectedGesture g then (Ret (), g)
                    else andthen (pushEvent PStart g) (\<lambda>u. pushEvent PMove)))"

text \<open>The end of \<open>_touchEnd\<close>: the touches that remain are ignored until they end.\<close>

definition finish_touch :: "int \<Rightarrow> gesture_handler \<Rightarrow> gesture_handler" where
  "finish_touch i g =
     (let g = g\<lparr>ignored := remove1 i (ignored g @ map t_id (filter active (tracked g))), tracked := [],
                g_state := GH_NOGESTURE\<rparr>
      in if ignored g = [] then g\<lparr>g_state := GH_INITSTATE, waitingRelease := False\<rparr> else g)"

definition release_waiting :: "touch_env \<Rightarrow> gesture_handler \<Rightarrow> gesture_handler" where
  "release_waiting E g =
     (if hasDetectedGesture g then g
      else
        let g = stopLongpressTimeout (rule_out GH_LONGPRESS (rule_out (js_or (js_or GH_DRAG GH_TWODRAG) GH_PINCH) g))
        in if waitingRelease g then g
           else
             let g = g\<lparr>releaseStart := e_now E, waitingRelease := True\<rparr>
             in if length (tracked g) = 1 then rule_out (js_or GH_TWOTAP GH_THREETAP) g
                else if length (tracked g) = 2 then rule_out (js_or GH_ONETAP GH_THREETAP) g
                else g)"

definition too_late :: "touch_env \<Rightarrow> gesture_handler \<Rightarrow> gesture_handler" where
  "too_late E g =
     (let g = (if e_now E - releaseStart g > GH_MULTITOUCH_TIMEOUT then g\<lparr>g_state := GH_NOGESTURE\<rparr> else g)
      in if list_ex (\<lambda>t. e_now E - started t > GH_TAP_TIMEOUT) (tracked g)
         then g\<lparr>g_state := GH_NOGESTURE\<rparr> else g)"

text \<open>The part for touches that have to be released together; the result says whether the handler returns
  here.\<close>

definition release_together :: "touch_env \<Rightarrow> int \<Rightarrow> gesture_handler \<Rightarrow> bool outcome \<times> gesture_handler" where
  "release_together E i g =
     (if \<not> waitingRelease g then (Ret False, g)
      else
        let g = too_late E g
        in case find (\<lambda>t. t_id t = i) (tracked g) of
             None \<Rightarrow> (Throw TypeError, g)
           | Some t \<Rightarrow>
               let g = g\<lparr>tracked := update_first (\<lambda>t. t_id t = i) (\<lambda>t. t\<lparr>active := False\<rparr>) (tracked g)\<rparr>
               in if hasDetectedGesture g then andthen (pushEvent PStart g) (\<lambda>u g. (Ret False, g))
                  else (Ret (g_state g \<noteq> GH_NOGESTURE), g))"

definition touchEnd :: "touch_env \<Rightarrow> int \<Rightarrow> gesture_handler \<Rightarrow> unit outcome \<times> gesture_handler" where
  "touchEnd E i g =
     (if i \<in> set (ignored g) then
        let g = g\<lparr>ignored := remove1 i (ignored g)\<rparr>
        in (Ret (), if ignored g = [] \<and> tracked g = []
                    then g\<lparr>g_state := GH_INITSTATE, waitingRelease := False\<rparr> else g)
      else
        let g = (if \<not> hasDetectedGesture g \<and> isTwoTouchTimeoutRunning g
                 then (stopTwoTouchTimeout g)\<lparr>g_state := GH_NOGESTURE\<rparr> else g);
            g = release_waiting E g
        in andthen (release_together E i g) (\<lambda>waits g.
             if waits then (Ret (), g)
             else andthen (if hasDetectedGesture g then pushEvent PEnd g else (Ret (), g)) (\<lambda>u g.
                    (Ret (), finish_touch i g))))"

section \<open>Timeouts and events of the browser\<close>

definition longpressTimeout :: "gesture_handler \<Rightarrow> unit outcome \<times> gesture_handler" where
  "longpressTimeout g =
     (if hasDetectedGesture g
      then (Throw (ErrorMsg ''A longpress gesture failed, conflict with a different gesture''), g)
      else pushEvent PStart (g\<lparr>g_state := GH_LONGPRESS\<rparr>))"

definition twoTouchTimeout :: "touch_env \<Rightarrow> gesture_handler \<Rightarrow> unit outcome \<times> gesture_handler" where
  "twoTouchTimeout E g =
     (if tracked g = [] then (Throw (ErrorMsg ''A pinch or two drag gesture failed, no tracked touches''), g)
      else
        andthen (getAverageMovement (tracked g), g) (\<lambda>avgM g.
        andthen (getAverageDistance (tracked g), g) (\<lambda>avgD g.
          let delta = \<bar>e_hypot E (fst (fst avgD)) (snd (fst avgD)) - e_hypot E (fst (snd avgD)) (snd (snd avgD))\<bar>;
              s = (if \<bar>snd avgM\<bar> < delta \<and> \<bar>fst avgM\<bar> < delta then GH_PINCH else GH_TWODRAG)
          in andthen (pushEvent PStart (g\<lparr>g_state := s\<rparr>)) (\<lambda>u. pushEvent PMove))))"

datatype touch_type = TouchStart | TouchMove | TouchEnd | TouchCancel

definition handle_touch :: "touch_env \<Rightarrow> touch_type \<Rightarrow> int \<times> rat \<times> rat \<Rightarrow> gesture_handler \<Rightarrow>
    unit outcome \<times> gesture_handler" where
  "handle_touch E ty t g =
     (case t of (i, x, y) \<Rightarrow>
        case ty of
          TouchStart \<Rightarrow> (Ret (), touchStart E i x y g)
        | TouchMove \<Rightarrow> touchMove E i x y g
        | TouchEnd \<Rightarrow> touchEnd E i g
        | TouchCancel \<Rightarrow> touchEnd E i g)"

primrec gh_eventHandler :: "touch_env \<Rightarrow> touch_type \<Rightarrow> (int \<times> rat \<times> rat) list \<Rightarrow> gesture_handler \<Rightarrow>
    unit outcome \<times> gesture_handler" where
  "gh_eventHandler E ty [] g = (Ret (), g)"
| "gh_eventHandler E ty (t # ts) g = andthen (handle_touch E ty t g) (\<lambda>u. gh_eventHandler E ty ts)"

text \<open>What the browser does to an attached handler: touch events, and the two timers when they run.\<close>

datatype touch_op = Touches touch_type "(int \<times> rat \<times> rat) list" | LongpressFires | TwoTouchFires

fun gh_step :: "touch_env \<Rightarrow> touch_op \<Rightarrow> gesture_handler \<Rightarrow> unit outcome \<times> gesture_handler" where
  "gh_step E (Touches ty ts) g = gh_eventHandler E ty ts g"
| "gh_step E LongpressFires g =
     (if longpressTimer g = Running then longpressTimeout (g\<lparr>longpressTimer := Expired\<rparr>) else (Ret (), g))"
| "gh_step E TwoTouchFires g =
     (if twoTouchTimer g = Running then twoTouchTimeout E (g\<lparr>twoTouchTimer := Expired\<rparr>) else (Ret (), g))"

end
