(* ===== verification/Gesture_Laws.thy ===== *)
theory Gesture_Laws
  imports Gestures Rfb_Viewonly
begin

text \<open>
  What the gesture handler promises to the client. For every sequence of touches that a browser can
  report, and whenever the timers fire, it throws no exception, the moves and the end of a gesture follow
  its start, and a drag or a long press, which hold a mouse button, end when the finger is lifted. The last
  sections show what is recognised as a tap, and two sequences that the handler gets wrong.
\<close>

section \<open>Possible sequences of touches\<close>

text \<open>The fingers on the target: a touch starts with a new number and ends once.\<close>

fun touch_ok :: "int set \<Rightarrow> touch_op \<Rightarrow> bool" where
  "touch_ok F (Touches TouchStart ts) \<longleftrightarrow> distinct (map fst ts) \<and> fst ` set ts \<inter> F = {}"
| "touch_ok F (Touches TouchMove ts) \<longleftrightarrow> fst ` set ts \<subseteq> F"
| "touch_ok F (Touches TouchEnd ts) \<longleftrightarrow> distinct (map fst ts) \<and> fst ` set ts \<subseteq> F"
| "touch_ok F (Touches TouchCancel ts) \<longleftrightarrow> distinct (map fst ts) \<and> fst ` set ts \<subseteq> F"
| "touch_ok F _ \<longleftrightarrow> True"

fun fingers_after :: "touch_op \<Rightarrow> int set \<Rightarrow> int set" where
  "fingers_after (Touches TouchStart ts) F = F \<union> fst ` set ts"
| "fingers_after (Touches TouchEnd ts) F = F - fst ` set ts"
| "fingers_after (Touches TouchCancel ts) F = F - fst ` set ts"
| "fingers_after _ F = F"

inductive touched :: "int set \<Rightarrow> gesture_handler \<Rightarrow> bool" where
  attached: "touched {} (gh_attach new_gesture_handler)"
| stepped: "touched F g \<Longrightarrow> touch_ok F a \<Longrightarrow> touched (fingers_after a F) (snd (gh_step E a g))"

text \<open>The gesture that is under way after some events, if moves and ends are those of the last start and
  no gesture starts before the end of another, except that of one with two touches.\<close>

fun gesture_run :: "gesture_kind option \<Rightarrow> (gesture_phase \<times> gesture) list \<Rightarrow> gesture_kind option option" where
  "gesture_run c [] = Some c"
| "gesture_run c ((PStart, e) # es) =
     (if c \<in> {None, Some TwoDrag, Some Pinch} then gesture_run (Some (g_kind e)) es else None)"
| "gesture_run c ((PMove, e) # es) = (if c = Some (g_kind e) then gesture_run c es else None)"
| "gesture_run c ((PEnd, e) # es) = (if c = Some (g_kind e) then gesture_run None es else None)"

lemma gesture_run_append:
  "gesture_run c (xs @ ys) = Option.bind (gesture_run c xs) (\<lambda>c. gesture_run c ys)"
  by (induction c xs rule: gesture_run.induct) auto

section \<open>Invariant\<close>

definition gh_shape :: "gesture_handler \<Rightarrow> bool" where
  "gh_shape g \<longleftrightarrow>
     (if tracked g = [] then
        if ignored g = [] then g_state g = 127 \<and> \<not> waitingRelease g else g_state g = 0
      else list_ex active (tracked g) \<and> (\<not> waitingRelease g \<longrightarrow> list_all active (tracked g)) \<and>
        (g_state g \<in> {0, 32, 64} \<or> g_state g = 4 \<and> length (tracked g) = 3 \<or>
         waitingRelease g \<and> g_state g = 2 \<and> length (tracked g) = 2 \<or>
         \<not> waitingRelease g \<and> g_state g \<in> {8, 16, 127} \<and> length (tracked g) = 1 \<or>
         \<not> waitingRelease g \<and> g_state g \<in> {96, 102} \<and> length (tracked g) = 2))"

definition gh_clocks :: "gesture_handler \<Rightarrow> bool" where
  "gh_clocks g \<longleftrightarrow>
     (longpressTimer g = Running \<longrightarrow>
        length (tracked g) = 1 \<and> g_state g \<in> {0, 127} \<and> \<not> waitingRelease g) \<and>
     (twoTouchTimer g = Running \<longrightarrow> 2 \<le> length (tracked g) \<and> g_state g \<in> {0, 96})"

definition fingers :: "gesture_handler \<Rightarrow> int list" where
  "fingers g = ignored g @ map t_id (filter active (tracked g))"

definition gh_ids :: "int set \<Rightarrow> gesture_handler \<Rightarrow> bool" where
  "gh_ids F g \<longleftrightarrow> distinct (map t_id (tracked g)) \<and> distinct (fingers g) \<and> set (fingers g) = F"

definition gh_told :: "gesture_handler \<Rightarrow> bool" where
  "gh_told g \<longleftrightarrow>
     (\<exists>c. gesture_run None (g_events g) = Some c \<and>
       (if g_state g \<in> {8, 16, 32, 64} then map_option Ret c = Some (stateToGesture (g_state g))
        else c \<in> {None, Some TwoDrag, Some Pinch}))"

definition gh_ok :: "int set \<Rightarrow> gesture_handler \<Rightarrow> bool" where
  "gh_ok F g \<longleftrightarrow> gh_shape g \<and> gh_clocks g \<and> gh_ids F g \<and> gh_told g \<and> g_target g"

lemma gh_ok_attached: "gh_ok {} (gh_attach new_gesture_handler)"
  by (simp add: gh_ok_def gh_shape_def gh_clocks_def gh_ids_def fingers_def gh_told_def gh_attach_def gh_detach_def
      new_gesture_handler_def gh_bits)

lemma has_detected:
  assumes "gh_shape g" shows "hasDetectedGesture g \<longleftrightarrow> g_state g \<in> {8, 16, 32, 64}"
  using assms by (auto simp: hasDetectedGesture_def gh_shape_def gh_bits js_num split: if_splits)

lemma detected_events: "hasDetectedGesture (g\<lparr>g_events := es\<rparr>) = hasDetectedGesture g"
  by (simp add: hasDetectedGesture_def)

lemma events_frame [simp]:
  "gh_shape (g\<lparr>g_events := es\<rparr>) = gh_shape g" "gh_clocks (g\<lparr>g_events := es\<rparr>) = gh_clocks g"
  "gh_ids F (g\<lparr>g_events := es\<rparr>) = gh_ids F g" "fingers (g\<lparr>g_events := es\<rparr>) = fingers g"
  by (simp_all add: gh_shape_def gh_clocks_def gh_ids_def fingers_def)

lemma pushEvent_ok:
  assumes "stateToGesture (g_state g) = Ret k" "tracked g \<noteq> []" "g_target g"
  shows "\<exists>e. g_kind e = k \<and> pushEvent phase g = (Ret (), g\<lparr>g_events := g_events g @ [(phase, e)]\<rparr>)"
proof -
  obtain avg where avg: "getPosition (tracked g) = Ret avg" using assms(2) by (simp add: getPosition_def)
  have "\<exists>mag. magnitude (g_state g) phase (tracked g) = Ret mag"
    using assms(2) by (simp add: magnitude_def getAverageDistance_def getAverageMovement_def Let_def)
  then obtain mag where mag: "magnitude (g_state g) phase (tracked g) = Ret mag" ..
  define pos where "pos = (if g_state g = GH_TWODRAG \<or> g_state g = GH_PINCH \<or> phase = PStart then fst avg else snd avg)"
  let ?e = "\<lparr>g_kind = k, g_x = fst pos, g_y = snd pos, g_magX = fst mag, g_magY = snd mag\<rparr>"
  have "pushEvent phase g = (Ret (), g\<lparr>g_events := g_events g @ [(phase, ?e)]\<rparr>)"
    using assms avg mag by (simp add: pushEvent_def pos_def Let_def)
  then show ?thesis by (intro exI [of _ ?e]) simp
qed

lemma stateToGesture_values [simp]:
  "stateToGesture 1 = Ret OneTap" "stateToGesture 2 = Ret TwoTap" "stateToGesture 4 = Ret ThreeTap"
  "stateToGesture 8 = Ret Drag" "stateToGesture 16 = Ret LongPress" "stateToGesture 32 = Ret TwoDrag"
  "stateToGesture 64 = Ret Pinch"
  by (simp_all add: stateToGesture_def gh_bits)

section \<open>Starting touches\<close>

lemma gh_ok_ignore:
  assumes ok: "gh_ok F g" and new: "i \<notin> F"
    and s: "s = g_state g \<and> (g_state g = 0 \<or> hasDetectedGesture g) \<or> s = 0 \<and> tracked g \<noteq> [] \<and> \<not> hasDetectedGesture g"
  shows "gh_ok (insert i F) (g\<lparr>g_state := s, ignored := ignored g @ [i]\<rparr>)"
proof -
  have g: "gh_shape g" "gh_clocks g" "gh_ids F g" "gh_told g" "g_target g" using ok by (simp_all add: gh_ok_def)
  let ?g = "g\<lparr>g_state := s, ignored := ignored g @ [i]\<rparr>"
  have "gh_shape ?g" using g(1) s has_detected [OF g(1)] by (auto simp: gh_shape_def split: if_splits)
  moreover have "gh_clocks ?g" using g(2) s by (auto simp: gh_clocks_def)
  moreover have "gh_ids (insert i F) ?g" using g(3) new by (auto simp: gh_ids_def fingers_def)
  moreover have "gh_told ?g" using g(4) s has_detected [OF g(1)] by (auto simp: gh_told_def split: if_splits)
  ultimately show ?thesis using g(5) by (simp add: gh_ok_def)
qed

lemma touchStart_ok:
  assumes ok: "gh_ok F g" and new: "i \<notin> F"
  shows "gh_ok (insert i F) (touchStart E i x y g)"
proof -
  have g: "gh_shape g" "gh_clocks g" "gh_ids F g" "gh_told g" "g_target g" using ok by (simp_all add: gh_ok_def)
  note det = has_detected [OF g(1)]
  consider (busy) "hasDetectedGesture g \<or> g_state g = 0"
    | (late) "\<not> hasDetectedGesture g" "g_state g \<noteq> 0" "tracked g \<noteq> []"
        "e_now E - started (hd (tracked g)) > 250 \<or> waitingRelease g"
    | (track) "\<not> hasDetectedGesture g" "g_state g \<noteq> 0" "\<not> waitingRelease g"
        "tracked g = [] \<or> \<not> e_now E - started (hd (tracked g)) > 250"
    using g(1) by (auto simp: gh_shape_def split: if_splits)
  then show ?thesis
  proof cases
    case busy
    then show ?thesis using gh_ok_ignore [OF ok new, of "g_state g"]
      by (auto simp: touchStart_def GH_NOGESTURE_def)
  next
    case late
    then show ?thesis using gh_ok_ignore [OF ok new, of 0]
      by (auto simp: touchStart_def GH_NOGESTURE_def GH_MULTITOUCH_TIMEOUT_def)
  next
    case track
    then have act: "list_all active (tracked g)" using g(1) by (auto simp: gh_shape_def split: if_splits)
    then have "filter active (tracked g) = tracked g" by (simp add: list_all_iff)
    then have ids: "gh_ids (insert i F) (g\<lparr>tracked := tracked g @ [new_touch E i x y]\<rparr>)"
      using g(3) new by (auto simp: gh_ids_def fingers_def new_touch_def)
    have st: "g_state g = 127 \<and> length (tracked g) \<le> 1 \<or> g_state g \<in> {96, 102} \<and> length (tracked g) = 2 \<or>
        g_state g = 4 \<and> length (tracked g) = 3"
      using g(1) track det by (auto simp: gh_shape_def split: if_splits)
    define h where "h = g\<lparr>tracked := tracked g @ [new_touch E i x y]\<rparr>"
    have step: "touchStart E i x y g =
       (if length (tracked h) = 1 then startLongpressTimeout h
        else if length (tracked h) = 2 then stopLongpressTimeout (rule_out 25 h)
        else if length (tracked h) = 3 then rule_out 98 h
        else h\<lparr>g_state := 0\<rparr>)"
      using track by (auto simp: touchStart_def h_def gh_bits GH_MULTITOUCH_TIMEOUT_def js_num Let_def)
    have h: "tracked h \<noteq> []" "list_all active (tracked h)" "list_ex active (tracked h)" "\<not> waitingRelease h"
      "g_target h" "gh_told h" "gh_ids (insert i F) h" "g_state h = g_state g" "length (tracked h) = Suc (length (tracked g))"
      "longpressTimer h = longpressTimer g" "twoTouchTimer h = twoTouchTimer g"
      using track act g(4,5) ids by (auto simp: h_def new_touch_def gh_told_def)
    from st consider "g_state g = 127" "length (tracked g) < 1" | "g_state g = 127" "length (tracked g) = 1"
      | "g_state g \<in> {96, 102}" "length (tracked g) = 2" | "g_state g = 4" "length (tracked g) = 3"
      by linarith
    then show ?thesis
      unfolding step using h g(2)
      by cases (auto simp: gh_ok_def gh_shape_def gh_clocks_def gh_ids_def fingers_def gh_told_def rule_out_def
          startLongpressTimeout_def stopLongpressTimeout_def js_num)
  qed
qed

section \<open>Moving touches\<close>

lemma map_update_first: "(\<And>x. P x \<Longrightarrow> f (h x) = f x) \<Longrightarrow> map f (update_first P h xs) = map f xs"
  by (induction xs) auto

lemma moved_to_simps [simp]: "t_id (moved_to E x y t) = t_id t" "active (moved_to E x y t) = active t"
  by (simp_all add: moved_to_def Let_def)

text \<open>Touches that agree on number and activity are the same to the invariant.\<close>

definition alike :: "touch list \<Rightarrow> touch list \<Rightarrow> bool" where
  "alike = list_all2 (\<lambda>t u. t_id t = t_id u \<and> active t = active u)"

lemma alike_refl: "alike ts ts"
  by (simp add: alike_def list_all2_refl)

lemma alike_moved: "alike (update_first P (moved_to E x y) ts) ts"
  by (induction ts) (simp_all add: alike_def list_all2_refl)

lemma alike_facts:
  assumes "alike ts us"
  shows "length ts = length us" "list_ex active ts = list_ex active us" "list_all active ts = list_all active us"
    "map t_id (filter active ts) = map t_id (filter active us)" "ts = [] \<longleftrightarrow> us = []" "map t_id ts = map t_id us"
  using assms unfolding alike_def by (induction rule: list_all2_induct) auto

lemma gh_ok_alike:
  assumes "gh_ok F g" "alike ts (tracked g)"
  shows "gh_ok F (g\<lparr>tracked := ts\<rparr>)"
proof -
  let ?h = "g\<lparr>tracked := ts\<rparr>"
  note same = alike_facts [OF assms(2)]
  have "gh_shape ?h = gh_shape g" by (simp add: gh_shape_def same)
  moreover have "gh_clocks ?h = gh_clocks g" by (simp add: gh_clocks_def same)
  moreover have "gh_ids F ?h = gh_ids F g" by (simp add: gh_ids_def fingers_def same del: map_map set_map)
  moreover have "gh_told ?h = gh_told g" by (simp add: gh_told_def)
  ultimately show ?thesis using assms(1) by (simp add: gh_ok_def)
qed

lemma gh_ok_PMove:
  assumes "gh_ok F g" "hasDetectedGesture g"
  shows "fst (pushEvent PMove g) = Ret () \<and> gh_ok F (snd (pushEvent PMove g))"
proof -
  have s: "g_state g \<in> {8, 16, 32, 64}" using assms has_detected by (auto simp: gh_ok_def)
  then obtain k where k: "stateToGesture (g_state g) = Ret k" by auto
  have "tracked g \<noteq> []" using assms(1) s by (auto simp: gh_ok_def gh_shape_def split: if_splits)
  then obtain e where e: "g_kind e = k" "pushEvent PMove g = (Ret (), g\<lparr>g_events := g_events g @ [(PMove, e)]\<rparr>)"
    using pushEvent_ok [OF k] assms(1) by (auto simp: gh_ok_def)
  have "gh_told (g\<lparr>g_events := g_events g @ [(PMove, e)]\<rparr>)"
    using assms(1) s k e(1) by (auto simp: gh_ok_def gh_told_def gesture_run_append)
  then show ?thesis using assms(1) by (simp add: e gh_ok_def)
qed

text \<open>A gesture that has just been detected: everything of the invariant but the start event.\<close>

definition gh_new :: "int set \<Rightarrow> gesture_handler \<Rightarrow> bool" where
  "gh_new F g \<longleftrightarrow> gh_shape g \<and> gh_clocks g \<and> gh_ids F g \<and> g_target g \<and> g_state g \<in> {8, 16, 32, 64} \<and>
     gesture_run None (g_events g) \<in> Some ` {None, Some TwoDrag, Some Pinch}"

lemma gh_ok_PStart:
  assumes "gh_new F g"
  shows "fst (pushEvent PStart g) = Ret () \<and> gh_ok F (snd (pushEvent PStart g)) \<and>
    hasDetectedGesture (snd (pushEvent PStart g))"
proof -
  have s: "g_state g \<in> {8, 16, 32, 64}" using assms by (simp add: gh_new_def)
  then obtain k where k: "stateToGesture (g_state g) = Ret k" by auto
  have "tracked g \<noteq> []" using assms s by (auto simp: gh_new_def gh_shape_def split: if_splits)
  then obtain e where e: "g_kind e = k" "pushEvent PStart g = (Ret (), g\<lparr>g_events := g_events g @ [(PStart, e)]\<rparr>)"
    using pushEvent_ok [OF k] assms by (auto simp: gh_new_def)
  have "gh_told (g\<lparr>g_events := g_events g @ [(PStart, e)]\<rparr>)"
    using assms s k e(1) by (auto simp: gh_new_def gh_told_def gesture_run_append)
  then have ok: "gh_ok F (snd (pushEvent PStart g))" using assms by (simp add: e gh_new_def gh_ok_def)
  then show ?thesis using s has_detected [of "snd (pushEvent PStart g)"] by (auto simp: e gh_ok_def)
qed

lemma start_and_move:
  assumes "gh_new F g"
  shows "fst (andthen (pushEvent PStart g) (\<lambda>u. pushEvent PMove)) = Ret () \<and>
    gh_ok F (snd (andthen (pushEvent PStart g) (\<lambda>u. pushEvent PMove)))"
proof -
  obtain h where h: "pushEvent PStart g = (Ret (), h)" using gh_ok_PStart [OF assms] by (cases "pushEvent PStart g") auto
  then show ?thesis using gh_ok_PMove [of F h] gh_ok_PStart [OF assms] by simp
qed

text \<open>The handler after some gestures have been ruled out.\<close>

definition narrowed :: "int \<Rightarrow> gh_timer \<Rightarrow> gesture_handler \<Rightarrow> gesture_handler" where
  "narrowed s t g = g\<lparr>g_state := s, longpressTimer := Unset, twoTouchTimer := t\<rparr>"

lemma narrowed_steps:
  "rule_out b (narrowed s t g) = narrowed (js_and s (js_not b)) t g"
  "stopTwoTouchTimeout (narrowed s t g) = narrowed s Unset g"
  "startTwoTouchTimeout (narrowed s t g) = narrowed s Running g"
  "isTwoTouchTimeoutRunning (narrowed s t g) \<longleftrightarrow> t \<noteq> Unset"
  "tracked (narrowed s t g) = tracked g"
  by (simp_all add: narrowed_def rule_out_def stopTwoTouchTimeout_def startTwoTouchTimeout_def
      isTwoTouchTimeoutRunning_def)

lemma narrowed_ok:
  assumes ok: "gh_ok F g" and det: "\<not> hasDetectedGesture g" and some: "tracked g \<noteq> []"
    and s: "s = 0 \<or> s = 96 \<and> g_state g \<in> {96, 102}" and t: "t = Running \<Longrightarrow> 2 \<le> length (tracked g)"
  shows "gh_ok F (narrowed s t g)"
proof -
  have g: "gh_shape g" "gh_clocks g" "gh_ids F g" "gh_told g" "g_target g" using ok by (simp_all add: gh_ok_def)
  have "gh_shape (narrowed s t g)" using g(1) s some by (auto simp: gh_shape_def narrowed_def)
  moreover have "gh_clocks (narrowed s t g)" using s t by (auto simp: gh_clocks_def narrowed_def)
  moreover have "gh_ids F (narrowed s t g)" using g(3) by (simp add: gh_ids_def fingers_def narrowed_def)
  moreover have "gh_told (narrowed s t g)"
    using g(4) s det has_detected [OF g(1)] by (auto simp: gh_told_def narrowed_def)
  ultimately show ?thesis using g(5) by (simp add: gh_ok_def narrowed_def)
qed

lemma narrowed_new:
  assumes ok: "gh_ok F g" and det: "\<not> hasDetectedGesture g" and some: "tracked g \<noteq> []" and t: "t \<noteq> Running"
    and s: "s \<in> {32, 64} \<or> s = 8 \<and> g_state g = 127"
  shows "gh_new F (narrowed s t g)"
proof -
  have g: "gh_shape g" "gh_ids F g" "gh_told g" "g_target g" using ok by (simp_all add: gh_ok_def)
  have "gh_shape (narrowed s t g)" using g(1) s some by (auto simp: gh_shape_def narrowed_def)
  moreover have "gh_clocks (narrowed s t g)" using t by (auto simp: gh_clocks_def narrowed_def)
  moreover have "gh_ids F (narrowed s t g)" using g(2) by (simp add: gh_ids_def fingers_def narrowed_def)
  moreover have "gesture_run None (g_events g) \<in> Some ` {None, Some TwoDrag, Some Pinch}"
    using g(3) det has_detected [OF g(1)] by (auto simp: gh_told_def split: if_splits)
  ultimately show ?thesis using g(4) s by (auto simp: gh_new_def narrowed_def)
qed

text \<open>The gestures that are left after a touch has moved beyond the threshold.\<close>

lemma after_move:
  assumes shape: "gh_shape g" and det: "\<not> hasDetectedGesture g" and some: "tracked g \<noteq> []"
  shows "rule_out_moved g =
     narrowed (if g_state g = 127 then 8 else if g_state g \<in> {96, 102} then 96 else 0) (twoTouchTimer g) g"
proof -
  have "g_state g = 127 \<and> length (tracked g) = 1 \<or> g_state g \<in> {96, 102} \<and> length (tracked g) = 2 \<or>
      g_state g = 4 \<and> length (tracked g) = 3 \<or> g_state g = 2 \<and> length (tracked g) = 2 \<or> g_state g = 0"
    using shape det some has_detected [OF shape] by (auto simp: gh_shape_def)
  then show ?thesis
    by (elim disjE conjE) (auto simp: rule_out_moved_def narrowed_def rule_out_def stopLongpressTimeout_def gh_bits js_num Let_def)
qed

lemma decide_two_touch_ok:
  assumes ok: "gh_ok F g" and det: "\<not> hasDetectedGesture g" and two: "length (tracked g) = 2"
  defines "h \<equiv> narrowed (if g_state g \<in> {96, 102} then 96 else 0) (twoTouchTimer g) g"
  shows "fst (decide_two_touch E i t h) = Ret () \<and>
    (gh_ok F (snd (decide_two_touch E i t h)) \<and> \<not> hasDetectedGesture (snd (decide_two_touch E i t h)) \<or>
     gh_new F (snd (decide_two_touch E i t h)))"
proof -
  obtain a b where ab: "tracked g = [a, b]" using two by (auto simp: length_Suc_conv numeral_2_eq_2)
  have "t_id a \<noteq> t_id b" using ok by (simp add: gh_ok_def gh_ids_def ab)
  then obtain prev where prev: "find (\<lambda>t. t_id t \<noteq> i) (tracked h) = Some prev"
    by (cases "t_id a = i") (auto simp: h_def narrowed_steps ab)
  define s where "s = (if g_state g \<in> {96, 102} then 96 else 0 :: int)"
  have h: "h = narrowed s (twoTouchTimer g) g" by (simp add: h_def s_def)
  have some: "tracked g \<noteq> []" by (simp add: ab)
  let ?r = "snd (decide_two_touch E i t h)"
  have "?r \<in> {narrowed s (twoTouchTimer g) g, narrowed s Running g} \<or>
      ?r \<in> {narrowed (js_and s (js_not 32)) Unset g, narrowed (js_and s (js_not 64)) Unset g}"
    unfolding decide_two_touch_def prev unfolding h by (auto simp: narrowed_steps gh_bits Let_def)
  moreover have "s \<noteq> 0 \<Longrightarrow> js_and s (js_not 32) \<in> {32, 64} \<and> js_and s (js_not 64) \<in> {32, 64}"
    by (simp add: s_def js_num split: if_splits)
  moreover have "s = 0 \<Longrightarrow> js_and s (js_not 32) = 0 \<and> js_and s (js_not 64) = 0"
    by (simp add: js_num)
  moreover have "s = 0 \<or> s = 96 \<and> g_state g \<in> {96, 102}" by (simp add: s_def)
  moreover have "gh_ok F (narrowed s' x g) \<and> \<not> hasDetectedGesture (narrowed s' x g)"
    if "s' = 0 \<or> s' = 96 \<and> g_state g \<in> {96, 102}" for s' x
    using narrowed_ok [OF ok det some that, of x] two has_detected [of "narrowed s' x g"] that
    by (auto simp: gh_ok_def narrowed_def)
  moreover have "gh_new F (narrowed s' Unset g)" if "s' \<in> {32, 64}" for s'
    by (rule narrowed_new [OF ok det some]) (use that in auto)
  ultimately have "gh_ok F ?r \<and> \<not> hasDetectedGesture ?r \<or> gh_new F ?r"
    by (cases "s = 0") auto
  moreover have "fst (decide_two_touch E i t h) = Ret ()" by (simp add: decide_two_touch_def prev)
  ultimately show ?thesis by simp
qed

text \<open>A call that throws nothing and leaves the invariant.\<close>

definition safe :: "int set \<Rightarrow> unit outcome \<times> gesture_handler \<Rightarrow> bool" where
  "safe F p \<longleftrightarrow> fst p = Ret () \<and> gh_ok F (snd p)"

lemma safe_Ret [simp]: "safe F (Ret (), g) \<longleftrightarrow> gh_ok F g"
  by (simp add: safe_def)

lemma safe_andthen:
  assumes "safe F p" "\<And>g. gh_ok F g \<Longrightarrow> safe G (k () g)"
  shows "safe G (andthen p k)"
  using assms by (cases p) (auto simp: safe_def)

lemma touchMove_ok:
  assumes ok: "gh_ok F g"
  shows "safe F (touchMove E i x y g)"
proof (cases "find (\<lambda>t. t_id t = i) (tracked g)")
  case None
  then show ?thesis using ok by (simp add: touchMove_def)
next
  case (Some t0)
  define t where "t = moved_to E x y t0"
  define h where "h = g\<lparr>tracked := update_first (\<lambda>t. t_id t = i) (moved_to E x y) (tracked g)\<rparr>"
  have h: "gh_ok F h" unfolding h_def by (rule gh_ok_alike [OF ok alike_moved])
  have "tracked g \<noteq> []" using Some by auto
  then have some: "tracked h \<noteq> []" using alike_facts(5) [OF alike_moved] by (simp add: h_def)
  have shape: "gh_shape h" using h by (simp add: gh_ok_def)
  define s where "s = (if g_state h = 127 then 8 else if g_state h \<in> {96, 102} then 96 else 0 :: int)"
  define m where "m = narrowed s (twoTouchTimer h) h"
  define d where "d = (if length (tracked m) = 2 then decide_two_touch E i t m else (Ret (), m))"
  have eq: "touchMove E i x y g =
     (if hasDetectedGesture h then pushEvent PMove h
      else if e_hypot E (x - firstX t) (y - firstY t) < GH_MOVE_THRESHOLD then (Ret (), h)
      else andthen d (\<lambda>u g. if \<not> hasDetectedGesture g then (Ret (), g)
                             else andthen (pushEvent PStart g) (\<lambda>u. pushEvent PMove)))"
    using after_move [OF shape _ some, folded s_def, folded m_def]
    by (simp add: touchMove_def Some t_def h_def d_def Let_def)
  show ?thesis
  proof (cases "hasDetectedGesture h")
    case True
    then show ?thesis using gh_ok_PMove [OF h] eq by (simp add: safe_def)
  next
    case False
    have "fst d = Ret () \<and> (gh_ok F (snd d) \<and> \<not> hasDetectedGesture (snd d) \<or> gh_new F (snd d))"
    proof (cases "length (tracked h) = 2")
      case two: True
      then have "g_state h \<noteq> 127" using shape some by (auto simp: gh_shape_def)
      then show ?thesis using decide_two_touch_ok [OF h False two, of E i t] two
        by (simp add: d_def m_def s_def narrowed_steps)
    next
      case other: False
      then have "s = 8 \<and> g_state h = 127 \<or> s = 0" using shape some by (auto simp: gh_shape_def s_def)
      then show ?thesis
      proof
        assume s: "s = 8 \<and> g_state h = 127"
        then have "twoTouchTimer h \<noteq> Running" using h by (auto simp: gh_ok_def gh_clocks_def)
        then show ?thesis using narrowed_new [OF h False some, of "twoTouchTimer h" s] s other
          by (simp add: d_def m_def narrowed_steps)
      next
        assume s: "s = 0"
        have "twoTouchTimer h = Running \<Longrightarrow> 2 \<le> length (tracked h)" using h by (simp add: gh_ok_def gh_clocks_def)
        then have "gh_ok F m" unfolding m_def using narrowed_ok [OF h False some] s by simp
        moreover have "\<not> hasDetectedGesture m" by (simp add: hasDetectedGesture_def m_def narrowed_def s GH_NOGESTURE_def)
        ultimately show ?thesis using other by (simp add: d_def m_def narrowed_steps)
      qed
    qed
    moreover have "hasDetectedGesture (snd d)" if "gh_new F (snd d)"
      using that has_detected by (auto simp: gh_new_def)
    ultimately show ?thesis
      using eq False h start_and_move [of F "snd d"] by (cases d) (auto simp: safe_def)
  qed
qed

section \<open>Ending touches\<close>

text \<open>The handler when it has been decided which gestures a release may still complete.\<close>

definition gh_release :: "int set \<Rightarrow> gesture_handler \<Rightarrow> bool" where
  "gh_release F g \<longleftrightarrow> gh_ids F g \<and> g_target g \<and> tracked g \<noteq> [] \<and>
     longpressTimer g \<noteq> Running \<and> twoTouchTimer g \<noteq> Running \<and>
     (\<exists>c. gesture_run None (g_events g) = Some c \<and>
       (\<not> waitingRelease g \<and> g_state g \<in> {8, 16, 32, 64} \<and> map_option Ret c = Some (stateToGesture (g_state g)) \<or>
        waitingRelease g \<and> c \<in> {None, Some TwoDrag, Some Pinch} \<and>
          (g_state g \<in> {0, 32, 64} \<or> g_state g = 1 \<and> length (tracked g) = 1 \<or>
           g_state g = 2 \<and> length (tracked g) = 2 \<or> g_state g = 4 \<and> length (tracked g) = 3)))"

text \<open>The handler when the release ends the touch sequence.\<close>

definition gh_closing :: "int set \<Rightarrow> int \<Rightarrow> gesture_handler \<Rightarrow> bool" where
  "gh_closing F i g \<longleftrightarrow> distinct (fingers g) \<and> set (fingers g) - {i} = F - {i} \<and> g_target g \<and> tracked g \<noteq> [] \<and>
     longpressTimer g \<noteq> Running \<and> twoTouchTimer g \<noteq> Running \<and>
     (\<exists>c. gesture_run None (g_events g) = Some c \<and>
       (if hasDetectedGesture g then map_option Ret c = Some (stateToGesture (g_state g))
        else c \<in> {None, Some TwoDrag, Some Pinch}))"

lemma finish_ok:
  assumes "gh_closing F i g" "gesture_run None (g_events g) = Some c" "c \<in> {None, Some TwoDrag, Some Pinch}"
  shows "gh_ok (F - {i}) (finish_touch i g)"
proof -
  let ?h = "finish_touch i g"
  define ids where "ids = remove1 i (fingers g)"
  have ids: "distinct ids" "set ids = F - {i}"
    using assms(1) by (auto simp: ids_def gh_closing_def)
  have h: "ignored ?h = ids" "tracked ?h = []" "g_state ?h = (if ids = [] then 127 else 0)"
    "ids = [] \<Longrightarrow> \<not> waitingRelease ?h" "g_target ?h" "g_events ?h = g_events g"
    "longpressTimer ?h = longpressTimer g" "twoTouchTimer ?h = twoTouchTimer g"
    using assms(1) by (simp_all add: finish_touch_def ids_def gh_closing_def fingers_def gh_bits Let_def)
  show ?thesis using assms h ids
    by (auto simp: gh_ok_def gh_shape_def gh_clocks_def gh_ids_def fingers_def gh_told_def gh_closing_def)
qed

lemma close_ok:
  assumes "gh_closing F i g"
  shows "safe (F - {i})
    (andthen (if hasDetectedGesture g then pushEvent PEnd g else (Ret (), g)) (\<lambda>u g. (Ret (), finish_touch i g)))"
proof (cases "hasDetectedGesture g")
  case False
  then show ?thesis using assms finish_ok [OF assms] by (auto simp: gh_closing_def)
next
  case True
  obtain k where k: "gesture_run None (g_events g) = Some (Some k)" "stateToGesture (g_state g) = Ret k"
    using assms True by (auto simp: gh_closing_def)
  then obtain e where e: "g_kind e = k" "pushEvent PEnd g = (Ret (), g\<lparr>g_events := g_events g @ [(PEnd, e)]\<rparr>)"
    using pushEvent_ok [OF k(2)] assms by (auto simp: gh_closing_def)
  let ?h = "g\<lparr>g_state := 0, g_events := g_events g @ [(PEnd, e)]\<rparr>"
  have "gh_closing F i ?h"
    using assms k e by (auto simp: gh_closing_def fingers_def gesture_run_append hasDetectedGesture_def gh_bits)
  moreover have "gesture_run None (g_events ?h) = Some None" using k e by (simp add: gesture_run_append)
  ultimately have "gh_ok (F - {i}) (finish_touch i ?h)" by (rule finish_ok) simp
  moreover have "finish_touch i ?h = finish_touch i (g\<lparr>g_events := g_events g @ [(PEnd, e)]\<rparr>)"
    by (simp add: finish_touch_def Let_def)
  ultimately show ?thesis using True e by simp
qed

abbreviation lifted :: "int \<Rightarrow> touch list \<Rightarrow> touch list" where
  "lifted i \<equiv> update_first (\<lambda>t. t_id t = i) (\<lambda>t. t\<lparr>active := False\<rparr>)"

lemma lifted_active:
  "distinct (map t_id ts) \<Longrightarrow> map t_id (filter active (lifted i ts)) = filter (\<lambda>j. j \<noteq> i) (map t_id (filter active ts))"
proof (induction ts)
  case (Cons t ts)
  have "filter (\<lambda>j. j \<noteq> i) (map t_id (filter active ts)) = map t_id (filter active ts)" if "t_id t = i"
    using Cons.prems that by (auto simp: filter_id_conv image_iff)
  then show ?case using Cons by auto
qed simp

lemma lifted_facts:
  "map t_id (lifted i ts) = map t_id ts" "length (lifted i ts) = length ts" "lifted i ts = [] \<longleftrightarrow> ts = []"
  by (induction ts) auto

lemma find_active:
  assumes "gh_ids F g" "i \<in> F" "i \<notin> set (ignored g)"
  obtains t where "find (\<lambda>t. t_id t = i) (tracked g) = Some t"
  using assms by (cases "find (\<lambda>t. t_id t = i) (tracked g)") (auto simp: gh_ids_def fingers_def find_None_iff)

lemma release_waiting_ok:
  assumes ok: "gh_ok F g" and i: "i \<in> F" "i \<notin> set (ignored g)"
  shows "gh_release F (release_waiting E (if \<not> hasDetectedGesture g \<and> isTwoTouchTimeoutRunning g
    then (stopTwoTouchTimeout g)\<lparr>g_state := GH_NOGESTURE\<rparr> else g))"
proof -
  have g: "gh_shape g" "gh_clocks g" "gh_ids F g" "gh_told g" "g_target g" using ok by (simp_all add: gh_ok_def)
  obtain u where "find (\<lambda>t. t_id t = i) (tracked g) = Some u" by (rule find_active [OF g(3) i])
  then have some: "tracked g \<noteq> []" by auto
  note det = has_detected [OF g(1)]
  show ?thesis
  proof (cases "hasDetectedGesture g")
    case True
    then have s: "g_state g \<in> {8, 16, 32, 64}" using det by simp
    then obtain c where c: "gesture_run None (g_events g) = Some c" "map_option Ret c = Some (stateToGesture (g_state g))"
      using g(4) by (auto simp: gh_told_def)
    have "waitingRelease g \<Longrightarrow> g_state g \<in> {32, 64}" using g(1) s some by (auto simp: gh_shape_def)
    moreover have "g_state g \<in> {32, 64} \<Longrightarrow> c \<in> {None, Some TwoDrag, Some Pinch}" using c(2) by auto
    moreover have "longpressTimer g \<noteq> Running \<and> twoTouchTimer g \<noteq> Running"
      using g(2) s by (auto simp: gh_clocks_def)
    ultimately have "gh_release F g"
      unfolding gh_release_def using g(3,5) some c s by (cases "waitingRelease g") simp_all
    then show ?thesis using True by (simp add: release_waiting_def)
  next
    case False
    obtain c where c: "gesture_run None (g_events g) = Some c" "c \<in> {None, Some TwoDrag, Some Pinch}"
      using g(4) False det by (auto simp: gh_told_def split: if_splits)
    have st: "g_state g = 0 \<or> g_state g = 127 \<and> length (tracked g) = 1 \<and> \<not> waitingRelease g \<or>
        g_state g \<in> {96, 102} \<and> length (tracked g) = 2 \<and> \<not> waitingRelease g \<or>
        g_state g = 4 \<and> length (tracked g) = 3 \<or> g_state g = 2 \<and> length (tracked g) = 2 \<and> waitingRelease g"
      using g(1) False det some by (auto simp: gh_shape_def)
    define h where "h = (if isTwoTouchTimeoutRunning g then (stopTwoTouchTimeout g)\<lparr>g_state := GH_NOGESTURE\<rparr> else g)"
    have h: "g_state h \<in> {0, g_state g}" "tracked h = tracked g" "waitingRelease h = waitingRelease g"
      "twoTouchTimer h = Unset" "gh_ids F h" "g_events h = g_events g" "g_target h"
      using g(3,5) by (auto simp: h_def isTwoTouchTimeoutRunning_def stopTwoTouchTimeout_def gh_ids_def fingers_def gh_bits)
    have "isTwoTouchTimeoutRunning g \<Longrightarrow> g_state h = GH_NOGESTURE" by (simp add: h_def)
    moreover have "\<not> isTwoTouchTimeoutRunning g \<Longrightarrow> h = g" by (simp add: h_def)
    ultimately have "\<not> hasDetectedGesture h" using False by (metis hasDetectedGesture_def)
    then have eq: "release_waiting E h = h\<lparr>g_state := g_state (release_waiting E h), longpressTimer := Unset,
        waitingRelease := True, releaseStart := releaseStart (release_waiting E h)\<rparr>"
      by (auto simp: release_waiting_def Let_def stopLongpressTimeout_def rule_out_def)
    have "g_state (release_waiting E h) = 0 \<or> g_state (release_waiting E h) = 1 \<and> length (tracked g) = 1 \<or>
        g_state (release_waiting E h) = 2 \<and> length (tracked g) = 2 \<or>
        g_state (release_waiting E h) = 4 \<and> length (tracked g) = 3"
      using \<open>\<not> hasDetectedGesture h\<close> st h(1,2,3)
      by (auto simp: release_waiting_def Let_def stopLongpressTimeout_def rule_out_def gh_bits js_num)
    then have "gh_release F (release_waiting E h)"
      using h c some by (subst eq) (auto simp: gh_release_def gh_ids_def fingers_def)
    then show ?thesis using False by (simp add: h_def)
  qed
qed

lemma gh_release_zero: "gh_release F g \<Longrightarrow> waitingRelease g \<Longrightarrow> gh_release F (g\<lparr>g_state := 0\<rparr>)"
  unfolding gh_release_def gh_ids_def fingers_def by simp blast

lemma too_late_eq: "too_late E g = g \<or> too_late E g = g\<lparr>g_state := 0\<rparr>"
  by (simp add: too_late_def Let_def GH_NOGESTURE_def)

text \<open>After a release either the handler waits for others, or the sequence ends.\<close>

definition released :: "int set \<Rightarrow> int \<Rightarrow> bool outcome \<times> gesture_handler \<Rightarrow> bool" where
  "released F i p \<longleftrightarrow> (case p of (Ret True, g) \<Rightarrow> gh_ok (F - {i}) g | (Ret False, g) \<Rightarrow> gh_closing F i g | _ \<Rightarrow> False)"

lemma lifted_released:
  assumes rel: "gh_release F g" and w: "waitingRelease g" and i: "i \<notin> set (ignored g)"
    and found: "find (\<lambda>t. t_id t = i) (tracked g) = Some u"
  defines "h \<equiv> g\<lparr>tracked := lifted i (tracked g)\<rparr>"
  shows "released F i (if hasDetectedGesture h then andthen (pushEvent PStart h) (\<lambda>u g. (Ret False, g))
    else (Ret (g_state h \<noteq> GH_NOGESTURE), h))"
proof -
  have ids: "gh_ids F g" using rel by (simp add: gh_release_def)
  have "filter (\<lambda>j. j \<noteq> i) (ignored g) = ignored g" using i by (auto simp: filter_id_conv)
  then have "fingers h = filter (\<lambda>j. j \<noteq> i) (fingers g)"
    using ids lifted_active [of "tracked g" i] by (simp add: gh_ids_def fingers_def h_def)
  then have fin: "distinct (fingers h)" "set (fingers h) = F - {i}"
    using ids by (auto simp: gh_ids_def)
  obtain c where c: "gesture_run None (g_events h) = Some c" "c \<in> {None, Some TwoDrag, Some Pinch}"
    and st: "g_state h \<in> {0, 32, 64} \<or> g_state h = 1 \<and> length (tracked h) = 1 \<or>
        g_state h = 2 \<and> length (tracked h) = 2 \<or> g_state h = 4 \<and> length (tracked h) = 3"
    using rel w by (auto simp: gh_release_def h_def lifted_facts)
  have h: "g_target h" "tracked h \<noteq> []" "longpressTimer h \<noteq> Running" "twoTouchTimer h \<noteq> Running" "waitingRelease h"
    "distinct (map t_id (tracked h))"
    using rel w by (auto simp: gh_release_def gh_ids_def h_def lifted_facts)
  show ?thesis
  proof (cases "hasDetectedGesture h")
    case True
    then have "g_state h \<noteq> 0" by (auto simp: hasDetectedGesture_def GH_NOGESTURE_def)
    then obtain k where k: "stateToGesture (g_state h) = Ret k" using st by auto
    then obtain e where e: "g_kind e = k" "pushEvent PStart h = (Ret (), h\<lparr>g_events := g_events h @ [(PStart, e)]\<rparr>)"
      using pushEvent_ok [OF k] h by blast
    have "hasDetectedGesture (h\<lparr>g_events := g_events h @ [(PStart, e)]\<rparr>)"
      using True detected_events by simp
    then have "gh_closing F i (h\<lparr>g_events := g_events h @ [(PStart, e)]\<rparr>)"
      using fin h c k e by (auto simp: gh_closing_def fingers_def gesture_run_append)
    then show ?thesis using True e by (simp add: released_def)
  next
    case False
    show ?thesis
    proof (cases "g_state h = 0")
      case True
      then have "gh_closing F i h" using fin h c False by (auto simp: gh_closing_def)
      then show ?thesis using False True by (simp add: released_def GH_NOGESTURE_def)
    next
      case nz: False
      then have tap: "g_state h \<in> {1, 2, 4}" "list_ex active (tracked h)"
        using False st by (auto simp: hasDetectedGesture_def gh_bits js_num split: if_splits)
      have "length (tracked h) \<noteq> 1"
        using tap(2) found by (cases "tracked g") (auto simp: h_def lifted_facts split: if_splits)
      then have s: "g_state h = 2 \<and> length (tracked h) = 2 \<or> g_state h = 4 \<and> length (tracked h) = 3"
        using st tap by auto
      then have "gh_shape h" using h tap(2) by (auto simp: gh_shape_def)
      moreover have "gh_clocks h" "gh_ids (F - {i}) h" using h fin by (simp_all add: gh_clocks_def gh_ids_def)
      moreover have "gh_told h" using s c by (auto simp: gh_told_def)
      ultimately have "gh_ok (F - {i}) h" using h by (simp add: gh_ok_def)
      then show ?thesis using False nz by (simp add: released_def GH_NOGESTURE_def)
    qed
  qed
qed

lemma release_together_ok:
  assumes rel: "gh_release F g" and i: "i \<in> F" "i \<notin> set (ignored g)"
  shows "released F i (release_together E i g)"
proof (cases "waitingRelease g")
  case False
  then have "hasDetectedGesture g" using rel by (auto simp: gh_release_def hasDetectedGesture_def gh_bits js_num)
  then have "gh_closing F i g" using rel False by (auto simp: gh_release_def gh_closing_def gh_ids_def)
  then show ?thesis using False by (simp add: released_def release_together_def)
next
  case w: True
  have late: "gh_release F (too_late E g)" "waitingRelease (too_late E g)" "ignored (too_late E g) = ignored g"
    using too_late_eq [of E g] rel w gh_release_zero [OF rel w] by auto
  obtain u where u: "find (\<lambda>t. t_id t = i) (tracked (too_late E g)) = Some u"
    by (rule find_active [of F "too_late E g" i]) (use late i in \<open>auto simp: gh_release_def\<close>)
  show ?thesis using lifted_released [OF late(1,2) _ u] late(3) i(2) w u
    by (simp add: release_together_def Let_def)
qed

lemma touchEnd_ok:
  assumes ok: "gh_ok F g" and i: "i \<in> F"
  shows "safe (F - {i}) (touchEnd E i g)"
proof (cases "i \<in> set (ignored g)")
  case True
  let ?h = "g\<lparr>ignored := remove1 i (ignored g)\<rparr>"
  have g: "gh_shape g" "gh_clocks g" "gh_ids F g" "gh_told g" "g_target g" using ok by (simp_all add: gh_ok_def)
  have ids: "gh_ids (F - {i}) ?h" using g(3) True by (auto simp: gh_ids_def fingers_def)
  have "ignored g \<noteq> []" using True by auto
  then have idle: "tracked g = [] \<Longrightarrow> g_state g = 0" using g(1) by (simp add: gh_shape_def)
  let ?r = "if ignored ?h = [] \<and> tracked ?h = [] then ?h\<lparr>g_state := 127, waitingRelease := False\<rparr> else ?h"
  have "gh_shape ?r" using g(1) idle by (auto simp: gh_shape_def)
  moreover have "gh_clocks ?r" using g(2) by (auto simp: gh_clocks_def)
  moreover have "gh_ids (F - {i}) ?r" using ids by (auto simp: gh_ids_def fingers_def)
  moreover have "gh_told ?r" using g(4) idle by (auto simp: gh_told_def)
  ultimately have "gh_ok (F - {i}) ?r" using g(5) by (simp add: gh_ok_def)
  then show ?thesis using True by (auto simp: touchEnd_def GH_INITSTATE_def Let_def split: if_splits)
next
  case False
  define h where "h = release_waiting E (if \<not> hasDetectedGesture g \<and> isTwoTouchTimeoutRunning g
    then (stopTwoTouchTimeout g)\<lparr>g_state := GH_NOGESTURE\<rparr> else g)"
  have rel: "gh_release F h" unfolding h_def by (rule release_waiting_ok [OF ok i False])
  have "ignored h = ignored g"
    by (simp add: h_def release_waiting_def Let_def stopLongpressTimeout_def rule_out_def stopTwoTouchTimeout_def)
  then have rt: "released F i (release_together E i h)" using release_together_ok [OF rel i] False by simp
  have eq: "touchEnd E i g = andthen (release_together E i h) (\<lambda>waits g.
      if waits then (Ret (), g)
      else andthen (if hasDetectedGesture g then pushEvent PEnd g else (Ret (), g)) (\<lambda>u g. (Ret (), finish_touch i g)))"
    using False by (simp add: touchEnd_def h_def Let_def)
  show ?thesis
  proof (cases "release_together E i h")
    case (Pair o1 h1)
    then show ?thesis
      using rt close_ok [of F i h1] unfolding eq by (cases o1) (simp_all add: released_def split: bool.splits if_splits)
  qed
qed

section \<open>Timers and whole events\<close>

text \<open>A timer that starts a gesture: the invariant of the handler with its new state.\<close>

lemma timer_new:
  assumes ok: "gh_ok F g" and det: "g_state g \<in> {0, 96, 127}" and some: "tracked g \<noteq> []" and l: "l \<noteq> Running" and t: "t \<noteq> Running"
    and s: "s \<in> {32, 64} \<or> s = 16 \<and> length (tracked g) = 1 \<and> \<not> waitingRelease g"
  shows "gh_new F (g\<lparr>longpressTimer := l, twoTouchTimer := t, g_state := s\<rparr>)"
proof -
  let ?h = "g\<lparr>longpressTimer := l, twoTouchTimer := t, g_state := s\<rparr>"
  have g: "gh_shape g" "gh_ids F g" "gh_told g" "g_target g" using ok by (simp_all add: gh_ok_def)
  have "gh_shape ?h" using g(1) s some by (auto simp: gh_shape_def)
  moreover have "gh_clocks ?h" using l t by (simp add: gh_clocks_def)
  moreover have "gh_ids F ?h" using g(2) by (simp add: gh_ids_def fingers_def)
  moreover have "gesture_run None (g_events g) \<in> Some ` {None, Some TwoDrag, Some Pinch}"
    using g(3) det by (auto simp: gh_told_def)
  ultimately show ?thesis using g(4) s by (auto simp: gh_new_def)
qed

lemma longpress_ok:
  assumes ok: "gh_ok F g" and run: "longpressTimer g = Running"
  shows "safe F (longpressTimeout (g\<lparr>longpressTimer := Expired\<rparr>))"
proof -
  have s: "length (tracked g) = 1" "g_state g \<in> {0, 127}" "\<not> waitingRelease g" "twoTouchTimer g \<noteq> Running"
    using ok run by (auto simp: gh_ok_def gh_clocks_def)
  then have "\<not> hasDetectedGesture (g\<lparr>longpressTimer := Expired\<rparr>)"
    by (auto simp: hasDetectedGesture_def GH_NOGESTURE_def js_num)
  moreover have "gh_new F (g\<lparr>longpressTimer := Expired, g_state := 16\<rparr>)"
    using timer_new [OF ok _ _ _ s(4), of Expired 16] s by (cases "tracked g") auto
  ultimately show ?thesis using gh_ok_PStart by (simp add: longpressTimeout_def safe_def GH_LONGPRESS_def)
qed

lemma twoTouch_ok:
  assumes ok: "gh_ok F g" and run: "twoTouchTimer g = Running"
  shows "safe F (twoTouchTimeout E (g\<lparr>twoTouchTimer := Expired\<rparr>))"
proof -
  have s: "2 \<le> length (tracked g)" "longpressTimer g \<noteq> Running" "g_state g \<in> {0, 96, 127}"
    using ok run by (auto simp: gh_ok_def gh_clocks_def)
  then have some: "tracked g \<noteq> []" by auto
  have "g\<lparr>longpressTimer := longpressTimer g, twoTouchTimer := Expired, g_state := s\<rparr> =
      g\<lparr>twoTouchTimer := Expired, g_state := s\<rparr>" for s by (cases g) simp
  then have "gh_new F (g\<lparr>twoTouchTimer := Expired, g_state := s\<rparr>)" if "s \<in> {32, 64}" for s
    using timer_new [OF ok s(3) some s(2), of Expired s] that by auto
  then have "safe F (andthen (pushEvent PStart (g\<lparr>twoTouchTimer := Expired, g_state := s\<rparr>)) (\<lambda>u. pushEvent PMove))"
    if "s \<in> {32, 64}" for s using start_and_move that by (auto simp: safe_def)
  then show ?thesis
    using some by (simp add: twoTouchTimeout_def getAverageMovement_def getAverageDistance_def gh_bits Let_def)
qed

text \<open>An event with several touches.\<close>

lemma touches_ok:
  "gh_ok F g \<Longrightarrow> touch_ok F (Touches ty ts) \<Longrightarrow> safe (fingers_after (Touches ty ts) F) (gh_eventHandler E ty ts g)"
proof (induction ts arbitrary: F g)
  case Nil
  then show ?case by (cases ty) simp_all
next
  case (Cons t ts)
  obtain i x y where t: "t = (i, x, y)" by (cases t)
  define G where "G = fingers_after (Touches ty [t]) F"
  have one: "safe G (handle_touch E ty t g)"
    using Cons.prems touchStart_ok touchMove_ok touchEnd_ok
    by (cases ty) (auto simp: t G_def handle_touch_def)
  have later: "touch_ok G (Touches ty ts)" "fingers_after (Touches ty ts) G = fingers_after (Touches ty (t # ts)) F"
    using Cons.prems(2) by (cases ty; force simp: G_def t)+
  show ?case unfolding gh_eventHandler.simps
    by (rule safe_andthen [OF one]) (use Cons.IH [OF _ later(1)] later(2) in simp)
qed

lemma gh_step_ok: "gh_ok F g \<Longrightarrow> touch_ok F a \<Longrightarrow> safe (fingers_after a F) (gh_step E a g)"
  using touches_ok longpress_ok twoTouch_ok by (cases a) auto

lemma touched_ok: "touched F g \<Longrightarrow> gh_ok F g"
proof (induction rule: touched.induct)
  case attached
  show ?case by (rule gh_ok_attached)
next
  case (stepped F g a E)
  then show ?case using gh_step_ok [of F g a E] by (simp add: safe_def)
qed

lemma open_finger:
  assumes "touched F g"
  obtains c where "gesture_run None (g_events g) = Some c" "c \<in> {None, Some TwoDrag, Some Pinch} \<or> F \<noteq> {}"
proof -
  have g: "gh_shape g" "gh_ids F g" "gh_told g" using touched_ok [OF assms] by (simp_all add: gh_ok_def)
  have "F \<noteq> {}" if "g_state g \<in> {8, 16, 32, 64}"
  proof -
    have "list_ex active (tracked g)" using g(1) that by (auto simp: gh_shape_def split: if_splits)
    then show ?thesis using g(2) by (auto simp: gh_ids_def fingers_def list_ex_iff)
  qed
  then show ?thesis using g(3) that by (auto simp: gh_told_def split: if_splits)
qed

section \<open>Taps\<close>

text \<open>A handler without touches.\<close>

definition idle :: "gesture_handler \<Rightarrow> bool" where
  "idle g \<longleftrightarrow> g_target g \<and> g_state g = GH_INITSTATE \<and> tracked g = [] \<and> ignored g = [] \<and> \<not> waitingRelease g"

definition gh_steps :: "(touch_env \<times> touch_op) list \<Rightarrow> gesture_handler \<Rightarrow> gesture_handler" where
  "gh_steps as g = fold (\<lambda>(E, a) g. snd (gh_step E a g)) as g"

definition small_move :: "rat \<Rightarrow> rat \<Rightarrow> touch_env \<times> rat \<times> rat \<Rightarrow> bool" where
  "small_move x y m \<longleftrightarrow> (case m of (E, x', y') \<Rightarrow> e_hypot E (x' - x) (y' - y) < GH_MOVE_THRESHOLD)"

definition moves_of :: "int \<Rightarrow> (touch_env \<times> rat \<times> rat) list \<Rightarrow> (touch_env \<times> touch_op) list" where
  "moves_of i ms = map (\<lambda>(E, x, y). (E, Touches TouchMove [(i, x, y)])) ms"

definition last_position :: "rat \<Rightarrow> rat \<Rightarrow> (touch_env \<times> rat \<times> rat) list \<Rightarrow> point" where
  "last_position x y ms = (if ms = [] then (x, y) else snd (last ms))"

text \<open>One finger that has not moved far.\<close>

definition pressed :: "touch_env \<Rightarrow> int \<Rightarrow> rat \<Rightarrow> rat \<Rightarrow> point \<Rightarrow> rat \<Rightarrow> gesture_handler \<Rightarrow> gesture_handler" where
  "pressed E i x y p a g =
     g\<lparr>tracked := [(new_touch E i x y)\<lparr>lastX := fst p, lastY := snd p, angle := a\<rparr>], longpressTimer := Running\<rparr>"

lemma press_idle: "idle g \<Longrightarrow> gh_step E (Touches TouchStart [(i, x, y)]) g = (Ret (), pressed E i x y (x, y) 0 g)"
  by (simp add: idle_def handle_touch_def touchStart_def hasDetectedGesture_def gh_bits js_num pressed_def
      startLongpressTimeout_def stopLongpressTimeout_def new_touch_def Let_def)

lemma pressed_moves:
  assumes "idle g" "small_move x y (E', x', y')"
  shows "\<exists>a'. gh_step E' (Touches TouchMove [(i, x', y')]) (pressed E i x y p a g) =
    (Ret (), pressed E i x y (x', y') a' g)"
proof -
  have det: "\<not> hasDetectedGesture (pressed E i x y q b g)" for q b
    using assms(1) by (simp add: idle_def hasDetectedGesture_def gh_bits js_num pressed_def new_touch_def)
  define a' where "a' = (if x \<noteq> x' \<or> y \<noteq> y' then e_angle E' (y' - y) (x' - x) else a)"
  let ?g = "pressed E i x y (x', y') a' g"
  have "(pressed E i x y p a g)\<lparr>tracked := update_first (\<lambda>t. t_id t = i) (moved_to E' x' y') (tracked (pressed E i x y p a g))\<rparr>
      = ?g"
    by (simp add: pressed_def new_touch_def moved_to_def a'_def Let_def)
  moreover have "find (\<lambda>t. t_id t = i) (tracked (pressed E i x y p a g)) =
      Some ((new_touch E i x y)\<lparr>lastX := fst p, lastY := snd p, angle := a\<rparr>)"
    by (simp add: pressed_def new_touch_def)
  moreover have "firstX (moved_to E' x' y' ((new_touch E i x y)\<lparr>lastX := fst p, lastY := snd p, angle := a\<rparr>)) = x"
    "firstY (moved_to E' x' y' ((new_touch E i x y)\<lparr>lastX := fst p, lastY := snd p, angle := a\<rparr>)) = y"
    by (simp_all add: moved_to_def new_touch_def Let_def)
  ultimately have "touchMove E' i x' y' (pressed E i x y p a g) = (Ret (), ?g)"
    using det assms(2) by (simp add: touchMove_def small_move_def Let_def)
  then show ?thesis by (auto simp: handle_touch_def)
qed

lemma pressed_steps:
  assumes "idle g" "list_all (small_move x y) ms"
  shows "\<exists>a'. gh_steps (moves_of i ms) (pressed E i x y p a g) =
    pressed E i x y (if ms = [] then p else snd (last ms)) a' g"
  using assms(2)
proof (induction ms arbitrary: p a)
  case Nil
  then show ?case by (auto simp: gh_steps_def moves_of_def)
next
  case (Cons m ms)
  obtain E' x' y' where m: "m = (E', x', y')" by (cases m)
  have "small_move x y (E', x', y')" using Cons.prems by (simp add: m)
  then obtain a' where "gh_step E' (Touches TouchMove [(i, x', y')]) (pressed E i x y p a g) =
      (Ret (), pressed E i x y (x', y') a' g)"
    using pressed_moves [OF assms(1)] by blast
  then show ?case using Cons.IH [of "(x', y')" a'] Cons.prems by (auto simp: m gh_steps_def moves_of_def)
qed

abbreviation tap_at :: "point \<Rightarrow> gesture" where
  "tap_at p \<equiv> \<lparr>g_kind = OneTap, g_x = fst p, g_y = snd p, g_magX = 0, g_magY = 0\<rparr>"

lemma release_pressed:
  assumes g: "idle g" and unset: "twoTouchTimer g = Unset" and t: "e_now E' - e_now E \<le> GH_TAP_TIMEOUT"
  shows "snd (gh_step E' (Touches TouchEnd [(i, u, v)]) (pressed E i x y p a g)) =
    g\<lparr>longpressTimer := Unset, releaseStart := e_now E', g_events := g_events g @ [(PStart, tap_at (x, y)), (PEnd, tap_at p)]\<rparr>"
proof -
  define s where "s = (new_touch E i x y)\<lparr>lastX := fst p, lastY := snd p, angle := a\<rparr>"
  define h1 where "h1 = g\<lparr>tracked := [s], longpressTimer := Unset, g_state := 1, releaseStart := e_now E',
    waitingRelease := True\<rparr>"
  define h2 where "h2 = h1\<lparr>tracked := [s\<lparr>active := False\<rparr>]\<rparr>"
  have s: "t_id s = i" "active s" "started s = e_now E" "firstX s = x" "firstY s = y" "lastX s = fst p" "lastY s = snd p"
    by (simp_all add: s_def new_touch_def)
  let ?P = "pressed E i x y p a g"
  have P: "g_state ?P = 127" "tracked ?P = [s]" "ignored ?P = []" "twoTouchTimer ?P = Unset" "\<not> waitingRelease ?P"
    using g unset by (simp_all add: pressed_def idle_def s_def GH_INITSTATE_def)
  have det: "\<not> hasDetectedGesture ?P" by (simp add: hasDetectedGesture_def P GH_NOGESTURE_def js_num)
  have "release_waiting E' ?P = h1"
    using g P det by (simp add: release_waiting_def Let_def rule_out_def stopLongpressTimeout_def gh_bits js_num)
      (simp add: h1_def pressed_def s_def idle_def)
  moreover have "too_late E' h1 = h1"
    using t s by (simp add: too_late_def h1_def GH_MULTITOUCH_TIMEOUT_def)
  moreover have "h1\<lparr>tracked := lifted i (tracked h1)\<rparr> = h2" by (simp add: h1_def h2_def s)
  moreover have "find (\<lambda>t. t_id t = i) (tracked h1) = Some s" "waitingRelease h1" by (simp_all add: h1_def s)
  moreover have det2: "hasDetectedGesture (h2\<lparr>g_events := es\<rparr>)" for es
    by (simp add: hasDetectedGesture_def h2_def h1_def gh_bits js_num)
  moreover have push: "pushEvent phase (h2\<lparr>g_events := es\<rparr>) =
      (Ret (), h2\<lparr>g_events := es @ [(phase, tap_at (if phase = PStart then (x, y) else p))]\<rparr>)" for phase es
    using g by (simp add: pushEvent_def h2_def h1_def getPosition_def average_def magnitude_def gh_bits s idle_def
        Let_def)
  moreover have "hasDetectedGesture h2" using det2 [of "g_events h2"] by simp
  moreover have "pushEvent PStart h2 = (Ret (), h2\<lparr>g_events := g_events g @ [(PStart, tap_at (x, y))]\<rparr>)"
    using push [of PStart "g_events h2"] by (simp add: h2_def h1_def)
  ultimately have "touchEnd E' i ?P = (Ret (), finish_touch i (h2\<lparr>g_events :=
      g_events g @ [(PStart, tap_at (x, y)), (PEnd, tap_at p)]\<rparr>))"
    using P det push [of PEnd "g_events g @ [(PStart, tap_at (x, y))]"]
    by (simp add: touchEnd_def release_together_def isTwoTouchTimeoutRunning_def Let_def)
  then show ?thesis
    using g by (simp add: handle_touch_def finish_touch_def h2_def h1_def idle_def Let_def)
qed

lemma release_expired:
  assumes g: "idle g" and set: "twoTouchTimer g \<noteq> Unset"
  shows "snd (gh_step E' (Touches TouchEnd [(i, u, v)]) (pressed E i x y p a g)) =
    g\<lparr>longpressTimer := Unset, twoTouchTimer := Unset, releaseStart := e_now E'\<rparr>"
proof -
  define s where "s = (new_touch E i x y)\<lparr>lastX := fst p, lastY := snd p, angle := a\<rparr>"
  define h1 where "h1 = g\<lparr>tracked := [s], longpressTimer := Unset, twoTouchTimer := Unset, g_state := 0,
    releaseStart := e_now E', waitingRelease := True\<rparr>"
  have s: "t_id s = i" "active s" by (simp_all add: s_def new_touch_def)
  let ?P = "pressed E i x y p a g"
  have P: "g_state ?P = 127" "tracked ?P = [s]" "ignored ?P = []" "twoTouchTimer ?P \<noteq> Unset" "\<not> waitingRelease ?P"
    using g set by (simp_all add: pressed_def idle_def s_def GH_INITSTATE_def)
  have det: "\<not> hasDetectedGesture ?P" by (simp add: hasDetectedGesture_def P GH_NOGESTURE_def js_num)
  have "release_waiting E' ((stopTwoTouchTimeout ?P)\<lparr>g_state := GH_NOGESTURE\<rparr>) = h1"
    using g P by (simp add: release_waiting_def Let_def rule_out_def stopLongpressTimeout_def gh_bits js_num
        hasDetectedGesture_def stopTwoTouchTimeout_def) (simp add: h1_def pressed_def s_def idle_def)
  moreover have "too_late E' h1 = h1" by (simp add: too_late_def h1_def GH_NOGESTURE_def Let_def)
  moreover have "find (\<lambda>t. t_id t = i) (tracked h1) = Some s" "waitingRelease h1" "g_state h1 = 0"
    "lifted i (tracked h1) = [s\<lparr>active := False\<rparr>]" by (simp_all add: h1_def s)
  moreover have "\<not> hasDetectedGesture (h1\<lparr>tracked := [s\<lparr>active := False\<rparr>]\<rparr>)"
    by (simp add: hasDetectedGesture_def h1_def GH_NOGESTURE_def)
  ultimately have "touchEnd E' i ?P = (Ret (), finish_touch i (h1\<lparr>tracked := [s\<lparr>active := False\<rparr>]\<rparr>))"
    using P det by (simp add: touchEnd_def release_together_def isTwoTouchTimeoutRunning_def GH_NOGESTURE_def Let_def)
  then show ?thesis
    using g by (simp add: handle_touch_def finish_touch_def h1_def idle_def Let_def)
qed

text \<open>The touches of a tap: a finger is put down at a point, moves a little, and is lifted.\<close>

definition tap_touches ::
  "touch_env \<Rightarrow> touch_env \<Rightarrow> int \<Rightarrow> point \<Rightarrow> (touch_env \<times> rat \<times> rat) list \<Rightarrow> (touch_env \<times> touch_op) list" where
  "tap_touches E E' i p ms =
     (E, Touches TouchStart [(i, fst p, snd p)]) # moves_of i ms @
     [(E', Touches TouchEnd [(i, last_position (fst p) (snd p) ms)])]"

lemma tap_steps:
  assumes "idle g" "list_all (small_move x y) ms"
  obtains a where "gh_steps (tap_touches E E' i (x, y) ms) g =
    snd (gh_step E' (Touches TouchEnd [(i, last_position x y ms)])
      (pressed E i x y (last_position x y ms) a g))"
proof -
  obtain a where a: "gh_steps (moves_of i ms) (pressed E i x y (x, y) 0 g) = pressed E i x y (last_position x y ms) a g"
    using pressed_steps [OF assms, of i E "(x, y)" 0] by (auto simp: last_position_def)
  have "gh_steps (tap_touches E E' i (x, y) ms) g =
      snd (gh_step E' (Touches TouchEnd [(i, last_position x y ms)])
        (gh_steps (moves_of i ms) (snd (gh_step E (Touches TouchStart [(i, x, y)]) g))))"
    by (simp add: tap_touches_def gh_steps_def)
  then show ?thesis using that a press_idle [OF assms(1)] by simp
qed

section \<open>Buttons held by gestures\<close>

definition deliver :: "('z, 'd) world \<times> gesture_phase \<times> gesture \<Rightarrow> 'z rfb \<Rightarrow> 'z rfb" where
  "deliver d r = (case d of (W, phase, e) \<Rightarrow>
     rfb_step W (case phase of PStart \<Rightarrow> GestureStart e | PMove \<Rightarrow> GestureMove e | PEnd \<Rightarrow> GestureEnd e) r)"

fun held_button :: "gesture_kind option \<Rightarrow> int" where
  "held_button (Some Drag) = 1"
| "held_button (Some LongPress) = 4"
| "held_button _ = 0"

text \<open>A client whose canvas listens, that does not drag its viewport, with the given buttons pressed.\<close>

definition holds :: "int \<Rightarrow> 'z rfb \<Rightarrow> bool" where
  "holds m r \<longleftrightarrow> \<not> dragViewport (sets r) \<and> canvasListeners (page r) \<and> mouseButtonMask (ptr r) = m"

lemma holds_frame [simp]:
  "holds m (on_sock f r) = holds m r" "holds m (on_disp d r) = holds m r" "holds m (sendMouse x y b r) = holds m r"
  "holds m (setTimeout tm r) = holds m r" "holds m (clearTimeout tm r) = holds m r"
  by (simp_all add: holds_def on_sock_def on_disp_def sendMouse_def setTimeout_def clearTimeout_def on_page_def)

lemma holds_on_ptr: "(\<And>p. mouseButtonMask (f p) = mouseButtonMask p) \<Longrightarrow> holds m (on_ptr f r) = holds m r"
  by (simp add: holds_def on_ptr_def)

lemma holds_move [simp]: "holds m (handleMouseMove W x y r) = holds m r"
  by (simp add: handleMouseMove_def Let_def holds_on_ptr split: prod.splits)

lemma holds_cursorPos [simp]: "holds m (on_page (cursorPos_update f) r) = holds m r"
  by (simp add: holds_def on_page_def)

lemma holds_fake [simp]: "holds m (fakeMouseMove W cx cy x y r) = holds m r"
  by (simp add: fakeMouseMove_def)

lemma holds_button:
  assumes "holds m r"
  shows "holds (if down then js_or m b else js_and m (js_not b)) (handleMouseButton x y down b r)"
proof -
  define s where "s = (if mouseMoveTimer (ptr r)
    then sendMouse x y (mouseButtonMask (ptr r)) (on_ptr (\<lambda>p. p\<lparr>mouseMoveTimer := False\<rparr>) (clearTimeout TMouseMove r))
    else r)"
  have s: "holds m s" using assms by (simp add: s_def holds_on_ptr)
  have "handleMouseButton x y down b r =
      (let m = (if down then js_or (mouseButtonMask (ptr s)) b else js_and (mouseButtonMask (ptr s)) (js_not b));
           s = on_ptr (\<lambda>p. p\<lparr>mouseButtonMask := m\<rparr>) s
       in sendMouse x y (mouseButtonMask (ptr s)) s)"
    using assms by (simp add: handleMouseButton_def press_buttons_def s_def holds_def Let_def)
  then show ?thesis using s by (simp add: Let_def) (simp add: holds_def on_ptr_def)
qed

lemma press_release_0: "js_and (js_or 0 b) (js_not b) = 0"
  by (rule bit_eqI) (auto simp: js_num bit_simps)

lemma holds_click: "holds 0 r \<Longrightarrow> holds 0 (click x y b r)"
  using holds_button [OF holds_button [of 0 r True b x y], of False b x y]
  by (simp add: click_def press_release_0)

lemma holds_tap: "holds 0 r \<Longrightarrow> holds 0 (handleTapEvent W e b r)"
  by (simp add: handleTapEvent_def Let_def holds_click holds_on_ptr split: prod.splits)

lemma holds_scroll_up:
  assumes "holds m r" "\<And>r. holds m r \<Longrightarrow> holds m (f r)"
  shows "holds m (snd (scroll_up sens mag f prev r))"
  using assms by (induction sens mag f prev r rule: scroll_up.induct) (subst scroll_up.simps, simp)

lemma holds_scroll_axis:
  assumes "holds m r" "\<And>r. holds m r \<Longrightarrow> holds m (f r)" "\<And>r. holds m r \<Longrightarrow> holds m (g r)"
    "\<And>l p. mouseButtonMask (put l p) = mouseButtonMask p"
  shows "holds m (scroll_axis sens mag f g get put r)"
  using holds_scroll_up [OF holds_scroll_up [OF assms(1,2)] assms(3)] assms(4)
  by (simp add: scroll_axis_def scroll_down_def Let_def split_beta holds_on_ptr)

lemma holds_feat [simp]: "holds m (on_feat f r) = holds m r"
  by (simp add: holds_def on_feat_def)

lemma holds_sendKey [simp]: "holds m (sendKey k code d r) = holds m r"
  by (simp add: sendKey_def sendKey_once_def Let_def split: option.splits)

lemma holds_handleKeyEvent [simp]: "holds m (handleKeyEvent k code d n c r) = holds m r"
  by (simp add: handleKeyEvent_def press_lock_def Let_def)

lemma holds_start:
  assumes "holds 0 r" shows "holds (held_button (Some (g_kind e))) (gesturestart W e r)"
proof -
  have *: "holds b (handleMouseButton x y True b (fakeMouseMove W cx cy x y r))" if "b \<in> {1, 4}" for b x y cx cy
    using holds_button [of 0 "fakeMouseMove W cx cy x y r" True b x y] assms that by (auto simp: js_num)
  show ?thesis using assms
    by (cases "g_kind e") (simp_all add: gesturestart_def Let_def split_beta * holds_tap holds_on_ptr)
qed

lemma holds_gesturemove:
  assumes "holds (held_button (Some (g_kind e))) r"
  shows "holds (held_button (Some (g_kind e))) (gesturemove W e r)"
  using assms
  by (cases "g_kind e") (auto simp: gesturemove_def Let_def split_beta intro!: holds_scroll_axis holds_click)

lemma holds_end:
  assumes "holds (held_button (Some (g_kind e))) r" shows "holds 0 (gestureend W e r)"
proof -
  have *: "holds 0 (handleMouseButton x y False b (fakeMouseMove W cx cy x y r))"
    if "b \<in> {1, 4}" "holds b r" for b x y cx cy
    using holds_button [of b "fakeMouseMove W cx cy x y r" False b x y] that by (auto simp: js_num)
  show ?thesis using assms by (cases "g_kind e") (simp_all add: gestureend_def Let_def split_beta *)
qed

lemma holds_deliver:
  assumes "holds (held_button c) r" "gesture_run c [(phase, e)] = Some c'"
  shows "holds (held_button c') (deliver (W, phase, e) r)"
proof -
  have "canvasListeners (page r)" using assms(1) by (simp add: holds_def)
  then show ?thesis
    using assms holds_start [of r e W] holds_gesturemove [of e r W] holds_end [of e r W]
    by (cases phase) (auto simp: deliver_def split: if_splits)
qed

lemma holds_delivers:
  assumes "holds (held_button c) r" "gesture_run c (map snd ds) = Some c'"
  shows "holds (held_button c') (fold deliver ds r)"
  using assms
proof (induction ds arbitrary: c r)
  case (Cons d ds)
  obtain W phase e where d: "d = (W, phase, e)" by (cases d)
  obtain c1 where c1: "gesture_run c [(phase, e)] = Some c1" "gesture_run c1 (map snd ds) = Some c'"
    using Cons.prems(2) gesture_run_append [of c "[(phase, e)]" "map snd ds"]
    by (cases "gesture_run c [(phase, e)]") (auto simp: d)
  show ?case using Cons.IH [OF holds_deliver [OF Cons.prems(1) c1(1)] c1(2)] by (simp add: d)
qed simp

section \<open>Sequences of touches\<close>

fun ops_ok :: "int set \<Rightarrow> (touch_env \<times> touch_op) list \<Rightarrow> bool" where
  "ops_ok F [] \<longleftrightarrow> True"
| "ops_ok F ((E, a) # as) \<longleftrightarrow> touch_ok F a \<and> ops_ok (fingers_after a F) as"

lemma touched_steps:
  "touched F g \<Longrightarrow> ops_ok F as \<Longrightarrow> touched (fold (\<lambda>(E, a). fingers_after a) as F) (gh_steps as g)"
  by (induction F as arbitrary: g rule: ops_ok.induct) (auto simp: gh_steps_def intro: touched.stepped)

definition demo_touch :: "int \<Rightarrow> touch_env" where
  "demo_touch t = \<lparr>e_now = t, e_hypot = \<lambda>x y. \<bar>x\<bar> + \<bar>y\<bar>, e_angle = \<lambda>y x. 0\<rparr>"

definition demo_attached :: gesture_handler where
  "demo_attached = gh_attach new_gesture_handler"

text \<open>A finger drags; one of two fingers moves, which the timer decides to be a pinch.\<close>

definition demo_drag :: "(touch_env \<times> touch_op) list" where
  "demo_drag =
     [(demo_touch 0, Touches TouchStart [(0, 10, 10)]), (demo_touch 20, Touches TouchMove [(0, 70, 10)]),
      (demo_touch 40, Touches TouchEnd [(0, 70, 10)])]"

definition demo_two_touch :: "(touch_env \<times> touch_op) list" where
  "demo_two_touch =
     [(demo_touch 0, Touches TouchStart [(0, 0, 0), (1, 100, 0)]), (demo_touch 20, Touches TouchMove [(0, 0, 60)]),
      (demo_touch 70, TwoTouchFires), (demo_touch 90, Touches TouchEnd [(0, 0, 60), (1, 100, 0)])]"

text \<open>One of two fingers is lifted; the other then moves, and is lifted after a while.\<close>

definition demo_lift_move :: "int \<Rightarrow> (touch_env \<times> touch_op) list" where
  "demo_lift_move t =
     [(demo_touch 0, Touches TouchStart [(0, 0, 0), (1, 100, 0)]), (demo_touch 20, Touches TouchEnd [(0, 0, 0)]),
      (demo_touch 40, Touches TouchMove [(1, 100, 60)]), (demo_touch 90, TwoTouchFires),
      (demo_touch t, Touches TouchEnd [(1, 100, 60)])]"

definition phases :: "gesture_handler \<Rightarrow> (gesture_phase \<times> gesture_kind) list" where
  "phases g = map (\<lambda>(p, e). (p, g_kind e)) (g_events g)"

lemma demo_idle: "idle demo_attached" "twoTouchTimer demo_attached = Unset" "g_events demo_attached = []"
  by (simp_all add: demo_attached_def idle_def gh_attach_def gh_detach_def new_gesture_handler_def)

lemma demo_two_touch_run:
  "idle (gh_steps demo_two_touch demo_attached)" "twoTouchTimer (gh_steps demo_two_touch demo_attached) = Expired"
  by code_simp+

lemma demo_drag_run: "phases (gh_steps demo_drag demo_attached) = [(PStart, Drag), (PMove, Drag), (PEnd, Drag)]"
  by code_simp

lemma demo_touched:
  "touched {} (gh_steps demo_drag demo_attached)" "touched {} (gh_steps demo_two_touch demo_attached)"
  "touched {} (gh_steps (demo_lift_move t) demo_attached)"
proof -
  have run: "ops_ok {} as \<Longrightarrow> fold (\<lambda>(E, a). fingers_after a) as {} = {} \<Longrightarrow> touched {} (gh_steps as demo_attached)" for as
    using touched_steps [OF touched.attached, of as] by (simp add: demo_attached_def)
  show "touched {} (gh_steps demo_drag demo_attached)" "touched {} (gh_steps demo_two_touch demo_attached)"
    "touched {} (gh_steps (demo_lift_move t) demo_attached)"
    by (rule run; simp add: demo_drag_def demo_two_touch_def demo_lift_move_def)+
qed

section \<open>Properties\<close>

text \<open>C12: For every sequence of touches a browser can report and however the timers fire, the gesture
  handler never throws; the moves and the end it reports belong to the gesture it last started, no drag
  and no long press is followed by another start before its end, and when no finger is left on the screen
  no drag, long press or tap is under way.\<close>

theorem gestures_well_formed:
  assumes "touched F g" "touch_ok F a"
  shows "fst (gh_step E a g) = Ret () \<and>
    (\<exists>c. gesture_run None (g_events g) = Some c \<and> (F = {} \<longrightarrow> c \<in> {None, Some TwoDrag, Some Pinch}))"
proof
  show "fst (gh_step E a g) = Ret ()"
    using gh_step_ok [OF touched_ok [OF assms(1)] assms(2)] by (simp add: safe_def)
  show "\<exists>c. gesture_run None (g_events g) = Some c \<and> (F = {} \<longrightarrow> c \<in> {None, Some TwoDrag, Some Pinch})"
    using open_finger [OF assms(1)] by metis
qed

theorem gestures_well_formed_witness:
  "touched {} (gh_steps demo_drag demo_attached) \<and>
   phases (gh_steps demo_drag demo_attached) = [(PStart, Drag), (PMove, Drag), (PEnd, Drag)] \<and>
   fst (gh_step (demo_touch 60) (Touches TouchStart [(5, 1, 2)]) (gh_steps demo_drag demo_attached)) = Ret ()"
  using gestures_well_formed [OF demo_touched(1), of "Touches TouchStart [(5, 1, 2)]"] demo_touched(1) demo_drag_run
  by (simp del: gh_step.simps)

text \<open>C13: The gesture handler and the client together never leave a mouse button pressed: when the events of
  the handler are delivered to a client with no button pressed that does not drag its viewport, then
  whenever no finger is on the screen no button is pressed, whatever the client's world is at each event.\<close>

theorem gestures_release_buttons:
  assumes "touched {} g" "map snd ds = g_events g" "holds 0 r"
  shows "mouseButtonMask (ptr (fold deliver ds r)) = 0"
proof -
  obtain c where c: "gesture_run None (g_events g) = Some c" "c \<in> {None, Some TwoDrag, Some Pinch}"
    using open_finger [OF assms(1)] by blast
  have "holds (held_button c) (fold deliver ds r)"
    by (rule holds_delivers [of None]) (use assms c(1) in simp_all)
  moreover have "held_button c = 0" using c(2) by auto
  ultimately show ?thesis by (simp add: holds_def)
qed

definition demo_listening :: "unit rfb" where
  "demo_listening = on_page (\<lambda>p. p\<lparr>canvasListeners := True\<rparr>) demo_live"

theorem gestures_release_buttons_witness:
  "phases (gh_steps demo_drag demo_attached) = [(PStart, Drag), (PMove, Drag), (PEnd, Drag)] \<and>
   mouseButtonMask (ptr (fold deliver (map (Pair demo_world) (g_events (gh_steps demo_drag demo_attached)))
     demo_listening)) = 0"
proof -
  have "holds 0 demo_listening"
    by (simp add: holds_def demo_listening_def on_page_def demo_live_def blank_rfb_def new_settings_def new_pointer_def)
  then show ?thesis
    using demo_drag_run gestures_release_buttons [OF demo_touched(1), of
        "map (Pair demo_world) (g_events (gh_steps demo_drag demo_attached))" demo_listening]
    by (simp add: comp_def)
qed



text \<open>C34: After a gesture that the two touch timer has decided, the next tap is lost: the number of that timer
  is not cleared when it fires, the release takes the timer for running and gives up the tap. Nothing
  is reported.\<close>

theorem tap_lost_after_two_touch:
  assumes "idle g" "twoTouchTimer g = Expired" "list_all (small_move x y) ms"
  shows "g_events (gh_steps (tap_touches E E' i (x, y) ms) g) = g_events g \<and>
    twoTouchTimer (gh_steps (tap_touches E E' i (x, y) ms) g) = Unset"
proof -
  obtain a where a: "gh_steps (tap_touches E E' i (x, y) ms) g =
      snd (gh_step E' (Touches TouchEnd [(i, last_position x y ms)]) (pressed E i x y (last_position x y ms) a g))"
    using tap_steps [OF assms(1,3)] by metis
  obtain u v where uv: "last_position x y ms = (u, v)" by (cases "last_position x y ms")
  have "twoTouchTimer g \<noteq> Unset" using assms(2) by simp
  then show ?thesis unfolding a uv by (simp add: release_expired [OF assms(1)] del: gh_step.simps)
qed

theorem tap_lost_after_two_touch_witness:
  "touched {} (gh_steps demo_two_touch demo_attached) \<and>
   g_events (gh_steps (tap_touches (demo_touch 500) (demo_touch 600) 0 (10, 20) []) (gh_steps demo_two_touch demo_attached)) =
   g_events (gh_steps demo_two_touch demo_attached)"
  using tap_lost_after_two_touch [OF demo_two_touch_run, of 10 20 "[]"] demo_touched(2) by simp

text \<open>A finger that moves after another one was lifted starts a gesture with two touches although only one
  is left. Lifting it soon reports a second start before the end; lifting it later reports no end at all.\<close>

theorem lifted_finger_gesture:
  "touched {} (gh_steps (demo_lift_move 100) demo_attached) \<and>
   phases (gh_steps (demo_lift_move 100) demo_attached) =
     [(PStart, Pinch), (PMove, Pinch), (PStart, Pinch), (PEnd, Pinch)] \<and>
   phases (gh_steps (demo_lift_move 300) demo_attached) = [(PStart, Pinch), (PMove, Pinch)]"
proof -
  have "phases (gh_steps (demo_lift_move 100) demo_attached) =
     [(PStart, Pinch), (PMove, Pinch), (PStart, Pinch), (PEnd, Pinch)]" by code_simp
  moreover have "phases (gh_steps (demo_lift_move 300) demo_attached) = [(PStart, Pinch), (PMove, Pinch)]"
    by code_simp
  ultimately show ?thesis using demo_touched(3) by blast
qed

end
