(* ===== verification/Js_Text.thy ===== *)
theory Js_Text
  imports Strings "HOL-Library.Sublist"
begin

text \<open>
  Functions of the language on strings that the page scripts use: trimming, splitting and joining,
  searching, decimal numbers, and the percent encoding of URIs. A string is the list of its code units.
\<close>

section \<open>White space, parts, search\<close>

definition white :: "nat \<Rightarrow> bool" where
  "white c \<longleftrightarrow> 9 \<le> c \<and> c \<le> 13 \<or> 0x2000 \<le> c \<and> c \<le> 0x200A \<or>
     c \<in> {32, 0xA0, 0x1680, 0x2028, 0x2029, 0x202F, 0x205F, 0x3000, 0xFEFF}"

definition js_trim :: "jsstring \<Rightarrow> jsstring" where
  "js_trim s = rev (dropWhile white (rev (dropWhile white s)))"

text \<open>\<open>s.split(c)\<close> for a separator of one character: never empty.\<close>

fun js_split :: "nat \<Rightarrow> jsstring \<Rightarrow> jsstring list" where
  "js_split c [] = [[]]"
| "js_split c (x # s) =
     (if x = c then [] # js_split c s
      else case js_split c s of [] \<Rightarrow> [[x]] | p # ps \<Rightarrow> (x # p) # ps)"

fun js_join :: "jsstring \<Rightarrow> jsstring list \<Rightarrow> jsstring" where
  "js_join sep [] = []"
| "js_join sep [p] = p"
| "js_join sep (p # q # ps) = p @ sep @ js_join sep (q # ps)"

text \<open>\<open>s.indexOf(t) !== -1\<close>.\<close>

fun contains_str :: "jsstring \<Rightarrow> jsstring \<Rightarrow> bool" where
  "contains_str [] t \<longleftrightarrow> t = []"
| "contains_str (c # s) t \<longleftrightarrow> prefix t (c # s) \<or> contains_str s t"

text \<open>\<open>s.replace(c, d)\<close> for strings of one character: the first occurrence only.\<close>

fun replace1 :: "nat \<Rightarrow> nat \<Rightarrow> jsstring \<Rightarrow> jsstring" where
  "replace1 c d [] = []"
| "replace1 c d (x # s) = (if x = c then d # s else x # replace1 c d s)"

lemma js_split_nonempty [simp]: "js_split c s \<noteq> []"
  by (cases "(c, s)" rule: js_split.cases) (auto split: list.splits)

lemma js_split_parts: "p \<in> set (js_split c s) \<Longrightarrow> c \<notin> set p"
  by (induction c s arbitrary: p rule: js_split.induct) (force split: if_splits list.splits)+

lemma js_join_Cons: "js_join sep ((x # p) # ps) = x # js_join sep (p # ps)"
  by (cases ps) simp_all

lemma js_join_split: "js_join [c] (js_split c s) = s"
proof (induction c s rule: js_split.induct)
  case (2 c x s)
  then show ?case by (cases "js_split c s") (auto simp: js_join_Cons)
qed simp

lemma contains_sublist: "contains_str s t \<longleftrightarrow> sublist t s"
  by (induction s) (auto simp: sublist_Cons_right)

lemma dropWhile_stop: "dropWhile P (dropWhile P s) = dropWhile P s"
  by (induction s) auto

lemma js_trim_idem [simp]: "js_trim (js_trim s) = js_trim s"
proof -
  define u where "u = dropWhile white s"
  define t where "t = rev (dropWhile white (rev u))"
  have trim: "js_trim s = t" by (simp add: js_trim_def u_def t_def)
  have "dropWhile white t = t"
  proof (cases t)
    case (Cons c v)
    have "rev u = takeWhile white (rev u) @ rev t" by (simp add: t_def)
    then have "rev (rev u) = rev (takeWhile white (rev u) @ rev t)" by (rule arg_cong)
    then obtain w where "u = c # v @ w" using Cons by simp
    then have "hd u = c" "u \<noteq> []" by simp_all
    then have "\<not> white c" using hd_dropWhile [of white s] by (auto simp: u_def)
    then show ?thesis by (simp add: Cons)
  qed simp
  moreover have "rev (dropWhile white (rev t)) = t" by (simp add: t_def dropWhile_stop)
  ultimately show ?thesis by (simp add: trim) (simp add: js_trim_def)
qed

section \<open>Decimal numbers\<close>

function nat_digits :: "nat \<Rightarrow> jsstring" where
  "nat_digits n = (if n < 10 then [48 + n] else nat_digits (n div 10) @ [48 + n mod 10])"
  by pat_completeness auto
termination by (relation "measure id") auto

declare nat_digits.simps [simp del]

definition js_int_string :: "int \<Rightarrow> jsstring" where
  "js_int_string i = (if i < 0 then 45 # nat_digits (nat (- i)) else nat_digits (nat i))"

section \<open>Percent encoding\<close>

definition unreserved :: "nat \<Rightarrow> bool" where
  "unreserved c \<longleftrightarrow> 48 \<le> c \<and> c \<le> 57 \<or> 65 \<le> c \<and> c \<le> 90 \<or> 97 \<le> c \<and> c \<le> 122 \<or>
     c \<in> set (lit ''-_.!~*'' @ [39, 40, 41])"

definition hex_upper :: "nat \<Rightarrow> nat" where
  "hex_upper d = (if d < 10 then 48 + d else 55 + d)"

definition pct :: "nat \<Rightarrow> jsstring" where
  "pct b = (if unreserved b then [b] else [37, hex_upper (b div 16), hex_upper (b mod 16)])"

definition encodeURIComponent :: "jsstring \<Rightarrow> jsstring outcome" where
  "encodeURIComponent s =
     (case utf16_points s of
        None \<Rightarrow> Throw URIError
      | Some vs \<Rightarrow> Ret (concat (map (\<lambda>v. concat (map pct (utf8_octets v))) vs)))"

definition hex_digit :: "nat \<Rightarrow> nat option" where
  "hex_digit c =
     (if 48 \<le> c \<and> c \<le> 57 then Some (c - 48)
      else if 65 \<le> c \<and> c \<le> 70 then Some (c - 55)
      else if 97 \<le> c \<and> c \<le> 102 then Some (c - 87) else None)"

fun pct_octet :: "jsstring \<Rightarrow> (nat \<times> jsstring) option" where
  "pct_octet (p # h # l # s) =
     (case (hex_digit h, hex_digit l) of
        (Some a, Some b) \<Rightarrow> if p = 37 then Some (16 * a + b, s) else None
      | _ \<Rightarrow> None)"
| "pct_octet _ = None"

fun pct_octets :: "nat \<Rightarrow> jsstring \<Rightarrow> (nat list \<times> jsstring) option" where
  "pct_octets 0 s = Some ([], s)"
| "pct_octets (Suc n) s =
     (case pct_octet s of
        None \<Rightarrow> None
      | Some (b, r) \<Rightarrow> map_option (\<lambda>(bs, r). (b # bs, r)) (pct_octets n r))"

definition more_octets :: "nat \<Rightarrow> nat option" where
  "more_octets b =
     (if b < 0x80 then Some 0
      else if 0xC0 \<le> b \<and> b < 0xE0 then Some 1
      else if 0xE0 \<le> b \<and> b < 0xF0 then Some 2
      else if 0xF0 \<le> b \<and> b < 0xF8 then Some 3 else None)"

definition uri_next :: "jsstring \<Rightarrow> (jsstring \<times> jsstring) option" where
  "uri_next s =
     (case s of
        [] \<Rightarrow> None
      | c # r \<Rightarrow>
          if c \<noteq> 37 then Some ([c], r)
          else case pct_octet s of
                 None \<Rightarrow> None
               | Some (b, r) \<Rightarrow>
                   case more_octets b of
                     None \<Rightarrow> None
                   | Some n \<Rightarrow>
                       case pct_octets n r of
                         None \<Rightarrow> None
                       | Some (bs, r) \<Rightarrow>
                           case utf8_next (b # bs) of
                             Some (v, []) \<Rightarrow> Some (utf16_units v, r)
                           | _ \<Rightarrow> None)"

lemma pct_octet_shorter: "pct_octet s = Some (b, r) \<Longrightarrow> length r < length s"
  by (cases s rule: pct_octet.cases) (auto split: option.splits if_splits)

lemma pct_octets_shorter: "pct_octets n s = Some (bs, r) \<Longrightarrow> length r \<le> length s"
  by (induction n s arbitrary: bs r rule: pct_octets.induct)
    (fastforce split: option.splits dest: pct_octet_shorter)+

lemma uri_next_shorter: "uri_next s = Some (u, r) \<Longrightarrow> length r < length s"
  by (auto simp: uri_next_def split: list.splits if_splits option.splits
      dest!: pct_octet_shorter pct_octets_shorter)

function decodeURIComponent :: "jsstring \<Rightarrow> jsstring outcome" where
  "decodeURIComponent s =
     (if s = [] then Ret []
      else case uri_next s of
             None \<Rightarrow> Throw URIError
           | Some (u, r) \<Rightarrow>
               case decodeURIComponent r of Ret t \<Rightarrow> Ret (u @ t) | Throw e \<Rightarrow> Throw e | Hang \<Rightarrow> Hang)"
  by pat_completeness auto
termination by (relation "measure length") (auto dest: uri_next_shorter)

declare decodeURIComponent.simps [simp del]

section \<open>Encoding and decoding\<close>

lemma hex_digit_upper: "d < 16 \<Longrightarrow> hex_digit (hex_upper d) = Some d"
  by (auto simp: hex_digit_def hex_upper_def)

lemma pct_octet_pct: "b < 256 \<Longrightarrow> \<not> unreserved b \<Longrightarrow> pct_octet (pct b @ s) = Some (b, s)"
  by (simp add: pct_def hex_digit_upper)

lemma not_unreserved_high: "128 \<le> b \<Longrightarrow> \<not> unreserved b"
  by (auto simp: unreserved_def lit_def)

lemma pct_octets_high:
  "list_all (\<lambda>b. 128 \<le> b \<and> b < 256) bs \<Longrightarrow> pct_octets (length bs) (concat (map pct bs) @ s) = Some (bs, s)"
  by (induction bs) (auto simp: pct_octet_pct not_unreserved_high)

lemma utf8_octets_shape:
  assumes "code_point v"
  obtains b bs where "utf8_octets v = b # bs" "b < 256" "more_octets b = Some (length bs)"
    "list_all (\<lambda>b. 128 \<le> b \<and> b < 256) bs" "bs = [] \<or> 128 \<le> b"
proof -
  have v: "v < 0x110000" using assms by (simp add: code_point_def)
  consider "v < 0x80" | "0x80 \<le> v" "v < 0x800" | "0x800 \<le> v" "v < 0x10000" | "0x10000 \<le> v" by linarith
  then show ?thesis
  proof cases
    case 1
    then show ?thesis using that [of v "[]"] by (simp add: utf8_octets_def more_octets_def)
  next
    case 2
    then have "v div 64 < 32" by (simp add: less_mult_imp_div_less)
    then show ?thesis using 2 that [of "0xC0 + v div 64" "[0x80 + v mod 64]"]
      by (simp add: utf8_octets_def more_octets_def)
  next
    case 3
    then have "v div 4096 < 16" by (simp add: less_mult_imp_div_less)
    moreover have "v div 64 mod 64 < 128" "v mod 64 < 128" by (simp_all add: less_trans [OF mod_less_divisor])
    ultimately show ?thesis using 3 that [of "0xE0 + v div 4096" "[0x80 + v div 64 mod 64, 0x80 + v mod 64]"]
      by (simp add: utf8_octets_def more_octets_def)
  next
    case 4
    have "v div 262144 < 8" using v by (simp add: less_mult_imp_div_less)
    moreover have "v div 4096 mod 64 < 128" "v div 64 mod 64 < 128" "v mod 64 < 128"
      by (simp_all add: less_trans [OF mod_less_divisor])
    ultimately show ?thesis
      using 4 that [of "0xF0 + v div 262144" "[0x80 + v div 4096 mod 64, 0x80 + v div 64 mod 64, 0x80 + v mod 64]"]
      by (simp add: utf8_octets_def more_octets_def)
  qed
qed

lemma unreserved_unit: "unreserved b \<Longrightarrow> b < 128 \<and> b \<noteq> 37 \<and> b \<noteq> 47"
  by (auto simp: unreserved_def lit_def)

lemma uri_next_encoded:
  assumes "code_point v"
  shows "uri_next (concat (map pct (utf8_octets v)) @ s) = Some (utf16_units v, s)"
proof -
  obtain b bs where b: "utf8_octets v = b # bs" "b < 256" "more_octets b = Some (length bs)"
    "list_all (\<lambda>b. 128 \<le> b \<and> b < 256) bs" "bs = [] \<or> 128 \<le> b"
    by (rule utf8_octets_shape [OF assms])
  have next_v: "utf8_next (b # bs) = Some (v, [])"
    using utf8_next_octets [OF assms, of "[]"] b(1) by simp
  show ?thesis
  proof (cases "unreserved b")
    case True
    then have "b < 128" "b \<noteq> 37" using unreserved_unit by auto
    then have "bs = []" "v = b" using b(3,5) next_v by (auto simp: more_octets_def)
    then show ?thesis using True \<open>b \<noteq> 37\<close> \<open>b < 128\<close> b(1) by (simp add: uri_next_def pct_def utf16_units_def)
  next
    case False
    define r where "r = concat (map pct bs) @ s"
    obtain q where q: "pct b = 37 # q" using False by (simp add: pct_def)
    have "pct_octet (37 # q @ r) = Some (b, r)" using pct_octet_pct [OF b(2) False, of r] by (simp add: q)
    moreover have "concat (map pct (utf8_octets v)) @ s = 37 # q @ r" by (simp add: b(1) q r_def)
    moreover have "pct_octets (length bs) r = Some (bs, s)" using pct_octets_high [OF b(4), of s] by (simp add: r_def)
    ultimately show ?thesis
      using b(3) next_v by (simp add: uri_next_def del: utf8_next.simps pct_octet.simps)
  qed
qed

lemma decode_step:
  assumes "uri_next s = Some (u, r)"
  shows "decodeURIComponent s =
    (case decodeURIComponent r of Ret t \<Rightarrow> Ret (u @ t) | Throw e \<Rightarrow> Throw e | Hang \<Rightarrow> Hang)"
proof -
  have "s \<noteq> []" using assms by (auto simp: uri_next_def)
  then show ?thesis using assms by (subst decodeURIComponent.simps) simp
qed

lemma decode_encoded:
  "list_all code_point vs \<Longrightarrow>
   decodeURIComponent (concat (map (\<lambda>v. concat (map pct (utf8_octets v))) vs)) = Ret (concat (map utf16_units vs))"
proof (induction vs)
  case Nil
  then show ?case by (simp add: decodeURIComponent.simps)
next
  case (Cons v vs)
  let ?s = "concat (map pct (utf8_octets v)) @ concat (map (\<lambda>v. concat (map pct (utf8_octets v))) vs)"
  have next_v: "uri_next ?s = Some (utf16_units v, concat (map (\<lambda>v. concat (map pct (utf8_octets v))) vs))"
    using uri_next_encoded Cons.prems by simp
  show ?case using decode_step [OF next_v] Cons by simp
qed

text \<open>What is encoded is decoded to itself, and an encoded string has no slash.\<close>

lemma uri_roundtrip: "units16 s \<Longrightarrow> encodeURIComponent s = Ret u \<Longrightarrow> decodeURIComponent u = Ret s"
  using utf16.pts_sound [of s] decode_encoded by (auto simp: encodeURIComponent_def split: option.splits)

lemma encoded_no_slash: "encodeURIComponent s = Ret u \<Longrightarrow> 47 \<notin> set u"
proof -
  have "47 \<notin> set (pct b)" for b using unreserved_unit by (auto simp: pct_def hex_upper_def)
  then show "encodeURIComponent s = Ret u \<Longrightarrow> 47 \<notin> set u"
    by (auto simp: encodeURIComponent_def split: option.splits)
qed

lemma encoded_nonempty: "encodeURIComponent s = Ret u \<Longrightarrow> s \<noteq> [] \<Longrightarrow> u \<noteq> []"
proof
  assume "encodeURIComponent s = Ret u" "s \<noteq> []" "u = []"
  moreover have "pct b \<noteq> []" "utf8_octets v \<noteq> []" for b v by (simp_all add: pct_def utf8_octets_def)
  ultimately show False
    by (auto simp: encodeURIComponent_def utf16_points.simps [of s] split: option.splits if_splits prod.splits)
qed

end
