(* ===== verification/Theme.thy ===== *)
theory Theme
  imports Js_Text
begin

text \<open>
  Two of Outband's own page scripts. \<open>js/theme.js\<close> keeps the colour theme of the page, the buttons that
  toggle it and the value stored for other tabs in agreement, opens and closes the navigation drawer, and
  switches the host that the address names. \<open>js/console.js\<close> connects a terminal to the serial console.

  The page is a record of the attributes the scripts set. What the browser decides is an argument: the
  preferred colour scheme, whether storage can be used. An element that was clicked is described by what it lies in.
\<close>

section \<open>Page\<close>

record theme_env =
  prefers_light :: "bool option"
  storage_works :: bool

record theme_page =
  stored :: "string option"
  data_theme :: "string option"
  theme_toggles :: "(string \<times> string \<times> string) list"
  drawer_open :: bool
  drawer_toggles :: "(string \<times> string) list"
  theme_events :: "string list"
  pathname :: jsstring
  search :: jsstring
  hash :: jsstring
  navigated :: "jsstring option"

definition STORAGE_KEY :: string where "STORAGE_KEY = ''outband-theme''"

section \<open>Theme\<close>

definition systemTheme :: "theme_env \<Rightarrow> string" where
  "systemTheme E = (if prefers_light E = Some True then ''light'' else ''dark'')"

definition readTheme :: "theme_env \<Rightarrow> theme_page \<Rightarrow> string" where
  "readTheme E p =
     (case (storage_works E, stored p) of
        (True, Some t) \<Rightarrow> if t = ''light'' \<or> t = ''dark'' then t else systemTheme E
      | _ \<Rightarrow> systemTheme E)"

definition syncToggles :: "string \<Rightarrow> theme_page \<Rightarrow> theme_page" where
  "syncToggles theme p =
     (let other = (if theme = ''light'' then ''dark'' else ''light'');
          label = ''Switch to '' @ other @ '' theme''
      in p\<lparr>theme_toggles := map (\<lambda>b. (if theme = ''dark'' then ''true'' else ''false'', label, label)) (theme_toggles p)\<rparr>)"

definition applyTheme :: "theme_env \<Rightarrow> string \<Rightarrow> theme_page \<Rightarrow> theme_page" where
  "applyTheme E theme p =
     (let theme = (if theme \<noteq> ''light'' \<and> theme \<noteq> ''dark'' then ''dark'' else theme);
          p = p\<lparr>data_theme := Some theme\<rparr>;
          p = (if storage_works E then p\<lparr>stored := Some theme\<rparr> else p);
          p = syncToggles theme p
      in p\<lparr>theme_events := theme_events p @ [theme]\<rparr>)"

definition toggleTheme :: "theme_env \<Rightarrow> theme_page \<Rightarrow> theme_page" where
  "toggleTheme E p =
     (let cur = (case data_theme p of None \<Rightarrow> readTheme E p | Some t \<Rightarrow> if t = [] then readTheme E p else t)
      in applyTheme E (if cur = ''light'' then ''dark'' else ''light'') p)"

section \<open>Drawer and hosts\<close>

definition setDrawer :: "bool \<Rightarrow> theme_page \<Rightarrow> theme_page" where
  "setDrawer show p =
     p\<lparr>drawer_open := show,
       drawer_toggles := map (\<lambda>b. (if show then ''true'' else ''false'',
         if show then ''Close navigation'' else ''Open navigation'')) (drawer_toggles p)\<rparr>"

text \<open>\<open>path.match(/^\/h\/[^/]+(\/.*)?$/)\<close>: the group of a match, empty when it did not take part. The path of an
  address has no line breaks.\<close>

definition match_host :: "jsstring \<Rightarrow> jsstring option" where
  "match_host path =
     (case path of
        a # b # c # r \<Rightarrow>
          if a = 47 \<and> b = 104 \<and> c = 47 \<and> takeWhile (\<lambda>x. x \<noteq> 47) r \<noteq> []
          then Some (dropWhile (\<lambda>x. x \<noteq> 47) r) else None
      | _ \<Rightarrow> None)"

definition switchHost :: "jsstring \<Rightarrow> theme_page \<Rightarrow> unit outcome \<times> theme_page" where
  "switchHost i p =
     (if i = [] then (Ret (), p)
      else
        let sfx = (case match_host (pathname p) of None \<Rightarrow> lit ''/'' | Some s \<Rightarrow> if s = [] then lit ''/'' else s)
        in case encodeURIComponent i of
             Ret u \<Rightarrow> (Ret (), p\<lparr>navigated := Some (lit ''/h/'' @ u @ sfx @ search p @ hash p)\<rparr>)
           | Throw e \<Rightarrow> (Throw e, p)
           | Hang \<Rightarrow> (Hang, p))"

section \<open>Events\<close>

record clicked =
  in_theme_toggle :: bool
  in_drawer_toggle :: bool
  in_drawer_close :: bool
  in_nav_link :: bool

definition theme_click :: "theme_env \<Rightarrow> clicked \<Rightarrow> theme_page \<Rightarrow> theme_page" where
  "theme_click E t p =
     (if in_theme_toggle t then toggleTheme E p
      else if in_drawer_toggle t then setDrawer (\<not> drawer_open p) p
      else if in_drawer_close t then setDrawer False p
      else if drawer_open p \<and> in_nav_link t then setDrawer False p
      else p)"

text \<open>Another tab has changed the storage.\<close>

definition theme_storage :: "theme_env \<Rightarrow> string \<Rightarrow> string option \<Rightarrow> theme_page \<Rightarrow> theme_page" where
  "theme_storage E key newValue p =
     (case newValue of
        None \<Rightarrow> p
      | Some v \<Rightarrow> if key = STORAGE_KEY \<and> (v = ''light'' \<or> v = ''dark'') then applyTheme E v p else p)"

definition theme_ready :: "theme_env \<Rightarrow> theme_page \<Rightarrow> theme_page" where
  "theme_ready E p = applyTheme E (readTheme E p) p"

datatype theme_op = Clicked clicked | Escape | Stored string "string option"

fun theme_step :: "theme_env \<Rightarrow> theme_op \<Rightarrow> theme_page \<Rightarrow> theme_page" where
  "theme_step E (Clicked t) p = theme_click E t p"
| "theme_step E Escape p = setDrawer False p"
| "theme_step E (Stored key v) p =
     theme_storage E key v (if key = STORAGE_KEY then p\<lparr>stored := v\<rparr> else p)"

section \<open>Serial console\<close>

datatype sol_ready = SolConnecting | SolOpen | SolClosing | SolClosed

record sol =
  sol_banner :: "(jsstring \<times> string) option"
  sol_state :: sol_ready
  sol_written :: "jsstring list"
  sol_sent :: "jsstring list"

definition setBanner :: "jsstring \<Rightarrow> string \<Rightarrow> sol \<Rightarrow> sol" where
  "setBanner txt cls s =
     (case sol_banner s of
        None \<Rightarrow> s
      | Some b \<Rightarrow> s\<lparr>sol_banner := Some (txt, ''sol-banner'' @ (if cls \<noteq> [] then '' '' @ cls else []))\<rparr>)"

definition sol_url :: "string \<Rightarrow> jsstring \<Rightarrow> jsstring option \<Rightarrow> jsstring" where
  "sol_url protocol host path =
     lit (if protocol = ''https:'' then ''wss:'' else ''ws:'') @ lit ''//'' @ host @
     (case path of None \<Rightarrow> lit ''/ws/sol'' | Some w \<Rightarrow> if w = [] then lit ''/ws/sol'' else w)"

datatype sol_op = SolOpens | SolCloses | SolClosingStarts | SolError | SolMessage jsstring | SolInput jsstring

text \<open>A text message and a binary one are both written to the terminal as they come. The closing state is
  entered by the browser.\<close>

fun sol_step :: "sol_op \<Rightarrow> sol \<Rightarrow> sol" where
  "sol_step SolOpens s = setBanner (lit ''Connected '' @ [0x2014] @ lit '' serial console active'') ''ok'' (s\<lparr>sol_state := SolOpen\<rparr>)"
| "sol_step SolClosingStarts s = s\<lparr>sol_state := SolClosing\<rparr>"
| "sol_step SolCloses s =
     setBanner (lit ''Disconnected '' @ [0x2014] @ lit '' refresh to reconnect (single SOL session)'') ''warn'' (s\<lparr>sol_state := SolClosed\<rparr>)"
| "sol_step SolError s = setBanner (lit ''WebSocket error'') ''err'' s"
| "sol_step (SolMessage d) s = s\<lparr>sol_written := sol_written s @ [d]\<rparr>"
| "sol_step (SolInput d) s = (if sol_state s = SolOpen then s\<lparr>sol_sent := sol_sent s @ [d]\<rparr> else s)"

section \<open>Themes stay in agreement\<close>

definition is_theme :: "string \<Rightarrow> bool" where
  "is_theme t \<longleftrightarrow> t = ''light'' \<or> t = ''dark''"

definition other_theme :: "string \<Rightarrow> string" where
  "other_theme t = (if t = ''light'' then ''dark'' else ''light'')"

text \<open>What the page shows is one of the themes, and every button offers the other one.\<close>

definition theme_shown :: "string \<Rightarrow> theme_page \<Rightarrow> bool" where
  "theme_shown t p \<longleftrightarrow> is_theme t \<and> data_theme p = Some t \<and>
     (\<forall>b \<in> set (theme_toggles p). b = (if t = ''dark'' then ''true'' else ''false'',
        ''Switch to '' @ other_theme t @ '' theme'', ''Switch to '' @ other_theme t @ '' theme''))"

definition drawer_shown :: "theme_page \<Rightarrow> bool" where
  "drawer_shown p \<longleftrightarrow> (\<forall>b \<in> set (drawer_toggles p). fst b = (if drawer_open p then ''true'' else ''false''))"

lemma applyTheme_shown:
  "is_theme t \<Longrightarrow> theme_shown t (applyTheme E t p)"
  by (auto simp: theme_shown_def applyTheme_def syncToggles_def other_theme_def is_theme_def Let_def)

lemma readTheme_theme: "is_theme (readTheme E p)"
  by (auto simp: readTheme_def systemTheme_def is_theme_def split: option.splits bool.splits)

lemma toggle_shown: "theme_shown t p \<Longrightarrow> theme_shown (other_theme t) (toggleTheme E p)"
proof -
  assume "theme_shown t p"
  then have "data_theme p = Some t" "t \<noteq> []" by (auto simp: theme_shown_def is_theme_def)
  then have "toggleTheme E p = applyTheme E (other_theme t) p"
    by (simp add: toggleTheme_def other_theme_def Let_def)
  then show ?thesis using applyTheme_shown [of "other_theme t"] by (simp add: other_theme_def is_theme_def)
qed

lemma theme_shown_drawer [simp]: "theme_shown t (setDrawer show p) = theme_shown t p"
  by (simp add: theme_shown_def setDrawer_def)

lemma theme_events_last: "theme_events (applyTheme E t p) \<noteq> []"
  "is_theme t \<Longrightarrow> last (theme_events (applyTheme E t p)) = t"
  by (auto simp: applyTheme_def is_theme_def Let_def)

definition announced :: "string \<Rightarrow> theme_page \<Rightarrow> bool" where
  "announced t p \<longleftrightarrow> theme_shown t p \<and> theme_events p \<noteq> [] \<and> last (theme_events p) = t"

lemma announced_apply: "is_theme t \<Longrightarrow> announced t (applyTheme E t p)"
  by (simp add: announced_def applyTheme_shown theme_events_last)

lemma announced_toggle: "announced t p \<Longrightarrow> announced (other_theme t) (toggleTheme E p)"
proof -
  assume "announced t p"
  then have "data_theme p = Some t" "t \<noteq> []" by (auto simp: announced_def theme_shown_def is_theme_def)
  then have "toggleTheme E p = applyTheme E (other_theme t) p"
    by (simp add: toggleTheme_def other_theme_def Let_def)
  then show ?thesis using announced_apply [of "other_theme t"] by (simp add: other_theme_def is_theme_def)
qed

lemma announced_fields [simp]:
  "announced t (p\<lparr>stored := v\<rparr>) = announced t p" "announced t (setDrawer b p) = announced t p"
  by (simp_all add: announced_def theme_shown_def setDrawer_def)

lemma theme_step_announced: "announced t p \<Longrightarrow> \<exists>t'. announced t' (theme_step E a p)"
proof (cases a)
  case (Clicked c)
  then show "announced t p \<Longrightarrow> ?thesis" using announced_toggle by (auto simp: theme_click_def)
next
  case (Stored key v)
  show "announced t p \<Longrightarrow> ?thesis"
    using announced_apply by (cases v) (auto simp: Stored theme_storage_def is_theme_def)
qed auto

definition theme_run :: "(theme_env \<times> theme_op) list \<Rightarrow> theme_page \<Rightarrow> theme_page" where
  "theme_run as p = fold (\<lambda>(E, a). theme_step E a) as p"

lemma theme_run_announced: "announced t p \<Longrightarrow> \<exists>t'. announced t' (theme_run as p)"
proof (induction as arbitrary: t p)
  case (Cons a as)
  then show ?case using theme_step_announced [OF Cons.prems] by (cases a) (fastforce simp: theme_run_def)
qed (auto simp: theme_run_def)

text \<open>C37: From the moment the page is ready, whatever is clicked, typed or stored by other tabs, the page shows one
  of the two themes, every toggle button is labelled with the other one, and the last theme announced to
  the other scripts is the one shown.\<close>

theorem theme_agreement: "\<exists>t. announced t (theme_run as (theme_ready E p))"
  using theme_run_announced [OF announced_apply [OF readTheme_theme]] by (simp add: theme_ready_def)

text \<open>When the theme is toggled in one tab and the browser reports the change to another, both tabs show the
  same theme, and the other tab leaves the stored value as it is, so that the tabs do not answer each
  other for ever.\<close>

theorem tabs_agree:
  assumes "announced t p" "storage_works E"
  shows "announced (other_theme t) (toggleTheme E p) \<and>
    announced (other_theme t) (theme_step E' (Stored STORAGE_KEY (stored (toggleTheme E p))) q) \<and>
    stored (theme_step E' (Stored STORAGE_KEY (stored (toggleTheme E p))) q) = stored (toggleTheme E p)"
proof -
  have "data_theme p = Some t" "is_theme t" "t \<noteq> []"
    using assms(1) by (auto simp: announced_def theme_shown_def is_theme_def)
  then have eq: "toggleTheme E p = applyTheme E (other_theme t) p"
    by (simp add: toggleTheme_def other_theme_def Let_def)
  have other: "is_theme (other_theme t)" by (simp add: other_theme_def is_theme_def)
  then have st: "stored (toggleTheme E p) = Some (other_theme t)"
    using assms(2) by (auto simp: eq applyTheme_def syncToggles_def is_theme_def Let_def)
  have "theme_step E' (Stored STORAGE_KEY (Some (other_theme t))) q =
      applyTheme E' (other_theme t) (q\<lparr>stored := Some (other_theme t)\<rparr>)"
    using other by (auto simp: theme_storage_def is_theme_def)
  then show ?thesis
    using announced_toggle [OF assms(1)] announced_apply [OF other] other
    by (auto simp: st applyTheme_def syncToggles_def is_theme_def Let_def)
qed

definition demo_page :: theme_page where
  "demo_page = \<lparr>stored = None, data_theme = None, theme_toggles = [([], [], [])], drawer_open = False,
     drawer_toggles = [], theme_events = [], pathname = lit ''/h/a/sensors'', search = lit ''?x'', hash = [],
     navigated = None\<rparr>"

definition demo_theme_env :: theme_env where
  "demo_theme_env = \<lparr>prefers_light = Some True, storage_works = True\<rparr>"

section \<open>Switching hosts\<close>

text \<open>The host that a path names, and the rest of the path.\<close>

definition host_path :: "jsstring \<Rightarrow> jsstring \<Rightarrow> jsstring" where
  "host_path u sfx = lit ''/h/'' @ u @ sfx"

lemma takeWhile_host: "47 \<notin> set u \<Longrightarrow> sfx = [] \<or> hd sfx = 47 \<Longrightarrow>
    takeWhile (\<lambda>x. x \<noteq> 47) (u @ sfx) = u \<and> dropWhile (\<lambda>x. x \<noteq> 47) (u @ sfx) = sfx"
  by (induction u) (cases sfx; auto)+

lemma match_host_path:
  "47 \<notin> set u \<Longrightarrow> u \<noteq> [] \<Longrightarrow> sfx = [] \<or> hd sfx = 47 \<Longrightarrow> match_host (host_path u sfx) = Some sfx"
  using takeWhile_host [of u sfx] by (simp add: match_host_def host_path_def lit_def)

text \<open>Switching to another host from a page of a host goes to the same page of the other host, with the same query
  and fragment: the new address names the chosen host, encoded, and the same rest of the path, which the
  next switch finds again.\<close>

theorem switch_host_keeps_page:
  assumes "units16 i" "i \<noteq> []" "encodeURIComponent i = Ret u"
    and "pathname p = host_path v sfx" "47 \<notin> set v" "v \<noteq> []" "sfx \<noteq> []" "hd sfx = 47"
  shows "switchHost i p = (Ret (), p\<lparr>navigated := Some (host_path u sfx @ search p @ hash p)\<rparr>) \<and>
    match_host (host_path u sfx) = Some sfx \<and> decodeURIComponent u = Ret i"
  using match_host_path [of v sfx] match_host_path [of u sfx] encoded_no_slash [OF assms(3)]
    encoded_nonempty [OF assms(3,2)] uri_roundtrip [OF assms(1,3)] assms(2-)
  by (simp add: switchHost_def Let_def) (simp add: host_path_def)

end
