(* ===== verification/Metrics.thy ===== *)
theory Metrics
  imports Js_Text Complex_Main
begin

text \<open>
  The sensor history page of Outband, \<open>js/metrics.js\<close>: a form that picks sensors and a time range, chips that
  show what is picked, a filter over the sensors, and a chart of the samples the server returns.

  The page is a record of the elements the script looks up, an element that may be missing being an
  option. The chart library is outside the repository: a chart is the data it was created with and a
  number, and the charts not yet destroyed are listed. The colours and options of a chart that come from
  style sheets are left out. The fields of a local date are an argument. The elements of the form and the
  answers of the server are events, in any order.
\<close>

section \<open>Colours and dates\<close>

definition SERIES_PALETTE :: "string list" where
  "SERIES_PALETTE = [''#3dba9c'', ''#5b8def'', ''#e6a23c'', ''#c45d8c'', ''#7bc96f'', ''#9b7bde'', ''#e07050'',
     ''#4db6c8'', ''#d4a017'', ''#6fbf73'']"

definition hex_value16 :: "nat list \<Rightarrow> int" where
  "hex_value16 ds = foldl (\<lambda>v d. 16 * v + int d) 0 ds"

text \<open>\<open>parseInt(s, 16)\<close>; without digits the result is not a number.\<close>

definition parseInt16 :: "jsstring \<Rightarrow> int option" where
  "parseInt16 s =
     (let s = dropWhile white s;
          neg = (s \<noteq> [] \<and> hd s = 45);
          s = (if s \<noteq> [] \<and> (hd s = 45 \<or> hd s = 43) then tl s else s);
          s = (if take 2 s = lit ''0x'' \<or> take 2 s = lit ''0X'' then drop 2 s else s);
          ds = takeWhile (\<lambda>c. hex_digit c \<noteq> None) s
      in if ds = [] then None
         else Some ((if neg then - 1 else 1) * hex_value16 (map (the \<circ> hex_digit) ds)))"

definition number_string :: "int option \<Rightarrow> jsstring" where
  "number_string v = (case v of None \<Rightarrow> lit ''NaN'' | Some i \<Rightarrow> js_int_string i)"

definition hexAlpha :: "jsstring \<Rightarrow> jsstring \<Rightarrow> jsstring" where
  "hexAlpha hex alpha =
     (let h = takeWhile (\<lambda>c. c \<noteq> 35) hex @ tl (dropWhile (\<lambda>c. c \<noteq> 35) hex);
          h = (if length h = 3 then [h ! 0, h ! 0, h ! 1, h ! 1, h ! 2, h ! 2] else h)
      in if length h \<noteq> 6 then hex
         else lit ''rgba('' @ number_string (parseInt16 (slice h 0 2)) @ lit '','' @
              number_string (parseInt16 (slice h 2 4)) @ lit '','' @
              number_string (parseInt16 (slice h 4 6)) @ lit '','' @ alpha @ lit '')'')"

definition pad2 :: "int \<Rightarrow> jsstring" where
  "pad2 n = (if n < 10 then lit ''0'' @ js_int_string n else js_int_string n)"

record local_date =
  d_year :: int
  d_month :: int
  d_date :: int
  d_hours :: int
  d_minutes :: int
  d_seconds :: int

definition month_names :: "string list" where
  "month_names = [''Jan'', ''Feb'', ''Mar'', ''Apr'', ''May'', ''Jun'', ''Jul'', ''Aug'', ''Sep'', ''Oct'', ''Nov'', ''Dec'']"

definition month_name :: "int \<Rightarrow> string" where
  "month_name m = (if 0 \<le> m \<and> m < 12 then month_names ! nat m else ''undefined'')"

definition formatTick :: "(int \<Rightarrow> local_date) \<Rightarrow> int \<Rightarrow> int \<Rightarrow> jsstring" where
  "formatTick dates ms spanMs =
     (let d = dates ms
      in if spanMs > 36 * 3600 * 1000 then lit (month_name (d_month d)) @ lit '' '' @ js_int_string (d_date d)
         else pad2 (d_hours d) @ lit '':'' @ pad2 (d_minutes d))"

definition formatTooltipTime :: "(int \<Rightarrow> local_date) \<Rightarrow> int \<Rightarrow> jsstring" where
  "formatTooltipTime dates ms =
     (let d = dates ms
      in js_int_string (d_year d) @ lit ''-'' @ pad2 (d_month d + 1) @ lit ''-'' @ pad2 (d_date d) @ lit '' '' @
         pad2 (d_hours d) @ lit '':'' @ pad2 (d_minutes d) @ lit '':'' @ pad2 (d_seconds d))"

section \<open>Series\<close>

record sample =
  sm_ts :: int
  sm_value :: rat

record series =
  sensor :: jsstring
  sunit :: jsstring
  samples :: "sample list option"

record payload =
  p_series :: "series list option"
  p_warm :: bool

definition samples_of :: "series \<Rightarrow> sample list" where
  "samples_of s = (case samples s of None \<Rightarrow> [] | Some ps \<Rightarrow> ps)"

definition series_of :: "payload \<Rightarrow> series list" where
  "series_of p = (case p_series p of None \<Rightarrow> [] | Some ss \<Rightarrow> ss)"

record dataset =
  ds_label :: jsstring
  ds_data :: "(int \<times> rat) list"
  ds_colour :: jsstring
  ds_background :: jsstring

definition seriesToDataset :: "nat \<Rightarrow> series \<Rightarrow> dataset" where
  "seriesToDataset i s =
     (let colour = lit (SERIES_PALETTE ! (i mod length SERIES_PALETTE))
      in \<lparr>ds_label = sensor s @ (if sunit s \<noteq> [] then lit '' ('' @ sunit s @ lit '')'' else []),
          ds_data = map (\<lambda>p. (sm_ts p * 1000, sm_value p)) (samples_of s),
          ds_colour = colour, ds_background = hexAlpha colour (lit ''0.12'')\<rparr>)"

definition seriesToDatasets :: "series list \<Rightarrow> dataset list" where
  "seriesToDatasets ss = map (\<lambda>(i, s). seriesToDataset i s) (enumerate 0 ss)"

text \<open>The smallest and the largest time; \<open>None\<close> stands for the infinite start values.\<close>

definition span_step :: "int option \<times> int option \<Rightarrow> sample \<Rightarrow> int option \<times> int option" where
  "span_step b p =
     (let ms = sm_ts p * 1000
      in (case fst b of None \<Rightarrow> Some ms | Some m \<Rightarrow> if ms < m then Some ms else Some m,
          case snd b of None \<Rightarrow> Some ms | Some m \<Rightarrow> if ms > m then Some ms else Some m))"

definition dataSpanMs :: "series list \<Rightarrow> int" where
  "dataSpanMs ss =
     (case foldl (\<lambda>b s. foldl span_step b (samples_of s)) (None, None) ss of
        (Some lo, Some hi) \<Rightarrow> if hi \<le> lo then 3600 * 1000 else hi - lo
      | _ \<Rightarrow> 3600 * 1000)"

section \<open>Page\<close>

record chart_view =
  c_number :: nat
  c_datasets :: "dataset list"
  c_span :: int

record metrics_cfg =
  cfg_range :: jsstring
  cfg_sensors :: "jsstring list"

record metrics_page =
  m_inputs :: "(jsstring \<times> bool) list"
  m_range :: "jsstring option"
  m_boot_range :: jsstring
  m_chips :: "jsstring list option"
  m_count :: "jsstring option"
  m_filter :: "jsstring option"
  m_items :: "(jsstring \<times> bool) list"
  m_empty_hidden :: "bool option"
  m_has_list :: bool
  m_status :: "jsstring option"
  m_has_host :: bool
  m_has_library :: bool
  m_chart :: "chart_view option"
  m_live :: "nat list"
  m_created :: nat
  m_lastPayload :: "payload option"
  m_requests :: "(jsstring \<times> jsstring) list list"
  m_query :: "(jsstring \<times> jsstring) list"

definition selectedSensors :: "metrics_page \<Rightarrow> jsstring list" where
  "selectedSensors p = map fst (filter snd (m_inputs p))"

text \<open>The parameters of an address: \<open>URLSearchParams.set\<close>, \<open>append\<close> and \<open>delete\<close>.\<close>

fun params_set :: "jsstring \<Rightarrow> jsstring \<Rightarrow> (jsstring \<times> jsstring) list \<Rightarrow> (jsstring \<times> jsstring) list" where
  "params_set k v [] = [(k, v)]"
| "params_set k v ((k', v') # ps) =
     (if k' = k then (k, v) # filter (\<lambda>q. fst q \<noteq> k) ps else (k', v') # params_set k v ps)"

definition params_delete :: "jsstring \<Rightarrow> (jsstring \<times> jsstring) list \<Rightarrow> (jsstring \<times> jsstring) list" where
  "params_delete k ps = filter (\<lambda>q. fst q \<noteq> k) ps"

definition or_1h :: "jsstring \<Rightarrow> jsstring" where
  "or_1h r = (if r = [] then lit ''1h'' else r)"

definition buildURL :: "metrics_cfg \<Rightarrow> (jsstring \<times> jsstring) list" where
  "buildURL cfg = params_set (lit ''range'') (or_1h (cfg_range cfg)) [] @ map (Pair (lit ''sensor'')) (cfg_sensors cfg)"

definition currentConfig :: "metrics_page \<Rightarrow> metrics_cfg" where
  "currentConfig p = \<lparr>cfg_range = (case m_range p of None \<Rightarrow> m_boot_range p | Some r \<Rightarrow> r), cfg_sensors = selectedSensors p\<rparr>"

definition syncURL :: "metrics_cfg \<Rightarrow> metrics_page \<Rightarrow> metrics_page" where
  "syncURL cfg p =
     p\<lparr>m_query := params_set (lit ''range'') (or_1h (cfg_range cfg))
                    (params_delete (lit ''range'') (params_delete (lit ''sensor'') (m_query p))) @
                  map (Pair (lit ''sensor'')) (cfg_sensors cfg)\<rparr>"

definition load_metrics :: "metrics_page \<Rightarrow> metrics_page" where
  "load_metrics p = p\<lparr>m_requests := m_requests p @ [buildURL (currentConfig p)]\<rparr>"

definition syncPickerUI :: "metrics_page \<Rightarrow> metrics_page" where
  "syncPickerUI p =
     p\<lparr>m_count := map_option (\<lambda>t. js_int_string (int (length (selectedSensors p)))) (m_count p),
       m_chips := map_option (\<lambda>t. selectedSensors p) (m_chips p)\<rparr>"

definition filter_query :: "(jsstring \<Rightarrow> jsstring) \<Rightarrow> metrics_page \<Rightarrow> jsstring" where
  "filter_query lower p = lower (js_trim (case m_filter p of None \<Rightarrow> [] | Some v \<Rightarrow> v))"

definition applyFilter :: "(jsstring \<Rightarrow> jsstring) \<Rightarrow> metrics_page \<Rightarrow> metrics_page" where
  "applyFilter lower p =
     (let q = filter_query lower p;
          items = map (\<lambda>(name, hidden). (name, \<not> (q = [] \<or> contains_str (lower name) q))) (m_items p);
          visible = length (filter (\<lambda>i. \<not> snd i) items)
      in p\<lparr>m_items := items, m_empty_hidden := map_option (\<lambda>e. visible > 0 \<or> \<not> m_has_list p) (m_empty_hidden p)\<rparr>)"

definition destroyChart :: "metrics_page \<Rightarrow> metrics_page" where
  "destroyChart p =
     (case m_chart p of
        None \<Rightarrow> p
      | Some c \<Rightarrow> p\<lparr>m_live := filter (\<lambda>n. n \<noteq> c_number c) (m_live p), m_chart := None\<rparr>)"

definition total_samples :: "series list \<Rightarrow> nat" where
  "total_samples ss = foldl (\<lambda>n s. n + length (samples_of s)) 0 ss"

definition status_text :: "payload \<Rightarrow> jsstring" where
  "status_text pl =
     (let ss = series_of pl; total = total_samples ss
      in if total \<noteq> 0
         then js_int_string (int total) @ lit '' samples '' @ [0xB7] @ lit '' '' @ js_int_string (int (length ss)) @ lit '' series''
         else if p_warm pl then lit ''No samples in this window yet.''
         else lit ''Collector warming'' @ [0x2026])"

definition render :: "payload \<Rightarrow> metrics_page \<Rightarrow> metrics_page" where
  "render pl p =
     (if \<not> m_has_host p \<or> \<not> m_has_library p then p
      else
        let p = p\<lparr>m_lastPayload := Some pl, m_status := map_option (\<lambda>t. status_text pl) (m_status p)\<rparr>;
            ss = series_of pl;
            p = destroyChart p
        in if total_samples ss = 0 then p
           else p\<lparr>m_chart := Some \<lparr>c_number = m_created p, c_datasets = seriesToDatasets ss, c_span = dataSpanMs ss\<rparr>,
                  m_live := m_live p @ [m_created p], m_created := m_created p + 1\<rparr>)"

definition applyThemeToChart :: "metrics_page \<Rightarrow> metrics_page" where
  "applyThemeToChart p = (case m_lastPayload p of None \<Rightarrow> p | Some pl \<Rightarrow> render pl (destroyChart p))"

definition load_failed :: "jsstring \<Rightarrow> metrics_page \<Rightarrow> metrics_page" where
  "load_failed msg p = p\<lparr>m_status := map_option (\<lambda>t. lit ''Failed to load metrics: '' @ msg) (m_status p)\<rparr>"

text \<open>The handler of the button on a chip: the first input of that name.\<close>

fun uncheck_first :: "jsstring \<Rightarrow> (jsstring \<times> bool) list \<Rightarrow> (jsstring \<times> bool) list" where
  "uncheck_first name [] = []"
| "uncheck_first name ((n, c) # is) = (if n = name then (n, False) # is else (n, c) # uncheck_first name is)"

definition chip_remove :: "jsstring \<Rightarrow> metrics_page \<Rightarrow> metrics_page" where
  "chip_remove name p =
     (if name \<in> fst ` set (m_inputs p) then syncPickerUI (p\<lparr>m_inputs := uncheck_first name (m_inputs p)\<rparr>) else p)"

definition metrics_ready :: "(jsstring \<Rightarrow> jsstring) \<Rightarrow> metrics_page \<Rightarrow> metrics_page" where
  "metrics_ready lower p = load_metrics (applyFilter lower (syncPickerUI p))"

datatype metrics_op =
    Submit
  | CheckSensor nat bool
  | ChangeRange jsstring
  | FilterInput jsstring
  | ClearSensors
  | RemoveChip jsstring
  | ThemeChanged
  | Interval
  | Answer payload
  | AnswerFails jsstring

fun metrics_step :: "(jsstring \<Rightarrow> jsstring) \<Rightarrow> metrics_op \<Rightarrow> metrics_page \<Rightarrow> metrics_page" where
  "metrics_step lower Submit p = load_metrics (syncURL (currentConfig p) p)"
| "metrics_step lower (CheckSensor i c) p =
     (if i < length (m_inputs p)
      then syncPickerUI (p\<lparr>m_inputs := (m_inputs p)[i := (fst (m_inputs p ! i), c)]\<rparr>) else p)"
| "metrics_step lower (ChangeRange r) p =
     (case m_range p of None \<Rightarrow> p | Some old \<Rightarrow> load_metrics (p\<lparr>m_range := Some r\<rparr>))"
| "metrics_step lower (FilterInput v) p =
     (case m_filter p of None \<Rightarrow> p | Some old \<Rightarrow> applyFilter lower (p\<lparr>m_filter := Some v\<rparr>))"
| "metrics_step lower ClearSensors p =
     syncPickerUI (p\<lparr>m_inputs := map (\<lambda>(n, c). (n, False)) (m_inputs p)\<rparr>)"
| "metrics_step lower (RemoveChip name) p = chip_remove name p"
| "metrics_step lower ThemeChanged p = applyThemeToChart p"
| "metrics_step lower Interval p = load_metrics p"
| "metrics_step lower (Answer pl) p = render pl p"
| "metrics_step lower (AnswerFails msg) p = load_failed msg p"

section \<open>Span of the data\<close>

definition all_times :: "series list \<Rightarrow> int list" where
  "all_times ss = map sm_ts (concat (map samples_of ss))"

lemma span_bounds:
  "ps \<noteq> [] \<Longrightarrow> foldl span_step (None, None) ps =
    (Some (1000 * Min (sm_ts ` set ps)), Some (1000 * Max (sm_ts ` set ps)))"
proof (induction ps rule: rev_induct)
  case (snoc x ps)
  show ?case
  proof (cases "ps = []")
    case True
    then show ?thesis by (simp add: span_step_def Let_def)
  next
    case False
    then have "Min (sm_ts ` set (ps @ [x])) = min (sm_ts x) (Min (sm_ts ` set ps))"
      "Max (sm_ts ` set (ps @ [x])) = max (sm_ts x) (Max (sm_ts ` set ps))" by simp_all
    then show ?thesis using snoc.IH [OF False] by (simp add: span_step_def Let_def min_def max_def)
  qed
qed simp

lemma foldl_concat_samples:
  "foldl (\<lambda>b s. foldl span_step b (samples_of s)) b ss = foldl span_step b (concat (map samples_of ss))"
  by (induction ss arbitrary: b) simp_all

text \<open>The time span of the chart is the distance of the earliest and the latest sample of all series in
  milliseconds, or an hour when there are not two different times; it is always positive.\<close>

theorem data_span:
  "dataSpanMs ss =
     (if all_times ss \<noteq> [] \<and> Min (set (all_times ss)) < Max (set (all_times ss))
      then 1000 * (Max (set (all_times ss)) - Min (set (all_times ss))) else 3600000) \<and>
   0 < dataSpanMs ss"
proof -
  define ps where "ps = concat (map samples_of ss)"
  have times: "set (all_times ss) = sm_ts ` set ps" "all_times ss = [] \<longleftrightarrow> ps = []"
    by (simp_all add: all_times_def ps_def)
  have fold: "foldl (\<lambda>b s. foldl span_step b (samples_of s)) (None, None) ss = foldl span_step (None, None) ps"
    unfolding ps_def by (rule foldl_concat_samples)
  show ?thesis
  proof (cases "ps = []")
    case True
    then show ?thesis using times by (simp add: dataSpanMs_def fold)
  next
    case False
    define lo hi where "lo = Min (set (all_times ss))" "hi = Max (set (all_times ss))"
    have "dataSpanMs ss = (if 1000 * hi \<le> 1000 * lo then 3600 * 1000 else 1000 * hi - 1000 * lo)"
      unfolding dataSpanMs_def fold span_bounds [OF False] by (simp add: lo_hi_def times)
    then show ?thesis using False times(2) unfolding lo_hi_def [symmetric] by simp
  qed
qed

section \<open>The page stays consistent\<close>

definition picker_ok :: "metrics_page \<Rightarrow> bool" where
  "picker_ok p \<longleftrightarrow> m_chips p \<in> {None, Some (selectedSensors p)} \<and>
     m_count p \<in> {None, Some (js_int_string (int (length (selectedSensors p))))}"

definition filter_ok :: "(jsstring \<Rightarrow> jsstring) \<Rightarrow> metrics_page \<Rightarrow> bool" where
  "filter_ok lower p \<longleftrightarrow>
     (\<forall>(name, hidden) \<in> set (m_items p). hidden \<longleftrightarrow> filter_query lower p \<noteq> [] \<and> \<not> sublist (filter_query lower p) (lower name)) \<and>
     m_empty_hidden p \<in> {None, Some ((\<exists>i \<in> set (m_items p). \<not> snd i) \<or> \<not> m_has_list p)}"

text \<open>The one chart that is alive shows the last answer that was drawn.\<close>

definition chart_ok :: "metrics_page \<Rightarrow> bool" where
  "chart_ok p \<longleftrightarrow>
     m_live p = (case m_chart p of None \<Rightarrow> [] | Some c \<Rightarrow> [c_number c]) \<and>
     map_option (\<lambda>c. (c_datasets c, c_span c)) (m_chart p) =
       (case m_lastPayload p of
          None \<Rightarrow> None
        | Some pl \<Rightarrow> if total_samples (series_of pl) = 0 then None
                     else Some (seriesToDatasets (series_of pl), dataSpanMs (series_of pl))) \<and>
     (m_lastPayload p \<noteq> None \<longrightarrow> m_has_host p \<and> m_has_library p)"

definition metrics_ok :: "(jsstring \<Rightarrow> jsstring) \<Rightarrow> metrics_page \<Rightarrow> bool" where
  "metrics_ok lower p \<longleftrightarrow> picker_ok p \<and> filter_ok lower p \<and> chart_ok p"

lemma metrics_ok_frame:
  "metrics_ok lower (load_metrics p) = metrics_ok lower p" "metrics_ok lower (syncURL cfg p) = metrics_ok lower p"
  "metrics_ok lower (load_failed msg p) = metrics_ok lower p" "metrics_ok lower (p\<lparr>m_range := r\<rparr>) = metrics_ok lower p"
  by (simp_all add: metrics_ok_def picker_ok_def filter_ok_def chart_ok_def load_metrics_def syncURL_def load_failed_def
      selectedSensors_def filter_query_def)

lemma syncPicker_ok: "filter_ok lower p \<Longrightarrow> chart_ok p \<Longrightarrow> metrics_ok lower (syncPickerUI p)"
  by (cases "m_chips p"; cases "m_count p")
    (simp_all add: metrics_ok_def picker_ok_def filter_ok_def chart_ok_def syncPickerUI_def selectedSensors_def filter_query_def)

lemma inputs_frame [simp]: "filter_ok lower (p\<lparr>m_inputs := is\<rparr>) = filter_ok lower p" "chart_ok (p\<lparr>m_inputs := is\<rparr>) = chart_ok p"
  by (simp_all add: filter_ok_def chart_ok_def filter_query_def)

lemma applyFilter_ok: "picker_ok p \<Longrightarrow> chart_ok p \<Longrightarrow> metrics_ok lower (applyFilter lower p)"
  by (auto simp: metrics_ok_def picker_ok_def filter_ok_def chart_ok_def applyFilter_def selectedSensors_def filter_query_def
      contains_sublist Let_def filter_empty_conv)

lemma destroy_frame [simp]:
  "picker_ok (destroyChart p) = picker_ok p" "filter_ok lower (destroyChart p) = filter_ok lower p"
  by (simp_all add: destroyChart_def picker_ok_def filter_ok_def selectedSensors_def filter_query_def split: option.splits)

lemma destroyed: "chart_ok p \<Longrightarrow> m_live (destroyChart p) = [] \<and> m_chart (destroyChart p) = None"
  by (auto simp: chart_ok_def destroyChart_def split: option.splits)

lemma render_ok:
  assumes "picker_ok p" "filter_ok lower p" "m_live (destroyChart p) = []" "m_has_host p" "m_has_library p"
  shows "metrics_ok lower (render pl p)"
proof -
  define q where "q = destroyChart (p\<lparr>m_lastPayload := Some pl, m_status := map_option (\<lambda>t. status_text pl) (m_status p)\<rparr>)"
  have q: "picker_ok q" "filter_ok lower q" "m_live q = []" "m_chart q = None" "m_lastPayload q = Some pl"
    "m_has_host q" "m_has_library q"
    using assms
    by (auto simp: q_def destroyChart_def picker_ok_def filter_ok_def selectedSensors_def filter_query_def split: option.splits)
  have "render pl p = (if total_samples (series_of pl) = 0 then q
      else q\<lparr>m_chart := Some \<lparr>c_number = m_created q, c_datasets = seriesToDatasets (series_of pl),
             c_span = dataSpanMs (series_of pl)\<rparr>, m_live := m_live q @ [m_created q], m_created := m_created q + 1\<rparr>)"
    using assms(4,5) by (simp add: render_def q_def Let_def)
  then show ?thesis
    using q by (simp add: metrics_ok_def picker_ok_def filter_ok_def chart_ok_def selectedSensors_def filter_query_def)
qed

lemma render_step: "metrics_ok lower p \<Longrightarrow> metrics_ok lower (render pl p)"
proof (cases "m_has_host p \<and> m_has_library p")
  case True
  then show "metrics_ok lower p \<Longrightarrow> ?thesis" using render_ok destroyed by (simp add: metrics_ok_def [of lower p])
next
  case False
  then show "metrics_ok lower p \<Longrightarrow> ?thesis" by (auto simp: render_def)
qed

lemma theme_chart_ok: "metrics_ok lower p \<Longrightarrow> metrics_ok lower (applyThemeToChart p)"
proof (cases "m_lastPayload p")
  case (Some pl)
  assume ok: "metrics_ok lower p"
  then have "m_has_host (destroyChart p)" "m_has_library (destroyChart p)" "m_live (destroyChart (destroyChart p)) = []"
    using Some destroyed [of p]
    by (auto simp: metrics_ok_def chart_ok_def destroyChart_def split: option.splits)
  then show ?thesis using render_ok [of "destroyChart p"] ok Some by (simp add: applyThemeToChart_def metrics_ok_def [of lower p])
qed (simp add: applyThemeToChart_def)

lemma metrics_step_ok: "metrics_ok lower p \<Longrightarrow> metrics_ok lower (metrics_step lower a p)"
proof (induction lower a p rule: metrics_step.induct)
  case (2 lower i c p)
  then show ?case using syncPicker_ok by (simp add: metrics_ok_def [of lower p])
next
  case (4 lower v p)
  then have "picker_ok (p\<lparr>m_filter := Some v\<rparr>)" "chart_ok (p\<lparr>m_filter := Some v\<rparr>)"
    by (simp_all add: metrics_ok_def picker_ok_def chart_ok_def selectedSensors_def)
  then show ?case using 4 applyFilter_ok by (simp split: option.splits)
next
  case (5 lower p)
  then show ?case using syncPicker_ok by (simp add: metrics_ok_def [of lower p])
next
  case (6 lower name p)
  then show ?case using syncPicker_ok by (simp add: chip_remove_def metrics_ok_def [of lower p])
qed (auto simp: metrics_ok_frame render_step theme_chart_ok split: option.splits)

text \<open>A page before the script has run: no chart yet.\<close>

definition fresh_page :: "metrics_page \<Rightarrow> bool" where
  "fresh_page p \<longleftrightarrow> m_chart p = None \<and> m_live p = [] \<and> m_lastPayload p = None"


definition demo_metrics :: metrics_page where
  "demo_metrics = \<lparr>m_inputs = [(lit ''fan'', True), (lit ''cpu'', False)], m_range = Some (lit ''1h''), m_boot_range = lit ''1h'',
     m_chips = Some [], m_count = Some [], m_filter = Some [], m_items = [(lit ''fan'', False), (lit ''cpu'', False)],
     m_empty_hidden = Some False, m_has_list = True, m_status = Some [], m_has_host = True, m_has_library = True,
     m_chart = None, m_live = [], m_created = 0, m_lastPayload = None, m_requests = [], m_query = []\<rparr>"

definition demo_answer :: payload where
  "demo_answer = \<lparr>p_series = Some [\<lparr>sensor = lit ''fan'', sunit = lit ''RPM'',
     samples = Some [\<lparr>sm_ts = 10, sm_value = 1\<rparr>, \<lparr>sm_ts = 40, sm_value = 2\<rparr>]\<rparr>], p_warm = True\<rparr>"


section \<open>Requests\<close>

definition values_of :: "jsstring \<Rightarrow> (jsstring \<times> jsstring) list \<Rightarrow> jsstring list" where
  "values_of k ps = map snd (filter (\<lambda>q. fst q = k) ps)"

lemma params_set_absent: "k \<notin> fst ` set ps \<Longrightarrow> params_set k v ps = ps @ [(k, v)]"
  by (induction k v ps rule: params_set.induct) auto

text \<open>Submitting the form asks the server for exactly the picked sensors in the range shown, and writes the same
  to the address of the page, keeping its other parameters.\<close>

theorem submit_requests_selection:
  assumes "m_range p = Some r" "r \<noteq> []"
  shows "let q = metrics_step lower Submit p in
    values_of (lit ''sensor'') (last (m_requests q)) = selectedSensors p \<and>
    values_of (lit ''range'') (last (m_requests q)) = [r] \<and>
    values_of (lit ''sensor'') (m_query q) = selectedSensors p \<and> values_of (lit ''range'') (m_query q) = [r] \<and>
    (\<forall>k. k \<noteq> lit ''sensor'' \<and> k \<noteq> lit ''range'' \<longrightarrow> values_of k (m_query q) = values_of k (m_query p))"
proof -
  define sel where "sel = selectedSensors p"
  have diff: "lit ''range'' \<noteq> lit ''sensor''" by (simp add: lit_def)
  have q: "m_requests (metrics_step lower Submit p) = m_requests p @ [[(lit ''range'', r)] @ map (Pair (lit ''sensor'')) sel]"
    "m_query (metrics_step lower Submit p) = params_delete (lit ''range'') (params_delete (lit ''sensor'') (m_query p)) @
      [(lit ''range'', r)] @ map (Pair (lit ''sensor'')) sel"
    using assms params_set_absent [of "lit ''range''" "params_delete (lit ''range'') (params_delete (lit ''sensor'') (m_query p))" r]
    by (simp_all add: load_metrics_def syncURL_def buildURL_def currentConfig_def or_1h_def sel_def selectedSensors_def
        params_delete_def image_iff)
  have vals: "values_of k (map (Pair k') xs) = (if k = k' then xs else [])" for k k' xs
    by (simp add: values_of_def filter_map comp_def)
  have app: "values_of k (ps @ qs) = values_of k ps @ values_of k qs" for k ps qs by (simp add: values_of_def)
  have del: "values_of k (params_delete k' ps) = (if k = k' then [] else values_of k ps)" for k k' ps
    by (auto simp: values_of_def params_delete_def intro!: arg_cong [of _ _ "map snd"] filter_cong)
  have one: "values_of k ((k', v) # ps) = (if k = k' then v # values_of k ps else values_of k ps)" for k k' v ps
    by (simp add: values_of_def)
  show ?thesis unfolding Let_def q using diff by (simp add: app vals del one sel_def)
qed

end
