(* ===== verification/Localization.thy ===== *)
theory Localization
  imports Js_Text
begin

text \<open>
  Translation of the console page, \<open>app/localization.js\<close>: the choice of a language from what the user prefers
  and what is supported, the dictionary, and the traversal of the page that translates texts and
  attributes. The page is a tree of elements, texts and other nodes; attributes are an association list.
  Conversion to lower case is an argument, and so is what the server answers for a dictionary.
\<close>

section \<open>Choice of a language\<close>

record localizer =
  language :: jsstring
  dictionary :: "(jsstring \<Rightarrow> jsstring option) option"

definition new_localizer :: localizer where
  "new_localizer = \<lparr>language = lit ''en'', dictionary = None\<rparr>"

definition lang_parts :: "(jsstring \<Rightarrow> jsstring) \<Rightarrow> jsstring \<Rightarrow> jsstring list" where
  "lang_parts lower l = js_split 45 (replace1 95 45 (lower l))"

text \<open>\<open>a[i]\<close>, which is undefined outside.\<close>

definition part :: "'a list \<Rightarrow> nat \<Rightarrow> 'a option" where
  "part xs i = (if i < length xs then Some (xs ! i) else None)"

definition perfect_match :: "(jsstring \<Rightarrow> jsstring) \<Rightarrow> jsstring \<Rightarrow> jsstring \<Rightarrow> bool" where
  "perfect_match lower user s \<longleftrightarrow>
     part (lang_parts lower user) 0 = part (lang_parts lower s) 0 \<and>
     part (lang_parts lower user) 1 = part (lang_parts lower s) 1"

definition fallback_match :: "(jsstring \<Rightarrow> jsstring) \<Rightarrow> jsstring \<Rightarrow> jsstring \<Rightarrow> bool" where
  "fallback_match lower user s \<longleftrightarrow>
     part (lang_parts lower user) 0 = part (lang_parts lower s) 0 \<and> part (lang_parts lower s) 1 = None"

definition is_english :: "(jsstring \<Rightarrow> jsstring) \<Rightarrow> jsstring \<Rightarrow> bool" where
  "is_english lower user \<longleftrightarrow> part (lang_parts lower user) 0 = Some (lit ''en'')"

fun setupLanguage :: "(jsstring \<Rightarrow> jsstring) \<Rightarrow> jsstring list \<Rightarrow> jsstring list \<Rightarrow> localizer \<Rightarrow> localizer" where
  "setupLanguage lower supported [] l = l"
| "setupLanguage lower supported (user # users) l =
     (case find (perfect_match lower user) supported of
        Some s \<Rightarrow> l\<lparr>language := s\<rparr>
      | None \<Rightarrow>
          if is_english lower user then l
          else case find (fallback_match lower user) supported of
                 Some s \<Rightarrow> l\<lparr>language := s\<rparr>
               | None \<Rightarrow> setupLanguage lower supported users l)"

section \<open>Dictionary\<close>

datatype answer = Dictionary "jsstring \<Rightarrow> jsstring option" | HttpError jsstring

definition dictionary_url :: "jsstring \<Rightarrow> jsstring \<Rightarrow> jsstring" where
  "dictionary_url baseURL lang =
     (if baseURL = [] then [] else if last baseURL \<noteq> 47 then baseURL @ [47] else baseURL) @ lang @ lit ''.json''"

definition setupDictionary :: "(jsstring \<Rightarrow> answer) \<Rightarrow> jsstring \<Rightarrow> localizer \<Rightarrow> unit outcome \<times> localizer" where
  "setupDictionary fetch baseURL l =
     (if language l = lit ''en'' then (Ret (), l)
      else case fetch (dictionary_url baseURL (language l)) of
             HttpError e \<Rightarrow> (Throw (ErrorMsg ''HTTP error''), l)
           | Dictionary d \<Rightarrow> (Ret (), l\<lparr>dictionary := Some d\<rparr>))"

definition l10n_setup ::
  "(jsstring \<Rightarrow> jsstring) \<Rightarrow> (jsstring \<Rightarrow> answer) \<Rightarrow> jsstring list \<Rightarrow> jsstring list \<Rightarrow> jsstring \<Rightarrow> localizer \<Rightarrow>
   unit outcome \<times> localizer" where
  "l10n_setup lower fetch users supported baseURL l =
     setupDictionary fetch baseURL
       (setupLanguage lower supported users (l\<lparr>language := lit ''en'', dictionary := None\<rparr>))"

definition l10n_get :: "localizer \<Rightarrow> jsstring \<Rightarrow> jsstring" where
  "l10n_get l i =
     (case dictionary l of
        None \<Rightarrow> i
      | Some d \<Rightarrow> case d i of None \<Rightarrow> i | Some t \<Rightarrow> if t = [] then i else t)"

section \<open>Translation of the page\<close>

datatype dom = Elem string "(string \<times> jsstring) list" "dom list" | Text jsstring | OtherNode

definition normal_text :: "jsstring \<Rightarrow> jsstring" where
  "normal_text s = js_trim (js_join [32] (map js_trim (js_split 10 s)))"

definition translateString :: "localizer \<Rightarrow> jsstring \<Rightarrow> jsstring" where
  "translateString l s = l10n_get l (normal_text s)"

definition hasAttribute :: "string \<Rightarrow> (string \<times> jsstring) list \<Rightarrow> bool" where
  "hasAttribute a attrs \<longleftrightarrow> map_of attrs a \<noteq> None"

fun setAttribute :: "string \<Rightarrow> jsstring \<Rightarrow> (string \<times> jsstring) list \<Rightarrow> (string \<times> jsstring) list" where
  "setAttribute a v [] = [(a, v)]"
| "setAttribute a v ((b, w) # attrs) = (if b = a then (a, v) # attrs else (b, w) # setAttribute a v attrs)"

definition translateAttribute :: "localizer \<Rightarrow> string \<Rightarrow> (string \<times> jsstring) list \<Rightarrow> (string \<times> jsstring) list" where
  "translateAttribute l a attrs =
     (case map_of attrs a of None \<Rightarrow> attrs | Some v \<Rightarrow> setAttribute a (translateString l v) attrs)"

definition translate_enabled :: "(string \<times> jsstring) list \<Rightarrow> bool \<Rightarrow> bool" where
  "translate_enabled attrs enabled =
     (case map_of attrs ''translate'' of
        None \<Rightarrow> enabled
      | Some v \<Rightarrow> if v = [] \<or> v = lit ''yes'' then True else if v = lit ''no'' then False else enabled)"

definition when_tag :: "bool \<Rightarrow> localizer \<Rightarrow> string \<Rightarrow> (string \<times> jsstring) list \<Rightarrow> (string \<times> jsstring) list" where
  "when_tag b l a attrs = (if hasAttribute a attrs \<and> b then translateAttribute l a attrs else attrs)"

definition translate_attributes :: "localizer \<Rightarrow> string \<Rightarrow> (string \<times> jsstring) list \<Rightarrow> (string \<times> jsstring) list" where
  "translate_attributes l tag attrs =
     (let attrs = when_tag (tag = ''TH'') l ''abbr'' attrs;
          attrs = when_tag (tag \<in> {''AREA'', ''IMG'', ''INPUT''}) l ''alt'' attrs;
          attrs = when_tag (tag \<in> {''A'', ''AREA''}) l ''download'' attrs;
          attrs = when_tag (tag \<in> {''MENUITEM'', ''MENU'', ''OPTGROUP'', ''OPTION'', ''TRACK''}) l ''label'' attrs;
          attrs = when_tag (tag \<in> {''INPUT'', ''TEXTAREA''}) l ''placeholder'' attrs;
          attrs = when_tag True l ''title'' attrs
      in when_tag (tag = ''INPUT'' \<and>
             (case map_of attrs ''type'' of
                None \<Rightarrow> False
              | Some ty \<Rightarrow> ty \<in> {lit ''reset'', lit ''button'', lit ''submit''})) l ''value'' attrs)"

fun process :: "localizer \<Rightarrow> bool \<Rightarrow> dom \<Rightarrow> dom" where
  "process l enabled (Elem tag attrs kids) =
     (let enabled = translate_enabled attrs enabled
      in Elem tag (if enabled then translate_attributes l tag attrs else attrs) (map (process l enabled) kids))"
| "process l enabled (Text s) = (if enabled then Text (translateString l s) else Text s)"
| "process l enabled OtherNode = OtherNode"

definition translateDOM :: "localizer \<Rightarrow> dom \<Rightarrow> dom" where
  "translateDOM l body = process l True body"

section \<open>The language chosen\<close>

text \<open>What one preference of the user decides: a supported language, or English as the page is written.\<close>

definition language_for :: "(jsstring \<Rightarrow> jsstring) \<Rightarrow> jsstring list \<Rightarrow> jsstring \<Rightarrow> jsstring option option" where
  "language_for lower supported user =
     (if \<exists>s \<in> set supported. perfect_match lower user s then Some (find (perfect_match lower user) supported)
      else if is_english lower user then Some None
      else if \<exists>s \<in> set supported. fallback_match lower user s then Some (find (fallback_match lower user) supported)
      else None)"

lemma setupLanguage_step:
  "setupLanguage lower supported (user # users) l =
     (case language_for lower supported user of
        None \<Rightarrow> setupLanguage lower supported users l
      | Some None \<Rightarrow> l
      | Some (Some s) \<Rightarrow> l\<lparr>language := s\<rparr>)"
proof -
  have "(\<exists>s \<in> set supported. P s) \<longleftrightarrow> find P supported \<noteq> None" for P
    by (auto simp: find_None_iff)
  then show ?thesis by (simp add: language_for_def split: option.splits)
qed

lemma language_for_supported: "language_for lower supported user = Some (Some s) \<Longrightarrow> s \<in> set supported"
  by (auto simp: language_for_def find_Some_iff split: if_splits)


section \<open>Texts\<close>

lemma set_js_trim: "set (js_trim s) \<subseteq> set s"
  by (auto simp: js_trim_def dest!: set_dropWhileD)

lemma set_js_join: "set (js_join sep ps) \<subseteq> set sep \<union> \<Union> (set (map set ps))"
  by (induction sep ps rule: js_join.induct) auto

lemma js_split_single: "c \<notin> set s \<Longrightarrow> js_split c s = [s]"
  by (induction s) auto

lemma normal_text_line: "10 \<notin> set (normal_text s)"
proof -
  have "10 \<notin> set (js_join [32] (map js_trim (js_split 10 s)))"
    using set_js_join [of "[32]" "map js_trim (js_split 10 s)"] set_js_trim js_split_parts [of _ 10 s] by fastforce
  then show ?thesis using set_js_trim by (auto simp: normal_text_def)
qed

lemma normal_text_idem [simp]: "normal_text (normal_text s) = normal_text s"
proof -
  have "normal_text (normal_text s) = js_trim (js_trim (normal_text s))"
    by (simp add: normal_text_def [of "normal_text s"] js_split_single [OF normal_text_line])
  then show ?thesis by (simp add: normal_text_def)
qed

text \<open>A dictionary whose translations are not translated again.\<close>

definition stable :: "localizer \<Rightarrow> bool" where
  "stable l \<longleftrightarrow> (\<forall>d k v. dictionary l = Some d \<longrightarrow> d k = Some v \<longrightarrow> v \<noteq> [] \<longrightarrow> l10n_get l (normal_text v) = v)"

lemma translateString_idem: "stable l \<Longrightarrow> translateString l (translateString l s) = translateString l s"
  by (auto simp: translateString_def l10n_get_def stable_def split: option.splits if_splits)

section \<open>Attributes\<close>

definition translated_attribute :: "string \<Rightarrow> jsstring option \<Rightarrow> string \<Rightarrow> bool" where
  "translated_attribute tag ty a \<longleftrightarrow>
     a = ''abbr'' \<and> tag = ''TH'' \<or> a = ''alt'' \<and> tag \<in> {''AREA'', ''IMG'', ''INPUT''} \<or>
     a = ''download'' \<and> tag \<in> {''A'', ''AREA''} \<or>
     a = ''label'' \<and> tag \<in> {''MENUITEM'', ''MENU'', ''OPTGROUP'', ''OPTION'', ''TRACK''} \<or>
     a = ''placeholder'' \<and> tag \<in> {''INPUT'', ''TEXTAREA''} \<or> a = ''title'' \<or>
     a = ''value'' \<and> tag = ''INPUT'' \<and> ty \<in> Some ` {lit ''reset'', lit ''button'', lit ''submit''}"

abbreviation with_attributes :: "(string \<Rightarrow> bool) \<Rightarrow> localizer \<Rightarrow> (string \<times> jsstring) list \<Rightarrow> (string \<times> jsstring) list" where
  "with_attributes P l attrs \<equiv> map (\<lambda>(k, v). (k, if P k then translateString l v else v)) attrs"

lemma with_attributes_keys [simp]: "map fst (with_attributes P l attrs) = map fst attrs"
  by (induction attrs) auto

lemma with_attributes_map_of:
  "\<not> P k \<Longrightarrow> map_of (with_attributes P l attrs) k = map_of attrs k"
  by (induction attrs) auto

lemma with_attributes_twice:
  "(\<And>k. \<not> (P k \<and> Q k)) \<Longrightarrow> with_attributes Q l (with_attributes P l attrs) = with_attributes (\<lambda>k. P k \<or> Q k) l attrs"
  by (induction attrs) auto

lemma with_attributes_absent: "a \<notin> fst ` set attrs \<Longrightarrow> with_attributes (\<lambda>k. k = a) l attrs = attrs"
  by (induction attrs) auto

lemma setAttribute_map:
  "distinct (map fst attrs) \<Longrightarrow> map_of attrs a = Some v \<Longrightarrow>
    setAttribute a (translateString l v) attrs = with_attributes (\<lambda>k. k = a) l attrs"
  by (induction attrs) (auto simp: with_attributes_absent image_iff split: if_splits)

lemma when_tag_map:
  "distinct (map fst attrs) \<Longrightarrow> when_tag b l a attrs = with_attributes (\<lambda>k. b \<and> k = a) l attrs"
proof (cases "map_of attrs a")
  case None
  then have "with_attributes (\<lambda>k. b \<and> k = a) l attrs = attrs" by (cases b) (auto simp: with_attributes_absent map_of_eq_None_iff)
  then show ?thesis using None by (simp add: when_tag_def hasAttribute_def)
next
  case (Some v)
  assume "distinct (map fst attrs)"
  then show ?thesis using setAttribute_map [OF _ Some] Some
    by (cases b) (simp_all add: when_tag_def hasAttribute_def translateAttribute_def split_beta)
qed

lemma when_tags:
  "distinct (map fst attrs) \<Longrightarrow> distinct (map snd bas) \<Longrightarrow>
    fold (\<lambda>(b, a). when_tag b l a) bas attrs = with_attributes (\<lambda>k. (True, k) \<in> set bas) l attrs"
proof (induction bas arbitrary: attrs)
  case Nil
  then show ?case by (simp add: map_idI split_beta)
next
  case (Cons x bas)
  obtain b a where x: "x = (b, a)" by (cases x)
  have tag: "when_tag b l a attrs = with_attributes (\<lambda>k. b \<and> k = a) l attrs" by (rule when_tag_map [OF Cons.prems(1)])
  have "distinct (map fst (with_attributes (\<lambda>k. b \<and> k = a) l attrs))" using Cons.prems(1) by (simp only: with_attributes_keys)
  then have "fold (\<lambda>(b, a). when_tag b l a) (x # bas) attrs =
      with_attributes (\<lambda>k. (True, k) \<in> set bas) l (with_attributes (\<lambda>k. b \<and> k = a) l attrs)"
    using Cons by (simp add: x tag)
  also have "\<dots> = with_attributes (\<lambda>k. b \<and> k = a \<or> (True, k) \<in> set bas) l attrs"
    by (rule with_attributes_twice) (use Cons.prems(2) in \<open>auto simp: x image_iff\<close>)
  also have "(\<lambda>k. b \<and> k = a \<or> (True, k) \<in> set bas) = (\<lambda>k. (True, k) \<in> set (x # bas))" by (auto simp: x)
  finally show ?case .
qed

lemma member_six:
  "(True, k) \<in> set [(b1, a1), (b2, a2), (b3, a3), (b4, a4), (b5, a5), (b6, a6)] \<longleftrightarrow>
    k = a1 \<and> b1 \<or> k = a2 \<and> b2 \<or> k = a3 \<and> b3 \<or> k = a4 \<and> b4 \<or> k = a5 \<and> b5 \<or> k = a6 \<and> b6"
  by auto

lemma translate_attributes_map:
  assumes "distinct (map fst attrs)"
  shows "translate_attributes l tag attrs = with_attributes (translated_attribute tag (map_of attrs ''type'')) l attrs"
proof -
  define early where "early = [(tag = ''TH'', ''abbr''), (tag \<in> {''AREA'', ''IMG'', ''INPUT''}, ''alt''),
    (tag \<in> {''A'', ''AREA''}, ''download''), (tag \<in> {''MENUITEM'', ''MENU'', ''OPTGROUP'', ''OPTION'', ''TRACK''}, ''label''),
    (tag \<in> {''INPUT'', ''TEXTAREA''}, ''placeholder''), (True, ''title'')]"
  define press where "press ty \<longleftrightarrow> tag = ''INPUT'' \<and>
    (case ty of None \<Rightarrow> False | Some ty \<Rightarrow> ty \<in> {lit ''reset'', lit ''button'', lit ''submit''})" for ty
  define attrs1 where "attrs1 = fold (\<lambda>(b, a). when_tag b l a) early attrs"
  have attrs1: "attrs1 = with_attributes (\<lambda>k. (True, k) \<in> set early) l attrs"
    unfolding attrs1_def by (rule when_tags [OF assms]) (simp add: early_def)
  have ty: "map_of attrs1 ''type'' = map_of attrs ''type''"
    unfolding attrs1 by (rule with_attributes_map_of) (simp add: early_def)
  have step: "translate_attributes l tag attrs = when_tag (press (map_of attrs1 ''type'')) l ''value'' attrs1"
    by (simp add: translate_attributes_def attrs1_def early_def press_def Let_def)
  have dist: "distinct (map fst attrs1)" unfolding attrs1 using assms by (simp only: with_attributes_keys)
  have "translate_attributes l tag attrs =
      with_attributes (\<lambda>k. press (map_of attrs ''type'') \<and> k = ''value'') l attrs1"
    unfolding step ty by (rule when_tag_map [OF dist])
  also have "\<dots> = with_attributes (\<lambda>k. (True, k) \<in> set early \<or> press (map_of attrs ''type'') \<and> k = ''value'') l attrs"
    unfolding attrs1 by (rule with_attributes_twice) (auto simp: early_def)
  also have "(\<lambda>k. (True, k) \<in> set early \<or> press (map_of attrs ''type'') \<and> k = ''value'') =
      translated_attribute tag (map_of attrs ''type'')"
  proof
    fix k
    have press: "press ty \<longleftrightarrow> tag = ''INPUT'' \<and> ty \<in> Some ` {lit ''reset'', lit ''button'', lit ''submit''}" for ty
      by (cases ty) (simp_all add: press_def image_iff)
    show "((True, k) \<in> set early \<or> press (map_of attrs ''type'') \<and> k = ''value'') =
        translated_attribute tag (map_of attrs ''type'') k"
      unfolding early_def member_six translated_attribute_def press by (simp only: disj_assoc conj_ac simp_thms)
  qed
  finally show ?thesis .
qed

section \<open>Translating twice\<close>

fun dom_ok :: "dom \<Rightarrow> bool" where
  "dom_ok (Elem tag attrs kids) \<longleftrightarrow> distinct (map fst attrs) \<and> list_all dom_ok kids"
| "dom_ok _ \<longleftrightarrow> True"

lemma with_attributes_idem:
  "stable l \<Longrightarrow> with_attributes P l (with_attributes P l attrs) = with_attributes P l attrs"
  by (induction attrs) (auto simp: translateString_idem)

lemma translate_attributes_facts:
  assumes "distinct (map fst attrs)"
  shows "map_of (translate_attributes l tag attrs) ''type'' = map_of attrs ''type''"
    "map_of (translate_attributes l tag attrs) ''translate'' = map_of attrs ''translate''"
    "map fst (translate_attributes l tag attrs) = map fst attrs"
  unfolding translate_attributes_map [OF assms]
  by (rule with_attributes_map_of, simp add: translated_attribute_def)+ (rule with_attributes_keys)

lemma translate_attributes_idem:
  assumes "distinct (map fst attrs)" "stable l"
  shows "translate_attributes l tag (translate_attributes l tag attrs) = translate_attributes l tag attrs"
proof -
  have "distinct (map fst (translate_attributes l tag attrs))" using assms(1) translate_attributes_facts(3) by metis
  from translate_attributes_map [OF this, of l tag]
  have 2: "translate_attributes l tag (translate_attributes l tag attrs) =
      with_attributes (translated_attribute tag (map_of attrs ''type'')) l (translate_attributes l tag attrs)"
    unfolding translate_attributes_facts(1) [OF assms(1)] .
  show ?thesis
    unfolding 2 unfolding translate_attributes_map [OF assms(1)] by (rule with_attributes_idem [OF assms(2)])
qed

lemma process_idem: "dom_ok t \<Longrightarrow> stable l \<Longrightarrow> process l b (process l b t) = process l b t"
proof (induction l b t rule: process.induct)
  case (1 l enabled tag attrs kids)
  define e where "e = translate_enabled attrs enabled"
  define attrs1 where "attrs1 = (if e then translate_attributes l tag attrs else attrs)"
  have d: "distinct (map fst attrs)" using "1.prems" by simp
  have "map_of attrs1 ''translate'' = map_of attrs ''translate''"
    using translate_attributes_facts(2) [OF d] by (simp add: attrs1_def)
  then have e1: "translate_enabled attrs1 enabled = e" by (simp add: translate_enabled_def e_def)
  have "(if e then translate_attributes l tag attrs1 else attrs1) = attrs1"
    using translate_attributes_idem [OF d "1.prems"(2)] by (simp add: attrs1_def)
  moreover have "map (process l e) (map (process l e) kids) = map (process l e) kids"
    using "1.IH" [OF e_def] "1.prems" by (auto simp: list_all_iff)
  ultimately show ?case by (simp add: e_def [symmetric] attrs1_def [symmetric] e1 Let_def)
qed (simp_all add: translateString_idem)

text \<open>Translating the page twice changes nothing more than translating it once, for every dictionary whose
  translations are not translated again; white space around line breaks is brought into a form that
  stays as it is.\<close>

theorem translate_idempotent:
  assumes "dom_ok body" "stable l"
  shows "translateDOM l (translateDOM l body) = translateDOM l body"
  using process_idem [OF assms] by (simp add: translateDOM_def)

definition demo_localizer :: localizer where
  "demo_localizer = \<lparr>language = lit ''de'', dictionary = Some [lit ''yes'' \<mapsto> lit ''ja'']\<rparr>"

end
