(* ===== verification/Webutil.thy ===== *)
theory Webutil
  imports Js_Text
begin

text \<open>
  Configuration of the console page, \<open>app/webutil.js\<close>: variables of the address, cookies, and settings that are
  cached in memory and written to the storage of the browser. The regular expressions are searches for the
  last occurrence of a variable, since they begin with a greedy wildcard; names of variables have no
  characters that are special in them, and an address has no line breaks. Logging is left out.
\<close>

section \<open>Variables of the address\<close>

fun last_var :: "nat set \<Rightarrow> nat set \<Rightarrow> jsstring \<Rightarrow> jsstring \<Rightarrow> jsstring option" where
  "last_var seps stops name [] = None"
| "last_var seps stops name (c # s) =
     (case last_var seps stops name s of
        Some v \<Rightarrow> Some v
      | None \<Rightarrow>
          if c \<in> seps \<and> prefix (name @ [61]) s
          then Some (takeWhile (\<lambda>x. x \<notin> stops) (drop (length name + 1) s)) else None)"

definition decoded :: "jsstring option \<Rightarrow> jsstring option \<Rightarrow> jsstring option outcome" where
  "decoded found defVal =
     (case found of
        None \<Rightarrow> Ret defVal
      | Some v \<Rightarrow> case decodeURIComponent v of Ret t \<Rightarrow> Ret (Some t) | Throw e \<Rightarrow> Throw e | Hang \<Rightarrow> Hang)"

definition getQueryVar :: "jsstring \<Rightarrow> jsstring \<Rightarrow> jsstring option \<Rightarrow> jsstring option outcome" where
  "getQueryVar href name defVal = decoded (last_var {63, 38} {38, 35} name href) defVal"

definition getHashVar :: "jsstring \<Rightarrow> jsstring \<Rightarrow> jsstring option \<Rightarrow> jsstring option outcome" where
  "getHashVar hsh name defVal = decoded (last_var {38, 35} {38} name hsh) defVal"

definition getConfigVar :: "jsstring \<Rightarrow> jsstring \<Rightarrow> jsstring \<Rightarrow> jsstring option \<Rightarrow> jsstring option outcome" where
  "getConfigVar href hsh name defVal =
     (case getHashVar hsh name None of
        Ret None \<Rightarrow> getQueryVar href name defVal
      | r \<Rightarrow> r)"

section \<open>Cookies\<close>

text \<open>The string assigned to \<open>document.cookie\<close>; the date is given in its printed form.\<close>

definition createCookie :: "jsstring option \<Rightarrow> bool \<Rightarrow> jsstring \<Rightarrow> jsstring \<Rightarrow> jsstring" where
  "createCookie expiry https name value =
     name @ [61] @ value @ (case expiry of None \<Rightarrow> [] | Some d \<Rightarrow> lit ''; expires='' @ d) @ lit ''; path=/'' @
     (if https then lit ''; secure'' else [])"

text \<open>Erasing sets an empty value that expired a day ago.\<close>

definition eraseCookie :: "jsstring \<Rightarrow> bool \<Rightarrow> jsstring \<Rightarrow> jsstring" where
  "eraseCookie yesterday https name = createCookie (Some yesterday) https name []"

fun find_cookie :: "jsstring \<Rightarrow> jsstring list \<Rightarrow> jsstring option" where
  "find_cookie nameEQ [] = None"
| "find_cookie nameEQ (c # cs) =
     (let c = dropWhile (\<lambda>x. x = 32) c
      in if prefix nameEQ c then Some (drop (length nameEQ) c) else find_cookie nameEQ cs)"

definition readCookie :: "jsstring \<Rightarrow> jsstring \<Rightarrow> jsstring option \<Rightarrow> jsstring option" where
  "readCookie cookie name defaultValue =
     (case find_cookie (name @ [61]) (js_split 59 cookie) of Some v \<Rightarrow> Some v | None \<Rightarrow> defaultValue)"

section \<open>Settings\<close>

datatype jsval = JUndef | JNull | JBool bool | JNum int | JStr jsstring

fun js_to_string :: "jsval \<Rightarrow> jsstring" where
  "js_to_string JUndef = lit ''undefined''"
| "js_to_string JNull = lit ''null''"
| "js_to_string (JBool b) = lit (if b then ''true'' else ''false'')"
| "js_to_string (JNum i) = js_int_string i"
| "js_to_string (JStr s) = s"

record web =
  w_settings :: "string \<rightharpoonup> jsval"
  w_local :: "string \<rightharpoonup> jsstring"
  w_local_works :: bool
  w_chrome :: bool
  w_sync :: "string \<rightharpoonup> jsval"

definition setting_value :: "web \<Rightarrow> string \<Rightarrow> jsval" where
  "setting_value w name = (case w_settings w name of None \<Rightarrow> JUndef | Some v \<Rightarrow> v)"

definition web_initSettings :: "web \<Rightarrow> web" where
  "web_initSettings w = (if \<not> w_chrome w then w\<lparr>w_settings := Map.empty\<rparr> else w\<lparr>w_settings := w_sync w\<rparr>)"

definition localStorageGet :: "web \<Rightarrow> string \<Rightarrow> jsval" where
  "localStorageGet w name =
     (if \<not> w_local_works w then JUndef else case w_local w name of None \<Rightarrow> JNull | Some s \<Rightarrow> JStr s)"

definition localStorageSet :: "string \<Rightarrow> jsval \<Rightarrow> web \<Rightarrow> web" where
  "localStorageSet name v w =
     (if \<not> w_local_works w then w else w\<lparr>w_local := (w_local w)(name \<mapsto> js_to_string v)\<rparr>)"

definition localStorageRemove :: "string \<Rightarrow> web \<Rightarrow> web" where
  "localStorageRemove name w =
     (if \<not> w_local_works w then w else w\<lparr>w_local := (w_local w)(name := None)\<rparr>)"

definition setSetting :: "string \<Rightarrow> jsval \<Rightarrow> web \<Rightarrow> web" where
  "setSetting name v w = w\<lparr>w_settings := (w_settings w)(name \<mapsto> v)\<rparr>"

definition writeSetting :: "string \<Rightarrow> jsval \<Rightarrow> web \<Rightarrow> web" where
  "writeSetting name v w =
     (if setting_value w name = v then w
      else
        let w = w\<lparr>w_settings := (w_settings w)(name \<mapsto> v)\<rparr>
        in if w_chrome w then w\<lparr>w_sync := w_sync w ++ w_settings w\<rparr> else localStorageSet name v w)"

definition readSetting :: "string \<Rightarrow> jsval option \<Rightarrow> web \<Rightarrow> jsval \<times> web" where
  "readSetting name defaultValue w =
     (let (v, w) = (if w_settings w name \<noteq> None \<or> w_chrome w then (setting_value w name, w)
                    else let v = localStorageGet w name in (v, w\<lparr>w_settings := (w_settings w)(name \<mapsto> v)\<rparr>));
          v = (if v = JUndef then JNull else v)
      in case defaultValue of
           Some d \<Rightarrow> if v = JNull then (d, w) else (v, w)
         | None \<Rightarrow> (v, w))"

definition eraseSetting :: "string \<Rightarrow> web \<Rightarrow> web" where
  "eraseSetting name w =
     (let w = w\<lparr>w_settings := (w_settings w)(name := None)\<rparr>
      in if w_chrome w then w\<lparr>w_sync := (w_sync w)(name := None)\<rparr> else localStorageRemove name w)"

text \<open>The page is loaded again: the storage is what it was, and the settings are read from it.\<close>

definition web_reload :: "web \<Rightarrow> web" where
  "web_reload w = web_initSettings w"

section \<open>Laws of settings\<close>

lemma read_after_set: "v \<notin> {JUndef, JNull} \<Longrightarrow> fst (readSetting name d (setSetting name v w)) = v"
  by (auto simp: readSetting_def setSetting_def setting_value_def split: option.splits)

lemma setting_value_write: "setting_value w name \<noteq> v \<Longrightarrow> setting_value (writeSetting name v w) name = v"
  by (simp add: writeSetting_def setting_value_def localStorageSet_def Let_def)

lemma settings_write:
  "setting_value w name \<noteq> v \<Longrightarrow> w_settings (writeSetting name v w) = (w_settings w)(name \<mapsto> v)"
  by (simp add: writeSetting_def localStorageSet_def Let_def)

lemma read_cached:
  "w_settings w name = Some v \<Longrightarrow> v \<notin> {JUndef, JNull} \<Longrightarrow> fst (readSetting name d w) = v"
  by (simp add: readSetting_def setting_value_def split: option.splits)

lemma read_after_write:
  "v \<notin> {JUndef, JNull} \<Longrightarrow> setting_value w name \<noteq> v \<Longrightarrow> fst (readSetting name d (writeSetting name v w)) = v"
  by (rule read_cached) (simp_all add: settings_write)

lemma read_after_reload:
  assumes "v \<notin> {JUndef, JNull}" "w_local_works w" "setting_value w name \<noteq> v"
  shows "fst (readSetting name d (web_reload (writeSetting name v w))) =
    (if w_chrome w then v else JStr (js_to_string v))"
proof (cases "w_chrome w")
  case True
  then have "w_settings (web_reload (writeSetting name v w)) name = Some v"
    using assms(3) by (simp add: web_reload_def web_initSettings_def writeSetting_def Let_def)
  then show ?thesis using read_cached assms(1) True by simp
next
  case False
  then show ?thesis using assms
    by (simp add: web_reload_def web_initSettings_def writeSetting_def localStorageSet_def readSetting_def
        localStorageGet_def Let_def split: option.split)
qed

lemma read_after_erase:
  assumes "w_local_works w"
  shows "fst (readSetting name None (eraseSetting name (writeSetting name v w))) = JNull"
proof -
  have "fst (readSetting name None (eraseSetting name u)) = JNull" if "w_local_works u" for u
    using that
    by (cases "w_chrome u") (simp_all add: eraseSetting_def readSetting_def setting_value_def localStorageRemove_def
      localStorageGet_def Let_def)
  moreover have "w_local_works (writeSetting name v w)"
    using assms by (simp add: writeSetting_def localStorageSet_def Let_def)
  ultimately show ?thesis .
qed

lemma read_congr:
  assumes "w_settings u name = w_settings w name" "w_local u name = w_local w name"
    "w_local_works u = w_local_works w" "w_chrome u = w_chrome w"
  shows "fst (readSetting name d u) = fst (readSetting name d w)"
  using assms by (simp add: readSetting_def setting_value_def localStorageGet_def Let_def split: option.split)

lemma read_other:
  assumes "other \<noteq> name"
  shows "fst (readSetting other d (writeSetting name v w)) = fst (readSetting other d w)"
  by (rule read_congr) (use assms in \<open>simp_all add: writeSetting_def localStorageSet_def Let_def\<close>)


definition demo_web :: web where
  "demo_web = \<lparr>w_settings = Map.empty, w_local = Map.empty, w_local_works = True, w_chrome = False, w_sync = Map.empty\<rparr>"


section \<open>Variables are found\<close>

lemma last_var_none: "set s \<inter> seps = {} \<Longrightarrow> last_var seps stops name s = None"
  by (induction s) auto

lemma last_var_last:
  assumes "set (name @ 61 # v) \<inter> seps = {}" "c \<in> seps"
  shows "last_var seps stops name (s @ c # name @ 61 # v) = Some (takeWhile (\<lambda>x. x \<notin> stops) v)"
proof (induction s)
  case Nil
  have "last_var seps stops name (name @ 61 # v) = None" using assms(1) by (rule last_var_none)
  then show ?case using assms(2) by (simp add: prefix_def)
qed simp

lemma encoded_safe: "encodeURIComponent s = Ret u \<Longrightarrow> set u \<inter> {35, 38, 61, 63} = {}"
proof -
  have "set (pct b) \<inter> {35, 38, 61, 63} = {}" for b
    by (auto simp: pct_def unreserved_def hex_upper_def lit_def)
  then show "encodeURIComponent s = Ret u \<Longrightarrow> set u \<inter> {35, 38, 61, 63} = {}"
    by (fastforce simp: encodeURIComponent_def split: option.splits)
qed

lemma last_var_encoded:
  assumes "encodeURIComponent v = Ret u" "set name \<inter> seps = {}" "c \<in> seps"
    "seps \<subseteq> {35, 38, 63}" "stops \<subseteq> {35, 38, 63}"
  shows "last_var seps stops name (s @ c # name @ 61 # u) = Some u"
proof -
  have u: "set u \<inter> {35, 38, 61, 63} = {}" using assms(1) by (rule encoded_safe)
  then have "takeWhile (\<lambda>x. x \<notin> stops) u = u"
    using assms(5) by (intro takeWhile_eq_all_conv [THEN iffD2]) auto
  moreover have "last_var seps stops name (s @ c # name @ 61 # u) = Some (takeWhile (\<lambda>x. x \<notin> stops) u)"
    by (rule last_var_last) (use u assms(2-4) in auto)
  ultimately show ?thesis by simp
qed

text \<open>A variable whose percent encoded value ends the fragment is read back, whatever the query and the rest of
  the fragment hold, also for a variable that is repeated; with an empty fragment the same holds of the query, and
  a variable that occurs in neither has the default.\<close>

theorem config_var_found:
  assumes "encodeURIComponent v = Ret u" "units16 v" "set name \<inter> {35, 38, 63} = {}"
  shows "(c \<in> {35, 38} \<longrightarrow> getConfigVar href (s @ c # name @ 61 # u) name d = Ret (Some v)) \<and>
    (c \<in> {38, 63} \<longrightarrow> getConfigVar (s @ c # name @ 61 # u) [] name d = Ret (Some v)) \<and>
    (set s \<inter> {35, 38, 63} = {} \<longrightarrow> getConfigVar s [] name d = Ret d)"
proof -
  have decode: "decodeURIComponent u = Ret v" using uri_roundtrip assms(1,2) by simp
  have hash: "getHashVar (s @ c # name @ 61 # u) name None = Ret (Some v)" if "c \<in> {35, 38}"
  proof -
    have "last_var {38, 35} {38} name (s @ c # name @ 61 # u) = Some u"
      by (rule last_var_encoded [OF assms(1)]) (use assms(3) that in auto)
    then show ?thesis using decode by (simp add: getHashVar_def decoded_def)
  qed
  have query: "getQueryVar (s @ c # name @ 61 # u) name d = Ret (Some v)" if "c \<in> {38, 63}"
  proof -
    have "last_var {63, 38} {38, 35} name (s @ c # name @ 61 # u) = Some u"
      by (rule last_var_encoded [OF assms(1)]) (use assms(3) that in auto)
    then show ?thesis using decode by (simp add: getQueryVar_def decoded_def)
  qed
  have none: "getQueryVar s name d = Ret d" if "set s \<inter> {35, 38, 63} = {}"
    using last_var_none [of s "{63, 38}" "{38, 35}" name] that by (auto simp: getQueryVar_def decoded_def)
  have "getHashVar [] name None = Ret None" by (simp add: getHashVar_def decoded_def)
  then show ?thesis using hash query none by (auto simp: getConfigVar_def)
qed

end
