(* ===== verification/Ui_State.thy ===== *)
theory Ui_State
  imports Rfb_Life Localization Webutil
begin

text \<open>
  The state of the stand-alone page, the object \<open>UI\<close> of \<open>app/ui.js\<close>, and the parts of it that the others
  use: classes of elements, timers, focus, status messages, the control bar and the settings.

  A handler is a command on the state that may end in an exception; what it did before the exception stays.
  The elements of the page are a datatype and the state keeps the set of classes of each. A timer has a number,
  as in the browser, and the state keeps the timers that are running. The client is the one of \<open>core/rfb.js\<close>
  as modelled by the RFB theories, absent while \<open>UI.rfb\<close> is \<open>undefined\<close>.
  What the browser decides is in the environment: the address, the layout of the page, the platform.
  Log messages and calls that only stop an event from being handled by the browser are left out.
\<close>

section \<open>Commands\<close>

type_synonym 's command = "'s \<Rightarrow> unit outcome \<times> 's"

definition upd :: "('s \<Rightarrow> 's) \<Rightarrow> 's command" where
  "upd f u = (Ret (), f u)"

fun block :: "'s command list \<Rightarrow> 's command" where
  "block [] u = (Ret (), u)"
| "block (c # cs) u = andthen (c u) (\<lambda>_. block cs)"

text \<open>Listeners of one event all run, also after one of them has thrown.\<close>

fun listeners :: "'s command list \<Rightarrow> 's command" where
  "listeners [] u = (Ret (), u)"
| "listeners (c # cs) u =
     (case c u of
        (Ret _, u) \<Rightarrow> listeners cs u
      | (r, u) \<Rightarrow> (r, snd (listeners cs u)))"

definition cond :: "('s \<Rightarrow> bool) \<Rightarrow> 's command \<Rightarrow> 's command \<Rightarrow> 's command" where
  "cond b c d u = (if b u then c u else d u)"

definition guard :: "('s \<Rightarrow> bool) \<Rightarrow> 's command \<Rightarrow> 's command" where
  "guard b c u = (if b u then c u else (Ret (), u))"

definition read :: "('s \<Rightarrow> 'a) \<Rightarrow> ('a \<Rightarrow> 's command) \<Rightarrow> 's command" where
  "read f k u = k (f u) u"

definition throw :: "js_error \<Rightarrow> 's command" where
  "throw e u = (Throw e, u)"

definition keeps :: "('s \<Rightarrow> bool) \<Rightarrow> 's command \<Rightarrow> bool" where
  "keeps I c \<longleftrightarrow> (\<forall>u. I u \<longrightarrow> I (snd (c u)))"

lemma keepsD: "keeps I c \<Longrightarrow> I u \<Longrightarrow> I (snd (c u))"
  by (simp add: keeps_def)

lemma keeps_upd: "(\<And>u. I u \<Longrightarrow> I (f u)) \<Longrightarrow> keeps I (upd f)"
  by (simp add: keeps_def upd_def)

lemma keeps_block: "(\<And>c. c \<in> set cs \<Longrightarrow> keeps I c) \<Longrightarrow> keeps I (block cs)"
proof (induction cs)
  case (Cons c cs)
  have "I (snd (block (c # cs) u))" if "I u" for u
  proof -
    have "I (snd (c u))" using Cons.prems that by (simp add: keeps_def)
    moreover have "keeps I (block cs)" using Cons by simp
    ultimately show ?thesis
      by (cases "c u"; cases "fst (c u)") (auto simp: keeps_def)
  qed
  then show ?case by (simp add: keeps_def)
qed (simp add: keeps_def)

lemma keeps_listeners: "(\<And>c. c \<in> set cs \<Longrightarrow> keeps I c) \<Longrightarrow> keeps I (listeners cs)"
proof (induction cs)
  case (Cons c cs)
  then have "keeps I c" "keeps I (listeners cs)" by simp_all
  then show ?case by (fastforce simp: keeps_def split: prod.split outcome.split)
qed (simp add: keeps_def)

lemma keeps_cond: "keeps I c \<Longrightarrow> keeps I d \<Longrightarrow> keeps I (cond b c d)"
  by (simp add: keeps_def cond_def)

lemma keeps_guard: "keeps I c \<Longrightarrow> keeps I (guard b c)"
  by (simp add: keeps_def guard_def)

lemma keeps_read: "(\<And>a. keeps I (k a)) \<Longrightarrow> keeps I (read f k)"
  by (simp add: keeps_def read_def)

lemma keeps_throw: "keeps I (throw e)"
  by (simp add: keeps_def throw_def)

lemmas keeps_rules = keeps_block keeps_listeners keeps_cond keeps_guard keeps_read keeps_throw

section \<open>State\<close>

datatype element =
    ERoot | EStatus | EControlBar | EAnchor | EHint | ESettings | ESettingsButton | EPower | EPowerButton
  | EClipboard | EClipboardButton | EModifiers | EExtraKeysButton | ECtrlButton | EWindowsButton | EAltButton
  | EConnectDlg | EVerifyDlg | ECredentialsDlg | EUsernameBlock | EPasswordBlock | EFullscreenButton
  | EViewDragButton | EKeyboardButton | EExpander nat | ELabel nat

datatype css =
    COpen | CSelected | CHidden | CIdle | CRight | CActive | CNoTransition | CError | CWarn | CNormal
  | CConnecting | CConnected | CDisconnecting | CReconnecting | CDisabled | CLoading

datatype ui_timer = THideStatus | TIdle | TClose | TReconnect | TFocusInput | TFocusField string

datatype control_kind = Checkbox | Select | Field

record control =
  c_kind :: control_kind
  c_checked :: bool
  c_options :: "jsstring list"
  c_selected :: "nat option"
  c_value :: jsstring
  c_disabled :: bool
  c_label :: "nat option"

datatype focus = FCanvas | FKeyboardInput | FControlBar | FField string | FNone

record 'z ui =
  u_connected :: bool
  u_desktopName :: jsstring
  u_statusTimeout :: "nat option"
  u_idleControlbarTimeout :: "nat option"
  u_closeControlbarTimeout :: "nat option"
  u_controlbarGrabbed :: bool
  u_controlbarDrag :: bool
  u_controlbarMouseDownClientY :: rat
  u_controlbarMouseDownOffsetY :: rat
  u_lastKeyboardinput :: "jsstring option"
  u_inhibitReconnect :: bool
  u_reconnectCallback :: "nat option"
  u_reconnectPassword :: "jsstring option"
  u_rfb :: "'z rfb option"
  u_heard :: nat
  u_url :: "jsstring option"
  u_web :: web
  u_ctrls :: "string \<Rightarrow> control"
  u_classes :: "element \<Rightarrow> css set"
  u_timers :: "(nat \<times> ui_timer) list"
  u_nextTimer :: nat
  u_active :: focus
  u_status_text :: jsstring
  u_transition_text :: jsstring
  u_title :: jsstring
  u_fingerprint :: jsstring
  u_digests :: "bytes list"
  u_clipboard_text :: jsstring
  u_username_input :: jsstring
  u_password_input :: jsstring
  u_keyboardinput :: jsstring
  u_handle_y :: "rat option"
  u_transition0 :: bool
  u_viewDrag_disabled :: bool
  u_fullscreen :: bool
  u_fullscreenRequest :: "bool option"
  u_bells :: nat
  u_logging :: jsval

record ('z, 'd) ui_env =
  e_world :: "('z, 'd) world"
  e_href :: jsstring
  e_hash :: jsstring
  e_hostname :: jsstring
  e_port :: jsstring
  e_protocol :: jsstring
  e_l10n :: localizer
  e_lower :: "jsstring \<Rightarrow> jsstring"
  e_sanitize :: "string \<Rightarrow> jsstring \<Rightarrow> jsstring"
  e_sha1 :: "bytes \<Rightarrow> bytes"
  e_secure :: bool
  e_touch :: bool
  e_gutter :: bool
  e_ios :: bool
  e_android :: bool
  e_mac :: bool
  e_chromeos :: bool
  e_safari :: bool
  e_canFullscreen :: bool
  e_hasFocus :: bool
  e_barShown :: bool
  e_innerWidth :: rat
  e_barTop :: rat
  e_barHeight :: rat
  e_handleTop :: rat
  e_handleHeight :: rat

definition PAGE_TITLE :: jsstring where "PAGE_TITLE = lit ''noVNC''"

definition defaultKeyboardinputLen :: nat where "defaultKeyboardinputLen = 100"

section \<open>Elements, timers, focus\<close>

definition has_class :: "element \<Rightarrow> css \<Rightarrow> 'z ui \<Rightarrow> bool" where
  "has_class e c u \<longleftrightarrow> c \<in> u_classes u e"

definition add_class :: "element \<Rightarrow> css \<Rightarrow> 'z ui \<Rightarrow> 'z ui" where
  "add_class e c u = u\<lparr>u_classes := (u_classes u)(e := insert c (u_classes u e))\<rparr>"

definition remove_class :: "element \<Rightarrow> css \<Rightarrow> 'z ui \<Rightarrow> 'z ui" where
  "remove_class e c u = u\<lparr>u_classes := (u_classes u)(e := u_classes u e - {c})\<rparr>"

definition start_timer :: "ui_timer \<Rightarrow> 'z ui \<Rightarrow> 'z ui" where
  "start_timer t u = u\<lparr>u_timers := u_timers u @ [(u_nextTimer u, t)], u_nextTimer := Suc (u_nextTimer u)\<rparr>"

definition clear_timer :: "nat option \<Rightarrow> 'z ui \<Rightarrow> 'z ui" where
  "clear_timer i u = u\<lparr>u_timers := filter (\<lambda>t. Some (fst t) \<noteq> i) (u_timers u)\<rparr>"

text \<open>A call of the client fails when there is none.\<close>

definition on_rfb :: "('z rfb \<Rightarrow> 'z rfb) \<Rightarrow> 'z ui command" where
  "on_rfb f u =
     (case u_rfb u of
        None \<Rightarrow> (Throw TypeError, u)
      | Some r \<Rightarrow> (Ret (), u\<lparr>u_rfb := Some (f r)\<rparr>))"

definition rfb_defined :: "'z ui \<Rightarrow> bool" where
  "rfb_defined u \<longleftrightarrow> u_rfb u \<noteq> None"

text \<open>The \<open>focus\<close> method of the client.\<close>

definition canvas_focus :: "'z rfb \<Rightarrow> 'z rfb" where
  "canvas_focus r = on_page (\<lambda>p. p\<lparr>focused := True\<rparr>) r"

definition set_focusOnClick :: "bool \<Rightarrow> 'z ui \<Rightarrow> 'z ui" where
  "set_focusOnClick b u =
     (case u_rfb u of
        None \<Rightarrow> u
      | Some r \<Rightarrow> u\<lparr>u_rfb := Some (on_sets (\<lambda>s. s\<lparr>focusOnClick := b\<rparr>) r)\<rparr>)"

definition onfocusVirtualKeyboard :: "'z ui \<Rightarrow> 'z ui" where
  "onfocusVirtualKeyboard u = set_focusOnClick False (add_class EKeyboardButton CSelected u)"

definition onblurVirtualKeyboard :: "'z ui \<Rightarrow> 'z ui" where
  "onblurVirtualKeyboard u = set_focusOnClick True (remove_class EKeyboardButton CSelected u)"

text \<open>Moving the focus tells the keyboard input when it loses or gets it.\<close>

definition move_focus :: "focus \<Rightarrow> 'z ui \<Rightarrow> 'z ui" where
  "move_focus f u =
     (if u_active u = f then u
      else
        let u = (if u_active u = FKeyboardInput then onblurVirtualKeyboard (u\<lparr>u_active := FNone\<rparr>) else u);
            u = u\<lparr>u_active := f\<rparr>
        in if f = FKeyboardInput then onfocusVirtualKeyboard u else u)"

definition rfb_focus :: "'z ui command" where
  "rfb_focus = block [on_rfb canvas_focus, upd (move_focus FCanvas)]"

section \<open>Status messages\<close>

definition hideStatus :: "'z ui \<Rightarrow> 'z ui" where
  "hideStatus u = remove_class EStatus COpen (clear_timer (u_statusTimeout u) u)"

definition showStatus :: "jsstring \<Rightarrow> string \<Rightarrow> 'z ui \<Rightarrow> 'z ui" where
  "showStatus text statusType u =
     (if has_class EStatus COpen u \<and>
        (has_class EStatus CError u \<or> has_class EStatus CWarn u \<and> statusType = ''normal'')
      then u
      else
        let u = clear_timer (u_statusTimeout u) u;
            u = (if statusType = ''error'' then
                   add_class EStatus CError (remove_class EStatus CNormal (remove_class EStatus CWarn u))
                 else if statusType = ''warning'' \<or> statusType = ''warn'' then
                   add_class EStatus CWarn (remove_class EStatus CNormal (remove_class EStatus CError u))
                 else
                   add_class EStatus CNormal (remove_class EStatus CWarn (remove_class EStatus CError u)));
            u = add_class EStatus COpen (u\<lparr>u_status_text := text\<rparr>)
        in if statusType \<noteq> ''error''
           then (start_timer THideStatus u)\<lparr>u_statusTimeout := Some (u_nextTimer u)\<rparr> else u)"

definition tr :: "('z, 'd) ui_env \<Rightarrow> string \<Rightarrow> jsstring" where
  "tr E s = l10n_get (e_l10n E) (lit s)"

section \<open>Settings\<close>

text \<open>Truth of a value; every number a setting holds is an integer.\<close>

fun js_true :: "jsval \<Rightarrow> bool" where
  "js_true JUndef = False"
| "js_true JNull = False"
| "js_true (JBool b) = b"
| "js_true (JNum i) = (i \<noteq> 0)"
| "js_true (JStr s) = (s \<noteq> [])"

text \<open>The operator \<open>in\<close> also finds the lower case names that every object inherits.\<close>

definition falsy_names :: "jsstring list" where
  "falsy_names = [lit ''0'', lit ''no'', lit ''false'', lit ''constructor'', lit ''__proto__'']"

definition getSetting :: "('z, 'd) ui_env \<Rightarrow> string \<Rightarrow> 'z ui \<Rightarrow> jsval \<times> 'z ui" where
  "getSetting E name u =
     (let (val, w) = readSetting name None (u_web u);
          val = (if val \<noteq> JUndef \<and> val \<noteq> JNull \<and> c_kind (u_ctrls u name) = Checkbox
                 then JBool (e_lower E (js_to_string val) \<notin> set falsy_names) else val)
      in (val, u\<lparr>u_web := w\<rparr>))"

definition with_setting :: "('z, 'd) ui_env \<Rightarrow> string \<Rightarrow> (jsval \<Rightarrow> 'z ui command) \<Rightarrow> 'z ui command" where
  "with_setting E name k u = (case getSetting E name u of (val, u) \<Rightarrow> k val u)"

definition set_ctrl :: "string \<Rightarrow> (control \<Rightarrow> control) \<Rightarrow> 'z ui \<Rightarrow> 'z ui" where
  "set_ctrl name f u = u\<lparr>u_ctrls := (u_ctrls u)(name := f (u_ctrls u name))\<rparr>"

text \<open>The first option with the value, if there is one.\<close>

fun find_option :: "jsval \<Rightarrow> jsstring list \<Rightarrow> nat \<Rightarrow> nat option" where
  "find_option v [] i = None"
| "find_option v (s # ss) i = (if JStr s = v then Some i else find_option v ss (Suc i))"

definition field_text :: "jsval \<Rightarrow> jsstring" where
  "field_text v = (if v = JNull then [] else js_to_string v)"

definition updateSetting :: "('z, 'd) ui_env \<Rightarrow> string \<Rightarrow> 'z ui \<Rightarrow> 'z ui" where
  "updateSetting E name u =
     (let (val, u) = getSetting E name u
      in case c_kind (u_ctrls u name) of
           Checkbox \<Rightarrow> set_ctrl name (\<lambda>c. c\<lparr>c_checked := js_true val\<rparr>) u
         | Select \<Rightarrow>
             (case find_option val (c_options (u_ctrls u name)) 0 of
                None \<Rightarrow> u
              | Some i \<Rightarrow> set_ctrl name (\<lambda>c. c\<lparr>c_selected := Some i\<rparr>) u)
         | Field \<Rightarrow> set_ctrl name (\<lambda>c. c\<lparr>c_value := e_sanitize E name (field_text val)\<rparr>) u)"

definition saveSetting :: "string \<Rightarrow> 'z ui command" where
  "saveSetting name u =
     (let c = u_ctrls u name;
          save = (\<lambda>val. (Ret (), u\<lparr>u_web := writeSetting name val (u_web u)\<rparr>))
      in case c_kind c of
           Checkbox \<Rightarrow> save (JBool (c_checked c))
         | Select \<Rightarrow>
             (case c_selected c of
                Some i \<Rightarrow> if i < length (c_options c) then save (JStr (c_options c ! i)) else (Throw TypeError, u)
              | None \<Rightarrow> (Throw TypeError, u))
         | Field \<Rightarrow> save (JStr (c_value c)))"

definition with_config ::
  "('z, 'd) ui_env \<Rightarrow> string \<Rightarrow> jsstring option \<Rightarrow> (jsstring option \<Rightarrow> 'z ui command) \<Rightarrow> 'z ui command" where
  "with_config E name defVal k u =
     (case getConfigVar (e_href E) (e_hash E) (lit name) defVal of
        Ret v \<Rightarrow> k v u
      | Throw e \<Rightarrow> (Throw e, u)
      | Hang \<Rightarrow> (Hang, u))"

definition put_setting :: "string \<Rightarrow> jsval \<Rightarrow> 'z ui \<Rightarrow> 'z ui" where
  "put_setting name val u = u\<lparr>u_web := setSetting name val (u_web u)\<rparr>"

definition initSetting :: "('z, 'd) ui_env \<Rightarrow> string \<Rightarrow> jsval \<Rightarrow> 'z ui command" where
  "initSetting E name defVal =
     with_config E name None (\<lambda>v u.
       let (val, u) = (case v of
                         Some t \<Rightarrow> (JStr t, u)
                       | None \<Rightarrow> case readSetting name (Some defVal) (u_web u) of (val, w) \<Rightarrow> (val, u\<lparr>u_web := w\<rparr>))
       in (Ret (), updateSetting E name (put_setting name val u)))"

definition disableSetting :: "string \<Rightarrow> 'z ui command" where
  "disableSetting name u =
     (let u = set_ctrl name (\<lambda>c. c\<lparr>c_disabled := True\<rparr>) u
      in case c_label (u_ctrls u name) of
           None \<Rightarrow> (Throw TypeError, u)
         | Some i \<Rightarrow> (Ret (), add_class (ELabel i) CDisabled u))"

definition enableSetting :: "string \<Rightarrow> 'z ui command" where
  "enableSetting name u =
     (let u = set_ctrl name (\<lambda>c. c\<lparr>c_disabled := False\<rparr>) u
      in case c_label (u_ctrls u name) of
           None \<Rightarrow> (Throw TypeError, u)
         | Some i \<Rightarrow> (Ret (), remove_class (ELabel i) CDisabled u))"

definition forceSetting :: "('z, 'd) ui_env \<Rightarrow> string \<Rightarrow> jsval \<Rightarrow> 'z ui command" where
  "forceSetting E name val = block [upd (put_setting name val), upd (updateSetting E name), disableSetting name]"

text \<open>A label belongs to the control it names, or to the first form control in it.\<close>

record label_elem =
  l_for :: string
  l_children :: "(string \<times> bool) list"

definition set_label :: "nat \<Rightarrow> string \<Rightarrow> 'z ui \<Rightarrow> 'z ui" where
  "set_label i name = set_ctrl name (\<lambda>c. c\<lparr>c_label := Some i\<rparr>)"

fun setupSettingLabels :: "nat \<Rightarrow> label_elem list \<Rightarrow> 'z ui \<Rightarrow> 'z ui" where
  "setupSettingLabels i [] u = u"
| "setupSettingLabels i (l # ls) u =
     setupSettingLabels (Suc i) ls
       (if l_for l \<noteq> [] then set_label i (l_for l) u
        else case find snd (l_children l) of None \<Rightarrow> u | Some (name, b) \<Rightarrow> set_label i name u)"

definition addOption :: "string \<Rightarrow> jsstring \<Rightarrow> 'z ui \<Rightarrow> 'z ui" where
  "addOption name v = set_ctrl name (\<lambda>c. c\<lparr>c_options := c_options c @ [v]\<rparr>)"

definition updateLogging :: "('z, 'd) ui_env \<Rightarrow> 'z ui command" where
  "updateLogging E = with_setting E ''logging'' (\<lambda>v. upd (\<lambda>u. u\<lparr>u_logging := v\<rparr>))"

definition default_port :: "('z, 'd) ui_env \<Rightarrow> jsval" where
  "default_port E =
     (if e_port E \<noteq> [] then JStr (e_port E)
      else if take 5 (e_protocol E) = lit ''https'' then JNum 443
      else if take 4 (e_protocol E) = lit ''http'' then JNum 80
      else JStr [])"

definition initSettings :: "('z, 'd) ui_env \<Rightarrow> label_elem list \<Rightarrow> 'z ui command" where
  "initSettings E labels = block
     [upd (addOption ''logging'' (lit ''error'')), upd (addOption ''logging'' (lit ''warn'')),
      upd (addOption ''logging'' (lit ''info'')), upd (addOption ''logging'' (lit ''debug'')),
      initSetting E ''logging'' (JStr (lit ''warn'')),
      updateLogging E,
      initSetting E ''host'' (JStr (e_hostname E)),
      initSetting E ''port'' (default_port E),
      initSetting E ''encrypt'' (JBool (e_protocol E = lit ''https:'')),
      initSetting E ''view_clip'' (JBool False),
      initSetting E ''resize'' (JStr (lit ''off'')),
      initSetting E ''quality'' (JNum 6),
      initSetting E ''compression'' (JNum 2),
      initSetting E ''shared'' (JBool True),
      initSetting E ''view_only'' (JBool False),
      initSetting E ''show_dot'' (JBool False),
      initSetting E ''path'' (JStr (lit ''websockify'')),
      initSetting E ''repeaterID'' (JStr []),
      initSetting E ''reconnect'' (JBool False),
      initSetting E ''reconnect_delay'' (JNum 5000),
      upd (setupSettingLabels 0 labels)]"

section \<open>Panels\<close>

definition openPanel :: "element \<Rightarrow> element \<Rightarrow> 'z ui \<Rightarrow> 'z ui" where
  "openPanel panel button u = add_class button CSelected (add_class panel COpen u)"

definition closePanel :: "element \<Rightarrow> element \<Rightarrow> 'z ui \<Rightarrow> 'z ui" where
  "closePanel panel button u = remove_class button CSelected (remove_class panel COpen u)"

definition closeSettingsPanel :: "'z ui \<Rightarrow> 'z ui" where
  "closeSettingsPanel = closePanel ESettings ESettingsButton"

definition closePowerPanel :: "'z ui \<Rightarrow> 'z ui" where
  "closePowerPanel = closePanel EPower EPowerButton"

definition closeClipboardPanel :: "'z ui \<Rightarrow> 'z ui" where
  "closeClipboardPanel = closePanel EClipboard EClipboardButton"

definition closeExtraKeys :: "'z ui \<Rightarrow> 'z ui" where
  "closeExtraKeys = closePanel EModifiers EExtraKeysButton"

definition closeAllPanels :: "'z ui \<Rightarrow> 'z ui" where
  "closeAllPanels u = closeExtraKeys (closeClipboardPanel (closePowerPanel (closeSettingsPanel u)))"

definition openControlbar :: "'z ui \<Rightarrow> 'z ui" where
  "openControlbar = add_class EControlBar COpen"

definition openSettingsPanel :: "('z, 'd) ui_env \<Rightarrow> 'z ui \<Rightarrow> 'z ui" where
  "openSettingsPanel E u =
     openPanel ESettings ESettingsButton
       (fold (updateSetting E)
          [''encrypt'', ''view_clip'', ''resize'', ''quality'', ''compression'', ''shared'', ''view_only'', ''path'',
           ''repeaterID'', ''logging'', ''reconnect'', ''reconnect_delay'']
          (openControlbar (closeAllPanels u)))"

definition toggleSettingsPanel :: "('z, 'd) ui_env \<Rightarrow> 'z ui \<Rightarrow> 'z ui" where
  "toggleSettingsPanel E u = (if has_class ESettings COpen u then closeSettingsPanel u else openSettingsPanel E u)"

definition openPowerPanel :: "'z ui \<Rightarrow> 'z ui" where
  "openPowerPanel u = openPanel EPower EPowerButton (openControlbar (closeAllPanels u))"

definition togglePowerPanel :: "'z ui \<Rightarrow> 'z ui" where
  "togglePowerPanel u = (if has_class EPower COpen u then closePowerPanel u else openPowerPanel u)"

definition openClipboardPanel :: "'z ui \<Rightarrow> 'z ui" where
  "openClipboardPanel u = openPanel EClipboard EClipboardButton (openControlbar (closeAllPanels u))"

definition toggleClipboardPanel :: "'z ui \<Rightarrow> 'z ui" where
  "toggleClipboardPanel u =
     (if has_class EClipboard COpen u then closeClipboardPanel u else openClipboardPanel u)"

definition openExtraKeys :: "'z ui \<Rightarrow> 'z ui" where
  "openExtraKeys u = openPanel EModifiers EExtraKeysButton (openControlbar (closeAllPanels u))"

definition toggleExtraKeys :: "'z ui \<Rightarrow> 'z ui" where
  "toggleExtraKeys u = (if has_class EModifiers COpen u then closeExtraKeys u else openExtraKeys u)"

definition openConnectPanel :: "'z ui \<Rightarrow> 'z ui" where
  "openConnectPanel = add_class EConnectDlg COpen"

definition closeConnectPanel :: "'z ui \<Rightarrow> 'z ui" where
  "closeConnectPanel = remove_class EConnectDlg COpen"

definition toggleExpander :: "nat \<Rightarrow> 'z ui \<Rightarrow> 'z ui" where
  "toggleExpander i u =
     (if has_class (EExpander i) COpen u then remove_class (EExpander i) COpen u else add_class (EExpander i) COpen u)"

section \<open>Control bar\<close>

definition activateControlbar :: "'z ui \<Rightarrow> 'z ui" where
  "activateControlbar u =
     (let u = remove_class EAnchor CIdle (clear_timer (u_idleControlbarTimeout u) u)
      in (start_timer TIdle u)\<lparr>u_idleControlbarTimeout := Some (u_nextTimer u)\<rparr>)"

definition idleControlbar :: "('z, 'd) ui_env \<Rightarrow> 'z ui \<Rightarrow> 'z ui" where
  "idleControlbar E u =
     (if u_active u = FControlBar \<and> e_hasFocus E then activateControlbar u else add_class EAnchor CIdle u)"

definition keepControlbar :: "'z ui \<Rightarrow> 'z ui" where
  "keepControlbar u = clear_timer (u_closeControlbarTimeout u) u"

definition closeControlbar :: "'z ui command" where
  "closeControlbar = block [upd closeAllPanels, upd (remove_class EControlBar COpen), rfb_focus]"

definition toggleControlbar :: "'z ui command" where
  "toggleControlbar = cond (has_class EControlBar COpen) closeControlbar (upd openControlbar)"

definition showControlbarHint :: "bool \<Rightarrow> bool \<Rightarrow> 'z ui \<Rightarrow> 'z ui" where
  "showControlbarHint display animate u =
     (let u = (if animate then remove_class EHint CNoTransition u else add_class EHint CNoTransition u)
      in if display then add_class EHint CActive u else remove_class EHint CActive u)"

definition toggleControlbarSide :: "('z, 'd) ui_env \<Rightarrow> 'z ui \<Rightarrow> 'z ui" where
  "toggleControlbarSide E u =
     (let u = (if e_barShown E then u\<lparr>u_transition0 := True\<rparr> else u);
          u = (if has_class EAnchor CRight u
               then remove_class EAnchor CRight (u\<lparr>u_web := writeSetting ''controlbar_pos'' (JStr (lit ''left'')) (u_web u)\<rparr>)
               else add_class EAnchor CRight (u\<lparr>u_web := writeSetting ''controlbar_pos'' (JStr (lit ''right'')) (u_web u)\<rparr>))
      in showControlbarHint False False (u\<lparr>u_controlbarDrag := True\<rparr>))"

definition moveControlbarHandle :: "('z, 'd) ui_env \<Rightarrow> rat \<Rightarrow> 'z ui \<Rightarrow> 'z ui" where
  "moveControlbarHandle E viewportRelativeY u =
     (let margin = 10;
          top = e_barTop E; height = e_barHeight E; handleHeight = e_handleHeight E
      in if handleHeight = 0 \<or> height = 0 then u
         else
           let newY = (if viewportRelativeY < top + margin then top + margin
                       else if viewportRelativeY > top + height - handleHeight - margin
                       then top + height - handleHeight - margin
                       else viewportRelativeY);
               newY = (if height < handleHeight + margin * 2 then top + (height - handleHeight) / 2 else newY)
           in u\<lparr>u_handle_y := Some (newY - top)\<rparr>)"

definition updateControlbarHandle :: "('z, 'd) ui_env \<Rightarrow> 'z ui \<Rightarrow> 'z ui" where
  "updateControlbarHandle E = moveControlbarHandle E (e_handleTop E)"

definition dragControlbarHandle :: "('z, 'd) ui_env \<Rightarrow> rat \<Rightarrow> rat \<Rightarrow> 'z ui \<Rightarrow> 'z ui" where
  "dragControlbarHandle E clientX clientY u =
     (if \<not> u_controlbarGrabbed u then u
      else
        let right = has_class EAnchor CRight u;
            u = (if clientX < e_innerWidth E * (1 / 10) then (if right then toggleControlbarSide E u else u)
                 else if clientX > e_innerWidth E * (9 / 10) then (if \<not> right then toggleControlbarSide E u else u)
                 else u)
        in if \<not> u_controlbarDrag u \<and>
             \<bar>clientY - u_controlbarMouseDownClientY u\<bar> < w_dragThreshold (e_world E) then u
           else
             let u = u\<lparr>u_controlbarDrag := True\<rparr>
             in activateControlbar (keepControlbar
                  (moveControlbarHandle E (clientY - u_controlbarMouseDownOffsetY u) u)))"

text \<open>The handlers of the handle ignore other buttons than the first.\<close>

definition controlbarHandleMouseDown :: "('z, 'd) ui_env \<Rightarrow> bool \<Rightarrow> rat \<Rightarrow> 'z ui \<Rightarrow> 'z ui" where
  "controlbarHandleMouseDown E otherButton clientY u =
     (if otherButton then u
      else
        let u = showControlbarHint True True (u\<lparr>u_controlbarGrabbed := True, u_controlbarDrag := False\<rparr>);
            u = u\<lparr>u_controlbarMouseDownClientY := clientY, u_controlbarMouseDownOffsetY := clientY - e_handleTop E\<rparr>
        in activateControlbar (keepControlbar u))"

definition controlbarHandleMouseUp :: "bool \<Rightarrow> 'z ui command" where
  "controlbarHandleMouseUp otherButton = guard (\<lambda>u. \<not> otherButton) (block
     [guard (\<lambda>u. u_controlbarGrabbed u \<and> \<not> u_controlbarDrag u)
        (block [toggleControlbar, upd keepControlbar, upd activateControlbar]),
      upd (\<lambda>u. u\<lparr>u_controlbarGrabbed := False\<rparr>),
      upd (showControlbarHint False True)])"

end
