(* ===== verification/Ui.thy ===== *)
theory Ui
  imports Ui_State
begin

text \<open>
  The handlers of the stand-alone page, \<open>app/ui.js\<close>: its visual state, the connection with its dialogs and
  reconnection, the view of the desktop, the keyboard input of touch devices, and the extra keys. The last
  sections connect them: which handler runs on which event of the page, of a timer or of the client.
\<close>

section \<open>View of the desktop\<close>

definition client :: "('z, 'd) ui_env \<Rightarrow> op \<Rightarrow> 'z ui command" where
  "client E a = on_rfb (rfb_step (e_world E) a)"

definition set_class :: "bool \<Rightarrow> element \<Rightarrow> css \<Rightarrow> 'z ui \<Rightarrow> 'z ui" where
  "set_class b e c = (if b then add_class e c else remove_class e c)"

definition updateViewDrag :: "('z, 'd) ui_env \<Rightarrow> 'z ui command" where
  "updateViewDrag E = guard u_connected (block
     [read u_rfb (\<lambda>rfb. case rfb of
        None \<Rightarrow> throw TypeError
      | Some r \<Rightarrow> guard (\<lambda>u. (\<not> rclipViewport (sets r) \<or> \<not> clippingViewport (sets r)) \<and> dragViewport (sets r))
          (client E (SetDrag False))),
      read u_rfb (\<lambda>rfb. case rfb of
        None \<Rightarrow> throw TypeError
      | Some r \<Rightarrow> block
          [upd (set_class (dragViewport (sets r)) EViewDragButton CSelected),
           upd (set_class (\<not> rclipViewport (sets r)) EViewDragButton CHidden),
           upd (\<lambda>u. u\<lparr>u_viewDrag_disabled := \<not> clippingViewport (sets r)\<rparr>)])])"

definition toggleViewDrag :: "('z, 'd) ui_env \<Rightarrow> 'z ui command" where
  "toggleViewDrag E = read u_rfb (\<lambda>rfb. case rfb of
     None \<Rightarrow> block []
   | Some r \<Rightarrow> block [client E (SetDrag (\<not> dragViewport (sets r))), updateViewDrag E])"

definition broken_scrollbars :: "('z, 'd) ui_env \<Rightarrow> bool" where
  "broken_scrollbars E \<longleftrightarrow> \<not> e_gutter E \<and> (e_ios E \<or> e_android E \<or> e_mac E \<or> e_chromeos E)"

definition updateViewClip :: "('z, 'd) ui_env \<Rightarrow> 'z ui command" where
  "updateViewClip E = guard rfb_defined (with_setting E ''resize'' (\<lambda>v. block
     [if v = JStr (lit ''scale'') then
        block [forceSetting E ''view_clip'' (JBool False), client E (SetClip False)]
      else if broken_scrollbars E then
        block [forceSetting E ''view_clip'' (JBool True), client E (SetClip True)]
      else
        block [enableSetting ''view_clip'', with_setting E ''view_clip'' (\<lambda>c. client E (SetClip (js_true c)))],
      updateViewDrag E]))"

definition applyResizeMode :: "('z, 'd) ui_env \<Rightarrow> 'z ui command" where
  "applyResizeMode E = guard rfb_defined (block
     [with_setting E ''resize'' (\<lambda>v. client E (SetScale (v = JStr (lit ''scale'')))),
      with_setting E ''resize'' (\<lambda>v. client E (SetResize (v = JStr (lit ''remote''))))])"

text \<open>\<open>parseInt\<close> of a value; a level that is no number is refused by the client.\<close>

definition hex_number :: "nat list \<Rightarrow> nat \<Rightarrow> int" where
  "hex_number ds base = foldl (\<lambda>n d. int base * n + int d) 0 ds"

definition parseInt_text :: "jsstring \<Rightarrow> int option" where
  "parseInt_text s =
     (let s = dropWhile white s;
          neg = (s \<noteq> [] \<and> hd s = 45);
          s = (if s \<noteq> [] \<and> (hd s = 45 \<or> hd s = 43) then tl s else s);
          hex = (take 2 s = lit ''0x'' \<or> take 2 s = lit ''0X'');
          base = (if hex then 16 else 10);
          ds = takeWhile (\<lambda>c. case hex_digit c of None \<Rightarrow> False | Some d \<Rightarrow> d < base) (if hex then drop 2 s else s)
      in if ds = [] then None
         else Some ((if neg then - 1 else 1) * hex_number (map (the \<circ> hex_digit) ds) base))"

fun parseInt :: "jsval \<Rightarrow> int option" where
  "parseInt (JNum i) = Some i"
| "parseInt (JStr s) = parseInt_text s"
| "parseInt v = None"

definition updateQuality :: "('z, 'd) ui_env \<Rightarrow> 'z ui command" where
  "updateQuality E = guard rfb_defined (with_setting E ''quality'' (\<lambda>v.
     case parseInt v of None \<Rightarrow> block [] | Some i \<Rightarrow> client E (SetQuality i)))"

definition updateCompression :: "('z, 'd) ui_env \<Rightarrow> 'z ui command" where
  "updateCompression E = guard rfb_defined (with_setting E ''compression'' (\<lambda>v.
     case parseInt v of None \<Rightarrow> block [] | Some i \<Rightarrow> client E (SetCompression i)))"

definition updateShowDotCursor :: "('z, 'd) ui_env \<Rightarrow> 'z ui command" where
  "updateShowDotCursor E = guard rfb_defined (with_setting E ''show_dot'' (\<lambda>v. client E (SetDot (js_true v))))"

definition updateViewOnly :: "('z, 'd) ui_env \<Rightarrow> 'z ui command" where
  "updateViewOnly E = guard rfb_defined (with_setting E ''view_only'' (\<lambda>v. block
     [client E (SetViewOnly (js_true v)),
      upd (set_class (js_true v) EKeyboardButton CHidden),
      upd (set_class (js_true v) EExtraKeysButton CHidden),
      upd (set_class (js_true v) EClipboardButton CHidden)]))"

definition updatePowerButton :: "'z ui command" where
  "updatePowerButton = read (\<lambda>u. (u_connected u, u_rfb u)) (\<lambda>(con, rfb).
     case (con, rfb) of
       (True, None) \<Rightarrow> throw TypeError
     | (True, Some r) \<Rightarrow>
         if power (feat r) \<and> \<not> viewOnly (sets r) then upd (remove_class EPowerButton CHidden)
         else block [upd (add_class EPowerButton CHidden), upd closePowerPanel]
     | (False, _) \<Rightarrow> block [upd (add_class EPowerButton CHidden), upd closePowerPanel])"

section \<open>Visual state\<close>

text \<open>The states that are passed; there is no caller with another one.\<close>

datatype visual = VInit | VConnecting | VConnected | VDisconnecting | VDisconnected | VReconnecting

fun visual_class :: "visual \<Rightarrow> css option" where
  "visual_class VConnecting = Some CConnecting"
| "visual_class VConnected = Some CConnected"
| "visual_class VDisconnecting = Some CDisconnecting"
| "visual_class VReconnecting = Some CReconnecting"
| "visual_class v = None"

fun visual_text :: "visual \<Rightarrow> string option" where
  "visual_text VConnecting = Some ''Connecting...''"
| "visual_text VDisconnecting = Some ''Disconnecting...''"
| "visual_text VReconnecting = Some ''Reconnecting...''"
| "visual_text v = None"

definition show_visual :: "('z, 'd) ui_env \<Rightarrow> visual \<Rightarrow> 'z ui \<Rightarrow> 'z ui" where
  "show_visual E v u =
     (let u = fold (remove_class ERoot) [CConnecting, CConnected, CDisconnecting, CReconnecting] u;
          u = (case visual_text v of None \<Rightarrow> u | Some t \<Rightarrow> u\<lparr>u_transition_text := tr E t\<rparr>)
      in case visual_class v of None \<Rightarrow> u | Some c \<Rightarrow> add_class ERoot c u)"

definition connection_settings :: "string list" where
  "connection_settings = [''encrypt'', ''shared'', ''host'', ''port'', ''path'', ''repeaterID'']"

definition updateVisualState :: "('z, 'd) ui_env \<Rightarrow> visual \<Rightarrow> 'z ui command" where
  "updateVisualState E v = block
     [upd (show_visual E v),
      cond u_connected
        (block ([updateViewClip E] @ map disableSetting connection_settings @
           [upd (\<lambda>u. (start_timer TClose u)\<lparr>u_closeControlbarTimeout := Some (u_nextTimer u)\<rparr>)]))
        (block (map enableSetting connection_settings @ [updatePowerButton, upd keepControlbar])),
      upd closeAllPanels,
      upd (remove_class EVerifyDlg COpen),
      upd (remove_class ECredentialsDlg COpen)]"

section \<open>Connection\<close>

fun error_text :: "js_error \<Rightarrow> jsstring" where
  "error_text (ErrorMsg s) = lit ''Error: '' @ lit s"
| "error_text RangeError = lit ''RangeError''"
| "error_text TypeError = lit ''TypeError''"
| "error_text URIError = lit ''URIError''"

definition connect_url :: "bool \<Rightarrow> jsval \<Rightarrow> jsval \<Rightarrow> jsval \<Rightarrow> jsstring" where
  "connect_url encrypt host port path =
     lit (if encrypt then ''wss'' else ''ws'') @ lit ''://'' @ js_to_string host @
     (if js_true port then lit '':'' @ js_to_string port else []) @ lit ''/'' @ js_to_string path"

definition password_only :: "jsstring option \<Rightarrow> credentials" where
  "password_only p = \<lparr>username = None, password = p, cred_target = None, ardPublicKey = None, ardCredentials = None\<rparr>"

definition apply_settings :: "('z, 'd) ui_env \<Rightarrow> 'z ui command" where
  "apply_settings E = block
     [with_setting E ''view_clip'' (\<lambda>v. client E (SetClip (js_true v))),
      with_setting E ''resize'' (\<lambda>v. client E (SetScale (v = JStr (lit ''scale'')))),
      with_setting E ''resize'' (\<lambda>v. client E (SetResize (v = JStr (lit ''remote'')))),
      with_setting E ''quality'' (\<lambda>v. case parseInt v of None \<Rightarrow> block [] | Some i \<Rightarrow> client E (SetQuality i)),
      with_setting E ''compression'' (\<lambda>v. case parseInt v of None \<Rightarrow> block [] | Some i \<Rightarrow> client E (SetCompression i)),
      with_setting E ''show_dot'' (\<lambda>v. client E (SetDot (js_true v))),
      updateViewOnly E]"

text \<open>The client is created and its listeners are registered: none of its events has been heard yet.\<close>

definition create_client :: "('z, 'd) ui_env \<Rightarrow> jsstring \<Rightarrow> options \<Rightarrow> 'z ui command" where
  "create_client E url opts =
     (case new_rfb (e_world E) None opts of
        Ret r \<Rightarrow> block [upd (\<lambda>u. u\<lparr>u_rfb := Some r, u_heard := 0, u_url := Some url\<rparr>), apply_settings E]
      | Throw e \<Rightarrow> block
          [updateVisualState E VDisconnected,
           upd (showStatus (tr E ''Failed to connect to server: '' @ error_text e) ''error'')]
      | Hang \<Rightarrow> (\<lambda>u. (Hang, u)))"

definition connect_with :: "('z, 'd) ui_env \<Rightarrow> jsval \<Rightarrow> jsval \<Rightarrow> jsval \<Rightarrow> jsstring option \<Rightarrow> 'z ui command" where
  "connect_with E host port path pw = block
     [upd hideStatus,
      if \<not> js_true host then upd (showStatus (tr E ''Must set host'') ''error'')
      else block
        [upd closeConnectPanel,
         updateVisualState E VConnecting,
         with_setting E ''encrypt'' (\<lambda>enc.
           with_setting E ''shared'' (\<lambda>sh.
             with_setting E ''repeaterID'' (\<lambda>rep.
               create_client E (connect_url (js_true enc) host port path)
                 \<lparr>o_credentials = password_only pw, o_shared = Some (js_true sh), o_repeaterID = js_to_string rep,
                  o_showDotCursor = None\<rparr>)))]]"

text \<open>The password is \<open>None\<close> when it is not given at all, else a password or \<open>null\<close>.\<close>

definition ui_connect :: "('z, 'd) ui_env \<Rightarrow> jsstring option option \<Rightarrow> 'z ui command" where
  "ui_connect E given = guard (\<lambda>u. \<not> rfb_defined u)
     (with_setting E ''host'' (\<lambda>host. with_setting E ''port'' (\<lambda>port. with_setting E ''path'' (\<lambda>path.
        case given of
          Some p \<Rightarrow> connect_with E host port path p
        | None \<Rightarrow> with_config E ''password'' None (\<lambda>p.
            block [upd (\<lambda>u. u\<lparr>u_reconnectPassword := p\<rparr>), connect_with E host port path p])))))"

definition ui_disconnect :: "('z, 'd) ui_env \<Rightarrow> 'z ui command" where
  "ui_disconnect E = block
     [client E Disconnect,
      upd (\<lambda>u. u\<lparr>u_connected := False, u_inhibitReconnect := True\<rparr>),
      updateVisualState E VDisconnecting]"

definition reconnect :: "('z, 'd) ui_env \<Rightarrow> 'z ui command" where
  "reconnect E = block
     [upd (\<lambda>u. u\<lparr>u_reconnectCallback := None\<rparr>),
      guard (\<lambda>u. \<not> u_inhibitReconnect u) (read u_reconnectPassword (\<lambda>p. ui_connect E (Some p)))]"

definition cancelReconnect :: "('z, 'd) ui_env \<Rightarrow> 'z ui command" where
  "cancelReconnect E = block
     [upd (\<lambda>u. (clear_timer (u_reconnectCallback u) u)\<lparr>u_reconnectCallback := None\<rparr>),
      updateVisualState E VDisconnected,
      upd openControlbar,
      upd openConnectPanel]"

definition connectFinished :: "('z, 'd) ui_env \<Rightarrow> 'z ui command" where
  "connectFinished E = block
     [upd (\<lambda>u. u\<lparr>u_connected := True, u_inhibitReconnect := False\<rparr>),
      with_setting E ''encrypt'' (\<lambda>enc. upd (\<lambda>u. showStatus
        (tr E (if js_true enc then ''Connected (encrypted) to '' else ''Connected (unencrypted) to '') @ u_desktopName u)
        ''normal'' u)),
      updateVisualState E VConnected,
      rfb_focus]"

definition disconnectFinished :: "('z, 'd) ui_env \<Rightarrow> bool \<Rightarrow> 'z ui command" where
  "disconnectFinished E clean = read u_connected (\<lambda>wasConnected. block
     [upd (\<lambda>u. u\<lparr>u_connected := False, u_rfb := None\<rparr>),
      guard (\<lambda>u. \<not> clean) (block
        [updateVisualState E VDisconnected,
         upd (showStatus (tr E (if wasConnected then ''Something went wrong, connection is closed''
           else ''Failed to connect to server'')) ''error'')]),
      with_setting E ''reconnect'' (\<lambda>v. cond (\<lambda>u. v = JBool True \<and> \<not> u_inhibitReconnect u)
        (block
          [updateVisualState E VReconnecting,
           with_setting E ''reconnect_delay'' (\<lambda>delay.
             upd (\<lambda>u. (start_timer TReconnect u)\<lparr>u_reconnectCallback := Some (u_nextTimer u)\<rparr>))])
        (block
          [updateVisualState E VDisconnected,
           upd (showStatus (tr E ''Disconnected'') ''normal''),
           upd (\<lambda>u. u\<lparr>u_title := PAGE_TITLE\<rparr>),
           upd openControlbar,
           upd openConnectPanel]))])"

definition securityFailed :: "('z, 'd) ui_env \<Rightarrow> jsstring option \<Rightarrow> 'z ui \<Rightarrow> 'z ui" where
  "securityFailed E reason =
     showStatus (case reason of
        Some t \<Rightarrow> tr E ''New connection has been rejected with reason: '' @ t
      | None \<Rightarrow> tr E ''New connection has been rejected'') ''error''"

section \<open>Dialogs\<close>

definition hex_lower :: "nat \<Rightarrow> nat" where
  "hex_lower d = (if d < 10 then 48 + d else 87 + d)"

definition fingerprint_text :: "bytes \<Rightarrow> jsstring" where
  "fingerprint_text h = js_join (lit ''-'')
     (map (\<lambda>b. [hex_lower (unat b div 16), hex_lower (unat b mod 16)]) (take 8 h))"

text \<open>The digest is computed in the background; the dialog opens when it is there.\<close>

definition serverVerify :: "bytes \<Rightarrow> 'z ui \<Rightarrow> 'z ui" where
  "serverVerify publickey u = u\<lparr>u_digests := u_digests u @ [publickey]\<rparr>"

definition digest_done :: "('z, 'd) ui_env \<Rightarrow> 'z ui \<Rightarrow> 'z ui" where
  "digest_done E u =
     (case u_digests u of
        [] \<Rightarrow> u
      | k # ks \<Rightarrow>
          (add_class EVerifyDlg COpen u)\<lparr>u_digests := ks, u_fingerprint := fingerprint_text (e_sha1 E k)\<rparr>)"

text \<open>What the approval starts is part of the RSA-AES authentication.\<close>

definition ui_approveServer :: "'z ui command" where
  "ui_approveServer = block [upd (remove_class EVerifyDlg COpen), on_rfb (\<lambda>r. r)]"

definition rejectServer :: "('z, 'd) ui_env \<Rightarrow> 'z ui command" where
  "rejectServer E = block [upd (remove_class EVerifyDlg COpen), ui_disconnect E]"

definition ask_credentials :: "('z, 'd) ui_env \<Rightarrow> string list \<Rightarrow> 'z ui \<Rightarrow> 'z ui" where
  "ask_credentials E types u =
     (let inputFocus = (if ''username'' \<in> set types then ''noVNC_username_input''
                        else if ''password'' \<in> set types then ''noVNC_password_input'' else ''none'');
          u = set_class (''username'' \<notin> set types) EUsernameBlock CHidden u;
          u = set_class (''password'' \<notin> set types) EPasswordBlock CHidden u;
          u = start_timer (TFocusField inputFocus) (add_class ECredentialsDlg COpen u)
      in showStatus (tr E ''Credentials are required'') ''warning'' u)"

definition setCredentials :: "('z, 'd) ui_env \<Rightarrow> 'z ui command" where
  "setCredentials E = read u_username_input (\<lambda>user. read u_password_input (\<lambda>pw. block
     [upd (\<lambda>u. u\<lparr>u_password_input := []\<rparr>),
      client E (SendCredentials \<lparr>username = Some user, password = Some pw, cred_target = None,
        ardPublicKey = None, ardCredentials = None\<rparr>),
      upd (\<lambda>u. u\<lparr>u_reconnectPassword := Some pw\<rparr>),
      upd (remove_class ECredentialsDlg COpen)]))"

section \<open>Full screen, clipboard, bell, title\<close>

definition updateFullscreenButton :: "'z ui \<Rightarrow> 'z ui" where
  "updateFullscreenButton u = set_class (u_fullscreen u) EFullscreenButton CSelected u"

text \<open>The browser changes the mode later, when it grants the request.\<close>

definition toggleFullscreen :: "'z ui \<Rightarrow> 'z ui" where
  "toggleFullscreen u = updateFullscreenButton (u\<lparr>u_fullscreenRequest := Some (\<not> u_fullscreen u)\<rparr>)"

definition initFullscreen :: "('z, 'd) ui_env \<Rightarrow> 'z ui \<Rightarrow> 'z ui" where
  "initFullscreen E u =
     (if \<not> e_safari E \<and> e_canFullscreen E then remove_class EFullscreenButton CHidden u else u)"

definition clipboardReceive :: "jsstring \<Rightarrow> 'z ui \<Rightarrow> 'z ui" where
  "clipboardReceive t u = u\<lparr>u_clipboard_text := t\<rparr>"

definition clipboardSend :: "('z, 'd) ui_env \<Rightarrow> 'z ui command" where
  "clipboardSend E = read u_clipboard_text (\<lambda>t. client E (Paste t))"

definition bell :: "('z, 'd) ui_env \<Rightarrow> 'z ui command" where
  "bell E = with_config E ''bell'' (Some (lit ''on'')) (\<lambda>v.
     guard (\<lambda>u. v = Some (lit ''on'')) (upd (\<lambda>u. u\<lparr>u_bells := Suc (u_bells u)\<rparr>)))"

definition updateDesktopName :: "jsstring \<Rightarrow> 'z ui \<Rightarrow> 'z ui" where
  "updateDesktopName name u = u\<lparr>u_desktopName := name, u_title := name @ lit '' - '' @ PAGE_TITLE\<rparr>"

section \<open>Keyboard of touch devices\<close>

definition showVirtualKeyboard :: "('z, 'd) ui_env \<Rightarrow> 'z ui \<Rightarrow> 'z ui" where
  "showVirtualKeyboard E u = (if \<not> e_touch E then u else move_focus FKeyboardInput u)"

definition hideVirtualKeyboard :: "('z, 'd) ui_env \<Rightarrow> 'z ui \<Rightarrow> 'z ui" where
  "hideVirtualKeyboard E u = (if \<not> e_touch E \<or> u_active u \<noteq> FKeyboardInput then u else move_focus FNone u)"

definition toggleVirtualKeyboard :: "('z, 'd) ui_env \<Rightarrow> 'z ui \<Rightarrow> 'z ui" where
  "toggleVirtualKeyboard E u =
     (if has_class EKeyboardButton CSelected u then hideVirtualKeyboard E u else showVirtualKeyboard E u)"

text \<open>Whether a press is kept from moving the focus away from the keyboard input; the argument is the type of
  the form control pressed, if it is one.\<close>

definition keepVirtualKeyboard :: "string option \<Rightarrow> 'z ui \<Rightarrow> bool" where
  "keepVirtualKeyboard target u \<longleftrightarrow> u_active u = FKeyboardInput \<and>
     (case target of
        None \<Rightarrow> True
      | Some t \<Rightarrow> t \<notin> {''text'', ''email'', ''search'', ''password'', ''tel'', ''url'', ''textarea'', ''select-one'',
          ''select-multiple''})"

definition keyboardinputReset :: "'z ui \<Rightarrow> 'z ui" where
  "keyboardinputReset u =
     (let v = replicate (defaultKeyboardinputLen - 1) 95
      in u\<lparr>u_keyboardinput := v, u_lastKeyboardinput := Some v\<rparr>)"

definition ui_keyEvent :: "('z, 'd) ui_env \<Rightarrow> int option \<Rightarrow> string \<Rightarrow> bool option \<Rightarrow> 'z ui command" where
  "ui_keyEvent E keysym code down = guard rfb_defined (client E (SendKey keysym code down))"

definition char_at :: "jsstring \<Rightarrow> nat \<Rightarrow> nat option" where
  "char_at s i = (if i < length s then Some (s ! i) else None)"

text \<open>How many characters to delete and how many to type, for a new value that counts as of length \<open>newLen\<close>.\<close>

definition key_changes :: "jsstring \<Rightarrow> jsstring \<Rightarrow> nat \<Rightarrow> nat \<times> nat" where
  "key_changes old new newLen =
     (case find (\<lambda>i. char_at new i \<noteq> char_at old i) [0..<min (length old) newLen] of
        Some i \<Rightarrow> (length old - i, newLen - i)
      | None \<Rightarrow> (length old - newLen, newLen - length old))"

text \<open>The keysym of a character; past the end the code is \<open>NaN\<close>, which the table does not have.\<close>

definition typed_keysym :: "jsstring \<Rightarrow> nat \<Rightarrow> int" where
  "typed_keysym s i = (case char_at s i of Some c \<Rightarrow> lookup_keysym (int c) | None \<Rightarrow> 0x01000000)"

definition sent_keys :: "jsstring \<Rightarrow> jsstring \<Rightarrow> nat \<Rightarrow> op list" where
  "sent_keys old new newLen =
     (case key_changes old new newLen of (backspaces, inputs) \<Rightarrow>
        replicate backspaces (SendKey (XK ''XK_BackSpace'') ''Backspace'' None) @
        map (\<lambda>i. SendKey (Some (typed_keysym new i)) '''' None) [newLen - inputs..<newLen])"

definition keyInput :: "('z, 'd) ui_env \<Rightarrow> nat \<Rightarrow> 'z ui command" where
  "keyInput E selectionStart = guard rfb_defined (read u_keyboardinput (\<lambda>newValue. block
     [guard (\<lambda>u. u_lastKeyboardinput u = None \<or> u_lastKeyboardinput u = Some []) (upd keyboardinputReset),
      read u_lastKeyboardinput (\<lambda>oldValue.
        block (map (client E) (sent_keys (the oldValue) newValue (max selectionStart (length newValue))))),
      (let newLen = max selectionStart (length newValue)
       in if newLen > 2 * defaultKeyboardinputLen then upd keyboardinputReset
          else if newLen < 1 then block
            [upd keyboardinputReset,
             upd (\<lambda>u. if u_active u = FKeyboardInput then move_focus FNone u else u),
             upd (start_timer TFocusInput)]
          else upd (\<lambda>u. u\<lparr>u_lastKeyboardinput := Some newValue\<rparr>))]))"

section \<open>Extra keys\<close>

definition ui_sendKey :: "('z, 'd) ui_env \<Rightarrow> int option \<Rightarrow> string \<Rightarrow> bool option \<Rightarrow> 'z ui command" where
  "ui_sendKey E keysym code down = block
     [client E (SendKey keysym code down),
      cond (has_class EKeyboardButton CSelected) (upd (move_focus FKeyboardInput)) rfb_focus,
      upd (idleControlbar E)]"

definition sendEsc :: "('z, 'd) ui_env \<Rightarrow> 'z ui command" where
  "sendEsc E = ui_sendKey E (XK ''XK_Escape'') ''Escape'' None"

definition sendTab :: "('z, 'd) ui_env \<Rightarrow> 'z ui command" where
  "sendTab E = ui_sendKey E (XK ''XK_Tab'') ''Tab'' None"

definition toggleKey :: "('z, 'd) ui_env \<Rightarrow> element \<Rightarrow> int option \<Rightarrow> string \<Rightarrow> 'z ui command" where
  "toggleKey E btn keysym code = cond (has_class btn CSelected)
     (block [ui_sendKey E keysym code (Some False), upd (remove_class btn CSelected)])
     (block [ui_sendKey E keysym code (Some True), upd (add_class btn CSelected)])"

definition toggleCtrl :: "('z, 'd) ui_env \<Rightarrow> 'z ui command" where
  "toggleCtrl E = toggleKey E ECtrlButton (XK ''XK_Control_L'') ''ControlLeft''"

definition toggleWindows :: "('z, 'd) ui_env \<Rightarrow> 'z ui command" where
  "toggleWindows E = toggleKey E EWindowsButton (XK ''XK_Super_L'') ''MetaLeft''"

definition toggleAlt :: "('z, 'd) ui_env \<Rightarrow> 'z ui command" where
  "toggleAlt E = toggleKey E EAltButton (XK ''XK_Alt_L'') ''AltLeft''"

definition ui_sendCtrlAltDel :: "('z, 'd) ui_env \<Rightarrow> 'z ui command" where
  "ui_sendCtrlAltDel E = block [client E SendCtrlAltDel, rfb_focus, upd (idleControlbar E)]"

section \<open>Start\<close>

text \<open>The page as it is loaded: the classes that the document \<open>vnc.html\<close> gives its elements, nothing connected,
  no timer.\<close>

fun document_classes :: "element \<Rightarrow> css set" where
  "document_classes ERoot = {CLoading}"
| "document_classes EViewDragButton = {CHidden}"
| "document_classes EFullscreenButton = {CHidden}"
| "document_classes e = {}"

text \<open>The labels of the settings in the document: those that name their control, and those that hold it.\<close>

definition document_labels :: "label_elem list" where
  "document_labels =
     map (\<lambda>n. \<lparr>l_for = [], l_children = [(n, True)]\<rparr>) [''shared'', ''view_only'', ''view_clip''] @
     map (\<lambda>n. \<lparr>l_for = n, l_children = []\<rparr>) [''resize'', ''quality'', ''compression'', ''repeaterID''] @
     map (\<lambda>n. \<lparr>l_for = [], l_children = [(n, True)]\<rparr>) [''encrypt''] @
     map (\<lambda>n. \<lparr>l_for = n, l_children = []\<rparr>) [''host'', ''port'', ''path''] @
     map (\<lambda>n. \<lparr>l_for = [], l_children = [(n, True)]\<rparr>) [''reconnect''] @
     map (\<lambda>n. \<lparr>l_for = n, l_children = []\<rparr>) [''reconnect_delay''] @
     map (\<lambda>n. \<lparr>l_for = [], l_children = [(n, True)]\<rparr>) [''show_dot'', ''logging'']"

definition new_ui :: "web \<Rightarrow> (string \<Rightarrow> control) \<Rightarrow> 'z ui" where
  "new_ui w ctrls = \<lparr>u_connected = False, u_desktopName = [], u_statusTimeout = None,
     u_idleControlbarTimeout = None, u_closeControlbarTimeout = None, u_controlbarGrabbed = False,
     u_controlbarDrag = False, u_controlbarMouseDownClientY = 0, u_controlbarMouseDownOffsetY = 0,
     u_lastKeyboardinput = None, u_inhibitReconnect = True, u_reconnectCallback = None, u_reconnectPassword = None,
     u_rfb = None, u_heard = 0, u_url = None, u_web = w, u_ctrls = ctrls, u_classes = document_classes, u_timers = [],
     u_nextTimer = 0, u_active = FNone, u_status_text = [], u_transition_text = [], u_title = PAGE_TITLE,
     u_fingerprint = [], u_digests = [], u_clipboard_text = [], u_username_input = [], u_password_input = [],
     u_keyboardinput = [], u_handle_y = None, u_transition0 = False, u_viewDrag_disabled = False,
     u_fullscreen = False, u_fullscreenRequest = None, u_bells = 0, u_logging = JUndef\<rparr>"

definition ui_start :: "('z, 'd) ui_env \<Rightarrow> 'z ui command" where
  "ui_start E = block
     [initSettings E document_labels,
      guard (\<lambda>u. \<not> e_secure E) (upd (showStatus
        (tr E ''Running without HTTPS is not recommended, crashes or other issues are likely.'') ''error'')),
      (\<lambda>u. case readSetting ''controlbar_pos'' None (u_web u) of (v, w) \<Rightarrow>
         guard (\<lambda>u. v = JStr (lit ''right'')) (upd (toggleControlbarSide E)) (u\<lparr>u_web := w\<rparr>)),
      upd (initFullscreen E),
      upd keyboardinputReset,
      upd openControlbar,
      updateVisualState E VInit,
      upd (remove_class ERoot CLoading),
      with_config E ''autoconnect'' None (\<lambda>v.
        if v = Some (lit ''true'') \<or> v = Some (lit ''1'') then ui_connect E None else upd openConnectPanel)]"

section \<open>Events\<close>

text \<open>Events of the client go to the listeners that were registered when it was created.\<close>

fun ui_listen :: "('z, 'd) ui_env \<Rightarrow> rfb_event \<Rightarrow> 'z ui command" where
  "ui_listen E EvConnect = connectFinished E"
| "ui_listen E (EvDisconnect clean) = disconnectFinished E clean"
| "ui_listen E (EvServerVerification k) = upd (serverVerify k)"
| "ui_listen E (EvCredentialsRequired types) = upd (ask_credentials E types)"
| "ui_listen E (EvSecurityFailure status reason) = upd (securityFailed E reason)"
| "ui_listen E (EvClippingViewport b) = updateViewDrag E"
| "ui_listen E (EvCapabilities b) = updatePowerButton"
| "ui_listen E (EvClipboard t) = upd (clipboardReceive t)"
| "ui_listen E EvBell = bell E"
| "ui_listen E (EvDesktopName name) = upd (updateDesktopName name)"

definition all_heard :: "'z ui \<Rightarrow> bool" where
  "all_heard u \<longleftrightarrow> (case u_rfb u of None \<Rightarrow> True | Some r \<Rightarrow> length (events r) \<le> u_heard u)"

definition hear :: "('z, 'd) ui_env \<Rightarrow> 'z ui command" where
  "hear E u =
     (case u_rfb u of
        None \<Rightarrow> (Ret (), u)
      | Some r \<Rightarrow>
          if u_heard u < length (events r)
          then ui_listen E (events r ! u_heard u) (u\<lparr>u_heard := Suc (u_heard u)\<rparr>) else (Ret (), u))"

fun ui_timer_fires :: "('z, 'd) ui_env \<Rightarrow> ui_timer \<Rightarrow> 'z ui command" where
  "ui_timer_fires E THideStatus = upd hideStatus"
| "ui_timer_fires E TIdle = upd (idleControlbar E)"
| "ui_timer_fires E TClose = closeControlbar"
| "ui_timer_fires E TReconnect = reconnect E"
| "ui_timer_fires E TFocusInput = upd (move_focus FKeyboardInput)"
| "ui_timer_fires E (TFocusField f) = (if f = ''none'' then throw TypeError else upd (move_focus (FField f)))"

datatype entry = Checked bool | Chosen nat | Entered jsstring

fun enter :: "entry \<Rightarrow> control \<Rightarrow> control" where
  "enter (Checked b) c = c\<lparr>c_checked := b\<rparr>"
| "enter (Chosen i) c = c\<lparr>c_selected := Some i\<rparr>"
| "enter (Entered s) c = c\<lparr>c_value := s\<rparr>"

definition setting_handlers :: "('z, 'd) ui_env \<Rightarrow> string \<Rightarrow> 'z ui command list" where
  "setting_handlers E name =
     saveSetting name #
     (if name = ''resize'' then [applyResizeMode E, updateViewClip E]
      else if name = ''quality'' then [updateQuality E]
      else if name = ''compression'' then [updateCompression E]
      else if name = ''view_clip'' then [updateViewClip E]
      else if name = ''view_only'' then [updateViewOnly E]
      else if name = ''show_dot'' then [updateShowDotCursor E]
      else if name = ''logging'' then [updateLogging E]
      else [])"

definition setting_names :: "string list" where
  "setting_names = [''encrypt'', ''resize'', ''quality'', ''compression'', ''view_clip'', ''shared'', ''view_only'',
     ''show_dot'', ''host'', ''port'', ''path'', ''repeaterID'', ''logging'', ''reconnect'', ''reconnect_delay'']"

text \<open>What may happen to the page. The client goes on by itself with what the network, its timers and input do.
  The buttons of a dialog can be clicked while it is open, the one that cancels a reconnection while it is shown.\<close>

fun own_op :: "op \<Rightarrow> bool" where
  "own_op Disconnect = False"
| "own_op (SendCredentials c) = False"
| "own_op (SendKey k c d) = False"
| "own_op SendCtrlAltDel = False"
| "own_op (Paste t) = False"
| "own_op (Machine n) = False"
| "own_op (SetViewOnly b) = False"
| "own_op (SetClip b) = False"
| "own_op (SetScale b) = False"
| "own_op (SetResize b) = False"
| "own_op (SetDot b) = False"
| "own_op (SetDrag b) = False"
| "own_op (SetQuality v) = False"
| "own_op (SetCompression v) = False"
| "own_op a = True"

datatype ui_op =
    ClientDoes op
  | TimerNumber nat
  | DigestDone
  | BarMoved | BarPressed | HandleDown bool rat | HandleUp bool | HandleMoved rat rat | WindowResized
  | ExpanderClicked nat | ViewDragClicked | SettingsClicked | PowerClicked | ClipboardClicked | ExtraKeysClicked
  | KeyboardClicked | KeyboardTyped jsstring nat | TouchKey "int option" string bool | FocusMoved focus
  | CtrlClicked | WindowsClicked | AltClicked | TabClicked | EscClicked | CtrlAltDelClicked | MachineClicked int
  | ConnectClicked | DisconnectClicked | CancelReconnectClicked | ApproveClicked | RejectClicked | CredentialsClicked
  | CredentialsTyped jsstring jsstring | ClipboardChanged jsstring | SettingChanged string entry
  | StatusClicked | FullscreenClicked | FullscreenChanged bool

fun ui_step :: "('z, 'd) ui_env \<Rightarrow> ui_op \<Rightarrow> 'z ui command" where
  "ui_step E (ClientDoes a) = guard (\<lambda>u. rfb_defined u \<and> own_op a) (client E a)"
| "ui_step E (TimerNumber i) = read (\<lambda>u. map_of (u_timers u) i) (\<lambda>t. case t of
     None \<Rightarrow> block []
   | Some t \<Rightarrow> block [upd (clear_timer (Some i)), ui_timer_fires E t])"
| "ui_step E DigestDone = upd (digest_done E)"
| "ui_step E BarMoved = upd activateControlbar"
| "ui_step E BarPressed = block [upd activateControlbar, upd keepControlbar]"
| "ui_step E (HandleDown other y) = upd (controlbarHandleMouseDown E other y)"
| "ui_step E (HandleUp other) = controlbarHandleMouseUp other"
| "ui_step E (HandleMoved x y) = upd (dragControlbarHandle E x y)"
| "ui_step E WindowResized = upd (updateControlbarHandle E)"
| "ui_step E (ExpanderClicked i) = upd (toggleExpander i)"
| "ui_step E ViewDragClicked = toggleViewDrag E"
| "ui_step E SettingsClicked = upd (toggleSettingsPanel E)"
| "ui_step E PowerClicked = upd togglePowerPanel"
| "ui_step E ClipboardClicked = upd toggleClipboardPanel"
| "ui_step E ExtraKeysClicked = upd toggleExtraKeys"
| "ui_step E KeyboardClicked = upd (toggleVirtualKeyboard E)"
| "ui_step E (KeyboardTyped v selectionStart) = block [upd (\<lambda>u. u\<lparr>u_keyboardinput := v\<rparr>), keyInput E selectionStart]"
| "ui_step E (TouchKey k c d) = ui_keyEvent E k c (Some d)"
| "ui_step E (FocusMoved f) = upd (move_focus f)"
| "ui_step E CtrlClicked = toggleCtrl E"
| "ui_step E WindowsClicked = toggleWindows E"
| "ui_step E AltClicked = toggleAlt E"
| "ui_step E TabClicked = sendTab E"
| "ui_step E EscClicked = sendEsc E"
| "ui_step E CtrlAltDelClicked = ui_sendCtrlAltDel E"
| "ui_step E (MachineClicked n) = client E (Machine n)"
| "ui_step E ConnectClicked = guard (has_class EConnectDlg COpen) (ui_connect E None)"
| "ui_step E DisconnectClicked = ui_disconnect E"
| "ui_step E CancelReconnectClicked = guard (has_class ERoot CReconnecting) (cancelReconnect E)"
| "ui_step E ApproveClicked = guard (has_class EVerifyDlg COpen) ui_approveServer"
| "ui_step E RejectClicked = guard (has_class EVerifyDlg COpen) (rejectServer E)"
| "ui_step E CredentialsClicked = guard (has_class ECredentialsDlg COpen) (setCredentials E)"
| "ui_step E (CredentialsTyped user pw) = upd (\<lambda>u. u\<lparr>u_username_input := user, u_password_input := pw\<rparr>)"
| "ui_step E (ClipboardChanged t) = block [upd (\<lambda>u. u\<lparr>u_clipboard_text := t\<rparr>), clipboardSend E]"
| "ui_step E (SettingChanged name e) = guard (\<lambda>u. name \<in> set setting_names \<and> \<not> c_disabled (u_ctrls u name))
     (block [upd (set_ctrl name (enter e)), listeners (setting_handlers E name)])"
| "ui_step E StatusClicked = upd hideStatus"
| "ui_step E FullscreenClicked = upd toggleFullscreen"
| "ui_step E (FullscreenChanged b) = upd (\<lambda>u. updateFullscreenButton (u\<lparr>u_fullscreen := b\<rparr>))"

text \<open>Reachable pages. An event of the client is heard before anything else happens.\<close>

inductive ui_reachable :: "('z, 'd) ui_env set \<Rightarrow> 'z ui \<Rightarrow> bool" for Es where
  ui_begin: "E \<in> Es \<Longrightarrow> ui_start E (new_ui w ctrls) = (Ret (), u) \<Longrightarrow> ui_reachable Es u"
| ui_happens: "ui_reachable Es u \<Longrightarrow> E \<in> Es \<Longrightarrow> all_heard u \<Longrightarrow> ui_reachable Es (snd (ui_step E a u))"
| ui_hears: "ui_reachable Es u \<Longrightarrow> E \<in> Es \<Longrightarrow> \<not> all_heard u \<Longrightarrow> ui_reachable Es (snd (hear E u))"

end
