(* ===== verification/Ui_Input.thy ===== *)
theory Ui_Input
  imports Ui
begin

text \<open>
  The keyboard input of touch devices. The page compares the text of a hidden field with the text it had and
  sends the keys that make the same change at the other end: deleting back to the first difference and typing
  what follows. The text at the other end is a list of keysyms that a backspace shortens.
\<close>

section \<open>The difference of two texts\<close>

lemma char_at_take:
  "\<forall>i < n. char_at new i = char_at old i \<Longrightarrow> n \<le> length old \<Longrightarrow> n \<le> length new \<Longrightarrow> take n new = take n old"
  by (auto simp: char_at_def intro!: nth_equalityI)

lemma find_upt_Some: "find P [0..<n] = Some i \<Longrightarrow> i < n \<and> P i \<and> (\<forall>j < i. \<not> P j)"
  by (auto simp: find_Some_iff)

lemma find_upt_None: "find P [0..<n] = None \<Longrightarrow> \<forall>j < n. \<not> P j"
  by (auto simp: find_None_iff)

text \<open>What both have, what is deleted and what is typed.\<close>

lemma key_changes_split:
  assumes "key_changes old new (length new) = (b, n)"
  obtains keep dels adds where "old = keep @ dels" "new = keep @ adds" "b = length dels" "n = length adds"
    "dels = [] \<or> adds = [] \<or> hd dels \<noteq> hd adds"
proof (cases "find (\<lambda>i. char_at new i \<noteq> char_at old i) [0..<min (length old) (length new)]")
  case None
  let ?m = "min (length old) (length new)"
  have "take ?m new = take ?m old"
    using find_upt_None [OF None] by (intro char_at_take) auto
  moreover have "old = take ?m old @ drop ?m old" "new = take ?m new @ drop ?m new"
    by (simp_all only: append_take_drop_id)
  moreover have "b = length (drop ?m old)" "n = length (drop ?m new)"
    using assms None by (auto simp: key_changes_def)
  moreover have "drop ?m old = [] \<or> drop ?m new = []" by simp linarith
  ultimately show ?thesis using that by metis
next
  case (Some i)
  then have i: "i < length old" "i < length new" "char_at new i \<noteq> char_at old i"
    "\<forall>j < i. char_at new j = char_at old j"
    using find_upt_Some [OF Some] by auto
  have "take i new = take i old" using i by (intro char_at_take) auto
  moreover have "old = take i old @ drop i old" "new = take i new @ drop i new" by simp_all
  moreover have "b = length (drop i old)" "n = length (drop i new)" using assms Some by (auto simp: key_changes_def)
  moreover have "hd (drop i old) \<noteq> hd (drop i new)" using i by (simp add: char_at_def hd_drop_conv_nth)
  ultimately show ?thesis using that by metis
qed

section \<open>The text at the other end\<close>

definition keysym_of :: "nat \<Rightarrow> int" where
  "keysym_of c = lookup_keysym (int c)"

fun edit :: "op \<Rightarrow> int list \<Rightarrow> int list" where
  "edit (SendKey (Some k) code None) t = (if Some k = XK ''XK_BackSpace'' then butlast t else t @ [k])"
| "edit a t = t"

lemma backspace_entry: "map_of KeyTable1 ''XK_BackSpace'' = Some 0xff08"
  by (simp add: KeyTable1_def)

lemma backspace: "XK ''XK_BackSpace'' = Some 0xff08"
  unfolding XK_def KeyTable_def map_of_append map_add_def backspace_entry by simp

lemma no_backspace: "list_all (\<lambda>p. snd p \<noteq> 0xff08) codepoints"
proof -
  have "list_all (\<lambda>p. snd p \<noteq> 0xff08) codepoints1" by code_simp
  moreover have "list_all (\<lambda>p. snd p \<noteq> 0xff08) codepoints2" by code_simp
  moreover have "list_all (\<lambda>p. snd p \<noteq> 0xff08) codepoints3" by code_simp
  moreover have "list_all (\<lambda>p. snd p \<noteq> 0xff08) codepoints4" by code_simp
  moreover have "list_all (\<lambda>p. snd p \<noteq> 0xff08) codepoints5" by code_simp
  ultimately show ?thesis by (simp add: codepoints_def)
qed

lemma typed_not_backspace: "c < 0x10000 \<Longrightarrow> keysym_of c \<noteq> 0xff08"
  using no_backspace unicode_keysym [of "int c"]
  by (auto simp: keysym_of_def lookup_keysym_def list_all_iff split: option.splits dest!: map_of_SomeD)

lemma edit_backspaces:
  "fold edit (replicate n (SendKey (XK ''XK_BackSpace'') code None)) t = take (length t - n) t"
proof (induction n arbitrary: t)
  case (Suc n)
  then show ?case by (simp add: backspace butlast_conv_take min_def)
qed simp

lemma edit_typed:
  "(\<forall>c \<in> set s. c < 0x10000) \<Longrightarrow> fold edit (map (\<lambda>c. SendKey (Some (keysym_of c)) code None) s) t = t @ map keysym_of s"
  by (induction s arbitrary: t) (simp_all add: backspace typed_not_backspace)

lemma sent_typed:
  assumes "new = keep @ adds"
  shows "map (\<lambda>i. SendKey (Some (typed_keysym new i)) code None) [length new - length adds..<length new] =
    map (\<lambda>c. SendKey (Some (keysym_of c)) code None) adds"
  by (rule nth_equalityI)
    (auto simp: assms typed_keysym_def char_at_def keysym_of_def nth_append)

lemma sent_keys_edit:
  assumes "\<forall>c \<in> set new. c < 0x10000"
  obtains keep dels adds where "old = keep @ dels" "new = keep @ adds"
    "dels = [] \<or> adds = [] \<or> hd dels \<noteq> hd adds"
    "\<And>t. fold edit (sent_keys old new (length new)) t = take (length t - length dels) t @ map keysym_of adds"
proof -
  obtain b n where c: "key_changes old new (length new) = (b, n)" by force
  obtain keep dels adds where k: "old = keep @ dels" "new = keep @ adds" "b = length dels" "n = length adds"
    "dels = [] \<or> adds = [] \<or> hd dels \<noteq> hd adds"
    by (rule key_changes_split [OF c])
  have "fold edit (sent_keys old new (length new)) t = take (length t - length dels) t @ map keysym_of adds" for t
    using assms k c sent_typed [OF k(2)] by (simp add: sent_keys_def edit_backspaces edit_typed del: fold_replicate)
  then show ?thesis using that k by blast
qed

section \<open>What the handler does\<close>

lemma client_run:
  "u_rfb u = Some r \<Longrightarrow>
   block (map (client E) as) u = (Ret (), u\<lparr>u_rfb := Some (fold (rfb_step (e_world E)) as r)\<rparr>)"
  by (induction as arbitrary: u r) (simp_all add: client_def on_rfb_def)

lemma on_sets_same [simp]: "on_sets (\<lambda>s. s\<lparr>focusOnClick := focusOnClick (sets r)\<rparr>) r = r"
  by (simp add: on_sets_def)

lemma on_sets_last [simp]:
  "on_sets (\<lambda>s. s\<lparr>focusOnClick := b\<rparr>) (on_sets (\<lambda>s. s\<lparr>focusOnClick := c\<rparr>) r) = on_sets (\<lambda>s. s\<lparr>focusOnClick := b\<rparr>) r"
  by (simp add: on_sets_def)

lemma rfb_of_focusOnClick:
  "u_rfb u = Some r \<Longrightarrow> u_rfb (set_focusOnClick b u) = Some (on_sets (\<lambda>s. s\<lparr>focusOnClick := b\<rparr>) r)"
  by (simp add: set_focusOnClick_def)

lemma rfb_of_classes [simp]: "u_rfb (add_class e c u) = u_rfb u" "u_rfb (remove_class e c u) = u_rfb u"
  by (simp_all add: add_class_def remove_class_def)

lemma refocus:
  assumes "u_rfb u = Some r"
  shows "\<exists>b. u_rfb (move_focus f u) = Some (on_sets (\<lambda>s. s\<lparr>focusOnClick := b\<rparr>) r)"
proof (cases "u_active u = f")
  case True
  then show ?thesis using assms by (auto simp: move_focus_def intro: exI [of _ "focusOnClick (sets r)"])
next
  case False
  define v where "v = (if u_active u = FKeyboardInput then onblurVirtualKeyboard (u\<lparr>u_active := FNone\<rparr>) else u)"
  obtain b where b: "u_rfb v = Some (on_sets (\<lambda>s. s\<lparr>focusOnClick := b\<rparr>) r)"
    using assms rfb_of_focusOnClick [of "remove_class EKeyboardButton CSelected (u\<lparr>u_active := FNone\<rparr>)" r True]
    by (cases "u_active u = FKeyboardInput")
      (auto simp: v_def onblurVirtualKeyboard_def intro: exI [of _ "focusOnClick (sets r)"] that
        that [of "focusOnClick (sets r)"])
  have "move_focus f u = (if f = FKeyboardInput then onfocusVirtualKeyboard (v\<lparr>u_active := f\<rparr>) else v\<lparr>u_active := f\<rparr>)"
    using False by (simp add: move_focus_def v_def)
  then show ?thesis using b by (auto simp: onfocusVirtualKeyboard_def rfb_of_focusOnClick)
qed

text \<open>The remembered text is the one in the field, so that the next event is compared with it.\<close>

definition input_synced :: "'z ui \<Rightarrow> bool" where
  "input_synced u \<longleftrightarrow> u_keyboardinput u \<noteq> [] \<and> u_lastKeyboardinput u = Some (u_keyboardinput u)"

lemma synced_frame:
  "input_synced (set_focusOnClick b u) = input_synced u" "input_synced (start_timer t u) = input_synced u"
  "input_synced (u\<lparr>u_active := f\<rparr>) = input_synced u" "input_synced (add_class e c u) = input_synced u"
  "input_synced (remove_class e c u) = input_synced u" "input_synced (u\<lparr>u_rfb := rfb\<rparr>) = input_synced u"
  by (simp_all add: input_synced_def set_focusOnClick_def start_timer_def add_class_def remove_class_def
      split: option.split)

lemma synced_focus: "input_synced (move_focus f u) = input_synced u"
  by (simp add: move_focus_def onfocusVirtualKeyboard_def onblurVirtualKeyboard_def synced_frame Let_def)

lemma synced_reset: "input_synced (keyboardinputReset u)"
  by (simp add: keyboardinputReset_def input_synced_def defaultKeyboardinputLen_def Let_def)

lemma synced_last:
  "u_keyboardinput u = new \<Longrightarrow> new \<noteq> [] \<Longrightarrow> input_synced (u\<lparr>u_lastKeyboardinput := Some new\<rparr>)"
  by (simp add: input_synced_def)

definition finish_input :: "jsstring \<Rightarrow> nat \<Rightarrow> 'z ui \<Rightarrow> 'z ui" where
  "finish_input new n u =
     (if n > 2 * defaultKeyboardinputLen then keyboardinputReset u
      else if n < 1 then
        let u = keyboardinputReset u;
            u = (if u_active u = FKeyboardInput then move_focus FNone u else u)
        in start_timer TFocusInput u
      else u\<lparr>u_lastKeyboardinput := Some new\<rparr>)"

lemma keyInput_runs:
  assumes "u_rfb u = Some r" "u_lastKeyboardinput u = Some old" "old \<noteq> []" "u_keyboardinput u = new"
    "sel \<le> length new"
  shows "keyInput E sel u = (Ret (), finish_input new (length new)
    (u\<lparr>u_rfb := Some (fold (rfb_step (e_world E)) (sent_keys old new (length new)) r)\<rparr>))"
  using assms
  by (simp add: keyInput_def guard_def read_def rfb_defined_def client_run max_absorb2 finish_input_def upd_def Let_def)

lemma finish_synced: "u_keyboardinput u = new \<Longrightarrow> n = length new \<Longrightarrow> input_synced (finish_input new n u)"
  by (auto simp: finish_input_def synced_reset synced_frame synced_focus synced_last Let_def)

lemma finish_rfb:
  assumes "u_rfb u = Some r"
  shows "\<exists>b. u_rfb (finish_input new n u) = Some (on_sets (\<lambda>s. s\<lparr>focusOnClick := b\<rparr>) r)"
proof -
  have r: "u_rfb (keyboardinputReset u) = Some r" using assms by (simp add: keyboardinputReset_def Let_def)
  obtain b where b: "u_rfb (move_focus FNone (keyboardinputReset u)) = Some (on_sets (\<lambda>s. s\<lparr>focusOnClick := b\<rparr>) r)"
    using refocus [OF r] by blast
  have same: "\<exists>b. Some r = Some (on_sets (\<lambda>s. s\<lparr>focusOnClick := b\<rparr>) r)"
    by (rule exI [of _ "focusOnClick (sets r)"]) simp
  show ?thesis
    using r b same assms by (auto simp: finish_input_def start_timer_def Let_def)
qed


definition demo_env :: "(unit, unit) ui_env" where
  "demo_env = \<lparr>e_world = demo_world, e_href = [], e_hash = [], e_hostname = lit ''host'', e_port = [],
     e_protocol = lit ''https:'', e_l10n = new_localizer, e_lower = (\<lambda>s. s), e_sanitize = (\<lambda>n s. s),
     e_sha1 = (\<lambda>k. []), e_secure = True, e_touch = True, e_gutter = True, e_ios = False, e_android = True,
     e_mac = False, e_chromeos = False, e_safari = False, e_canFullscreen = True, e_hasFocus = True,
     e_barShown = True, e_innerWidth = 800, e_barTop = 50, e_barHeight = 300, e_handleTop = 100, e_handleHeight = 60\<rparr>"

definition demo_control :: control where
  "demo_control = \<lparr>c_kind = Field, c_checked = False, c_options = [], c_selected = None, c_value = [], c_disabled = False,
     c_label = Some 0\<rparr>"

definition demo_typing :: "unit ui" where
  "demo_typing = (new_ui demo_web (\<lambda>n. demo_control))\<lparr>u_rfb := Some demo_client, u_lastKeyboardinput := Some (lit ''xy''),
     u_keyboardinput := lit ''xzz''\<rparr>"


end
