(* ===== verification/Ui_Invariant.thy ===== *)
theory Ui_Invariant
  imports Ui
begin

text \<open>
  What every handler of the page keeps. The first part is about the page alone: panels and their buttons, the
  class that shows the state of the connection, the status message and its timer, the numbers of timers and the
  labels of settings. The second part ties the page to its client: what has been heard of it, and which timers
  may be running. Handlers are blocks of commands, and the rules for commands reduce the proofs to the updates.
\<close>

section \<open>The page\<close>

definition panels_ok :: "(element \<Rightarrow> css set) \<Rightarrow> bool" where
  "panels_ok c \<longleftrightarrow>
     (COpen \<in> c ESettings \<longleftrightarrow> CSelected \<in> c ESettingsButton) \<and> (COpen \<in> c EPower \<longleftrightarrow> CSelected \<in> c EPowerButton) \<and>
     (COpen \<in> c EClipboard \<longleftrightarrow> CSelected \<in> c EClipboardButton) \<and>
     (COpen \<in> c EModifiers \<longleftrightarrow> CSelected \<in> c EExtraKeysButton) \<and>
     \<not> (COpen \<in> c ESettings \<and> COpen \<in> c EPower) \<and> \<not> (COpen \<in> c ESettings \<and> COpen \<in> c EClipboard) \<and>
     \<not> (COpen \<in> c ESettings \<and> COpen \<in> c EModifiers) \<and> \<not> (COpen \<in> c EPower \<and> COpen \<in> c EClipboard) \<and>
     \<not> (COpen \<in> c EPower \<and> COpen \<in> c EModifiers) \<and> \<not> (COpen \<in> c EClipboard \<and> COpen \<in> c EModifiers)"

definition root_ok :: "css set \<Rightarrow> bool" where
  "root_ok s \<longleftrightarrow> (\<forall>a \<in> {CConnecting, CConnected, CDisconnecting, CReconnecting}.
     \<forall>b \<in> {CConnecting, CConnected, CDisconnecting, CReconnecting}. a \<in> s \<and> b \<in> s \<longrightarrow> a = b)"

definition kinds :: "'z ui \<Rightarrow> ui_timer set" where
  "kinds u = snd ` set (u_timers u)"

definition status_ok :: "css set \<Rightarrow> bool \<Rightarrow> bool" where
  "status_ok s waits \<longleftrightarrow>
     (waits \<longleftrightarrow> COpen \<in> s \<and> CError \<notin> s) \<and> \<not> (CError \<in> s \<and> CWarn \<in> s) \<and>
     \<not> (CError \<in> s \<and> CNormal \<in> s) \<and> \<not> (CWarn \<in> s \<and> CNormal \<in> s)"

text \<open>The variable that remembers the timer of a kind.\<close>

definition timer_var :: "'z ui \<Rightarrow> ui_timer \<Rightarrow> nat option" where
  "timer_var u t =
     (case t of
        THideStatus \<Rightarrow> u_statusTimeout u
      | TIdle \<Rightarrow> u_idleControlbarTimeout u
      | TClose \<Rightarrow> u_closeControlbarTimeout u
      | TReconnect \<Rightarrow> u_reconnectCallback u
      | _ \<Rightarrow> None)"

definition timers_ok :: "(nat \<times> ui_timer) list \<Rightarrow> nat \<Rightarrow> (ui_timer \<Rightarrow> nat option) \<Rightarrow> bool" where
  "timers_ok ts n var \<longleftrightarrow> distinct (map fst ts) \<and> (\<forall>(i, t) \<in> set ts. i < n) \<and>
     (\<forall>t \<in> {THideStatus, TIdle, TClose, TReconnect}. (\<forall>i. (i, t) \<in> set ts \<longrightarrow> var t = Some i) \<and>
        (\<forall>i t'. var t = Some i \<longrightarrow> i < n \<and> ((i, t') \<in> set ts \<longrightarrow> t' = t)))"

definition labels_ok :: "(string \<Rightarrow> control) \<Rightarrow> bool" where
  "labels_ok cs \<longleftrightarrow> (\<forall>n \<in> set (''view_clip'' # connection_settings). c_label (cs n) \<noteq> None)"

definition page_ok :: "'z ui \<Rightarrow> bool" where
  "page_ok u \<longleftrightarrow> panels_ok (u_classes u) \<and> root_ok (u_classes u ERoot) \<and>
     status_ok (u_classes u EStatus) (THideStatus \<in> kinds u) \<and>
     timers_ok (u_timers u) (u_nextTimer u) (timer_var u)"

text \<open>The classes this is about, and the part of the state that decides it.\<close>

fun shown :: "element \<Rightarrow> css \<Rightarrow> bool" where
  "shown ERoot c = (c \<in> {CConnecting, CConnected, CDisconnecting, CReconnecting})"
| "shown EStatus c = True"
| "shown ESettings c = (c = COpen)"
| "shown EPower c = (c = COpen)"
| "shown EClipboard c = (c = COpen)"
| "shown EModifiers c = (c = COpen)"
| "shown ESettingsButton c = (c = CSelected)"
| "shown EPowerButton c = (c = CSelected)"
| "shown EClipboardButton c = (c = CSelected)"
| "shown EExtraKeysButton c = (c = CSelected)"
| "shown _ c = False"

definition page_view ::
  "'z ui \<Rightarrow> (element \<Rightarrow> css \<Rightarrow> bool) \<times> (nat \<times> ui_timer) list \<times> nat \<times> nat option list" where
  "page_view u = (\<lambda>e c. shown e c \<and> c \<in> u_classes u e, u_timers u, u_nextTimer u,
     [u_statusTimeout u, u_idleControlbarTimeout u, u_closeControlbarTimeout u, u_reconnectCallback u])"

lemma page_ok_view:
  assumes "page_view u' = page_view u"
  shows "page_ok u' = page_ok u"
proof -
  have c: "c \<in> u_classes u' e \<longleftrightarrow> c \<in> u_classes u e" if "shown e c" for e c
  proof -
    have "(\<lambda>e c. shown e c \<and> c \<in> u_classes u' e) = (\<lambda>e c. shown e c \<and> c \<in> u_classes u e)"
      using assms by (simp add: page_view_def)
    from fun_cong [OF fun_cong [OF this], of e c] show ?thesis using that by simp
  qed
  have "panels_ok (u_classes u') = panels_ok (u_classes u)" by (simp add: panels_ok_def c)
  moreover have "root_ok (u_classes u' ERoot) = root_ok (u_classes u ERoot)" by (simp add: root_ok_def c)
  moreover have "u_classes u' EStatus = u_classes u EStatus" using c [of EStatus] by auto
  moreover have "kinds u' = kinds u" "u_timers u' = u_timers u" "u_nextTimer u' = u_nextTimer u"
    "timer_var u' = timer_var u"
    using assms by (simp_all add: page_view_def kinds_def timer_var_def [abs_def] cong: ui_timer.case_cong)
  ultimately show ?thesis by (simp add: page_ok_def)
qed

lemma view_classes:
  "\<not> shown e c \<Longrightarrow> page_view (add_class e c u) = page_view u"
  "\<not> shown e c \<Longrightarrow> page_view (remove_class e c u) = page_view u"
  "\<not> shown e c \<Longrightarrow> page_view (set_class b e c u) = page_view u"
  by (auto simp: page_view_def add_class_def remove_class_def set_class_def fun_eq_iff)

lemma view_fields:
  "page_view (u\<lparr>u_connected := a1\<rparr>) = page_view u" "page_view (u\<lparr>u_desktopName := a2\<rparr>) = page_view u"
  "page_view (u\<lparr>u_controlbarGrabbed := a3\<rparr>) = page_view u" "page_view (u\<lparr>u_controlbarDrag := a4\<rparr>) = page_view u"
  "page_view (u\<lparr>u_controlbarMouseDownClientY := a5\<rparr>) = page_view u"
  "page_view (u\<lparr>u_controlbarMouseDownOffsetY := a6\<rparr>) = page_view u"
  "page_view (u\<lparr>u_lastKeyboardinput := a7\<rparr>) = page_view u" "page_view (u\<lparr>u_inhibitReconnect := a8\<rparr>) = page_view u"
  "page_view (u\<lparr>u_reconnectPassword := a9\<rparr>) = page_view u" "page_view (u\<lparr>u_rfb := b1\<rparr>) = page_view u"
  "page_view (u\<lparr>u_heard := b2\<rparr>) = page_view u" "page_view (u\<lparr>u_url := b3\<rparr>) = page_view u"
  "page_view (u\<lparr>u_web := b4\<rparr>) = page_view u" "page_view (u\<lparr>u_ctrls := b5\<rparr>) = page_view u"
  "page_view (u\<lparr>u_active := b6\<rparr>) = page_view u" "page_view (u\<lparr>u_status_text := b7\<rparr>) = page_view u"
  "page_view (u\<lparr>u_transition_text := b8\<rparr>) = page_view u" "page_view (u\<lparr>u_title := b9\<rparr>) = page_view u"
  "page_view (u\<lparr>u_fingerprint := c1\<rparr>) = page_view u" "page_view (u\<lparr>u_digests := c2\<rparr>) = page_view u"
  "page_view (u\<lparr>u_clipboard_text := c3\<rparr>) = page_view u" "page_view (u\<lparr>u_username_input := c4\<rparr>) = page_view u"
  "page_view (u\<lparr>u_password_input := c5\<rparr>) = page_view u" "page_view (u\<lparr>u_keyboardinput := c6\<rparr>) = page_view u"
  "page_view (u\<lparr>u_handle_y := c7\<rparr>) = page_view u" "page_view (u\<lparr>u_transition0 := c8\<rparr>) = page_view u"
  "page_view (u\<lparr>u_viewDrag_disabled := c9\<rparr>) = page_view u" "page_view (u\<lparr>u_fullscreen := d1\<rparr>) = page_view u"
  "page_view (u\<lparr>u_fullscreenRequest := d2\<rparr>) = page_view u" "page_view (u\<lparr>u_bells := d3\<rparr>) = page_view u"
  "page_view (u\<lparr>u_logging := d4\<rparr>) = page_view u"
  by (simp_all add: page_view_def)

lemma view_settings:
  "page_view (set_ctrl n f u) = page_view u" "page_view (put_setting n v u) = page_view u"
  "page_view (addOption n w u) = page_view u" "page_view (set_label i n u) = page_view u"
  "page_view (snd (getSetting E n u)) = page_view u" "page_view (updateSetting E n u) = page_view u"
  by (auto simp: set_ctrl_def put_setting_def addOption_def set_label_def getSetting_def updateSetting_def view_fields
      Let_def split: prod.split control_kind.split option.split)

lemma view_labels: "page_view (setupSettingLabels i ls u) = page_view u"
  by (induction ls arbitrary: i u) (simp_all add: view_settings split: option.split)

lemma view_focusOnClick: "page_view (set_focusOnClick b u) = page_view u"
  by (simp add: set_focusOnClick_def view_fields split: option.split)

lemma view_virtual:
  "page_view (onfocusVirtualKeyboard u) = page_view u" "page_view (onblurVirtualKeyboard u) = page_view u"
  by (simp_all add: onfocusVirtualKeyboard_def onblurVirtualKeyboard_def view_focusOnClick view_classes)

lemma view_focus: "page_view (move_focus f u) = page_view u"
  by (simp add: move_focus_def view_fields view_virtual Let_def)

lemma view_bar:
  "page_view (showControlbarHint d a u) = page_view u" "page_view (openControlbar u) = page_view u"
  "page_view (moveControlbarHandle E y u) = page_view u" "page_view (toggleControlbarSide E u) = page_view u"
  "page_view (updateControlbarHandle E u) = page_view u" "page_view (toggleExpander i u) = page_view u"
  by (simp_all add: showControlbarHint_def openControlbar_def moveControlbarHandle_def toggleControlbarSide_def
      updateControlbarHandle_def toggleExpander_def view_classes view_fields Let_def)

lemma view_misc:
  "page_view (openConnectPanel u) = page_view u" "page_view (closeConnectPanel u) = page_view u"
  "page_view (digest_done E u) = page_view u" "page_view (serverVerify k u) = page_view u"
  "page_view (updateFullscreenButton u) = page_view u" "page_view (toggleFullscreen u) = page_view u"
  "page_view (initFullscreen E u) = page_view u" "page_view (clipboardReceive t u) = page_view u"
  "page_view (updateDesktopName t u) = page_view u" "page_view (keyboardinputReset u) = page_view u"
  by (simp_all add: openConnectPanel_def closeConnectPanel_def digest_done_def serverVerify_def
      updateFullscreenButton_def toggleFullscreen_def initFullscreen_def clipboardReceive_def updateDesktopName_def
      keyboardinputReset_def view_classes view_fields Let_def split: list.split)

lemmas view_simps = view_classes view_fields view_settings view_labels view_focus view_bar view_misc

lemma page_ok_simps: "page_view u' = page_view u \<Longrightarrow> page_ok u \<Longrightarrow> page_ok u'"
  using page_ok_view by blast

section \<open>Timers\<close>

definition tracked :: "ui_timer set" where
  "tracked = {THideStatus, TIdle, TClose, TReconnect}"

lemma timers_ok_alt:
  "timers_ok ts n var \<longleftrightarrow> distinct (map fst ts) \<and> (\<forall>(i, t) \<in> set ts. i < n) \<and>
     (\<forall>t \<in> tracked. (\<forall>i. (i, t) \<in> set ts \<longrightarrow> var t = Some i) \<and>
        (\<forall>i t'. var t = Some i \<longrightarrow> i < n \<and> ((i, t') \<in> set ts \<longrightarrow> t' = t)))"
  by (simp add: timers_ok_def tracked_def)

lemma timers_okD:
  assumes "timers_ok ts n var"
  shows "distinct (map fst ts)" "(i, t) \<in> set ts \<Longrightarrow> i < n"
    "(i, t) \<in> set ts \<Longrightarrow> t \<in> tracked \<Longrightarrow> var t = Some i"
    "t \<in> tracked \<Longrightarrow> var t = Some i \<Longrightarrow> i < n"
    "t \<in> tracked \<Longrightarrow> var t = Some i \<Longrightarrow> (i, t') \<in> set ts \<Longrightarrow> t' = t"
  using assms unfolding timers_ok_alt by blast+

lemma timers_okI:
  assumes "distinct (map fst ts)" "\<And>i t. (i, t) \<in> set ts \<Longrightarrow> i < n"
    "\<And>i t. (i, t) \<in> set ts \<Longrightarrow> t \<in> tracked \<Longrightarrow> var t = Some i"
    "\<And>i t. t \<in> tracked \<Longrightarrow> var t = Some i \<Longrightarrow> i < n"
    "\<And>i t t'. t \<in> tracked \<Longrightarrow> var t = Some i \<Longrightarrow> (i, t') \<in> set ts \<Longrightarrow> t' = t"
  shows "timers_ok ts n var"
  using assms unfolding timers_ok_alt by blast

lemma timers_clear:
  assumes "timers_ok ts n var"
  shows "timers_ok (filter (\<lambda>t. Some (fst t) \<noteq> i) ts) n var"
  by (rule timers_okI) (use timers_okD [OF assms] in \<open>auto simp: distinct_map_filter\<close>)

lemma timers_cleared:
  assumes "timers_ok ts n var" "t \<in> tracked"
  shows "t \<notin> snd ` set (filter (\<lambda>x. Some (fst x) \<noteq> var t) ts)"
  using timers_okD(3) [OF assms(1) _ assms(2)] by auto

lemma timers_left:
  assumes "timers_ok ts n var" "t \<in> tracked" "t' \<noteq> t"
  shows "t' \<in> snd ` set (filter (\<lambda>x. Some (fst x) \<noteq> var t) ts) \<longleftrightarrow> t' \<in> snd ` set ts"
proof
  assume "t' \<in> snd ` set ts"
  then obtain i where i: "(i, t') \<in> set ts" by auto
  then have "var t \<noteq> Some i" using timers_okD(5) [OF assms(1,2)] assms(3) by blast
  then have "(i, t') \<in> set (filter (\<lambda>x. Some (fst x) \<noteq> var t) ts)" using i by simp
  then show "t' \<in> snd ` set (filter (\<lambda>x. Some (fst x) \<noteq> var t) ts)" by (rule image_eqI [rotated]) simp
qed auto

lemma timers_fresh: "timers_ok ts n var \<Longrightarrow> (n, t) \<notin> set ts"
  using timers_okD(2) by blast

lemma timers_distinct:
  assumes "timers_ok ts n var"
  shows "distinct (map fst (ts @ [(n, t)]))"
proof -
  have "n \<notin> fst ` set ts" using timers_fresh [OF assms] by force
  then show ?thesis using timers_okD(1) [OF assms] by simp
qed

lemma timers_start:
  assumes ok: "timers_ok ts n var" and t: "t \<in> tracked" "t \<notin> snd ` set ts"
  shows "timers_ok (ts @ [(n, t)]) (Suc n) (var(t := Some n))"
proof (rule timers_okI)
  show "distinct (map fst (ts @ [(n, t)]))" using ok by (rule timers_distinct)
  show "i < Suc n" if "(i, s) \<in> set (ts @ [(n, t)])" for i s
    using that timers_okD(2) [OF ok, of i s] by auto
  show "(var(t := Some n)) s = Some i" if i: "(i, s) \<in> set (ts @ [(n, t)])" "s \<in> tracked" for i s
  proof (cases "(i, s) \<in> set ts")
    case True
    then have "s \<noteq> t" using t(2) by (auto simp: image_iff)
    then show ?thesis using timers_okD(3) [OF ok True i(2)] by simp
  qed (use i in simp)
  show "i < Suc n" if "s \<in> tracked" "(var(t := Some n)) s = Some i" for i s
    using that timers_okD(4) [OF ok that(1), of i] by (auto split: if_splits)
  show "s' = s" if s: "s \<in> tracked" "(var(t := Some n)) s = Some i" "(i, s') \<in> set (ts @ [(n, t)])" for i s s'
  proof (cases "s = t")
    case True
    then show ?thesis using s timers_fresh [OF ok, of s'] by auto
  next
    case False
    then have v: "var s = Some i" using s(2) by simp
    then have "i \<noteq> n" using timers_okD(4) [OF ok s(1) v] by simp
    then show ?thesis using timers_okD(5) [OF ok s(1) v] s(3) by simp
  qed
qed

lemma timers_start_other:
  assumes "timers_ok ts n var" "t \<notin> tracked"
  shows "timers_ok (ts @ [(n, t)]) (Suc n) var"
proof (rule timers_okI)
  show "distinct (map fst (ts @ [(n, t)]))" by (rule timers_distinct) (rule assms(1))
qed (use timers_okD(2-5) [OF assms(1)] assms(2) in fastforce)+

lemma timers_forget:
  assumes "timers_ok ts n var" "t \<notin> snd ` set ts"
  shows "timers_ok ts n (var(t := None))"
proof (rule timers_okI)
  show "(var(t := None)) s = Some i" if "(i, s) \<in> set ts" "s \<in> tracked" for i s
  proof -
    have "s \<noteq> t" using that(1) assms(2) by (auto simp: image_iff)
    then show ?thesis using timers_okD(3) [OF assms(1) that] by simp
  qed
qed (use timers_okD(1,2,4,5) [OF assms(1)] in \<open>auto split: if_splits\<close>)

lemma timer_var_simps:
  "timer_var (u\<lparr>u_statusTimeout := i\<rparr>) = (timer_var u)(THideStatus := i)"
  "timer_var (u\<lparr>u_idleControlbarTimeout := i\<rparr>) = (timer_var u)(TIdle := i)"
  "timer_var (u\<lparr>u_closeControlbarTimeout := i\<rparr>) = (timer_var u)(TClose := i)"
  "timer_var (u\<lparr>u_reconnectCallback := i\<rparr>) = (timer_var u)(TReconnect := i)"
  "timer_var (start_timer t u) = timer_var u" "timer_var (clear_timer j u) = timer_var u"
  "timer_var (add_class e c u) = timer_var u" "timer_var (remove_class e c u) = timer_var u"
  "timer_var (u\<lparr>u_status_text := msg\<rparr>) = timer_var u"
  by (rule ext, simp add: timer_var_def start_timer_def clear_timer_def add_class_def remove_class_def
      split: ui_timer.split)+

lemma kinds_simps:
  "kinds (start_timer t u) = insert t (kinds u)" "kinds (clear_timer i u) \<subseteq> kinds u"
  "kinds (add_class e c u) = kinds u" "kinds (remove_class e c u) = kinds u"
  by (auto simp: kinds_def start_timer_def clear_timer_def add_class_def remove_class_def)

lemma start_fields:
  "u_classes (start_timer t u) = u_classes u" "u_timers (start_timer t u) = u_timers u @ [(u_nextTimer u, t)]"
  "u_nextTimer (start_timer t u) = Suc (u_nextTimer u)"
  by (simp_all add: start_timer_def)

lemma page_okD:
  assumes "page_ok u"
  shows "panels_ok (u_classes u)" "root_ok (u_classes u ERoot)"
    "status_ok (u_classes u EStatus) (THideStatus \<in> kinds u)"
    "timers_ok (u_timers u) (u_nextTimer u) (timer_var u)"
  using assms by (simp_all add: page_ok_def)

lemma clear_tracked:
  assumes "page_ok u" "t \<in> tracked"
  shows "t \<notin> kinds (clear_timer (timer_var u t) u)"
    "t' \<noteq> t \<Longrightarrow> t' \<in> kinds (clear_timer (timer_var u t) u) \<longleftrightarrow> t' \<in> kinds u"
    "timers_ok (u_timers (clear_timer (timer_var u t) u)) (u_nextTimer u) (timer_var u)"
  using timers_cleared [OF page_okD(4) [OF assms(1)] assms(2)] timers_left [OF page_okD(4) [OF assms(1)] assms(2)]
    timers_clear [OF page_okD(4) [OF assms(1)]]
  by (simp_all add: clear_timer_def kinds_def)

lemma page_clear:
  assumes "page_ok u" "t \<in> tracked" "t \<noteq> THideStatus"
  shows "page_ok (clear_timer (timer_var u t) u)"
proof -
  let ?w = "clear_timer (timer_var u t) u"
  have "u_classes ?w = u_classes u" "u_nextTimer ?w = u_nextTimer u" by (simp_all add: clear_timer_def)
  then show ?thesis
    unfolding page_ok_def
    using page_okD [OF assms(1)] clear_tracked [OF assms(1,2)] assms(3) by (simp add: timer_var_simps)
qed

lemma page_start_other:
  assumes "page_ok u" "t \<notin> tracked"
  shows "page_ok (start_timer t u)"
proof -
  have "t \<noteq> THideStatus" using assms(2) by (auto simp: tracked_def)
  moreover have "u_classes (start_timer t u) = u_classes u"
    "u_timers (start_timer t u) = u_timers u @ [(u_nextTimer u, t)]" "u_nextTimer (start_timer t u) = Suc (u_nextTimer u)"
    by (simp_all add: start_timer_def)
  ultimately show ?thesis
    using page_okD [OF assms(1)] timers_start_other [OF page_okD(4) [OF assms(1)] assms(2)]
    by (simp add: page_ok_def kinds_simps timer_var_simps)
qed

text \<open>Starting a timer and remembering it, when none of its kind is running.\<close>

lemma page_start:
  assumes "page_ok u" "t \<in> tracked" "t \<noteq> THideStatus" "t \<notin> kinds u"
    and v: "timer_var v = (timer_var u)(t := Some (u_nextTimer u))" "u_classes v = u_classes u"
      "u_timers v = u_timers u @ [(u_nextTimer u, t)]" "u_nextTimer v = Suc (u_nextTimer u)"
  shows "page_ok v"
proof -
  have "THideStatus \<in> kinds v \<longleftrightarrow> THideStatus \<in> kinds u" using assms(3) v(3) by (auto simp: kinds_def)
  moreover have "timers_ok (u_timers v) (u_nextTimer v) (timer_var v)"
    unfolding v using timers_start [OF page_okD(4) [OF assms(1)] assms(2)] assms(4) by (simp add: kinds_def)
  ultimately show ?thesis using page_okD [OF assms(1)] v(2) by (simp add: page_ok_def)
qed

lemma page_activate: "page_ok u \<Longrightarrow> page_ok (activateControlbar u)"
proof -
  assume ok: "page_ok u"
  define w where "w = remove_class EAnchor CIdle (clear_timer (u_idleControlbarTimeout u) u)"
  have idle: "timer_var u TIdle = u_idleControlbarTimeout u" by (simp add: timer_var_def)
  have "page_ok (clear_timer (u_idleControlbarTimeout u) u)" "TIdle \<notin> kinds (clear_timer (u_idleControlbarTimeout u) u)"
    using page_clear [OF ok, of TIdle] clear_tracked(1) [OF ok, of TIdle] by (simp_all add: idle tracked_def)
  then have w: "page_ok w" "TIdle \<notin> kinds w"
    unfolding w_def kinds_simps by (simp_all add: page_ok_view [OF view_classes(2)])
  have "activateControlbar u = (start_timer TIdle w)\<lparr>u_idleControlbarTimeout := Some (u_nextTimer w)\<rparr>"
    by (simp add: activateControlbar_def w_def Let_def)
  then show ?thesis
    by (intro page_start [OF w(1) _ _ w(2)]) (simp_all add: timer_var_simps start_fields tracked_def)
qed

lemma page_keep: "page_ok u \<Longrightarrow> page_ok (keepControlbar u)"
  using page_clear [of u TClose] by (simp add: keepControlbar_def timer_var_def tracked_def)

lemma keep_stops: "page_ok u \<Longrightarrow> TClose \<notin> kinds (keepControlbar u)"
  using clear_tracked(1) [of u TClose] by (simp add: keepControlbar_def timer_var_def tracked_def)

section \<open>Status messages\<close>

lemma panels_status [simp]: "panels_ok (c(EStatus := st)) = panels_ok c" "panels_ok (c(ERoot := st)) = panels_ok c"
  by (simp_all add: panels_ok_def)

lemma clear_status:
  assumes "page_ok u"
  shows "THideStatus \<notin> kinds (clear_timer (u_statusTimeout u) u)"
    "timers_ok (u_timers (clear_timer (u_statusTimeout u) u)) (u_nextTimer u) (timer_var u)"
  using clear_tracked [OF assms, of THideStatus] by (simp_all add: timer_var_def tracked_def)

lemma page_hideStatus: "page_ok u \<Longrightarrow> page_ok (hideStatus u)"
proof -
  assume ok: "page_ok u"
  let ?w = "clear_timer (u_statusTimeout u) u"
  have c: "u_classes ?w = u_classes u" "u_nextTimer ?w = u_nextTimer u" by (simp_all add: clear_timer_def)
  have "u_classes (hideStatus u) = (u_classes u)(EStatus := u_classes u EStatus - {COpen})"
    "u_timers (hideStatus u) = u_timers ?w" "u_nextTimer (hideStatus u) = u_nextTimer u"
    by (simp_all add: hideStatus_def remove_class_def clear_timer_def)
  moreover have "kinds (hideStatus u) = kinds ?w" "timer_var (hideStatus u) = timer_var u"
    by (simp_all add: hideStatus_def kinds_simps timer_var_simps)
  ultimately show ?thesis
    using page_okD [OF ok] clear_status [OF ok] by (simp add: page_ok_def status_ok_def)
qed

text \<open>The class a status message gets.\<close>

definition status_class :: "string \<Rightarrow> css" where
  "status_class ty = (if ty = ''error'' then CError else if ty = ''warning'' \<or> ty = ''warn'' then CWarn else CNormal)"

definition status_shown :: "string \<Rightarrow> 'z ui \<Rightarrow> bool" where
  "status_shown ty u \<longleftrightarrow> \<not> (COpen \<in> u_classes u EStatus \<and>
     (CError \<in> u_classes u EStatus \<or> CWarn \<in> u_classes u EStatus \<and> ty = ''normal''))"

lemma showStatus_eq:
  assumes "status_shown ty u"
  shows "u_classes (showStatus msg ty u) = (u_classes u)(EStatus :=
      insert COpen (insert (status_class ty) (u_classes u EStatus - {CError, CWarn, CNormal})))" (is ?classes)
    "u_timers (showStatus msg ty u) = u_timers (clear_timer (u_statusTimeout u) u) @
      (if ty = ''error'' then [] else [(u_nextTimer u, THideStatus)])" (is ?timers)
    "u_nextTimer (showStatus msg ty u) = (if ty = ''error'' then u_nextTimer u else Suc (u_nextTimer u))" (is ?next)
    "timer_var (showStatus msg ty u) =
      (if ty = ''error'' then timer_var u else (timer_var u)(THideStatus := Some (u_nextTimer u)))" (is ?var)
    "u_status_text (showStatus msg ty u) = msg" (is ?text)
proof -
  consider "ty = ''error''" | "ty \<noteq> ''error''" "ty = ''warning'' \<or> ty = ''warn''"
    | "ty \<noteq> ''error''" "\<not> (ty = ''warning'' \<or> ty = ''warn'')" by blast
  then have "?classes \<and> ?timers \<and> ?next \<and> ?var \<and> ?text"
  proof cases
    case 1
    then show ?thesis using assms
      by (auto simp: showStatus_def status_shown_def has_class_def status_class_def add_class_def remove_class_def
          clear_timer_def timer_var_def fun_eq_iff cong: ui_timer.case_cong)
  next
    case 2
    then show ?thesis using assms
      by (auto simp: showStatus_def status_shown_def has_class_def status_class_def add_class_def remove_class_def
          clear_timer_def start_timer_def timer_var_def fun_eq_iff split: ui_timer.split)
  next
    case 3
    then show ?thesis using assms
      by (auto simp: showStatus_def status_shown_def has_class_def status_class_def add_class_def remove_class_def
          clear_timer_def start_timer_def timer_var_def fun_eq_iff split: ui_timer.split)
  qed
  then show ?classes ?timers ?next ?var ?text by simp_all
qed

lemma showStatus_ignored: "\<not> status_shown ty u \<Longrightarrow> showStatus msg ty u = u"
  by (simp add: showStatus_def status_shown_def has_class_def)

lemma page_showStatus: "page_ok u \<Longrightarrow> page_ok (showStatus msg ty u)"
proof (cases "status_shown ty u")
  case True
  assume ok: "page_ok u"
  let ?ts = "u_timers (clear_timer (u_statusTimeout u) u)"
  note eq = showStatus_eq [OF True, of msg]
  have gone: "THideStatus \<notin> snd ` set ?ts" using clear_status(1) [OF ok] by (simp add: kinds_def)
  have "THideStatus \<in> kinds (showStatus msg ty u) \<longleftrightarrow> ty \<noteq> ''error''" using gone by (simp add: kinds_def eq(2))
  then have "status_ok (u_classes (showStatus msg ty u) EStatus) (THideStatus \<in> kinds (showStatus msg ty u))"
    unfolding eq(1) by (simp add: status_ok_def status_class_def)
  moreover have "timers_ok (u_timers (showStatus msg ty u)) (u_nextTimer (showStatus msg ty u))
      (timer_var (showStatus msg ty u))"
    unfolding eq(2,3,4)
    using clear_status(2) [OF ok] timers_start [OF clear_status(2) [OF ok] _ gone] by (simp add: tracked_def)
  ultimately show ?thesis using page_okD(1,2) [OF ok] by (simp add: page_ok_def eq(1))
qed (simp add: showStatus_ignored)

section \<open>Panels\<close>

lemma page_classes:
  assumes "page_ok u" "panels_ok (u_classes v)" "root_ok (u_classes v ERoot)" "u_classes v EStatus = u_classes u EStatus"
    "u_timers v = u_timers u" "u_nextTimer v = u_nextTimer u" "timer_var v = timer_var u"
  shows "page_ok v"
  using assms by (simp add: page_ok_def kinds_def)

definition pairs :: "(element \<times> element) set" where
  "pairs = {(ESettings, ESettingsButton), (EPower, EPowerButton), (EClipboard, EClipboardButton),
     (EModifiers, EExtraKeysButton)}"

lemma closePanel_classes:
  "u_classes (closePanel p b u) = (u_classes u)(p := u_classes u p - {COpen}, b := ((u_classes u)(p := u_classes u p - {COpen})) b - {CSelected})"
  by (simp add: closePanel_def remove_class_def)

lemma closePanel_fields:
  "u_timers (closePanel p b u) = u_timers u" "u_nextTimer (closePanel p b u) = u_nextTimer u"
  "timer_var (closePanel p b u) = timer_var u"
  by (simp_all add: closePanel_def timer_var_simps, simp_all add: remove_class_def)

lemma panels_close: "(p, b) \<in> pairs \<Longrightarrow> panels_ok (u_classes u) \<Longrightarrow> panels_ok (u_classes (closePanel p b u))"
  unfolding closePanel_classes by (auto simp: pairs_def panels_ok_def)

lemma close_others:
  "(p, b) \<in> pairs \<Longrightarrow> u_classes (closePanel p b u) EStatus = u_classes u EStatus"
  "(p, b) \<in> pairs \<Longrightarrow> u_classes (closePanel p b u) ERoot = u_classes u ERoot"
  unfolding closePanel_classes by (auto simp: pairs_def)

lemma page_closePanel: "(p, b) \<in> pairs \<Longrightarrow> page_ok u \<Longrightarrow> page_ok (closePanel p b u)"
  by (rule page_classes) (simp_all add: panels_close close_others closePanel_fields page_okD)

lemma page_closes:
  "page_ok u \<Longrightarrow> page_ok (closeSettingsPanel u)" "page_ok u \<Longrightarrow> page_ok (closePowerPanel u)"
  "page_ok u \<Longrightarrow> page_ok (closeClipboardPanel u)" "page_ok u \<Longrightarrow> page_ok (closeExtraKeys u)"
  unfolding closeSettingsPanel_def closePowerPanel_def closeClipboardPanel_def closeExtraKeys_def
  by (rule page_closePanel, simp add: pairs_def, assumption)+

lemma page_closeAll: "page_ok u \<Longrightarrow> page_ok (closeAllPanels u)"
  unfolding closeAllPanels_def by (intro page_closes)

lemma all_closed:
  "COpen \<notin> u_classes (closeAllPanels u) ESettings" "COpen \<notin> u_classes (closeAllPanels u) EPower"
  "COpen \<notin> u_classes (closeAllPanels u) EClipboard" "COpen \<notin> u_classes (closeAllPanels u) EModifiers"
  by (simp_all add: closeAllPanels_def closeSettingsPanel_def closePowerPanel_def closeClipboardPanel_def
      closeExtraKeys_def closePanel_classes)

definition none_open :: "(element \<Rightarrow> css set) \<Rightarrow> bool" where
  "none_open c \<longleftrightarrow> (\<forall>p \<in> {ESettings, EPower, EClipboard, EModifiers}. COpen \<notin> c p)"

lemma page_openPanel:
  assumes "(p, b) \<in> pairs" "page_ok u" "none_open (u_classes u)"
  shows "page_ok (openPanel p b u)"
proof (rule page_classes [OF assms(2)])
  show "panels_ok (u_classes (openPanel p b u))"
    using assms(1,3) page_okD(1) [OF assms(2)]
    by (auto simp: openPanel_def add_class_def pairs_def panels_ok_def none_open_def)
  show "root_ok (u_classes (openPanel p b u) ERoot)" "u_classes (openPanel p b u) EStatus = u_classes u EStatus"
    using assms(1) page_okD(2) [OF assms(2)] by (auto simp: openPanel_def add_class_def pairs_def)
qed (simp_all add: openPanel_def timer_var_simps, simp_all add: add_class_def)

lemma none_open_view: "page_view v = page_view u \<Longrightarrow> none_open (u_classes v) = none_open (u_classes u)"
proof -
  assume "page_view v = page_view u"
  then have "(\<lambda>e c. shown e c \<and> c \<in> u_classes v e) = (\<lambda>e c. shown e c \<and> c \<in> u_classes u e)"
    by (simp add: page_view_def)
  from fun_cong [OF fun_cong [OF this]] have "shown e c \<and> c \<in> u_classes v e \<longleftrightarrow> shown e c \<and> c \<in> u_classes u e" for e c .
  from this [of ESettings COpen] this [of EPower COpen] this [of EClipboard COpen] this [of EModifiers COpen]
  show ?thesis by (simp add: none_open_def)
qed

lemma page_open_cleared:
  assumes "(p, b) \<in> pairs" "page_ok u" "page_view v = page_view (closeAllPanels u)"
  shows "page_ok (openPanel p b v)"
  using assms page_closeAll [OF assms(2)] page_ok_view [OF assms(3)] none_open_view [OF assms(3)] all_closed [of u]
  by (intro page_openPanel) (simp_all add: none_open_def)

lemma view_fold: "page_view (fold (updateSetting E) ns u) = page_view u"
  by (induction ns arbitrary: u) (simp_all add: view_settings)

lemma page_toggles:
  "page_ok u \<Longrightarrow> page_ok (toggleSettingsPanel E u)" "page_ok u \<Longrightarrow> page_ok (togglePowerPanel u)"
  "page_ok u \<Longrightarrow> page_ok (toggleClipboardPanel u)" "page_ok u \<Longrightarrow> page_ok (toggleExtraKeys u)"
proof -
  assume ok: "page_ok u"
  note opened = page_open_cleared [OF _ ok, unfolded pairs_def]
  show "page_ok (toggleSettingsPanel E u)" "page_ok (togglePowerPanel u)" "page_ok (toggleClipboardPanel u)"
    "page_ok (toggleExtraKeys u)"
    using ok
    by (auto simp: toggleSettingsPanel_def togglePowerPanel_def toggleClipboardPanel_def toggleExtraKeys_def
        openSettingsPanel_def openPowerPanel_def openClipboardPanel_def openExtraKeys_def view_fold view_bar
        intro!: page_closes opened simp del: fold_Cons)
qed

section \<open>The state shown\<close>

lemma page_show_visual: "page_ok u \<Longrightarrow> page_ok (show_visual E v u)"
proof (rule page_classes)
  assume ok: "page_ok u"
  let ?c = "u_classes u"
  have eq: "u_classes (show_visual E v u) = ?c(ERoot := (?c ERoot - {CConnecting, CConnected, CDisconnecting, CReconnecting}) \<union>
      (case visual_class v of None \<Rightarrow> {} | Some c \<Rightarrow> {c}))"
    by (cases v) (auto simp: show_visual_def remove_class_def add_class_def Let_def fun_eq_iff)
  show "panels_ok (u_classes (show_visual E v u))" "u_classes (show_visual E v u) EStatus = ?c EStatus"
    using page_okD(1) [OF ok] by (simp_all add: eq)
  show "root_ok (u_classes (show_visual E v u) ERoot)" unfolding eq by (cases v) (simp_all add: root_ok_def)
  show "u_timers (show_visual E v u) = u_timers u" "u_nextTimer (show_visual E v u) = u_nextTimer u"
    "timer_var (show_visual E v u) = timer_var u"
    by (cases v; auto simp: show_visual_def remove_class_def add_class_def Let_def timer_var_def fun_eq_iff
        cong: ui_timer.case_cong)+
qed

end
