(* ===== verification/Ui_Session.thy ===== *)
theory Ui_Session
  imports Ui_Invariant
begin

text \<open>
  The page and its client. Most handlers are soft: they keep what the page shows in order, and of the session
  they change nothing but what the client does by its own operations, which move it along the automaton of a
  connection and add events. The few others are treated one by one.
\<close>

section \<open>Soft changes\<close>

definition client_moved :: "'z rfb option \<Rightarrow> 'z rfb option \<Rightarrow> bool" where
  "client_moved a b \<longleftrightarrow>
     (case (a, b) of
        (None, None) \<Rightarrow> True
      | (Some r, Some r') \<Rightarrow> link_step\<^sup>*\<^sup>* (link_of r) (link_of r') \<and> grown r r'
      | _ \<Rightarrow> False)"

definition labels_of :: "'z ui \<Rightarrow> string \<Rightarrow> nat option" where
  "labels_of u n = c_label (u_ctrls u n)"

definition soft :: "'z ui \<Rightarrow> 'z ui \<Rightarrow> bool" where
  "soft u u' \<longleftrightarrow> (page_ok u \<longrightarrow> page_ok u') \<and> labels_of u' = labels_of u \<and> u_connected u' = u_connected u \<and>
     u_inhibitReconnect u' = u_inhibitReconnect u \<and> u_heard u' = u_heard u \<and> client_moved (u_rfb u) (u_rfb u') \<and>
     kinds u' \<inter> {TClose, TReconnect} \<subseteq> kinds u \<and>
     (COpen \<in> u_classes u' EConnectDlg \<longleftrightarrow> COpen \<in> u_classes u EConnectDlg) \<and>
     (CReconnecting \<in> u_classes u' ERoot \<longleftrightarrow> CReconnecting \<in> u_classes u ERoot)"

lemma client_moved_refl [simp]: "client_moved a a"
  by (simp add: client_moved_def grown_same split: option.split)

lemma client_moved_trans: "client_moved a b \<Longrightarrow> client_moved b c \<Longrightarrow> client_moved a c"
  by (auto simp: client_moved_def split: option.splits intro: grown_trans)

lemma soft_refl [simp]: "soft u u"
  by (simp add: soft_def)

lemma soft_trans: "soft u v \<Longrightarrow> soft v w \<Longrightarrow> soft u w"
  unfolding soft_def by (auto intro: client_moved_trans)

text \<open>A change that leaves all of it alone.\<close>

lemma soft_same:
  assumes "page_view u' = page_view u" "labels_of u' = labels_of u" "u_connected u' = u_connected u"
    "u_inhibitReconnect u' = u_inhibitReconnect u" "u_heard u' = u_heard u" "client_moved (u_rfb u) (u_rfb u')"
    "u_classes u' EConnectDlg = u_classes u EConnectDlg"
  shows "soft u u'"
proof -
  have "(\<lambda>e c. shown e c \<and> c \<in> u_classes u' e) = (\<lambda>e c. shown e c \<and> c \<in> u_classes u e)" "kinds u' = kinds u"
    using assms(1) by (simp_all add: page_view_def kinds_def)
  from fun_cong [OF fun_cong [OF this(1)], of ERoot CReconnecting] this(2) show ?thesis
    using assms(2-) page_ok_view [OF assms(1)] by (simp add: soft_def)
qed

definition soft_update :: "('z ui \<Rightarrow> 'z ui) \<Rightarrow> bool" where
  "soft_update f \<longleftrightarrow> (\<forall>u. soft u (f u))"

definition soft_command :: "'z ui command \<Rightarrow> bool" where
  "soft_command c \<longleftrightarrow> (\<forall>u. soft u (snd (c u)))"

lemma soft_updateD: "soft_update f \<Longrightarrow> soft u (f u)"
  by (simp add: soft_update_def)

lemma soft_commandD: "soft_command c \<Longrightarrow> soft u (snd (c u))"
  by (simp add: soft_command_def)

lemma soft_upd: "soft_update f \<Longrightarrow> soft_command (upd f)"
  by (simp add: soft_update_def soft_command_def upd_def)

lemma soft_comp: "soft_update f \<Longrightarrow> soft_update g \<Longrightarrow> soft_update (\<lambda>u. f (g u))"
  unfolding soft_update_def using soft_trans by blast

lemma soft_keeps: "soft_command c \<longleftrightarrow> (\<forall>v. keeps (soft v) c)"
  unfolding soft_command_def keeps_def using soft_trans soft_refl by blast

lemma soft_block: "(\<And>c. c \<in> set cs \<Longrightarrow> soft_command c) \<Longrightarrow> soft_command (block cs)"
  unfolding soft_keeps using keeps_block by metis

lemma soft_listeners: "(\<And>c. c \<in> set cs \<Longrightarrow> soft_command c) \<Longrightarrow> soft_command (listeners cs)"
  unfolding soft_keeps using keeps_listeners by metis

lemma soft_forms:
  "soft_command c \<Longrightarrow> soft_command d \<Longrightarrow> soft_command (cond b c d)" "soft_command c \<Longrightarrow> soft_command (guard b c)"
  "(\<And>a. soft_command (k a)) \<Longrightarrow> soft_command (read f k)" "soft_command (throw e)"
  "soft_command c \<Longrightarrow> soft_command d \<Longrightarrow> soft_command (if x then c else d)"
  by (simp_all add: soft_command_def cond_def guard_def read_def throw_def)

section \<open>Soft updates\<close>

lemma labels_frame:
  "(\<And>c. c_label (f c) = c_label c) \<Longrightarrow> labels_of (set_ctrl n f u) = labels_of u"
  "labels_of (add_class e c u) = labels_of u" "labels_of (remove_class e c u) = labels_of u"
  by (auto simp: labels_of_def set_ctrl_def add_class_def remove_class_def fun_eq_iff)

lemma dlg_frame:
  "e \<noteq> EConnectDlg \<Longrightarrow> u_classes (add_class e c u) EConnectDlg = u_classes u EConnectDlg"
  "e \<noteq> EConnectDlg \<Longrightarrow> u_classes (remove_class e c u) EConnectDlg = u_classes u EConnectDlg"
  by (simp_all add: add_class_def remove_class_def)

lemma session_classes:
  "u_connected (add_class e c u) = u_connected u" "u_connected (remove_class e c u) = u_connected u"
  "u_inhibitReconnect (add_class e c u) = u_inhibitReconnect u"
  "u_inhibitReconnect (remove_class e c u) = u_inhibitReconnect u"
  "u_heard (add_class e c u) = u_heard u" "u_heard (remove_class e c u) = u_heard u"
  "u_rfb (add_class e c u) = u_rfb u" "u_rfb (remove_class e c u) = u_rfb u"
  by (simp_all add: add_class_def remove_class_def)

lemma soft_class:
  assumes "\<not> shown e c" "e \<noteq> EConnectDlg"
  shows "soft_update (add_class e c)" "soft_update (remove_class e c)" "soft_update (set_class b e c)"
  using assms
  by (auto simp: soft_update_def set_class_def intro!: soft_same
      simp: view_classes labels_frame dlg_frame session_classes)

lemma soft_step: "soft_update f \<Longrightarrow> soft u v \<Longrightarrow> soft u (f v)"
  unfolding soft_update_def using soft_trans by blast

lemma soft_classes:
  "soft u v \<Longrightarrow> \<not> shown e c \<Longrightarrow> e \<noteq> EConnectDlg \<Longrightarrow> soft u (add_class e c v)"
  "soft u v \<Longrightarrow> \<not> shown e c \<Longrightarrow> e \<noteq> EConnectDlg \<Longrightarrow> soft u (remove_class e c v)"
  "soft u v \<Longrightarrow> \<not> shown e c \<Longrightarrow> e \<noteq> EConnectDlg \<Longrightarrow> soft u (set_class b e c v)"
  using soft_class soft_step by blast+

lemma soft_fields:
  "soft u v \<Longrightarrow> soft u (v\<lparr>u_desktopName := x0\<rparr>)"
  "soft u v \<Longrightarrow> soft u (v\<lparr>u_controlbarGrabbed := x1\<rparr>)"
  "soft u v \<Longrightarrow> soft u (v\<lparr>u_controlbarDrag := x2\<rparr>)"
  "soft u v \<Longrightarrow> soft u (v\<lparr>u_controlbarMouseDownClientY := x3\<rparr>)"
  "soft u v \<Longrightarrow> soft u (v\<lparr>u_controlbarMouseDownOffsetY := x4\<rparr>)"
  "soft u v \<Longrightarrow> soft u (v\<lparr>u_lastKeyboardinput := x5\<rparr>)"
  "soft u v \<Longrightarrow> soft u (v\<lparr>u_reconnectPassword := x6\<rparr>)"
  "soft u v \<Longrightarrow> soft u (v\<lparr>u_url := x7\<rparr>)"
  "soft u v \<Longrightarrow> soft u (v\<lparr>u_web := x8\<rparr>)"
  "soft u v \<Longrightarrow> soft u (v\<lparr>u_active := x9\<rparr>)"
  "soft u v \<Longrightarrow> soft u (v\<lparr>u_status_text := x10\<rparr>)"
  "soft u v \<Longrightarrow> soft u (v\<lparr>u_transition_text := x11\<rparr>)"
  "soft u v \<Longrightarrow> soft u (v\<lparr>u_title := x12\<rparr>)"
  "soft u v \<Longrightarrow> soft u (v\<lparr>u_fingerprint := x13\<rparr>)"
  "soft u v \<Longrightarrow> soft u (v\<lparr>u_digests := x14\<rparr>)"
  "soft u v \<Longrightarrow> soft u (v\<lparr>u_clipboard_text := x15\<rparr>)"
  "soft u v \<Longrightarrow> soft u (v\<lparr>u_username_input := x16\<rparr>)"
  "soft u v \<Longrightarrow> soft u (v\<lparr>u_password_input := x17\<rparr>)"
  "soft u v \<Longrightarrow> soft u (v\<lparr>u_keyboardinput := x18\<rparr>)"
  "soft u v \<Longrightarrow> soft u (v\<lparr>u_handle_y := x19\<rparr>)"
  "soft u v \<Longrightarrow> soft u (v\<lparr>u_transition0 := x20\<rparr>)"
  "soft u v \<Longrightarrow> soft u (v\<lparr>u_viewDrag_disabled := x21\<rparr>)"
  "soft u v \<Longrightarrow> soft u (v\<lparr>u_fullscreen := x22\<rparr>)"
  "soft u v \<Longrightarrow> soft u (v\<lparr>u_fullscreenRequest := x23\<rparr>)"
  "soft u v \<Longrightarrow> soft u (v\<lparr>u_bells := x24\<rparr>)"
  "soft u v \<Longrightarrow> soft u (v\<lparr>u_logging := x25\<rparr>)"
  by (erule soft_trans, rule soft_same; simp add: view_fields labels_of_def fun_eq_iff)+

lemma soft_ctrl:
  assumes "soft u v" "\<And>c. c_label (f c) = c_label c"
  shows "soft u (set_ctrl n f v)"
proof (rule soft_trans [OF assms(1)], rule soft_same)
  show "labels_of (set_ctrl n f v) = labels_of v" using assms(2) by (rule labels_frame)
qed (simp_all add: view_settings, simp_all add: set_ctrl_def)

lemma soft_ifs:
  "(b \<Longrightarrow> soft u v) \<Longrightarrow> (\<not> b \<Longrightarrow> soft u w) \<Longrightarrow> soft u (if b then v else w)"
  "soft u v \<Longrightarrow> (\<And>w. soft u w \<Longrightarrow> soft u (g w)) \<Longrightarrow> soft u (let w = v in g w)"
  by simp_all

lemma soft_timers:
  "soft u v \<Longrightarrow> soft u (activateControlbar v)" "soft u v \<Longrightarrow> soft u (keepControlbar v)"
  "soft u v \<Longrightarrow> soft u (showStatus msg ty v)" "soft u v \<Longrightarrow> soft u (hideStatus v)"
  "soft u v \<Longrightarrow> t \<notin> tracked \<Longrightarrow> soft u (start_timer t v)"
proof -
  have "soft v (activateControlbar v)"
    by (auto simp: soft_def page_activate, auto simp: activateControlbar_def labels_of_def remove_class_def
        clear_timer_def start_timer_def kinds_def Let_def fun_eq_iff)
  then show "soft u v \<Longrightarrow> soft u (activateControlbar v)" by (rule soft_trans [rotated])
  have "soft v (keepControlbar v)"
    by (auto simp: soft_def page_keep, auto simp: keepControlbar_def labels_of_def clear_timer_def kinds_def)
  then show "soft u v \<Longrightarrow> soft u (keepControlbar v)" by (rule soft_trans [rotated])
  have "soft v (hideStatus v)"
    by (auto simp: soft_def page_hideStatus, auto simp: hideStatus_def labels_of_def remove_class_def clear_timer_def
        kinds_def fun_eq_iff)
  then show "soft u v \<Longrightarrow> soft u (hideStatus v)" by (rule soft_trans [rotated])
  have "soft v (showStatus msg ty v)"
  proof (cases "status_shown ty v")
    case True
    have "kinds (showStatus msg ty v) \<inter> {TClose, TReconnect} \<subseteq> kinds v"
      by (auto simp: kinds_def showStatus_eq [OF True] clear_timer_def split: if_splits)
    moreover have "labels_of (showStatus msg ty v) = labels_of v" "u_connected (showStatus msg ty v) = u_connected v"
      "u_inhibitReconnect (showStatus msg ty v) = u_inhibitReconnect v" "u_heard (showStatus msg ty v) = u_heard v"
      "u_rfb (showStatus msg ty v) = u_rfb v"
      by (simp_all add: showStatus_def labels_of_def add_class_def remove_class_def clear_timer_def start_timer_def
          Let_def fun_eq_iff)
    ultimately show ?thesis by (simp add: soft_def page_showStatus showStatus_eq [OF True])
  qed (simp add: showStatus_ignored)
  then show "soft u v \<Longrightarrow> soft u (showStatus msg ty v)" by (rule soft_trans [rotated])
  have "soft v (start_timer t v)" if "t \<notin> tracked"
    using that by (auto simp: soft_def page_start_other, auto simp: start_timer_def labels_of_def kinds_def tracked_def)
  then show "soft u v \<Longrightarrow> t \<notin> tracked \<Longrightarrow> soft u (start_timer t v)" using soft_trans by blast
qed

lemma soft_page:
  assumes "page_ok v \<longrightarrow> page_ok w" "u_ctrls w = u_ctrls v" "u_connected w = u_connected v" "u_heard w = u_heard v"
    "u_inhibitReconnect w = u_inhibitReconnect v" "u_rfb w = u_rfb v" "u_timers w = u_timers v"
    "u_classes w EConnectDlg = u_classes v EConnectDlg" "u_classes w ERoot = u_classes v ERoot"
  shows "soft v w"
  using assms by (simp add: soft_def labels_of_def kinds_def fun_eq_iff)

lemma soft_closes:
  "soft u v \<Longrightarrow> soft u (closeSettingsPanel v)" "soft u v \<Longrightarrow> soft u (closePowerPanel v)"
  "soft u v \<Longrightarrow> soft u (closeClipboardPanel v)" "soft u v \<Longrightarrow> soft u (closeExtraKeys v)"
proof -
  have "soft v (closePanel p b v)" if "(p, b) \<in> pairs" for p b
    by (rule soft_page) (use that in \<open>auto simp: page_closePanel close_others closePanel_fields, auto simp: pairs_def closePanel_def remove_class_def\<close>)
  then have "soft v (closeSettingsPanel v)" "soft v (closePowerPanel v)" "soft v (closeClipboardPanel v)"
    "soft v (closeExtraKeys v)"
    by (simp_all add: closeSettingsPanel_def closePowerPanel_def closeClipboardPanel_def closeExtraKeys_def pairs_def)
  then show "soft u v \<Longrightarrow> soft u (closeSettingsPanel v)" "soft u v \<Longrightarrow> soft u (closePowerPanel v)"
    "soft u v \<Longrightarrow> soft u (closeClipboardPanel v)" "soft u v \<Longrightarrow> soft u (closeExtraKeys v)"
    using soft_trans by blast+
qed

lemma soft_closeAll: "soft u v \<Longrightarrow> soft u (closeAllPanels v)"
  unfolding closeAllPanels_def by (intro soft_closes)

lemma soft_web: "soft u v \<Longrightarrow> soft u (put_setting n val v)" "soft u v \<Longrightarrow> soft u (snd (getSetting E n v))"
  by (simp_all add: put_setting_def getSetting_def soft_fields Let_def split: prod.split)

lemma soft_updateSetting: "soft u v \<Longrightarrow> soft u (updateSetting E n v)"
proof -
  assume "soft u v"
  obtain val w where w: "getSetting E n v = (val, w)" by force
  then have "soft u w" using soft_web(2) [OF \<open>soft u v\<close>, of E n] by simp
  then show ?thesis
    by (auto simp: updateSetting_def w Let_def intro!: soft_ctrl split: control_kind.split option.split)
qed

lemma soft_fold: "soft u v \<Longrightarrow> soft u (fold (updateSetting E) ns v)"
  by (induction ns arbitrary: v) (simp_all add: soft_updateSetting)

lemma soft_addOption: "soft u v \<Longrightarrow> soft u (addOption n w v)"
  unfolding addOption_def by (rule soft_ctrl) simp_all

lemma fold_fields:
  "u_connected (fold (updateSetting E) ns v) = u_connected v" "u_rfb (fold (updateSetting E) ns v) = u_rfb v"
  "u_heard (fold (updateSetting E) ns v) = u_heard v" "u_timers (fold (updateSetting E) ns v) = u_timers v"
  "u_inhibitReconnect (fold (updateSetting E) ns v) = u_inhibitReconnect v"
  "u_classes (fold (updateSetting E) ns v) = u_classes v"
  by (induction ns arbitrary: v)
    (auto simp: updateSetting_def getSetting_def set_ctrl_def Let_def split: prod.split control_kind.split option.split)

lemma soft_opened:
  assumes "(p, b) \<in> pairs" "page_view w = page_view (closeAllPanels v)" "soft v w"
  shows "soft v (openPanel p b w)"
proof -
  have "page_ok v \<longrightarrow> page_ok (openPanel p b w)" using page_open_cleared [OF assms(1) _ assms(2)] by blast
  moreover have "labels_of (openPanel p b w) = labels_of w" "u_connected (openPanel p b w) = u_connected w"
    "u_inhibitReconnect (openPanel p b w) = u_inhibitReconnect w" "u_heard (openPanel p b w) = u_heard w"
    "u_rfb (openPanel p b w) = u_rfb w" "kinds (openPanel p b w) = kinds w"
    by (simp_all add: openPanel_def labels_frame session_classes kinds_simps)
  moreover have "u_classes (openPanel p b w) EConnectDlg = u_classes w EConnectDlg"
    "u_classes (openPanel p b w) ERoot = u_classes w ERoot"
    using assms(1) by (auto simp: openPanel_def add_class_def pairs_def)
  ultimately show ?thesis using assms(3) by (simp add: soft_def)
qed

lemma soft_openControlbar: "soft u v \<Longrightarrow> soft u (openControlbar v)"
  unfolding openControlbar_def by (intro soft_classes) simp_all

lemma soft_toggles:
  "soft u v \<Longrightarrow> soft u (toggleSettingsPanel E v)" "soft u v \<Longrightarrow> soft u (togglePowerPanel v)"
  "soft u v \<Longrightarrow> soft u (toggleClipboardPanel v)" "soft u v \<Longrightarrow> soft u (toggleExtraKeys v)"
proof -
  have "soft v (openSettingsPanel E v)" unfolding openSettingsPanel_def
    by (rule soft_opened) (simp_all add: pairs_def view_fold view_bar soft_fold soft_openControlbar soft_closeAll
        del: fold_Cons)
  then show "soft u v \<Longrightarrow> soft u (toggleSettingsPanel E v)"
    by (auto simp: toggleSettingsPanel_def soft_closes intro: soft_trans)
  have "soft v (openPowerPanel v)" unfolding openPowerPanel_def
    by (rule soft_opened) (simp_all add: pairs_def view_bar soft_openControlbar soft_closeAll)
  then show "soft u v \<Longrightarrow> soft u (togglePowerPanel v)"
    by (auto simp: togglePowerPanel_def soft_closes intro: soft_trans)
  have "soft v (openClipboardPanel v)" unfolding openClipboardPanel_def
    by (rule soft_opened) (simp_all add: pairs_def view_bar soft_openControlbar soft_closeAll)
  then show "soft u v \<Longrightarrow> soft u (toggleClipboardPanel v)"
    by (auto simp: toggleClipboardPanel_def soft_closes intro: soft_trans)
  have "soft v (openExtraKeys v)" unfolding openExtraKeys_def
    by (rule soft_opened) (simp_all add: pairs_def view_bar soft_openControlbar soft_closeAll)
  then show "soft u v \<Longrightarrow> soft u (toggleExtraKeys v)"
    by (auto simp: toggleExtraKeys_def soft_closes intro: soft_trans)
qed

lemma moved_focusOnClick: "client_moved (u_rfb v) (u_rfb (set_focusOnClick b v))"
  by (auto simp: set_focusOnClick_def client_moved_def grown_same split: option.split)

lemma soft_focusOnClick: "soft u v \<Longrightarrow> soft u (set_focusOnClick b v)"
  by (erule soft_trans, rule soft_same)
    (simp_all add: view_focusOnClick moved_focusOnClick, simp_all add: set_focusOnClick_def labels_of_def fun_eq_iff
      split: option.split)

lemma soft_focus: "soft u v \<Longrightarrow> soft u (move_focus f v)"
  unfolding move_focus_def onfocusVirtualKeyboard_def onblurVirtualKeyboard_def
  by (intro soft_ifs soft_focusOnClick soft_classes soft_fields) simp_all

lemma soft_bar:
  "soft u v \<Longrightarrow> soft u (showControlbarHint d a v)" "soft u v \<Longrightarrow> soft u (moveControlbarHandle E y v)"
  "soft u v \<Longrightarrow> soft u (toggleExpander i v)" "soft u v \<Longrightarrow> soft u (idleControlbar E v)"
  unfolding showControlbarHint_def moveControlbarHandle_def toggleExpander_def idleControlbar_def
  by (simp_all add: Let_def soft_classes soft_fields soft_timers)

lemma soft_side: "soft u v \<Longrightarrow> soft u (toggleControlbarSide E v)"
  unfolding toggleControlbarSide_def by (simp add: Let_def soft_classes soft_fields soft_bar)

lemma soft_handle:
  "soft u v \<Longrightarrow> soft u (dragControlbarHandle E x y v)" "soft u v \<Longrightarrow> soft u (controlbarHandleMouseDown E b y v)"
  "soft u v \<Longrightarrow> soft u (updateControlbarHandle E v)"
  unfolding dragControlbarHandle_def controlbarHandleMouseDown_def updateControlbarHandle_def
  by (simp_all add: Let_def soft_fields soft_bar soft_side soft_timers)

lemma soft_misc:
  "soft u v \<Longrightarrow> soft u (digest_done E v)" "soft u v \<Longrightarrow> soft u (serverVerify k v)"
  "soft u v \<Longrightarrow> soft u (updateFullscreenButton v)" "soft u v \<Longrightarrow> soft u (initFullscreen E v)"
  "soft u v \<Longrightarrow> soft u (clipboardReceive t v)" "soft u v \<Longrightarrow> soft u (updateDesktopName t v)"
  "soft u v \<Longrightarrow> soft u (keyboardinputReset v)" "soft u v \<Longrightarrow> soft u (securityFailed E reason v)"
  unfolding digest_done_def serverVerify_def updateFullscreenButton_def initFullscreen_def clipboardReceive_def
    updateDesktopName_def keyboardinputReset_def securityFailed_def
  by (simp_all add: Let_def soft_classes soft_fields soft_timers split: list.split)

lemma soft_keyboard:
  "soft u v \<Longrightarrow> soft u (toggleVirtualKeyboard E v)" "soft u v \<Longrightarrow> soft u (toggleFullscreen v)"
  "soft u v \<Longrightarrow> soft u (ask_credentials E types v)"
  unfolding toggleVirtualKeyboard_def showVirtualKeyboard_def hideVirtualKeyboard_def toggleFullscreen_def
    ask_credentials_def
  by (simp_all add: Let_def soft_focus soft_misc soft_fields soft_classes soft_timers tracked_def)

lemmas soft_intros = soft_classes soft_fields soft_ctrl soft_timers soft_closes soft_closeAll soft_web
  soft_updateSetting soft_addOption soft_openControlbar soft_toggles soft_focus soft_bar soft_side soft_handle
  soft_misc soft_keyboard

lemma soft_updateI: "(\<And>u. soft u u \<Longrightarrow> soft u (f u)) \<Longrightarrow> soft_update f"
  by (simp add: soft_update_def)

section \<open>Soft commands\<close>

lemma soft_updI: "(\<And>u. soft u u \<Longrightarrow> soft u (f u)) \<Longrightarrow> soft_command (upd f)"
  by (simp add: soft_command_def upd_def)

lemma soft_nil: "soft_command (block [])"
  by (simp add: soft_command_def)

lemma soft_cons: "soft_command c \<Longrightarrow> soft_command (block cs) \<Longrightarrow> soft_command (block (c # cs))"
proof -
  assume c: "soft_command c" "soft_command (block cs)"
  have "soft u (snd (block (c # cs) u))" for u
    using soft_commandD [OF c(1), of u] soft_trans [OF soft_commandD [OF c(1)] soft_commandD [OF c(2)], of u]
    by (cases "c u"; cases "fst (c u)") auto
  then show ?thesis by (simp add: soft_command_def)
qed

lemma soft_with_setting: "(\<And>v. soft_command (k v)) \<Longrightarrow> soft_command (with_setting E n k)"
  unfolding soft_command_def with_setting_def
proof
  fix u
  assume k: "\<And>v. \<forall>u. soft u (snd (k v u))"
  obtain val w where w: "getSetting E n u = (val, w)" by force
  then have "soft u w" using soft_web(2) [of u u E n] by simp
  moreover have "soft w (snd (k val w))" using k by blast
  ultimately show "soft u (snd (case getSetting E n u of (val, x) \<Rightarrow> k val x))" using soft_trans by (simp add: w) blast
qed

lemma soft_with_config: "(\<And>v. soft_command (k v)) \<Longrightarrow> soft_command (with_config E n d k)"
  by (simp add: soft_command_def with_config_def split: outcome.split)

lemma soft_on_rfb:
  assumes "\<And>r. link_step\<^sup>*\<^sup>* (link_of r) (link_of (f r))" "\<And>r. grown r (f r)"
  shows "soft_command (on_rfb f)"
  unfolding soft_command_def
proof
  fix u
  show "soft u (snd (on_rfb f u))"
  proof (cases "u_rfb u")
    case (Some r)
    have "soft u (u\<lparr>u_rfb := Some (f r)\<rparr>)"
      by (rule soft_same) (simp_all add: view_fields client_moved_def Some assms labels_of_def fun_eq_iff)
    then show ?thesis by (simp add: on_rfb_def Some)
  qed (simp add: on_rfb_def)
qed

lemma step_moves: "link_step\<^sup>*\<^sup>* (link_of r) (link_of (rfb_step W a r))"
  by (rule link.rfb_step_keeps) simp

lemma soft_client: "soft_command (client E a)"
  unfolding client_def by (rule soft_on_rfb) (simp_all add: step_moves rfb_step_grown)

lemma soft_rfb_focus: "soft_command rfb_focus"
  unfolding rfb_focus_def canvas_focus_def
  by (intro soft_cons soft_nil soft_on_rfb soft_updI soft_focus) (simp_all add: grown_same)

lemma soft_labels: "soft_command (disableSetting n)" "soft_command (enableSetting n)"
  unfolding soft_command_def disableSetting_def enableSetting_def
  by (auto simp: Let_def soft_ctrl soft_classes split: option.split)

lemmas soft_rules = soft_cons soft_nil soft_forms soft_with_setting soft_with_config soft_client soft_rfb_focus
  soft_labels soft_updI

lemma soft_force: "soft_command (forceSetting E n v)"
  unfolding forceSetting_def by (intro soft_rules soft_intros)

lemma soft_logging: "soft_command (updateLogging E)"
  unfolding updateLogging_def by (intro soft_rules soft_intros)

lemma soft_save: "soft_command (saveSetting n)"
  unfolding soft_command_def saveSetting_def
  by (auto simp: Let_def soft_fields split: control_kind.split option.split)

lemma soft_initSetting: "soft_command (initSetting E n d)"
  unfolding initSetting_def
proof (rule soft_with_config)
  show "soft_command (\<lambda>u. let (val, u) = (case v of Some t \<Rightarrow> (JStr t, u)
      | None \<Rightarrow> case readSetting n (Some d) (u_web u) of (val, w) \<Rightarrow> (val, u\<lparr>u_web := w\<rparr>))
    in (Ret (), updateSetting E n (put_setting n val u)))" for v
    by (simp add: soft_command_def soft_updateSetting soft_web soft_fields split: option.split prod.split)
qed

lemma soft_option: "soft_command a \<Longrightarrow> (\<And>x. soft_command (b x)) \<Longrightarrow> soft_command (case o1 of None \<Rightarrow> a | Some x \<Rightarrow> b x)"
  by (cases o1) simp_all

lemma soft_viewDrag: "soft_command (updateViewDrag E)"
  unfolding updateViewDrag_def by (intro soft_rules soft_option soft_intros) simp_all

lemma soft_toggleViewDrag: "soft_command (toggleViewDrag E)"
  unfolding toggleViewDrag_def by (intro soft_rules soft_option soft_viewDrag)

lemma soft_viewClip: "soft_command (updateViewClip E)"
  unfolding updateViewClip_def by (intro soft_rules soft_force soft_viewDrag)

lemma soft_views:
  "soft_command (applyResizeMode E)" "soft_command (updateQuality E)" "soft_command (updateCompression E)"
  "soft_command (updateShowDotCursor E)"
  unfolding applyResizeMode_def updateQuality_def updateCompression_def updateShowDotCursor_def
  by (intro soft_rules soft_option)+

lemma soft_viewOnly: "soft_command (updateViewOnly E)"
  unfolding updateViewOnly_def by (intro soft_rules soft_intros) simp_all

lemma soft_power: "soft_command updatePowerButton"
  unfolding updatePowerButton_def
proof (intro soft_forms)
  have s: "soft_command (block [upd (add_class EPowerButton CHidden), upd closePowerPanel])"
    "soft_command (upd (remove_class EPowerButton CHidden))"
    by (intro soft_rules soft_intros; simp)+
  show "soft_command (case a of (con, rfb) \<Rightarrow> case (con, rfb) of
       (True, None) \<Rightarrow> throw TypeError
     | (True, Some r) \<Rightarrow>
         if power (feat r) \<and> \<not> viewOnly (sets r) then upd (remove_class EPowerButton CHidden)
         else block [upd (add_class EPowerButton CHidden), upd closePowerPanel]
     | (False, _) \<Rightarrow> block [upd (add_class EPowerButton CHidden), upd closePowerPanel])" for a :: "bool \<times> 'a rfb option"
    using s soft_forms(4) by (cases a; cases "fst a"; cases "snd a") auto
qed

lemma soft_bars:
  "soft_command closeControlbar" "soft_command toggleControlbar" "soft_command (controlbarHandleMouseUp b)"
  unfolding controlbarHandleMouseUp_def toggleControlbar_def closeControlbar_def
  by (intro soft_rules soft_intros; simp)+

lemma soft_apply: "soft_command (apply_settings E)"
  unfolding apply_settings_def by (intro soft_rules soft_option soft_viewOnly)

lemma soft_keys:
  "soft_command (ui_sendKey E k c d)" "soft_command (ui_keyEvent E k c d)" "soft_command (ui_sendCtrlAltDel E)"
  "soft_command (clipboardSend E)" "soft_command (bell E)" "soft_command ui_approveServer" "soft_command (setCredentials E)"
  unfolding ui_sendKey_def ui_keyEvent_def ui_sendCtrlAltDel_def clipboardSend_def bell_def ui_approveServer_def
    setCredentials_def
  by (intro soft_rules soft_on_rfb soft_intros; simp add: grown_same)+

lemma soft_extra:
  "soft_command (sendEsc E)" "soft_command (sendTab E)" "soft_command (toggleCtrl E)" "soft_command (toggleWindows E)"
  "soft_command (toggleAlt E)"
  unfolding sendEsc_def sendTab_def toggleCtrl_def toggleWindows_def toggleAlt_def toggleKey_def
  by (intro soft_rules soft_keys soft_intros; simp)+

lemma soft_keyInput: "soft_command (keyInput E n)"
proof -
  have keys: "soft_command (block (map (client E) as))" for as by (rule soft_block) (auto simp: soft_client)
  have "soft_command (upd (\<lambda>u. if u_active u = FKeyboardInput then move_focus FNone u else u))"
    by (rule soft_updI) (simp add: soft_focus)
  moreover have "soft_command (upd keyboardinputReset)" "soft_command (upd (start_timer TFocusInput))"
    "soft_command (upd (\<lambda>u. u\<lparr>u_lastKeyboardinput := x\<rparr>))" for x
    by (rule soft_updI, simp add: soft_misc soft_fields soft_timers tracked_def)+
  ultimately show ?thesis unfolding keyInput_def Let_def by (intro soft_cons soft_nil soft_forms keys)
qed

lemma all_if: "list_all P xs \<Longrightarrow> list_all P ys \<Longrightarrow> list_all P (if b then xs else ys)"
  by simp

lemma soft_handlers: "list_all soft_command (setting_handlers E n)"
  unfolding setting_handlers_def list.pred_inject
  by (intro conjI all_if) (simp_all add: soft_save soft_views soft_viewClip soft_viewOnly soft_logging)

lemma soft_changed: "soft_command (listeners (setting_handlers E n))"
  using soft_handlers [of E n] by (intro soft_listeners) (simp add: list_all_iff)

end
