(* ===== verification/Ui_Life.thy ===== *)
theory Ui_Life
  imports Ui_Session
begin

text \<open>
  The life of the page: everything that may happen to it keeps it consistent with its client, and a
  disconnection by the user is final.
\<close>

section \<open>Sessions\<close>

definition client_ok :: "'z ui \<Rightarrow> bool" where
  "client_ok u \<longleftrightarrow>
     (case u_rfb u of
        None \<Rightarrow> \<not> u_connected u
      | Some r \<Rightarrow> link_ok (rfbConnectionState r) (life r) \<and> u_heard u \<le> length (events r) \<and>
          (\<forall>c. EvDisconnect c \<notin> set (take (u_heard u) (events r))) \<and>
          (u_connected u \<longrightarrow> EvConnect \<in> set (take (u_heard u) (events r))))"

definition labelled :: "'z ui \<Rightarrow> bool" where
  "labelled u \<longleftrightarrow> (\<forall>n \<in> set connection_settings. labels_of u n \<noteq> None)"

text \<open>With a client the connect dialog is closed, nothing is shown as reconnecting and no reconnection is due.
  A reconnection is due only while the connect dialog is closed.\<close>

definition session_ok :: "'z ui \<Rightarrow> bool" where
  "session_ok u \<longleftrightarrow> page_ok u \<and> labelled u \<and> client_ok u \<and>
     (u_rfb u \<noteq> None \<longrightarrow> COpen \<notin> u_classes u EConnectDlg \<and> CReconnecting \<notin> u_classes u ERoot \<and> TReconnect \<notin> kinds u) \<and>
     (TReconnect \<in> kinds u \<longrightarrow> COpen \<notin> u_classes u EConnectDlg)"

definition ui_ok :: "'z ui \<Rightarrow> bool" where
  "ui_ok u \<longleftrightarrow> session_ok u \<and> (TClose \<in> kinds u \<longrightarrow> u_connected u)"

definition soft_closed :: "('z ui \<Rightarrow> bool) \<Rightarrow> bool" where
  "soft_closed P \<longleftrightarrow> (\<forall>u u'. P u \<longrightarrow> soft u u' \<longrightarrow> P u')"

lemma soft_closedD: "soft_closed P \<Longrightarrow> P u \<Longrightarrow> soft u u' \<Longrightarrow> P u'"
  unfolding soft_closed_def by blast

lemma softD:
  assumes "soft u u'"
  shows "page_ok u \<Longrightarrow> page_ok u'" "labels_of u' = labels_of u" "u_connected u' = u_connected u"
    "u_inhibitReconnect u' = u_inhibitReconnect u" "u_heard u' = u_heard u" "client_moved (u_rfb u) (u_rfb u')"
    "TClose \<in> kinds u' \<Longrightarrow> TClose \<in> kinds u" "TReconnect \<in> kinds u' \<Longrightarrow> TReconnect \<in> kinds u"
    "COpen \<in> u_classes u' EConnectDlg \<longleftrightarrow> COpen \<in> u_classes u EConnectDlg"
    "CReconnecting \<in> u_classes u' ERoot \<longleftrightarrow> CReconnecting \<in> u_classes u ERoot"
    "u_rfb u' = None \<longleftrightarrow> u_rfb u = None"
  using assms by (auto simp: soft_def client_moved_def split: option.splits)

lemma client_ok_moved:
  assumes "client_ok u" "soft u u'"
  shows "client_ok u'"
proof (cases "u_rfb u")
  case None
  then show ?thesis using assms softD(3,11) [OF assms(2)] by (simp add: client_ok_def)
next
  case (Some r)
  then obtain r' evs where r': "u_rfb u' = Some r'" "link_step\<^sup>*\<^sup>* (link_of r) (link_of r')" "events r' = events r @ evs"
    using softD(6) [OF assms(2)] by (auto simp: client_moved_def grown_def split: option.splits)
  have "link_ok (rfbConnectionState r') (life r')"
    using link_ok_steps [OF r'(2)] assms(1) Some by (simp add: link_of_def client_ok_def)
  then show ?thesis
    using assms(1) Some r'(1,3) softD(3,5) [OF assms(2)] by (simp add: client_ok_def)
qed

lemma soft_session: "soft_closed session_ok"
  unfolding soft_closed_def
proof (intro allI impI)
  fix u u' :: "'z ui"
  assume ok: "session_ok u" and soft: "soft u u'"
  note f = softD [OF soft]
  have "client_ok u'" "page_ok u'" "labelled u'"
    using ok client_ok_moved [OF _ soft] f(1,2) by (simp_all add: session_ok_def labelled_def)
  then show "session_ok u'" using ok by (auto simp: session_ok_def f(9-11) dest: f(8))
qed

lemma soft_and: "soft_closed P \<Longrightarrow> soft_closed Q \<Longrightarrow> soft_closed (\<lambda>u. P u \<and> Q u)"
  unfolding soft_closed_def by blast

lemma soft_facts:
  "soft_closed (\<lambda>u. u_connected u)" "soft_closed (\<lambda>u. \<not> u_connected u)" "soft_closed (\<lambda>u. TClose \<notin> kinds u)"
  "soft_closed (\<lambda>u. TReconnect \<notin> kinds u)" "soft_closed (\<lambda>u. u_rfb u = None)"
  "soft_closed (\<lambda>u. COpen \<notin> u_classes u EConnectDlg)" "soft_closed (\<lambda>u. CReconnecting \<notin> u_classes u ERoot)"
  "soft_closed page_ok" "soft_closed (\<lambda>u. TClose \<in> kinds u \<longrightarrow> u_connected u)"
  by (auto simp: soft_closed_def softD(3,9,10,11) dest: softD(1,7,8))

lemma soft_ui_ok: "soft_closed ui_ok"
  unfolding ui_ok_def by (intro soft_and soft_session soft_facts)

section \<open>Triples\<close>

text \<open>A triple: from a state with the first property the command ends in one with the second when it returns
  and in one with the third when it throws.\<close>

definition triple :: "('s \<Rightarrow> bool) \<Rightarrow> 's command \<Rightarrow> ('s \<Rightarrow> bool) \<Rightarrow> ('s \<Rightarrow> bool) \<Rightarrow> bool" where
  "triple P c Q X \<longleftrightarrow> (\<forall>u. P u \<longrightarrow> (if fst (c u) = Ret () then Q (snd (c u)) else X (snd (c u))))"

lemma block_step: "block (c # cs) u = (if fst (c u) = Ret () then block cs (snd (c u)) else c u)"
  by (cases "c u"; cases "fst (c u)") auto

lemma tripleD: "triple P c Q Q \<Longrightarrow> P u \<Longrightarrow> Q (snd (c u))"
  unfolding triple_def by presburger

lemma triple_conseq:
  "triple P' c Q' X' \<Longrightarrow> (\<And>u. P u \<Longrightarrow> P' u) \<Longrightarrow> (\<And>u. Q' u \<Longrightarrow> Q u) \<Longrightarrow> (\<And>u. X' u \<Longrightarrow> X u) \<Longrightarrow> triple P c Q X"
  unfolding triple_def by metis

lemma triple_nil: "triple P (block []) P X"
  by (simp add: triple_def)

lemma triple_cons: "triple P c Q X \<Longrightarrow> triple Q (block cs) R X \<Longrightarrow> triple P (block (c # cs)) R X"
  by (auto simp: triple_def block_step simp del: block.simps)

lemma block_append: "block (cs @ ds) u = (if fst (block cs u) = Ret () then block ds (snd (block cs u)) else block cs u)"
proof (induction cs arbitrary: u)
  case (Cons c cs)
  show ?case unfolding append_Cons block_step [of c] Cons.IH by simp
qed simp

lemma triple_append: "triple P (block cs) Q X \<Longrightarrow> triple Q (block ds) R X \<Longrightarrow> triple P (block (cs @ ds)) R X"
  by (auto simp: triple_def block_append)

lemma triple_upd: "(\<And>u. P u \<Longrightarrow> Q (f u)) \<Longrightarrow> triple P (upd f) Q X"
  by (simp add: triple_def upd_def)

lemma triple_soft: "soft_command c \<Longrightarrow> soft_closed P \<Longrightarrow> (\<And>u. P u \<Longrightarrow> X u) \<Longrightarrow> triple P c P X"
  unfolding triple_def using soft_commandD soft_closedD by metis

lemma triple_soft_block:
  "(\<And>c. c \<in> set cs \<Longrightarrow> soft_command c) \<Longrightarrow> soft_closed P \<Longrightarrow> (\<And>u. P u \<Longrightarrow> X u) \<Longrightarrow> triple P (block cs) P X"
  by (rule triple_soft [OF soft_block])

lemma triple_cond:
  "triple (\<lambda>u. P u \<and> b u) c Q X \<Longrightarrow> triple (\<lambda>u. P u \<and> \<not> b u) d Q X \<Longrightarrow> triple P (cond b c d) Q X"
  by (simp add: triple_def cond_def)

lemma triple_guard:
  "triple (\<lambda>u. P u \<and> b u) c Q X \<Longrightarrow> (\<And>u. P u \<Longrightarrow> \<not> b u \<Longrightarrow> Q u) \<Longrightarrow> triple P (guard b c) Q X"
  by (simp add: triple_def guard_def)

lemma triple_read: "(\<And>a. triple (\<lambda>u. P u \<and> f u = a) (k a) Q X) \<Longrightarrow> triple P (read f k) Q X"
  by (simp add: triple_def read_def)

lemma triple_setting:
  assumes "soft_closed P" "\<And>v. triple P (k v) Q X"
  shows "triple P (with_setting E n k) Q X"
  unfolding triple_def
proof (intro allI impI)
  fix u
  assume "P u"
  obtain v w where w: "getSetting E n u = (v, w)" by force
  then have "P w" using soft_closedD [OF assms(1) \<open>P u\<close>] soft_web(2) [of u u E n] by simp
  then show "if fst (with_setting E n k u) = Ret () then Q (snd (with_setting E n k u)) else X (snd (with_setting E n k u))"
    using assms(2) [of v] by (simp add: with_setting_def w triple_def)
qed

lemma triple_config:
  "(\<And>u. P u \<Longrightarrow> X u) \<Longrightarrow> (\<And>v. triple P (k v) Q X) \<Longrightarrow> triple P (with_config E n d k) Q X"
  by (simp add: triple_def with_config_def split: outcome.split)

lemma triple_if: "(b \<Longrightarrow> triple P c Q X) \<Longrightarrow> (\<not> b \<Longrightarrow> triple P d Q X) \<Longrightarrow> triple P (if b then c else d) Q X"
  by simp

lemma triple_calm:
  "soft_command c \<Longrightarrow> soft_closed P \<Longrightarrow> (\<And>u. P u \<Longrightarrow> fst (c u) = Ret ()) \<Longrightarrow> triple P c P X"
  unfolding triple_def using soft_commandD soft_closedD by metis

lemma triple_false: "(\<And>u. \<not> P u) \<Longrightarrow> triple P c Q X"
  by (simp add: triple_def)

lemma triple_soft_upd: "(\<And>u. soft u u \<Longrightarrow> soft u (f u)) \<Longrightarrow> soft_closed P \<Longrightarrow> triple P (upd f) P X"
  by (rule triple_upd) (auto intro: soft_closedD)

section \<open>Changing the visual state\<close>

text \<open>A page that is not connected, whatever it shows.\<close>

definition down :: "'z ui \<Rightarrow> bool" where
  "down u \<longleftrightarrow> page_ok u \<and> labelled u \<and> client_ok u \<and> \<not> u_connected u \<and>
     (u_rfb u \<noteq> None \<longrightarrow> COpen \<notin> u_classes u EConnectDlg \<and> TReconnect \<notin> kinds u) \<and>
     (TReconnect \<in> kinds u \<longrightarrow> COpen \<notin> u_classes u EConnectDlg)"

lemma soft_down: "soft_closed down"
  unfolding soft_closed_def
proof (intro allI impI)
  fix u u' :: "'z ui"
  assume ok: "down u" and soft: "soft u u'"
  note f = softD [OF soft]
  have "client_ok u'" "page_ok u'" "labelled u'"
    using ok client_ok_moved [OF _ soft] f(1,2) by (simp_all add: down_def labelled_def)
  then show "down u'" using ok by (auto simp: down_def f(3,9-11) dest: f(8))
qed

lemma show_visual_fields:
  "labels_of (show_visual E v u) = labels_of u" "u_connected (show_visual E v u) = u_connected u"
  "u_inhibitReconnect (show_visual E v u) = u_inhibitReconnect u" "u_heard (show_visual E v u) = u_heard u"
  "u_rfb (show_visual E v u) = u_rfb u" "kinds (show_visual E v u) = kinds u"
  "u_classes (show_visual E v u) EConnectDlg = u_classes u EConnectDlg"
  "CReconnecting \<in> u_classes (show_visual E v u) ERoot \<longleftrightarrow> v = VReconnecting"
  by (cases v; simp add: show_visual_def remove_class_def add_class_def kinds_def labels_of_def Let_def fun_eq_iff)+

lemma client_ok_same:
  "u_rfb v = u_rfb u \<Longrightarrow> u_heard v = u_heard u \<Longrightarrow> u_connected v = u_connected u \<Longrightarrow> client_ok v = client_ok u"
  by (simp add: client_ok_def split: option.split)

lemma down_show_visual: "down u \<Longrightarrow> down (show_visual E v u)"
  using client_ok_same [of "show_visual E v u" u]
  by (simp add: down_def show_visual_fields page_show_visual labelled_def)

lemma enable_returns: "labelled u \<Longrightarrow> n \<in> set connection_settings \<Longrightarrow> fst (enableSetting n u) = Ret ()"
  by (auto simp: enableSetting_def labelled_def labels_of_def set_ctrl_def Let_def split: option.split)

lemma power_returns: "\<not> u_connected u \<Longrightarrow> fst (updatePowerButton u) = Ret ()"
  by (simp add: updatePowerButton_def read_def upd_def)

lemma visual_down:
  assumes "soft_closed N" "\<And>u. N u \<Longrightarrow> N (show_visual E v u)" "v = VReconnecting \<Longrightarrow> (\<And>u. N u \<Longrightarrow> u_rfb u = None)"
  shows "triple (\<lambda>u. down u \<and> N u) (updateVisualState E v)
    (\<lambda>u. ui_ok u \<and> \<not> u_connected u \<and> TClose \<notin> kinds u \<and> (v \<noteq> VReconnecting \<longrightarrow> CReconnecting \<notin> u_classes u ERoot) \<and> N u) X"
proof -
  define D where "D u \<longleftrightarrow> down u \<and> (v \<noteq> VReconnecting \<longrightarrow> CReconnecting \<notin> u_classes u ERoot) \<and> N u" for u
  have softD': "soft_closed D"
    unfolding D_def by (intro soft_and soft_down assms(1)) (use soft_facts(7) in \<open>auto simp: soft_closed_def\<close>)
  have D2: "soft_closed (\<lambda>u. D u \<and> TClose \<notin> kinds u)" by (intro soft_and softD' soft_facts)
  have "triple D (enableSetting n) D X" if "n \<in> set connection_settings" for n
    by (rule triple_calm [OF soft_labels(2) softD']) (use that enable_returns in \<open>auto simp: D_def down_def\<close>)
  then have enable: "triple D (block (map enableSetting ns)) D X" if "set ns \<subseteq> set connection_settings" for ns
    using that by (induction ns) (auto intro: triple_cons triple_nil simp del: block.simps)
  have power: "triple D updatePowerButton D X"
    by (rule triple_calm [OF soft_power softD']) (auto simp: D_def down_def power_returns)
  have keep: "triple D (upd keepControlbar) (\<lambda>u. D u \<and> TClose \<notin> kinds u) X"
    by (rule triple_upd) (use soft_closedD [OF softD' _ soft_timers(2) [OF soft_refl]] in
      \<open>auto simp: D_def down_def keep_stops\<close>)
  have shown: "triple (\<lambda>u. down u \<and> N u) (upd (show_visual E v)) D X"
    by (rule triple_upd) (auto simp: D_def down_show_visual assms(2) show_visual_fields)
  have bar: "triple D (cond u_connected c
      (block (map enableSetting connection_settings @ [updatePowerButton, upd keepControlbar]))) (\<lambda>u. D u \<and> TClose \<notin> kinds u) X" for c
  proof (rule triple_cond)
    show "triple (\<lambda>u. D u \<and> u_connected u) c (\<lambda>u. D u \<and> TClose \<notin> kinds u) X"
      by (rule triple_false) (auto simp: D_def down_def)
    have "triple D (block (map enableSetting connection_settings @ [updatePowerButton, upd keepControlbar]))
        (\<lambda>u. D u \<and> TClose \<notin> kinds u) X"
      by (intro triple_append [OF enable] triple_cons [OF power] triple_cons [OF keep] triple_nil) simp
    then show "triple (\<lambda>u. D u \<and> \<not> u_connected u) (block (map enableSetting connection_settings @
        [updatePowerButton, upd keepControlbar])) (\<lambda>u. D u \<and> TClose \<notin> kinds u) X"
      by (rule triple_conseq) simp_all
  qed
  have dialogs: "triple (\<lambda>u. D u \<and> TClose \<notin> kinds u)
      (block [upd closeAllPanels, upd (remove_class EVerifyDlg COpen), upd (remove_class ECredentialsDlg COpen)])
      (\<lambda>u. D u \<and> TClose \<notin> kinds u) X"
    by (intro triple_cons [OF triple_soft_upd [OF _ D2]] triple_nil soft_closeAll soft_classes) simp_all
  have "triple (\<lambda>u. down u \<and> N u) (updateVisualState E v) (\<lambda>u. D u \<and> TClose \<notin> kinds u) X"
    unfolding updateVisualState_def by (rule triple_cons [OF shown triple_cons [OF bar dialogs]])
  then show ?thesis
    by (rule triple_conseq) (use assms(3) in \<open>auto simp: D_def down_def ui_ok_def session_ok_def\<close>)
qed


definition up :: "'z ui \<Rightarrow> bool" where
  "up u \<longleftrightarrow> session_ok u \<and> u_connected u \<and> TClose \<notin> kinds u"

lemma soft_up: "soft_closed up"
  unfolding up_def by (intro soft_and soft_session soft_facts)

lemma up_ok: "up u \<Longrightarrow> ui_ok u"
  by (simp add: up_def ui_ok_def)

lemma up_start_close:
  assumes "up u"
  shows "ui_ok ((start_timer TClose u)\<lparr>u_closeControlbarTimeout := Some (u_nextTimer u)\<rparr>)" (is "ui_ok ?v")
proof -
  have "page_ok ?v"
    by (rule page_start [of u TClose])
      (use assms in \<open>simp_all add: up_def session_ok_def tracked_def timer_var_simps start_fields\<close>)
  moreover have "client_ok ?v = client_ok u" by (rule client_ok_same) (simp_all add: start_timer_def)
  ultimately show ?thesis
    using assms by (simp add: up_def ui_ok_def session_ok_def labelled_def labels_of_def kinds_def start_timer_def)
qed

lemma up_shown: "up u \<Longrightarrow> up (show_visual E VConnected u)"
  using client_ok_same [of "show_visual E VConnected u" u]
  by (simp add: up_def session_ok_def show_visual_fields page_show_visual labelled_def)

lemma visual_up: "triple up (updateVisualState E VConnected) ui_ok ui_ok"
proof -
  have shown: "triple up (upd (show_visual E VConnected)) up ui_ok" by (rule triple_upd) (rule up_shown)
  have "triple up (block ([updateViewClip E] @ map disableSetting connection_settings)) up ui_ok"
    by (rule triple_soft_block) (auto simp: soft_viewClip soft_labels soft_up up_ok)
  moreover have "triple up (block [upd (\<lambda>u. (start_timer TClose u)\<lparr>u_closeControlbarTimeout := Some (u_nextTimer u)\<rparr>)]) ui_ok ui_ok"
    by (intro triple_cons [OF triple_upd triple_nil] up_start_close)
  ultimately have live: "triple up (block ([updateViewClip E] @ map disableSetting connection_settings @
      [upd (\<lambda>u. (start_timer TClose u)\<lparr>u_closeControlbarTimeout := Some (u_nextTimer u)\<rparr>)])) ui_ok ui_ok"
    using triple_append by fastforce
  have bar: "triple up (cond u_connected (block ([updateViewClip E] @ map disableSetting connection_settings @
      [upd (\<lambda>u. (start_timer TClose u)\<lparr>u_closeControlbarTimeout := Some (u_nextTimer u)\<rparr>)])) c) ui_ok ui_ok" for c
    by (rule triple_cond, rule triple_conseq [OF live], simp_all, rule triple_false, auto simp: up_def)
  have dialogs: "triple ui_ok
      (block [upd closeAllPanels, upd (remove_class EVerifyDlg COpen), upd (remove_class ECredentialsDlg COpen)]) ui_ok ui_ok"
    by (intro triple_cons [OF triple_soft_upd [OF _ soft_ui_ok]] triple_nil soft_closeAll soft_classes) simp_all
  show ?thesis unfolding updateVisualState_def by (rule triple_cons [OF shown triple_cons [OF bar dialogs]])
qed

section \<open>Connecting and disconnecting\<close>

text \<open>No client, no reconnection due, the connect dialog closed.\<close>

definition idle :: "'z ui \<Rightarrow> bool" where
  "idle u \<longleftrightarrow> u_rfb u = None \<and> TReconnect \<notin> kinds u \<and> COpen \<notin> u_classes u EConnectDlg"

lemma soft_idle: "soft_closed idle"
  unfolding idle_def by (intro soft_and soft_facts)

lemma idle_shown: "idle u \<Longrightarrow> idle (show_visual E v u)"
  by (simp add: idle_def show_visual_fields)

definition resting :: "'z ui \<Rightarrow> bool" where
  "resting u \<longleftrightarrow> ui_ok u \<and> \<not> u_connected u \<and> TClose \<notin> kinds u \<and> idle u"

lemma soft_resting: "soft_closed resting"
  unfolding resting_def by (intro soft_and soft_ui_ok soft_facts soft_idle)

lemma resting_down: "resting u \<Longrightarrow> down u \<and> idle u"
  by (auto simp: resting_def ui_ok_def session_ok_def down_def)

lemma resting_ok: "resting u \<Longrightarrow> ui_ok u"
  by (simp add: resting_def)

lemma visual_idle: "triple (\<lambda>u. down u \<and> idle u) (updateVisualState E v) resting X"
  by (rule triple_conseq [OF visual_down [OF soft_idle idle_shown]]) (auto simp: resting_def idle_def)

lemma visual_idle_calm:
  "v \<noteq> VReconnecting \<Longrightarrow>
   triple (\<lambda>u. down u \<and> idle u) (updateVisualState E v) (\<lambda>u. resting u \<and> CReconnecting \<notin> u_classes u ERoot) X"
  by (rule triple_conseq [OF visual_down [OF soft_idle idle_shown]]) (auto simp: resting_def idle_def)

text \<open>A page that may connect: no client and no reconnection due.\<close>

definition free :: "'z ui \<Rightarrow> bool" where
  "free u \<longleftrightarrow> ui_ok u \<and> u_rfb u = None \<and> TReconnect \<notin> kinds u"

lemma soft_free: "soft_closed free"
  unfolding free_def by (intro soft_and soft_ui_ok soft_facts)

lemma free_ok: "free u \<Longrightarrow> ui_ok u"
  by (simp add: free_def)

lemma free_opens: "free u \<Longrightarrow> ui_ok (openConnectPanel u)"
proof -
  assume ok: "free u"
  have "page_ok (openConnectPanel u) = page_ok u" by (rule page_ok_view) (rule view_misc)
  moreover have "client_ok (openConnectPanel u) = client_ok u"
    by (rule client_ok_same) (simp_all add: openConnectPanel_def add_class_def)
  moreover have "kinds (openConnectPanel u) = kinds u" "labels_of (openConnectPanel u) = labels_of u"
    by (simp_all add: openConnectPanel_def kinds_simps labels_frame)
  ultimately show ?thesis
    using ok by (simp add: free_def ui_ok_def session_ok_def labelled_def)
      (simp add: openConnectPanel_def add_class_def)
qed

lemma resting_opens: "resting u \<Longrightarrow> ui_ok (openConnectPanel u)"
  by (rule free_opens) (simp add: free_def resting_def idle_def)

lemma ends_disconnected:
  "triple (\<lambda>u. down u \<and> idle u) (block
     [updateVisualState E VDisconnected, upd (showStatus msg ty), upd (\<lambda>u. u\<lparr>u_title := title\<rparr>), upd openControlbar,
      upd openConnectPanel]) ui_ok X"
  by (rule triple_cons [OF visual_idle], intro triple_cons [OF triple_soft_upd [OF _ soft_resting]]
      triple_cons [OF triple_upd triple_nil] resting_opens soft_timers soft_fields soft_openControlbar)

lemma resting_start_reconnect:
  assumes "resting u"
  shows "ui_ok ((start_timer TReconnect u)\<lparr>u_reconnectCallback := Some (u_nextTimer u)\<rparr>)" (is "ui_ok ?v")
proof -
  have "page_ok ?v"
    by (rule page_start [of u TReconnect]) (use assms in
      \<open>simp_all add: resting_def idle_def ui_ok_def session_ok_def tracked_def timer_var_simps start_fields\<close>)
  moreover have "client_ok ?v = client_ok u" by (rule client_ok_same) (simp_all add: start_timer_def)
  ultimately show ?thesis using assms
    by (simp add: resting_def idle_def ui_ok_def session_ok_def labelled_def labels_of_def kinds_def start_timer_def)
qed

lemma ends_reconnecting:
  "triple (\<lambda>u. down u \<and> idle u) (block
     [updateVisualState E VReconnecting,
      with_setting E ''reconnect_delay'' (\<lambda>delay.
        upd (\<lambda>u. (start_timer TReconnect u)\<lparr>u_reconnectCallback := Some (u_nextTimer u)\<rparr>))]) ui_ok X"
  by (intro triple_cons [OF visual_idle] triple_cons [OF triple_setting [OF soft_resting triple_upd] triple_nil]
      resting_start_reconnect)


lemma triple_pre: "triple P' c Q X \<Longrightarrow> (\<And>u. P u \<Longrightarrow> P' u) \<Longrightarrow> triple P c Q X"
  by (rule triple_conseq)

lemma closes_connection:
  "triple (\<lambda>u. down u \<and> idle u)
     (guard (\<lambda>u. \<not> clean) (block [updateVisualState E VDisconnected, upd (showStatus msg ty)]))
     (\<lambda>u. down u \<and> idle u) X"
proof (rule triple_guard)
  have "triple (\<lambda>u. down u \<and> idle u) (block [updateVisualState E VDisconnected, upd (showStatus msg ty)]) resting X"
    by (intro triple_cons [OF visual_idle] triple_cons [OF triple_soft_upd [OF _ soft_resting]] triple_nil soft_timers)
  then show "triple (\<lambda>u. (down u \<and> idle u) \<and> \<not> clean)
      (block [updateVisualState E VDisconnected, upd (showStatus msg ty)]) (\<lambda>u. down u \<and> idle u) X"
    by (rule triple_conseq) (use resting_down in blast)+
qed simp

lemma down_idle_soft: "soft_closed (\<lambda>u. down u \<and> idle u)"
  by (intro soft_and soft_down soft_idle)

text \<open>The client is gone: what is left is a page without client.\<close>

lemma forget_client:
  assumes "ui_ok u" "u_rfb u \<noteq> None"
  shows "down (u\<lparr>u_heard := h, u_connected := False, u_rfb := None\<rparr>) \<and> idle (u\<lparr>u_heard := h, u_connected := False, u_rfb := None\<rparr>)"
proof -
  have "page_ok (u\<lparr>u_heard := h, u_connected := False, u_rfb := None\<rparr>) = page_ok u"
    by (rule page_ok_view) (simp add: page_view_def)
  then show ?thesis using assms
    by (simp add: ui_ok_def session_ok_def down_def idle_def labelled_def labels_of_def kinds_def client_ok_def)
qed

lemma disconnectFinished_keeps:
  "triple (\<lambda>u. \<exists>v h. ui_ok v \<and> u_rfb v \<noteq> None \<and> u = v\<lparr>u_heard := h\<rparr>) (disconnectFinished E clean) ui_ok X"
  unfolding disconnectFinished_def
proof (rule triple_read)
  fix con
  let ?D = "\<lambda>u. down u \<and> idle u"
  have forget: "triple (\<lambda>u. (\<exists>v h. ui_ok v \<and> u_rfb v \<noteq> None \<and> u = v\<lparr>u_heard := h\<rparr>) \<and> u_connected u = con)
      (upd (\<lambda>u. u\<lparr>u_connected := False, u_rfb := None\<rparr>)) ?D X"
    by (rule triple_upd) (use forget_client in auto)
  have rest: "triple ?D (with_setting E ''reconnect'' (\<lambda>v. cond (\<lambda>u. v = JBool True \<and> \<not> u_inhibitReconnect u)
        (block
          [updateVisualState E VReconnecting,
           with_setting E ''reconnect_delay'' (\<lambda>delay.
             upd (\<lambda>u. (start_timer TReconnect u)\<lparr>u_reconnectCallback := Some (u_nextTimer u)\<rparr>))])
        (block
          [updateVisualState E VDisconnected,
           upd (showStatus (tr E ''Disconnected'') ''normal''),
           upd (\<lambda>u. u\<lparr>u_title := PAGE_TITLE\<rparr>),
           upd openControlbar,
           upd openConnectPanel]))) ui_ok X"
    by (intro triple_setting [OF down_idle_soft] triple_cond triple_pre [OF ends_reconnecting]
        triple_pre [OF ends_disconnected]) simp_all
  show "triple (\<lambda>u. (\<exists>v h. ui_ok v \<and> u_rfb v \<noteq> None \<and> u = v\<lparr>u_heard := h\<rparr>) \<and> u_connected u = con) (block
     [upd (\<lambda>u. u\<lparr>u_connected := False, u_rfb := None\<rparr>),
      guard (\<lambda>u. \<not> clean) (block
        [updateVisualState E VDisconnected,
         upd (showStatus (tr E (if con then ''Something went wrong, connection is closed''
           else ''Failed to connect to server'')) ''error'')]),
      with_setting E ''reconnect'' (\<lambda>v. cond (\<lambda>u. v = JBool True \<and> \<not> u_inhibitReconnect u)
        (block
          [updateVisualState E VReconnecting,
           with_setting E ''reconnect_delay'' (\<lambda>delay.
             upd (\<lambda>u. (start_timer TReconnect u)\<lparr>u_reconnectCallback := Some (u_nextTimer u)\<rparr>))])
        (block
          [updateVisualState E VDisconnected,
           upd (showStatus (tr E ''Disconnected'') ''normal''),
           upd (\<lambda>u. u\<lparr>u_title := PAGE_TITLE\<rparr>),
           upd openControlbar,
           upd openConnectPanel]))]) ui_ok X"
    by (rule triple_cons [OF forget triple_cons [OF closes_connection triple_cons [OF rest triple_nil]]])
qed

text \<open>A new client has dispatched nothing.\<close>

lemma new_client:
  assumes "resting u" "CReconnecting \<notin> u_classes u ERoot" "new_rfb W ch opts = Ret r"
  shows "ui_ok (u\<lparr>u_rfb := Some r, u_heard := 0, u_url := url\<rparr>)" (is "ui_ok ?v")
proof -
  have "core r = (Connecting, False, 0, [], 6, 2)" using assms(3) by (rule new_rfb_core)
  then have "client_ok ?v" using assms(1) by (simp add: client_ok_def core_def resting_def)
  moreover have "page_ok ?v = page_ok u" by (rule page_ok_view) (simp add: page_view_def)
  ultimately show ?thesis using assms(1,2)
    by (simp add: resting_def idle_def ui_ok_def session_ok_def labelled_def labels_of_def kinds_def)
qed

lemma create_client_keeps:
  "triple (\<lambda>u. resting u \<and> CReconnecting \<notin> u_classes u ERoot) (create_client E url opts) ui_ok ui_ok"
proof (cases "new_rfb (e_world E) None opts")
  case (Ret r)
  have "triple (\<lambda>u. resting u \<and> CReconnecting \<notin> u_classes u ERoot)
      (block [upd (\<lambda>u. u\<lparr>u_rfb := Some r, u_heard := 0, u_url := Some url\<rparr>), apply_settings E]) ui_ok ui_ok"
    by (intro triple_cons [OF triple_upd triple_cons [OF triple_soft [OF soft_apply soft_ui_ok] triple_nil]])
      (use new_client [OF _ _ Ret] in auto)
  then show ?thesis by (simp add: create_client_def Ret)
next
  case (Throw e)
  have "triple (\<lambda>u. down u \<and> idle u) (block
      [updateVisualState E VDisconnected, upd (showStatus msg ty)]) resting ui_ok" for msg ty
    by (intro triple_cons [OF visual_idle] triple_cons [OF triple_soft_upd [OF _ soft_resting]] triple_nil soft_timers)
  then have "triple (\<lambda>u. resting u \<and> CReconnecting \<notin> u_classes u ERoot) (block
      [updateVisualState E VDisconnected, upd (showStatus msg ty)]) ui_ok ui_ok" for msg ty
    by (rule triple_conseq) (use resting_down resting_ok in blast)+
  then show ?thesis by (simp add: create_client_def Throw)
next
  case Hang
  then show ?thesis by (simp add: create_client_def triple_def resting_ok)
qed

lemma free_closes: "free u \<Longrightarrow> down (closeConnectPanel u) \<and> idle (closeConnectPanel u)"
proof -
  assume ok: "free u"
  have "page_ok (closeConnectPanel u) = page_ok u" by (rule page_ok_view) (rule view_misc)
  moreover have "client_ok (closeConnectPanel u) = client_ok u"
    by (rule client_ok_same) (simp_all add: closeConnectPanel_def remove_class_def)
  moreover have "kinds (closeConnectPanel u) = kinds u" "labels_of (closeConnectPanel u) = labels_of u"
    by (simp_all add: closeConnectPanel_def kinds_simps labels_frame)
  ultimately show ?thesis
    using ok by (simp add: free_def ui_ok_def session_ok_def labelled_def down_def idle_def)
      (simp add: closeConnectPanel_def remove_class_def client_ok_def)
qed

lemma connect_with_keeps: "triple free (connect_with E host port path pw) ui_ok ui_ok"
proof -
  let ?R = "\<lambda>u. resting u \<and> CReconnecting \<notin> u_classes u ERoot"
  have hide: "triple free (upd hideStatus) free ui_ok" by (rule triple_soft_upd [OF _ soft_free]) (rule soft_timers)
  have nohost: "triple free (upd (showStatus msg ty)) ui_ok ui_ok" for msg ty
    by (rule triple_conseq [OF triple_soft_upd [OF _ soft_free]]) (auto simp: soft_timers free_ok)
  have R: "soft_closed ?R" by (intro soft_and soft_resting soft_facts)
  have create: "triple ?R (with_setting E ''encrypt'' (\<lambda>enc. with_setting E ''shared'' (\<lambda>sh.
      with_setting E ''repeaterID'' (\<lambda>rep. create_client E (url enc) (opts sh rep))))) ui_ok ui_ok" for url opts
    by (intro triple_setting [OF R] create_client_keeps)
  have "triple free (block [upd closeConnectPanel, updateVisualState E VConnecting,
      with_setting E ''encrypt'' (\<lambda>enc. with_setting E ''shared'' (\<lambda>sh.
      with_setting E ''repeaterID'' (\<lambda>rep. create_client E (url enc) (opts sh rep))))]) ui_ok ui_ok" for url opts
    by (rule triple_cons [OF triple_upd triple_cons [OF visual_idle_calm triple_cons [OF create triple_nil]]])
      (simp_all add: free_closes)
  then show ?thesis unfolding connect_with_def
    by (intro triple_cons [OF hide] triple_cons [OF triple_if triple_nil] nohost)
qed

lemma ui_connect_keeps: "triple (\<lambda>u. ui_ok u \<and> TReconnect \<notin> kinds u) (ui_connect E given) ui_ok ui_ok"
  unfolding ui_connect_def
proof (rule triple_guard)
  have "triple free (with_config E ''password'' None (\<lambda>p.
      block [upd (\<lambda>u. u\<lparr>u_reconnectPassword := p\<rparr>), connect_with E host port path p])) ui_ok ui_ok" for host port path
    by (intro triple_config free_ok triple_cons [OF triple_soft_upd [OF _ soft_free]] soft_fields
        triple_cons [OF connect_with_keeps triple_nil])
  then have "triple free (case given of Some p \<Rightarrow> connect_with E host port path p
      | None \<Rightarrow> with_config E ''password'' None (\<lambda>p.
          block [upd (\<lambda>u. u\<lparr>u_reconnectPassword := p\<rparr>), connect_with E host port path p])) ui_ok ui_ok" for host port path
    by (cases given) (simp_all add: connect_with_keeps)
  then have "triple free (with_setting E ''host'' (\<lambda>host. with_setting E ''port'' (\<lambda>port. with_setting E ''path'' (\<lambda>path.
      case given of Some p \<Rightarrow> connect_with E host port path p
      | None \<Rightarrow> with_config E ''password'' None (\<lambda>p.
          block [upd (\<lambda>u. u\<lparr>u_reconnectPassword := p\<rparr>), connect_with E host port path p]))))) ui_ok ui_ok"
    by (intro triple_setting [OF soft_free])
  then show "triple (\<lambda>u. (ui_ok u \<and> TReconnect \<notin> kinds u) \<and> \<not> rfb_defined u)
      (with_setting E ''host'' (\<lambda>host. with_setting E ''port'' (\<lambda>port. with_setting E ''path'' (\<lambda>path.
      case given of None \<Rightarrow> with_config E ''password'' None (\<lambda>p.
          block [upd (\<lambda>u. u\<lparr>u_reconnectPassword := p\<rparr>), connect_with E host port path p])
      | Some p \<Rightarrow> connect_with E host port path p)))) ui_ok ui_ok"
    by (rule triple_pre) (simp add: free_def rfb_defined_def)
qed simp


lemma leave_client:
  assumes "ui_ok u"
  shows "down (u\<lparr>u_connected := False, u_inhibitReconnect := True\<rparr>)"
proof -
  have "page_ok (u\<lparr>u_connected := False, u_inhibitReconnect := True\<rparr>) = page_ok u"
    by (rule page_ok_view) (simp add: page_view_def)
  then show ?thesis using assms
    by (simp add: ui_ok_def session_ok_def down_def labelled_def labels_of_def kinds_def client_ok_def split: option.splits)
qed

lemma ui_disconnect_keeps: "triple ui_ok (ui_disconnect E) ui_ok ui_ok"
proof -
  have call: "triple ui_ok (client E Disconnect) ui_ok ui_ok" by (rule triple_soft [OF soft_client soft_ui_ok])
  have leave: "triple ui_ok (upd (\<lambda>u. u\<lparr>u_connected := False, u_inhibitReconnect := True\<rparr>)) (\<lambda>u. down u \<and> True) ui_ok"
    by (rule triple_upd) (simp add: leave_client)
  have "triple (\<lambda>u. down u \<and> True) (updateVisualState E VDisconnecting) ui_ok ui_ok"
    by (rule triple_conseq [OF visual_down [where N = "\<lambda>_. True"]]) (simp_all add: soft_closed_def)
  then show ?thesis unfolding ui_disconnect_def
    by (intro triple_cons [OF call] triple_cons [OF leave] triple_cons [OF _ triple_nil])
qed

section \<open>Reconnecting\<close>

text \<open>A timer that is cleared together with the variable that remembers it.\<close>

lemma forget_reconnect:
  assumes "ui_ok u" "TReconnect \<notin> kinds (clear_timer i u)" "page_ok (clear_timer i u)"
  shows "ui_ok ((clear_timer i u)\<lparr>u_reconnectCallback := None\<rparr>) \<and>
    TReconnect \<notin> kinds ((clear_timer i u)\<lparr>u_reconnectCallback := None\<rparr>)" (is "ui_ok ?v \<and> _")
proof -
  have "page_ok ?v"
    using assms(2) page_okD [OF assms(3)] timers_forget [OF page_okD(4) [OF assms(3)], of TReconnect]
    by (simp add: page_ok_def kinds_def timer_var_simps)
  moreover have "client_ok ?v = client_ok u" by (rule client_ok_same) (simp_all add: clear_timer_def)
  moreover have "kinds ?v = kinds (clear_timer i u)" "labels_of ?v = labels_of u" "u_classes ?v = u_classes u"
    "u_rfb ?v = u_rfb u" "u_connected ?v = u_connected u"
    by (simp_all add: kinds_def labels_of_def clear_timer_def fun_eq_iff)
  ultimately show ?thesis
    using assms(1,2) kinds_simps(2) [of i u] by (auto simp: ui_ok_def session_ok_def labelled_def)
qed

lemma cancel_reconnect:
  assumes "ui_ok u" "has_class ERoot CReconnecting u"
  shows "let v = (clear_timer (u_reconnectCallback u) u)\<lparr>u_reconnectCallback := None\<rparr>
    in down v \<and> u_rfb v = None \<and> TReconnect \<notin> kinds v"
proof -
  let ?v = "(clear_timer (u_reconnectCallback u) u)\<lparr>u_reconnectCallback := None\<rparr>"
  have page: "page_ok u" using assms by (simp add: ui_ok_def session_ok_def)
  have "timer_var u TReconnect = u_reconnectCallback u" by (simp add: timer_var_def)
  then have v: "ui_ok ?v \<and> TReconnect \<notin> kinds ?v"
    using assms page_clear [OF page, of TReconnect] clear_tracked(1) [OF page, of TReconnect]
    by (intro forget_reconnect) (simp_all add: tracked_def)
  moreover have "u_rfb ?v = None" using assms by (auto simp: ui_ok_def session_ok_def has_class_def clear_timer_def)
  ultimately show ?thesis by (simp add: Let_def ui_ok_def session_ok_def down_def client_ok_def)
qed

lemma cancelReconnect_keeps:
  "triple (\<lambda>u. ui_ok u \<and> has_class ERoot CReconnecting u) (cancelReconnect E) ui_ok X"
proof -
  have forget: "triple (\<lambda>u. ui_ok u \<and> has_class ERoot CReconnecting u)
      (upd (\<lambda>u. (clear_timer (u_reconnectCallback u) u)\<lparr>u_reconnectCallback := None\<rparr>)) (\<lambda>u. down u \<and> (u_rfb u = None \<and> TReconnect \<notin> kinds u)) X"
    by (rule triple_upd) (use cancel_reconnect in \<open>auto simp: Let_def\<close>)
  have N: "soft_closed (\<lambda>u. u_rfb u = None \<and> TReconnect \<notin> kinds u)" by (intro soft_and soft_facts)
  have "soft_closed (\<lambda>u. ui_ok u \<and> u_rfb u = None \<and> TReconnect \<notin> kinds u)" by (intro soft_and soft_ui_ok soft_facts)
  note bar = triple_soft_upd [OF _ this, of openControlbar]
  have visual: "triple (\<lambda>u. down u \<and> (u_rfb u = None \<and> TReconnect \<notin> kinds u)) (updateVisualState E VDisconnected)
      (\<lambda>u. ui_ok u \<and> u_rfb u = None \<and> TReconnect \<notin> kinds u) X"
    by (rule triple_conseq [OF visual_down [OF N]]) (simp_all add: show_visual_fields)
  have opens: "triple (\<lambda>u. ui_ok u \<and> u_rfb u = None \<and> TReconnect \<notin> kinds u) (upd openConnectPanel) ui_ok X"
    by (rule triple_upd) (simp add: free_opens free_def)
  show ?thesis unfolding cancelReconnect_def
    by (rule triple_cons [OF forget triple_cons [OF visual triple_cons [OF bar triple_cons [OF opens triple_nil]]]])
      (rule soft_openControlbar)
qed

text \<open>A timer that fires is no longer running.\<close>

lemma timer_running: "map_of (u_timers u) i = Some t \<Longrightarrow> (i, t) \<in> set (u_timers u)"
  by (rule map_of_SomeD)

lemma fired_page:
  assumes "page_ok u" "map_of (u_timers u) i = Some t" "t \<noteq> THideStatus"
  shows "page_ok (clear_timer (Some i) u)"
proof -
  note ok = page_okD [OF assms(1)]
  have "THideStatus \<in> kinds (clear_timer (Some i) u) \<longleftrightarrow> THideStatus \<in> kinds u"
  proof
    assume "THideStatus \<in> kinds u"
    then obtain j where j: "(j, THideStatus) \<in> set (u_timers u)" by (auto simp: kinds_def)
    then have "j \<noteq> i" using assms(2,3) map_of_is_SomeI [OF timers_okD(1) [OF ok(4)]] by fastforce
    then show "THideStatus \<in> kinds (clear_timer (Some i) u)" using j by (force simp: kinds_def clear_timer_def)
  qed (use kinds_simps(2) [of "Some i" u] in auto)
  then show ?thesis using ok timers_clear [OF ok(4), of "Some i"]
    by (simp add: page_ok_def timer_var_simps) (simp add: clear_timer_def)
qed

lemma fired_ok:
  assumes "ui_ok u" "map_of (u_timers u) i = Some t" "t \<noteq> THideStatus"
  shows "ui_ok (clear_timer (Some i) u)"
proof -
  have "page_ok (clear_timer (Some i) u)" using assms fired_page by (auto simp: ui_ok_def session_ok_def)
  moreover have "client_ok (clear_timer (Some i) u) = client_ok u" by (rule client_ok_same) (simp_all add: clear_timer_def)
  ultimately show ?thesis using assms(1) kinds_simps(2) [of "Some i" u]
    by (auto simp: ui_ok_def session_ok_def labelled_def labels_of_def clear_timer_def)
qed

lemma fired_var:
  assumes "page_ok u" "map_of (u_timers u) i = Some t" "t \<in> tracked"
  shows "timer_var u t = Some i"
  using timers_okD(3) [OF page_okD(4) [OF assms(1)] timer_running [OF assms(2)] assms(3)] .

lemma fired_gone:
  assumes "page_ok u" "map_of (u_timers u) i = Some t" "t \<in> tracked"
  shows "t \<notin> kinds (clear_timer (Some i) u)"
  using clear_tracked(1) [OF assms(1,3)] fired_var [OF assms] by simp

lemma hide_fired:
  assumes "page_ok u" "map_of (u_timers u) i = Some THideStatus"
  shows "hideStatus (clear_timer (Some i) u) = hideStatus u"
  using fired_var [OF assms] by (simp add: hideStatus_def clear_timer_def timer_var_def tracked_def remove_class_def)


lemma reconnect_keeps:
  "triple (\<lambda>u. ui_ok u \<and> map_of (u_timers u) i = Some TReconnect) (block [upd (clear_timer (Some i)), reconnect E]) ui_ok ui_ok"
proof -
  let ?Q = "\<lambda>v. \<exists>u. ui_ok u \<and> v = clear_timer (Some i) u \<and> TReconnect \<notin> kinds v \<and> page_ok v"
  let ?R = "\<lambda>u. ui_ok u \<and> TReconnect \<notin> kinds u"
  have clear: "triple (\<lambda>u. ui_ok u \<and> map_of (u_timers u) i = Some TReconnect) (upd (clear_timer (Some i))) ?Q ui_ok"
    by (rule triple_upd) (use fired_page fired_gone in \<open>fastforce simp: ui_ok_def session_ok_def tracked_def\<close>)
  have forget: "triple ?Q (upd (\<lambda>u. u\<lparr>u_reconnectCallback := None\<rparr>)) ?R ui_ok"
    by (rule triple_upd) (use forget_reconnect in blast)
  have "triple ?R (guard (\<lambda>u. \<not> u_inhibitReconnect u) (read u_reconnectPassword (\<lambda>p. ui_connect E (Some p)))) ui_ok ui_ok"
    by (intro triple_guard triple_read triple_pre [OF ui_connect_keeps]) simp_all
  then have "triple ?Q (reconnect E) ui_ok ui_ok"
    unfolding reconnect_def by (intro triple_cons [OF forget] triple_cons [OF _ triple_nil])
  then show ?thesis by (intro triple_cons [OF clear] triple_cons [OF _ triple_nil])
qed

lemma soft_fires: "t \<noteq> TReconnect \<Longrightarrow> soft_command (ui_timer_fires E t)"
  by (cases t) (simp_all add: soft_bars soft_forms soft_updI soft_timers soft_bar soft_focus)

lemma timer_keeps: "keeps ui_ok (ui_step E (TimerNumber i))"
  unfolding keeps_def
proof (intro allI impI)
  fix u :: "'a ui"
  assume ok: "ui_ok u"
  show "ui_ok (snd (ui_step E (TimerNumber i) u))"
  proof (cases "map_of (u_timers u) i")
    case None
    then show ?thesis using ok by (simp add: read_def)
  next
    case (Some t)
    then have step: "ui_step E (TimerNumber i) u = block [upd (clear_timer (Some i)), ui_timer_fires E t] u"
      by (simp add: read_def)
    consider "t = TReconnect" | "t = THideStatus" | "t \<noteq> TReconnect" "t \<noteq> THideStatus" by blast
    then show ?thesis
    proof cases
      case 1
      then show ?thesis using tripleD [OF reconnect_keeps] ok Some unfolding step by auto
    next
      case 2
      then have "snd (ui_step E (TimerNumber i) u) = hideStatus u"
        unfolding step using hide_fired [of u i] ok Some by (simp add: upd_def ui_ok_def session_ok_def)
      then show ?thesis using soft_closedD [OF soft_ui_ok ok soft_timers(4) [OF soft_refl]] by simp
    next
      case 3
      have "ui_ok (clear_timer (Some i) u)" using fired_ok [OF ok Some 3(2)] .
      moreover have "soft_command (block [ui_timer_fires E t])" by (intro soft_cons soft_nil soft_fires 3)
      moreover have "snd (ui_step E (TimerNumber i) u) = snd (block [ui_timer_fires E t] (clear_timer (Some i) u))"
        unfolding step by (simp add: upd_def)
      ultimately show ?thesis using soft_closedD [OF soft_ui_ok _ soft_commandD] by metis
    qed
  qed
qed

section \<open>Events of the client\<close>

lemma heard_next: "h < length xs \<Longrightarrow> take (Suc h) xs = take h xs @ [xs ! h]"
  by (rule take_Suc_conv_app_nth)

lemma hear_frame:
  "page_ok (u\<lparr>u_heard := h\<rparr>) = page_ok u" "labels_of (u\<lparr>u_heard := h\<rparr>) = labels_of u" "kinds (u\<lparr>u_heard := h\<rparr>) = kinds u"
  by (rule page_ok_view, simp_all add: page_view_def labels_of_def kinds_def fun_eq_iff)

lemma heard_ok:
  assumes "ui_ok u" "u_rfb u = Some r" "u_heard u < length (events r)" "\<forall>c. events r ! u_heard u \<noteq> EvDisconnect c"
  shows "ui_ok (u\<lparr>u_heard := Suc (u_heard u)\<rparr>)"
proof -
  have "EvDisconnect c \<noteq> events r ! u_heard u" for c using assms(4) by metis
  then show ?thesis
    using assms(1-3) by (auto simp: ui_ok_def session_ok_def labelled_def client_ok_def hear_frame heard_next)
qed

text \<open>There is one connect event, so the page is not yet connected when it hears it.\<close>

lemma connect_once:
  assumes "link_ok st (filter life_event evs)" "h < length evs" "evs ! h = EvConnect"
  shows "EvConnect \<notin> set (take h evs)"
proof
  assume "EvConnect \<in> set (take h evs)"
  then have "count_list (take h evs) EvConnect \<noteq> 0" by (metis count_list_0_iff)
  then have "2 \<le> count_list (take h evs) EvConnect + count_list (drop h evs) EvConnect"
    using assms(2,3) by (simp add: Cons_nth_drop_Suc [symmetric])
  also have "\<dots> = count_list evs EvConnect" by (metis append_take_drop_id count_list_append)
  also have "\<dots> = count_list (filter life_event evs) EvConnect" by (induction evs) auto
  also have "\<dots> \<le> 1" using assms(1) by (cases st) auto
  finally show False by simp
qed



lemma goes_up:
  assumes "ui_ok u" "u_rfb u = Some r" "u_heard u < length (events r)" "events r ! u_heard u = EvConnect"
  shows "up (u\<lparr>u_heard := Suc (u_heard u), u_connected := True, u_inhibitReconnect := False\<rparr>)" (is "up ?v")
proof -
  have "\<not> u_connected u"
    using assms connect_once [OF _ assms(3,4), of "rfbConnectionState r"]
    by (auto simp: ui_ok_def session_ok_def client_ok_def life_def)
  moreover have "page_ok ?v = page_ok u" by (rule page_ok_view) (simp add: page_view_def)
  moreover have "client_ok ?v"
    using assms by (auto simp: ui_ok_def session_ok_def client_ok_def heard_next)
  ultimately show ?thesis
    using assms(1) by (auto simp: up_def ui_ok_def session_ok_def labelled_def labels_of_def kinds_def)
qed

lemma connectFinished_keeps:
  assumes "ui_ok u" "u_rfb u = Some r" "u_heard u < length (events r)" "events r ! u_heard u = EvConnect"
  shows "ui_ok (snd (connectFinished E (u\<lparr>u_heard := Suc (u_heard u)\<rparr>)))"
proof -
  let ?c = "\<lambda>cs. block (upd (\<lambda>u. u\<lparr>u_connected := True, u_inhibitReconnect := False\<rparr>) # cs)"
  have start: "triple (\<lambda>v. v = u\<lparr>u_heard := Suc (u_heard u)\<rparr>)
      (upd (\<lambda>u. u\<lparr>u_connected := True, u_inhibitReconnect := False\<rparr>)) up ui_ok"
    by (rule triple_upd) (use goes_up [OF assms] in simp)
  have status: "triple up (with_setting E ''encrypt'' (\<lambda>enc. upd (\<lambda>u. showStatus (msg enc u) ty u))) up ui_ok" for msg ty
    by (intro triple_setting [OF soft_up] triple_soft_upd [OF _ soft_up] soft_timers)
  have focus: "triple ui_ok rfb_focus ui_ok ui_ok" by (rule triple_soft [OF soft_rfb_focus soft_ui_ok])
  have "triple (\<lambda>v. v = u\<lparr>u_heard := Suc (u_heard u)\<rparr>) (connectFinished E) ui_ok ui_ok"
    unfolding connectFinished_def
    by (rule triple_cons [OF start triple_cons [OF status triple_cons [OF visual_up triple_cons [OF focus triple_nil]]]])
  from tripleD [OF this] show ?thesis by simp
qed

lemma soft_listens:
  "ev \<noteq> EvConnect \<Longrightarrow> \<forall>c. ev \<noteq> EvDisconnect c \<Longrightarrow> soft_command (ui_listen E ev)"
  by (cases ev; (blast)?) (simp_all add: soft_updI soft_misc soft_keyboard soft_viewDrag soft_power soft_keys)

lemma hear_keeps: "keeps ui_ok (hear E)"
  unfolding keeps_def
proof (intro allI impI)
  fix u :: "'a ui"
  assume ok: "ui_ok u"
  consider "hear E u = (Ret (), u)"
    | r where "u_rfb u = Some r" "u_heard u < length (events r)"
    by (cases "u_rfb u"; cases "u_heard u < length (events (the (u_rfb u)))") (simp_all add: hear_def)
  then show "ui_ok (snd (hear E u))"
  proof cases
    case (2 r)
    let ?ev = "events r ! u_heard u"
    have heard: "hear E u = ui_listen E ?ev (u\<lparr>u_heard := Suc (u_heard u)\<rparr>)" using 2 by (simp add: hear_def)
    consider "?ev = EvConnect" | c where "?ev = EvDisconnect c"
      | "?ev \<noteq> EvConnect" "\<forall>c. ?ev \<noteq> EvDisconnect c" by blast
    then show ?thesis
    proof cases
      case 1
      then show ?thesis unfolding heard using connectFinished_keeps [OF ok 2] by simp
    next
      case (2 c)
      have "\<exists>v h. ui_ok v \<and> u_rfb v \<noteq> None \<and> u\<lparr>u_heard := Suc (u_heard u)\<rparr> = v\<lparr>u_heard := h\<rparr>"
        using ok \<open>u_rfb u = Some r\<close> by blast
      from tripleD [OF disconnectFinished_keeps this] show ?thesis unfolding heard 2 by simp
    next
      case 3
      then show ?thesis
        unfolding heard by (intro soft_closedD [OF soft_ui_ok heard_ok [OF ok 2 3(2)] soft_commandD] soft_listens)
    qed
  qed (simp add: ok)
qed

section \<open>Reachable pages\<close>

lemma soft_keeps_ok: "soft_command c \<Longrightarrow> keeps ui_ok c"
  unfolding keeps_def using soft_closedD [OF soft_ui_ok] soft_commandD by metis

lemma triple_keeps: "triple P c P P \<Longrightarrow> keeps P c"
  by (simp add: keeps_def tripleD [of P c P])

lemma soft_enter: "soft_command (upd (set_ctrl n (enter e)))"
  by (rule soft_updI) (cases e; simp add: soft_ctrl)

lemma soft_step_op:
  "soft_command (ui_step E (ClientDoes a))" "soft_command (ui_step E (SettingChanged name e))"
  "soft_command (ui_step E (KeyboardTyped v n))" "soft_command (ui_step E (ClipboardChanged t))"
  "soft_command (ui_step E BarPressed)"
  unfolding ui_step.simps
  by (intro soft_forms soft_client,
      intro soft_forms soft_cons soft_nil soft_enter soft_changed,
      intro soft_cons soft_nil soft_updI soft_fields soft_keyInput, assumption,
      intro soft_cons soft_nil soft_updI soft_fields soft_keys, assumption,
      intro soft_cons soft_nil soft_updI soft_timers)

lemma soft_steps:
  "soft_command (ui_step E DigestDone)" "soft_command (ui_step E BarMoved)" "soft_command (ui_step E (HandleDown b y))"
  "soft_command (ui_step E (HandleUp b))" "soft_command (ui_step E (HandleMoved x y))"
  "soft_command (ui_step E WindowResized)" "soft_command (ui_step E (ExpanderClicked i))"
  "soft_command (ui_step E ViewDragClicked)" "soft_command (ui_step E SettingsClicked)"
  "soft_command (ui_step E PowerClicked)" "soft_command (ui_step E ClipboardClicked)"
  "soft_command (ui_step E ExtraKeysClicked)" "soft_command (ui_step E KeyboardClicked)"
  "soft_command (ui_step E (TouchKey k c d))" "soft_command (ui_step E (FocusMoved f))"
  "soft_command (ui_step E CtrlClicked)" "soft_command (ui_step E WindowsClicked)"
  "soft_command (ui_step E AltClicked)" "soft_command (ui_step E TabClicked)" "soft_command (ui_step E EscClicked)"
  "soft_command (ui_step E CtrlAltDelClicked)" "soft_command (ui_step E (MachineClicked n))"
  "soft_command (ui_step E ApproveClicked)" "soft_command (ui_step E CredentialsClicked)"
  "soft_command (ui_step E (CredentialsTyped user pw))" "soft_command (ui_step E StatusClicked)"
  "soft_command (ui_step E FullscreenClicked)" "soft_command (ui_step E (FullscreenChanged b))"
  by (simp_all add: soft_updI soft_intros soft_extra soft_bars soft_keys soft_forms soft_client soft_toggleViewDrag)

lemma connects_ok: "triple ui_ok (guard (has_class EConnectDlg COpen) (ui_connect E g)) ui_ok ui_ok"
  by (intro triple_guard triple_pre [OF ui_connect_keeps]) (auto simp: ui_ok_def session_ok_def has_class_def)

lemma cancels_ok: "triple ui_ok (guard (has_class ERoot CReconnecting) (cancelReconnect E)) ui_ok ui_ok"
  by (intro triple_guard triple_pre [OF cancelReconnect_keeps]) simp_all

lemma rejects_ok: "triple ui_ok (guard (has_class EVerifyDlg COpen) (rejectServer E)) ui_ok ui_ok"
proof -
  have "triple ui_ok (upd (remove_class EVerifyDlg COpen)) ui_ok ui_ok"
    by (rule triple_soft_upd [OF _ soft_ui_ok]) (intro soft_classes; simp)
  then have "triple ui_ok (rejectServer E) ui_ok ui_ok"
    unfolding rejectServer_def by (intro triple_cons [OF _ triple_cons [OF ui_disconnect_keeps triple_nil]])
  then have "triple (\<lambda>u. ui_ok u \<and> has_class EVerifyDlg COpen u) (rejectServer E) ui_ok ui_ok"
    by (rule triple_pre) simp
  then show ?thesis by (rule triple_guard)
qed

lemma ui_step_keeps: "keeps ui_ok (ui_step E a)"
proof (cases a)
  case (TimerNumber i)
  then show ?thesis by (simp add: timer_keeps del: ui_step.simps)
next
  case ConnectClicked
  then show ?thesis by (simp add: triple_keeps connects_ok)
next
  case CancelReconnectClicked
  then show ?thesis by (simp add: triple_keeps cancels_ok)
next
  case RejectClicked
  then show ?thesis by (simp add: triple_keeps rejects_ok)
next
  case DisconnectClicked
  then show ?thesis by (simp add: triple_keeps ui_disconnect_keeps)
qed (simp_all add: soft_keeps_ok soft_step_op soft_steps del: ui_step.simps)


text \<open>The page before its settings have labels.\<close>

definition fresh :: "'z ui \<Rightarrow> bool" where
  "fresh u \<longleftrightarrow> page_ok u \<and> \<not> u_connected u \<and> TClose \<notin> kinds u \<and> idle u \<and> CReconnecting \<notin> u_classes u ERoot"

lemma soft_fresh: "soft_closed fresh"
  unfolding fresh_def by (intro soft_and soft_facts soft_idle)

lemma fresh_new: "fresh (new_ui w ctrls)"
  by (simp add: fresh_def idle_def new_ui_def page_ok_def panels_ok_def root_ok_def status_ok_def timers_ok_def kinds_def
      timer_var_def)

lemma labels_set: "labels_of (set_label i n u) = (labels_of u)(n := Some i)"
  by (auto simp: labels_of_def set_label_def set_ctrl_def fun_eq_iff)

lemma labels_stay: "labels_of u n \<noteq> None \<Longrightarrow> labels_of (setupSettingLabels i ls u) n \<noteq> None"
  by (induction ls arbitrary: i u) (auto simp: labels_set split: option.split)

lemma labels_name:
  assumes "l \<in> set ls" "l_for l = n \<and> n \<noteq> [] \<or> l_for l = [] \<and> l_children l = [(n, True)]"
  shows "labels_of (setupSettingLabels i ls u) n \<noteq> None"
  using assms(1)
proof (induction ls arbitrary: i u)
  case (Cons k ls)
  show ?case
  proof (cases "k = l")
    case True
    then have "setupSettingLabels i (k # ls) u = setupSettingLabels (Suc i) ls (set_label i n u)"
      using assms(2) by auto
    moreover have "labels_of (set_label i n u) n \<noteq> None" by (simp add: labels_set)
    ultimately show ?thesis using labels_stay by metis
  qed (use Cons in simp)
qed simp

lemma document_labelled: "labelled (setupSettingLabels 0 document_labels u)"
proof -
  have for': "labels_of (setupSettingLabels 0 document_labels u) n \<noteq> None"
    if "\<lparr>l_for = n, l_children = []\<rparr> \<in> set document_labels" "n \<noteq> []" for n
    by (rule labels_name [OF that(1)]) (use that(2) in simp)
  have holds: "labels_of (setupSettingLabels 0 document_labels u) n \<noteq> None"
    if "\<lparr>l_for = [], l_children = [(n, True)]\<rparr> \<in> set document_labels" for n
    by (rule labels_name [OF that]) simp
  have "labels_of (setupSettingLabels 0 document_labels u) ''encrypt'' \<noteq> None"
    "labels_of (setupSettingLabels 0 document_labels u) ''shared'' \<noteq> None"
    by (rule holds, simp add: document_labels_def)+
  moreover have "labels_of (setupSettingLabels 0 document_labels u) ''host'' \<noteq> None"
    "labels_of (setupSettingLabels 0 document_labels u) ''port'' \<noteq> None"
    "labels_of (setupSettingLabels 0 document_labels u) ''path'' \<noteq> None"
    "labels_of (setupSettingLabels 0 document_labels u) ''repeaterID'' \<noteq> None"
    by (rule for'; simp add: document_labels_def)+
  ultimately show ?thesis
    unfolding labelled_def connection_settings_def list.set ball_simps by (intro conjI TrueI)
qed

lemma fresh_ctrls: "fresh (set_ctrl n f u) = fresh u"
  using page_ok_view [OF view_settings(1), of n f u]
  by (simp add: fresh_def idle_def) (simp add: kinds_def set_ctrl_def)

lemma labels_fresh: "fresh (setupSettingLabels i ls u) = fresh u"
  by (induction ls arbitrary: i u) (simp_all add: fresh_ctrls set_label_def split: option.split)

lemma fresh_down: "fresh u \<Longrightarrow> labelled u \<Longrightarrow> down u \<and> idle u"
  by (simp add: fresh_def down_def idle_def client_ok_def)

text \<open>An address without parameters: every configuration variable has its default.\<close>

definition plain :: "('z, 'd) ui_env \<Rightarrow> bool" where
  "plain E \<longleftrightarrow> (\<forall>n d. getConfigVar (e_href E) (e_hash E) n d = Ret d)"

lemma plain_config: "plain E \<Longrightarrow> with_config E n d k = k d"
  by (auto simp: plain_def with_config_def fun_eq_iff)

lemma initSetting_returns: "plain E \<Longrightarrow> fst (initSetting E n d u) = Ret ()"
  by (simp add: initSetting_def plain_config split: prod.split)

lemma triple_start:
  "soft_command c \<Longrightarrow> soft_closed P \<Longrightarrow> (plain E \<Longrightarrow> (\<And>u. fst (c u) = Ret ())) \<Longrightarrow> plain E \<or> (\<forall>u. X u) \<Longrightarrow> triple P c P X"
  using triple_calm [of c P X] triple_soft [of c P X] by blast

lemma initSettings_labels:
  assumes "plain E \<or> (\<forall>u. X u)"
  shows "triple fresh (initSettings E document_labels) (\<lambda>u. down u \<and> idle u) X"
proof -
  have labels: "triple fresh (upd (setupSettingLabels 0 document_labels)) (\<lambda>u. down u \<and> idle u) X"
    by (rule triple_upd) (simp add: fresh_down labels_fresh document_labelled)
  have init: "triple fresh (initSetting E n d) fresh X" for n d
    by (rule triple_start [OF soft_initSetting soft_fresh initSetting_returns assms])
  have logging: "triple fresh (updateLogging E) fresh X"
    by (rule triple_calm [OF soft_logging soft_fresh])
      (simp add: updateLogging_def with_setting_def upd_def split: prod.split)
  have option: "triple fresh (upd (addOption n v)) fresh X" for n v
    by (rule triple_soft_upd [OF soft_addOption soft_fresh])
  show ?thesis unfolding initSettings_def
    by ((rule triple_cons, (rule init logging option))+, rule triple_cons [OF labels triple_nil])
qed

lemma soft_side_setting:
  "soft_command (\<lambda>u. case readSetting ''controlbar_pos'' None (u_web u) of (v, w) \<Rightarrow>
     guard (\<lambda>u. v = JStr (lit ''right'')) (upd (toggleControlbarSide E)) (u\<lparr>u_web := w\<rparr>))"
  by (simp add: soft_command_def guard_def upd_def soft_side soft_fields split: prod.split)

lemma start_ok:
  assumes "plain E \<or> (\<forall>u. X u)"
  shows "triple fresh (ui_start E) ui_ok X"
proof -
  let ?D = "\<lambda>u. down u \<and> idle u"
  have D: "triple ?D (upd f) ?D X" if "\<And>u. soft u u \<Longrightarrow> soft u (f u)" for f
    by (rule triple_soft_upd [OF that down_idle_soft])
  have https: "triple ?D (guard (\<lambda>u. \<not> e_secure E) (upd (showStatus msg ty))) ?D X" for msg ty
    by (rule triple_guard [OF triple_pre [OF D [OF soft_timers(3)]]]) simp_all
  have side: "triple ?D (\<lambda>u. case readSetting ''controlbar_pos'' None (u_web u) of (v, w) \<Rightarrow>
     guard (\<lambda>u. v = JStr (lit ''right'')) (upd (toggleControlbarSide E)) (u\<lparr>u_web := w\<rparr>)) ?D X"
    by (rule triple_calm [OF soft_side_setting down_idle_soft]) (simp add: guard_def upd_def split: prod.split)
  have loaded: "triple resting (upd (remove_class ERoot CLoading)) resting X"
    by (rule triple_soft_upd [OF _ soft_resting]) (intro soft_classes; simp)
  have opens: "triple resting (upd openConnectPanel) ui_ok X" by (rule triple_upd) (rule resting_opens)
  have go: "triple resting (with_config E ''autoconnect'' None (\<lambda>v. if v = Some (lit ''true'') \<or> v = Some (lit ''1'')
      then ui_connect E None else upd openConnectPanel)) ui_ok X"
  proof (cases "plain E")
    case False
    then have X: "\<And>u. X u" using assms by blast
    have "triple resting (ui_connect E None) ui_ok X"
      by (rule triple_conseq [OF ui_connect_keeps]) (simp_all add: resting_def idle_def X)
    then show ?thesis by (intro triple_config triple_if opens) (simp_all add: X)
  qed (simp add: plain_config opens)
  show ?thesis unfolding ui_start_def
    by (rule triple_cons [OF initSettings_labels [OF assms] triple_cons [OF https triple_cons [OF side
        triple_cons [OF D triple_cons [OF D triple_cons [OF D triple_cons [OF visual_idle triple_cons [OF loaded
        triple_cons [OF go triple_nil]]]]]]]]]) (simp_all add: soft_misc soft_openControlbar)
qed

lemma reachable_ok: "ui_reachable Es u \<Longrightarrow> ui_ok u"
proof (induction rule: ui_reachable.induct)
  case (ui_begin E w ctrls u)
  then show ?case using start_ok [of E "\<lambda>_. True"] fresh_new [of w ctrls] by (auto simp: triple_def dest!: spec [of _ "new_ui w ctrls"])
next
  case (ui_happens u E a)
  then show ?case using keepsD [OF ui_step_keeps] by blast
next
  case (ui_hears u E)
  then show ?case using keepsD [OF hear_keeps] by blast
qed


lemma plain_starts:
  assumes "plain E"
  shows "ui_reachable {E} (snd (ui_start E (new_ui w ctrls)))"
proof -
  have "triple fresh (ui_start E) ui_ok (\<lambda>_. False)" using assms by (intro start_ok) simp
  then have "fst (ui_start E (new_ui w ctrls)) = Ret ()" using fresh_new [of w ctrls] unfolding triple_def by metis
  then show ?thesis by (intro ui_begin [of E _ w ctrls]) (simp_all add: prod_eq_iff)
qed

end
