(* ===== verification/Ui_Final.thy ===== *)
theory Ui_Final
  imports Ui_Input Ui_Life
begin

text \<open>
  Properties of the stand-alone page: it is consistent in every reachable state, a disconnection by the user is
  final, the handle of the control bar stays in the bar, and what happens to the control bar without a client.
\<close>

section \<open>Consistent pages\<close>

lemma one_timer:
  assumes "timers_ok ts n var" "t \<in> tracked"
  shows "length (filter (\<lambda>x. snd x = t) ts) \<le> 1"
proof -
  have same: "fst x = i" if "var t = Some i" "x \<in> set ts" "snd x = t" for x i
    using timers_okD(3) [OF assms(1), of "fst x" t] assms(2) that by auto
  have "distinct (map fst (filter (\<lambda>x. snd x = t) ts))"
    using timers_okD(1) [OF assms(1)] by (simp add: distinct_map_filter)
  then have "length (filter (\<lambda>x. snd x = t) ts) = card (fst ` set (filter (\<lambda>x. snd x = t) ts))"
    using distinct_card [of "map fst (filter (\<lambda>x. snd x = t) ts)"] by simp
  also have "\<dots> \<le> card (set_option (var t))"
    using same timers_okD(3) [OF assms(1)] assms(2) by (intro card_mono) (auto simp: elem_set)
  also have "\<dots> \<le> 1" by (cases "var t") simp_all
  finally show ?thesis .
qed

text \<open>C10: The page is consistent whatever the user, the network and the timers do. In every state that can be
  reached at most one panel is open and exactly its button is selected; at most one state of the connection is
  shown; a status message that is shown goes away by itself exactly when it is no error; of each of the four
  kinds of timers the page remembers at most one is running; the control bar closes by itself only while
  connected, and connected means there is a client; with a client the connect dialog is closed and no
  reconnection is due, and while a reconnection is due the dialog is closed.\<close>

theorem page_consistent:
  assumes "ui_reachable Es u"
  shows "panels_ok (u_classes u) \<and> root_ok (u_classes u ERoot) \<and>
    status_ok (u_classes u EStatus) (THideStatus \<in> kinds u) \<and>
    (\<forall>t \<in> tracked. length (filter (\<lambda>x. snd x = t) (u_timers u)) \<le> 1) \<and>
    (TClose \<in> kinds u \<longrightarrow> u_connected u) \<and> (u_connected u \<longrightarrow> rfb_defined u) \<and>
    (rfb_defined u \<longrightarrow> \<not> has_class EConnectDlg COpen u \<and> TReconnect \<notin> kinds u) \<and>
    (TReconnect \<in> kinds u \<longrightarrow> \<not> has_class EConnectDlg COpen u)"
proof -
  have ok: "ui_ok u" using assms by (rule reachable_ok)
  then have page: "page_ok u" by (simp add: ui_ok_def session_ok_def)
  have "u_connected u \<longrightarrow> rfb_defined u"
    using ok by (auto simp: ui_ok_def session_ok_def client_ok_def rfb_defined_def split: option.splits)
  then show ?thesis
    using ok page_okD [OF page] one_timer [OF page_okD(4) [OF page]]
    by (simp add: ui_ok_def session_ok_def rfb_defined_def has_class_def)
qed

definition demo_page :: "unit ui" where
  "demo_page = snd (ui_start demo_env (new_ui demo_web (\<lambda>n. demo_control)))"

lemma demo_plain: "plain demo_env"
  by (simp add: plain_def demo_env_def getConfigVar_def getHashVar_def getQueryVar_def decoded_def)

theorem page_consistent_witness:
  "ui_reachable {demo_env} demo_page \<and> panels_ok (u_classes demo_page) \<and>
   status_ok (u_classes demo_page EStatus) (THideStatus \<in> kinds demo_page)"
proof -
  have "ui_reachable {demo_env} demo_page" unfolding demo_page_def using demo_plain by (rule plain_starts)
  then show ?thesis using page_consistent [of "{demo_env}" demo_page] by simp
qed

section \<open>A disconnection is final\<close>

text \<open>The client is on its way out, and nothing will start another.\<close>

definition leaving :: "'z rfb option \<Rightarrow> nat \<Rightarrow> bool" where
  "leaving rfb h \<longleftrightarrow>
     (case rfb of
        None \<Rightarrow> True
      | Some r \<Rightarrow> rfbConnectionState r \<in> {Disconnecting, Disconnected} \<and> EvConnect \<notin> set (drop h (events r)))"

definition parting :: "'z ui \<Rightarrow> bool" where
  "parting u \<longleftrightarrow> u_inhibitReconnect u \<and> \<not> u_connected u \<and> TReconnect \<notin> kinds u \<and> leaving (u_rfb u) (u_heard u)"

definition parted :: "'z ui \<Rightarrow> bool" where
  "parted u \<longleftrightarrow> parting u \<and> (u_rfb u = None \<longrightarrow> COpen \<in> u_classes u EConnectDlg)"

lemma link_leaving:
  assumes "link_step\<^sup>*\<^sup>* a b" "fst a \<in> {Disconnecting, Disconnected}"
  shows "fst b \<in> {Disconnecting, Disconnected} \<and> (\<exists>evs. snd b = snd a @ evs \<and> EvConnect \<notin> set evs)"
  using assms(1)
proof (induction rule: rtranclp_induct)
  case (step b c)
  then show ?case using assms(2) by (auto elim!: link_step.cases)
qed (use assms(2) in simp)

lemma leaving_moved:
  assumes "leaving a h" "client_moved a b"
  shows "leaving b h"
proof (cases a)
  case (Some r)
  then obtain r' evs where r': "b = Some r'" "link_step\<^sup>*\<^sup>* (link_of r) (link_of r')" "events r' = events r @ evs"
    using assms(2) by (auto simp: client_moved_def grown_def split: option.splits)
  have "fst (link_of r) \<in> {Disconnecting, Disconnected}" using assms(1) Some by (simp add: leaving_def link_of_def)
  from link_leaving [OF r'(2) this] have state: "rfbConnectionState r' \<in> {Disconnecting, Disconnected}"
    and "EvConnect \<notin> set (filter life_event evs)"
    by (auto simp: link_of_def life_def r'(3))
  then have "EvConnect \<notin> set (drop n evs)" for n using set_drop_subset [of n evs] by auto
  then show ?thesis using assms(1) Some state by (simp add: leaving_def r'(1,3))
qed (use assms(2) in \<open>simp add: client_moved_def leaving_def split: option.splits\<close>)

lemma soft_parting: "soft_closed parting"
  unfolding soft_closed_def
proof (intro allI impI)
  fix u u' :: "'z ui"
  assume u: "parting u" and soft: "soft u u'"
  note f = softD(3-5) [OF soft]
  have "leaving (u_rfb u') (u_heard u)" using u by (intro leaving_moved [OF _ softD(6) [OF soft]]) (simp add: parting_def)
  moreover have "TReconnect \<notin> kinds u'" using u softD(8) [OF soft] by (auto simp: parting_def)
  ultimately show "parting u'" using u unfolding parting_def f by blast
qed

lemma soft_parted: "soft_closed parted"
  unfolding soft_closed_def
proof (intro allI impI)
  fix u u' :: "'z ui"
  assume u: "parted u" and soft: "soft u u'"
  then have "parting u'" using soft_closedD [OF soft_parting _ soft] by (simp add: parted_def)
  then show "parted u'" using u by (simp add: parted_def softD(9,11) [OF soft])
qed

lemma keeps_soft: "soft_closed P \<Longrightarrow> soft_command c \<Longrightarrow> keeps P c"
  unfolding keeps_def using soft_closedD soft_commandD by metis

lemma keeps_visual:
  assumes "soft_closed P" "\<And>u. P u \<Longrightarrow> P (show_visual E v u)"
    "\<And>u. P u \<Longrightarrow> P ((start_timer TClose u)\<lparr>u_closeControlbarTimeout := Some (u_nextTimer u)\<rparr>)"
  shows "keeps P (updateVisualState E v)"
proof -
  note soft = keeps_soft [OF assms(1)]
  have "keeps P c" if "c \<in> set ([updateViewClip E] @ map disableSetting connection_settings @
      [upd (\<lambda>u. (start_timer TClose u)\<lparr>u_closeControlbarTimeout := Some (u_nextTimer u)\<rparr>)])" for c
    using that soft [OF soft_viewClip] soft [OF soft_labels(1)] keeps_upd [of P, OF assms(3)] by auto
  moreover have "keeps P c" if "c \<in> set (map enableSetting connection_settings @ [updatePowerButton, upd keepControlbar])" for c
    using that soft [OF soft_labels(2)] soft [OF soft_power] soft [OF soft_updI [OF soft_timers(2)]] by auto
  moreover have "keeps P (upd (show_visual E v))" using assms(2) by (rule keeps_upd)
  moreover have "keeps P (upd closeAllPanels)" "keeps P (upd (remove_class EVerifyDlg COpen))"
    "keeps P (upd (remove_class ECredentialsDlg COpen))"
    by (rule soft, rule soft_updI, simp add: soft_closeAll soft_classes)+
  ultimately show ?thesis unfolding updateVisualState_def
    by (intro keeps_block) (auto intro!: keeps_cond keeps_block simp del: block.simps)
qed

lemma parting_frame:
  "parting (show_visual E v u) = parting u" "parted (show_visual E v u) = parted u"
  "parting ((start_timer TClose u)\<lparr>u_closeControlbarTimeout := i\<rparr>) = parting u"
  "parted ((start_timer TClose u)\<lparr>u_closeControlbarTimeout := i\<rparr>) = parted u"
  by (simp_all add: parted_def parting_def show_visual_fields) (simp_all add: start_timer_def kinds_def)

lemma parted_visual: "keeps parting (updateVisualState E v)" "keeps parted (updateVisualState E v)"
  by (intro keeps_visual; simp add: parting_frame soft_parting soft_parted)+

lemma triple_kept: "keeps P c \<Longrightarrow> triple P c P P"
  by (simp add: keeps_def triple_def)


section \<open>Runs of the page\<close>

lemma forget_parting: "parting u \<Longrightarrow> parting (u\<lparr>u_connected := False, u_rfb := None\<rparr>)"
  by (simp add: parting_def kinds_def leaving_def)

lemma opens_parted0: "parting u \<Longrightarrow> parted (openConnectPanel u)"
  by (simp add: parting_def parted_def openConnectPanel_def kinds_simps session_classes) (simp add: add_class_def)

lemma parted_finished0: "triple parting (disconnectFinished E clean) parted parting"
  unfolding disconnectFinished_def
proof (rule triple_read, rule triple_pre)
  fix con
  note S = triple_soft_upd [OF _ soft_parting, where X = parting]
  have V: "triple parting (updateVisualState E v) parting parting" for v by (rule triple_kept [OF parted_visual(1)])
  have forget: "triple parting (upd (\<lambda>u. u\<lparr>u_connected := False, u_rfb := None\<rparr>)) parting parting"
    by (rule triple_upd) (rule forget_parting)
  have status: "triple parting (guard (\<lambda>u. \<not> clean) (block [updateVisualState E VDisconnected, upd (showStatus msg ty)])) parting parting" for msg ty
    by (rule triple_guard, rule triple_pre [OF triple_cons [OF V triple_cons [OF S triple_nil]]]) (simp_all add: soft_timers)
  have "triple parting (block [updateVisualState E VDisconnected, upd (showStatus msg ty), upd (\<lambda>u. u\<lparr>u_title := title\<rparr>),
      upd openControlbar, upd openConnectPanel]) parted parting" for msg ty title
    by (rule triple_cons [OF V triple_cons [OF S triple_cons [OF S triple_cons [OF S triple_cons [OF triple_upd triple_nil]]]]])
      (simp_all add: soft_timers soft_fields soft_openControlbar opens_parted0)
  note disconnected = this
  have rest: "triple parting (with_setting E ''reconnect'' (\<lambda>v. cond (\<lambda>u. v = JBool True \<and> \<not> u_inhibitReconnect u) (c v)
      (block [updateVisualState E VDisconnected, upd (showStatus msg ty), upd (\<lambda>u. u\<lparr>u_title := title\<rparr>),
      upd openControlbar, upd openConnectPanel]))) parted parting" for c msg ty title
    by (rule triple_setting [OF soft_parting], rule triple_cond, rule triple_false, simp add: parting_def,
        rule triple_pre [OF disconnected], simp)
  show "triple parting (block
     [upd (\<lambda>u. u\<lparr>u_connected := False, u_rfb := None\<rparr>),
      guard (\<lambda>u. \<not> clean) (block
        [updateVisualState E VDisconnected,
         upd (showStatus (tr E (if con then ''Something went wrong, connection is closed''
           else ''Failed to connect to server'')) ''error'')]),
      with_setting E ''reconnect'' (\<lambda>v. cond (\<lambda>u. v = JBool True \<and> \<not> u_inhibitReconnect u)
        (block
          [updateVisualState E VReconnecting,
           with_setting E ''reconnect_delay'' (\<lambda>delay.
             upd (\<lambda>u. (start_timer TReconnect u)\<lparr>u_reconnectCallback := Some (u_nextTimer u)\<rparr>))])
        (block
          [updateVisualState E VDisconnected,
           upd (showStatus (tr E ''Disconnected'') ''normal''),
           upd (\<lambda>u. u\<lparr>u_title := PAGE_TITLE\<rparr>),
           upd openControlbar,
           upd openConnectPanel]))]) parted parting"
    by (rule triple_cons [OF forget triple_cons [OF status triple_cons [OF rest triple_nil]]])
qed simp


text \<open>A closed connection ends with the connect dialog, as nothing can fail on the way.\<close>

lemma triple_both:
  "triple P c Q X \<Longrightarrow> triple P' c Q' X' \<Longrightarrow> triple (\<lambda>u. P u \<and> P' u) c (\<lambda>u. Q u \<and> Q' u) (\<lambda>u. X u \<and> X' u)"
  by (simp add: triple_def)

lemma parted_finished:
  assumes "ui_ok u" "u_rfb u \<noteq> None" "parting (u\<lparr>u_heard := h\<rparr>)"
  shows "parted (snd (disconnectFinished E clean (u\<lparr>u_heard := h\<rparr>)))"
proof -
  have "triple (\<lambda>u. (\<exists>v h. ui_ok v \<and> u_rfb v \<noteq> None \<and> u = v\<lparr>u_heard := h\<rparr>) \<and> parting u) (disconnectFinished E clean)
      (\<lambda>u. ui_ok u \<and> parted u) (\<lambda>u. False \<and> parting u)"
    by (rule triple_both [OF disconnectFinished_keeps parted_finished0])
  then have "triple (\<lambda>u. (\<exists>v h. ui_ok v \<and> u_rfb v \<noteq> None \<and> u = v\<lparr>u_heard := h\<rparr>) \<and> parting u) (disconnectFinished E clean) parted parted"
    by (rule triple_conseq) simp_all
  from tripleD [OF this] show ?thesis using assms by blast
qed

lemma parted_hears: "ui_ok u \<Longrightarrow> parted u \<Longrightarrow> parted (snd (hear E u))"
proof -
  assume ok: "ui_ok u" and parted: "parted u"
  consider "hear E u = (Ret (), u)" | r where "u_rfb u = Some r" "u_heard u < length (events r)"
    by (cases "u_rfb u"; cases "u_heard u < length (events (the (u_rfb u)))") (simp_all add: hear_def)
  then show ?thesis
  proof cases
    case (2 r)
    let ?v = "u\<lparr>u_heard := Suc (u_heard u)\<rparr>"
    let ?ev = "events r ! u_heard u"
    have heard: "hear E u = ui_listen E ?ev ?v" using 2 by (simp add: hear_def)
    have rest: "drop (u_heard u) (events r) = ?ev # drop (Suc (u_heard u)) (events r)"
      using 2(2) by (simp add: Cons_nth_drop_Suc)
    then have v: "parting ?v" "?ev \<noteq> EvConnect"
      using parted 2(1) by (auto simp: parted_def parting_def leaving_def hear_frame)
    show ?thesis
    proof (cases "\<exists>c. ?ev = EvDisconnect c")
      case True
      then show ?thesis unfolding heard using parted_finished [OF ok _ v(1)] 2(1) by auto
    next
      case False
      have "parted ?v" using v(1) parted by (simp add: parted_def)
      moreover have "soft_command (ui_listen E ?ev)" using False v(2) by (intro soft_listens) auto
      ultimately show ?thesis unfolding heard using soft_closedD [OF soft_parted] soft_commandD by metis
    qed
  qed (simp add: parted)
qed

lemma parted_disconnects: "triple parted (ui_disconnect E) parted parted"
proof -
  have call: "triple parted (client E Disconnect) parted parted"
    by (rule triple_kept [OF keeps_soft [OF soft_parted soft_client]])
  have leave: "triple parted (upd (\<lambda>u. u\<lparr>u_connected := False, u_inhibitReconnect := True\<rparr>)) parted parted"
    by (rule triple_upd) (simp add: parted_def parting_def kinds_def)
  show ?thesis unfolding ui_disconnect_def
    by (rule triple_cons [OF call triple_cons [OF leave triple_cons [OF triple_kept [OF parted_visual(2)] triple_nil]]])
qed


lemma opens_parted: "parted u \<Longrightarrow> parted (openConnectPanel u)"
  by (rule opens_parted0) (simp add: parted_def)

lemma parted_timer: "parted u \<Longrightarrow> parted (clear_timer i u)"
  using kinds_simps(2) [of i u] by (auto simp: parted_def parting_def) (simp_all add: clear_timer_def)

lemma parted_forgets: "parted u \<Longrightarrow> parted ((clear_timer i u)\<lparr>u_reconnectCallback := None\<rparr>)"
  using parted_timer [of u i] by (simp add: parted_def parting_def kinds_def)

lemma parted_cancels: "keeps parted (cancelReconnect E)"
  unfolding cancelReconnect_def
proof (rule keeps_block)
  note upd = keeps_upd [where I = parted]
  have "keeps parted (upd (\<lambda>u. (clear_timer (u_reconnectCallback u) u)\<lparr>u_reconnectCallback := None\<rparr>))"
    by (rule upd) (rule parted_forgets)
  moreover have "keeps parted (upd openControlbar)" by (rule keeps_soft [OF soft_parted soft_updI [OF soft_openControlbar]])
  moreover have "keeps parted (upd openConnectPanel)" by (rule upd) (rule opens_parted)
  moreover fix c
  assume "c \<in> set [upd (\<lambda>u. (clear_timer (u_reconnectCallback u) u)\<lparr>u_reconnectCallback := None\<rparr>),
      updateVisualState E VDisconnected, upd openControlbar, upd openConnectPanel]"
  ultimately show "keeps parted c" using parted_visual(2) by auto
qed

lemma parted_fires: "keeps parted (ui_step E (TimerNumber i))"
  unfolding keeps_def
proof (intro allI impI)
  fix u :: "'a ui"
  assume parted: "parted u"
  show "parted (snd (ui_step E (TimerNumber i) u))"
  proof (cases "map_of (u_timers u) i")
    case (Some t)
    then have "t \<noteq> TReconnect" using parted map_of_SomeD by (force simp: parted_def parting_def kinds_def)
    then have "soft_command (block [ui_timer_fires E t])" by (intro soft_cons soft_nil soft_fires)
    moreover have "snd (ui_step E (TimerNumber i) u) = snd (block [ui_timer_fires E t] (clear_timer (Some i) u))"
      using Some by (simp add: read_def upd_def)
    ultimately show ?thesis using soft_closedD [OF soft_parted parted_timer [OF parted] soft_commandD] by metis
  qed (simp add: read_def parted)
qed

lemma parted_rejects: "keeps parted (rejectServer E)"
proof -
  have "triple parted (upd (remove_class EVerifyDlg COpen)) parted parted"
    by (rule triple_soft_upd [OF _ soft_parted]) (intro soft_classes; simp)
  then have "triple parted (rejectServer E) parted parted"
    unfolding rejectServer_def by (intro triple_cons [OF _ triple_cons [OF parted_disconnects triple_nil]])
  then show ?thesis by (rule triple_keeps)
qed

lemma parted_step: "a \<noteq> ConnectClicked \<Longrightarrow> keeps parted (ui_step E a)"
proof (cases a)
  case (TimerNumber i)
  then show ?thesis by (simp add: parted_fires del: ui_step.simps)
next
  case CancelReconnectClicked
  then show ?thesis by (simp add: keeps_guard parted_cancels)
next
  case RejectClicked
  then show ?thesis by (simp add: keeps_guard parted_rejects)
next
  case DisconnectClicked
  then show ?thesis by (simp add: triple_keeps parted_disconnects)
qed (simp_all add: keeps_soft [OF soft_parted] soft_step_op soft_steps del: ui_step.simps)

text \<open>What happens to a page: an operation, or the next event of the client being heard.\<close>

fun page_run :: "(('z, 'd) ui_env \<times> ui_op option) list \<Rightarrow> 'z ui \<Rightarrow> 'z ui" where
  "page_run [] u = u"
| "page_run ((E, Some a) # acts) u = page_run acts (snd (ui_step E a u))"
| "page_run ((E, None) # acts) u = page_run acts (snd (hear E u))"

lemma parted_run:
  "ui_ok u \<Longrightarrow> parted u \<Longrightarrow> Some ConnectClicked \<notin> snd ` set acts \<Longrightarrow> parted (page_run acts u)"
proof (induction acts u rule: page_run.induct)
  case (2 E a acts u)
  have "a \<noteq> ConnectClicked" "Some ConnectClicked \<notin> snd ` set acts" using 2(4) by auto
  then show ?case using 2 keepsD [OF ui_step_keeps, of u E a] keepsD [OF parted_step, of a u E] by simp
next
  case (3 E acts u)
  then show ?case using keepsD [OF hear_keeps, of u E] parted_hears [of u E] by simp
qed simp

lemma disconnect_leaves:
  assumes "link_ok (rfbConnectionState r) (life r)" "length (events r) \<le> h"
  shows "leaving (Some (disconnect r)) h"
proof -
  have core: "core (disconnect r) = core (leave_to Disconnecting r)"
    by (simp add: disconnect_def core_def on_page_def armed_def life_def)
  have "rfbConnectionState (disconnect r) \<in> {Disconnecting, Disconnected} \<and> life (disconnect r) = life r"
  proof (cases "rfbConnectionState r = Connecting \<or> rfbConnectionState r = Connected")
    case True
    then show ?thesis using core leave_to_Disconnecting [of r] by (simp add: core_def)
  next
    case False
    then have "rfbConnectionState r \<in> {Disconnecting, Disconnected}" using assms(1) by (cases "rfbConnectionState r") auto
    moreover have "leave_to Disconnecting r = r" 
      by (rule leave_to_cases [of Disconnecting r]) (use False in auto)
    ultimately show ?thesis using core by (simp add: core_def)
  qed
  moreover obtain evs where evs: "events (disconnect r) = events r @ evs"
    using rfb_step_grown [of r undefined Disconnect] by (auto simp: grown_def)
  ultimately have "filter life_event evs = []" by (simp add: life_def)
  then have "EvConnect \<notin> set evs" by (auto simp: filter_empty_conv)
  then have "EvConnect \<notin> set (drop n evs)" for n using set_drop_subset [of n evs] by auto
  then show ?thesis
    using assms(2) evs \<open>rfbConnectionState (disconnect r) \<in> _ \<and> _\<close> by (simp add: leaving_def)
qed

lemma disconnect_parts:
  assumes "ui_ok u" "all_heard u" "rfb_defined u"
  shows "parted (snd (ui_disconnect E u))"
proof -
  obtain r where r: "u_rfb u = Some r" using assms(3) by (auto simp: rfb_defined_def)
  let ?v = "u\<lparr>u_rfb := Some (disconnect r), u_connected := False, u_inhibitReconnect := True\<rparr>"
  have "leaving (Some (disconnect r)) (u_heard u)"
    using assms(1,2) r by (intro disconnect_leaves) (simp_all add: ui_ok_def session_ok_def client_ok_def all_heard_def)
  then have "parted ?v" using assms(1) r by (simp add: parted_def parting_def ui_ok_def session_ok_def kinds_def)
  moreover have "snd (ui_disconnect E u) = snd (block [updateVisualState E VDisconnecting] ?v)"
    using r by (simp add: ui_disconnect_def client_def on_rfb_def upd_def)
  moreover have "keeps parted (block [updateVisualState E VDisconnecting])"
    using parted_visual(2) by (intro keeps_block) simp
  ultimately show ?thesis using keepsD by metis
qed

text \<open>C9: A disconnection by the user is final. After a click on the disconnect button of a page with a client,
  whatever happens in whatever order, short of a click on the connect button, the page is not connected and will
  not connect by itself: no reconnection is due, and the only client there can be is the one that was told to
  leave, which is disconnecting or disconnected. Once that client is gone the connect dialog is open.\<close>

theorem disconnect_is_final:
  assumes "ui_ok u" "all_heard u" "rfb_defined u" "Some ConnectClicked \<notin> snd ` set acts"
    "u' = page_run acts (snd (ui_step E DisconnectClicked u))"
  shows "\<not> u_connected u' \<and> TReconnect \<notin> kinds u' \<and>
    (case u_rfb u' of
       None \<Rightarrow> has_class EConnectDlg COpen u'
     | Some r \<Rightarrow> rfbConnectionState r \<in> {Disconnecting, Disconnected})"
proof -
  have "parted u'" unfolding assms(5)
    using assms(1-4) disconnect_parts keepsD [OF ui_step_keeps, of u E DisconnectClicked] by (intro parted_run) auto
  then show ?thesis
    by (simp add: parted_def parting_def leaving_def has_class_def split: option.splits)
qed

definition demo_connecting :: "unit ui" where
  "demo_connecting = (new_ui demo_web (\<lambda>n. demo_control))\<lparr>u_rfb := Some demo_client, u_heard := length (events demo_client)\<rparr>"

lemma demo_connecting_ok: "ui_ok demo_connecting"
proof -
  have "fresh (new_ui demo_web (\<lambda>n. demo_control) :: unit ui)" by (rule fresh_new)
  moreover have "page_ok demo_connecting = page_ok (new_ui demo_web (\<lambda>n. demo_control) :: unit ui)"
    unfolding demo_connecting_def by (rule page_ok_view) (simp add: view_fields)
  moreover have "EvDisconnect c \<notin> set (events demo_client)" for c
    using demo_state(2) by (auto simp: life_def filter_empty_conv)
  ultimately show ?thesis using demo_state
    by (simp add: ui_ok_def session_ok_def fresh_def idle_def)
      (simp add: demo_connecting_def new_ui_def kinds_def labelled_def labels_of_def demo_control_def client_ok_def)
qed

theorem disconnect_is_final_witness:
  "\<not> u_connected (page_run [(demo_env, None), (demo_env, Some SettingsClicked), (demo_env, Some (TimerNumber 0))]
     (snd (ui_step demo_env DisconnectClicked demo_connecting)))"
proof -
  let ?acts = "[(demo_env, None), (demo_env, Some SettingsClicked), (demo_env, Some (TimerNumber 0))]"
  have "all_heard demo_connecting" "rfb_defined demo_connecting"
    by (simp_all add: demo_connecting_def all_heard_def rfb_defined_def)
  moreover have "Some ConnectClicked \<notin> snd ` set ?acts" by simp
  ultimately show ?thesis using disconnect_is_final [OF demo_connecting_ok _ _ _ refl] by blast
qed

section \<open>The control bar\<close>

text \<open>C40: The handle of the control bar stays in the bar. Wherever it is dragged, it is put at least ten pixels
  from both ends when the bar has room for that, and in the middle when it has not; a bar or handle that is not
  laid out leaves it where it is.\<close>

theorem handle_stays_in_bar:
  assumes "0 < e_barHeight E" "0 < e_handleHeight E"
  shows "\<exists>y. u_handle_y (moveControlbarHandle E Y u) = Some y \<and>
    (e_handleHeight E + 20 \<le> e_barHeight E \<longrightarrow> 10 \<le> y \<and> y + e_handleHeight E + 10 \<le> e_barHeight E) \<and>
    (e_barHeight E < e_handleHeight E + 20 \<longrightarrow> y = (e_barHeight E - e_handleHeight E) / 2) \<and>
    (10 \<le> Y - e_barTop E \<and> Y - e_barTop E + e_handleHeight E + 10 \<le> e_barHeight E \<longrightarrow> y = Y - e_barTop E)"
  using assms by (auto simp: moveControlbarHandle_def Let_def)

theorem handle_stays_in_bar_witness:
  "\<exists>y. u_handle_y (moveControlbarHandle demo_env 1000 demo_connecting) = Some y \<and> y + 60 + 10 \<le> 300"
  using handle_stays_in_bar [of demo_env 1000 demo_connecting] by (auto simp: demo_env_def)

text \<open>A click on the handle closes the bar and gives the focus to the client; without a client that fails after the
  bar was closed, and the handle stays grabbed.\<close>

lemma handle_click_without_client:
  assumes "u_rfb u = None" "u_controlbarGrabbed u" "\<not> u_controlbarDrag u" "has_class EControlBar COpen u"
  shows "\<exists>u'. controlbarHandleMouseUp False u = (Throw TypeError, u') \<and> u_controlbarGrabbed u' \<and>
    \<not> has_class EControlBar COpen u'"
proof -
  let ?v = "remove_class EControlBar COpen (closeAllPanels u)"
  have v: "u_rfb ?v = None" "u_controlbarGrabbed ?v" "\<not> has_class EControlBar COpen ?v"
    using assms(1,2)
    by (simp_all add: closeAllPanels_def closeSettingsPanel_def closePowerPanel_def closeClipboardPanel_def
        closeExtraKeys_def closePanel_def remove_class_def has_class_def)
  then have "closeControlbar u = (Throw TypeError, ?v)"
    by (simp add: closeControlbar_def upd_def rfb_focus_def on_rfb_def)
  then show ?thesis using assms v
    by (simp add: controlbarHandleMouseUp_def guard_def toggleControlbar_def cond_def)
qed

end
