(* ===== verification/Aes_Eax.thy ===== *)
theory Aes_Eax
  imports Crypto
begin

text \<open>
  The cipher of the RSA-AES authentication: AES in EAX mode, \<open>AESEAXCipher\<close> of \<open>core/crypto/aes.js\<close>, and the
  message format on top of it, \<open>RA2Cipher\<close> of \<open>core/ra2.js\<close>. The browser's AES in the counter and the cipher
  block chaining mode are arguments; what their documentation says of them are the predicates \<open>cbc_documented\<close>
  and \<open>ctr_documented\<close>. The subkeys are shown to be the doublings that the CMAC standard defines, the code that
  computes a MAC from one chained encryption is shown to compute CMAC, and decryption is shown to accept exactly
  what encryption produces.
\<close>

section \<open>AES-EAX\<close>

text \<open>The browser's ciphers take a key, an initial vector or counter, and data.\<close>

record webcrypto =
  wc_cbc :: "bytes \<Rightarrow> bytes \<Rightarrow> bytes \<Rightarrow> bytes"
  wc_ctr_encrypt :: "bytes \<Rightarrow> bytes \<Rightarrow> bytes \<Rightarrow> bytes"
  wc_ctr_decrypt :: "bytes \<Rightarrow> bytes \<Rightarrow> bytes \<Rightarrow> bytes"

record eax =
  eax_rawKey :: bytes
  eax_k1 :: bytes
  eax_k2 :: bytes

definition zeroBlock :: bytes where "zeroBlock = u8_new 16"

definition prefixBlock :: "byte \<Rightarrow> bytes" where
  "prefixBlock t = replicate 15 0 @ [t]"

definition encryptBlock :: "webcrypto \<Rightarrow> bytes \<Rightarrow> bytes \<Rightarrow> bytes" where
  "encryptBlock C key blk = take 16 (wc_cbc C key zeroBlock blk)"

text \<open>One round of the loop stores a cell of \<open>k2\<close>, then one of \<open>k1\<close>.\<close>

definition cmac_round :: "nat \<Rightarrow> bytes \<times> bytes \<Rightarrow> bytes \<times> bytes" where
  "cmac_round i ks =
     (let (k1, k2) = ks;
          a = uint (k1 ! i); b = uint (k1 ! (i + 1))
      in (k1[i := u8 (js_or (js_sar b 7) (js_shl a 1))], k2[i := u8 (js_or (js_sar b 6) (js_shl a 2))]))"

definition cmac_lut :: "int list" where "cmac_lut = [0x0, 0x87, 0x0e, 0x89]"

definition cmac_keys :: "bytes \<Rightarrow> bytes \<times> bytes" where
  "cmac_keys l =
     (let v = js_shr (uint (l ! 0)) 6;
          (k1, k2) = fold cmac_round [0..<15] (l, u8_new 16);
          k2 = k2[14 := u8 (js_xor (uint (k2 ! 14)) (js_shr v 1))];
          k2 = k2[15 := u8 (js_xor (js_shl (uint (k1 ! 15)) 2) (cmac_lut ! nat v))];
          k1 = k1[15 := u8 (js_xor (js_shl (uint (k1 ! 15)) 1) (cmac_lut ! nat (js_sar v 1)))]
      in (k1, k2))"

definition eax_importKey :: "webcrypto \<Rightarrow> bytes \<Rightarrow> eax" where
  "eax_importKey C key =
     (case cmac_keys (encryptBlock C key zeroBlock) of
        (k1, k2) \<Rightarrow> \<lparr>eax_rawKey = key, eax_k1 = k1, eax_k2 = k2\<rparr>)"

definition xor_at :: "nat \<Rightarrow> bytes \<Rightarrow> bytes \<Rightarrow> bytes" where
  "xor_at off k data = fold (\<lambda>i d. d[off + i := d ! (off + i) XOR k ! i]) [0..<16] data"

definition computeCMAC :: "webcrypto \<Rightarrow> eax \<Rightarrow> bytes \<Rightarrow> bytes \<Rightarrow> bytes option" where
  "computeCMAC C c data prefixBlk =
     (if length prefixBlk \<noteq> 16 then None
      else
        let n = length data div 16;
            m = (length data + 15) div 16;
            r = length data - n * 16;
            cbcData = overlay (overlay (u8_new ((m + 1) * 16)) 0 prefixBlk) 16 data;
            cbcData = (if r = 0 then xor_at (n * 16) (eax_k1 c) cbcData
                       else xor_at ((n + 1) * 16) (eax_k2 c) (cbcData[(n + 1) * 16 + r := 0x80]));
            cbcEncrypted = wc_cbc C (eax_rawKey c) zeroBlock cbcData
        in Some (slice cbcEncrypted (length cbcEncrypted - 32) (length cbcEncrypted - 16)))"

definition xor_bytes :: "bytes \<Rightarrow> bytes \<Rightarrow> bytes" where
  "xor_bytes = map2 (\<lambda>a b. a XOR b)"

text \<open>The three MACs of a message: the nonce, the additional data, the encrypted text.\<close>

definition eax_mac :: "webcrypto \<Rightarrow> eax \<Rightarrow> bytes \<Rightarrow> bytes \<Rightarrow> bytes \<Rightarrow> bytes" where
  "eax_mac C c nonce ad encrypted =
     (let nCMAC = the (computeCMAC C c nonce (prefixBlock 0));
          adCMAC = the (computeCMAC C c ad (prefixBlock 1));
          mac = the (computeCMAC C c encrypted (prefixBlock 2))
      in fold (\<lambda>i m. m[i := m ! i XOR (nCMAC ! i XOR adCMAC ! i)]) [0..<16] mac)"

definition eax_encrypt :: "webcrypto \<Rightarrow> eax \<Rightarrow> bytes \<Rightarrow> bytes \<Rightarrow> bytes \<Rightarrow> bytes" where
  "eax_encrypt C c nonce ad message =
     (let nCMAC = the (computeCMAC C c nonce (prefixBlock 0));
          encrypted = wc_ctr_encrypt C (eax_rawKey c) nCMAC message;
          mac = eax_mac C c nonce ad encrypted
      in overlay (overlay (u8_new (16 + length encrypted)) 0 encrypted) (length encrypted) mac)"

text \<open>\<open>slice\<close> counts a negative index from the end.\<close>

definition from_end :: "nat \<Rightarrow> int \<Rightarrow> nat" where
  "from_end len i = (if i < 0 then nat (int len + i) else nat i)"

definition eax_decrypt :: "webcrypto \<Rightarrow> eax \<Rightarrow> bytes \<Rightarrow> bytes \<Rightarrow> bytes \<Rightarrow> bytes option" where
  "eax_decrypt C c nonce ad data =
     (let cut = from_end (length data) (int (length data) - 16);
          encrypted = slice data 0 cut;
          mac = slice data cut (length data);
          nCMAC = the (computeCMAC C c nonce (prefixBlock 0));
          computedMac = eax_mac C c nonce ad encrypted
      in if length computedMac \<noteq> length mac then None
         else if \<exists>i \<in> {0..<length mac}. computedMac ! i \<noteq> mac ! i then None
         else Some (wc_ctr_decrypt C (eax_rawKey c) nCMAC encrypted))"


section \<open>Messages\<close>

record ra2_cipher =
  rc_cipher :: eax
  rc_counter :: bytes

definition new_ra2_cipher :: "webcrypto \<Rightarrow> bytes \<Rightarrow> ra2_cipher" where
  "new_ra2_cipher C key = \<lparr>rc_cipher = eax_importKey C key, rc_counter = u8_new 16\<rparr>"

text \<open>The counter is incremented from its first byte on, with carry.\<close>

function bump :: "nat \<Rightarrow> bytes \<Rightarrow> bytes" where
  "bump i c = (if i < 16 then
     (let old = c ! i; c = c[i := old + 1] in if old = 255 then bump (i + 1) c else c) else c)"
  by pat_completeness auto
termination by (relation "measure (\<lambda>(i, c). 16 - i)") auto

declare bump.simps [simp del]

definition length_bytes :: "nat \<Rightarrow> bytes" where
  "length_bytes len = [u8 (js_shr (js_and (int len) 0xff00) 8), u8 (js_and (int len) 0xff)]"

definition makeMessage :: "webcrypto \<Rightarrow> bytes \<Rightarrow> ra2_cipher \<Rightarrow> bytes \<times> ra2_cipher" where
  "makeMessage C message c =
     (let ad = length_bytes (length message);
          encrypted = eax_encrypt C (rc_cipher c) (rc_counter c) ad message;
          c = c\<lparr>rc_counter := bump 0 (rc_counter c)\<rparr>
      in (overlay (overlay (u8_new (length message + 2 + 16)) 0 ad) 2 encrypted, c))"

definition receiveMessage :: "webcrypto \<Rightarrow> nat \<Rightarrow> bytes \<Rightarrow> ra2_cipher \<Rightarrow> bytes option \<times> ra2_cipher" where
  "receiveMessage C len encrypted c =
     (eax_decrypt C (rc_cipher c) (rc_counter c) (length_bytes len) encrypted,
      c\<lparr>rc_counter := bump 0 (rc_counter c)\<rparr>)"

section \<open>Subkeys\<close>

text \<open>A block as a number of 128 bits, most significant byte first, and the doubling of the CMAC standard.\<close>

fun be :: "bytes \<Rightarrow> 128 word" where
  "be [] = 0"
| "be (b # bs) = push_bit (8 * length bs) (ucast b) XOR be bs"

definition dbl :: "128 word \<Rightarrow> 128 word" where
  "dbl x = push_bit 1 x XOR (if bit x 127 then 0x87 else 0)"

fun shifted :: "nat \<Rightarrow> bytes \<Rightarrow> bytes" where
  "shifted k [] = []"
| "shifted k [b] = [push_bit k b]"
| "shifted k (b # c # bs) = (drop_bit (8 - k) c OR push_bit k b) # shifted k (c # bs)"

lemma length_shifted [simp]: "length (shifted k bs) = length bs"
  by (induction k bs rule: shifted.induct) simp_all

lemma ucast_split:
  assumes "k \<le> 8"
  shows "push_bit k (ucast (b :: byte)) = (ucast (push_bit k b) XOR push_bit 8 (ucast (drop_bit (8 - k) b)) :: 128 word)"
  using assms by (intro bit_word_eqI) (auto simp: bit_simps)

lemma ucast_or_shift:
  assumes "k \<le> 8"
  shows "(ucast (drop_bit (8 - k) (c :: byte) OR push_bit k b) :: 128 word) = ucast (drop_bit (8 - k) c) XOR ucast (push_bit k b)"
proof (rule bit_word_eqI)
  fix n
  have "\<not> bit c (8 - k + n)" if "k \<le> n" using that assms bit_imp_le_length [of c "8 - k + n"] by auto
  then show "bit (ucast (drop_bit (8 - k) c OR push_bit k b) :: 128 word) n \<longleftrightarrow>
      bit (ucast (drop_bit (8 - k) c) XOR ucast (push_bit k b) :: 128 word) n"
    using assms by (auto simp: bit_simps)
qed

lemma push_be:
  "k \<le> 8 \<Longrightarrow> bs \<noteq> [] \<Longrightarrow>
   push_bit k (be bs) = be (shifted k bs) XOR push_bit (8 * length bs) (ucast (drop_bit (8 - k) (hd bs)))"
proof (induction k bs rule: shifted.induct)
  case (2 k b)
  then show ?case using ucast_split [of k b] by simp
next
  case (3 k b c bs)
  let ?m = "8 * length (c # bs)"
  have "push_bit k (be (b # c # bs)) = push_bit ?m (push_bit k (ucast b)) XOR push_bit k (be (c # bs))"
    by (simp only: be.simps(2) [of b] push_bit_xor push_bit_push_bit add.commute)
  also have "\<dots> = push_bit ?m (ucast (push_bit k b) XOR push_bit 8 (ucast (drop_bit (8 - k) b))) XOR
      (be (shifted k (c # bs)) XOR push_bit ?m (ucast (drop_bit (8 - k) c)))"
    using 3 ucast_split [of k b] by simp
  also have "\<dots> = be (shifted k (b # c # bs)) XOR push_bit (8 * length (b # c # bs)) (ucast (drop_bit (8 - k) b))"
    using ucast_or_shift [OF "3.prems"(1), of c b] by (simp add: push_bit_xor push_bit_push_bit ac_simps)
  finally show ?case by simp
qed simp

text \<open>Changing the last bytes is adding a number.\<close>

lemma be_append: "be (xs @ ys) = push_bit (8 * length ys) (be xs) XOR be ys"
  by (induction xs) (simp_all add: push_bit_xor push_bit_push_bit ac_simps)

lemma push_block:
  assumes "k \<le> 8" "length l = 16"
  shows "push_bit k (be l) = be (shifted k l)"
proof -
  have "l \<noteq> []" using assms(2) by auto
  moreover have "push_bit 128 x = (0 :: 128 word)" for x by (intro bit_word_eqI) (simp add: bit_simps)
  ultimately show ?thesis using push_be [OF assms(1)] assms(2) by simp
qed

text \<open>The cells the loop stores.\<close>

lemma stored_cell:
  fixes b c :: byte
  assumes "k \<le> 8"
  shows "u8 (js_or (js_sar (uint c) j) (js_shl (uint b) k)) = drop_bit j c OR push_bit k b"
    "u8 (js_shl (uint b) k) = push_bit k b"
    "u8 (js_xor (js_shl (uint b) k) n) = push_bit k b XOR u8 n"
  unfolding js_or_def js_xor_def js_sar_def js_shl_def toInt32_byte u8_def
  using assms by (intro bit_word_eqI; auto simp: toInt32_def bit_simps min_def)+

text \<open>What the loop leaves: the first fifteen bytes of the block shifted by one and by two.\<close>

lemma cmac_rounds:
  assumes "length l = 16" "n \<le> 15"
  shows "fold cmac_round [0..<n] (l, u8_new 16) =
    (map (\<lambda>i. drop_bit 7 (l ! (i + 1)) OR push_bit 1 (l ! i)) [0..<n] @ drop n l,
     map (\<lambda>i. drop_bit 6 (l ! (i + 1)) OR push_bit 2 (l ! i)) [0..<n] @ u8_new (16 - n))"
  using assms(2)
proof (induction n)
  case (Suc n)
  have "drop n l = l ! n # drop (Suc n) l" using Suc assms(1) by (simp add: Cons_nth_drop_Suc)
  moreover have "u8_new (16 - n) = 0 # u8_new (16 - Suc n)"
    using Suc by (simp add: u8_new_def replicate_Suc [symmetric] Suc_diff_Suc del: replicate_Suc)
  ultimately show ?case
    using Suc assms(1) stored_cell(1) [of 1 "l ! Suc n" 7 "l ! n"] stored_cell(1) [of 2 "l ! Suc n" 6 "l ! n"]
    by (simp add: cmac_round_def nth_append list_update_append)
qed (simp add: u8_new_def)

lemma shifted_map:
  "bs \<noteq> [] \<Longrightarrow> shifted k bs =
     map (\<lambda>i. drop_bit (8 - k) (bs ! (i + 1)) OR push_bit k (bs ! i)) [0..<length bs - 1] @ [push_bit k (last bs)]"
proof (induction k bs rule: shifted.induct)
  case (3 k b c bs)
  then show ?case by (simp add: upt_conv_Cons map_Suc_upt [symmetric] del: upt_Suc)
qed simp_all


lemma be_bound: "bit (be bs) n \<Longrightarrow> n < 8 * length bs"
proof (induction bs)
  case (Cons b bs)
  then show ?case by (auto simp: bit_simps dest: bit_imp_le_length)
qed simp

lemma be_top:
  assumes "length l = 16"
  shows "bit (be l) 127 \<longleftrightarrow> bit (l ! 0) 7" "bit (be l) 126 \<longleftrightarrow> bit (l ! 0) 6"
proof -
  obtain b bs where l: "l = b # bs" "length bs = 15" using assms by (cases l) auto
  then have "\<not> bit (be bs) 127" "\<not> bit (be bs) 126" using be_bound [of bs] by force+
  then show "bit (be l) 127 \<longleftrightarrow> bit (l ! 0) 7" "bit (be l) 126 \<longleftrightarrow> bit (l ! 0) 6"
    by (simp_all add: l bit_simps)
qed

text \<open>The two top bits select the entry of the table.\<close>

lemma top_bits: "drop_bit 6 (uint (b :: byte)) = 2 * of_bool (bit b 7) + of_bool (bit b 6)"
proof -
  have "uint b < 256" by simp
  then have "uint b div 64 < 4" by presburger
  then have "drop_bit 6 (uint b) < 4" by (simp add: drop_bit_eq_div)
  moreover have "0 \<le> drop_bit 6 (uint b)" by simp
  moreover have "d = 0 \<or> d = 1 \<or> d = 2 \<or> d = 3" if "d < 4" "0 \<le> d" for d :: int using that by linarith
  ultimately have "drop_bit 6 (uint b) \<in> {0, 1, 2, 3}" by blast
  moreover
  have "bit b n \<longleftrightarrow> bit (uint b) n" for n by (auto simp: bit_uint_iff dest: bit_imp_le_length)
  then have bits: "bit b 7 \<longleftrightarrow> odd (drop_bit 6 (uint b) div 2)" "bit b 6 \<longleftrightarrow> odd (drop_bit 6 (uint b))"
    by (simp_all add: bit_iff_odd [of "uint b"] drop_bit_eq_div zdiv_zmult2_eq [symmetric])
  ultimately show ?thesis using bits by auto
qed

lemma dbl_twice:
  "dbl (dbl x) = push_bit 2 x XOR
     (if bit x 127 then (if bit x 126 then 0x189 else 0x10e) else (if bit x 126 then 0x87 else 0))"
proof -
  have top: "bit (push_bit 1 x XOR c) 127 \<longleftrightarrow> bit x 126" if "\<not> bit c 127" for c :: "128 word"
    using that unfolding bit_xor_iff bit_push_bit_iff by simp
  have "\<not> bit (0x87 :: 128 word) 127" by simp
  then show ?thesis
    using top [of "0x87"] top [of 0] by (simp add: dbl_def push_bit_xor push_bit_push_bit xor.assoc numeral_2_eq_2 del: push_bit_Suc)
qed


lemma be_last: "be (xs @ [x XOR y]) = be (xs @ [x]) XOR ucast y"
  by (simp add: be_append unsigned_xor_eq ac_simps)

lemma be_last2: "be (xs @ [w XOR z, x XOR y]) = be (xs @ [w, x]) XOR push_bit 8 (ucast z) XOR ucast y"
  by (simp add: be_append unsigned_xor_eq push_bit_xor ac_simps)


lemma list_ends: "length xs = 16 \<Longrightarrow> xs = butlast xs @ [last xs] \<and> length (butlast xs) = 15"
  by (cases xs rule: rev_cases) auto

lemma list_ends2:
  assumes "length xs = 16"
  shows "xs = take 14 xs @ [xs ! 14, last xs]"
proof -
  have "xs = take 14 xs @ drop 14 xs" by simp
  also have "drop 14 xs = [xs ! 14, xs ! 15]" using assms by (simp add: Cons_nth_drop_Suc [symmetric])
  also have "xs ! 15 = last xs" using assms by (cases xs rule: rev_cases) (simp_all add: nth_append)
  finally show ?thesis .
qed

lemma lut_entry:
  fixes b :: byte
  defines "v \<equiv> js_shr (uint b) 6"
  shows "ucast (u8 (cmac_lut ! nat (js_sar v 1))) = (if bit b 7 then 0x87 else 0 :: 128 word)"
    "push_bit 8 (ucast (u8 (js_shr v 1))) XOR ucast (u8 (cmac_lut ! nat v)) =
      (if bit b 7 then (if bit b 6 then 0x189 else 0x10e) else (if bit b 6 then 0x87 else 0) :: 128 word)"
proof -
  have "uint b < 4294967296" using uint_byte_range(2) [of b] by linarith
  then have "toUint32 (uint b) = uint b" by (simp add: toUint32_mod)
  then have "v = 2 * of_bool (bit b 7) + of_bool (bit b 6)" by (simp add: v_def js_shr_def top_bits)
  then show "ucast (u8 (cmac_lut ! nat (js_sar v 1))) = (if bit b 7 then 0x87 else 0 :: 128 word)"
    "push_bit 8 (ucast (u8 (js_shr v 1))) XOR ucast (u8 (cmac_lut ! nat v)) =
      (if bit b 7 then (if bit b 6 then 0x189 else 0x10e) else (if bit b 6 then 0x87 else 0) :: 128 word)"
    by (cases "bit b 7"; cases "bit b 6"; simp add: js_sar_def js_shr_def toInt32_def toUint32_def cmac_lut_def u8_def)+
qed


lemma cmac_keys_shape:
  assumes "length l = 16"
  shows "cmac_keys l =
    (butlast (shifted 1 l) @ [last (shifted 1 l) XOR u8 (cmac_lut ! nat (js_sar (js_shr (uint (l ! 0)) 6) 1))],
     take 14 (shifted 2 l) @ [shifted 2 l ! 14 XOR u8 (js_shr (js_shr (uint (l ! 0)) 6) 1),
       last (shifted 2 l) XOR u8 (cmac_lut ! nat (js_shr (uint (l ! 0)) 6))])"
proof -
  have ne: "l \<noteq> []" using assms by auto
  have last: "last l = l ! 15" "drop 15 l = [l ! 15]" using assms ne
    by (simp_all add: last_conv_nth, simp add: list_eq_iff_nth_eq)
  let ?f = "\<lambda>i. drop_bit 6 (l ! (i + 1)) OR push_bit 2 (l ! i)"
  have up: "map ?f [0..<15] = map ?f [0..<14] @ [?f 14]" by (simp add: upt_Suc_append [of 0 14, simplified])
  have s: "shifted 1 l = map (\<lambda>i. drop_bit 7 (l ! (i + 1)) OR push_bit 1 (l ! i)) [0..<15] @ [push_bit 1 (l ! 15)]"
    "shifted 2 l = map ?f [0..<14] @ [?f 14, push_bit 2 (l ! 15)]"
    using shifted_map [OF ne, of 1] shifted_map [OF ne, of 2] assms up last(1) by simp_all
  have x: "u8 (js_xor (uint a) n) = a XOR u8 n" for a n
    using stored_cell(3) [of 0 a n] by (simp add: js_shl_def)
  show ?thesis
    unfolding cmac_keys_def s
    using cmac_rounds [OF assms, of 15] stored_cell(3) [of 1 "l ! 15"] stored_cell(3) [of 2 "l ! 15"] up last(2)
    by (simp add: Let_def nth_append list_update_append u8_new_def x)
qed


lemma subkeys_are_doublings:
  assumes "length l = 16"
  shows "length (fst (cmac_keys l)) = 16 \<and> length (snd (cmac_keys l)) = 16 \<and>
    be (fst (cmac_keys l)) = dbl (be l) \<and> be (snd (cmac_keys l)) = dbl (dbl (be l))"
proof -
  have ends: "shifted 1 l = butlast (shifted 1 l) @ [last (shifted 1 l)]"
    "shifted 2 l = take 14 (shifted 2 l) @ [shifted 2 l ! 14, last (shifted 2 l)]"
    using list_ends [of "shifted 1 l"] list_ends2 [of "shifted 2 l"] assms by simp_all
  have "be (fst (cmac_keys l)) = be (shifted 1 l) XOR (if bit (be l) 127 then 0x87 else 0)"
    using ends(1) lut_entry(1) [of "l ! 0"] be_top [OF assms] by (simp add: cmac_keys_shape [OF assms] be_last)
  then have 1: "be (fst (cmac_keys l)) = dbl (be l)" using push_block [of 1 l] assms by (simp add: dbl_def)
  have "be (snd (cmac_keys l)) = be (shifted 2 l) XOR
     (if bit (be l) 127 then (if bit (be l) 126 then 0x189 else 0x10e) else (if bit (be l) 126 then 0x87 else 0))"
    using ends(2) lut_entry(2) [of "l ! 0"] be_top [OF assms]
    by (simp add: cmac_keys_shape [OF assms] be_last2 xor.assoc del: if_split)
  then have "be (snd (cmac_keys l)) = dbl (dbl (be l))" using push_block [of 2 l] assms by (simp add: dbl_twice)
  moreover have "length (fst (cmac_keys l)) = 16 \<and> length (snd (cmac_keys l)) = 16"
    using assms by (simp add: cmac_keys_shape [OF assms])
  ultimately show ?thesis using 1 by simp
qed


section \<open>Message authentication\<close>

text \<open>Cipher block chaining of a block cipher, and what the browser documents of its own: the text is padded to
  whole blocks, by a whole block when it already is one, and each block is encrypted after adding the one before.\<close>

function blocks :: "bytes \<Rightarrow> bytes list" where
  "blocks xs = (if xs = [] then [] else take 16 xs # blocks (drop 16 xs))"
  by pat_completeness auto
termination by (relation "measure length") auto

declare blocks.simps [simp del]

fun cbc_chain :: "(bytes \<Rightarrow> bytes) \<Rightarrow> bytes \<Rightarrow> bytes list \<Rightarrow> bytes list" where
  "cbc_chain aes y [] = []"
| "cbc_chain aes y (b # bs) = aes (xor_bytes y b) # cbc_chain aes (aes (xor_bytes y b)) bs"

definition padded :: "bytes \<Rightarrow> bytes" where
  "padded xs = xs @ replicate (16 - length xs mod 16) (of_nat (16 - length xs mod 16))"

definition cbc_documented :: "webcrypto \<Rightarrow> (bytes \<Rightarrow> bytes \<Rightarrow> bytes) \<Rightarrow> bool" where
  "cbc_documented C aes \<longleftrightarrow> (\<forall>key x. length (aes key x) = 16) \<and>
     (\<forall>key iv xs. length iv = 16 \<longrightarrow> wc_cbc C key iv xs = concat (cbc_chain (aes key) iv (blocks (padded xs))))"

text \<open>The bytes of a block, and CMAC as the standard defines it.\<close>

definition block_of :: "128 word \<Rightarrow> bytes" where
  "block_of w = map (\<lambda>i. ucast (drop_bit (8 * (15 - i)) w)) [0..<16]"

definition cmac :: "(bytes \<Rightarrow> bytes) \<Rightarrow> bytes \<Rightarrow> bytes" where
  "cmac aes msg =
     (let l = be (aes zeroBlock);
          full = (length msg - 1) div 16 * 16;
          rest = drop full msg;
          final = (if length rest = 16 then xor_bytes rest (block_of (dbl l))
                   else xor_bytes (rest @ 0x80 # u8_new (15 - length rest)) (block_of (dbl (dbl l))))
      in last (cbc_chain aes zeroBlock (blocks (take full msg) @ [final])))"

lemma blocks_append:
  "length xs mod 16 = 0 \<Longrightarrow> blocks (xs @ ys) = blocks xs @ blocks ys"
proof (induction xs rule: blocks.induct)
  case (1 xs)
  show ?case
  proof (cases "xs = []")
    case False
    then have "16 \<le> length xs" using 1(2) by (metis dvd_imp_le length_greater_0_conv mod_0_imp_dvd)
    moreover have "length (drop 16 xs) mod 16 = 0" using 1(2) calculation by (simp add: mod_if)
    ultimately show ?thesis using 1(1) [OF False] False by (simp add: blocks.simps [of "xs @ ys"] blocks.simps [of xs])
  qed (simp add: blocks.simps [of "[]"])
qed

lemma blocks_one: "length b = 16 \<Longrightarrow> blocks b = [b]"
  by (auto simp: blocks.simps [of b] blocks.simps [of "[]"])

lemma chain_append:
  "cbc_chain aes y (bs @ cs) = cbc_chain aes y bs @ cbc_chain aes (last (y # cbc_chain aes y bs)) cs"
  by (induction bs arbitrary: y) auto

lemma chain_length: "(\<And>x. length (aes x) = 16) \<Longrightarrow> length (concat (cbc_chain aes y bs)) = 16 * length bs"
  by (induction bs arbitrary: y) simp_all

text \<open>The last block but one of what the browser returns for whole blocks is the last block of the chain.\<close>

lemma cbc_mac:
  assumes "cbc_documented C aes" "length data mod 16 = 0" "data \<noteq> []"
    and out_def: "out = wc_cbc C key zeroBlock data"
  shows "slice out (length out - 32) (length out - 16) = last (cbc_chain (aes key) zeroBlock (blocks data))"
proof -
  let ?chain = "cbc_chain (aes key) zeroBlock (blocks data)"
  let ?pad = "replicate 16 16 :: bytes"
  have len: "\<And>x. length (aes key x) = 16" using assms(1) by (simp add: cbc_documented_def)
  have "blocks (padded data) = blocks data @ [?pad]"
    using assms(2) blocks_append [OF assms(2), of ?pad] blocks_one [of ?pad] by (simp add: padded_def)
  then have "out = concat ?chain @ aes key (xor_bytes (last (zeroBlock # ?chain)) ?pad)"
    using assms(1) by (simp add: out_def cbc_documented_def chain_append zeroBlock_def)
  moreover obtain ch y where ch: "?chain = ch @ [y]"
    using assms(3) by (cases ?chain rule: rev_cases) (auto simp: blocks.simps [of data])
  moreover have "length y = 16"
  proof -
    have "\<forall>x \<in> set (cbc_chain (aes key) z bs). length x = 16" for z bs
      using len by (induction bs arbitrary: z) auto
    then show ?thesis using ch by (metis in_set_conv_decomp)
  qed
  ultimately show ?thesis using len by (simp add: slice_def)
qed


text \<open>Adding a subkey to a block in place.\<close>

lemma xor_fold:
  assumes "n \<le> length k" "off + n \<le> length d"
  shows "fold (\<lambda>i d. d[off + i := d ! (off + i) XOR k ! i]) [0..<n] d =
    take off d @ xor_bytes (take n (drop off d)) (take n k) @ drop (off + n) d"
  using assms
proof (induction n)
  case (Suc n)
  have d: "drop (off + n) d = d ! (off + n) # drop (off + Suc n) d" using Suc by (simp add: Cons_nth_drop_Suc)
  have "take (Suc n) (drop off d) = take n (drop off d) @ [d ! (off + n)]" "take (Suc n) k = take n k @ [k ! n]"
    using Suc by (simp_all add: take_Suc_conv_app_nth)
  then have "xor_bytes (take (Suc n) (drop off d)) (take (Suc n) k) =
      xor_bytes (take n (drop off d)) (take n k) @ [d ! (off + n) XOR k ! n]"
    using Suc by (simp add: xor_bytes_def)
  moreover have "length (xor_bytes (take n (drop off d)) (take n k)) = n" using Suc by (simp add: xor_bytes_def)
  ultimately show ?case using Suc d by (simp add: nth_append list_update_append)
qed (simp add: xor_bytes_def)

lemma xor_at_last:
  "length k = 16 \<Longrightarrow> length b = 16 \<Longrightarrow> xor_at (length xs) k (xs @ b) = xs @ xor_bytes b k"
  using xor_fold [of 16 k "length xs" "xs @ b"] by (simp add: xor_at_def)

lemma bit_be:
  "length xs \<le> 16 \<Longrightarrow> m < 8 * length xs \<Longrightarrow> bit (be xs) m \<longleftrightarrow> bit (xs ! (length xs - 1 - m div 8)) (m mod 8)"
proof (induction xs)
  case (Cons b bs)
  show ?case
  proof (cases "m < 8 * length bs")
    case True
    then have "m div 8 < length bs" by (simp add: div_less_iff_less_mult mult.commute)
    then have "length bs - m div 8 = Suc (length bs - 1 - m div 8)" by simp
    then show ?thesis using True Cons by (simp add: bit_simps)
  next
    case False
    then have "m div 8 = length bs" "m < 128" using Cons.prems by auto
    then have m: "m div 8 = length bs" "m mod 8 = m - 8 * length bs" "m < 128" by (simp_all flip: minus_mult_div_eq_mod)
    have "\<not> bit (be bs) m" using be_bound [of bs m] False by auto
    moreover have "m - 8 * length bs < 128" using m(3) by simp
    ultimately show ?thesis using False m by (simp add: bit_simps)
  qed
qed simp

lemma block_of_be: "length xs = 16 \<Longrightarrow> block_of (be xs) = xs"
proof (rule nth_equalityI)
  fix i
  assume "length xs = 16" "i < length (block_of (be xs))"
  then have i: "i < 16" "length xs = 16" by (simp_all add: block_of_def)
  show "block_of (be xs) ! i = xs ! i"
  proof (rule bit_word_eqI)
    fix n
    assume "n < LENGTH(8)"
    then show "bit (block_of (be xs) ! i) n \<longleftrightarrow> bit (xs ! i) n"
      using i bit_be [of xs "8 * (15 - i) + n"] by (simp add: block_of_def bit_simps)
  qed
qed (simp add: block_of_def)

lemma imported_keys:
  assumes "cbc_documented C aes"
  shows "eax_rawKey (eax_importKey C key) = key"
    "eax_k1 (eax_importKey C key) = block_of (dbl (be (aes key zeroBlock)))"
    "eax_k2 (eax_importKey C key) = block_of (dbl (dbl (be (aes key zeroBlock))))"
proof -
  have len: "\<And>x. length (aes key x) = 16" using assms by (simp add: cbc_documented_def)
  have zero: "blocks (padded zeroBlock) = [zeroBlock, replicate 16 16]"
    using blocks_append [of zeroBlock "replicate 16 16"] blocks_one [of zeroBlock] blocks_one [of "replicate 16 16"]
    by (simp add: padded_def zeroBlock_def)
  have "xor_bytes zeroBlock zeroBlock = zeroBlock" by (simp add: xor_bytes_def zeroBlock_def u8_new_def numeral_eq_Suc)
  then have "encryptBlock C key zeroBlock = aes key zeroBlock"
    using assms len zero by (simp add: encryptBlock_def cbc_documented_def zeroBlock_def [symmetric]) (simp add: zeroBlock_def)
  then show "eax_rawKey (eax_importKey C key) = key"
    "eax_k1 (eax_importKey C key) = block_of (dbl (be (aes key zeroBlock)))"
    "eax_k2 (eax_importKey C key) = block_of (dbl (dbl (be (aes key zeroBlock))))"
    using subkeys_are_doublings [OF len, of zeroBlock] block_of_be
    by (auto simp: eax_importKey_def split: prod.split) (metis fst_conv snd_conv)+
qed


text \<open>The data that is encrypted: the message with its last block completed and a subkey added.\<close>

definition cmac_data :: "bytes \<Rightarrow> bytes \<Rightarrow> bytes \<Rightarrow> bytes" where
  "cmac_data k1 k2 msg =
     (let full = (length msg - 1) div 16 * 16; rest = drop full msg
      in take full msg @ (if length rest = 16 then xor_bytes rest k1
           else xor_bytes (rest @ 0x80 # u8_new (15 - length rest)) k2))"

lemma cmac_data_split:
  "msg = body @ rest \<Longrightarrow> (length msg - 1) div 16 * 16 = length body \<Longrightarrow>
   cmac_data k1 k2 msg = body @ (if length rest = 16 then xor_bytes rest k1
     else xor_bytes (rest @ 0x80 # u8_new (15 - length rest)) k2)"
  by (simp add: cmac_data_def Let_def)

lemma cbc_input:
  fixes data :: bytes
  assumes "length pre = 16" "length k1 = 16" "length k2 = 16"
  defines "n \<equiv> length data div 16" and "m \<equiv> (length data + 15) div 16"
  defines "r \<equiv> length data - n * 16"
  defines "buf \<equiv> overlay (overlay (u8_new ((m + 1) * 16)) 0 pre) 16 data"
  shows "(if r = 0 then xor_at (n * 16) k1 buf else xor_at ((n + 1) * 16) k2 (buf[(n + 1) * 16 + r := 0x80])) =
    cmac_data k1 k2 (pre @ data)"
proof -
  have len: "length data = 16 * n + r" "r < 16" unfolding r_def n_def by (simp_all add: minus_mult_div_eq_mod mult.commute)
  have buf: "buf = pre @ data @ u8_new (m * 16 - length data)"
    using assms(1) by (simp add: buf_def overlay_def u8_new_def drop_replicate)
  show ?thesis
  proof (cases "r = 0")
    case True
    then have m: "m = n" "length data = 16 * n" using len by (simp_all add: m_def)
    have full: "(length (pre @ data) - 1) div 16 = n" using assms(1) m by simp
    define body rest where "body = take (n * 16) (pre @ data)" and "rest = drop (n * 16) (pre @ data)"
    have l: "length body = n * 16" "length rest = 16" using assms(1) m by (simp_all add: body_def rest_def)
    have br: "pre @ data = body @ rest" unfolding body_def rest_def by (rule append_take_drop_id [symmetric])
    have "buf = body @ rest" using buf m br by (simp add: u8_new_def)
    then have "xor_at (n * 16) k1 buf = body @ xor_bytes rest k1" using xor_at_last [OF assms(2) l(2), of body] l(1) by simp
    then show ?thesis using True l full cmac_data_split [OF br] by simp
  next
    case False
    then have m: "m = n + 1" using len by (simp add: m_def)
    have full: "(length (pre @ data) - 1) div 16 = n + 1" using assms(1) len False by simp
    define body rest where "body = take ((n + 1) * 16) (pre @ data)" and "rest = drop ((n + 1) * 16) (pre @ data)"
    have l: "length body = (n + 1) * 16" "length rest = r" using assms(1) len by (simp_all add: body_def rest_def)
    have br: "pre @ data = body @ rest" unfolding body_def rest_def by (rule append_take_drop_id [symmetric])
    have "u8_new (m * 16 - length data) = 0 # u8_new (15 - r)"
      using len m by (simp add: u8_new_def replicate_Suc [symmetric] del: replicate_Suc)
    then have "buf = (body @ rest) @ 0 # u8_new (15 - r)" using buf unfolding br [symmetric] by simp
    moreover have "(n + 1) * 16 + r = length (body @ rest)" using l by simp
    ultimately have "buf[(n + 1) * 16 + r := 0x80] = body @ (rest @ 0x80 # u8_new (15 - r))"
      using list_update_length [where xs = "body @ rest"] by (metis append_assoc)
    then have "xor_at ((n + 1) * 16) k2 (buf[(n + 1) * 16 + r := 0x80]) = body @ xor_bytes (rest @ 0x80 # u8_new (15 - r)) k2"
      using xor_at_last [OF assms(3), of "rest @ 0x80 # u8_new (15 - r)" body] l len by simp
    then show ?thesis using False full l len(2) cmac_data_split [OF br] by simp
  qed
qed


lemma computeCMAC_standard:
  assumes "cbc_documented C aes" "length pre = 16"
  shows "computeCMAC C (eax_importKey C key) data pre = Some (cmac (aes key) (pre @ data))"
proof -
  let ?k1 = "block_of (dbl (be (aes key zeroBlock)))" and ?k2 = "block_of (dbl (dbl (be (aes key zeroBlock))))"
  let ?msg = "pre @ data"
  have k: "length ?k1 = 16" "length ?k2 = 16" by (simp_all add: block_of_def)
  define full where "full = (length ?msg - 1) div 16 * 16"
  define body rest where "body = take full ?msg" and "rest = drop full ?msg"
  have br: "?msg = body @ rest" unfolding body_def rest_def by (rule append_take_drop_id [symmetric])
  have "full \<le> length ?msg - 1" by (simp add: full_def)
  then have lb1: "length body = full" unfolding body_def length_take by simp
  then have lb: "length body = full" "length body mod 16 = 0" by (simp_all add: full_def)
  define final where "final = (if length rest = 16 then xor_bytes rest ?k1
      else xor_bytes (rest @ 0x80 # u8_new (15 - length rest)) ?k2)"
  have data: "cmac_data ?k1 ?k2 ?msg = body @ final"
    using cmac_data_split [OF br] lb by (simp add: full_def final_def)
  have "length rest \<le> 16" using assms(2) by (simp add: rest_def full_def)
  then have lf: "length final = 16" using k by (auto simp: final_def xor_bytes_def)
  then have split: "blocks (body @ final) = blocks body @ [final]" using blocks_append [OF lb(2)] blocks_one by simp
  have cmac: "cmac (aes key) ?msg = last (cbc_chain (aes key) zeroBlock (blocks body @ [final]))"
    unfolding cmac_def Let_def final_def full_def body_def rest_def ..
  have "slice out (length out - 32) (length out - 16) = cmac (aes key) ?msg"
    if "out = wc_cbc C key zeroBlock (body @ final)" for out
    unfolding cmac split [symmetric] by (rule cbc_mac [OF assms(1) _ _ that]) (use lb lf in auto)
  then show ?thesis
    unfolding computeCMAC_def Let_def imported_keys [OF assms(1)] cbc_input [OF assms(2) k, of data] data
    using assms(2) by simp
qed


section \<open>Encryption\<close>

text \<open>Counter mode adds a key stream.\<close>

definition ctr_documented :: "webcrypto \<Rightarrow> (bytes \<Rightarrow> bytes \<Rightarrow> nat \<Rightarrow> bytes) \<Rightarrow> bool" where
  "ctr_documented C stream \<longleftrightarrow> (\<forall>key ctr n. length (stream key ctr n) = n) \<and>
     (\<forall>key ctr xs. wc_ctr_encrypt C key ctr xs = xor_bytes xs (stream key ctr (length xs)) \<and>
        wc_ctr_decrypt C key ctr xs = xor_bytes xs (stream key ctr (length xs)))"

lemma xor_bytes_length [simp]: "length (xor_bytes xs ys) = min (length xs) (length ys)"
  by (simp add: xor_bytes_def)

lemma xor_bytes_twice: "length xs \<le> length ys \<Longrightarrow> xor_bytes (xor_bytes xs ys) ys = xs"
  by (rule nth_equalityI) (simp_all add: xor_bytes_def xor.assoc)

lemma ctr_inverse:
  assumes "ctr_documented C stream"
  shows "length (wc_ctr_encrypt C key ctr xs) = length xs" "length (wc_ctr_decrypt C key ctr xs) = length xs"
    "wc_ctr_decrypt C key ctr (wc_ctr_encrypt C key ctr xs) = xs" "wc_ctr_encrypt C key ctr (wc_ctr_decrypt C key ctr xs) = xs"
  using assms by (simp_all add: ctr_documented_def xor_bytes_twice)

lemma cmac_length: "(\<And>x. length (aes x) = 16) \<Longrightarrow> length (cmac aes msg) = 16"
proof -
  assume aes: "\<And>x. length (aes x) = 16"
  have "\<forall>x \<in> set (cbc_chain aes y bs). length x = 16" for y bs using aes by (induction bs arbitrary: y) auto
  then have "length (last (cbc_chain aes y (bs @ [b]))) = 16" for y bs b by (simp add: chain_append aes)
  then show ?thesis by (simp add: cmac_def Let_def)
qed

text \<open>The tag of EAX: the three MACs, each of its own domain, added up.\<close>

definition eax_tag :: "(bytes \<Rightarrow> bytes) \<Rightarrow> bytes \<Rightarrow> bytes \<Rightarrow> bytes \<Rightarrow> bytes" where
  "eax_tag aes nonce ad encrypted =
     xor_bytes (cmac aes (prefixBlock 2 @ encrypted)) (xor_bytes (cmac aes (prefixBlock 0 @ nonce)) (cmac aes (prefixBlock 1 @ ad)))"

lemma eax_mac_tag:
  assumes "cbc_documented C aes"
  shows "eax_mac C (eax_importKey C key) nonce ad encrypted = eax_tag (aes key) nonce ad encrypted"
proof -
  have len: "length (cmac (aes key) msg) = 16" for msg using assms by (intro cmac_length) (simp add: cbc_documented_def)
  have pre: "length (prefixBlock t) = 16" for t by (simp add: prefixBlock_def)
  have xor: "fold (\<lambda>i d. d[i := d ! i XOR (a ! i XOR b ! i)]) [0..<16] m = xor_bytes m (xor_bytes a b)"
    if "length m = 16" "length a = 16" "length b = 16" for m a b :: bytes
  proof -
    have "fold (\<lambda>i d. d[i := d ! i XOR (a ! i XOR b ! i)]) [0..<16] m =
        fold (\<lambda>i d. d[0 + i := d ! (0 + i) XOR xor_bytes a b ! i]) [0..<16] m"
      using that by (intro fold_cong) (auto simp: xor_bytes_def)
    then show ?thesis using xor_fold [of 16 "xor_bytes a b" 0 m] that by simp
  qed
  show ?thesis unfolding eax_mac_def Let_def computeCMAC_standard [OF assms pre] option.sel
    by (simp add: xor len eax_tag_def)
qed

lemma eax_encrypt_eq:
  assumes "cbc_documented C aes" "ctr_documented C stream"
  shows "eax_encrypt C (eax_importKey C key) nonce ad message =
    (let encrypted = wc_ctr_encrypt C key (cmac (aes key) (prefixBlock 0 @ nonce)) message
     in encrypted @ eax_tag (aes key) nonce ad encrypted)"
proof -
  have len: "length (cmac (aes key) msg) = 16" for msg using assms by (intro cmac_length) (simp add: cbc_documented_def)
  have pre: "length (prefixBlock 0) = 16" by (simp add: prefixBlock_def)
  show ?thesis
    unfolding eax_encrypt_def Let_def computeCMAC_standard [OF assms(1) pre] eax_mac_tag [OF assms(1)] imported_keys(1) [OF assms(1)]
    by (simp add: overlay_def u8_new_def eax_tag_def len)
qed

lemma compared:
  "(if length a \<noteq> length b then None else if \<exists>i \<in> {0..<length b}. a ! i \<noteq> b ! i then None else Some x) =
   (if a = b then Some x else None)"
proof (cases "length a = length b \<and> a \<noteq> b")
  case True
  then obtain i where "i < length b" "a ! i \<noteq> b ! i" using nth_equalityI by metis
  then have "\<exists>i \<in> {0..<length b}. a ! i \<noteq> b ! i" by (intro bexI [of _ i]) simp_all
  then show ?thesis using True by simp
qed auto

lemma eax_decrypt_eq:
  assumes "cbc_documented C aes" "ctr_documented C stream"
  shows "eax_decrypt C (eax_importKey C key) nonce ad data = Some m \<longleftrightarrow>
    data = eax_encrypt C (eax_importKey C key) nonce ad m"
proof -
  let ?n = "cmac (aes key) (prefixBlock 0 @ nonce)"
  let ?cut = "from_end (length data) (int (length data) - 16)"
  let ?e = "slice data 0 ?cut" and ?mac = "slice data ?cut (length data)"
  have len: "length (cmac (aes key) msg) = 16" for msg using assms by (intro cmac_length) (simp add: cbc_documented_def)
  have pre: "length (prefixBlock 0) = 16" by (simp add: prefixBlock_def)
  have tag: "length (eax_tag (aes key) nonce ad x) = 16" for x by (simp add: eax_tag_def len)
  have eq: "eax_decrypt C (eax_importKey C key) nonce ad data =
      (if eax_tag (aes key) nonce ad ?e = ?mac then Some (wc_ctr_decrypt C key ?n ?e) else None)"
    unfolding eax_decrypt_def Let_def computeCMAC_standard [OF assms(1) pre] eax_mac_tag [OF assms(1)] imported_keys(1) [OF assms(1)]
      option.sel by (rule compared)
  have data: "data = ?e @ ?mac" by (simp add: slice_def from_end_def)
  show ?thesis
  proof
    assume "eax_decrypt C (eax_importKey C key) nonce ad data = Some m"
    then have "eax_tag (aes key) nonce ad ?e = ?mac" "m = wc_ctr_decrypt C key ?n ?e" by (simp_all add: eq split: if_splits)
    then show "data = eax_encrypt C (eax_importKey C key) nonce ad m"
      using data by (simp add: eax_encrypt_eq [OF assms] ctr_inverse [OF assms(2)] Let_def)
  next
    assume enc: "data = eax_encrypt C (eax_importKey C key) nonce ad m"
    define e where "e = wc_ctr_encrypt C key ?n m"
    have d: "data = e @ eax_tag (aes key) nonce ad e" using enc by (simp add: eax_encrypt_eq [OF assms] e_def Let_def)
    then have "?e = e" "?mac = eax_tag (aes key) nonce ad e" using tag by (simp_all add: slice_def from_end_def)
    then show "eax_decrypt C (eax_importKey C key) nonce ad data = Some m"
      by (simp add: eq e_def ctr_inverse [OF assms(2)])
  qed
qed


section \<open>Counters\<close>

fun le_value :: "bytes \<Rightarrow> nat" where
  "le_value [] = 0"
| "le_value (b # bs) = unat b + 256 * le_value bs"

lemma le_value_append: "le_value (xs @ ys) = le_value xs + 256 ^ length xs * le_value ys"
  by (induction xs) (simp_all add: algebra_simps)

lemma length_bump [simp]: "length (bump i c) = length c"
  by (induction i c rule: bump.induct) (subst bump.simps, simp add: Let_def)

text \<open>All bytes before the one at \<open>i\<close> have overflowed to zero.\<close>

lemma bump_value:
  "length c = 16 \<Longrightarrow> i \<le> 16 \<Longrightarrow> le_value (bump i c) mod 256 ^ 16 = (le_value c + 256 ^ i) mod 256 ^ 16"
proof (induction i c rule: bump.induct)
  case (1 i c)
  show ?case
  proof (cases "i < 16")
    case False
    then have "bump i c = c" by (simp add: bump.simps [of i c])
    moreover have "i = 16" using False "1.prems" by simp
    ultimately show ?thesis by simp
  next
    case True
    let ?d = "c[i := c ! i + 1]"
    have c: "c = take i c @ c ! i # drop (Suc i) c" using True "1.prems"(1) by (simp add: id_take_nth_drop)
    have d: "?d = take i c @ (c ! i + 1) # drop (Suc i) c" using True "1.prems"(1) by (simp add: upd_conv_take_nth_drop)
    let ?p = "256 ^ i :: nat"
    have lc: "le_value c = le_value (take i c) + ?p * (unat (c ! i) + 256 * le_value (drop (Suc i) c))"
      using True "1.prems"(1) by (subst c) (simp add: le_value_append)
    have ld: "le_value ?d = le_value (take i c) + ?p * (unat (c ! i + 1) + 256 * le_value (drop (Suc i) c))"
      using True "1.prems"(1) by (subst d) (simp add: le_value_append)
    show ?thesis
    proof (cases "c ! i = 255")
      case over: True
      then have "bump i c = bump (i + 1) ?d" using True by (simp add: bump.simps [of i c])
      then have "le_value (bump i c) mod 256 ^ 16 = (le_value ?d + 256 ^ (i + 1)) mod 256 ^ 16"
        using "1.IH" [OF True refl refl over] True "1.prems"(1) by simp
      moreover have "unat (c ! i) = 255" "unat (c ! i + 1) = 0" using over by simp_all
      then have "le_value ?d + 256 ^ (i + 1) = le_value c + 256 ^ i" unfolding lc ld by (simp add: algebra_simps)
      ultimately show ?thesis by (simp only:)
    next
      case False
      then have "bump i c = ?d" using True by (simp add: bump.simps [of i c])
      moreover have "unat (c ! i + 1) = unat (c ! i) + 1"
      proof -
        have "(255 :: byte) + 1 = 0" by simp
        then have "(255 :: byte) = - 1" by (simp only: eq_neg_iff_add_eq_0)
        then have "c ! i \<noteq> - 1" using False by metis
        then have "1 + c ! i \<noteq> 0" by (simp add: eq_neg_iff_add_eq_0 add.commute)
        then show ?thesis using unatSuc [of "c ! i"] by (simp add: add.commute)
      qed
      ultimately show ?thesis using lc ld by (simp add: algebra_simps)
    qed
  qed
qed


lemma le_value_bound: "le_value xs < 256 ^ length xs"
proof (induction xs)
  case (Cons b bs)
  have "unat b < 256" using unsigned_less [of b] by simp
  then show ?case using Cons by (simp add: algebra_simps)
qed simp

lemma counter_next:
  assumes "length c = 16"
  shows "le_value (bump 0 c) = (le_value c + 1) mod 2 ^ 128"
  using bump_value [OF assms, of 0] le_value_bound [of "bump 0 c"] assms by (simp add: mod_less)

section \<open>Sequences of messages\<close>

fun send_all :: "webcrypto \<Rightarrow> bytes list \<Rightarrow> ra2_cipher \<Rightarrow> bytes list \<times> ra2_cipher" where
  "send_all C [] c = ([], c)"
| "send_all C (m # ms) c =
     (let (w, c) = makeMessage C m c; (ws, c) = send_all C ms c in (w # ws, c))"

text \<open>The receiver takes the length from the first two bytes.\<close>

fun receive_all :: "webcrypto \<Rightarrow> bytes list \<Rightarrow> ra2_cipher \<Rightarrow> bytes option list \<times> ra2_cipher" where
  "receive_all C [] c = ([], c)"
| "receive_all C (w # ws) c =
     (let (r, c) = receiveMessage C (unat (w ! 0) * 256 + unat (w ! 1)) (drop 2 w) c;
          (rs, c) = receive_all C ws c in (r # rs, c))"

lemma length_header:
  assumes "n < 65536"
  shows "length (length_bytes n) = 2" "unat (length_bytes n ! 0) * 256 + unat (length_bytes n ! 1) = n"
proof -
  have n: "toInt32 (int n) = int n" using assms by (intro toInt32_small) simp_all
  have mask: "(0xff00 :: int) = push_bit 8 (mask 8)" by (simp add: mask_eq_exp_minus_1 push_bit_eq_mult)
  have "int n AND 0xff00 = push_bit 8 (take_bit 8 (drop_bit 8 (int n)))"
    unfolding mask by (rule bit_eqI) (auto simp: bit_simps)
  then have "js_and (int n) 0xff00 = 256 * (int n div 256)"
    using assms n by (simp add: js_and_def push_bit_eq_mult take_bit_eq_mod drop_bit_eq_div toInt32_small)
  moreover have "256 * (int n div 256) < 2 ^ 32" using assms by simp
  ultimately have hi: "js_shr (js_and (int n) 0xff00) 8 = int (n div 256)"
    by (simp add: js_shr_def toUint32_mod drop_bit_eq_div zdiv_int)
  have lo: "js_and (int n) 0xff = int (n mod 256)" using n by (simp add: zmod_int)
  show "length (length_bytes n) = 2" by (simp add: length_bytes_def)
  have "unat (u8 (int k)) = k" if "k < 256" for k using that by (simp add: u8_def unat_of_nat)
  then show "unat (length_bytes n ! 0) * 256 + unat (length_bytes n ! 1) = n"
    unfolding length_bytes_def hi lo using assms by simp
qed


lemma encrypted_length:
  assumes "cbc_documented C aes" "ctr_documented C stream"
  shows "length (eax_encrypt C (eax_importKey C key) nonce ad m) = length m + 16"
proof -
  have "length (cmac (aes key) msg) = 16" for msg using assms(1) by (intro cmac_length) (simp add: cbc_documented_def)
  then show ?thesis by (simp add: eax_encrypt_eq [OF assms] Let_def ctr_inverse [OF assms(2)] eax_tag_def)
qed

lemma message_parts:
  assumes "cbc_documented C aes" "ctr_documented C stream" "length m < 65536" "rc_cipher c = eax_importKey C key"
  shows "\<exists>e. makeMessage C m c = (length_bytes (length m) @ e, c\<lparr>rc_counter := bump 0 (rc_counter c)\<rparr>) \<and>
    length e = length m + 16 \<and> receiveMessage C (length m) e c = (Some m, c\<lparr>rc_counter := bump 0 (rc_counter c)\<rparr>)"
proof -
  let ?ad = "length_bytes (length m)"
  let ?e = "eax_encrypt C (rc_cipher c) (rc_counter c) ?ad m"
  have e: "length ?e = length m + 16"
    by (simp add: assms(4) encrypted_length [OF assms(1,2)])
  moreover have ad: "length ?ad = 2" using assms(3) by (rule length_header)
  ultimately have w: "overlay (overlay (u8_new (length m + 2 + 16)) 0 ?ad) 2 ?e = ?ad @ ?e"
    by (simp add: overlay_def u8_new_def)
  have "receiveMessage C (length m) ?e c = (Some m, c\<lparr>rc_counter := bump 0 (rc_counter c)\<rparr>)"
    using eax_decrypt_eq [OF assms(1,2)] by (simp add: receiveMessage_def assms(4))
  then show ?thesis using w e by (intro exI [of _ ?e]) (simp add: makeMessage_def Let_def)
qed

lemma one_message:
  assumes "cbc_documented C aes" "ctr_documented C stream" "length m < 65536" "rc_cipher c = eax_importKey C key"
  shows "\<exists>w. makeMessage C m c = (w, c\<lparr>rc_counter := bump 0 (rc_counter c)\<rparr>) \<and>
    receiveMessage C (unat (w ! 0) * 256 + unat (w ! 1)) (drop 2 w) c = (Some m, c\<lparr>rc_counter := bump 0 (rc_counter c)\<rparr>)"
proof -
  let ?ad = "length_bytes (length m)"
  obtain e where e: "makeMessage C m c = (?ad @ e, c\<lparr>rc_counter := bump 0 (rc_counter c)\<rparr>)"
    "receiveMessage C (length m) e c = (Some m, c\<lparr>rc_counter := bump 0 (rc_counter c)\<rparr>)"
    using message_parts [OF assms] by blast
  have ad: "length ?ad = 2" using assms(3) by (rule length_header)
  have "(?ad @ e) ! 0 = ?ad ! 0" "(?ad @ e) ! 1 = ?ad ! 1" "drop 2 (?ad @ e) = e" using ad by (simp_all add: nth_append)
  then show ?thesis using e length_header(2) [OF assms(3)] by (intro exI [of _ "?ad @ e"]) simp
qed

text \<open>Messages of the RSA-AES authentication arrive. Two ciphers with the same key and counter stay in step: a
  receiver that takes each length from the two bytes in front gets every message of a sequence back as it was,
  however many there are, as long as a message is shorter than 64 KiB, and both counters are then the same.
  It rests on what the browser documents of AES in counter and block chaining mode.\<close>

theorem messages_arrive:
  assumes "cbc_documented C aes" "ctr_documented C stream" "\<forall>m \<in> set ms. length m < 65536"
    "rc_cipher c = eax_importKey C key"
  shows "receive_all C (fst (send_all C ms c)) c = (map Some ms, snd (send_all C ms c))"
  using assms(3,4)
proof (induction ms arbitrary: c)
  case (Cons m ms)
  obtain w where w: "makeMessage C m c = (w, c\<lparr>rc_counter := bump 0 (rc_counter c)\<rparr>)"
    "receiveMessage C (unat (w ! 0) * 256 + unat (w ! 1)) (drop 2 w) c = (Some m, c\<lparr>rc_counter := bump 0 (rc_counter c)\<rparr>)"
    using one_message [OF assms(1,2) _ Cons.prems(2), of m] Cons.prems(1) by auto
  then show ?case using Cons.IH [of "c\<lparr>rc_counter := bump 0 (rc_counter c)\<rparr>"] Cons.prems
    by (simp add: split_beta Let_def)
qed simp

text \<open>C25: Equivalence of the authenticated encryption with EAX over CMAC. The subkeys the code computes with its table are
  the doublings of the CMAC standard, the one chained encryption of a prepared buffer gives the CMAC of the
  prefix block and the data, a message is encrypted to its counter mode text followed by the sum of the MACs of
  the nonce, the additional data and the text, and decryption returns a message for exactly the data that
  encryption produces from it, so data with any other tag is refused.\<close>

theorem eax_is_standard:
  assumes "cbc_documented C aes" "ctr_documented C stream" "c = eax_importKey C key"
  shows "computeCMAC C c data (prefixBlock t) = Some (cmac (aes key) (prefixBlock t @ data)) \<and>
    eax_encrypt C c nonce ad message =
      (let encrypted = wc_ctr_encrypt C key (cmac (aes key) (prefixBlock 0 @ nonce)) message
       in encrypted @ eax_tag (aes key) nonce ad encrypted) \<and>
    (eax_decrypt C c nonce ad data = Some message \<longleftrightarrow> data = eax_encrypt C c nonce ad message)"
  using computeCMAC_standard [OF assms(1), of "prefixBlock t" key data] eax_encrypt_eq [OF assms(1,2)]
    eax_decrypt_eq [OF assms(1,2)] assms(3) by (simp add: prefixBlock_def)

definition demo_crypto :: webcrypto where
  "demo_crypto = \<lparr>wc_cbc = (\<lambda>key iv xs. concat (cbc_chain (\<lambda>x. take 16 (map (\<lambda>b. b + 1) x @ u8_new 16)) iv (blocks (padded xs)))),
     wc_ctr_encrypt = (\<lambda>key ctr xs. xor_bytes xs (replicate (length xs) 0x5a)),
     wc_ctr_decrypt = (\<lambda>key ctr xs. xor_bytes xs (replicate (length xs) 0x5a))\<rparr>"

lemma demo_crypto_ok:
  "cbc_documented demo_crypto (\<lambda>key x. take 16 (map (\<lambda>b. b + 1) x @ u8_new 16))"
  "ctr_documented demo_crypto (\<lambda>key ctr n. replicate n 0x5a)"
  by (auto simp: cbc_documented_def ctr_documented_def demo_crypto_def)

theorem messages_arrive_witness:
  "receive_all demo_crypto (fst (send_all demo_crypto [[1, 2, 3], []] (new_ra2_cipher demo_crypto [7])))
     (new_ra2_cipher demo_crypto [7]) =
   ([Some [1, 2, 3], Some []], snd (send_all demo_crypto [[1, 2, 3], []] (new_ra2_cipher demo_crypto [7])))"
  using messages_arrive [OF demo_crypto_ok, of "[[1, 2, 3], []]" "new_ra2_cipher demo_crypto [7]" "[7]"]
  by (simp add: new_ra2_cipher_def)

theorem eax_is_standard_witness:
  "eax_decrypt demo_crypto (eax_importKey demo_crypto [7]) [1] [2] [3] = None"
proof -
  have "eax_decrypt demo_crypto (eax_importKey demo_crypto [7]) [1] [2] [3] \<noteq> Some m" for m
  proof
    assume "eax_decrypt demo_crypto (eax_importKey demo_crypto [7]) [1] [2] [3] = Some m"
    then have "[3] = eax_encrypt demo_crypto (eax_importKey demo_crypto [7]) [1] [2] m"
      using eax_is_standard [OF demo_crypto_ok refl] by blast
    then have "length [3 :: byte] = length (eax_encrypt demo_crypto (eax_importKey demo_crypto [7]) [1] [2] m)" by simp
    then show False
      by (simp add: encrypted_length [OF demo_crypto_ok])
  qed
  then show ?thesis by (meson not_Some_eq)
qed

end
