(* ===== verification/Rsa.thy ===== *)
theory Rsa
  imports Crypto_Laws Base64
begin

text \<open>
  \<open>RSACipher\<close> of \<open>core/crypto/rsa.js\<close>: import and generation of keys, encryption and decryption with the padding of
  PKCS 1. The key the browser generates and its random bytes are arguments. A message that was encrypted with the
  public key is what the private key decrypts.
\<close>

section \<open>Keys\<close>

record rsa =
  rsa_keyLength :: nat
  rsa_keyBytes :: nat
  rsa_n :: bytes
  rsa_e :: bytes
  rsa_d :: "bytes option"
  rsa_nBigInt :: nat
  rsa_eBigInt :: nat
  rsa_dBigInt :: "nat option"
  rsa_extractable :: bool

definition base64url_text :: "jsstring \<Rightarrow> jsstring" where
  "base64url_text data =
     (let data = map (\<lambda>c. if c = 45 then 43 else if c = 95 then 47 else c) data
      in data @ replicate ((length data + 3) div 4 * 4 - length data) 61)"

definition base64urlDecode :: "jsstring \<Rightarrow> bytes outcome" where
  "base64urlDecode data =
     obind (decode (base64url_text data) 0) (\<lambda>a. Ret (map (\<lambda>v. u8 (undef0 v)) a))"

definition padArray :: "bytes \<Rightarrow> nat \<Rightarrow> bytes outcome" where
  "padArray arr len =
     (if len < length arr then Throw RangeError else Ret (overlay (u8_new len) (len - length arr) arr))"

text \<open>The parts of the private key the browser exports, as base64 text.\<close>

record jwk =
  jwk_n :: jsstring
  jwk_e :: jsstring
  jwk_d :: jsstring

definition rsa_generateKey :: "(nat \<Rightarrow> bytes \<Rightarrow> jwk) \<Rightarrow> nat \<Rightarrow> bytes \<Rightarrow> bool \<Rightarrow> rsa outcome" where
  "rsa_generateKey generate modulusLength publicExponent extractable =
     (let keyBytes = (modulusLength + 7) div 8;
          k = generate modulusLength publicExponent
      in obind (base64urlDecode (jwk_n k)) (\<lambda>n. obind (padArray n keyBytes) (\<lambda>n.
         obind (u8ArrayToBigInt n) (\<lambda>nBigInt.
         obind (base64urlDecode (jwk_e k)) (\<lambda>e. obind (padArray e keyBytes) (\<lambda>e.
         obind (u8ArrayToBigInt e) (\<lambda>eBigInt.
         obind (base64urlDecode (jwk_d k)) (\<lambda>d. obind (padArray d keyBytes) (\<lambda>d.
         obind (u8ArrayToBigInt d) (\<lambda>dBigInt.
           Ret \<lparr>rsa_keyLength = modulusLength, rsa_keyBytes = keyBytes, rsa_n = n, rsa_e = e, rsa_d = Some d,
                rsa_nBigInt = nBigInt, rsa_eBigInt = eBigInt, rsa_dBigInt = Some dBigInt,
                rsa_extractable = extractable\<rparr>))))))))))"

definition rsa_importKey :: "bytes \<Rightarrow> bytes \<Rightarrow> bool \<Rightarrow> string list \<Rightarrow> rsa outcome" where
  "rsa_importKey n e extractable keyUsages =
     (if keyUsages \<noteq> [''encrypt''] then Throw (ErrorMsg ''only support importing RSA public key'')
      else if length n \<noteq> length e then Throw (ErrorMsg ''the sizes of modulus and public exponent do not match'')
      else obind (u8ArrayToBigInt n) (\<lambda>nBigInt. obind (u8ArrayToBigInt e) (\<lambda>eBigInt.
        Ret \<lparr>rsa_keyLength = length n * 8, rsa_keyBytes = length n, rsa_n = n, rsa_e = e, rsa_d = None,
             rsa_nBigInt = nBigInt, rsa_eBigInt = eBigInt, rsa_dBigInt = None, rsa_extractable = extractable\<rparr>)))"

definition rsa_exportKey :: "rsa \<Rightarrow> (bytes \<times> bytes \<times> bytes option) outcome" where
  "rsa_exportKey k =
     (if \<not> rsa_extractable k then Throw (ErrorMsg ''key is not extractable'') else Ret (rsa_n k, rsa_e k, rsa_d k))"

section \<open>Encryption\<close>

text \<open>A random byte is made one that is not zero: the floor of 254/255 of it plus one. The quotient is an integer only where
  the division of the language is exact, so rounding does not matter.\<close>

definition nonzero_byte :: "byte \<Rightarrow> byte" where
  "nonzero_byte b = u8 (uint b * 254 div 255 + 1)"

definition rsa_padded :: "(nat \<Rightarrow> bytes) \<Rightarrow> nat \<Rightarrow> bytes \<Rightarrow> bytes" where
  "rsa_padded random keyBytes message =
     (let ps = map nonzero_byte (random (keyBytes - length message - 3));
          em = (u8_new keyBytes)[1 := 2]
      in overlay (overlay em 2 ps) (length ps + 3) message)"

definition rsa_encrypt :: "(nat \<Rightarrow> bytes) \<Rightarrow> rsa \<Rightarrow> bytes \<Rightarrow> bytes option outcome" where
  "rsa_encrypt random k message =
     (if rsa_keyBytes k < length message + 11 then Ret None
      else obind (u8ArrayToBigInt (rsa_padded random (rsa_keyBytes k) message)) (\<lambda>emBigInt.
        obind (modPow (int emBigInt) (int (rsa_eBigInt k)) (int (rsa_nBigInt k))) (\<lambda>c.
        obind (bigIntToU8Array (nat c) (rsa_keyBytes k)) (\<lambda>b. Ret (Some b)))))"

text \<open>What follows the first zero byte from the third on, if there is one.\<close>

definition after_zero :: "bytes \<Rightarrow> bytes option" where
  "after_zero em =
     (case dropWhile (\<lambda>b. b \<noteq> 0) (drop 2 em) of [] \<Rightarrow> None | z # rest \<Rightarrow> Some rest)"

text \<open>Without a private exponent the exponentiation of \<open>null\<close> fails.\<close>

definition rsa_decrypt :: "rsa \<Rightarrow> bytes \<Rightarrow> bytes option outcome" where
  "rsa_decrypt k message =
     (if length message \<noteq> rsa_keyBytes k then Ret None
      else obind (u8ArrayToBigInt message) (\<lambda>msgBigInt.
        case rsa_dBigInt k of
          None \<Rightarrow> Throw TypeError
        | Some d \<Rightarrow>
            obind (modPow (int msgBigInt) (int d) (int (rsa_nBigInt k))) (\<lambda>v.
            obind (bigIntToU8Array (nat v) (rsa_keyBytes k)) (\<lambda>em.
              if em ! 0 \<noteq> 0 \<or> em ! 1 \<noteq> 2 then Ret None else Ret (after_zero em)))))"


section \<open>Numbers and bytes\<close>

lemma digit_cut:
  fixes x y a b m :: nat
  assumes "x < m" "y < m" "a * m + x = b * m + y"
  shows "a = b \<and> x = y"
proof -
  have "(a * m + x) div m = a" "(b * m + y) div m = b" using assms(1,2) by simp_all
  then show ?thesis using assms(3) by simp
qed

lemma hex_value_inj:
  "length as = length bs \<Longrightarrow> \<forall>d \<in> set as. d < 16 \<Longrightarrow> \<forall>d \<in> set bs. d < 16 \<Longrightarrow>
   hex_value as 0 = hex_value bs 0 \<Longrightarrow> as = bs"
proof (induction as bs rule: list_induct2)
  case (Cons a as b bs)
  have "hex_value as 0 < 16 ^ length as" "hex_value bs 0 < 16 ^ length as"
    using hex_value_bound [of as] hex_value_bound [of bs] Cons by auto
  moreover have "a * 16 ^ length as + hex_value as 0 = b * 16 ^ length as + hex_value bs 0"
    using Cons.prems(3) Cons.hyps hex_value_acc [of as a] hex_value_acc [of bs b] by simp
  ultimately have "a = b \<and> hex_value as 0 = hex_value bs 0" by (rule digit_cut)
  then show ?case using Cons by simp
qed simp

lemma byte_hex_inj: "byte_hex a = byte_hex b \<Longrightarrow> a = b"
proof -
  assume "byte_hex a = byte_hex b"
  then have "hex_value (hex_digits (unat a)) 0 = hex_value (hex_digits (unat b)) 0"
    using hex_value_padStart by (metis byte_hex_def)
  then show ?thesis by (simp add: hex_digits_value word_unat_eq_iff)
qed

lemma concat_hex_inj: "concat (map byte_hex xs) = concat (map byte_hex ys) \<Longrightarrow> xs = ys"
proof (induction xs arbitrary: ys)
  case Nil
  then show ?case using byte_hex_digits by (cases ys) (auto, metis length_0_conv zero_neq_numeral)
next
  case (Cons x xs)
  then obtain y zs where ys: "ys = y # zs" using byte_hex_digits by (cases ys) (auto, metis length_0_conv zero_neq_numeral)
  then have "byte_hex x = byte_hex y \<and> concat (map byte_hex xs) = concat (map byte_hex zs)"
    using Cons.prems byte_hex_digits [of x] byte_hex_digits [of y] by (simp add: append_eq_append_conv)
  then show ?case using Cons.IH byte_hex_inj ys by blast
qed

lemma length_hex: "length (concat (map byte_hex bs)) = 2 * length bs"
  by (induction bs) (simp_all add: byte_hex_digits)

lemma bytes_value_inj:
  assumes "u8ArrayToBigInt xs = Ret v" "u8ArrayToBigInt ys = Ret v" "length xs = length ys"
  shows "xs = ys"
proof (rule concat_hex_inj, rule hex_value_inj)
  show "\<forall>d \<in> set (concat (map byte_hex xs)). d < 16" "\<forall>d \<in> set (concat (map byte_hex ys)). d < 16"
    using byte_hex_digits by fastforce+
qed (use assms in \<open>auto simp: length_hex u8ArrayToBigInt_def split: if_splits\<close>)

text \<open>A number whose first byte is zero fits in the other bytes.\<close>

lemma leading_zero:
  assumes "u8ArrayToBigInt (0 # bs) = Ret v"
  shows "v < 256 ^ length bs"
proof (cases bs)
  case Nil
  then show ?thesis using assms by (simp add: u8ArrayToBigInt_def byte_hex_def padStart_def hex_digits.simps)
next
  case (Cons c cs)
  have "byte_hex 0 = [0, 0]" by (simp add: byte_hex_def padStart_def hex_digits.simps numeral_2_eq_2)
  then have "u8ArrayToBigInt bs = Ret v" using assms Cons by (simp add: u8ArrayToBigInt_def)
  then show ?thesis using bytes_value_bound by blast
qed

section \<open>Decryption undoes encryption\<close>

lemma nonzero_byte_bounds: "nonzero_byte b \<noteq> 0"
proof -
  have "uint b * 254 div 255 \<le> 255 * 254 div 255" using uint_byte_range(2) [of b] by (intro zdiv_mono1) linarith+
  moreover have "0 \<le> uint b * 254 div 255" by (simp add: pos_imp_zdiv_nonneg_iff)
  ultimately have "uint (nonzero_byte b) = uint b * 254 div 255 + 1" by (simp add: nonzero_byte_def uint_u8)
  then have "uint (nonzero_byte b) \<noteq> 0" using \<open>0 \<le> uint b * 254 div 255\<close> by simp
  then show ?thesis by auto
qed

lemma padded_shape:
  assumes "length message + 11 \<le> k" "\<And>n. length (random n) = n"
  shows "rsa_padded random k message = 0 # 2 # map nonzero_byte (random (k - length message - 3)) @ 0 # message"
proof -
  let ?ps = "map nonzero_byte (random (k - length message - 3))"
  have len: "length ?ps = k - length message - 3" using assms(2) by simp
  have "u8_new k = 0 # 0 # u8_new (k - 2)"
    using assms(1) by (cases k; cases "k - 1") (auto simp: u8_new_def)
  then have "(u8_new k)[1 := 2] = [0, 2] @ u8_new (k - 2)" by simp
  moreover have "u8_new (k - 2) = u8_new (length ?ps) @ 0 # u8_new (length message)"
  proof -
    have "k - 2 = length ?ps + Suc (length message)" using len assms(1) by simp
    then show ?thesis by (simp only: u8_new_def replicate_add replicate_Suc)
  qed
  ultimately show ?thesis by (simp add: rsa_padded_def Let_def overlay_def u8_new_def)
qed


lemma modPow_nat: "1 < m \<Longrightarrow> modPow (int b) (int e) (int m) = Ret (int (b ^ e mod m))"
  using modPow_value [of "int m" "int e" "int b"] by (simp add: zmod_int)

text \<open>A pair of keys: the same modulus of full length, and exponents that undo each other.\<close>

definition key_pair :: "rsa \<Rightarrow> rsa \<Rightarrow> bool" where
  "key_pair pub priv \<longleftrightarrow> rsa_keyBytes pub = rsa_keyBytes priv \<and> rsa_nBigInt pub = rsa_nBigInt priv \<and>
     1 < rsa_nBigInt pub \<and> 256 ^ (rsa_keyBytes pub - 1) \<le> rsa_nBigInt pub \<and> rsa_nBigInt pub \<le> 256 ^ rsa_keyBytes pub \<and>
     (\<exists>d. rsa_dBigInt priv = Some d \<and> (\<forall>m < rsa_nBigInt pub. (m ^ rsa_eBigInt pub) ^ d mod rsa_nBigInt pub = m))"

lemma rsa_undone:
  assumes "key_pair pub priv" "\<And>n. length (random n) = n" and room: "length message + 11 \<le> rsa_keyBytes pub"
  obtains c where "rsa_encrypt random pub message = Ret (Some c)" "length c = rsa_keyBytes pub"
    "rsa_decrypt priv c = Ret (Some message)"
proof -
  let ?k = "rsa_keyBytes pub" and ?N = "rsa_nBigInt pub" and ?E = "rsa_eBigInt pub"
  obtain d where d: "rsa_dBigInt priv = Some d" "\<forall>m < ?N. (m ^ ?E) ^ d mod ?N = m"
    and N: "1 < ?N" "256 ^ (?k - 1) \<le> ?N" "?N \<le> 256 ^ ?k" "rsa_keyBytes priv = ?k" "rsa_nBigInt priv = ?N"
    using assms(1) unfolding key_pair_def by metis
  let ?em = "rsa_padded random ?k message"
  let ?ps = "map nonzero_byte (random (?k - length message - 3))"
  have em: "?em = 0 # 2 # ?ps @ 0 # message" using padded_shape [OF room assms(2)] .
  then have len: "length ?em = ?k" using room assms(2) by simp
  obtain v where v: "u8ArrayToBigInt ?em = Ret v" by (simp add: em u8ArrayToBigInt_def)
  have "v < 256 ^ length (2 # ?ps @ 0 # message)" by (rule leading_zero) (use v em in simp)
  moreover have "length (2 # ?ps @ 0 # message) = ?k - 1" using len em by simp
  ultimately have "v < 256 ^ (?k - 1)" by (simp only:)
  then have vN: "v < ?N" using N(2) by linarith
  let ?c = "v ^ ?E mod ?N"
  have "?c < ?N" using N(1) by simp
  then have "?c < 256 ^ ?k" using N(3) by (rule less_le_trans)
  moreover have k: "0 < ?k" using room by simp
  ultimately obtain c where c: "bigIntToU8Array ?c ?k = Ret c" "u8ArrayToBigInt c = Ret ?c" "length c = ?k"
    using bigint_roundtrip by blast
  have enc: "rsa_encrypt random pub message = Ret (Some c)"
    using v c(1) room modPow_nat [OF N(1), of v ?E] by (simp add: rsa_encrypt_def del: of_nat_mod of_nat_power)
  have "v < 256 ^ ?k" using vN N(3) by (rule less_le_trans)
  then obtain e where e: "bigIntToU8Array v ?k = Ret e" "u8ArrayToBigInt e = Ret v" "length e = ?k"
    using bigint_roundtrip k by blast
  moreover have "?c ^ d mod ?N = v" using d(2) vN by (simp add: power_mod)
  moreover have "e = ?em" using bytes_value_inj [OF e(2) v] len e(3) by simp
  moreover have "after_zero ?em = Some message"
  proof -
    have "dropWhile (\<lambda>b. b \<noteq> 0) (?ps @ 0 # message) = 0 # message"
      by (rule dropWhile_append2 [of ?ps, THEN trans]) (auto simp: nonzero_byte_bounds)
    then show ?thesis by (simp add: after_zero_def em)
  qed
  ultimately have "rsa_decrypt priv c = Ret (Some message)"
    using c d(1) N(4,5) modPow_nat [OF N(1), of ?c d] em by (simp add: rsa_decrypt_def del: of_nat_mod of_nat_power)
  then show thesis using that enc c(3) by blast
qed

text \<open>C26: Encryption with RSA is undone by decryption. For a pair of keys and a message that leaves room for eleven
  bytes of padding, whatever the random bytes are, what the public key encrypts the private key decrypts to the
  message; a longer message is refused.\<close>

theorem rsa_roundtrip:
  assumes "key_pair pub priv" "\<And>n. length (random n) = n"
  shows "(length message + 11 \<le> rsa_keyBytes pub \<longrightarrow>
      (\<exists>c. rsa_encrypt random pub message = Ret (Some c) \<and> rsa_decrypt priv c = Ret (Some message))) \<and>
    (rsa_keyBytes pub < length message + 11 \<longrightarrow> rsa_encrypt random pub message = Ret None)"
  using rsa_undone [OF assms] by (auto simp: rsa_encrypt_def)

definition demo_rsa :: rsa where
  "demo_rsa = \<lparr>rsa_keyLength = 112, rsa_keyBytes = 14, rsa_n = 1 # u8_new 13, rsa_e = u8_new 13 @ [1],
     rsa_d = Some (u8_new 13 @ [1]), rsa_nBigInt = 256 ^ 13, rsa_eBigInt = 1, rsa_dBigInt = Some 1, rsa_extractable = True\<rparr>"

theorem rsa_roundtrip_witness:
  "\<exists>c. rsa_encrypt (\<lambda>n. replicate n 7) demo_rsa [1, 2, 3] = Ret (Some c) \<and> rsa_decrypt demo_rsa c = Ret (Some [1, 2, 3])"
proof -
  have "key_pair demo_rsa demo_rsa" by (simp add: key_pair_def demo_rsa_def)
  from rsa_roundtrip [OF this, of "\<lambda>n. replicate n 7" "[1, 2, 3]"] show ?thesis by (simp add: demo_rsa_def)
qed

end
