(* ===== verification/Ra2.thy ===== *)
theory Ra2
  imports Aes_Eax Rsa Strings Js_Text Rfb_State
begin

text \<open>
  The RSA-AES authentication, \<open>RSAAESAuthenticationState\<close> of \<open>core/ra2.js\<close>. The asynchronous function
  \<open>negotiateRA2neAuthAsync\<close> is a state machine: a point of \<open>ra2_point\<close> is an \<open>await\<close> it is suspended at, with the
  local variables that are still needed, and \<open>resume\<close> runs it from there to the next one. An \<open>await\<close> of the socket,
  of the approval or of the credentials has a promise, which the other methods settle; the promises of the
  cryptographic operations are settled when the browser is done, so between any two of their steps the other
  methods may run.

  The browser's cryptography, its random bytes and the key it generates are the record \<open>ra2_world\<close>.
\<close>

section \<open>State\<close>

record ra2_world =
  ra_crypto :: webcrypto
  ra_sha1 :: "bytes \<Rightarrow> bytes"
  ra_generate :: "nat \<Rightarrow> bytes \<Rightarrow> jwk"
  ra_random :: "nat \<Rightarrow> bytes"
  ra_padding :: "nat \<Rightarrow> bytes"

text \<open>The local variables: of the server's key, of the client's key, of the session.\<close>

record server_info =
  si_keyBytes :: nat
  si_public :: bytes
  si_rsa :: rsa

record client_info =
  ci_rsa :: rsa
  ci_public :: bytes
  ci_random :: bytes

record session_info =
  se_client :: ra2_cipher
  se_server :: ra2_cipher
  se_serverHash :: bytes

datatype ra2_point =
    NotStarted
  | KeyLength
  | Key bytes nat
  | KeyImported nat bytes "rsa outcome"
  | Approval server_info
  | KeyGenerated server_info "(rsa \<times> bytes \<times> bytes) outcome"
  | RandomSealed server_info client_info "bytes option outcome"
  | ServerRandom server_info client_info
  | RandomOpened server_info client_info "bytes option outcome"
  | HashSealed server_info client_info session_info bytes
  | ServerHash server_info client_info session_info
  | HashOpened server_info client_info session_info "bytes option"
  | Subtype server_info client_info session_info
  | SubtypeOpened server_info client_info session_info "bytes option"
  | Credentials server_info client_info session_info int
  | CredentialsSealed server_info client_info session_info bytes
  | Finished server_info client_info session_info
  | Failed js_error

datatype promise = Waiting | Resolved | Rejected

datatype ra2_event = ServerVerification bytes | CredentialsRequired "string list"

record ra2 =
  ra_sock :: websock
  ra_creds :: credentials
  hasStarted :: bool
  checkSock :: "nat option"
  checkCredentials :: "int option"
  approveServerResolve :: bool
  sockReject :: bool
  credentialsReject :: bool
  approveServerReject :: bool
  sockPromise :: promise
  credentialsPromise :: promise
  approvePromise :: promise
  ra_point :: ra2_point
  ra_events :: "ra2_event list"

definition new_ra2 :: "websock \<Rightarrow> credentials \<Rightarrow> ra2" where
  "new_ra2 s c = \<lparr>ra_sock = s, ra_creds = c, hasStarted = False, checkSock = None, checkCredentials = None,
     approveServerResolve = False, sockReject = False, credentialsReject = False, approveServerReject = False,
     sockPromise = Waiting, credentialsPromise = Waiting, approvePromise = Waiting, ra_point = NotStarted,
     ra_events = []\<rparr>"

text \<open>A promise is settled once.\<close>

fun settle :: "promise \<Rightarrow> promise \<Rightarrow> promise" where
  "settle p Waiting = p"
| "settle p q = q"

section \<open>Waiting\<close>

definition waitSock :: "nat \<Rightarrow> ra2 \<Rightarrow> ra2" where
  "waitSock len r =
     (if \<not> rQlacks len (ra_sock r) then r\<lparr>sockPromise := Resolved\<rparr>
      else r\<lparr>sockPromise := Waiting, checkSock := Some len, sockReject := True\<rparr>)"

definition waitApproveKey :: "ra2 \<Rightarrow> ra2" where
  "waitApproveKey r = r\<lparr>approvePromise := Waiting, approveServerResolve := True, approveServerReject := True\<rparr>"

definition hasCredentials :: "int \<Rightarrow> credentials \<Rightarrow> bool" where
  "hasCredentials subtype c \<longleftrightarrow>
     (if subtype = 1 \<and> username c \<noteq> None \<and> password c \<noteq> None then True
      else subtype = 2 \<and> password c \<noteq> None)"

definition waitCredentials :: "int \<Rightarrow> ra2 \<Rightarrow> ra2" where
  "waitCredentials subtype r =
     (if hasCredentials subtype (ra_creds r) then r\<lparr>credentialsPromise := Resolved\<rparr>
      else r\<lparr>credentialsPromise := Waiting, checkCredentials := Some subtype, credentialsReject := True\<rparr>)"

definition run_checkSock :: "ra2 \<Rightarrow> ra2" where
  "run_checkSock r =
     (case checkSock r of
        None \<Rightarrow> r
      | Some len \<Rightarrow>
          if \<not> rQlacks len (ra_sock r)
          then r\<lparr>sockPromise := settle Resolved (sockPromise r), checkSock := None, sockReject := False\<rparr> else r)"

definition run_checkCredentials :: "ra2 \<Rightarrow> ra2" where
  "run_checkCredentials r =
     (case checkCredentials r of
        None \<Rightarrow> r
      | Some subtype \<Rightarrow>
          if hasCredentials subtype (ra_creds r)
          then r\<lparr>credentialsPromise := settle Resolved (credentialsPromise r), checkCredentials := None,
                 credentialsReject := False\<rparr>
          else r)"

definition checkInternalEvents :: "ra2 \<Rightarrow> ra2" where
  "checkInternalEvents r = run_checkCredentials (run_checkSock r)"

definition ra2_approveServer :: "ra2 \<Rightarrow> ra2" where
  "ra2_approveServer r =
     (if approveServerResolve r
      then r\<lparr>approvePromise := settle Resolved (approvePromise r), approveServerResolve := False\<rparr> else r)"

definition ra2_disconnect :: "ra2 \<Rightarrow> ra2" where
  "ra2_disconnect r =
     (let r = (if sockReject r then r\<lparr>sockPromise := settle Rejected (sockPromise r), sockReject := False\<rparr> else r);
          r = (if credentialsReject r
               then r\<lparr>credentialsPromise := settle Rejected (credentialsPromise r), credentialsReject := False\<rparr> else r)
      in if approveServerReject r
         then r\<lparr>approvePromise := settle Rejected (approvePromise r), approveServerReject := False\<rparr> else r)"

section \<open>The negotiation\<close>

definition throws :: "js_error \<Rightarrow> ra2 \<Rightarrow> ra2" where
  "throws e r = r\<lparr>ra_point := Failed e\<rparr>"

definition error :: "string \<Rightarrow> ra2 \<Rightarrow> ra2" where
  "error msg = throws (ErrorMsg msg)"

text \<open>The value an awaited cryptographic operation has returned.\<close>

fun awaited :: "'a outcome \<Rightarrow> ('a \<Rightarrow> ra2 \<Rightarrow> ra2) \<Rightarrow> ra2 \<Rightarrow> ra2" where
  "awaited (Ret a) k r = k a r"
| "awaited (Throw e) k r = throws e r"
| "awaited Hang k r = r"

text \<open>\<open>sQpushBytes\<close> and \<open>flush\<close>, and then the rest.\<close>

definition push_flush :: "bytes \<Rightarrow> (ra2 \<Rightarrow> ra2) \<Rightarrow> ra2 \<Rightarrow> ra2" where
  "push_flush bs k r =
     (case sQpushBytes bs (ra_sock r) of
        (Ret _, s) \<Rightarrow> k (r\<lparr>ra_sock := flush s\<rparr>)
      | (Throw e, s) \<Rightarrow> throws e (r\<lparr>ra_sock := s\<rparr>)
      | (Hang, s) \<Rightarrow> r)"

definition at_point :: "ra2_point \<Rightarrow> ra2 \<Rightarrow> ra2" where
  "at_point p r = r\<lparr>ra_point := p\<rparr>"

definition number_text :: "int \<Rightarrow> string" where
  "number_text i = map char_of (js_int_string i)"

definition start :: "ra2 \<Rightarrow> ra2" where
  "start r = at_point KeyLength (waitSock 4 (r\<lparr>hasStarted := True\<rparr>))"

text \<open>1: Receive server public key.\<close>

definition on_keyLength :: "ra2 \<Rightarrow> ra2" where
  "on_keyLength r =
     (let serverKeyLengthBuffer = rQpeekBytes 4 (ra_sock r);
          (serverKeyLength, s) = rQshift32 (ra_sock r);
          r = r\<lparr>ra_sock := s\<rparr>
      in if serverKeyLength < 1024
         then error (''RA2: server public key is too short: '' @ number_text serverKeyLength) r
         else if serverKeyLength > 8192
         then error (''RA2: server public key is too long: '' @ number_text serverKeyLength) r
         else let serverKeyBytes = (nat serverKeyLength + 7) div 8
              in at_point (Key serverKeyLengthBuffer serverKeyBytes) (waitSock (serverKeyBytes * 2) r))"

definition server_public :: "nat \<Rightarrow> bytes \<Rightarrow> bytes \<Rightarrow> bytes \<Rightarrow> bytes" where
  "server_public serverKeyBytes serverKeyLengthBuffer serverN serverE =
     overlay (overlay (overlay (u8_new (4 + serverKeyBytes * 2)) 0 serverKeyLengthBuffer) 4 serverN)
       (4 + serverKeyBytes) serverE"

definition on_key :: "bytes \<Rightarrow> nat \<Rightarrow> ra2 \<Rightarrow> ra2" where
  "on_key serverKeyLengthBuffer serverKeyBytes r =
     (let (serverN, s) = rQshiftBytes serverKeyBytes (ra_sock r);
          (serverE, s) = rQshiftBytes serverKeyBytes s;
          serverPublickey = server_public serverKeyBytes serverKeyLengthBuffer serverN serverE
      in at_point (KeyImported serverKeyBytes serverPublickey (rsa_importKey serverN serverE False [''encrypt'']))
           (r\<lparr>ra_sock := s\<rparr>))"

definition on_keyImported :: "nat \<Rightarrow> bytes \<Rightarrow> rsa outcome \<Rightarrow> ra2 \<Rightarrow> ra2" where
  "on_keyImported serverKeyBytes serverPublickey imported =
     awaited imported (\<lambda>serverRSACipher r.
       let r = waitApproveKey r;
           r = r\<lparr>ra_events := ra_events r @ [ServerVerification serverPublickey]\<rparr>
       in at_point (Approval \<lparr>si_keyBytes = serverKeyBytes, si_public = serverPublickey, si_rsa = serverRSACipher\<rparr>) r)"

text \<open>2: Send client public key.\<close>

definition clientKeyLength :: nat where "clientKeyLength = 2048"

definition clientKeyBytes :: nat where "clientKeyBytes = (clientKeyLength + 7) div 8"

definition on_approval :: "ra2_world \<Rightarrow> server_info \<Rightarrow> ra2 \<Rightarrow> ra2" where
  "on_approval W si r =
     at_point (KeyGenerated si
       (obind (rsa_generateKey (ra_generate W) clientKeyLength [1, 0, 1] True) (\<lambda>k.
        obind (rsa_exportKey k) (\<lambda>(n, e, d). Ret (k, n, e))))) r"

definition client_public :: "bytes \<Rightarrow> bytes \<Rightarrow> bytes" where
  "client_public clientN clientE =
     (let k = u8_new (4 + clientKeyBytes * 2);
          l = int clientKeyLength;
          k = k[0 := u8 (js_shr (js_and l 0xff000000) 24), 1 := u8 (js_shr (js_and l 0xff0000) 16),
                2 := u8 (js_shr (js_and l 0xff00) 8), 3 := u8 (js_and l 0xff)]
      in overlay (overlay k 4 clientN) (4 + clientKeyBytes) clientE)"

definition on_keyGenerated :: "ra2_world \<Rightarrow> server_info \<Rightarrow> (rsa \<times> bytes \<times> bytes) outcome \<Rightarrow> ra2 \<Rightarrow> ra2" where
  "on_keyGenerated W si generated =
     awaited generated (\<lambda>(clientRSACipher, clientN, clientE).
       let clientPublicKey = client_public clientN clientE
       in push_flush clientPublicKey
           (\<lambda>r. let clientRandom = ra_random W 16;
                    ci = \<lparr>ci_rsa = clientRSACipher, ci_public = clientPublicKey, ci_random = clientRandom\<rparr>
                in at_point (RandomSealed si ci (rsa_encrypt (ra_padding W) (si_rsa si) clientRandom)) r))"

text \<open>3: Send client random. 4: Receive server random.\<close>

definition on_randomSealed :: "server_info \<Rightarrow> client_info \<Rightarrow> bytes option outcome \<Rightarrow> ra2 \<Rightarrow> ra2" where
  "on_randomSealed si ci enc =
     awaited enc (\<lambda>clientEncryptedRandom r.
       case clientEncryptedRandom of
         None \<Rightarrow> throws TypeError r
       | Some c \<Rightarrow>
           let m = (u8_new (2 + si_keyBytes si))[0 := u8 (js_shr (js_and (int (si_keyBytes si)) 0xff00) 8),
                      1 := u8 (js_and (int (si_keyBytes si)) 0xff)]
           in if \<not> fits m 2 c then throws RangeError r
              else push_flush (overlay m 2 c) (\<lambda>r. at_point (ServerRandom si ci) (waitSock 2 r)) r)"

definition on_serverRandom :: "server_info \<Rightarrow> client_info \<Rightarrow> ra2 \<Rightarrow> ra2" where
  "on_serverRandom si ci r =
     (let (len, s) = rQshift16 (ra_sock r)
      in if len \<noteq> int clientKeyBytes then error ''RA2: wrong encrypted message length'' (r\<lparr>ra_sock := s\<rparr>)
         else let (serverEncryptedRandom, s) = rQshiftBytes clientKeyBytes s
              in at_point (RandomOpened si ci (rsa_decrypt (ci_rsa ci) serverEncryptedRandom)) (r\<lparr>ra_sock := s\<rparr>))"

text \<open>5: Compute session keys and set ciphers. 6: Compute and exchange hashes.\<close>

definition session_key :: "ra2_world \<Rightarrow> bytes \<Rightarrow> bytes \<Rightarrow> bytes" where
  "session_key W a b = slice (ra_sha1 W (overlay (overlay (u8_new 32) 0 a) 16 b)) 0 16"

definition key_hash :: "ra2_world \<Rightarrow> nat \<Rightarrow> bytes \<Rightarrow> nat \<Rightarrow> bytes \<Rightarrow> bytes" where
  "key_hash W n a m b = ra_sha1 W (overlay (overlay (u8_new (8 + n * 2 + m * 2)) 0 a) (4 + n * 2) b)"

definition on_randomOpened :: "ra2_world \<Rightarrow> server_info \<Rightarrow> client_info \<Rightarrow> bytes option outcome \<Rightarrow> ra2 \<Rightarrow> ra2" where
  "on_randomOpened W si ci opened =
     awaited opened (\<lambda>serverRandom r.
       case serverRandom of
         None \<Rightarrow> error ''RA2: corrupted server encrypted random'' r
       | Some sr \<Rightarrow>
           if length sr \<noteq> 16 then error ''RA2: corrupted server encrypted random'' r
           else
             let clientCipher = new_ra2_cipher (ra_crypto W) (session_key W sr (ci_random ci));
                 serverCipher = new_ra2_cipher (ra_crypto W) (session_key W (ci_random ci) sr);
                 serverHash = key_hash W (si_keyBytes si) (si_public si) clientKeyBytes (ci_public ci);
                 clientHash = key_hash W clientKeyBytes (ci_public ci) (si_keyBytes si) (si_public si);
                 (m, clientCipher) = makeMessage (ra_crypto W) clientHash clientCipher
             in at_point (HashSealed si ci \<lparr>se_client = clientCipher, se_server = serverCipher,
                  se_serverHash = serverHash\<rparr> m) r)"

definition on_hashSealed :: "server_info \<Rightarrow> client_info \<Rightarrow> session_info \<Rightarrow> bytes \<Rightarrow> ra2 \<Rightarrow> ra2" where
  "on_hashSealed si ci se m = push_flush m (\<lambda>r. at_point (ServerHash si ci se) (waitSock (2 + 20 + 16) r))"

definition on_serverHash :: "ra2_world \<Rightarrow> server_info \<Rightarrow> client_info \<Rightarrow> session_info \<Rightarrow> ra2 \<Rightarrow> ra2" where
  "on_serverHash W si ci se r =
     (let (len, s) = rQshift16 (ra_sock r)
      in if len \<noteq> 20 then error ''RA2: wrong server hash'' (r\<lparr>ra_sock := s\<rparr>)
         else let (d, s) = rQshiftBytes (20 + 16) s;
                  (res, c) = receiveMessage (ra_crypto W) 20 d (se_server se)
              in at_point (HashOpened si ci (se\<lparr>se_server := c\<rparr>) res) (r\<lparr>ra_sock := s\<rparr>))"

definition on_hashOpened :: "server_info \<Rightarrow> client_info \<Rightarrow> session_info \<Rightarrow> bytes option \<Rightarrow> ra2 \<Rightarrow> ra2" where
  "on_hashOpened si ci se res r =
     (case res of
        None \<Rightarrow> error ''RA2: failed to authenticate the message'' r
      | Some serverHashReceived \<Rightarrow>
          if \<exists>i \<in> set [0..<20]. u8_at serverHashReceived i \<noteq> u8_at (se_serverHash se) i
          then error ''RA2: wrong server hash'' r
          else at_point (Subtype si ci se) (waitSock (2 + 1 + 16) r))"

text \<open>7: Receive subtype, and send the credentials it asks for.\<close>

definition on_subtype :: "ra2_world \<Rightarrow> server_info \<Rightarrow> client_info \<Rightarrow> session_info \<Rightarrow> ra2 \<Rightarrow> ra2" where
  "on_subtype W si ci se r =
     (let (len, s) = rQshift16 (ra_sock r)
      in if len \<noteq> 1 then error ''RA2: wrong subtype'' (r\<lparr>ra_sock := s\<rparr>)
         else let (d, s) = rQshiftBytes (1 + 16) s;
                  (res, c) = receiveMessage (ra_crypto W) 1 d (se_server se)
              in at_point (SubtypeOpened si ci (se\<lparr>se_server := c\<rparr>) res) (r\<lparr>ra_sock := s\<rparr>))"

definition require :: "bool \<Rightarrow> string list \<Rightarrow> ra2 \<Rightarrow> ra2" where
  "require missing types r = (if missing then r\<lparr>ra_events := ra_events r @ [CredentialsRequired types]\<rparr> else r)"

definition on_subtypeOpened :: "server_info \<Rightarrow> client_info \<Rightarrow> session_info \<Rightarrow> bytes option \<Rightarrow> ra2 \<Rightarrow> ra2" where
  "on_subtypeOpened si ci se res r =
     (case res of
        None \<Rightarrow> error ''RA2: failed to authenticate the message'' r
      | Some bs \<Rightarrow>
          let subtype = undef0 (u8_at bs 0);
              r = waitCredentials subtype r;
              c = ra_creds r
          in if subtype = 1 then at_point (Credentials si ci se subtype)
               (require (username c = None \<or> password c = None) [''username'', ''password''] r)
             else if subtype = 2 then at_point (Credentials si ci se subtype)
               (require (password c = None) [''password''] r)
             else error ''RA2: wrong subtype'' r)"

text \<open>A name that was taken back in the meantime is encoded as the text of \<open>undefined\<close>.\<close>

definition encoded :: "jsstring option \<Rightarrow> jsstring outcome" where
  "encoded t = obind (encodeUTF8 (case t of Some t \<Rightarrow> t | None \<Rightarrow> lit ''undefined'')) (\<lambda>u. Ret (take 255 u))"

definition credentials_message :: "jsstring \<Rightarrow> jsstring \<Rightarrow> bytes" where
  "credentials_message u p =
     (let c = (u8_new (length u + length p + 2))[0 := of_nat (length u), length u + 1 := of_nat (length p)]
      in overlay (overlay c 1 (bytes_of_str u)) (length u + 2) (bytes_of_str p))"

definition on_credentials :: "ra2_world \<Rightarrow> server_info \<Rightarrow> client_info \<Rightarrow> session_info \<Rightarrow> int \<Rightarrow> ra2 \<Rightarrow> ra2" where
  "on_credentials W si ci se subtype r =
     awaited (obind (if subtype = 1 then encoded (username (ra_creds r)) else Ret []) (\<lambda>u.
              obind (encoded (password (ra_creds r))) (\<lambda>p. Ret (u, p))))
       (\<lambda>(u, p) r. let (m, c) = makeMessage (ra_crypto W) (credentials_message u p) (se_client se)
         in at_point (CredentialsSealed si ci (se\<lparr>se_client := c\<rparr>) m) r) r"

definition on_credentialsSealed :: "server_info \<Rightarrow> client_info \<Rightarrow> session_info \<Rightarrow> bytes \<Rightarrow> ra2 \<Rightarrow> ra2" where
  "on_credentialsSealed si ci se m = push_flush m (at_point (Finished si ci se))"

section \<open>Steps\<close>

text \<open>The promise the negotiation awaits. Those of the cryptographic operations are settled by the browser.\<close>

fun awaits :: "ra2 \<Rightarrow> ra2_point \<Rightarrow> promise" where
  "awaits r NotStarted = Waiting"
| "awaits r KeyLength = sockPromise r"
| "awaits r (Key buf n) = sockPromise r"
| "awaits r (Approval si) = approvePromise r"
| "awaits r (ServerRandom si ci) = sockPromise r"
| "awaits r (ServerHash si ci se) = sockPromise r"
| "awaits r (Subtype si ci se) = sockPromise r"
| "awaits r (Credentials si ci se t) = credentialsPromise r"
| "awaits r p = Resolved"

fun continue_at :: "ra2_world \<Rightarrow> ra2_point \<Rightarrow> ra2 \<Rightarrow> ra2" where
  "continue_at W NotStarted r = r"
| "continue_at W KeyLength r = on_keyLength r"
| "continue_at W (Key buf n) r = on_key buf n r"
| "continue_at W (KeyImported n pub k) r = on_keyImported n pub k r"
| "continue_at W (Approval si) r = on_approval W si r"
| "continue_at W (KeyGenerated si g) r = on_keyGenerated W si g r"
| "continue_at W (RandomSealed si ci c) r = on_randomSealed si ci c r"
| "continue_at W (ServerRandom si ci) r = on_serverRandom si ci r"
| "continue_at W (RandomOpened si ci o') r = on_randomOpened W si ci o' r"
| "continue_at W (HashSealed si ci se m) r = on_hashSealed si ci se m r"
| "continue_at W (ServerHash si ci se) r = on_serverHash W si ci se r"
| "continue_at W (HashOpened si ci se res) r = on_hashOpened si ci se res r"
| "continue_at W (Subtype si ci se) r = on_subtype W si ci se r"
| "continue_at W (SubtypeOpened si ci se res) r = on_subtypeOpened si ci se res r"
| "continue_at W (Credentials si ci se t) r = on_credentials W si ci se t r"
| "continue_at W (CredentialsSealed si ci se m) r = on_credentialsSealed si ci se m r"
| "continue_at W (Finished si ci se) r = r"
| "continue_at W (Failed e) r = r"

definition resume :: "ra2_world \<Rightarrow> ra2 \<Rightarrow> ra2" where
  "resume W r =
     (case awaits r (ra_point r) of
        Waiting \<Rightarrow> r
      | Resolved \<Rightarrow> continue_at W (ra_point r) r
      | Rejected \<Rightarrow> error ''disconnect normally'' r)"

text \<open>What can happen: the connection starts the negotiation once, bytes arrive, the connection calls the methods, the
  credentials change, the negotiation continues.\<close>

datatype ra2_op =
    Start
  | Receive bytes
  | CheckEvents
  | Approve
  | SetCredentials credentials
  | Disconnect
  | Resume

fun ra2_step :: "ra2_world \<Rightarrow> ra2_op \<Rightarrow> ra2 \<Rightarrow> ra2" where
  "ra2_step W Start r = (if hasStarted r then r else start r)"
| "ra2_step W (Receive d) r = r\<lparr>ra_sock := snd (recvMessage d (ra_sock r))\<rparr>"
| "ra2_step W CheckEvents r = checkInternalEvents r"
| "ra2_step W Approve r = ra2_approveServer r"
| "ra2_step W (SetCredentials c) r = r\<lparr>ra_creds := c\<rparr>"
| "ra2_step W Disconnect r = ra2_disconnect r"
| "ra2_step W Resume r = resume W r"

inductive ra2_run :: "ra2_world \<Rightarrow> ra2 \<Rightarrow> ra2_op list \<Rightarrow> ra2 \<Rightarrow> bool" for W r0 where
  ra2_init: "ra2_run W r0 [] r0"
| ra2_more: "ra2_run W r0 tr r \<Longrightarrow> ra2_run W r0 (tr @ [x]) (ra2_step W x r)"

end
