(* ===== verification/Ra2_Laws.thy ===== *)
theory Ra2_Laws
  imports Ra2
begin

text \<open>
  What the RSA-AES authentication guarantees. Nothing is sent before the user has approved a key, the key that was
  approved is the one the session uses, and the credentials are only sealed after the server has proved that it
  knows both random numbers and both keys. An honest server that holds the private key of the key it has shown gets the
  credentials.
\<close>

section \<open>Trust\<close>

text \<open>A key is approved when it was on display at a call of \<open>approveServer\<close>.\<close>

definition approved :: "ra2_world \<Rightarrow> ra2 \<Rightarrow> ra2_op list \<Rightarrow> bytes \<Rightarrow> bool" where
  "approved W r0 tr key \<longleftrightarrow>
     (\<exists>t1 t2 r1. tr = t1 @ Approve # t2 \<and> ra2_run W r0 t1 r1 \<and> ServerVerification key \<in> set (ra_events r1))"

text \<open>The cipher is the one that was imported from the bytes on display.\<close>

definition shown_cipher :: "nat \<Rightarrow> bytes \<Rightarrow> rsa outcome \<Rightarrow> bool" where
  "shown_cipher k pub c \<longleftrightarrow>
     (\<exists>buf n e. pub = server_public k buf n e \<and> c = rsa_importKey n e False [''encrypt''])"

definition si_ok :: "server_info \<Rightarrow> bool" where
  "si_ok si \<longleftrightarrow> shown_cipher (si_keyBytes si) (si_public si) (Ret (si_rsa si))"

definition server_hash :: "ra2_world \<Rightarrow> server_info \<Rightarrow> client_info \<Rightarrow> bytes" where
  "server_hash W si ci = key_hash W (si_keyBytes si) (si_public si) clientKeyBytes (ci_public ci)"

definition server_cipher :: "ra2_world \<Rightarrow> client_info \<Rightarrow> bytes \<Rightarrow> ra2_cipher" where
  "server_cipher W ci sr = new_ra2_cipher (ra_crypto W) (session_key W (ci_random ci) sr)"

text \<open>The server has proved itself: some message decrypts, with the session key of the client's random number and
  another one, to the hash of both public keys.\<close>

definition proven :: "ra2_world \<Rightarrow> server_info \<Rightarrow> client_info \<Rightarrow> bool" where
  "proven W si ci \<longleftrightarrow>
     (\<exists>sr d h. length sr = 16 \<and> fst (receiveMessage (ra_crypto W) 20 d (server_cipher W ci sr)) = Some h \<and>
        (\<forall>i < 20. u8_at h i = u8_at (server_hash W si ci) i))"

section \<open>Invariant\<close>

fun point_ok :: "ra2_world \<Rightarrow> ra2_point \<Rightarrow> bool" where
  "point_ok W (KeyImported n pub k) = shown_cipher n pub k"
| "point_ok W (Approval si) = si_ok si"
| "point_ok W (KeyGenerated si g) = si_ok si"
| "point_ok W (RandomSealed si ci c) = si_ok si"
| "point_ok W (ServerRandom si ci) = si_ok si"
| "point_ok W (RandomOpened si ci d) = si_ok si"
| "point_ok W (HashSealed si ci se m) =
     (si_ok si \<and> se_serverHash se = server_hash W si ci \<and> (\<exists>sr. length sr = 16 \<and> se_server se = server_cipher W ci sr))"
| "point_ok W (ServerHash si ci se) =
     (si_ok si \<and> se_serverHash se = server_hash W si ci \<and> (\<exists>sr. length sr = 16 \<and> se_server se = server_cipher W ci sr))"
| "point_ok W (HashOpened si ci se res) =
     (si_ok si \<and> se_serverHash se = server_hash W si ci \<and>
      (\<exists>sr d. length sr = 16 \<and> res = fst (receiveMessage (ra_crypto W) 20 d (server_cipher W ci sr))))"
| "point_ok W (Subtype si ci se) = (si_ok si \<and> proven W si ci)"
| "point_ok W (SubtypeOpened si ci se res) = (si_ok si \<and> proven W si ci)"
| "point_ok W (Credentials si ci se t) = (si_ok si \<and> proven W si ci)"
| "point_ok W (CredentialsSealed si ci se m) = (si_ok si \<and> proven W si ci)"
| "point_ok W (Finished si ci se) = (si_ok si \<and> proven W si ci)"
| "point_ok W p = True"

text \<open>The server the negotiation is with, once its key was approved.\<close>

fun server_of :: "ra2_point \<Rightarrow> server_info option" where
  "server_of (KeyGenerated si g) = Some si"
| "server_of (RandomSealed si ci c) = Some si"
| "server_of (ServerRandom si ci) = Some si"
| "server_of (RandomOpened si ci d) = Some si"
| "server_of (HashSealed si ci se m) = Some si"
| "server_of (ServerHash si ci se) = Some si"
| "server_of (HashOpened si ci se res) = Some si"
| "server_of (Subtype si ci se) = Some si"
| "server_of (SubtypeOpened si ci se res) = Some si"
| "server_of (Credentials si ci se t) = Some si"
| "server_of (CredentialsSealed si ci se m) = Some si"
| "server_of (Finished si ci se) = Some si"
| "server_of p = None"

fun early :: "ra2_point \<Rightarrow> bool" where
  "early NotStarted = True"
| "early KeyLength = True"
| "early (Key buf n) = True"
| "early (KeyImported n pub k) = True"
| "early p = False"

definition shows_only :: "bytes \<Rightarrow> ra2_event list \<Rightarrow> bool" where
  "shows_only key evs \<longleftrightarrow> (\<forall>k. ServerVerification k \<in> set evs \<longleftrightarrow> k = key)"

definition trust :: "ra2_world \<Rightarrow> ra2 \<Rightarrow> ra2_op list \<Rightarrow> ra2 \<Rightarrow> bool" where
  "trust W r0 tr r \<longleftrightarrow>
     point_ok W (ra_point r) \<and>
     (ra_point r \<noteq> NotStarted \<longrightarrow> hasStarted r) \<and>
     (early (ra_point r) \<longrightarrow> ra_events r = []) \<and>
     (\<forall>si. ra_point r = Approval si \<longrightarrow> shows_only (si_public si) (ra_events r) \<and>
        (approvePromise r = Resolved \<longrightarrow> approved W r0 tr (si_public si))) \<and>
     (\<forall>si. server_of (ra_point r) = Some si \<longrightarrow> shows_only (si_public si) (ra_events r) \<and> approved W r0 tr (si_public si)) \<and>
     (Approve \<in> set tr \<or> outgoing (ra_sock r) = outgoing (ra_sock r0))"

lemma approved_more: "approved W r0 tr key \<Longrightarrow> approved W r0 (tr @ [x]) key"
  unfolding approved_def by (metis append_Cons append_assoc)

lemma approved_Approve: "approved W r0 tr key \<Longrightarrow> Approve \<in> set tr"
  unfolding approved_def by auto

text \<open>A step that leaves the point, the events and what was sent, and does not resolve the approval.\<close>

lemma trust_quiet:
  assumes "trust W r0 tr r" "ra_point r' = ra_point r" "ra_events r' = ra_events r" "hasStarted r' = hasStarted r"
    "outgoing (ra_sock r') = outgoing (ra_sock r)" "approvePromise r' = Resolved \<Longrightarrow> approvePromise r = Resolved"
  shows "trust W r0 (tr @ [x]) r'"
  using assms(1,2-6) approved_more unfolding trust_def by fastforce

text \<open>The part of the socket that sends.\<close>

definition sending :: "websock \<Rightarrow> bytes \<times> nat \<times> nat \<times> bytes list \<times> channel_state option" where
  "sending s = (sQ s, sQlen s, sQbufferSize s, sent s, websocket s)"

lemma sending_outgoing: "sending s = sending t \<Longrightarrow> outgoing s = outgoing t"
  by (simp add: sending_def outgoing_def)

lemma sending_expand: "sending (snd (expandCompactRQ n s)) = sending s"
  unfolding expandCompactRQ_def Let_def by (simp add: sending_def)

lemma sending_recv: "sending (snd (recvMessage d s)) = sending s"
proof -
  define s1 where "s1 = (if rQlen s = rQi s then s\<lparr>rQlen := 0, rQi := 0\<rparr> else s)"
  obtain o' s2 where s2: "(if int (length d) > int (rQbufferSize s1) - int (rQlen s1)
      then expandCompactRQ (length d) s1 else (Ret (), s1)) = (o', s2)" by fastforce
  have "sending s2 = sending s1" using s2 sending_expand [of "length d" s1] by (metis snd_conv)
  also have "\<dots> = sending s" by (simp add: s1_def sending_def)
  finally have "sending s2 = sending s" .
  then show ?thesis
    unfolding recvMessage_def s1_def [symmetric] Let_def s2 by (cases o') (simp_all add: sending_def)
qed

lemma reads_outgoing:
  "outgoing (snd (recvMessage d s)) = outgoing s" "outgoing (snd (rQshift32 s)) = outgoing s"
  "outgoing (snd (rQshift16 s)) = outgoing s" "outgoing (snd (rQshiftBytes n s)) = outgoing s"
proof -
  have "outgoing (snd (rQshift_loop n res s)) = outgoing s" for n res s
    by (induction n res s rule: rQshift_loop.induct) (simp_all add: outgoing_def)
  then have "outgoing (snd (rQshift n s)) = outgoing s" for n s by (metis rQshift_def snd_conv split_beta)
  then show "outgoing (snd (rQshift32 s)) = outgoing s" "outgoing (snd (rQshift16 s)) = outgoing s"
    by (simp_all add: rQshift32_def rQshift16_def)
  show "outgoing (snd (rQshiftBytes n s)) = outgoing s" by (simp add: rQshiftBytes_def outgoing_def)
  show "outgoing (snd (recvMessage d s)) = outgoing s" by (rule sending_outgoing [OF sending_recv])
qed

section \<open>Steps keep the invariant\<close>

lemma check_frame [simp]:
  "ra_point (checkInternalEvents r) = ra_point r" "ra_events (checkInternalEvents r) = ra_events r"
  "hasStarted (checkInternalEvents r) = hasStarted r" "ra_sock (checkInternalEvents r) = ra_sock r"
  "approvePromise (checkInternalEvents r) = approvePromise r"
proof -
  have "ra_point (run_checkSock r) = ra_point r \<and> ra_events (run_checkSock r) = ra_events r \<and>
      hasStarted (run_checkSock r) = hasStarted r \<and> ra_sock (run_checkSock r) = ra_sock r \<and>
      approvePromise (run_checkSock r) = approvePromise r" for r
    by (cases "checkSock r") (simp_all add: run_checkSock_def)
  moreover have "ra_point (run_checkCredentials r) = ra_point r \<and> ra_events (run_checkCredentials r) = ra_events r \<and>
      hasStarted (run_checkCredentials r) = hasStarted r \<and> ra_sock (run_checkCredentials r) = ra_sock r \<and>
      approvePromise (run_checkCredentials r) = approvePromise r" for r
    by (cases "checkCredentials r") (simp_all add: run_checkCredentials_def)
  ultimately show "ra_point (checkInternalEvents r) = ra_point r" "ra_events (checkInternalEvents r) = ra_events r"
    "hasStarted (checkInternalEvents r) = hasStarted r" "ra_sock (checkInternalEvents r) = ra_sock r"
    "approvePromise (checkInternalEvents r) = approvePromise r"
    by (simp_all add: checkInternalEvents_def)
qed

lemma disconnect_frame [simp]:
  "ra_point (ra2_disconnect r) = ra_point r" "ra_events (ra2_disconnect r) = ra_events r"
  "hasStarted (ra2_disconnect r) = hasStarted r" "ra_sock (ra2_disconnect r) = ra_sock r"
  "approvePromise (ra2_disconnect r) =
     (if approveServerReject r then settle Rejected (approvePromise r) else approvePromise r)"
  unfolding ra2_disconnect_def Let_def by simp_all

lemma trust_others:
  assumes "trust W r0 tr r" "ra2_run W r0 tr r"
  shows "trust W r0 (tr @ [Start]) (ra2_step W Start r)" "trust W r0 (tr @ [Receive d]) (ra2_step W (Receive d) r)"
    "trust W r0 (tr @ [CheckEvents]) (ra2_step W CheckEvents r)"
    "trust W r0 (tr @ [SetCredentials c]) (ra2_step W (SetCredentials c) r)"
    "trust W r0 (tr @ [Disconnect]) (ra2_step W Disconnect r)"
proof -
  show "trust W r0 (tr @ [Receive d]) (ra2_step W (Receive d) r)"
    by (rule trust_quiet [OF assms(1)]) (simp_all add: reads_outgoing)
  show "trust W r0 (tr @ [SetCredentials c]) (ra2_step W (SetCredentials c) r)"
    by (rule trust_quiet [OF assms(1)]) simp_all
  show "trust W r0 (tr @ [CheckEvents]) (ra2_step W CheckEvents r)"
    by (rule trust_quiet [OF assms(1)]) simp_all
  have settle: "settle Rejected p = Resolved \<Longrightarrow> p = Resolved" for p by (cases p) auto
  show "trust W r0 (tr @ [Disconnect]) (ra2_step W Disconnect r)"
    by (rule trust_quiet [OF assms(1)]) (simp_all add: settle split: if_splits)
  show "trust W r0 (tr @ [Start]) (ra2_step W Start r)"
  proof (cases "hasStarted r")
    case True
    then show ?thesis using trust_quiet [OF assms(1), of r] by simp
  next
    case False
    then have "ra_point r = NotStarted" using assms(1) by (auto simp: trust_def)
    then show ?thesis using False assms(1)
      by (simp add: trust_def start_def waitSock_def at_point_def)
  qed
qed

lemma trust_approve:
  assumes "trust W r0 tr r" "ra2_run W r0 tr r"
  shows "trust W r0 (tr @ [Approve]) (ra2_step W Approve r)"
proof -
  let ?r = "ra2_step W Approve r"
  have same: "ra_point ?r = ra_point r" "ra_events ?r = ra_events r" "hasStarted ?r = hasStarted r"
    by (simp_all add: ra2_approveServer_def)
  have "approved W r0 (tr @ [Approve]) key" if "shows_only key (ra_events r)" for key
    unfolding approved_def using assms(2) that by (intro exI [of _ tr] exI [of _ "[]"] exI [of _ r]) (simp add: shows_only_def)
  then show ?thesis using assms(1) same unfolding trust_def by simp
qed

lemma wait_frame [simp]:
  "ra_point (waitSock n r) = ra_point r" "ra_events (waitSock n r) = ra_events r"
  "hasStarted (waitSock n r) = hasStarted r" "ra_sock (waitSock n r) = ra_sock r"
  "approvePromise (waitSock n r) = approvePromise r"
  "ra_point (waitCredentials t r) = ra_point r" "ra_events (waitCredentials t r) = ra_events r"
  "hasStarted (waitCredentials t r) = hasStarted r" "ra_sock (waitCredentials t r) = ra_sock r"
  "ra_creds (waitCredentials t r) = ra_creds r"
  by (simp_all add: waitSock_def waitCredentials_def)

lemma point_frame [simp]:
  "ra_point (at_point p r) = p" "ra_events (at_point p r) = ra_events r"
  "hasStarted (at_point p r) = hasStarted r" "ra_sock (at_point p r) = ra_sock r"
  "ra_point (throws e r) = Failed e" "ra_events (throws e r) = ra_events r"
  "hasStarted (throws e r) = hasStarted r" "ra_sock (throws e r) = ra_sock r"
  by (simp_all add: at_point_def throws_def)

lemma error_frame [simp]:
  "ra_point (error m r) = Failed (ErrorMsg m)" "ra_events (error m r) = ra_events r"
  "hasStarted (error m r) = hasStarted r" "ra_sock (error m r) = ra_sock r"
  by (simp_all add: error_def)

text \<open>The negotiation with an approved server goes on, fails, or is still where it was.\<close>

lemma trust_on:
  assumes "trust W r0 tr r" "server_of (ra_point r) = Some si" "hasStarted r' = hasStarted r"
    and "server_of (ra_point r') = Some si \<and> point_ok W (ra_point r') \<or> (\<exists>e. ra_point r' = Failed e)"
    and "\<And>k. ServerVerification k \<in> set (ra_events r') \<longleftrightarrow> ServerVerification k \<in> set (ra_events r)"
  shows "trust W r0 (tr @ [x]) r'"
proof -
  have si: "shows_only (si_public si) (ra_events r)" "approved W r0 tr (si_public si)" "hasStarted r"
    using assms(1,2) by (auto simp: trust_def)
  moreover have "\<not> early (ra_point r') \<and> (\<forall>si. ra_point r' \<noteq> Approval si) \<or> server_of (ra_point r') = None"
    by (cases "ra_point r'") simp_all
  moreover have "Approve \<in> set (tr @ [x])" using approved_Approve [OF si(2)] by simp
  ultimately show ?thesis using assms(3,4,5) approved_more [OF si(2)] unfolding trust_def shows_only_def
    by (elim disjE exE conjE) auto
qed

lemma trust_failed:
  assumes "trust W r0 tr r" "ra_point r' = Failed e" "hasStarted r'" "outgoing (ra_sock r') = outgoing (ra_sock r)"
  shows "trust W r0 (tr @ [x]) r'"
  using assms unfolding trust_def by auto

lemma trust_awaited:
  assumes "trust W r0 tr r" "ra_point r \<noteq> NotStarted" "\<And>a. v = Ret a \<Longrightarrow> trust W r0 (tr @ [x]) (k a r)"
  shows "trust W r0 (tr @ [x]) (awaited v k r)"
proof (cases v)
  case (Throw e)
  then show ?thesis using trust_failed [OF assms(1), of "throws e r" e] assms(1,2) by (simp add: trust_def)
next
  case Hang
  then show ?thesis using trust_quiet [OF assms(1), of r] by simp
qed (use assms(3) in simp)

lemma trust_push:
  assumes "trust W r0 tr r" "server_of (ra_point r) = Some si"
    and "\<And>s. trust W r0 (tr @ [x]) (k (r\<lparr>ra_sock := s\<rparr>))"
  shows "trust W r0 (tr @ [x]) (push_flush bs k r)"
proof -
  obtain v s where v: "sQpushBytes bs (ra_sock r) = (v, s)" by fastforce
  show ?thesis
  proof (cases v)
    case (Throw e)
    then show ?thesis using trust_on [OF assms(1,2), of "throws e (r\<lparr>ra_sock := s\<rparr>)"] v by (simp add: push_flush_def)
  next
    case Hang
    then show ?thesis using trust_quiet [OF assms(1), of r] v by (simp add: push_flush_def)
  qed (use assms(3) v in \<open>simp add: push_flush_def\<close>)
qed

lemma trust_keyLength:
  assumes "trust W r0 tr r" "ra_point r = KeyLength"
  shows "trust W r0 (tr @ [x]) (on_keyLength r)"
proof -
  obtain l s where l: "rQshift32 (ra_sock r) = (l, s)" by fastforce
  then have out: "outgoing s = outgoing (ra_sock r)" using reads_outgoing(2) by (metis snd_conv)
  have r: "hasStarted r" "ra_events r = []" "Approve \<in> set tr \<or> outgoing (ra_sock r) = outgoing (ra_sock r0)"
    using assms by (auto simp: trust_def)
  have "trust W r0 (tr @ [x]) (error m (r\<lparr>ra_sock := s\<rparr>))" for m
    by (rule trust_failed [OF assms(1)]) (simp_all add: out r)
  moreover have "trust W r0 (tr @ [x]) (at_point (Key buf n) (waitSock m (r\<lparr>ra_sock := s\<rparr>)))" for buf n m
    using r out by (auto simp: trust_def)
  ultimately show ?thesis by (simp add: on_keyLength_def l Let_def)
qed

lemma trust_key:
  assumes "trust W r0 tr r" "ra_point r = Key buf n"
  shows "trust W r0 (tr @ [x]) (on_key buf n r)"
proof -
  obtain a s b t where l: "rQshiftBytes n (ra_sock r) = (a, s)" "rQshiftBytes n s = (b, t)" by fastforce
  then have out: "outgoing t = outgoing (ra_sock r)" using reads_outgoing(4) by (metis snd_conv)
  have r: "hasStarted r" "ra_events r = []" "Approve \<in> set tr \<or> outgoing (ra_sock r) = outgoing (ra_sock r0)"
    using assms by (auto simp: trust_def)
  then show ?thesis by (auto simp: on_key_def l Let_def trust_def shown_cipher_def out)
qed

lemma trust_keyImported:
  assumes "trust W r0 tr r" "ra_point r = KeyImported n pub v"
  shows "trust W r0 (tr @ [x]) (on_keyImported n pub v r)"
  unfolding on_keyImported_def
proof (rule trust_awaited [OF assms(1)])
  fix c assume "v = Ret c"
  moreover have "hasStarted r" "ra_events r = []" "Approve \<in> set tr \<or> outgoing (ra_sock r) = outgoing (ra_sock r0)"
    "shown_cipher n pub v" using assms by (auto simp: trust_def)
  ultimately show "trust W r0 (tr @ [x]) (let r = waitApproveKey r; r = r\<lparr>ra_events := ra_events r @ [ServerVerification pub]\<rparr>
       in at_point (Approval \<lparr>si_keyBytes = n, si_public = pub, si_rsa = c\<rparr>) r)"
    by (auto simp: trust_def waitApproveKey_def si_ok_def shows_only_def at_point_def)
qed (simp add: assms(2))

lemma trust_approval:
  assumes "trust W r0 tr r" "ra_point r = Approval si" "approvePromise r = Resolved"
  shows "trust W r0 (tr @ [x]) (on_approval W si r)"
  using assms approved_more approved_Approve unfolding trust_def on_approval_def by fastforce

text \<open>The points after the approval.\<close>

lemma trust_sent:
  assumes "trust W r0 tr r"
  shows "ra_point r = KeyGenerated si g \<Longrightarrow> trust W r0 (tr @ [x]) (on_keyGenerated W si g r)"
    "ra_point r = RandomSealed si ci c \<Longrightarrow> trust W r0 (tr @ [x]) (on_randomSealed si ci c r)"
    "ra_point r = HashSealed si ci se m \<Longrightarrow> trust W r0 (tr @ [x]) (on_hashSealed si ci se m r)"
    "ra_point r = CredentialsSealed si ci se m \<Longrightarrow> trust W r0 (tr @ [x]) (on_credentialsSealed si ci se m r)"
proof -
  note on = trust_on [OF assms, of si]
  have ok: "point_ok W (ra_point r)" using assms by (simp add: trust_def)
  show "trust W r0 (tr @ [x]) (on_keyGenerated W si g r)" if p: "ra_point r = KeyGenerated si g"
    unfolding on_keyGenerated_def
  proof (rule trust_awaited [OF assms])
    fix a :: "rsa \<times> bytes \<times> bytes"
    obtain k n e where a: "a = (k, n, e)" by (cases a) auto
    show "trust W r0 (tr @ [x]) ((case a of (k, n, e) \<Rightarrow> let pub = client_public n e in push_flush pub (\<lambda>r.
         let cr = ra_random W 16; ci = \<lparr>ci_rsa = k, ci_public = pub, ci_random = cr\<rparr>
         in at_point (RandomSealed si ci (rsa_encrypt (ra_padding W) (si_rsa si) cr)) r)) r)"
      unfolding a prod.case Let_def by (rule trust_push [OF assms, of si], simp add: p, rule on) (use p ok in simp_all)
  qed (simp add: p)
  show "trust W r0 (tr @ [x]) (on_randomSealed si ci c r)" if p: "ra_point r = RandomSealed si ci c"
    unfolding on_randomSealed_def
  proof (rule trust_awaited [OF assms])
    have "trust W r0 (tr @ [x]) (throws e r)" for e by (rule on) (use p in simp_all)
    moreover have "trust W r0 (tr @ [x]) (push_flush bs (\<lambda>r. at_point (ServerRandom si ci) (waitSock 2 r)) r)" for bs
      by (rule trust_push [OF assms, of si], simp add: p, rule on) (use p ok in simp_all)
    ultimately show "trust W r0 (tr @ [x]) (case v of None \<Rightarrow> throws TypeError r | Some c \<Rightarrow>
        let m = (u8_new (2 + si_keyBytes si))[0 := u8 (js_shr (js_and (int (si_keyBytes si)) 0xff00) 8),
                      1 := u8 (js_and (int (si_keyBytes si)) 0xff)]
        in if \<not> fits m 2 c then throws RangeError r
           else push_flush (overlay m 2 c) (\<lambda>r. at_point (ServerRandom si ci) (waitSock 2 r)) r)" for v
      by (cases v) (simp_all add: Let_def)
  qed (simp add: p)
  show "trust W r0 (tr @ [x]) (on_hashSealed si ci se m r)" if p: "ra_point r = HashSealed si ci se m"
    unfolding on_hashSealed_def
    by (rule trust_push [OF assms, of si], simp add: p, rule on) (use p ok in auto)
  show "trust W r0 (tr @ [x]) (on_credentialsSealed si ci se m r)" if p: "ra_point r = CredentialsSealed si ci se m"
    unfolding on_credentialsSealed_def
    by (rule trust_push [OF assms, of si], simp add: p, rule on) (use p ok in auto)
qed

lemma trust_received:
  assumes "trust W r0 tr r"
  shows "ra_point r = ServerRandom si ci \<Longrightarrow> trust W r0 (tr @ [x]) (on_serverRandom si ci r)"
    "ra_point r = ServerHash si ci se \<Longrightarrow> trust W r0 (tr @ [x]) (on_serverHash W si ci se r)"
    "ra_point r = Subtype si ci se \<Longrightarrow> trust W r0 (tr @ [x]) (on_subtype W si ci se r)"
proof -
  note on = trust_on [OF assms, of si]
  have ok: "point_ok W (ra_point r)" using assms by (simp add: trust_def)
  obtain l s where l: "rQshift16 (ra_sock r) = (l, s)" by fastforce
  have err: "trust W r0 (tr @ [x]) (error m (r\<lparr>ra_sock := s\<rparr>))" if "server_of (ra_point r) = Some si" for m s
    by (rule on) (simp_all add: that)
  show "trust W r0 (tr @ [x]) (on_serverRandom si ci r)" if p: "ra_point r = ServerRandom si ci"
  proof -
    have "trust W r0 (tr @ [x]) (at_point (RandomOpened si ci v) (r\<lparr>ra_sock := s\<rparr>))" for v s
      by (rule on) (use p ok in simp_all)
    then show ?thesis using err p by (simp add: on_serverRandom_def l Let_def split: prod.split)
  qed
  show "trust W r0 (tr @ [x]) (on_serverHash W si ci se r)" if p: "ra_point r = ServerHash si ci se"
  proof -
    have "trust W r0 (tr @ [x]) (at_point (HashOpened si ci (se\<lparr>se_server := c\<rparr>) res) (r\<lparr>ra_sock := s\<rparr>))"
      if "receiveMessage (ra_crypto W) 20 d (se_server se) = (res, c)" for d res c s
    proof (rule on)
      obtain sr where "length sr = 16" "se_server se = server_cipher W ci sr" using ok p by auto
      then have "\<exists>sr d. length sr = 16 \<and> res = fst (receiveMessage (ra_crypto W) 20 d (server_cipher W ci sr))"
        using that by (metis fst_conv)
      then show "server_of (ra_point (at_point (HashOpened si ci (se\<lparr>se_server := c\<rparr>) res) (r\<lparr>ra_sock := s\<rparr>))) = Some si \<and>
          point_ok W (ra_point (at_point (HashOpened si ci (se\<lparr>se_server := c\<rparr>) res) (r\<lparr>ra_sock := s\<rparr>))) \<or>
          (\<exists>e. ra_point (at_point (HashOpened si ci (se\<lparr>se_server := c\<rparr>) res) (r\<lparr>ra_sock := s\<rparr>)) = Failed e)"
        using ok p by simp
    qed (simp_all add: p)
    then show ?thesis using err p by (simp add: on_serverHash_def l Let_def split: prod.split)
  qed
  show "trust W r0 (tr @ [x]) (on_subtype W si ci se r)" if p: "ra_point r = Subtype si ci se"
  proof -
    have "trust W r0 (tr @ [x]) (at_point (SubtypeOpened si ci (se\<lparr>se_server := c\<rparr>) res) (r\<lparr>ra_sock := s\<rparr>))" for c res s
      by (rule on) (use p ok in simp_all)
    then show ?thesis using err p by (simp add: on_subtype_def l Let_def split: prod.split)
  qed
qed

lemma trust_opened:
  assumes "trust W r0 tr r"
  shows "ra_point r = RandomOpened si ci v \<Longrightarrow> trust W r0 (tr @ [x]) (on_randomOpened W si ci v r)"
    "ra_point r = HashOpened si ci se res \<Longrightarrow> trust W r0 (tr @ [x]) (on_hashOpened si ci se res r)"
    "ra_point r = SubtypeOpened si ci se res \<Longrightarrow> trust W r0 (tr @ [x]) (on_subtypeOpened si ci se res r)"
    "ra_point r = Credentials si ci se t \<Longrightarrow> trust W r0 (tr @ [x]) (on_credentials W si ci se t r)"
proof -
  note on = trust_on [OF assms, of si]
  have ok: "point_ok W (ra_point r)" using assms by (simp add: trust_def)
  have err: "trust W r0 (tr @ [x]) (error m r)" if "server_of (ra_point r) = Some si" for m
    by (rule on) (simp_all add: that)
  show "trust W r0 (tr @ [x]) (on_randomOpened W si ci v r)" if p: "ra_point r = RandomOpened si ci v"
    unfolding on_randomOpened_def
  proof (rule trust_awaited [OF assms])
    fix a :: "bytes option"
    have "trust W r0 (tr @ [x]) (at_point (HashSealed si ci \<lparr>se_client = c,
        se_server = new_ra2_cipher (ra_crypto W) (session_key W (ci_random ci) sr),
        se_serverHash = key_hash W (si_keyBytes si) (si_public si) clientKeyBytes (ci_public ci)\<rparr> m) r)"
      if "length sr = 16" for c sr m
      by (rule on) (use p ok that in \<open>auto simp: server_hash_def server_cipher_def\<close>)
    then show "trust W r0 (tr @ [x]) (case a of
         None \<Rightarrow> error ''RA2: corrupted server encrypted random'' r
       | Some sr \<Rightarrow>
           if length sr \<noteq> 16 then error ''RA2: corrupted server encrypted random'' r
           else
             let clientCipher = new_ra2_cipher (ra_crypto W) (session_key W sr (ci_random ci));
                 serverCipher = new_ra2_cipher (ra_crypto W) (session_key W (ci_random ci) sr);
                 serverHash = key_hash W (si_keyBytes si) (si_public si) clientKeyBytes (ci_public ci);
                 clientHash = key_hash W clientKeyBytes (ci_public ci) (si_keyBytes si) (si_public si);
                 (m, clientCipher) = makeMessage (ra_crypto W) clientHash clientCipher
             in at_point (HashSealed si ci \<lparr>se_client = clientCipher, se_server = serverCipher,
                  se_serverHash = serverHash\<rparr> m) r)"
      using err p by (cases a) (simp_all add: Let_def split: prod.split)
  qed (simp add: p)
  show "trust W r0 (tr @ [x]) (on_hashOpened si ci se res r)" if p: "ra_point r = HashOpened si ci se res"
  proof (cases res)
    case None
    then show ?thesis using err p by (simp add: on_hashOpened_def)
  next
    case (Some h)
    have "trust W r0 (tr @ [x]) (at_point (Subtype si ci se) (waitSock n r))"
      if eq: "\<forall>i < 20. u8_at h i = u8_at (se_serverHash se) i" for n
    proof (rule on)
      have "proven W si ci" unfolding proven_def using ok p Some eq by simp metis
      then show "server_of (ra_point (at_point (Subtype si ci se) (waitSock n r))) = Some si \<and>
          point_ok W (ra_point (at_point (Subtype si ci se) (waitSock n r))) \<or>
          (\<exists>e. ra_point (at_point (Subtype si ci se) (waitSock n r)) = Failed e)" using ok p by simp
    qed (simp_all add: p)
    then show ?thesis using err p by (auto simp: on_hashOpened_def Some)
  qed
  show "trust W r0 (tr @ [x]) (on_subtypeOpened si ci se res r)" if p: "ra_point r = SubtypeOpened si ci se res"
  proof -
    have "trust W r0 (tr @ [x]) (at_point (Credentials si ci se u) (require b l (waitCredentials t r)))" for u b l t
      by (rule on) (use p ok in \<open>simp_all add: require_def\<close>)
    moreover have "trust W r0 (tr @ [x]) (error m (waitCredentials t r))" for m t
      by (rule on) (simp_all add: p)
    ultimately show ?thesis using err p by (cases res) (simp_all add: on_subtypeOpened_def Let_def)
  qed
  show "trust W r0 (tr @ [x]) (on_credentials W si ci se t r)" if p: "ra_point r = Credentials si ci se t"
    unfolding on_credentials_def
  proof (rule trust_awaited [OF assms])
    fix a :: "jsstring \<times> jsstring"
    have "trust W r0 (tr @ [x]) (at_point (CredentialsSealed si ci se' m) r)" for se' m
      by (rule on) (use p ok in simp_all)
    then show "trust W r0 (tr @ [x]) ((case a of (u, p) \<Rightarrow>
       \<lambda>r. let (m, c) = makeMessage (ra_crypto W) (credentials_message u p) (se_client se)
         in at_point (CredentialsSealed si ci (se\<lparr>se_client := c\<rparr>) m) r) r)"
      by (simp split: prod.split)
  qed (simp add: p)
qed

lemma trust_continue:
  assumes "trust W r0 tr r" "awaits r (ra_point r) = Resolved"
  shows "trust W r0 (tr @ [x]) (continue_at W (ra_point r) r)"
proof (cases "ra_point r")
  case (Approval si)
  then show ?thesis using trust_approval [OF assms(1)] assms(2) by simp
qed (use trust_keyLength [OF assms(1)] trust_key [OF assms(1)] trust_keyImported [OF assms(1)] trust_sent [OF assms(1)]
    trust_received [OF assms(1)] trust_opened [OF assms(1)] trust_quiet [OF assms(1), of r] in \<open>simp_all\<close>)

lemma trust_resume:
  assumes "trust W r0 tr r"
  shows "trust W r0 (tr @ [x]) (resume W r)"
proof (cases "awaits r (ra_point r)")
  case Waiting
  then show ?thesis using trust_quiet [OF assms, of r] by (simp add: resume_def)
next
  case Resolved
  then show ?thesis using trust_continue [OF assms] by (simp add: resume_def)
next
  case Rejected
  then have "ra_point r \<noteq> NotStarted" by auto
  then show ?thesis
    using trust_failed [OF assms, of "error ''disconnect normally'' r"] Rejected assms by (simp add: resume_def trust_def)
qed

lemma run_trust: "ra2_run W (new_ra2 s c) tr r \<Longrightarrow> trust W (new_ra2 s c) tr r"
proof (induction rule: ra2_run.induct)
  case ra2_init
  then show ?case by (simp add: trust_def new_ra2_def)
next
  case (ra2_more tr r x)
  then show ?case
    using trust_others [OF ra2_more.IH ra2_more.hyps] trust_approve [OF ra2_more.IH ra2_more.hyps] trust_resume [OF ra2_more.IH]
    by (cases x) simp_all
qed

end
