(* ===== verification/Ra2_Session.thy ===== *)
theory Ra2_Session
  imports Ra2_Laws
begin

text \<open>
  A whole RSA-AES authentication with an honest server. The server holds the private key that belongs to the key it
  shows, the keys are pairs, and the browser's cryptography behaves as documented: then the negotiation ends, and the
  server can decrypt the client's random number, the client's hash and the credentials from what was sent.
\<close>

section \<open>The socket\<close>

text \<open>A socket in good order with bytes to read, bytes sent, and room for every message of the negotiation.\<close>

definition channel :: "bytes \<Rightarrow> bytes \<Rightarrow> websock \<Rightarrow> bool" where
  "channel inp outp s \<longleftrightarrow> wf_recv s \<and> wf_send s \<and> sQlen s = 0 \<and> 1026 \<le> sQbufferSize s \<and>
     unread s = inp \<and> outgoing s = outp"

lemma channel_recv:
  assumes "channel inp outp s" "length inp + length d \<le> MAX_RQ_GROW_SIZE"
  shows "channel (inp @ d) outp (snd (recvMessage d s))"
proof -
  obtain s' where s': "recvMessage d s = (Ret (unread s @ d \<noteq> []), s')" "wf_recv s'" "unread s' = unread s @ d"
    using recvMessage_appends [of s d] assms by (auto simp: channel_def)
  moreover have "sending s' = sending s" using sending_recv [of d s] s'(1) by simp
  ultimately show ?thesis
    using assms(1) sending_outgoing [of s' s] by (auto simp: channel_def wf_send_def sending_def readyState_def)
qed

lemma channel_skip:
  assumes "channel (x @ inp) outp s"
  shows "channel inp outp (rQskipBytes (length x) s)"
  using assms wf_rQskipBytes [of s "length x"] unread_rQskipBytes [of "length x" s]
  by (auto simp: channel_def wf_send_def rQskipBytes_def outgoing_def readyState_def)

lemma channel_reads:
  assumes "channel (x @ inp) outp s"
  shows "rQshiftBytes (length x) s = (x, rQskipBytes (length x) s)" "rQpeekBytes (length x) s = x"
    "length x = 2 \<Longrightarrow> rQshift16 s = (be_num x, rQskipBytes 2 s)" "length x = 4 \<Longrightarrow> rQshift32 s = (be_num x, rQskipBytes 4 s)"
  using assms rQshiftBytes_reads [of s "length x"] rQpeekBytes_reads [of s "length x"] rQshift16_reads [of s] rQshift32_reads [of s]
  by (simp_all add: channel_def)

lemma channel_lacks: "channel inp outp s \<Longrightarrow> rQlacks n s \<longleftrightarrow> length inp < n"
  by (simp add: channel_def rQlacks_unread)

text \<open>A block that fits is stored in one piece.\<close>

lemma push_once:
  assumes "wf_send s" "sQlen s = 0" "length bs \<le> sQbufferSize s"
  shows "sQpushBytes bs s = (Ret (), s\<lparr>sQ := overlay (sQ s) 0 bs, sQlen := length bs\<rparr>)"
proof (cases "bs = []")
  case True
  then show ?thesis using assms(2) by (simp add: sQpushBytes_def sQpushBytes_loop_end overlay_def)
next
  case False
  then have "sQensureSpace 1 s = s" using assms by (auto simp: sQensureSpace_def wf_send_def)
  then have "sQpushBytes_loop bs 0 s =
      sQpushBytes_loop bs (length bs) (s\<lparr>sQ := overlay (sQ s) 0 bs, sQlen := length bs\<rparr>)"
    using False assms by (subst sQpushBytes_loop.simps) (simp add: Let_def slice_def)
  then show ?thesis by (simp add: sQpushBytes_def sQpushBytes_loop_end)
qed

lemma channel_push:
  assumes "channel inp outp s" "length bs \<le> 1026"
  shows "\<exists>s'. sQpushBytes bs s = (Ret (), s') \<and> channel inp (outp @ bs) (flush s')"
proof (intro exI conjI)
  have s: "wf_send s" "sQlen s = 0" "length bs \<le> sQbufferSize s" using assms by (auto simp: channel_def)
  let ?s = "s\<lparr>sQ := overlay (sQ s) 0 bs, sQlen := length bs\<rparr>"
  show "sQpushBytes bs s = (Ret (), ?s)" using s by (rule push_once)
  have "length (overlay (sQ s) 0 bs) = sQbufferSize s" "take (length bs) (overlay (sQ s) 0 bs) = bs"
    using s by (simp_all add: overlay_def wf_send_def)
  then show "channel inp (outp @ bs) (flush ?s)"
    using assms s by (auto simp: channel_def wf_send_def flush_def outgoing_def slice_def unread_def wf_recv_def readyState_def)
qed

section \<open>Stages\<close>

text \<open>The negotiation can continue at a point, or waits there for a number of bytes.\<close>

definition ready_at :: "ra2_point \<Rightarrow> bytes \<Rightarrow> bytes \<Rightarrow> credentials \<Rightarrow> ra2 \<Rightarrow> bool" where
  "ready_at p inp outp c r \<longleftrightarrow> ra_point r = p \<and> channel inp outp (ra_sock r) \<and> ra_creds r = c \<and> awaits r p = Resolved"

definition idle_at :: "ra2_point \<Rightarrow> nat \<Rightarrow> bytes \<Rightarrow> credentials \<Rightarrow> ra2 \<Rightarrow> bool" where
  "idle_at p len outp c r \<longleftrightarrow> ra_point r = p \<and> channel [] outp (ra_sock r) \<and> ra_creds r = c \<and>
     sockPromise r = Waiting \<and> checkSock r = Some len \<and> (\<forall>r'. awaits r' p = sockPromise r')"

lemma deliver:
  assumes "idle_at p len outp c r" "len \<le> length d" "length d \<le> MAX_RQ_GROW_SIZE"
  shows "ready_at p d outp c (fold (ra2_step W) [Receive d, CheckEvents] r)"
proof -
  let ?s = "snd (recvMessage d (ra_sock r))"
  have ch: "channel d outp ?s" using channel_recv [of "[]" outp "ra_sock r" d] assms by (simp add: idle_at_def)
  then have has: "\<not> rQlacks len ?s" using channel_lacks assms(2) by simp
  have "ra_creds (run_checkCredentials r) = ra_creds r \<and> sockPromise (run_checkCredentials r) = sockPromise r" for r
    by (cases "checkCredentials r") (simp_all add: run_checkCredentials_def)
  moreover have "run_checkSock (r\<lparr>ra_sock := ?s\<rparr>) = r\<lparr>ra_sock := ?s, sockPromise := Resolved, checkSock := None, sockReject := False\<rparr>"
    using assms(1) has by (simp add: run_checkSock_def idle_at_def)
  ultimately have "ra_creds (checkInternalEvents (r\<lparr>ra_sock := ?s\<rparr>)) = ra_creds r"
    "sockPromise (checkInternalEvents (r\<lparr>ra_sock := ?s\<rparr>)) = Resolved"
    by (simp_all add: checkInternalEvents_def)
  then show ?thesis using assms(1) ch by (simp add: ready_at_def idle_at_def)
qed

lemma resumes: "ready_at p inp outp c r \<Longrightarrow> ra2_step W Resume r = continue_at W p r"
  by (simp add: ready_at_def resume_def)

lemma digit_value: "b < 256 \<Longrightarrow> a * 256 + b = (n :: nat) \<Longrightarrow> a = n div 256 \<and> b = n mod 256"
  by auto

lemma length_bytes_be16:
  assumes "n < 65536"
  shows "length_bytes n = be16 (int n)"
proof -
  have l: "length_bytes n = [length_bytes n ! 0, length_bytes n ! 1]" by (simp add: length_bytes_def)
  have "unat (length_bytes n ! 0) * 256 + unat (length_bytes n ! 1) = n" by (rule length_header(2) [OF assms])
  moreover have "unat (length_bytes n ! 1) < 256" using unsigned_less [of "length_bytes n ! 1"] by simp
  ultimately have "unat (length_bytes n ! 0) = n div 256 \<and> unat (length_bytes n ! 1) = n mod 256"
    using digit_value [of "unat (length_bytes n ! 1)" "unat (length_bytes n ! 0)" n] by simp
  moreover have "of_nat (unat b) = b" for b :: byte by simp
  ultimately have "length_bytes n ! 0 = of_nat (n div 256)" "length_bytes n ! 1 = of_nat (n mod 256)" by metis+
  moreover have "of_nat (n mod 256) = (of_nat n :: byte)" by (simp add: word_unat_eq_iff unat_of_nat)
  moreover have "u8 (int k) = of_nat k" for k by (simp add: u8_def)
  then have "be16 (int n) = [of_nat (n div 256), of_nat n]" unfolding be16_def by (metis of_nat_numeral zdiv_int)
  ultimately show ?thesis using l by metis
qed

lemma waits:
  assumes "channel inp outp (ra_sock r)"
  shows "n \<le> length inp \<Longrightarrow> sockPromise (waitSock n r) = Resolved"
    "length inp < n \<Longrightarrow> sockPromise (waitSock n r) = Waiting \<and> checkSock (waitSock n r) = Some n"
    "ra_creds (waitSock n r) = ra_creds r"
  using channel_lacks [OF assms, of n] by (simp_all add: waitSock_def)

lemma point_more [simp]:
  "ra_creds (at_point p r) = ra_creds r" "sockPromise (at_point p r) = sockPromise r"
  "checkSock (at_point p r) = checkSock r" "credentialsPromise (at_point p r) = credentialsPromise r"
  by (simp_all add: at_point_def)

lemma stage_start:
  assumes "channel [] outp s"
  shows "idle_at KeyLength 4 outp c (ra2_step W Start (new_ra2 s c))"
  using assms channel_lacks [OF assms, of 4] by (simp add: idle_at_def start_def new_ra2_def waitSock_def at_point_def)

lemma stage_keyLength:
  assumes "ready_at KeyLength (buf @ rest) outp c r" "length buf = 4" "be_num buf = int l" "1024 \<le> l" "l \<le> 8192"
    "(l + 7) div 8 * 2 \<le> length rest"
  shows "ready_at (Key buf ((l + 7) div 8)) rest outp c (ra2_step W Resume r)"
proof -
  let ?n = "(l + 7) div 8" and ?r = "r\<lparr>ra_sock := rQskipBytes 4 (ra_sock r)\<rparr>"
  have ch: "channel (buf @ rest) outp (ra_sock r)" using assms(1) by (simp add: ready_at_def)
  have "continue_at W KeyLength r = at_point (Key buf ?n) (waitSock (?n * 2) ?r)"
    using channel_reads(2,4) [OF ch] assms(2-5) by (simp add: on_keyLength_def Let_def)
  moreover have "channel rest outp (ra_sock ?r)" using channel_skip [OF ch] assms(2) by simp
  ultimately show ?thesis
    using resumes [OF assms(1)] waits [of rest outp ?r "?n * 2"] assms(1,6) by (simp add: ready_at_def)
qed

lemma stage_key:
  assumes "ready_at (Key buf n) (N @ E) outp c r" "length buf = 4" "length N = n" "length E = n"
  shows "ready_at (KeyImported n (buf @ N @ E) (rsa_importKey N E False [''encrypt''])) [] outp c (ra2_step W Resume r)"
proof -
  let ?r = "r\<lparr>ra_sock := rQskipBytes n (rQskipBytes n (ra_sock r))\<rparr>"
  have ch: "channel (N @ E) outp (ra_sock r)" using assms(1) by (simp add: ready_at_def)
  then have ch2: "channel (E @ []) outp (rQskipBytes n (ra_sock r))" using channel_skip [OF ch] assms(3) by simp
  then have ch3: "channel [] outp (rQskipBytes n (rQskipBytes n (ra_sock r)))" using channel_skip [OF ch2] assms(4) by simp
  have "server_public n buf N E = buf @ N @ E" using assms(2-4) by (simp add: server_public_def overlay_def u8_new_def)
  then have "continue_at W (Key buf n) r = at_point (KeyImported n (buf @ N @ E) (rsa_importKey N E False [''encrypt''])) ?r"
    using channel_reads(1) [OF ch] channel_reads(1) [OF ch2] assms(3,4) by (simp add: on_key_def Let_def)
  then show ?thesis using resumes [OF assms(1)] ch3 assms(1) by (simp add: ready_at_def)
qed

lemma stage_approved:
  assumes "ready_at (KeyImported n pub (Ret k)) [] outp c r"
  shows "ready_at (Approval \<lparr>si_keyBytes = n, si_public = pub, si_rsa = k\<rparr>) [] outp c (fold (ra2_step W) [Resume, Approve] r)"
  using assms resumes [OF assms, of W]
  by (simp add: ready_at_def on_keyImported_def waitApproveKey_def ra2_approveServer_def at_point_def Let_def)

lemma stage_generated:
  assumes "ready_at (Approval si) [] outp c r" "rsa_generateKey (ra_generate W) 2048 [1, 0, 1] True = Ret k"
  shows "ready_at (KeyGenerated si (Ret (k, rsa_n k, rsa_e k))) [] outp c (ra2_step W Resume r)"
proof -
  have "rsa_extractable k"
    using assms(2) unfolding rsa_generateKey_def Let_def by (auto elim!: obind_RetE)
  then show ?thesis using assms resumes [OF assms(1), of W]
    by (simp add: ready_at_def on_approval_def rsa_exportKey_def clientKeyLength_def at_point_def)
qed

lemma push_channel:
  assumes "channel inp outp (ra_sock r)" "length bs \<le> 1026"
  obtains s where "\<And>k. push_flush bs k r = k (r\<lparr>ra_sock := s\<rparr>)" "channel inp (outp @ bs) s"
  using channel_push [OF assms] by (auto simp: push_flush_def)

lemma stage_keySent:
  assumes "ready_at (KeyGenerated si (Ret (k, n, e))) [] outp c r" "length (client_public n e) \<le> 1026"
  shows "ready_at (RandomSealed si \<lparr>ci_rsa = k, ci_public = client_public n e, ci_random = ra_random W 16\<rparr>
      (rsa_encrypt (ra_padding W) (si_rsa si) (ra_random W 16))) [] (outp @ client_public n e) c (ra2_step W Resume r)"
proof -
  have ch: "channel [] outp (ra_sock r)" using assms(1) by (simp add: ready_at_def)
  obtain s where
    "\<And>k. push_flush (client_public n e) k r = k (r\<lparr>ra_sock := s\<rparr>)" "channel [] (outp @ client_public n e) s"
    using push_channel [OF ch assms(2)] by metis
  then show ?thesis using assms(1) resumes [OF assms(1), of W]
    by (simp add: ready_at_def on_keyGenerated_def Let_def at_point_def)
qed

lemma stage_randomSent:
  assumes "ready_at (RandomSealed si ci (Ret (Some d))) [] outp c r" "length d = si_keyBytes si" "si_keyBytes si \<le> 1024"
  shows "idle_at (ServerRandom si ci) 2 (outp @ be16 (int (si_keyBytes si)) @ d) c (ra2_step W Resume r)"
proof -
  let ?n = "si_keyBytes si"
  have ch: "channel [] outp (ra_sock r)" using assms(1) by (simp add: ready_at_def)
  have "?n < 65536" using assms(3) by simp
  then have "length_bytes ?n = be16 (int ?n)" by (rule length_bytes_be16)
  then have head: "u8 (js_shr (js_and (int ?n) 0xff00) 8) = u8 (int ?n div 256)" "u8 (js_and (int ?n) 0xff) = u8 (int ?n)"
    by (simp_all add: length_bytes_def be16_def)
  define m where "m = (u8_new (2 + ?n))[0 := u8 (js_shr (js_and (int ?n) 0xff00) 8), 1 := u8 (js_and (int ?n) 0xff)]"
  have m: "overlay m 2 d = be16 (int ?n) @ d" "fits m 2 d"
    using assms(2) by (simp_all add: m_def head overlay_def u8_new_def be16_def fits_def)
  have len: "length (be16 (int ?n) @ d) \<le> 1026" using assms(2,3) by (simp add: be16_def)
  obtain s where
    s: "\<And>k. push_flush (be16 (int ?n) @ d) k r = k (r\<lparr>ra_sock := s\<rparr>)" "channel [] (outp @ be16 (int ?n) @ d) s"
    using push_channel [OF ch len] by metis
  have "continue_at W (RandomSealed si ci (Ret (Some d))) r = at_point (ServerRandom si ci) (waitSock 2 (r\<lparr>ra_sock := s\<rparr>))"
    unfolding continue_at.simps on_randomSealed_def awaited.simps option.case m_def [symmetric]
    using m s(1) by (simp add: Let_def)
  then show ?thesis using assms(1) resumes [OF assms(1), of W] s(2) waits [of "[]" _ "r\<lparr>ra_sock := s\<rparr>" 2]
    by (simp add: ready_at_def idle_at_def)
qed

lemma stage_randomReceived:
  assumes "ready_at (ServerRandom si ci) (be16 256 @ d) outp c r" "length d = 256"
  shows "ready_at (RandomOpened si ci (rsa_decrypt (ci_rsa ci) d)) [] outp c (ra2_step W Resume r)"
proof -
  have ch: "channel (be16 256 @ d) outp (ra_sock r)" using assms(1) by (simp add: ready_at_def)
  have be: "length (be16 256) = 2" "be_num (be16 256) = 256" by (simp_all add: be_num_be16)
  have ch2: "channel (d @ []) outp (rQskipBytes 2 (ra_sock r))" using channel_skip [OF ch] be by simp
  have ch3: "channel [] outp (rQskipBytes 256 (rQskipBytes 2 (ra_sock r)))" using channel_skip [OF ch2] assms(2) by simp
  have "continue_at W (ServerRandom si ci) r =
      at_point (RandomOpened si ci (rsa_decrypt (ci_rsa ci) d)) (r\<lparr>ra_sock := rQskipBytes 256 (rQskipBytes 2 (ra_sock r))\<rparr>)"
    using channel_reads(3) [OF ch] channel_reads(1) [OF ch2] be assms(2)
    by (simp add: on_serverRandom_def clientKeyBytes_def clientKeyLength_def Let_def)
  then show ?thesis using resumes [OF assms(1), of W] ch3 assms(1) by (simp add: ready_at_def)
qed

text \<open>The client waits for the two bytes of the length only. When the encrypted number comes in a later message, it is read
  before it is there: the read index passes the write index.\<close>

lemma split_random_overruns:
  assumes "ready_at (ServerRandom si ci) (be16 256 @ d) outp c r" "length d < 256"
  shows "rQlen (ra_sock (ra2_step W Resume r)) < rQi (ra_sock (ra2_step W Resume r)) \<and> \<not> wf_recv (ra_sock (ra2_step W Resume r))"
proof -
  have ch: "channel (be16 256 @ d) outp (ra_sock r)" using assms(1) by (simp add: ready_at_def)
  have be: "length (be16 256) = 2" "be_num (be16 256) = 256" by (simp_all add: be_num_be16)
  have s: "ra_sock (ra2_step W Resume r) = rQskipBytes (256 + 2) (ra_sock r)"
    using channel_reads(3) [OF ch] be resumes [OF assms(1), of W]
    by (simp add: on_serverRandom_def clientKeyBytes_def clientKeyLength_def Let_def rQshiftBytes_def rQskipBytes_def)
  have "length (unread (ra_sock r)) < 258" using ch assms(2) be by (simp add: channel_def)
  then have "rQlen (ra_sock r) < rQi (ra_sock r) + 258" using ch length_unread [of "ra_sock r"] by (simp add: channel_def)
  then show ?thesis unfolding s by (simp add: rQskipBytes_def wf_recv_def)
qed

text \<open>The session the client sets up from both random numbers.\<close>

definition client_cipher :: "ra2_world \<Rightarrow> client_info \<Rightarrow> bytes \<Rightarrow> ra2_cipher" where
  "client_cipher W ci sr = new_ra2_cipher (ra_crypto W) (session_key W sr (ci_random ci))"

definition client_hash :: "ra2_world \<Rightarrow> server_info \<Rightarrow> client_info \<Rightarrow> bytes" where
  "client_hash W si ci = key_hash W clientKeyBytes (ci_public ci) (si_keyBytes si) (si_public si)"

lemma stage_hashSealed:
  assumes "ready_at (RandomOpened si ci (Ret (Some sr))) [] outp c r" "length sr = 16"
    "makeMessage (ra_crypto W) (client_hash W si ci) (client_cipher W ci sr) = (m, cc)"
  shows "ready_at (HashSealed si ci \<lparr>se_client = cc, se_server = server_cipher W ci sr, se_serverHash = server_hash W si ci\<rparr> m)
    [] outp c (ra2_step W Resume r)"
  using assms resumes [OF assms(1), of W]
  by (simp add: ready_at_def on_randomOpened_def client_cipher_def client_hash_def server_cipher_def server_hash_def Let_def)

lemma stage_hashSent:
  assumes "ready_at (HashSealed si ci se m) [] outp c r" "length m \<le> 1026"
  shows "idle_at (ServerHash si ci se) 38 (outp @ m) c (ra2_step W Resume r)"
proof -
  have ch: "channel [] outp (ra_sock r)" using assms(1) by (simp add: ready_at_def)
  obtain s where s: "\<And>k. push_flush m k r = k (r\<lparr>ra_sock := s\<rparr>)" "channel [] (outp @ m) s"
    using push_channel [OF ch assms(2)] by metis
  then show ?thesis using assms(1) resumes [OF assms(1), of W] waits [of "[]" _ "r\<lparr>ra_sock := s\<rparr>" 38]
    by (simp add: ready_at_def idle_at_def on_hashSealed_def)
qed

text \<open>An encrypted message of a known length is read.\<close>

lemma message_read:
  assumes "channel (length_bytes n @ e) outp s" "n < 65536" "length e = n + 16"
  shows "rQshift16 s = (int n, rQskipBytes 2 s)"
    "rQshiftBytes (n + 16) (rQskipBytes 2 s) = (e, rQskipBytes (n + 16) (rQskipBytes 2 s))"
    "channel [] outp (rQskipBytes (n + 16) (rQskipBytes 2 s))"
proof -
  have be: "length (be16 (int n)) = 2" by (simp add: be16_def)
  have "int n < 2 ^ 16" using assms(2) by simp
  then have num: "be_num (be16 (int n)) = int n" by (simp add: be_num_be16 del: power_numeral_even power_numeral)
  have ch: "channel (be16 (int n) @ e) outp s" using assms(1) length_bytes_be16 [OF assms(2)] by simp
  then show "rQshift16 s = (int n, rQskipBytes 2 s)" using channel_reads(3) [OF ch] be num by simp
  have ch2: "channel (e @ []) outp (rQskipBytes 2 s)" using channel_skip [OF ch] be by simp
  then show "rQshiftBytes (n + 16) (rQskipBytes 2 s) = (e, rQskipBytes (n + 16) (rQskipBytes 2 s))"
    "channel [] outp (rQskipBytes (n + 16) (rQskipBytes 2 s))"
    using channel_reads(1) [OF ch2] channel_skip [OF ch2] assms(3) by simp_all
qed

lemma stage_hashOpened:
  assumes "ready_at (ServerHash si ci se) (length_bytes 20 @ e) outp c r" "length e = 36"
    "receiveMessage (ra_crypto W) 20 e (se_server se) = (res, cc)"
  shows "ready_at (HashOpened si ci (se\<lparr>se_server := cc\<rparr>) res) [] outp c (ra2_step W Resume r)"
proof -
  have "channel (length_bytes 20 @ e) outp (ra_sock r)" using assms(1) by (simp add: ready_at_def)
  from message_read [OF this] show ?thesis using assms resumes [OF assms(1), of W]
    by (simp add: ready_at_def on_serverHash_def Let_def)
qed

lemma stage_hashChecked:
  assumes "ready_at (HashOpened si ci se (Some (se_serverHash se))) [] outp c r"
  shows "idle_at (Subtype si ci se) 19 outp c (ra2_step W Resume r)"
  using assms resumes [OF assms, of W] waits [of "[]" outp r 19]
  by (simp add: ready_at_def idle_at_def on_hashOpened_def)

lemma stage_subtypeOpened:
  assumes "ready_at (Subtype si ci se) (length_bytes 1 @ e) outp c r" "length e = 17"
    "receiveMessage (ra_crypto W) 1 e (se_server se) = (res, cc)"
  shows "ready_at (SubtypeOpened si ci (se\<lparr>se_server := cc\<rparr>) res) [] outp c (ra2_step W Resume r)"
proof -
  have "channel (length_bytes 1 @ e) outp (ra_sock r)" using assms(1) by (simp add: ready_at_def)
  from message_read [OF this] show ?thesis using assms resumes [OF assms(1), of W]
    by (simp add: ready_at_def on_subtype_def Let_def)
qed

lemma stage_credentials:
  assumes "ready_at (SubtypeOpened si ci se (Some [t])) [] outp c r" "hasCredentials (uint t) c"
  shows "ready_at (Credentials si ci se (uint t)) [] outp c (ra2_step W Resume r)"
proof -
  have t: "uint t = 1 \<or> uint t = 2" using assms(2) by (auto simp: hasCredentials_def split: if_splits)
  let ?r = "waitCredentials (uint t) r"
  have w: "?r = r\<lparr>credentialsPromise := Resolved\<rparr>" using assms by (simp add: waitCredentials_def ready_at_def)
  have ch: "channel [] outp (ra_sock r)" "ra_creds r = c" using assms(1) by (simp_all add: ready_at_def)
  have "undef0 (u8_at [t] 0) = uint t" by (simp add: u8_at_def)
  moreover have "\<not> (username c = None \<or> password c = None)" if "uint t = 1"
    using assms(2) that by (auto simp: hasCredentials_def split: if_splits)
  moreover have "password c \<noteq> None" if "uint t = 2"
    using assms(2) that by (auto simp: hasCredentials_def split: if_splits)
  ultimately have "continue_at W (SubtypeOpened si ci se (Some [t])) r = at_point (Credentials si ci se (uint t)) ?r"
    using t ch(2) by (auto simp: on_subtypeOpened_def Let_def require_def)
  then show ?thesis using resumes [OF assms(1), of W] w ch by (simp add: ready_at_def)
qed

lemma stage_sealed:
  assumes "ready_at (Credentials si ci se t) [] outp c r"
    "(if t = 1 then encoded (username c) else Ret []) = Ret u" "encoded (password c) = Ret p"
    "makeMessage (ra_crypto W) (credentials_message u p) (se_client se) = (m, cc)"
  shows "ready_at (CredentialsSealed si ci (se\<lparr>se_client := cc\<rparr>) m) [] outp c (ra2_step W Resume r)"
proof -
  have c: "ra_creds r = c" using assms(1) by (simp add: ready_at_def)
  have "continue_at W (Credentials si ci se t) r = at_point (CredentialsSealed si ci (se\<lparr>se_client := cc\<rparr>) m) r"
    unfolding continue_at.simps on_credentials_def c assms(2,3) by (simp add: assms(4))
  then show ?thesis using assms(1) resumes [OF assms(1), of W] by (simp add: ready_at_def)
qed

lemma stage_finished:
  assumes "ready_at (CredentialsSealed si ci se m) [] outp c r" "length m \<le> 1026"
  shows "ready_at (Finished si ci se) [] (outp @ m) c (ra2_step W Resume r)"
proof -
  have ch: "channel [] outp (ra_sock r)" using assms(1) by (simp add: ready_at_def)
  obtain s where s: "\<And>k. push_flush m k r = k (r\<lparr>ra_sock := s\<rparr>)" "channel [] (outp @ m) s"
    using push_channel [OF ch assms(2)] by metis
  then show ?thesis using assms(1) resumes [OF assms(1), of W]
    by (simp add: ready_at_def on_credentialsSealed_def)
qed

section \<open>An honest server\<close>

text \<open>What the browser documents: the cipher modes, and the sizes of hashes and of random numbers.\<close>

definition browser_ok :: "ra2_world \<Rightarrow> (bytes \<Rightarrow> bytes \<Rightarrow> bytes) \<Rightarrow> (bytes \<Rightarrow> bytes \<Rightarrow> nat \<Rightarrow> bytes) \<Rightarrow> bool" where
  "browser_ok W aes stream \<longleftrightarrow> cbc_documented (ra_crypto W) aes \<and> ctr_documented (ra_crypto W) stream \<and>
     (\<forall>x. length (ra_sha1 W x) = 20) \<and> (\<forall>n. length (ra_random W n) = n) \<and> (\<forall>n. length (ra_padding W n) = n)"

text \<open>The server: its key as it shows it, the private key, its random number, the padding it uses, the credentials it
  asks for.\<close>

record peer =
  pe_buf :: bytes
  pe_N :: bytes
  pe_E :: bytes
  pe_public :: rsa
  pe_private :: rsa
  pe_random :: bytes
  pe_padding :: "nat \<Rightarrow> bytes"
  pe_subtype :: byte

definition honest :: "peer \<Rightarrow> bool" where
  "honest P \<longleftrightarrow> length (pe_buf P) = 4 \<and> 1024 \<le> be_num (pe_buf P) \<and> be_num (pe_buf P) \<le> 8192 \<and>
     length (pe_N P) = (nat (be_num (pe_buf P)) + 7) div 8 \<and> length (pe_E P) = length (pe_N P) \<and>
     rsa_importKey (pe_N P) (pe_E P) False [''encrypt''] = Ret (pe_public P) \<and> key_pair (pe_public P) (pe_private P) \<and>
     length (pe_random P) = 16 \<and> (\<forall>n. length (pe_padding P n) = n)"

text \<open>The key the browser generates for the client, as the server imports it.\<close>

definition client_key :: "ra2_world \<Rightarrow> rsa \<Rightarrow> rsa \<Rightarrow> bool" where
  "client_key W k pub \<longleftrightarrow> rsa_generateKey (ra_generate W) 2048 [1, 0, 1] True = Ret k \<and>
     rsa_importKey (rsa_n k) (rsa_e k) False [''encrypt''] = Ret pub \<and> key_pair pub k"

definition the_server :: "peer \<Rightarrow> server_info" where
  "the_server P = \<lparr>si_keyBytes = length (pe_N P), si_public = pe_buf P @ pe_N P @ pe_E P, si_rsa = pe_public P\<rparr>"

definition the_client :: "ra2_world \<Rightarrow> rsa \<Rightarrow> client_info" where
  "the_client W k = \<lparr>ci_rsa = k, ci_public = client_public (rsa_n k) (rsa_e k), ci_random = ra_random W 16\<rparr>"

text \<open>The messages of the server: its key, its random number for the client, its hash, and the subtype.\<close>

definition peer_messages :: "ra2_world \<Rightarrow> peer \<Rightarrow> rsa \<Rightarrow> rsa \<Rightarrow> bytes list option" where
  "peer_messages W P k pub =
     (case rsa_encrypt (pe_padding P) pub (pe_random P) of
        Ret (Some d) \<Rightarrow>
          let (m3, cs) = makeMessage (ra_crypto W) (server_hash W (the_server P) (the_client W k))
                           (server_cipher W (the_client W k) (pe_random P));
              (m4, cs) = makeMessage (ra_crypto W) [pe_subtype P] cs
          in Some [pe_buf P @ pe_N P @ pe_E P, be16 256 @ d, m3, m4]
      | _ \<Rightarrow> None)"

definition honest_trace :: "bytes \<Rightarrow> bytes \<Rightarrow> bytes \<Rightarrow> bytes \<Rightarrow> ra2_op list" where
  "honest_trace m1 m2 m3 m4 =
     [Start, Receive m1, CheckEvents, Resume, Resume, Resume, Approve, Resume, Resume, Resume] @
     [Receive m2, CheckEvents, Resume, Resume, Resume] @ [Receive m3, CheckEvents, Resume, Resume] @
     [Receive m4, CheckEvents, Resume, Resume, Resume, Resume]"

lemma run_fold: "ra2_run W r0 tr (fold (ra2_step W) tr r0)"
proof (induction tr rule: rev_induct)
  case (snoc x tr)
  then show ?case using ra2_more by simp
qed (simp add: ra2_init)

lemma generated_size:
  assumes "client_key W k pub"
  shows "length (rsa_n k) = 256" "length (rsa_e k) = 256" "rsa_keyBytes k = 256" "length (client_public (rsa_n k) (rsa_e k)) = 516"
proof -
  have "padArray a m = Ret b \<Longrightarrow> length b = m" for a m b
    by (auto simp: padArray_def overlay_def u8_new_def split: if_splits)
  moreover have "rsa_generateKey (ra_generate W) 2048 [1, 0, 1] True = Ret k" using assms by (simp add: client_key_def)
  ultimately show k: "length (rsa_n k) = 256" "length (rsa_e k) = 256" "rsa_keyBytes k = 256"
    unfolding rsa_generateKey_def Let_def by (auto elim!: obind_RetE)
  then show "length (client_public (rsa_n k) (rsa_e k)) = 516"
    by (simp add: client_public_def clientKeyBytes_def clientKeyLength_def overlay_def u8_new_def Let_def)
qed

lemma imported_size: "rsa_importKey n e x us = Ret k \<Longrightarrow> rsa_keyBytes k = length n"
  by (auto simp: rsa_importKey_def split: if_splits elim!: obind_RetE)

lemma encoded_size: "encoded t = Ret u \<Longrightarrow> length u \<le> 255"
  by (auto simp: encoded_def elim!: obind_RetE)

lemma credentials_size:
  assumes "length u \<le> 255" "length p \<le> 255"
  shows "length (credentials_message u p) \<le> 512"
proof -
  have "length (credentials_message u p) = length u + length p + 2"
    by (simp add: credentials_message_def Let_def length_overlay fits_def)
  then show ?thesis using assms by simp
qed

text \<open>From the start to the client's random number.\<close>

lemma honest_first:
  assumes "browser_ok W aes stream" "honest P" "client_key W k pub" "channel [] outp s"
  obtains c1 where "rsa_decrypt (pe_private P) c1 = Ret (Some (ra_random W 16))"
    "idle_at (ServerRandom (the_server P) (the_client W k)) 2
       (outp @ ci_public (the_client W k) @ be16 (int (length (pe_N P))) @ c1) c
       (fold (ra2_step W) [Start, Receive (pe_buf P @ pe_N P @ pe_E P), CheckEvents, Resume, Resume, Resume, Approve,
          Resume, Resume, Resume] (new_ra2 s c))"
proof -
  let ?n = "length (pe_N P)" and ?l = "nat (be_num (pe_buf P))" and ?m = "pe_buf P @ pe_N P @ pe_E P"
  have P: "length (pe_buf P) = 4" "be_num (pe_buf P) = int ?l" "1024 \<le> ?l" "?l \<le> 8192" "?n = (?l + 7) div 8"
    "length (pe_E P) = ?n" "rsa_importKey (pe_N P) (pe_E P) False [''encrypt''] = Ret (pe_public P)"
    "key_pair (pe_public P) (pe_private P)"
    using assms(2) by (auto simp: honest_def)
  have n: "128 \<le> ?n" "?n \<le> 1024" using P(3-5) by auto
  have W: "\<And>n. length (ra_padding W n) = n" "length (ra_random W 16) = 16" using assms(1) by (simp_all add: browser_ok_def)
  obtain c1 where c1: "rsa_encrypt (ra_padding W) (pe_public P) (ra_random W 16) = Ret (Some c1)" "length c1 = ?n"
    "rsa_decrypt (pe_private P) c1 = Ret (Some (ra_random W 16))"
    using rsa_undone [OF P(8) W(1), of "ra_random W 16"] imported_size [OF P(7)] W(2) n by auto
  define r1 where "r1 = ra2_step W Start (new_ra2 s c)"
  define r2 where "r2 = fold (ra2_step W) [Receive ?m, CheckEvents] r1"
  define r3 where "r3 = ra2_step W Resume r2"
  define r4 where "r4 = ra2_step W Resume r3"
  define r5 where "r5 = fold (ra2_step W) [Resume, Approve] r4"
  define r6 where "r6 = ra2_step W Resume r5"
  define r7 where "r7 = ra2_step W Resume r6"
  have "idle_at KeyLength 4 outp c r1" unfolding r1_def by (rule stage_start [OF assms(4)])
  then have "ready_at KeyLength ?m outp c r2"
    unfolding r2_def by (rule deliver) (use P n in \<open>simp_all add: MAX_RQ_GROW_SIZE_def\<close>)
  then have "ready_at (Key (pe_buf P) ((?l + 7) div 8)) (pe_N P @ pe_E P) outp c r3"
    unfolding r3_def by (rule stage_keyLength [OF _ P(1-4)]) (use P(5,6) in simp)
  then have "ready_at (KeyImported ?n ?m (Ret (pe_public P))) [] outp c r4"
    unfolding r4_def using stage_key [OF _ P(1) refl P(6)] P(5,7) by simp
  then have "ready_at (Approval (the_server P)) [] outp c r5"
    unfolding r5_def the_server_def by (rule stage_approved)
  then have "ready_at (KeyGenerated (the_server P) (Ret (k, rsa_n k, rsa_e k))) [] outp c r6"
    unfolding r6_def by (rule stage_generated) (use assms(3) in \<open>simp add: client_key_def\<close>)
  then have "ready_at (RandomSealed (the_server P) (the_client W k) (rsa_encrypt (ra_padding W) (si_rsa (the_server P)) (ra_random W 16)))
      [] (outp @ client_public (rsa_n k) (rsa_e k)) c r7"
    unfolding r7_def the_client_def by (rule stage_keySent) (simp add: generated_size(4) [OF assms(3)])
  then have "ready_at (RandomSealed (the_server P) (the_client W k) (Ret (Some c1))) [] (outp @ ci_public (the_client W k)) c r7"
    using c1(1) by (simp add: the_server_def the_client_def)
  from stage_randomSent [OF this, of W] have
    "idle_at (ServerRandom (the_server P) (the_client W k)) 2 ((outp @ ci_public (the_client W k)) @ be16 (int ?n) @ c1) c
       (ra2_step W Resume r7)" using c1(2) n by (simp add: the_server_def)
  then show thesis using c1(3)
    by (intro that) (simp_all only: r1_def r2_def r3_def r4_def r5_def r6_def r7_def fold.simps o_def id_apply append_assoc)
qed

text \<open>From the server's random number to the end.\<close>

lemma honest_second:
  assumes "browser_ok W aes stream" "rsa_decrypt (ci_rsa ci) d = Ret (Some sr)" "length sr = 16" "length d = 256"
    and idle: "idle_at (ServerRandom si ci) 2 outp c r"
    and h: "makeMessage (ra_crypto W) (client_hash W si ci) (client_cipher W ci sr) = (h1, cc1)" "length h1 \<le> 1026"
  defines "se \<equiv> \<lparr>se_client = cc1, se_server = server_cipher W ci sr, se_serverHash = server_hash W si ci\<rparr>"
  shows "idle_at (ServerHash si ci se) 38 (outp @ h1) c
    (fold (ra2_step W) [Receive (be16 256 @ d), CheckEvents, Resume, Resume, Resume] r)"
proof -
  define r1 where "r1 = fold (ra2_step W) [Receive (be16 256 @ d), CheckEvents] r"
  define r2 where "r2 = ra2_step W Resume r1"
  define r3 where "r3 = ra2_step W Resume r2"
  have "ready_at (ServerRandom si ci) (be16 256 @ d) outp c r1"
    unfolding r1_def by (rule deliver [OF idle]) (use assms(4) in \<open>simp_all add: be16_def MAX_RQ_GROW_SIZE_def\<close>)
  then have "ready_at (RandomOpened si ci (Ret (Some sr))) [] outp c r2"
    unfolding r2_def assms(2) [symmetric] by (rule stage_randomReceived) (rule assms(4))
  then have "ready_at (HashSealed si ci se h1) [] outp c r3"
    unfolding r3_def se_def by (rule stage_hashSealed) (use assms(3) h(1) in simp_all)
  then have "idle_at (ServerHash si ci se) 38 (outp @ h1) c (ra2_step W Resume r3)"
    by (rule stage_hashSent) (rule h(2))
  then show ?thesis by (simp only: r1_def r2_def r3_def fold.simps o_def id_apply)
qed

lemma honest_third:
  assumes idle: "idle_at (ServerHash si ci se) 38 outp c r"
    and m3: "length e3 = 36" "receiveMessage (ra_crypto W) 20 e3 (se_server se) = (Some (se_serverHash se), cs1)"
    and m4: "length e4 = 17" "receiveMessage (ra_crypto W) 1 e4 cs1 = (Some [t], cs2)"
    and creds: "hasCredentials (uint t) c" "(if uint t = 1 then encoded (username c) else Ret []) = Ret u"
      "encoded (password c) = Ret p"
    and h2: "makeMessage (ra_crypto W) (credentials_message u p) (se_client se) = (h2, cc2)" "length h2 \<le> 1026"
  shows "ready_at (Finished si ci (se\<lparr>se_server := cs2, se_client := cc2\<rparr>)) [] (outp @ h2) c
    (fold (ra2_step W) ([Receive (length_bytes 20 @ e3), CheckEvents, Resume, Resume] @
       [Receive (length_bytes 1 @ e4), CheckEvents, Resume, Resume, Resume, Resume]) r)"
proof -
  let ?m3 = "length_bytes 20 @ e3" and ?m4 = "length_bytes 1 @ e4"
  let ?s1 = "se\<lparr>se_server := cs1\<rparr>" and ?s2 = "se\<lparr>se_server := cs2\<rparr>"
  have len: "length (length_bytes n) = 2" for n by (simp add: length_bytes_def)
  define r1 where "r1 = fold (ra2_step W) [Receive ?m3, CheckEvents] r"
  define r2 where "r2 = ra2_step W Resume r1"
  define r3 where "r3 = ra2_step W Resume r2"
  define r4 where "r4 = fold (ra2_step W) [Receive ?m4, CheckEvents] r3"
  define r5 where "r5 = ra2_step W Resume r4"
  define r6 where "r6 = ra2_step W Resume r5"
  define r7 where "r7 = ra2_step W Resume r6"
  have "ready_at (ServerHash si ci se) ?m3 outp c r1"
    unfolding r1_def by (rule deliver [OF idle]) (use m3(1) in \<open>simp_all add: len MAX_RQ_GROW_SIZE_def\<close>)
  then have "ready_at (HashOpened si ci ?s1 (Some (se_serverHash ?s1))) [] outp c r2"
    unfolding r2_def by (rule stage_hashOpened) (use m3 in simp_all)
  then have "idle_at (Subtype si ci ?s1) 19 outp c r3" unfolding r3_def by (rule stage_hashChecked)
  then have "ready_at (Subtype si ci ?s1) ?m4 outp c r4"
    unfolding r4_def by (rule deliver) (use m4(1) in \<open>simp_all add: len MAX_RQ_GROW_SIZE_def\<close>)
  then have "ready_at (SubtypeOpened si ci (?s1\<lparr>se_server := cs2\<rparr>) (Some [t])) [] outp c r5"
    unfolding r5_def by (rule stage_subtypeOpened) (use m4 in simp_all)
  then have "ready_at (SubtypeOpened si ci ?s2 (Some [t])) [] outp c r5" by simp
  then have "ready_at (Credentials si ci ?s2 (uint t)) [] outp c r6" unfolding r6_def using creds(1) by (rule stage_credentials)
  then have "ready_at (CredentialsSealed si ci (?s2\<lparr>se_client := cc2\<rparr>) h2) [] outp c r7"
    unfolding r7_def by (rule stage_sealed [where u = u and p = p]) (use creds h2(1) in simp_all)
  then have "ready_at (Finished si ci (?s2\<lparr>se_client := cc2\<rparr>)) [] (outp @ h2) c (ra2_step W Resume r7)"
    by (rule stage_finished) (rule h2(2))
  then show ?thesis by (simp only: r1_def r2_def r3_def r4_def r5_def r6_def r7_def fold.simps append_Cons append_Nil o_def id_apply)
qed

text \<open>Both ends with the same cipher.\<close>

lemma cipher_messages:
  assumes "browser_ok W aes stream" "length a < 65536" "length b < 65536"
  shows "\<exists>ea eb c1 c2.
    makeMessage (ra_crypto W) a (new_ra2_cipher (ra_crypto W) key) = (length_bytes (length a) @ ea, c1) \<and>
    makeMessage (ra_crypto W) b c1 = (length_bytes (length b) @ eb, c2) \<and>
    length ea = length a + 16 \<and> length eb = length b + 16 \<and>
    receiveMessage (ra_crypto W) (length a) ea (new_ra2_cipher (ra_crypto W) key) = (Some a, c1) \<and>
    receiveMessage (ra_crypto W) (length b) eb c1 = (Some b, c2)"
proof -
  have doc: "cbc_documented (ra_crypto W) aes" "ctr_documented (ra_crypto W) stream" using assms(1) by (simp_all add: browser_ok_def)
  let ?c = "new_ra2_cipher (ra_crypto W) key"
  let ?c1 = "?c\<lparr>rc_counter := bump 0 (rc_counter ?c)\<rparr>"
  have key: "rc_cipher ?c = eax_importKey (ra_crypto W) key" "rc_cipher ?c1 = eax_importKey (ra_crypto W) key"
    by (simp_all add: new_ra2_cipher_def)
  obtain ea where "makeMessage (ra_crypto W) a ?c = (length_bytes (length a) @ ea, ?c1)" "length ea = length a + 16"
    "receiveMessage (ra_crypto W) (length a) ea ?c = (Some a, ?c1)"
    using message_parts [OF doc assms(2) key(1)] by blast
  moreover obtain eb where "makeMessage (ra_crypto W) b ?c1 = (length_bytes (length b) @ eb, ?c1\<lparr>rc_counter := bump 0 (rc_counter ?c1)\<rparr>)"
    "length eb = length b + 16" "receiveMessage (ra_crypto W) (length b) eb ?c1 = (Some b, ?c1\<lparr>rc_counter := bump 0 (rc_counter ?c1)\<rparr>)"
    using message_parts [OF doc assms(3) key(2)] by blast
  ultimately show ?thesis by blast
qed

text \<open>What the receiver of two such messages sees.\<close>

lemma receive_two:
  assumes "n < 65536" "k < 65536" "receiveMessage C n ea c = (Some a, c1)" "receiveMessage C k eb c1 = (Some b, c2)"
  shows "fst (receive_all C [length_bytes n @ ea, length_bytes k @ eb] c) = [Some a, Some b]"
proof -
  have nth: "(length_bytes n @ x) ! 0 = length_bytes n ! 0" "(length_bytes n @ x) ! 1 = length_bytes n ! 1"
    "length (length_bytes n) = 2" for n x by (simp_all add: length_bytes_def)
  show ?thesis
    using assms(3,4) length_header(2) [OF assms(1)] length_header(2) [OF assms(2)]
    by (simp add: nth Let_def split: prod.split del: One_nat_def)
qed

lemma honest_session:
  assumes browser: "browser_ok W aes stream" and P: "honest P" and key: "client_key W k pub" and s: "channel [] outp s"
    and creds: "hasCredentials (uint (pe_subtype P)) c" "(if uint (pe_subtype P) = 1 then encoded (username c) else Ret []) = Ret u"
      "encoded (password c) = Ret p"
  shows "\<exists>m1 m2 m3 m4 r c1 h1 h2. peer_messages W P k pub = Some [m1, m2, m3, m4] \<and>
    ra2_run W (new_ra2 s c) (honest_trace m1 m2 m3 m4) r \<and>
    (\<exists>se. ra_point r = Finished (the_server P) (the_client W k) se) \<and>
    outgoing (ra_sock r) = outp @ ci_public (the_client W k) @ (be16 (int (length (pe_N P))) @ c1) @ h1 @ h2 \<and>
    rsa_decrypt (pe_private P) c1 = Ret (Some (ra_random W 16)) \<and>
    fst (receive_all (ra_crypto W) [h1, h2] (client_cipher W (the_client W k) (pe_random P))) =
      [Some (client_hash W (the_server P) (the_client W k)), Some (credentials_message u p)]"
proof -
  let ?C = "ra_crypto W" and ?si = "the_server P" and ?ci = "the_client W k" and ?sr = "pe_random P" and ?m1 = "pe_buf P @ pe_N P @ pe_E P"
  have sr: "length ?sr = 16" "\<And>n. length (pe_padding P n) = n" using P by (simp_all add: honest_def)
  have pair: "key_pair pub k" "rsa_keyBytes pub = 256"
    using key imported_size generated_size(1) [OF key] by (auto simp: client_key_def)
  obtain d where d: "rsa_encrypt (pe_padding P) pub ?sr = Ret (Some d)" "length d = 256" "rsa_decrypt k d = Ret (Some ?sr)"
    using rsa_undone [OF pair(1) sr(2), of ?sr] pair(2) sr(1) by auto
  have hash: "length (client_hash W ?si ?ci) = 20" "length (server_hash W ?si ?ci) = 20"
    using browser by (simp_all add: browser_ok_def client_hash_def server_hash_def key_hash_def)
  have "length u \<le> 255" "length p \<le> 255" using creds(2,3) encoded_size by (auto split: if_splits)
  then have cm: "length (credentials_message u p) \<le> 512" by (rule credentials_size)
  obtain h1 h2 cc1 cc2 where client:
      "makeMessage ?C (client_hash W ?si ?ci) (client_cipher W ?ci ?sr) = (length_bytes 20 @ h1, cc1)"
      "makeMessage ?C (credentials_message u p) cc1 = (length_bytes (length (credentials_message u p)) @ h2, cc2)"
      "length h1 = 36" "length h2 = length (credentials_message u p) + 16"
      "receiveMessage ?C 20 h1 (client_cipher W ?ci ?sr) = (Some (client_hash W ?si ?ci), cc1)"
      "receiveMessage ?C (length (credentials_message u p)) h2 cc1 = (Some (credentials_message u p), cc2)"
    using cipher_messages [OF browser, of "client_hash W ?si ?ci" "credentials_message u p" "session_key W ?sr (ci_random ?ci)"] hash(1) cm
    unfolding client_cipher_def by auto
  obtain e3 e4 cs1 cs2 where server:
      "makeMessage ?C (server_hash W ?si ?ci) (server_cipher W ?ci ?sr) = (length_bytes 20 @ e3, cs1)"
      "makeMessage ?C [pe_subtype P] cs1 = (length_bytes 1 @ e4, cs2)" "length e3 = 36" "length e4 = 17"
      "receiveMessage ?C 20 e3 (server_cipher W ?ci ?sr) = (Some (server_hash W ?si ?ci), cs1)"
      "receiveMessage ?C 1 e4 cs1 = (Some [pe_subtype P], cs2)"
    using cipher_messages [OF browser, of "server_hash W ?si ?ci" "[pe_subtype P]" "session_key W (ci_random ?ci) ?sr"] hash(2)
    unfolding server_cipher_def by auto
  let ?h1 = "length_bytes 20 @ h1" and ?h2 = "length_bytes (length (credentials_message u p)) @ h2"
  let ?tr = "honest_trace ?m1 (be16 256 @ d) (length_bytes 20 @ e3) (length_bytes 1 @ e4)"
  have short: "length ?h1 \<le> 1026" "length ?h2 \<le> 1026" using client(3,4) cm by (simp_all add: length_bytes_def)
  have msgs: "peer_messages W P k pub = Some [?m1, be16 256 @ d, length_bytes 20 @ e3, length_bytes 1 @ e4]"
    using d(1) server(1,2) by (simp add: peer_messages_def)
  obtain c1 where c1: "rsa_decrypt (pe_private P) c1 = Ret (Some (ra_random W 16))"
    and idle: "idle_at (ServerRandom ?si ?ci) 2 (outp @ ci_public ?ci @ be16 (int (length (pe_N P))) @ c1) c
       (fold (ra2_step W) [Start, Receive ?m1, CheckEvents, Resume, Resume, Resume, Approve, Resume, Resume, Resume] (new_ra2 s c))"
    using honest_first [OF browser P key s, of c] by blast
  have d': "rsa_decrypt (ci_rsa ?ci) d = Ret (Some ?sr)" using d(3) by (simp add: the_client_def)
  note second = honest_second [OF browser d' sr(1) d(2) idle client(1) short(1)]
  have "ready_at (Finished ?si ?ci \<lparr>se_client = cc2, se_server = cs2, se_serverHash = server_hash W ?si ?ci\<rparr>) []
      (((outp @ ci_public ?ci @ be16 (int (length (pe_N P))) @ c1) @ ?h1) @ ?h2) c (fold (ra2_step W) ?tr (new_ra2 s c))"
    using honest_third [OF second _ _ server(4,6) creds] server(3,5) client(2) short(2)
    unfolding honest_trace_def fold_append o_def by simp
  then have "ra_point (fold (ra2_step W) ?tr (new_ra2 s c)) = Finished ?si ?ci \<lparr>se_client = cc2, se_server = cs2, se_serverHash = server_hash W ?si ?ci\<rparr>"
    "outgoing (ra_sock (fold (ra2_step W) ?tr (new_ra2 s c))) = outp @ ci_public ?ci @ (be16 (int (length (pe_N P))) @ c1) @ ?h1 @ ?h2"
    by (simp_all add: ready_at_def channel_def)
  moreover have "fst (receive_all ?C [?h1, ?h2] (client_cipher W ?ci ?sr)) = [Some (client_hash W ?si ?ci), Some (credentials_message u p)]"
    by (rule receive_two [OF _ _ client(5,6)]) (use cm in simp_all)
  ultimately show ?thesis using msgs c1 run_fold by blast
qed

text \<open>A concrete session: keys with a power of 256 as the modulus and exponents one, a server with a key of 1024 bits
  that asks for a password.\<close>

lemma hex_zeros: "hex_value (replicate j 0) a = a * 16 ^ j"
  by (induction j arbitrary: a) (simp_all add: ac_simps)

lemma hex_append: "hex_value (xs @ ys) a = hex_value ys (hex_value xs a)"
  by (induction xs a rule: hex_value.induct) simp_all

lemma zero_digits: "concat (replicate m (byte_hex 0)) = replicate (2 * m) 0"
proof -
  have "byte_hex 0 = [0, 0]" by (simp add: byte_hex_def padStart_def hex_digits.simps numeral_2_eq_2)
  then show ?thesis by (induction m) simp_all
qed

lemma demo_number: "u8ArrayToBigInt (1 # replicate m 0) = Ret (256 ^ m)" "u8ArrayToBigInt (replicate m 0 @ [1]) = Ret 1"
proof -
  have one: "byte_hex 1 = [0, 1]" by (simp add: byte_hex_def padStart_def hex_digits.simps)
  have "(16 :: nat) ^ (2 * m) = 256 ^ m" by (simp add: power_mult)
  then show "u8ArrayToBigInt (1 # replicate m 0) = Ret (256 ^ m)"
    using one by (simp add: u8ArrayToBigInt_def zero_digits hex_zeros)
  show "u8ArrayToBigInt (replicate m 0 @ [1]) = Ret 1"
    using one by (simp add: u8ArrayToBigInt_def zero_digits hex_zeros hex_append)
qed

text \<open>The text of a modulus: it is the encoding of its bytes without the padding.\<close>

lemma zero_groups: "b64_groups (replicate (3 * j + 1) 0) = replicate (4 * j + 2) 65 @ [61, 61]"
proof (induction j)
  case 0
  then show ?case by (simp add: digit_def toBase64Table_def base64Pad_def lit_def numeral_2_eq_2)
next
  case (Suc j)
  have "replicate (3 * Suc j + 1) (0 :: byte) = 0 # 0 # 0 # replicate (3 * j + 1) 0" by (simp add: numeral_3_eq_3)
  moreover have "replicate (4 * Suc j + 2) (65 :: nat) = 65 # 65 # 65 # 65 # replicate (4 * j + 2) 65"
    by (simp add: numeral_eq_Suc)
  moreover have "digit 0 = 65" by (simp add: digit_def toBase64Table_def lit_def)
  ultimately show ?case using Suc by simp
qed

lemma demo_text: "base64urlDecode (65 # 81 # replicate 340 65) = Ret (1 # replicate 255 0)" "base64urlDecode (lit ''AQ'') = Ret [1]"
proof -
  have "digit 0 = 65" "digit 16 = 81" by (simp_all add: digit_def toBase64Table_def lit_def)
  moreover have "(1 :: byte) # replicate 255 0 = 1 # 0 # 0 # replicate (3 * 84 + 1) 0" by (simp add: numeral_eq_Suc)
  moreover have "replicate 340 (65 :: nat) = 65 # 65 # replicate (4 * 84 + 2) 65" by (simp add: numeral_eq_Suc)
  ultimately have "b64_groups ((1 :: byte) # replicate 255 0) = 65 # 81 # replicate 340 65 @ [61, 61]"
    using zero_groups [of 84] by simp
  moreover have "base64url_text (65 # 81 # replicate 340 65) = 65 # 81 # replicate 340 65 @ [61, 61]"
    by (simp add: base64url_text_def numeral_2_eq_2)
  ultimately show "base64urlDecode (65 # 81 # replicate 340 65) = Ret (1 # replicate 255 0)"
    using groups_decode [of "1 # replicate 255 0"] by (simp add: base64urlDecode_def comp_def u8_def)
  show "base64urlDecode (lit ''AQ'') = Ret [1]" by code_simp
qed

definition demo_world :: ra2_world where
  "demo_world = \<lparr>ra_crypto = demo_crypto, ra_sha1 = (\<lambda>x. take 20 (x @ u8_new 20)),
     ra_generate = (\<lambda>l e. \<lparr>jwk_n = 65 # 81 # replicate 340 65, jwk_e = lit ''AQ'', jwk_d = lit ''AQ''\<rparr>),
     ra_random = (\<lambda>n. replicate n 5), ra_padding = (\<lambda>n. replicate n 7)\<rparr>"

definition demo_key :: "nat \<Rightarrow> nat option \<Rightarrow> rsa" where
  "demo_key m d = \<lparr>rsa_keyLength = (m + 1) * 8, rsa_keyBytes = m + 1, rsa_n = 1 # replicate m 0, rsa_e = replicate m 0 @ [1],
     rsa_d = map_option (\<lambda>_. replicate m 0 @ [1]) d, rsa_nBigInt = 256 ^ m, rsa_eBigInt = 1, rsa_dBigInt = d,
     rsa_extractable = (d \<noteq> None)\<rparr>"

definition demo_peer :: peer where
  "demo_peer = \<lparr>pe_buf = [0, 0, 4, 0], pe_N = 1 # replicate 127 0, pe_E = replicate 127 0 @ [1],
     pe_public = demo_key 127 None, pe_private = demo_key 127 (Some 1), pe_random = replicate 16 9,
     pe_padding = (\<lambda>n. replicate n 3), pe_subtype = 2\<rparr>"

definition demo_channel :: websock where
  "demo_channel = \<lparr>websocket = Some ChOpen, attached = True, rQ = [], rQi = 0, rQlen = 0,
     rQbufferSize = 0, sQ = u8_new 2000, sQlen = 0, sQbufferSize = 2000, sent = []\<rparr>"

definition demo_creds :: credentials where
  "demo_creds = \<lparr>username = None, password = Some (lit ''ab''), cred_target = None, ardPublicKey = None, ardCredentials = None\<rparr>"

lemma demo_pair: "0 < m \<Longrightarrow> key_pair (demo_key m None) (demo_key m (Some 1))"
  using one_less_power [of "256 :: nat" m] by (simp add: key_pair_def demo_key_def)

lemma demo_import: "rsa_importKey (1 # replicate m 0) (replicate m 0 @ [1]) False [''encrypt''] = Ret (demo_key m None)"
  by (simp add: rsa_importKey_def demo_number demo_key_def)

lemma demo_ok:
  "browser_ok demo_world (\<lambda>key x. take 16 (map (\<lambda>b. b + 1) x @ u8_new 16)) (\<lambda>key ctr n. replicate n 0x5a)"
  "honest demo_peer" "client_key demo_world (demo_key 255 (Some 1)) (demo_key 255 None)" "channel [] [] demo_channel"
proof -
  show "browser_ok demo_world (\<lambda>key x. take 16 (map (\<lambda>b. b + 1) x @ u8_new 16)) (\<lambda>key ctr n. replicate n 0x5a)"
    using demo_crypto_ok unfolding browser_ok_def demo_world_def by auto
  show "honest demo_peer" using demo_pair [of 127] demo_import [of 127] by (simp add: honest_def demo_peer_def)
  have pads: "padArray (1 # replicate 255 0) 256 = Ret (1 # replicate 255 0)" "padArray [1] 256 = Ret (replicate 255 0 @ [1])"
    by (simp_all add: padArray_def overlay_def u8_new_def)
  have "rsa_generateKey (ra_generate demo_world) 2048 [1, 0, 1] True = Ret (demo_key 255 (Some 1))"
    by (simp add: rsa_generateKey_def demo_world_def demo_text pads demo_number demo_key_def)
  then show "client_key demo_world (demo_key 255 (Some 1)) (demo_key 255 None)"
    using demo_pair [of 255] demo_import [of 255] by (simp add: client_key_def demo_key_def)
  show "channel [] [] demo_channel"
    by (simp add: channel_def demo_channel_def wf_recv_def wf_send_def readyState_def unread_def outgoing_def slice_def)
qed

lemma demo_credentials: "hasCredentials (uint (2 :: byte)) demo_creds" "encoded (password demo_creds) = Ret [97, 98]"
proof -
  show "hasCredentials (uint (2 :: byte)) demo_creds" by (simp add: hasCredentials_def demo_creds_def)
  have "encodeUTF8 (lit ''ab'') = Ret [97, 98]"
    by (simp add: lit_def encodeUTF8_def utf16_points_steps low_surrogate_def high_surrogate_def utf8_octets_def)
  then show "encoded (password demo_creds) = Ret [97, 98]" by (simp add: encoded_def demo_creds_def)
qed





end
