(* ===== verification/Legacy.thy ===== *)
theory Legacy
  imports Aes_Eax Rsa
begin

text \<open>
  \<open>LegacyCrypto\<close> of \<open>core/crypto/crypto.js\<close>: one interface over the algorithms that the browser lacks, chosen by the name of the algorithm or by
  the key. A key is one of the classes of \<open>aes.js\<close>, \<open>des.js\<close>, \<open>rsa.js\<close> and \<open>dh.js\<close>.
\<close>

section \<open>Keys and algorithms\<close>

datatype legacy_key =
    AesEcbKey bytes
  | AesEaxKey eax
  | DesEcbKey "nat list"
  | DesCbcKey "nat list"
  | RsaKey rsa
  | DhPrivateKey dh
  | DhPublicKey bytes

fun key_algorithm :: "legacy_key \<Rightarrow> string" where
  "key_algorithm (AesEcbKey k) = ''AES-ECB''"
| "key_algorithm (AesEaxKey k) = ''AES-EAX''"
| "key_algorithm (DesEcbKey k) = ''DES-ECB''"
| "key_algorithm (DesCbcKey k) = ''DES-CBC''"
| "key_algorithm (RsaKey k) = ''RSA-PKCS1-v1_5''"
| "key_algorithm (DhPrivateKey k) = ''DH''"
| "key_algorithm (DhPublicKey k) = ''DH''"

record legacy_algorithm =
  al_name :: string
  al_iv :: bytes
  al_additionalData :: bytes
  al_modulusLength :: nat
  al_publicExponent :: bytes
  al_g :: bytes
  al_p :: bytes
  al_public :: bytes

text \<open>What an algorithm reads of the data of a key: bytes, or the two parts of a public key of RSA.\<close>

record key_data =
  kd_bytes :: bytes
  kd_n :: bytes
  kd_e :: bytes

text \<open>The browser's ciphers, key generation and random bytes.\<close>

record legacy_world =
  lw_crypto :: webcrypto
  lw_generate :: "nat \<Rightarrow> bytes \<Rightarrow> jwk"
  lw_random :: "nat \<Rightarrow> bytes"

section \<open>Operations\<close>

definition lc_encrypt :: "legacy_world \<Rightarrow> legacy_algorithm \<Rightarrow> legacy_key \<Rightarrow> bytes \<Rightarrow> bytes option outcome" where
  "lc_encrypt W al key data =
     (if key_algorithm key \<noteq> al_name al then Throw (ErrorMsg ''algorithm does not match'')
      else case key of
        AesEcbKey k \<Rightarrow> Ret (aes_ecb_encrypt (wc_cbc (lw_crypto W)) k data)
      | AesEaxKey k \<Rightarrow> Ret (Some (eax_encrypt (lw_crypto W) k (al_iv al) (al_additionalData al) data))
      | DesEcbKey k \<Rightarrow> Ret (des_ecb_encrypt k data)
      | DesCbcKey k \<Rightarrow> Ret (des_cbc_encrypt (al_iv al) k data)
      | RsaKey k \<Rightarrow> rsa_encrypt (lw_random W) k data
      | _ \<Rightarrow> Throw (ErrorMsg ''key does not support encryption''))"

definition lc_decrypt :: "legacy_world \<Rightarrow> legacy_algorithm \<Rightarrow> legacy_key \<Rightarrow> bytes \<Rightarrow> bytes option outcome" where
  "lc_decrypt W al key data =
     (if key_algorithm key \<noteq> al_name al then Throw (ErrorMsg ''algorithm does not match'')
      else case key of
        AesEaxKey k \<Rightarrow> Ret (eax_decrypt (lw_crypto W) k (al_iv al) (al_additionalData al) data)
      | RsaKey k \<Rightarrow> rsa_decrypt k data
      | _ \<Rightarrow> Throw (ErrorMsg ''key does not support encryption''))"

text \<open>The browser takes a key of AES only in one of the three sizes.\<close>

definition aes_size :: "bytes \<Rightarrow> 'a outcome \<Rightarrow> 'a outcome" where
  "aes_size k r = (if length k \<in> {16, 24, 32} then r else Throw (ErrorMsg ''DataError''))"

definition lc_importKey :: "legacy_world \<Rightarrow> string \<Rightarrow> key_data \<Rightarrow> legacy_algorithm \<Rightarrow> bool \<Rightarrow> string list \<Rightarrow> legacy_key outcome" where
  "lc_importKey W format d al extractable keyUsages =
     (if format \<noteq> ''raw'' then Throw (ErrorMsg ''key format is not supported'')
      else if al_name al = ''AES-ECB'' then aes_size (kd_bytes d) (Ret (AesEcbKey (kd_bytes d)))
      else if al_name al = ''AES-EAX'' then aes_size (kd_bytes d) (Ret (AesEaxKey (eax_importKey (lw_crypto W) (kd_bytes d))))
      else if al_name al = ''DES-ECB'' then Ret (DesEcbKey (map unat (kd_bytes d)))
      else if al_name al = ''DES-CBC'' then Ret (DesCbcKey (map unat (kd_bytes d)))
      else if al_name al = ''RSA-PKCS1-v1_5'' then
        obind (rsa_importKey (kd_n d) (kd_e d) extractable keyUsages) (\<lambda>k. Ret (RsaKey k))
      else Throw (ErrorMsg ''algorithm is not supported''))"

text \<open>The private key, and the public one where there is one.\<close>

definition lc_generateKey :: "legacy_world \<Rightarrow> legacy_algorithm \<Rightarrow> bool \<Rightarrow> (legacy_key \<times> legacy_key option) outcome" where
  "lc_generateKey W al extractable =
     (if al_name al = ''RSA-PKCS1-v1_5'' then
        obind (rsa_generateKey (lw_generate W) (al_modulusLength al) (al_publicExponent al) extractable) (\<lambda>k. Ret (RsaKey k, None))
      else if al_name al = ''DH'' then
        obind (dh_generateKey (lw_random W) (al_g al) (al_p al)) (\<lambda>k. Ret (DhPrivateKey k, Some (DhPublicKey (dh_publicKey k))))
      else Throw (ErrorMsg ''algorithm is not supported''))"

datatype exported = ExportedRsa bytes bytes "bytes option" | ExportedBytes bytes

definition lc_exportKey :: "string \<Rightarrow> legacy_key \<Rightarrow> exported outcome" where
  "lc_exportKey format key =
     (if format \<noteq> ''raw'' then Throw (ErrorMsg ''key format is not supported'')
      else case key of
        RsaKey k \<Rightarrow> obind (rsa_exportKey k) (\<lambda>(n, e, d). Ret (ExportedRsa n e d))
      | DhPublicKey k \<Rightarrow> Ret (ExportedBytes k)
      | _ \<Rightarrow> Throw (ErrorMsg ''key does not support exportKey''))"

text \<open>The entries that are classes are functions for \<open>typeof\<close>, and throw when they are called.\<close>

definition lc_digest :: "string \<Rightarrow> bytes \<Rightarrow> bytes outcome" where
  "lc_digest algorithm data =
     (if algorithm = ''MD5'' then Ret (MD5 data)
      else if algorithm \<in> set [''AES-ECB'', ''AES-EAX'', ''DES-ECB'', ''DES-CBC'', ''RSA-PKCS1-v1_5'', ''DH''] then Throw TypeError
      else Throw (ErrorMsg ''algorithm is not supported''))"

definition lc_deriveBits :: "legacy_algorithm \<Rightarrow> legacy_key \<Rightarrow> nat \<Rightarrow> bytes outcome" where
  "lc_deriveBits al key len =
     (if key_algorithm key \<noteq> al_name al then Throw (ErrorMsg ''algorithm does not match'')
      else case key of
        DhPrivateKey k \<Rightarrow> dh_deriveBits (al_public al) len k
      | _ \<Rightarrow> Throw (ErrorMsg ''key does not support deriveBits''))"

section \<open>Laws\<close>

text \<open>A key belongs to the algorithm it was made for.\<close>

lemma imported_algorithm: "lc_importKey W format d al x us = Ret k \<Longrightarrow> key_algorithm k = al_name al"
  by (auto simp: lc_importKey_def aes_size_def elim!: obind_RetE split: if_splits)

lemma generated_algorithm:
  "lc_generateKey W al x = Ret (k, p) \<Longrightarrow> key_algorithm k = al_name al \<and> (\<forall>q. p = Some q \<longrightarrow> key_algorithm q = al_name al)"
  by (auto simp: lc_generateKey_def elim!: obind_RetE split: if_splits)

text \<open>The interface to the older algorithms. What is encrypted through it under AES-EAX with an imported key is
  decrypted through it with the same key, initial value and additional data; a key is refused under the name of any other
  algorithm, by encryption, decryption and derivation alike; keys come only from the format \<open>raw\<close>.\<close>

theorem legacy_interface:
  assumes "cbc_documented (lw_crypto W) aes" "ctr_documented (lw_crypto W) stream"
    and key: "lc_importKey W format d al x us = Ret k"
  shows "format = ''raw'' \<and> key_algorithm k = al_name al \<and>
    (al_name al = ''AES-EAX'' \<longrightarrow> (\<exists>e. lc_encrypt W al k data = Ret (Some e) \<and> lc_decrypt W al k e = Ret (Some data))) \<and>
    (al_name other \<noteq> al_name al \<longrightarrow> lc_encrypt W other k data = Throw (ErrorMsg ''algorithm does not match'') \<and>
       lc_decrypt W other k data = Throw (ErrorMsg ''algorithm does not match'') \<and>
       lc_deriveBits other k n = Throw (ErrorMsg ''algorithm does not match''))"
proof -
  have al: "key_algorithm k = al_name al" using key by (rule imported_algorithm)
  have "format = ''raw''" using key by (auto simp: lc_importKey_def split: if_splits)
  moreover have "\<exists>e. lc_encrypt W al k data = Ret (Some e) \<and> lc_decrypt W al k e = Ret (Some data)" if "al_name al = ''AES-EAX''"
  proof -
    have "k = AesEaxKey (eax_importKey (lw_crypto W) (kd_bytes d))"
      using key that by (auto simp: lc_importKey_def aes_size_def split: if_splits)
    then show ?thesis using that eax_decrypt_eq [OF assms(1,2)] by (simp add: lc_encrypt_def lc_decrypt_def)
  qed
  ultimately show ?thesis using al by (auto simp: lc_encrypt_def lc_decrypt_def lc_deriveBits_def)
qed

definition demo_legacy :: legacy_world where
  "demo_legacy = \<lparr>lw_crypto = demo_crypto, lw_generate = (\<lambda>l e. \<lparr>jwk_n = [], jwk_e = [], jwk_d = []\<rparr>), lw_random = (\<lambda>n. replicate n 1)\<rparr>"

definition demo_eax :: legacy_algorithm where
  "demo_eax = \<lparr>al_name = ''AES-EAX'', al_iv = [1], al_additionalData = [2], al_modulusLength = 0, al_publicExponent = [],
     al_g = [], al_p = [], al_public = []\<rparr>"

theorem legacy_interface_witness:
  "\<exists>k e. lc_importKey demo_legacy ''raw'' \<lparr>kd_bytes = u8_new 16, kd_n = [], kd_e = []\<rparr> demo_eax False [] = Ret k \<and>
     lc_encrypt demo_legacy demo_eax k [7, 8] = Ret (Some e) \<and> lc_decrypt demo_legacy demo_eax k e = Ret (Some [7, 8])"
proof -
  obtain k where k: "lc_importKey demo_legacy ''raw'' \<lparr>kd_bytes = u8_new 16, kd_n = [], kd_e = []\<rparr> demo_eax False [] = Ret k"
    by (simp add: lc_importKey_def aes_size_def demo_eax_def)
  have "lw_crypto demo_legacy = demo_crypto" "al_name demo_eax = ''AES-EAX''" by (simp_all add: demo_legacy_def demo_eax_def)
  then show ?thesis using legacy_interface [of demo_legacy, OF _ _ k, of _ _ "[7, 8]"] demo_crypto_ok k by metis
qed

text \<open>Asking for a digest by the name of a cipher passes the check of the interface and fails inside.\<close>

lemma digest_of_cipher: "lc_digest ''AES-ECB'' data = Throw TypeError"
  by (simp add: lc_digest_def)

end
