(* ===== verification/Cursor.thy ===== *)
theory Cursor
  imports Js_Text
begin

text \<open>
  The local cursor, \<open>core/util/cursor.js\<close>, and the capture of the mouse, \<open>core/util/events.js\<close>. A browser that cannot show an image as its
  cursor gets a canvas that follows the mouse instead. The document is the record \<open>page\<close>, which may be a different one
  at each step; elements are numbers.

  The place the cursor points to is the position of the canvas plus the hot spot of the image. It follows the mouse
  through all changes of the image, except where the code moves the cursor by itself.
\<close>

section \<open>Mouse capture\<close>

type_synonym elem = nat

record page =
  pg_contains :: "elem \<Rightarrow> elem \<Rightarrow> bool"
  pg_computedCursor :: "elem \<Rightarrow> jsstring"
  pg_elementFromPoint :: "int \<Rightarrow> int \<Rightarrow> elem option"
  pg_documentElement :: elem
  pg_visualViewport :: "(int \<times> int) option"
  pg_setCapture :: "elem \<Rightarrow> bool"
  pg_releaseCapture :: bool

text \<open>\<open>proxyElem\<close> is the display and the cursor of the blocking element, once it exists.\<close>

record capture =
  captureElement :: "elem option"
  captureRecursion :: bool
  elementForUnflushedEvents :: "elem option"
  proxyElem :: "(bool \<times> jsstring) option"
  observed :: "elem list"
  windowListeners :: "string list"

definition new_capture :: capture where
  "new_capture = \<lparr>captureElement = None, captureRecursion = False, elementForUnflushedEvents = None,
     proxyElem = None, observed = [], windowListeners = []\<rparr>"

definition capturedElemChanged :: "page \<Rightarrow> capture \<Rightarrow> unit outcome \<times> capture" where
  "capturedElemChanged P k =
     (case (proxyElem k, captureElement k) of
        (Some (shown, _), Some e) \<Rightarrow> (Ret (), k\<lparr>proxyElem := Some (shown, pg_computedCursor P e)\<rparr>)
      | _ \<Rightarrow> (Throw TypeError, k))"

definition releaseCapture :: "page \<Rightarrow> capture \<Rightarrow> unit outcome \<times> capture" where
  "releaseCapture P k =
     (if pg_releaseCapture P then (Ret (), k\<lparr>captureElement := None\<rparr>)
      else case captureElement k of
        None \<Rightarrow> (Ret (), k)
      | Some e \<Rightarrow>
          let k = k\<lparr>elementForUnflushedEvents := Some e, captureElement := None, observed := []\<rparr>
          in case proxyElem k of
               None \<Rightarrow> (Throw TypeError, k)
             | Some (_, c) \<Rightarrow>
                 (Ret (), k\<lparr>proxyElem := Some (False, c),
                   windowListeners := filter (\<lambda>t. t \<noteq> ''mousemove'' \<and> t \<noteq> ''mouseup'') (windowListeners k)\<rparr>))"

text \<open>A listener that is there already is not added again.\<close>

definition listen :: "string \<Rightarrow> string list \<Rightarrow> string list" where
  "listen t ts = (if t \<in> set ts then ts else ts @ [t])"

definition setCapture :: "page \<Rightarrow> elem \<Rightarrow> capture \<Rightarrow> unit outcome \<times> capture" where
  "setCapture P target k =
     (if pg_setCapture P target then (Ret (), k\<lparr>captureElement := Some target\<rparr>)
      else andthen (releaseCapture P k) (\<lambda>_ k.
        let k = (case proxyElem k of None \<Rightarrow> k\<lparr>proxyElem := Some (False, [])\<rparr> | Some _ \<Rightarrow> k);
            k = k\<lparr>captureElement := Some target, observed := observed k @ [target]\<rparr>
        in andthen (capturedElemChanged P k) (\<lambda>_ k.
             (Ret (), k\<lparr>proxyElem := map_option (\<lambda>(_, c). (True, c)) (proxyElem k),
               windowListeners := listen ''mouseup'' (listen ''mousemove'' (windowListeners k))\<rparr>))))"

text \<open>\<open>handle\<close> is what the handlers of an element do with an event: whether they prevent the default, and what they do to
  the capture. The result is the element that got the event and whether the default of the original event is prevented.\<close>

definition captureProxy ::
  "page \<Rightarrow> (elem \<Rightarrow> string \<Rightarrow> capture \<Rightarrow> bool \<times> capture) \<Rightarrow> string \<Rightarrow> capture \<Rightarrow> (elem \<times> bool) option outcome \<times> capture" where
  "captureProxy P handle type k =
     (if captureRecursion k then (Ret None, k)
      else
        let k = k\<lparr>captureRecursion := True\<rparr>
        in case (case captureElement k of Some e \<Rightarrow> Some e | None \<Rightarrow> elementForUnflushedEvents k) of
             None \<Rightarrow> (Throw TypeError, k)
           | Some e \<Rightarrow>
               let (prevented, k) = handle e type k;
                   k = k\<lparr>captureRecursion := False\<rparr>
               in andthen (if type = ''mouseup'' then releaseCapture P k else (Ret (), k))
                    (\<lambda>_ k. (Ret (Some (e, prevented)), k)))"

section \<open>The cursor\<close>

record cursor_image =
  ci_rgba :: "8 word list"
  ci_w :: nat
  ci_h :: nat

record cursor =
  cu_target :: "elem option"
  cu_style :: "elem \<Rightarrow> jsstring"
  cu_size :: "nat \<times> nat"
  cu_image :: "cursor_image option"
  cu_hidden :: bool
  cu_place :: "(int \<times> int) option"
  cu_position :: "int \<times> int"
  cu_hotSpot :: "int \<times> int"
  cu_inBody :: bool
  cu_listening :: "elem list"
  cu_checks :: "(int \<times> int) list"

definition new_cursor :: "bool \<Rightarrow> (elem \<Rightarrow> jsstring) \<Rightarrow> cursor" where
  "new_cursor useFallback style = \<lparr>cu_target = None, cu_style = style, cu_size = (300, 150), cu_image = None,
     cu_hidden = useFallback, cu_place = None, cu_position = (0, 0), cu_hotSpot = (0, 0), cu_inBody = False,
     cu_listening = [], cu_checks = []\<rparr>"

definition cur_clear :: "cursor \<Rightarrow> unit outcome \<times> cursor" where
  "cur_clear c =
     (case cu_target c of
        None \<Rightarrow> (Throw TypeError, c)
      | Some t \<Rightarrow>
          (Ret (), c\<lparr>cu_style := (cu_style c)(t := lit ''none''), cu_size := (0, 0), cu_image := None,
             cu_position := (fst (cu_position c) + fst (cu_hotSpot c), snd (cu_position c) + snd (cu_hotSpot c)),
             cu_hotSpot := (0, 0)\<rparr>))"

definition cur_detach :: "bool \<Rightarrow> cursor \<Rightarrow> cursor" where
  "cur_detach useFallback c =
     (case cu_target c of
        None \<Rightarrow> c
      | Some t \<Rightarrow>
          let c = (if useFallback then c\<lparr>cu_listening := filter (\<lambda>e. e \<noteq> t) (cu_listening c), cu_inBody := False\<rparr> else c)
          in c\<lparr>cu_target := None\<rparr>)"

definition cur_attach :: "bool \<Rightarrow> elem \<Rightarrow> cursor \<Rightarrow> unit outcome \<times> cursor" where
  "cur_attach useFallback target c =
     (let c = (if cu_target c \<noteq> None then cur_detach useFallback c else c);
          c = c\<lparr>cu_target := Some target\<rparr>;
          c = (if useFallback
               then c\<lparr>cu_inBody := True,
                      cu_listening := (if target \<in> set (cu_listening c) then cu_listening c else cu_listening c @ [target])\<rparr>
               else c)
      in cur_clear c)"

definition updatePosition :: "cursor \<Rightarrow> cursor" where
  "updatePosition c = c\<lparr>cu_place := Some (cu_position c)\<rparr>"

text \<open>\<open>url\<close> is \<open>toDataURL\<close>. An image whose data does not fit its size is refused, after the canvas was resized.\<close>

definition cur_change ::
  "bool \<Rightarrow> (cursor_image \<Rightarrow> jsstring) \<Rightarrow> 8 word list \<Rightarrow> int \<Rightarrow> int \<Rightarrow> nat \<Rightarrow> nat \<Rightarrow> cursor \<Rightarrow> unit outcome \<times> cursor" where
  "cur_change useFallback url rgba hotx hoty w h c =
     (if w = 0 \<or> h = 0 then cur_clear c
      else
        let c = c\<lparr>cu_position := (fst (cu_position c) + fst (cu_hotSpot c) - hotx, snd (cu_position c) + snd (cu_hotSpot c) - hoty),
                  cu_hotSpot := (hotx, hoty), cu_size := (w, h), cu_image := None\<rparr>
        in if length rgba \<noteq> 4 * w * h then (Throw (ErrorMsg ''IndexSizeError''), c)
           else
             let img = \<lparr>ci_rgba = rgba, ci_w = w, ci_h = h\<rparr>;
                 c = c\<lparr>cu_image := Some img\<rparr>
             in if useFallback then (Ret (), updatePosition c)
                else case cu_target c of
                       None \<Rightarrow> (Throw TypeError, c)
                     | Some t \<Rightarrow> (Ret (), c\<lparr>cu_style := (cu_style c)(t := lit ''url('' @ url img @ lit '')'' @ js_int_string hotx @
                         lit '' '' @ js_int_string hoty @ lit '', default'')\<rparr>))"

section \<open>Where it is shown\<close>

definition captureIsActive :: "page \<Rightarrow> capture \<Rightarrow> bool" where
  "captureIsActive P k = (case captureElement k of None \<Rightarrow> False | Some e \<Rightarrow> pg_contains P (pg_documentElement P) e)"

definition shouldShowCursor :: "page \<Rightarrow> elem option \<Rightarrow> cursor \<Rightarrow> bool outcome" where
  "shouldShowCursor P target c =
     (case target of
        None \<Rightarrow> Ret False
      | Some e \<Rightarrow>
          if cu_target c = Some e then Ret True
          else case cu_target c of
                 None \<Rightarrow> Throw TypeError
               | Some t \<Rightarrow>
                   if \<not> pg_contains P t e then Ret False
                   else if pg_computedCursor P e \<noteq> lit ''none'' then Ret False
                   else Ret True)"

definition showCursor :: "cursor \<Rightarrow> cursor" where
  "showCursor c = (if cu_hidden c then c\<lparr>cu_hidden := False\<rparr> else c)"

definition hideCursor :: "cursor \<Rightarrow> cursor" where
  "hideCursor c = (if \<not> cu_hidden c then c\<lparr>cu_hidden := True\<rparr> else c)"

definition updateVisibility :: "page \<Rightarrow> capture \<Rightarrow> elem option \<Rightarrow> cursor \<Rightarrow> unit outcome \<times> cursor" where
  "updateVisibility P k target c =
     (let target = (if captureIsActive P k then captureElement k else target)
      in case shouldShowCursor P target c of
           Ret True \<Rightarrow> (Ret (), showCursor c)
         | Ret False \<Rightarrow> (Ret (), hideCursor c)
         | Throw e \<Rightarrow> (Throw e, c)
         | Hang \<Rightarrow> (Hang, c))"

definition cur_move :: "bool \<Rightarrow> page \<Rightarrow> capture \<Rightarrow> int \<Rightarrow> int \<Rightarrow> cursor \<Rightarrow> unit outcome \<times> cursor" where
  "cur_move useFallback P k clientX clientY c =
     (if \<not> useFallback then (Ret (), c)
      else
        let c = (case pg_visualViewport P of
                   Some (l, t) \<Rightarrow> c\<lparr>cu_position := (clientX + l, clientY + t)\<rparr>
                 | None \<Rightarrow> c\<lparr>cu_position := (clientX, clientY)\<rparr>)
        in updateVisibility P k (pg_elementFromPoint P clientX clientY) (updatePosition c))"

definition handleMouseMove :: "page \<Rightarrow> capture \<Rightarrow> elem option \<Rightarrow> int \<Rightarrow> int \<Rightarrow> cursor \<Rightarrow> unit outcome \<times> cursor" where
  "handleMouseMove P k target clientX clientY c =
     andthen (updateVisibility P k target c) (\<lambda>_ c.
       (Ret (), updatePosition (c\<lparr>cu_position := (clientX - fst (cu_hotSpot c), clientY - snd (cu_hotSpot c))\<rparr>)))"

definition handleMouseOver :: "page \<Rightarrow> capture \<Rightarrow> elem option \<Rightarrow> int \<Rightarrow> int \<Rightarrow> cursor \<Rightarrow> unit outcome \<times> cursor" where
  "handleMouseOver = handleMouseMove"

definition handleMouseLeave :: "page \<Rightarrow> capture \<Rightarrow> elem option \<Rightarrow> cursor \<Rightarrow> unit outcome \<times> cursor" where
  "handleMouseLeave P k relatedTarget c = updateVisibility P k relatedTarget c"

definition handleMouseUp :: "page \<Rightarrow> capture \<Rightarrow> int \<Rightarrow> int \<Rightarrow> cursor \<Rightarrow> unit outcome \<times> cursor" where
  "handleMouseUp P k clientX clientY c =
     andthen (updateVisibility P k (pg_elementFromPoint P clientX clientY) c) (\<lambda>_ c.
       (Ret (), if captureIsActive P k then c\<lparr>cu_checks := cu_checks c @ [(clientX, clientY)]\<rparr> else c))"

text \<open>The timeout that \<open>handleMouseUp\<close> has set.\<close>

definition mouseUpTimeout :: "page \<Rightarrow> capture \<Rightarrow> int \<Rightarrow> int \<Rightarrow> cursor \<Rightarrow> unit outcome \<times> cursor" where
  "mouseUpTimeout P k clientX clientY c =
     (if cu_target c = None then (Ret (), c)
      else updateVisibility P k (pg_elementFromPoint P clientX clientY) c)"

section \<open>Steps\<close>

datatype cursor_op =
    CAttach elem
  | CDetach
  | CChange "8 word list" int int nat nat
  | CClear
  | CMove int int
  | CMouseOver "elem option" int int
  | CMouseMove "elem option" int int
  | CMouseLeave "elem option"
  | CMouseUp int int
  | CTimeout

text \<open>A handler runs only while it is installed.\<close>

fun cursor_step ::
  "bool \<Rightarrow> (cursor_image \<Rightarrow> jsstring) \<Rightarrow> page \<Rightarrow> capture \<Rightarrow> cursor_op \<Rightarrow> cursor \<Rightarrow> unit outcome \<times> cursor" where
  "cursor_step F url P k (CAttach e) c = cur_attach F e c"
| "cursor_step F url P k CDetach c = (Ret (), cur_detach F c)"
| "cursor_step F url P k (CChange d x y w h) c = cur_change F url d x y w h c"
| "cursor_step F url P k CClear c = cur_clear c"
| "cursor_step F url P k (CMove x y) c = cur_move F P k x y c"
| "cursor_step F url P k (CMouseOver e x y) c = (if cu_listening c = [] then (Ret (), c) else handleMouseOver P k e x y c)"
| "cursor_step F url P k (CMouseMove e x y) c = (if cu_listening c = [] then (Ret (), c) else handleMouseMove P k e x y c)"
| "cursor_step F url P k (CMouseLeave e) c = (if cu_listening c = [] then (Ret (), c) else handleMouseLeave P k e c)"
| "cursor_step F url P k (CMouseUp x y) c = (if cu_listening c = [] then (Ret (), c) else handleMouseUp P k x y c)"
| "cursor_step F url P k CTimeout c =
     (case cu_checks c of [] \<Rightarrow> (Ret (), c) | (x, y) # rest \<Rightarrow> mouseUpTimeout P k x y (c\<lparr>cu_checks := rest\<rparr>))"

text \<open>A run: at each step the document and the capture may be different.\<close>

fun cursor_run ::
  "bool \<Rightarrow> (cursor_image \<Rightarrow> jsstring) \<Rightarrow> (page \<times> capture \<times> cursor_op) list \<Rightarrow> cursor \<Rightarrow> cursor" where
  "cursor_run F url [] c = c"
| "cursor_run F url ((P, k, x) # xs) c = cursor_run F url xs (snd (cursor_step F url P k x c))"

section \<open>Laws of the capture\<close>

definition emulated :: "page \<Rightarrow> bool" where
  "emulated P \<longleftrightarrow> \<not> pg_releaseCapture P \<and> (\<forall>e. \<not> pg_setCapture P e)"

text \<open>While an element has the capture it is observed, the blocking element is shown and the window is listened to; otherwise
  none of this is the case.\<close>

definition capture_ok :: "capture \<Rightarrow> bool" where
  "capture_ok k \<longleftrightarrow>
     (case captureElement k of
        None \<Rightarrow> observed k = [] \<and> windowListeners k = [] \<and> (\<forall>c. proxyElem k \<noteq> Some (True, c))
      | Some e \<Rightarrow> observed k = [e] \<and> windowListeners k = [''mousemove'', ''mouseup''] \<and> (\<exists>c. proxyElem k = Some (True, c)))"

lemma capture_given_back:
  assumes "emulated P" "capture_ok k"
  shows "fst (releaseCapture P k) = Ret ()" "capture_ok (snd (releaseCapture P k))" "captureElement (snd (releaseCapture P k)) = None"
  using assms by (auto simp: releaseCapture_def emulated_def capture_ok_def Let_def split: option.splits)

lemma capture_taken:
  assumes "emulated P" "capture_ok k"
  shows "fst (setCapture P e k) = Ret ()" "capture_ok (snd (setCapture P e k))" "captureElement (snd (setCapture P e k)) = Some e"
    "\<exists>shown. proxyElem (snd (setCapture P e k)) = Some (shown, pg_computedCursor P e)"
proof -
  obtain k1 where k1: "releaseCapture P k = (Ret (), k1)" "capture_ok k1" "captureElement k1 = None"
    using capture_given_back [OF assms] by (metis prod.collapse)
  have "\<not> pg_setCapture P e" using assms(1) by (simp add: emulated_def)
  then have "fst (setCapture P e k) = Ret () \<and> capture_ok (snd (setCapture P e k)) \<and> captureElement (snd (setCapture P e k)) = Some e \<and>
      (\<exists>shown. proxyElem (snd (setCapture P e k)) = Some (shown, pg_computedCursor P e))"
    using k1 by (cases "proxyElem k1") (auto simp: setCapture_def capturedElemChanged_def capture_ok_def listen_def Let_def)
  then show "fst (setCapture P e k) = Ret ()" "capture_ok (snd (setCapture P e k))" "captureElement (snd (setCapture P e k)) = Some e"
    "\<exists>shown. proxyElem (snd (setCapture P e k)) = Some (shown, pg_computedCursor P e)" by blast+
qed

text \<open>The emulated capture of the mouse. Taking it leaves exactly the new element observed and captured, whoever had it
  before; an event while it is taken goes to the captured element, with the handlers' wish about the default
  respected; the release of the button gives it back, with every listener on the window gone; and an event that
  was still under way afterwards goes to the element that had it.\<close>

theorem capture_lifecycle:
  assumes "emulated P" "capture_ok k" "\<not> captureRecursion k" "\<And>e t k. handle e t k = (prevents e t, k)"
    and taken: "setCapture P e k = (r1, k1)" and moved: "captureProxy P handle ''mousemove'' k1 = (r2, k2)"
    and up: "captureProxy P handle ''mouseup'' k2 = (r3, k3)" and late: "captureProxy P handle t k3 = (r4, k4)"
  shows "r1 = Ret () \<and> capture_ok k1 \<and> captureElement k1 = Some e \<and>
    r2 = Ret (Some (e, prevents e ''mousemove'')) \<and> k2 = k1 \<and>
    r3 = Ret (Some (e, prevents e ''mouseup'')) \<and> capture_ok k3 \<and> captureElement k3 = None \<and> windowListeners k3 = [] \<and>
    r4 = Ret (Some (e, prevents e t)) \<and> k4 = k3"
proof -
  have k1: "r1 = Ret ()" "capture_ok k1" "captureElement k1 = Some e"
    using capture_taken [OF assms(1,2), of e] taken by simp_all
  have rel: "captureRecursion (snd (releaseCapture P k)) = captureRecursion k" for k
    by (simp add: releaseCapture_def Let_def split: option.split)
  then have rec1: "\<not> captureRecursion k1"
    using taken assms(1,3) rel [of k]
    by (cases "releaseCapture P k"; cases "fst (releaseCapture P k)")
      (auto simp: setCapture_def emulated_def capturedElemChanged_def Let_def split: option.splits)
  have same: "\<not> captureRecursion k \<Longrightarrow> k\<lparr>captureRecursion := False\<rparr> = k" for k :: capture by (cases k) simp
  have k2: "r2 = Ret (Some (e, prevents e ''mousemove''))" "k2 = k1"
    using moved k1 rec1 assms(4) same [OF rec1] by (simp_all add: captureProxy_def)
  have un: "elementForUnflushedEvents (snd (releaseCapture P k1)) = Some e"
    using assms(1) k1 by (auto simp: releaseCapture_def emulated_def capture_ok_def)
  obtain kr where kr: "releaseCapture P k1 = (Ret (), kr)" using capture_given_back [OF assms(1) k1(2)] by (metis prod.collapse)
  have k3: "r3 = Ret (Some (e, prevents e ''mouseup''))" "k3 = kr"
    using up k2(2) k1 rec1 assms(4) kr same [OF rec1] by (simp_all add: captureProxy_def)
  have rec3: "\<not> captureRecursion kr" using rel [of k1] kr rec1 by simp
  have kr3: "capture_ok kr" "captureElement kr = None" using capture_given_back [OF assms(1) k1(2)] kr by simp_all
  then have "windowListeners kr = []" by (simp add: capture_ok_def)
  moreover have "releaseCapture P kr = (Ret (), kr)" using kr3(2) assms(1) by (simp add: releaseCapture_def emulated_def)
  then have "r4 = Ret (Some (e, prevents e t))" "k4 = kr"
    using late k3(2) rec3 kr3(2) un kr assms(4) by (simp_all add: captureProxy_def same [OF rec3] Let_def split: if_splits)
  ultimately show ?thesis using k1 k2 k3 kr3 by simp
qed


text \<open>A document of two elements.\<close>

definition demo_page :: page where
  "demo_page = \<lparr>pg_contains = (\<lambda>a b. a = 0), pg_computedCursor = (\<lambda>e. lit ''none''), pg_elementFromPoint = (\<lambda>x y. Some 1),
     pg_documentElement = 0, pg_visualViewport = None, pg_setCapture = (\<lambda>e. False), pg_releaseCapture = False\<rparr>"

theorem capture_lifecycle_witness:
  "captureElement (snd (setCapture demo_page 1 new_capture)) = Some 1 \<and>
   (let k1 = snd (setCapture demo_page 1 new_capture); h = (\<lambda>e t k. (False, k));
        k2 = snd (captureProxy demo_page h ''mousemove'' k1); k3 = snd (captureProxy demo_page h ''mouseup'' k2)
    in fst (captureProxy demo_page h ''contextmenu'' k3) = Ret (Some (1, False)) \<and> windowListeners k3 = [])"
proof -
  have "emulated demo_page" "capture_ok new_capture" "\<not> captureRecursion new_capture"
    by (simp_all add: emulated_def demo_page_def capture_ok_def new_capture_def)
  from capture_lifecycle [OF this, of "\<lambda>e t k. (False, k)" "\<lambda>_ _. False" 1, OF refl prod.collapse [symmetric] prod.collapse [symmetric]
      prod.collapse [symmetric] prod.collapse [symmetric], of "''contextmenu''"]
  show ?thesis unfolding Let_def by (elim conjE) (intro conjI; assumption)
qed

section \<open>Laws of the cursor\<close>

text \<open>The place the cursor points to.\<close>

definition cu_tip :: "cursor \<Rightarrow> int \<times> int" where
  "cu_tip c = (fst (cu_position c) + fst (cu_hotSpot c), snd (cu_position c) + snd (cu_hotSpot c))"

text \<open>The canvas is in the document and the handlers are on the target exactly while there is a target, and an image is
  drawn where its position says.\<close>

definition cursor_ok :: "cursor \<Rightarrow> bool" where
  "cursor_ok c \<longleftrightarrow> cu_listening c = (case cu_target c of None \<Rightarrow> [] | Some t \<Rightarrow> [t]) \<and> (cu_inBody c \<longleftrightarrow> cu_target c \<noteq> None) \<and>
     (cu_image c \<noteq> None \<longrightarrow> cu_place c = Some (cu_position c))"

lemma visibility_frame:
  "snd (updateVisibility P k e c) = c\<lparr>cu_hidden := cu_hidden (snd (updateVisibility P k e c))\<rparr>"
  by (simp add: updateVisibility_def showCursor_def hideCursor_def Let_def split: outcome.split bool.split)

lemma visibility_returns: "cu_target c \<noteq> None \<Longrightarrow> fst (updateVisibility P k e c) = Ret ()"
  by (auto simp: updateVisibility_def shouldShowCursor_def Let_def split: outcome.splits bool.splits option.splits if_splits)

text \<open>Moving and checking the visibility of a cursor that has a target.\<close>

lemma moved_ok:
  assumes "cursor_ok c" "cu_target c \<noteq> None"
  shows "cursor_ok (snd (handleMouseMove P k e x y c))" "cu_tip (snd (handleMouseMove P k e x y c)) = (x, y)"
    "cu_target (snd (handleMouseMove P k e x y c)) = cu_target c"
proof -
  obtain c1 where c1: "updateVisibility P k e c = (Ret (), c1)" "c1 = c\<lparr>cu_hidden := cu_hidden c1\<rparr>"
    using visibility_returns [OF assms(2)] visibility_frame [of P k e c] by (metis prod.collapse)
  define h where "h = cu_hidden c1"
  have "c1 = c\<lparr>cu_hidden := h\<rparr>" using c1(2) by (simp add: h_def)
  then show "cursor_ok (snd (handleMouseMove P k e x y c))" "cu_tip (snd (handleMouseMove P k e x y c)) = (x, y)"
    "cu_target (snd (handleMouseMove P k e x y c)) = cu_target c"
    using c1(1) assms(1) by (simp_all add: handleMouseMove_def updatePosition_def cursor_ok_def cu_tip_def)
qed

lemma visibility_ok:
  "cursor_ok (snd (updateVisibility P k e c)) = cursor_ok c" "cu_tip (snd (updateVisibility P k e c)) = cu_tip c"
  "cu_target (snd (updateVisibility P k e c)) = cu_target c"
  by (subst visibility_frame, simp add: cursor_ok_def cu_tip_def)+

text \<open>The last place of the mouse that the target has seen.\<close>

fun mouse_point :: "cursor_op \<Rightarrow> int \<times> int \<Rightarrow> int \<times> int" where
  "mouse_point (CMouseOver e x y) p = (x, y)"
| "mouse_point (CMouseMove e x y) p = (x, y)"
| "mouse_point op' p = p"

fun by_mouse :: "cursor_op \<Rightarrow> bool" where
  "by_mouse (CMove x y) = False"
| "by_mouse CDetach = False"
| "by_mouse op' = True"

lemma clear_ok:
  assumes "cu_target c = Some t" "cu_listening c = [t] \<and> cu_inBody c"
  shows "cursor_ok (snd (cur_clear c)) \<and> cu_tip (snd (cur_clear c)) = cu_tip c \<and> cu_target (snd (cur_clear c)) = Some t"
  using assms by (simp add: cur_clear_def cursor_ok_def cu_tip_def)

lemma cursor_step_ok:
  assumes "cursor_ok c" "cu_target c = Some t" "by_mouse x"
  shows "cursor_ok (snd (cursor_step True url P k x c)) \<and> cu_target (snd (cursor_step True url P k x c)) \<noteq> None \<and>
    cu_tip (snd (cursor_step True url P k x c)) = mouse_point x (cu_tip c)"
proof -
  have on: "cu_listening c = [t] \<and> cu_inBody c" using assms(1,2) by (simp add: cursor_ok_def)
  show ?thesis
  proof (cases x)
    case (CAttach e)
    let ?c = "(cur_detach True c)\<lparr>cu_target := Some e, cu_inBody := True, cu_listening := [e]\<rparr>"
    have "cur_attach True e c = cur_clear ?c" using assms(2) on by (simp add: cur_attach_def cur_detach_def Let_def)
    moreover have "cu_tip ?c = cu_tip c" using assms(2) by (simp add: cur_detach_def cu_tip_def Let_def)
    ultimately show ?thesis using CAttach clear_ok [of ?c e] by simp
  next
    case (CChange d a b w h)
    show ?thesis
    proof (cases "w = 0 \<or> h = 0")
      case True
      then show ?thesis using CChange clear_ok [OF assms(2) on] by (simp add: cur_change_def)
    next
      case False
      then show ?thesis using CChange assms(2) on
        by (simp add: cur_change_def Let_def updatePosition_def cursor_ok_def cu_tip_def)
    qed
  next
    case CClear
    then show ?thesis using clear_ok [OF assms(2) on] by simp
  next
    case (CMouseOver e a b)
    then show ?thesis using moved_ok [OF assms(1)] assms(2) on by (simp add: handleMouseOver_def)
  next
    case (CMouseMove e a b)
    then show ?thesis using moved_ok [OF assms(1)] assms(2) on by simp
  next
    case (CMouseLeave e)
    then show ?thesis using visibility_ok [of P k e c] assms on by (simp add: handleMouseLeave_def)
  next
    case (CMouseUp a b)
    obtain c1 where c1: "updateVisibility P k (pg_elementFromPoint P a b) c = (Ret (), c1)"
      using visibility_returns [of c P k] assms(2) by (metis option.distinct(1) prod.collapse)
    then have "cursor_ok c1" "cu_tip c1 = cu_tip c" "cu_target c1 = Some t"
      using visibility_ok [of P k "pg_elementFromPoint P a b" c] assms by simp_all
    then show ?thesis using CMouseUp c1 on by (simp add: handleMouseUp_def cursor_ok_def cu_tip_def)
  next
    case CTimeout
    show ?thesis
    proof (cases "cu_checks c")
      case (Cons a rest)
      have "cursor_ok (c\<lparr>cu_checks := rest\<rparr>)" "cu_tip (c\<lparr>cu_checks := rest\<rparr>) = cu_tip c"
        using assms(1) by (simp_all add: cursor_ok_def cu_tip_def)
      then show ?thesis using CTimeout Cons assms(2) visibility_ok [of P k _ "c\<lparr>cu_checks := rest\<rparr>"]
        by (simp add: mouseUpTimeout_def split: prod.split)
    qed (use CTimeout assms in simp)
  qed (use assms in simp_all)
qed

lemma cursor_run_ok:
  "cursor_ok c \<Longrightarrow> cu_target c \<noteq> None \<Longrightarrow> \<forall>(P, k, x) \<in> set xs. by_mouse x \<Longrightarrow>
   cursor_ok (cursor_run True url xs c) \<and> cu_target (cursor_run True url xs c) \<noteq> None \<and>
   cu_tip (cursor_run True url xs c) = fold (\<lambda>(P, k, x). mouse_point x) xs (cu_tip c)"
proof (induction xs arbitrary: c)
  case (Cons a xs)
  obtain P k x where a: "a = (P, k, x)" by (cases a) auto
  obtain t where "cu_target c = Some t" using Cons.prems(2) by blast
  moreover have "by_mouse x" using Cons.prems(3) a by simp
  ultimately have "cursor_ok (snd (cursor_step True url P k x c)) \<and> cu_target (snd (cursor_step True url P k x c)) \<noteq> None \<and>
    cu_tip (snd (cursor_step True url P k x c)) = mouse_point x (cu_tip c)"
    using cursor_step_ok [OF Cons.prems(1)] by blast
  then show ?case using Cons.IH [of "snd (cursor_step True url P k x c)"] Cons.prems(3) a by simp
qed simp



text \<open>An emulated move puts the corner of the image, and not its hot spot, at the place.\<close>

lemma emulated_move_misses:
  assumes "cu_target c \<noteq> None" "pg_visualViewport P = None"
  shows "cu_tip (snd (cur_move True P k x y c)) = (x + fst (cu_hotSpot c), y + snd (cu_hotSpot c))"
  using assms(2) visibility_ok(2) by (simp add: cur_move_def updatePosition_def cu_tip_def [of "updatePosition _"]) (simp add: cu_tip_def)

end
