(* ===== verification/Browser.thy ===== *)
theory Browser
  imports Js_Text
begin

text \<open>
  The detection of platform and browser of \<open>core/util/browser.js\<close> and the log levels of \<open>core/util/logging.js\<close>. The texts \<open>navigator.platform\<close> and
  \<open>navigator.userAgent\<close> are arguments.
\<close>

section \<open>Platform and browser\<close>

text \<open>The regular expressions of the file are sequences of characters and of dots; a dot is any character but the end of a line.\<close>

datatype rx = Ch nat | Dot

fun rx_char :: "rx \<Rightarrow> nat \<Rightarrow> bool" where
  "rx_char (Ch c) d = (c = d)"
| "rx_char Dot d = (d \<notin> {10, 13, 0x2028, 0x2029})"

fun rx_here :: "rx list \<Rightarrow> jsstring \<Rightarrow> bool" where
  "rx_here [] s = True"
| "rx_here (r # rs) [] = False"
| "rx_here (r # rs) (c # s) = (rx_char r c \<and> rx_here rs s)"

fun rx_found :: "rx list \<Rightarrow> jsstring \<Rightarrow> bool" where
  "rx_found rs [] = rx_here rs []"
| "rx_found rs (c # s) = (rx_here rs (c # s) \<or> rx_found rs s)"

definition text_rx :: "string \<Rightarrow> rx list" where
  "text_rx t = map (\<lambda>c. if c = CHR ''.'' then Dot else Ch (of_char c)) t"

text \<open>Without regard to case: both are folded, for the letters of ASCII.\<close>

definition fold_case :: "nat \<Rightarrow> nat" where
  "fold_case c = (if 65 \<le> c \<and> c \<le> 90 then c + 32 else c)"

definition says :: "string \<Rightarrow> jsstring \<Rightarrow> bool" where
  "says t s = rx_found (text_rx t) s"

definition says_i :: "string \<Rightarrow> jsstring \<Rightarrow> bool" where
  "says_i t s = rx_found (text_rx t) (map fold_case s)"

definition isMac :: "jsstring \<Rightarrow> bool" where "isMac platform = says_i ''mac'' platform"

definition isWindows :: "jsstring \<Rightarrow> bool" where "isWindows platform = says_i ''win'' platform"

definition isIOS :: "jsstring \<Rightarrow> bool" where
  "isIOS platform = (says_i ''ipad'' platform \<or> says_i ''iphone'' platform \<or> says_i ''ipod'' platform)"

definition isAndroid :: "jsstring \<Rightarrow> bool" where "isAndroid userAgent = says ''Android '' userAgent"

definition isChromeOS :: "jsstring \<Rightarrow> bool" where "isChromeOS userAgent = says '' CrOS '' userAgent"

definition isSafari :: "jsstring \<Rightarrow> bool" where
  "isSafari ua = (says ''Safari/...'' ua \<and> \<not> says ''Chrome/...'' ua \<and> \<not> says ''Chromium/...'' ua \<and> \<not> says ''Epiphany/...'' ua)"

definition isFirefox :: "jsstring \<Rightarrow> bool" where
  "isFirefox ua = (says ''Firefox/...'' ua \<and> \<not> says ''Seamonkey/...'' ua)"

definition isChrome :: "jsstring \<Rightarrow> bool" where
  "isChrome ua = (says ''Chrome/...'' ua \<and> \<not> says ''Chromium/...'' ua \<and> \<not> says ''Edg/...'' ua \<and> \<not> says ''OPR/...'' ua)"

definition isChromium :: "jsstring \<Rightarrow> bool" where "isChromium ua = says ''Chromium/...'' ua"

definition isOpera :: "jsstring \<Rightarrow> bool" where "isOpera ua = says ''OPR/...'' ua"

definition isEdge :: "jsstring \<Rightarrow> bool" where "isEdge ua = says ''Edg/...'' ua"

definition isGecko :: "jsstring \<Rightarrow> bool" where "isGecko ua = says ''Gecko/...'' ua"

definition isWebKit :: "jsstring \<Rightarrow> bool" where
  "isWebKit ua = (says ''AppleWebKit/...'' ua \<and> \<not> says ''Chrome/...'' ua)"

definition isBlink :: "jsstring \<Rightarrow> bool" where "isBlink ua = says ''Chrome/...'' ua"

text \<open>What is found has the text somewhere.\<close>

lemma rx_here_prefix: "rx_here rs s \<longleftrightarrow> (\<exists>m t. s = m @ t \<and> list_all2 rx_char rs m)"
proof (induction rs s rule: rx_here.induct)
  case (3 r rs c s)
  have "(\<exists>m t. c # s = m @ t \<and> list_all2 rx_char (r # rs) m) \<longleftrightarrow>
      rx_char r c \<and> (\<exists>m t. s = m @ t \<and> list_all2 rx_char rs m)"
    by (auto simp: list_all2_Cons1 Cons_eq_append_conv)
  then show ?case using 3 by simp
qed (auto simp: list_all2_Cons1)

lemma rx_found_iff: "rx_found rs s \<longleftrightarrow> (\<exists>u m t. s = u @ m @ t \<and> list_all2 rx_char rs m)"
proof (induction s)
  case (Cons c s)
  have "(\<exists>u m t. c # s = u @ m @ t \<and> list_all2 rx_char rs m) \<longleftrightarrow>
      (\<exists>m t. c # s = m @ t \<and> list_all2 rx_char rs m) \<or> (\<exists>u m t. s = u @ m @ t \<and> list_all2 rx_char rs m)"
  proof (intro iffI)
    assume "\<exists>u m t. c # s = u @ m @ t \<and> list_all2 rx_char rs m"
    then obtain u m t where "c # s = u @ m @ t" "list_all2 rx_char rs m" by blast
    then show "(\<exists>m t. c # s = m @ t \<and> list_all2 rx_char rs m) \<or> (\<exists>u m t. s = u @ m @ t \<and> list_all2 rx_char rs m)"
      by (cases u) auto
  next
    assume "(\<exists>m t. c # s = m @ t \<and> list_all2 rx_char rs m) \<or> (\<exists>u m t. s = u @ m @ t \<and> list_all2 rx_char rs m)"
    then show "\<exists>u m t. c # s = u @ m @ t \<and> list_all2 rx_char rs m" by (metis append_Cons append_Nil)
  qed
  then show ?case using Cons.IH rx_here_prefix [of rs "c # s"] by simp
qed (auto simp: rx_here_prefix)

section \<open>Logging\<close>

text \<open>Which of the four functions write to the console.\<close>

record logging =
  log_level :: string
  logs_debug :: bool
  logs_info :: bool
  logs_warn :: bool
  logs_error :: bool

definition initLogging :: "bool \<Rightarrow> string option \<Rightarrow> logging \<Rightarrow> unit outcome \<times> logging" where
  "initLogging console level l =
     (let (level, l) = (case level of None \<Rightarrow> (log_level l, l) | Some v \<Rightarrow> (v, l\<lparr>log_level := v\<rparr>));
          l = l\<lparr>logs_debug := False, logs_info := False, logs_warn := False, logs_error := False\<rparr>
      in if \<not> console then (Ret (), l)
         else if level = ''debug'' then (Ret (), l\<lparr>logs_debug := True, logs_info := True, logs_warn := True, logs_error := True\<rparr>)
         else if level = ''info'' then (Ret (), l\<lparr>logs_info := True, logs_warn := True, logs_error := True\<rparr>)
         else if level = ''warn'' then (Ret (), l\<lparr>logs_warn := True, logs_error := True\<rparr>)
         else if level = ''error'' then (Ret (), l\<lparr>logs_error := True\<rparr>)
         else if level = ''none'' then (Ret (), l)
         else (Throw (ErrorMsg (''invalid logging type '' @ [CHR 0x27] @ level @ [CHR 0x27])), l))"

definition getLogging :: "logging \<Rightarrow> string" where "getLogging l = log_level l"

text \<open>The levels are nested, whatever level is asked for and whether it is accepted.\<close>

lemma levels_nested:
  assumes "initLogging console level l = (r, l')"
  shows "(logs_debug l' \<longrightarrow> logs_info l') \<and> (logs_info l' \<longrightarrow> logs_warn l') \<and> (logs_warn l' \<longrightarrow> logs_error l')"
  using assms by (auto simp: initLogging_def Let_def split: option.splits if_splits)

text \<open>A level that is refused is nevertheless kept as the current one.\<close>

lemma refused_level_kept:
  assumes "v \<notin> set [''debug'', ''info'', ''warn'', ''error'', ''none'']"
  shows "\<exists>e l'. initLogging True (Some v) l = (Throw e, l') \<and> getLogging l' = v"
  using assms by (simp add: initLogging_def getLogging_def Let_def)

end
