(* ===== verification/Spec2Isabelle.thy ===== *)
theory Spec2Isabelle
  imports Base64 Canvas Hextile Crypto_Laws Tight_Filters Rfb_Progress Gesture_Laws Theme Metrics Localization Webutil Ui_Final Ra2_Session Legacy Cursor Browser
begin

text \<open>
  A model of the browser side of Outband: the remote console, which is the noVNC client bundled under
  \<open>src/internal/ui/static/novnc\<close>, and the scripts of Outband's own pages under \<open>src/internal/ui/static/js\<close>.
  Paths below are relative to the first directory unless they start with \<open>js/\<close>.

  \<^bold>\<open>The program.\<close> A page of Outband opens a WebSocket to the server, which relays the console of a
  machine. \<open>app/ui.js\<close> is the page: its settings, panels, dialogs and buttons, and the connection it opens and
  closes. \<open>core/websock.js\<close> buffers what comes in and goes out. \<open>core/rfb.js\<close> runs the RFB protocol over
  it: version and security handshake, authentication, then a loop over the messages of the server. A
  framebuffer update is a number of rectangles; each is handed to a decoder of \<open>core/decoders\<close>, which
  reads from the socket and draws on the display of \<open>core/display.js\<close>. The display keeps the frame
  buffer and the visible canvas and orders what is drawn behind images that are still loading. Keys go
  through \<open>core/input/keyboard.js\<close> and the tables beside it, touches through \<open>core/input/gesturehandler.js\<close>, and
  leave as messages. A decoder or handler that finds too few bytes returns, and is called again from the start of the
  step when more have arrived. The RSA-AES authentication of \<open>core/ra2.js\<close> is asynchronous and waits by promises.
  The other pages of Outband have a theme, a metrics chart and a serial console.

  \<^bold>\<open>Theories.\<close>
  \<^item> \<open>Prelude\<close>: JavaScript numbers, byte arrays and views, code that may throw, shared lemmas. \<open>Js_Text\<close>: trimming,
    searching, decimal numbers and percent encoding of texts.
  \<^item> \<open>Websock\<close>: the receive and send queues, \<open>core/websock.js\<close>. Delivery in order through compaction and
    growth, the limit of the queue, the send loop.
  \<^item> \<open>Base64\<close>: \<open>core/base64.js\<close>. Round trip.
  \<^item> \<open>Display\<close>, \<open>Canvas\<close>: \<open>core/display.js\<close>, the first its operations with the calls on the canvases
    recorded, the second the pictures those calls make. The visible canvas shows the frame buffer, drawing
    happens in the order of the requests, the viewport stays inside, scaling.
  \<^item> \<open>Decoders\<close>, \<open>Hextile\<close>, \<open>Zrle\<close>, \<open>Tight\<close>, \<open>Jpeg\<close>: the decoders of \<open>core/decoders\<close>, with
    \<open>core/inflator.js\<close> in \<open>Zrle\<close>. A rectangle is drawn as it was encoded, however the network cuts its
    bytes into messages. \<open>Tight_Filters\<close>: the gradient filter against its definition by prediction.
  \<^item> \<open>Strings\<close>: \<open>core/util/strings.js\<close>. UTF-8 as the language defines it, round trip.
  \<^item> \<open>Crypto\<close>, \<open>Crypto_Laws\<close>: big integers, Diffie-Hellman, MD5, DES and AES-ECB of \<open>core/crypto\<close>. Diffie-Hellman
    agreement, DES inverse. \<open>Rsa\<close>: \<open>core/crypto/rsa.js\<close>, decryption undoes encryption. \<open>Aes_Eax\<close>: AES-EAX and the messages of
    \<open>core/ra2.js\<close>, which are EAX over CMAC as in the standards. \<open>Legacy\<close>: the interface \<open>core/crypto/crypto.js\<close> over all of these.
  \<^item> \<open>Ra2\<close>, \<open>Ra2_Laws\<close>, \<open>Ra2_Session\<close>: the negotiation of \<open>core/ra2.js\<close>. A point of the state machine is an \<open>await\<close> of the
    source. No credentials without an approved key and a proof by the server; an honest server gets them.
  \<^item> \<open>Keytables\<close>, \<open>Keyboard\<close>: \<open>core/input\<close>. A release always names the key that was pressed.
  \<^item> \<open>Gestures\<close>, \<open>Gesture_Laws\<close>: \<open>core/input/gesturehandler.js\<close>. Gestures begin, move and end in order, and every button
    that is pressed for a gesture is released.
  \<^item> \<open>Cursor\<close>: \<open>core/util/cursor.js\<close> and the mouse capture of \<open>core/util/events.js\<close>. The drawn cursor follows the mouse.
    \<open>Browser\<close>: the detection of the browser and the log levels.
  \<^item> \<open>Deflator\<close>, \<open>Rfb_Messages\<close>: \<open>core/deflator.js\<close>, \<open>core/encodings.js\<close> and the messages to the server.
    \<open>Rfb_Wire\<close>: a reader of these messages written from the protocol, which reads what was meant.
  \<^item> \<open>Rfb_State\<close>, \<open>Rfb_Handshake\<close>, \<open>Rfb_Server\<close>, \<open>Rfb_Input\<close>: the class \<open>RFB\<close> of \<open>core/rfb.js\<close>, in this
    order its state and connection states, the handshake, the messages of the server, and input with the
    public interface. \<open>rfb_step\<close> is one entry point called from outside.
  \<^item> \<open>Rfb_Invariant\<close>, \<open>Rfb_Life\<close>: what every entry point keeps; the connection states as an automaton that
    the client simulates; a disconnection always ends. \<open>Rfb_Viewonly\<close>: view only clients send nothing.
    \<open>Rfb_Reading\<close>: fences, unknown messages, empty updates. \<open>Rfb_Progress\<close>: the handshake returns.
  \<^item> \<open>Localization\<close>, \<open>Webutil\<close>: \<open>app/localization.js\<close> and \<open>app/webutil.js\<close>. The choice of the language against a
    definition by ranking; a setting survives a reload.
  \<^item> \<open>Ui_State\<close>, \<open>Ui\<close>, \<open>Ui_Input\<close>: \<open>app/ui.js\<close>, in this order the state of the page with settings, status, panels and control
    bar, the session, and the touch keyboard with the extra keys. \<open>ui_step\<close> is one event of the page, a timer or the client.
    \<open>Ui_Invariant\<close>, \<open>Ui_Session\<close>, \<open>Ui_Life\<close>, \<open>Ui_Final\<close>: what every event keeps; the page and the client agree; after the user has
    disconnected nothing connects again but the user; the handle stays in the bar.
  \<^item> \<open>Theme\<close>, \<open>Metrics\<close>: \<open>js/theme.js\<close>, \<open>js/console.js\<close> and \<open>js/metrics.js\<close>. The controls, the document and the stored theme agree;
    the chart shows the sensors that are selected.

  \<^bold>\<open>State and effects.\<close> A class is a record and a method takes and returns it. Code that may throw returns
  a sum, code that may not return an option. What the browser and the packages outside the repository do is
  an argument: the zlib streams, AES and random numbers, element sizes, the document, time. What the code does to
  the page is recorded in its state in order: calls on the canvases, frames sent, events dispatched, timers.
  Callbacks that the browser runs later, such as loaded images, timers and resolved promises, are entry
  points of their own, so every interleaving is covered by quantifying over sequences of them. In \<open>Ra2\<close> the promises are
  part of the state, and consecutive cryptographic operations with nothing visible between them are one step.

  \<^bold>\<open>Interfaces.\<close> The locale \<open>byte_queue\<close> is what readers rely on of the socket, \<open>byte_sink\<close> what writers rely on. The locales
  \<open>core_invariant\<close> and \<open>rfb_invariant\<close> say what a predicate on the client has to
  satisfy to be kept by every handler, and prove that once; the properties of the connection and of its history are
  interpretations. The locales of \<open>Decoders\<close> state what a decoder that may run out of bytes has
  to satisfy for fragmentation not to matter. For the page, \<open>Ui_Session\<close> has triples of a condition, an operation and a
  condition, composed along the code, and a notion of changes that no property of the session depends on.

  \<^bold>\<open>Bounds.\<close> No operation has fuel. Loops that end for a reason other than their structure are \<open>function\<close>s
  with a measure. The send loop of the socket, which may spin for ever, the handshake loop, and the loops
  over messages are partial functions with value \<open>None\<close> when they do not return; where the
  development says that one returns, this is a theorem.

  \<^bold>\<open>Not modelled.\<close> Of \<open>core/display.js\<close> and \<open>core/rfb.js\<close> the methods that only pass a call on to the browser (exporting the
  canvas, focus); the event target mixin \<open>core/util/eventtarget.js\<close>, whose listeners are the recorded events; the tests of
  \<open>core/util/browser.js\<close> that create elements to find a feature; \<open>app/error-handler.js\<close>, which has no state; the options and colours
  handed to the chart package and the terminal of the serial console, which are third-party packages; the build
  script \<open>utils/convert.js\<close>; the zlib code under \<open>vendor\<close>.
\<close>

end
